(* ===== verification/Mt76Prelude.thy ===== *)
theory Mt76Prelude
  imports Main "HOL-Library.Word" "HOL-Library.Code_Target_Nat"
begin

text \<open>
  Prelude of the development: the machine types of the driver, the kernel's bit-field macros
  (\<open>BIT\<close>, \<open>GENMASK\<close>, \<open>FIELD_PREP\<close>, \<open>FIELD_GET\<close> of \<open>linux/bits.h\<close> and \<open>linux/bitfield.h\<close>), the
  error numbers the driver returns, the 12-bit sequence-number helpers of
  \<open>linux/ieee80211.h\<close> and the wrap-around time comparison of \<open>linux/jiffies.h\<close>, with the lemmas
  the component theories share. The C language and the kernel headers are the standard library
  of this program; nothing here models a file under src/, so nothing here is mapped.
\<close>

unbundle bit_operations_syntax

type_synonym u8 = "8 word"
type_synonym u16 = "16 word"
type_synonym u32 = "32 word"
type_synonym u64 = "64 word"

text \<open>The error numbers that the modelled functions return (as \<open>-ENOMEM\<close> and so on in C).\<close>

datatype errno = ENOMEM | EINVAL | EBUSY | EAGAIN | EIO | ENOENT | ETIMEDOUT | ENODEV
  | EOPNOTSUPP | ENOSPC | EILSEQ | EPROBE_DEFER | EBADF | ENODATA | EPROTO | ECONNRESET

type_synonym 'a res = "errno + 'a"

section \<open>Bit fields\<close>

definition BIT :: "nat \<Rightarrow> 'a::len word" where
  "BIT n = push_bit n 1"

definition GENMASK :: "nat \<Rightarrow> nat \<Rightarrow> 'a::len word" where
  "GENMASK h l = push_bit l (mask (h + 1 - l))"

definition FIELD_PREP :: "nat \<Rightarrow> nat \<Rightarrow> 'a::len word \<Rightarrow> 'a word" where
  "FIELD_PREP h l v = push_bit l v AND GENMASK h l"

definition FIELD_GET :: "nat \<Rightarrow> nat \<Rightarrow> 'a::len word \<Rightarrow> 'a word" where
  "FIELD_GET h l w = drop_bit l (w AND GENMASK h l)"

named_theorems bitfield "reading one bit field out of a word assembled from several"

lemma bit_BIT: "bit (BIT n :: 'a::len word) m \<longleftrightarrow> m = n \<and> m < LENGTH('a)"
  unfolding BIT_def bit_push_bit_iff by (auto simp: bit_1_iff)

lemma bit_GENMASK:
  "bit (GENMASK h l :: 'a::len word) n \<longleftrightarrow> l \<le> n \<and> n \<le> h \<and> n < LENGTH('a)"
  by (auto simp: GENMASK_def bit_push_bit_iff bit_mask_iff)

lemma bit_FIELD_PREP:
  "bit (FIELD_PREP h l v :: 'a::len word) n \<longleftrightarrow> l \<le> n \<and> n \<le> h \<and> n < LENGTH('a) \<and> bit v (n - l)"
  by (auto simp: FIELD_PREP_def bit_and_iff bit_GENMASK bit_push_bit_iff)

lemma bit_FIELD_GET:
  "bit (FIELD_GET h l w :: 'a::len word) n \<longleftrightarrow> l + n \<le> h \<and> l + n < LENGTH('a) \<and> bit w (l + n)"
  by (auto simp: FIELD_GET_def bit_and_iff bit_GENMASK bit_drop_bit_eq)

lemma FIELD_GET_OR [bitfield]:
  "FIELD_GET h l (a OR b) = FIELD_GET h l a OR FIELD_GET h l b"
  by (rule bit_eqI) (auto simp: bit_FIELD_GET bit_or_iff)

lemma FIELD_GET_0 [bitfield, simp]: "FIELD_GET h l 0 = 0"
  by (simp add: FIELD_GET_def)

lemma FIELD_PREP_0 [bitfield, simp]: "FIELD_PREP h l 0 = 0"
  by (simp add: FIELD_PREP_def)

lemma FIELD_GET_PREP:
  assumes "h < LENGTH('a)"
  shows "FIELD_GET h l (FIELD_PREP h l v :: 'a::len word) = take_bit (h + 1 - l) v"
  using assms by (auto intro!: bit_eqI simp: bit_FIELD_GET bit_FIELD_PREP bit_take_bit_iff)

lemma FIELD_GET_PREP_disjoint [bitfield]:
  assumes "h1 < l2 \<or> h2 < l1"
  shows "FIELD_GET h1 l1 (FIELD_PREP h2 l2 v :: 'a::len word) = 0"
  using assms by (auto intro!: bit_eqI simp: bit_FIELD_GET bit_FIELD_PREP)

lemma FIELD_GET_BIT_disjoint [bitfield]:
  assumes "n < l \<or> h < n"
  shows "FIELD_GET h l (BIT n :: 'a::len word) = 0"
  using assms by (auto intro!: bit_eqI simp: bit_FIELD_GET bit_BIT)

lemma unat_FIELD_GET:
  "unat (FIELD_GET h l (w :: 'a::len word)) = (unat w div 2 ^ l) mod 2 ^ (h + 1 - l)"
proof -
  have "FIELD_GET h l w = take_bit (h + 1 - l) (drop_bit l w)"
    by (rule bit_eqI)
      (auto simp: bit_FIELD_GET bit_take_bit_iff bit_drop_bit_eq dest: bit_imp_le_length)
  then have "unat (FIELD_GET h l w) = take_bit (h + 1 - l) (drop_bit l (unat w))"
    by (simp only: unsigned_take_bit_eq unat_drop_bit_eq)
  then show ?thesis
    by (simp only: take_bit_eq_mod drop_bit_eq_div)
qed

lemma FIELD_GET_bound: "unat (FIELD_GET h l (w :: 'a::len word)) < 2 ^ (h + 1 - l)"
  by (simp add: unat_FIELD_GET)

section \<open>Sequence numbers and jiffies\<close>

text \<open>
  \<open>ieee80211_sn_less\<close>, \<open>ieee80211_sn_inc\<close> and \<open>ieee80211_sn_sub\<close>: 12-bit arithmetic carried
  out in 16-bit words, and the sign test of \<open>time_after32\<close>.
\<close>

definition ieee80211_sn_less :: "u16 \<Rightarrow> u16 \<Rightarrow> bool" where
  "ieee80211_sn_less a b \<longleftrightarrow> (a - b) AND 0xFFF > 2048"

definition ieee80211_sn_inc :: "u16 \<Rightarrow> u16" where
  "ieee80211_sn_inc a = (a + 1) AND 0xFFF"

definition ieee80211_sn_sub :: "u16 \<Rightarrow> u16 \<Rightarrow> u16" where
  "ieee80211_sn_sub a b = (a - b) AND 0xFFF"

definition time_after32 :: "u32 \<Rightarrow> u32 \<Rightarrow> bool" where
  "time_after32 a b \<longleftrightarrow> sint (b - a) < 0"

text \<open>The distance from one sequence number forward to another, on which proofs work.\<close>

definition sn_dist :: "u16 \<Rightarrow> u16 \<Rightarrow> int" where
  "sn_dist a b = (uint b - uint a) mod 4096"

lemma uint_and_FFF: "uint ((w :: u16) AND 0xFFF) = uint w mod 4096"
proof -
  have "w AND 0xFFF = take_bit 12 w"
    by (simp add: take_bit_eq_mask mask_eq_exp_minus_1)
  then have "uint (w AND 0xFFF) = take_bit 12 (uint w)"
    by (simp only: unsigned_take_bit_eq)
  then show ?thesis by (simp add: take_bit_eq_mod)
qed

lemma uint16_mod_4096:
  "uint (a - b :: u16) mod 4096 = (uint a - uint b) mod 4096"
  "uint (a + b :: u16) mod 4096 = (uint a + uint b) mod 4096"
  by (simp_all add: uint_word_ariths mod_mod_cancel)

lemma sn_dist_bounds: "0 \<le> sn_dist a b" "sn_dist a b < 4096"
  by (simp_all add: sn_dist_def)

lemma sn_less_dist: "ieee80211_sn_less a b \<longleftrightarrow> 2048 < sn_dist b a"
proof -
  have "((a - b) AND 0xFFF > 2048) = (2048 < uint ((a - b) AND 0xFFF))"
    by (simp add: word_less_def)
  then show ?thesis
    by (simp only: ieee80211_sn_less_def uint_and_FFF uint16_mod_4096 sn_dist_def)
qed

lemma sn_dist_swap: "sn_dist b a = (if sn_dist a b = 0 then 0 else 4096 - sn_dist a b)"
  using zmod_zminus1_eq_if [of "uint b - uint a" 4096] by (simp add: sn_dist_def)

lemma sn_less_dist': "ieee80211_sn_less a b \<longleftrightarrow> 0 < sn_dist a b \<and> sn_dist a b < 2048"
  unfolding sn_less_dist using sn_dist_bounds [of a b] by (auto simp: sn_dist_swap [of b a])

lemma uint_sn_inc: "uint (ieee80211_sn_inc a) = (uint a + 1) mod 4096"
  by (simp only: ieee80211_sn_inc_def uint_and_FFF uint16_mod_4096) simp

lemma uint_sn_sub: "uint (ieee80211_sn_sub a b) = (uint a - uint b) mod 4096"
  by (simp only: ieee80211_sn_sub_def uint_and_FFF uint16_mod_4096)

lemma sn_dist_inc:
  "sn_dist (ieee80211_sn_inc a) b = (sn_dist a b - 1) mod 4096"
  by (simp add: sn_dist_def uint_sn_inc mod_simps algebra_simps)

section \<open>State machines\<close>

text \<open>
  The reachable states of a step relation, and the interface every stateful component meets:
  an invariant that the initial states satisfy and every step keeps.
\<close>

inductive reachable :: "('s \<Rightarrow> bool) \<Rightarrow> ('s \<Rightarrow> 's \<Rightarrow> bool) \<Rightarrow> 's \<Rightarrow> bool" for init step where
  reach_init: "init s \<Longrightarrow> reachable init step s"
| reach_step: "reachable init step s \<Longrightarrow> step s t \<Longrightarrow> reachable init step t"

locale state_machine =
  fixes init :: "'s \<Rightarrow> bool" and step :: "'s \<Rightarrow> 's \<Rightarrow> bool" and inv :: "'s \<Rightarrow> bool"
  assumes init_inv: "init s \<Longrightarrow> inv s"
    and step_inv: "inv s \<Longrightarrow> step s t \<Longrightarrow> inv t"
begin

lemma reachable_inv: "reachable init step s \<Longrightarrow> inv s"
  by (induction rule: reachable.induct) (auto intro: init_inv step_inv)

lemma steps_inv: "step\<^sup>*\<^sup>* s t \<Longrightarrow> inv s \<Longrightarrow> inv t"
  by (induction rule: rtranclp_induct) (auto intro: step_inv)

end

section \<open>Words in memory\<close>

text \<open>Little-endian and big-endian words at an offset of a buffer, and the bytes of a word.\<close>

definition le16 :: "u8 list \<Rightarrow> nat \<Rightarrow> u16" where
  "le16 b i = ucast (b ! i) OR push_bit 8 (ucast (b ! (i + 1)))"

definition le32 :: "u8 list \<Rightarrow> nat \<Rightarrow> u32" where
  "le32 b i = ucast (b ! i) OR push_bit 8 (ucast (b ! (i + 1))) OR push_bit 16 (ucast (b ! (i + 2)))
     OR push_bit 24 (ucast (b ! (i + 3)))"

definition put_le16 :: "u16 \<Rightarrow> u8 list" where
  "put_le16 w = [ucast w, ucast (drop_bit 8 w)]"

definition be32 :: "u8 list \<Rightarrow> nat \<Rightarrow> u32" where
  "be32 b i = push_bit 24 (ucast (b ! i)) OR push_bit 16 (ucast (b ! (i + 1))) OR
     push_bit 8 (ucast (b ! (i + 2))) OR ucast (b ! (i + 3))"

definition put_le32 :: "u32 \<Rightarrow> u8 list" where
  "put_le32 w = [ucast w, ucast (drop_bit 8 w), ucast (drop_bit 16 w), ucast (drop_bit 24 w)]"

definition put_be32 :: "u32 \<Rightarrow> u8 list" where
  "put_be32 w = rev (put_le32 w)"

lemma length_put [simp]: "length (put_le16 h) = 2" "length (put_le32 w) = 4" "length (put_be32 w) = 4"
  by (simp_all add: put_le16_def put_le32_def put_be32_def)

lemma word_of_bytes:
  "ucast (ucast (w :: u32) :: u8) OR push_bit 8 (ucast (ucast (drop_bit 8 w) :: u8)) OR
     push_bit 16 (ucast (ucast (drop_bit 16 w) :: u8)) OR push_bit 24 (ucast (ucast (drop_bit 24 w) :: u8)) = w"
proof (rule bit_word_eqI)
  fix n :: nat assume n: "n < LENGTH(32)"
  consider "n < 8" | "8 \<le> n" "n - 8 < 8" | "16 \<le> n" "n - 16 < 8" | "24 \<le> n" "n - 24 < 8" using n by fastforce
  then show "bit (ucast (ucast w :: u8) OR push_bit 8 (ucast (ucast (drop_bit 8 w) :: u8)) OR
     push_bit 16 (ucast (ucast (drop_bit 16 w) :: u8)) OR push_bit 24 (ucast (ucast (drop_bit 24 w) :: u8)) :: u32) n = bit w n"
    using n by cases (auto simp: bit_or_iff bit_push_bit_iff bit_ucast_iff bit_drop_bit_eq)
qed

lemma le32_put: "le32 (put_le32 w @ xs) 0 = w"
  using word_of_bytes [of w] by (simp add: le32_def put_le32_def)

lemma be32_put: "be32 (put_be32 w @ xs) 0 = w"
  using word_of_bytes [of w] by (simp add: be32_def put_be32_def put_le32_def ac_simps)

lemma word32_append:
  "i = length xs \<Longrightarrow> le32 (xs @ ys) i = le32 ys 0" "i = length xs \<Longrightarrow> be32 (xs @ ys) i = be32 ys 0"
  by (simp_all add: le32_def be32_def nth_append numeral_2_eq_2)

lemma le16_put: "le16 (put_le16 w @ xs) 0 = w"
proof (rule bit_word_eqI)
  fix n :: nat assume n: "n < LENGTH(16)"
  have "n \<ge> 8 \<Longrightarrow> n - 8 < 8" using n by simp
  with n show "bit (le16 (put_le16 w @ xs) 0) n = bit w n"
    by (auto simp: le16_def put_le16_def bit_or_iff bit_push_bit_iff bit_ucast_iff bit_drop_bit_eq)
qed

lemma le16_append: "i = length xs \<Longrightarrow> le16 (xs @ ys) i = le16 ys 0"
  by (simp add: le16_def nth_append)

text \<open>\<open>n\<close> bytes of an image at offset \<open>i\<close>.\<close>

definition img_get :: "u8 list \<Rightarrow> int \<Rightarrow> nat \<Rightarrow> u8 list option" where
  "img_get img i n = (if 0 \<le> i \<and> nat i + n \<le> length img then Some (take n (drop (nat i) img)) else None)"

lemma sint_small:
  assumes "unat (w :: u32) < 2 ^ 31"
  shows "sint w = uint w"
proof -
  have "int (unat w) < 2 ^ 31" using assms by (metis of_nat_less_numeral_power_cancel_iff)
  then have "uint w < 2 ^ 31" by simp
  then have "signed_take_bit 31 (uint w) = uint w"
    by (intro signed_take_bit_int_eq_self) (auto intro: order_trans [of _ 0])
  then show ?thesis by (simp add: sint_uint)
qed

lemma le32_sub: "j + 4 \<le> n \<Longrightarrow> i + n \<le> length img \<Longrightarrow> le32 (take n (drop i img)) j = le32 img (i + j)"
  by (simp add: le32_def add.assoc)

end
