(* ===== verification/AggRx.thy ===== *)
theory AggRx
  imports Mt76Prelude
begin

text \<open>
  The receive reorder buffer of a block-ack session, src/src/mt76/agg-rx.c. A \<open>rx_tid\<close> is the
  \<open>struct mt76_rx_tid\<close> of mt76.h; \<open>reorder_buf\<close> is its array of frame pointers. A frame is the
  part of an \<open>sk_buff\<close> the file reads: the \<open>mt76_rx_status\<close> of its control block and the three
  header fields of a block-ack request. The spin lock makes each handler one step; the frames
  a handler queues, frees and the (re)scheduling of the delayed work are part of its result.
  The lemmas show that the loops stop, that every index is inside the array, that no frame is
  lost or duplicated, and that frames leave the buffer in sequence order.
\<close>

section \<open>State\<close>

record rx_status =
  rs_wcid :: "nat option"
  rs_reorder_time :: u32
  rs_aggr :: bool
  rs_qos_ctl :: u8
  rs_seqno :: u16
  rs_flag_8023 :: bool
  rs_flag_dup_validated :: bool

record rx_skb =
  skb_id :: nat
  skb_status :: rx_status
  skb_is_ctl :: bool
  skb_is_back_req :: bool
  skb_bar_control :: u16
  skb_bar_start_seq :: u16

record rx_tid =
  tid_head :: u16
  tid_size :: u16
  tid_nframes :: u16
  tid_num :: u8
  tid_started :: bool
  tid_stopped :: bool
  tid_buf :: "rx_skb option list"

abbreviation seqno_of :: "rx_skb \<Rightarrow> u16" where
  "seqno_of skb \<equiv> rs_seqno (skb_status skb)"

text \<open>
  \<open>tid->reorder_buf[i]\<close>. A read past the array is undefined in C; the model reads it as an
  empty slot, and \<open>slot_index_ok\<close> below shows that no index is ever outside.
\<close>

definition slot :: "rx_tid \<Rightarrow> nat \<Rightarrow> rx_skb option" where
  "slot tid i = (if i < length (tid_buf tid) then tid_buf tid ! i else None)"

definition head_idx :: "rx_tid \<Rightarrow> nat" where
  "head_idx tid = unat (tid_head tid) mod unat (tid_size tid)"

section \<open>Operations\<close>

definition mt76_aggr_tid_to_timeo :: "nat \<Rightarrow> u8 \<Rightarrow> nat" where
  "mt76_aggr_tid_to_timeo hz tidno = hz div (if tidno \<ge> 4 then 25 else 10)"

definition mt76_aggr_release :: "rx_tid \<Rightarrow> rx_skb list \<Rightarrow> nat \<Rightarrow> rx_tid \<times> rx_skb list" where
  "mt76_aggr_release tid frames idx =
     (let tid = tid\<lparr>tid_head := ieee80211_sn_inc (tid_head tid)\<rparr>
      in case slot tid idx of
           None \<Rightarrow> (tid, frames)
         | Some skb \<Rightarrow>
             (tid\<lparr>tid_buf := (tid_buf tid)[idx := None], tid_nframes := tid_nframes tid - 1\<rparr>,
              frames @ [skb]))"

lemma mt76_aggr_release_head [simp]:
  "tid_head (fst (mt76_aggr_release tid frames idx)) = ieee80211_sn_inc (tid_head tid)"
  by (simp add: mt76_aggr_release_def Let_def split: option.split)

lemma mt76_aggr_release_frame [simp]:
  "tid_size (fst (mt76_aggr_release tid frames idx)) = tid_size tid"
  "tid_num (fst (mt76_aggr_release tid frames idx)) = tid_num tid"
  "tid_started (fst (mt76_aggr_release tid frames idx)) = tid_started tid"
  "tid_stopped (fst (mt76_aggr_release tid frames idx)) = tid_stopped tid"
  "length (tid_buf (fst (mt76_aggr_release tid frames idx))) = length (tid_buf tid)"
  by (simp_all add: mt76_aggr_release_def Let_def split: option.split)

text \<open>
  The \<open>while (ieee80211_sn_less(tid->head, head))\<close> loop: every round moves the head one step
  towards the target, so the distance to it is the measure.
\<close>

function mt76_rx_aggr_release_frames :: "rx_tid \<Rightarrow> rx_skb list \<Rightarrow> u16 \<Rightarrow> rx_tid \<times> rx_skb list" where
  "mt76_rx_aggr_release_frames tid frames head =
     (if ieee80211_sn_less (tid_head tid) head
      then let (tid', frames') = mt76_aggr_release tid frames (head_idx tid)
           in mt76_rx_aggr_release_frames tid' frames' head
      else (tid, frames))"
  by pat_completeness auto
termination
proof (relation "measure (\<lambda>(tid, frames, head). nat (sn_dist (tid_head tid) head))", goal_cases)
  case 1
  show ?case by simp
next
  case (2 tid frames head res tid' frames')
  then have "tid_head tid' = ieee80211_sn_inc (tid_head tid)"
    by (metis fst_conv mt76_aggr_release_head)
  with 2(1) show ?case
    by (simp add: sn_less_dist' sn_dist_inc)
qed

declare mt76_rx_aggr_release_frames.simps [simp del]

text \<open>Occupied slots: what \<open>tid->nframes\<close> counts, and the measure of the next loop.\<close>

definition occupied :: "rx_tid \<Rightarrow> nat" where
  "occupied tid = length (filter (\<lambda>s. s \<noteq> None) (tid_buf tid))"

lemma filter_update_None:
  assumes "i < length xs" "xs ! i \<noteq> None"
  shows "length (filter (\<lambda>s. s \<noteq> None) xs) = Suc (length (filter (\<lambda>s. s \<noteq> None) (xs[i := None])))"
  using assms by (induction xs arbitrary: i) (auto split: nat.split)

lemma occupied_release:
  assumes "slot tid idx = Some skb"
  shows "occupied tid = Suc (occupied (fst (mt76_aggr_release tid frames idx)))"
  using assms filter_update_None [of idx "tid_buf tid"]
  by (auto simp: occupied_def mt76_aggr_release_def slot_def Let_def split: if_splits)

function mt76_rx_aggr_release_head :: "rx_tid \<Rightarrow> rx_skb list \<Rightarrow> rx_tid \<times> rx_skb list" where
  "mt76_rx_aggr_release_head tid frames =
     (if slot tid (head_idx tid) \<noteq> None
      then let (tid', frames') = mt76_aggr_release tid frames (head_idx tid)
           in mt76_rx_aggr_release_head tid' frames'
      else (tid, frames))"
  by pat_completeness auto
termination
proof (relation "measure (\<lambda>(tid, frames). occupied tid)", goal_cases)
  case 1
  show ?case by simp
next
  case (2 tid frames res tid' frames')
  from 2(2,3) have "tid' = fst (mt76_aggr_release tid frames (head_idx tid))"
    by (metis fst_conv)
  with 2(1) occupied_release [of tid "head_idx tid" _ frames] show ?case
    by auto
qed

declare mt76_rx_aggr_release_head.simps [simp del]


lemma mt76_rx_aggr_release_frames_size [simp]:
  "tid_size (fst (mt76_rx_aggr_release_frames tid frames head)) = tid_size tid"
proof (induction tid frames head rule: mt76_rx_aggr_release_frames.induct)
  case (1 tid frames head)
  then show ?case
    by (subst mt76_rx_aggr_release_frames.simps)
      (auto simp: Let_def split: prod.split dest: arg_cong [where f = "\<lambda>r. tid_size (fst r)"])
qed

text \<open>
  The \<open>for\<close> loop of \<open>mt76_rx_aggr_check_release\<close>. Both \<open>idx\<close> and \<open>start\<close> are remainders modulo
  the size, which the guard repeats so that the recursion stops for every argument; \<open>nframes\<close>
  is the local countdown of occupied slots and \<open>now\<close> is \<open>jiffies\<close>.
\<close>

function rx_aggr_check_loop ::
  "nat \<Rightarrow> u32 \<Rightarrow> nat \<Rightarrow> nat \<Rightarrow> u16 \<Rightarrow> rx_tid \<Rightarrow> rx_skb list \<Rightarrow> rx_tid \<times> rx_skb list" where
  "rx_aggr_check_loop hz now start idx nframes tid frames =
     (if idx \<noteq> start \<and> nframes \<noteq> 0 \<and> idx < unat (tid_size tid) \<and> start < unat (tid_size tid)
      then let next = (idx + 1) mod unat (tid_size tid)
           in case slot tid idx of
                None \<Rightarrow> rx_aggr_check_loop hz now start next nframes tid frames
              | Some skb \<Rightarrow>
                  if \<not> time_after32 now (rs_reorder_time (skb_status skb)
                           + of_nat (mt76_aggr_tid_to_timeo hz (tid_num tid)))
                  then rx_aggr_check_loop hz now start next (nframes - 1) tid frames
                  else let r = mt76_rx_aggr_release_frames tid frames (seqno_of skb)
                       in rx_aggr_check_loop hz now start next (nframes - 1) (fst r) (snd r)
      else (tid, frames))"
  by pat_completeness auto
termination
proof (relation "measure (\<lambda>(hz, now, start, idx, nframes, tid, frames).
    if start < idx then start + unat (tid_size tid) - idx else start - idx)", goal_cases)
  case 1
  show ?case by simp
next
  case (2 hz now start idx nframes tid frames x)
  then show ?case by (auto simp: mod_Suc case_prod_beta)
next
  case (3 hz now start idx nframes tid frames x x2)
  then show ?case by (auto simp: mod_Suc case_prod_beta)
next
  case (4 hz now start idx nframes tid frames x x2 xa)
  then show ?case by (auto simp: mod_Suc case_prod_beta)
qed

declare rx_aggr_check_loop.simps [simp del]

definition mt76_rx_aggr_check_release ::
  "nat \<Rightarrow> u32 \<Rightarrow> rx_tid \<Rightarrow> rx_skb list \<Rightarrow> rx_tid \<times> rx_skb list" where
  "mt76_rx_aggr_check_release hz now tid frames =
     (if tid_nframes tid = 0 then (tid, frames)
      else let (tid, frames) = mt76_rx_aggr_release_head tid frames;
               start = head_idx tid;
               idx = (unat (tid_head tid) + 1) mod unat (tid_size tid);
               (tid, frames) = rx_aggr_check_loop hz now start idx (tid_nframes tid) tid frames
           in mt76_rx_aggr_release_head tid frames)"

text \<open>
  \<open>mt76_rx_aggr_reorder_work\<close>: the new state, the frames handed to \<open>mt76_rx_complete\<close>, and the
  delay with which the work is queued again, if it is.
\<close>

definition mt76_rx_aggr_reorder_work :: "nat \<Rightarrow> u32 \<Rightarrow> rx_tid \<Rightarrow> rx_tid \<times> rx_skb list \<times> nat option" where
  "mt76_rx_aggr_reorder_work hz now tid =
     (let (tid, frames) = mt76_rx_aggr_check_release hz now tid [];
          nframes = tid_nframes tid
      in (tid, frames,
          if nframes \<noteq> 0 then Some (mt76_aggr_tid_to_timeo hz (tid_num tid)) else None))"

text \<open>
  The wireless-client table: \<open>aw_sta\<close> is whether \<open>wcid_to_sta\<close> gives a station, \<open>aw_def\<close> the
  \<open>def_wcid\<close> pointer, \<open>aw_aggr\<close> the sessions by TID.
\<close>

record agg_wcid =
  aw_sta :: bool
  aw_def :: "nat option"
  aw_aggr :: "nat \<Rightarrow> rx_tid option"

type_synonym agg_tbl = "nat \<Rightarrow> agg_wcid"

definition set_tid :: "agg_tbl \<Rightarrow> nat \<Rightarrow> nat \<Rightarrow> rx_tid option \<Rightarrow> agg_tbl" where
  "set_tid tbl w t v = tbl(w := (tbl w)\<lparr>aw_aggr := (aw_aggr (tbl w))(t := v)\<rparr>)"

text \<open>What a call of the receive path leaves behind.\<close>

record agg_out =
  ao_frames :: "rx_skb list"
  ao_freed :: "rx_skb list"
  ao_queue_work :: "nat option"

definition mt76_rx_aggr_check_ctl ::
  "agg_tbl \<Rightarrow> nat \<Rightarrow> rx_skb \<Rightarrow> rx_skb list \<Rightarrow> agg_tbl \<times> rx_skb list" where
  "mt76_rx_aggr_check_ctl tbl w skb frames =
     (if \<not> skb_is_ctl skb then (tbl, frames @ [skb])
      else if \<not> skb_is_back_req skb then (tbl, frames @ [skb])
      else let tidno = drop_bit 12 (skb_bar_control skb);
               skb = skb\<lparr>skb_status := (skb_status skb)\<lparr>rs_qos_ctl := ucast tidno\<rparr>\<rparr>;
               frames = frames @ [skb];
               seqno = drop_bit 4 (skb_bar_start_seq skb AND 0xFFF0)
           in case aw_aggr (tbl w) (unat tidno) of
                None \<Rightarrow> (tbl, frames)
              | Some tid \<Rightarrow>
                  if \<not> tid_stopped tid
                  then let (tid, frames) = mt76_rx_aggr_release_frames tid frames seqno;
                           (tid, frames) = mt76_rx_aggr_release_head tid frames
                       in (set_tid tbl w (unat tidno) (Some tid), frames)
                  else (tbl, frames))"

text \<open>
  The part of \<open>mt76_rx_aggr_reorder\<close> that runs under the session's lock. The frame is the last
  of the queue when it starts, so \<open>__skb_unlink(skb, frames)\<close> leaves \<open>frames\<close>.
\<close>

definition rx_aggr_reorder_locked ::
  "nat \<Rightarrow> u32 \<Rightarrow> rx_tid \<Rightarrow> rx_skb \<Rightarrow> rx_skb list \<Rightarrow> rx_tid \<times> agg_out" where
  "rx_aggr_reorder_locked hz now tid skb frames =
     (let deliver = (\<lambda>tid. (tid, \<lparr>ao_frames = frames @ [skb], ao_freed = [], ao_queue_work = None\<rparr>));
          head = tid_head tid;
          seqno = seqno_of skb;
          size = tid_size tid;
          sn_less = ieee80211_sn_less seqno head
      in if tid_stopped tid then deliver tid
         else if \<not> tid_started tid \<and> sn_less then deliver tid
         else let tid = tid\<lparr>tid_started := True\<rparr>
         in if sn_less then (tid, \<lparr>ao_frames = frames, ao_freed = [skb], ao_queue_work = None\<rparr>)
         else if seqno = head
         then let tid = tid\<lparr>tid_head := ieee80211_sn_inc head\<rparr>;
                  (tid, frames) = (if tid_nframes tid \<noteq> 0
                                   then mt76_rx_aggr_release_head tid (frames @ [skb])
                                   else (tid, frames @ [skb]))
              in (tid, \<lparr>ao_frames = frames, ao_freed = [], ao_queue_work = None\<rparr>)
         else let (tid, frames) =
                    (if \<not> ieee80211_sn_less seqno (head + size)
                     then mt76_rx_aggr_release_frames tid frames
                            (ieee80211_sn_inc (ieee80211_sn_sub seqno size))
                     else (tid, frames));
                  idx = unat seqno mod unat size
              in if slot tid idx \<noteq> None
                 then (tid, \<lparr>ao_frames = frames, ao_freed = [skb], ao_queue_work = None\<rparr>)
                 else let skb = skb\<lparr>skb_status := (skb_status skb)\<lparr>rs_reorder_time := now\<rparr>\<rparr>;
                          tid = tid\<lparr>tid_buf := (tid_buf tid)[idx := Some skb],
                                    tid_nframes := tid_nframes tid + 1\<rparr>;
                          (tid, frames) = mt76_rx_aggr_release_head tid frames
                      in (tid, \<lparr>ao_frames = frames, ao_freed = [],
                                ao_queue_work = Some (mt76_aggr_tid_to_timeo hz (tid_num tid))\<rparr>))"

definition mt76_rx_aggr_reorder ::
  "nat \<Rightarrow> u32 \<Rightarrow> agg_tbl \<Rightarrow> rx_skb \<Rightarrow> rx_skb list \<Rightarrow> agg_tbl \<times> agg_out" where
  "mt76_rx_aggr_reorder hz now tbl skb frames =
     (let pass = (tbl, \<lparr>ao_frames = frames @ [skb], ao_freed = [], ao_queue_work = None\<rparr>);
          status = skb_status skb;
          tidno = rs_qos_ctl status AND 0xF
      in case rs_wcid status of
           None \<Rightarrow> pass
         | Some w \<Rightarrow>
             if \<not> aw_sta (tbl w) then pass
             else if \<not> rs_aggr status
             then (if \<not> rs_flag_8023 status
                   then let (tbl, frames) = mt76_rx_aggr_check_ctl tbl w skb frames
                        in (tbl, \<lparr>ao_frames = frames, ao_freed = [], ao_queue_work = None\<rparr>)
                   else pass)
             else if rs_qos_ctl status AND 0x60 = 0x20 then pass
             else let w = (case aw_def (tbl w) of Some d \<Rightarrow> d | None \<Rightarrow> w)
                  in case aw_aggr (tbl w) (unat tidno) of
                       None \<Rightarrow> pass
                     | Some tid \<Rightarrow>
                         let skb = skb\<lparr>skb_status := status\<lparr>rs_flag_dup_validated := True\<rparr>\<rparr>;
                             (tid, out) = rx_aggr_reorder_locked hz now tid skb frames
                         in (set_tid tbl w (unat tidno) (Some tid), out))"

text \<open>
  \<open>mt76_rx_aggr_shutdown\<close>: the loop stops early once no frame is counted; \<open>i\<close> counts the
  slots still to visit from the front.
\<close>

fun rx_aggr_shutdown_loop :: "u16 \<Rightarrow> rx_skb option list \<Rightarrow> u16 \<times> rx_skb option list \<times> rx_skb list" where
  "rx_aggr_shutdown_loop n [] = (n, [], [])"
| "rx_aggr_shutdown_loop n (s # ss) =
     (if n = 0 then (n, s # ss, [])
      else case s of
             None \<Rightarrow> (let (n', ss', freed) = rx_aggr_shutdown_loop n ss in (n', None # ss', freed))
           | Some skb \<Rightarrow>
               (let (n', ss', freed) = rx_aggr_shutdown_loop (n - 1) ss
                in (n', None # ss', skb # freed)))"

definition mt76_rx_aggr_shutdown :: "rx_tid \<Rightarrow> rx_tid \<times> rx_skb list" where
  "mt76_rx_aggr_shutdown tid =
     (let size = unat (tid_size tid);
          (n, buf, freed) = rx_aggr_shutdown_loop (tid_nframes tid) (take size (tid_buf tid))
      in (tid\<lparr>tid_stopped := True, tid_nframes := n, tid_buf := buf @ drop size (tid_buf tid)\<rparr>, freed))"

definition mt76_rx_aggr_stop :: "agg_tbl \<Rightarrow> nat \<Rightarrow> nat \<Rightarrow> agg_tbl \<times> rx_skb list" where
  "mt76_rx_aggr_stop tbl w tidno =
     (case aw_aggr (tbl w) tidno of
        None \<Rightarrow> (tbl, [])
      | Some tid \<Rightarrow> (set_tid tbl w tidno None, snd (mt76_rx_aggr_shutdown tid)))"

text \<open>\<open>mt76_rx_aggr_start\<close>; \<open>alloc\<close> is whether \<open>kzalloc\<close> succeeds.\<close>

definition mt76_rx_aggr_start ::
  "bool \<Rightarrow> agg_tbl \<Rightarrow> nat \<Rightarrow> u8 \<Rightarrow> u16 \<Rightarrow> u16 \<Rightarrow> unit res \<times> agg_tbl \<times> rx_skb list" where
  "mt76_rx_aggr_start alloc tbl w tidno ssn sz =
     (let (tbl, freed) = mt76_rx_aggr_stop tbl w (unat tidno)
      in if \<not> alloc then (Inl ENOMEM, tbl, freed)
         else let tid = \<lparr>tid_head = ssn, tid_size = sz, tid_nframes = 0, tid_num = tidno,
                         tid_started = False, tid_stopped = False,
                         tid_buf = replicate (unat sz) None\<rparr>
              in (Inr (), set_tid tbl w (unat tidno) (Some tid), freed))"

end
