(* ===== verification/AggRxProps.thy ===== *)
theory AggRxProps
  imports AggRx "HOL-Library.Sublist"
begin

text \<open>
  What the reorder buffer of theory AggRx does. The array of slots is read as a finite map from
  sequence numbers to frames (\<open>buffered\<close>); both release loops are runs of single releases
  (\<open>release_n\<close>), and a run hands over the frames of consecutive sequence numbers. From this
  follow the refinement of the receive handler, the order of delivery, the invariant of a
  session under every interleaving of its events, and the timeout. The size of a session is
  assumed to divide 4096; the last theorem shows what happens when it does not.
\<close>

section \<open>The buffer as a finite map\<close>

definition tid_shape :: "rx_tid \<Rightarrow> bool" where
  "tid_shape tid \<longleftrightarrow> 0 < unat (tid_size tid) \<and> length (tid_buf tid) = unat (tid_size tid)
     \<and> unat (tid_nframes tid) = occupied tid"

definition tid_window :: "rx_tid \<Rightarrow> bool" where
  "tid_window tid \<longleftrightarrow> 1 < unat (tid_size tid) \<and> unat (tid_size tid) \<le> 2048
     \<and> unat (tid_size tid) dvd 4096 \<and> uint (tid_head tid) < 4096
     \<and> (\<forall>i skb. slot tid i = Some skb \<longrightarrow>
          uint (seqno_of skb) < 4096 \<and> unat (seqno_of skb) mod unat (tid_size tid) = i
          \<and> sn_dist (tid_head tid) (seqno_of skb) < uint (tid_size tid))"

definition tid_ok :: "rx_tid \<Rightarrow> bool" where
  "tid_ok tid \<longleftrightarrow> tid_shape tid \<and> tid_window tid"

definition tid_inv :: "rx_tid \<Rightarrow> bool" where
  "tid_inv tid \<longleftrightarrow> tid_ok tid \<and> slot tid (head_idx tid) = None"

definition buffered :: "rx_tid \<Rightarrow> u16 \<Rightarrow> rx_skb option" where
  "buffered tid s = (case slot tid (unat s mod unat (tid_size tid)) of
     Some skb \<Rightarrow> if seqno_of skb = s then Some skb else None | None \<Rightarrow> None)"

fun seq_run :: "u16 \<Rightarrow> nat \<Rightarrow> u16 list" where
  "seq_run h 0 = []"
| "seq_run h (Suc n) = h # seq_run (ieee80211_sn_inc h) n"

fun release_n :: "nat \<Rightarrow> rx_tid \<Rightarrow> rx_skb list \<Rightarrow> rx_tid \<times> rx_skb list" where
  "release_n 0 tid frames = (tid, frames)"
| "release_n (Suc n) tid frames =
     (let r = mt76_aggr_release tid frames (head_idx tid) in release_n n (fst r) (snd r))"

lemma slot_index_ok: "tid_shape tid \<Longrightarrow> unat s mod unat (tid_size tid) < length (tid_buf tid)"
  by (simp add: tid_shape_def)

lemma release_frames_n:
  "mt76_rx_aggr_release_frames tid frames tgt =
     release_n (if ieee80211_sn_less (tid_head tid) tgt then nat (sn_dist (tid_head tid) tgt) else 0) tid frames"
proof (induction tid frames tgt rule: mt76_rx_aggr_release_frames.induct)
  case (1 tid frames tgt)
  show ?case
  proof (cases "ieee80211_sn_less (tid_head tid) tgt")
    case False
    then show ?thesis by (simp add: mt76_rx_aggr_release_frames.simps)
  next
    case True
    let ?r = "mt76_aggr_release tid frames (head_idx tid)"
    let ?d = "sn_dist (tid_head tid) tgt"
    have d: "0 < ?d" "?d < 2048" using True by (simp_all add: sn_less_dist')
    have d': "sn_dist (tid_head (fst ?r)) tgt = ?d - 1"
      using d by (simp add: sn_dist_inc)
    have "mt76_rx_aggr_release_frames tid frames tgt = mt76_rx_aggr_release_frames (fst ?r) (snd ?r) tgt"
      using True by (subst mt76_rx_aggr_release_frames.simps) (simp add: case_prod_beta Let_def)
    also have "\<dots> = release_n (nat (?d - 1)) (fst ?r) (snd ?r)"
    proof -
      have "mt76_rx_aggr_release_frames (fst ?r) (snd ?r) tgt =
        release_n (if ieee80211_sn_less (tid_head (fst ?r)) tgt
          then nat (sn_dist (tid_head (fst ?r)) tgt) else 0) (fst ?r) (snd ?r)"
        using 1 [OF True refl, of "fst ?r" "snd ?r"] by simp
      then show ?thesis
        unfolding sn_less_dist' d' using d by (cases "?d = 1") auto
    qed
    also have "\<dots> = release_n (nat ?d) tid frames"
      using d by (cases "nat ?d") (auto simp: Let_def nat_diff_distrib)
    finally show ?thesis using True by simp
  qed
qed

lemma release_head_n:
  "\<exists>n \<le> occupied tid. mt76_rx_aggr_release_head tid frames = release_n n tid frames"
proof (induction tid frames rule: mt76_rx_aggr_release_head.induct)
  case (1 tid frames)
  let ?r = "mt76_aggr_release tid frames (head_idx tid)"
  show ?case
  proof (cases "slot tid (head_idx tid)")
    case None
    then show ?thesis
      by (intro exI [of _ 0]) (simp add: mt76_rx_aggr_release_head.simps)
  next
    case (Some skb)
    then obtain n where n: "n \<le> occupied (fst ?r)"
        "mt76_rx_aggr_release_head (fst ?r) (snd ?r) = release_n n (fst ?r) (snd ?r)"
      using 1 [OF _ refl, of "fst ?r" "snd ?r"] by auto
    have "mt76_rx_aggr_release_head tid frames = release_n (Suc n) tid frames"
      using Some n by (subst mt76_rx_aggr_release_head.simps) (simp add: case_prod_beta Let_def)
    moreover have "Suc n \<le> occupied tid"
      using occupied_release [OF Some, of frames] n by simp
    ultimately show ?thesis by blast
  qed
qed

lemma release_head_empty:
  "slot (fst (mt76_rx_aggr_release_head tid frames)) (head_idx (fst (mt76_rx_aggr_release_head tid frames))) = None"
proof (induction tid frames rule: mt76_rx_aggr_release_head.induct)
  case (1 tid frames)
  then show ?case
    by (cases "slot tid (head_idx tid) = None"; subst (1 2) mt76_rx_aggr_release_head.simps)
      (auto simp: case_prod_beta Let_def)
qed

lemma mod_add_window:
  fixes n :: nat
  assumes "(x + d) mod n = (x + e) mod n" "d < n" "e < n"
  shows "d = e"
proof -
  have "int ((x + d) mod n) = int ((x + e) mod n)" using assms(1) by simp
  then have "(int x + int d) mod int n = (int x + int e) mod int n"
    by (simp only: of_nat_mod of_nat_add)
  then have "int n dvd int d - int e"
    by (simp add: mod_eq_dvd_iff)
  moreover have "\<bar>int d - int e\<bar> < int n" using assms by linarith
  ultimately show ?thesis
    using dvd_imp_le_int [of "int d - int e" "int n"] by force
qed

lemma sn_index:
  assumes "uint b < 4096" "n dvd 4096"
  shows "unat b mod n = (unat a + nat (sn_dist a b)) mod n"
proof -
  have "int n dvd 4096" using assms(2) by (metis of_nat_dvd_iff of_nat_numeral)
  then have "(uint a + sn_dist a b) mod int n = (uint a + (uint b - uint a)) mod int n"
    unfolding sn_dist_def by (metis mod_add_right_eq mod_mod_cancel)
  then have "int ((unat a + nat (sn_dist a b)) mod n) = int (unat b mod n)"
    using sn_dist_bounds(1) [of a b] by (simp add: of_nat_mod)
  then show ?thesis by (metis of_nat_eq_iff)
qed

lemma sn_dist_self [simp]: "sn_dist a a = 0"
  by (simp add: sn_dist_def)

lemma sn_dist_0_iff:
  assumes a: "uint a < 4096" and b: "uint b < 4096"
  shows "sn_dist a b = 0 \<longleftrightarrow> a = b"
proof
  assume "sn_dist a b = 0"
  then have "uint b mod 4096 = uint a mod 4096"
    by (simp add: sn_dist_def mod_eq_dvd_iff mod_eq_0_iff_dvd)
  with a b show "a = b" by (simp add: mod_pos_pos_trivial word_uint_eq_iff)
qed simp

lemma head_slot_seq:
  assumes "tid_ok tid" "slot tid (head_idx tid) = Some skb"
  shows "seqno_of skb = tid_head tid"
proof -
  let ?n = "unat (tid_size tid)" and ?d = "sn_dist (tid_head tid) (seqno_of skb)"
  have w: "uint (seqno_of skb) < 4096" "unat (seqno_of skb) mod ?n = head_idx tid"
      "?d < uint (tid_size tid)" "?n dvd 4096" "uint (tid_head tid) < 4096" "0 < ?n"
    using assms by (auto simp: tid_ok_def tid_window_def tid_shape_def)
  have "(unat (tid_head tid) + nat ?d) mod ?n = (unat (tid_head tid) + 0) mod ?n"
    using w(2) sn_index [OF w(1) w(4), of "tid_head tid"] by (simp add: head_idx_def)
  moreover have "nat ?d < ?n"
    using w(3) sn_dist_bounds(1) [of "tid_head tid" "seqno_of skb"]
    by (simp add: nat_less_iff)
  ultimately have "nat ?d = 0"
    using w(6) by (rule mod_add_window)
  then have "?d = 0"
    using sn_dist_bounds(1) [of "tid_head tid" "seqno_of skb"] by simp
  then show ?thesis using w sn_dist_0_iff by simp
qed

lemma uint_sn_inc_less: "uint (ieee80211_sn_inc a) < 4096"
  using uint_sn_inc [of a] by simp

lemma slot_head_update [simp]:
  "slot (tid\<lparr>tid_head := h\<rparr>) i = slot tid i" "occupied (tid\<lparr>tid_head := h\<rparr>) = occupied tid"
  by (simp_all add: slot_def occupied_def)

lemma slot_release:
  "slot (fst (mt76_aggr_release tid frames idx)) i = (if i = idx then None else slot tid i)"
  by (auto simp: mt76_aggr_release_def slot_def Let_def split: option.split)

lemma occupied_pos: "slot tid i = Some skb \<Longrightarrow> 0 < occupied tid"
  by (auto simp: occupied_def slot_def filter_empty_conv split: if_splits)
   (metis nth_mem option.distinct(1))

lemma shape_release:
  assumes "tid_shape tid"
  shows "tid_shape (fst (mt76_aggr_release tid frames idx))"
proof (cases "slot tid idx")
  case None
  with assms show ?thesis
    by (simp add: tid_shape_def mt76_aggr_release_def Let_def)
next
  case (Some skb)
  have "tid_nframes tid \<noteq> 0"
    using occupied_pos [OF Some] assms by (auto simp: tid_shape_def)
  then have "unat (tid_nframes tid - 1) = unat (tid_nframes tid) - 1"
    by (rule unat_minus_one)
  moreover have "tid_nframes (fst (mt76_aggr_release tid frames idx)) = tid_nframes tid - 1"
    using Some by (simp add: mt76_aggr_release_def Let_def)
  ultimately show ?thesis
    using assms occupied_release [OF Some, of frames] by (simp add: tid_shape_def)
qed

lemma window_release:
  assumes "tid_ok tid"
  shows "tid_window (fst (mt76_aggr_release tid frames (head_idx tid)))"
proof -
  have "sn_dist (ieee80211_sn_inc (tid_head tid)) (seqno_of skb) < uint (tid_size tid)"
    if "slot tid i = Some skb" "i \<noteq> head_idx tid" for i skb
  proof -
    have b: "sn_dist (tid_head tid) (seqno_of skb) < uint (tid_size tid)"
        "uint (seqno_of skb) < 4096" "unat (seqno_of skb) mod unat (tid_size tid) = i"
        "uint (tid_head tid) < 4096"
      using assms that by (auto simp: tid_ok_def tid_window_def)
    then have "sn_dist (tid_head tid) (seqno_of skb) \<noteq> 0"
      using that sn_dist_0_iff by (auto simp: head_idx_def)
    with b sn_dist_bounds [of "tid_head tid" "seqno_of skb"] show ?thesis
      by (simp add: sn_dist_inc)
  qed
  with assms show ?thesis
    by (auto simp: tid_ok_def tid_window_def slot_release uint_sn_inc_less)
qed

lemma buffered_at_slot:
  assumes "tid_ok tid"
  shows "slot tid (unat s mod unat (tid_size tid)) = Some skb \<and> seqno_of skb = s
    \<longleftrightarrow> buffered tid s = Some skb"
  by (auto simp: buffered_def split: option.splits if_splits)

lemma release_step:
  fixes frames
  assumes "tid_ok tid"
  defines "r \<equiv> mt76_aggr_release tid frames (head_idx tid)"
  shows "tid_ok (fst r)"
    and "snd r = frames @ (case buffered tid (tid_head tid) of None \<Rightarrow> [] | Some skb \<Rightarrow> [skb])"
    and "buffered (fst r) = (buffered tid)(tid_head tid := None)"
proof -
  show "tid_ok (fst r)"
    using assms shape_release window_release unfolding r_def tid_ok_def by blast
  show "snd r = frames @ (case buffered tid (tid_head tid) of None \<Rightarrow> [] | Some skb \<Rightarrow> [skb])"
    using head_slot_seq [OF assms(1)]
    by (auto simp: r_def buffered_def mt76_aggr_release_def Let_def head_idx_def split: option.splits)
  show "buffered (fst r) = (buffered tid)(tid_head tid := None)"
  proof
    fix s
    show "buffered (fst r) s = ((buffered tid)(tid_head tid := None)) s"
      using head_slot_seq [OF assms(1)]
      by (auto simp: r_def buffered_def slot_release head_idx_def split: option.splits)
  qed
qed


lemma uint_sn_inc_funpow:
  "uint ((ieee80211_sn_inc ^^ Suc k) h) = (uint h + int (Suc k)) mod 4096"
  by (induction k) (simp_all add: uint_sn_inc mod_simps algebra_simps)

lemma seq_run_mem: "s \<in> set (seq_run h n) \<longleftrightarrow> (\<exists>k<n. s = (ieee80211_sn_inc ^^ k) h)"
proof (induction n arbitrary: h)
  case 0
  then show ?case by simp
next
  case (Suc n)
  have "(\<exists>k<n. s = (ieee80211_sn_inc ^^ k) (ieee80211_sn_inc h)) \<longleftrightarrow>
        (\<exists>k<n. s = (ieee80211_sn_inc ^^ Suc k) h)"
    by (simp only: funpow_Suc_right o_apply)
  with Suc show ?case
    by (auto simp: less_Suc_eq_0_disj simp del: funpow.simps(2))
qed

lemma seq_run_fresh:
  assumes "uint h < 4096" "n < 4096"
  shows "h \<notin> set (seq_run (ieee80211_sn_inc h) n)"
proof
  assume "h \<in> set (seq_run (ieee80211_sn_inc h) n)"
  then obtain k where k: "k < n" "h = (ieee80211_sn_inc ^^ Suc k) h"
    by (auto simp: seq_run_mem funpow_Suc_right simp del: funpow.simps(2))
  then have "uint h = (uint h + int (Suc k)) mod 4096"
    using uint_sn_inc_funpow [of k h] by simp
  then have "int ((unat h + Suc k) mod 4096) = int ((unat h + 0) mod 4096)"
    using assms(1) by (simp add: of_nat_mod mod_pos_pos_trivial ac_simps)
  then have "(unat h + Suc k) mod 4096 = (unat h + 0) mod 4096"
    by (simp only: of_nat_eq_iff)
  then show False
    using mod_add_window [of "unat h" "Suc k" 4096 0] k(1) assms(2) by simp
qed

lemma map_filter_cong_on:
  "(\<And>x. x \<in> set xs \<Longrightarrow> f x = g x) \<Longrightarrow> List.map_filter f xs = List.map_filter g xs"
  by (induction xs) (auto simp: map_filter_simps split: option.splits)

lemma release_n_spec:
  assumes "tid_ok tid" "n \<le> 4096"
  shows "tid_ok (fst (release_n n tid frames))
    \<and> snd (release_n n tid frames) = frames @ List.map_filter (buffered tid) (seq_run (tid_head tid) n)
    \<and> buffered (fst (release_n n tid frames)) =
        (\<lambda>s. if s \<in> set (seq_run (tid_head tid) n) then None else buffered tid s)
    \<and> tid_head (fst (release_n n tid frames)) = (ieee80211_sn_inc ^^ n) (tid_head tid)"
  using assms
proof (induction n arbitrary: tid frames)
  case 0
  then show ?case by (simp add: map_filter_simps)
next
  case (Suc n)
  let ?r = "mt76_aggr_release tid frames (head_idx tid)"
  let ?run = "seq_run (ieee80211_sn_inc (tid_head tid)) n"
  have "uint (tid_head tid) < 4096"
    using Suc.prems(1) by (simp add: tid_ok_def tid_window_def)
  with Suc.prems(2) have fresh: "tid_head tid \<notin> set ?run"
    using seq_run_fresh by simp
  then have eq: "List.map_filter ((buffered tid)(tid_head tid := None)) ?run =
      List.map_filter (buffered tid) ?run"
    by (intro map_filter_cong_on) auto
  have n: "n \<le> 4096" using Suc.prems(2) by simp
  note IH = Suc.IH [OF release_step(1) [OF Suc.prems(1)] n, of frames "snd ?r",
      unfolded mt76_aggr_release_head release_step(3) [OF Suc.prems(1), of frames] eq]
  show ?case
    using IH release_step(2) [OF Suc.prems(1), of frames] fresh
    by (auto simp: Let_def map_filter_simps funpow_swap1 fun_eq_iff split: option.splits)
qed

lemma buffered_Some_seq: "buffered tid s = Some skb \<Longrightarrow> seqno_of skb = s"
  by (auto simp: buffered_def split: option.splits if_splits)

lemma release_frames_spec:
  assumes "tid_ok tid" "ieee80211_sn_less (tid_head tid) tgt" "uint tgt < 4096"
  defines "n \<equiv> nat (sn_dist (tid_head tid) tgt)"
  shows "mt76_rx_aggr_release_frames tid frames tgt = release_n n tid frames"
    and "(ieee80211_sn_inc ^^ n) (tid_head tid) = tgt" and "n < 2048"
proof -
  show "mt76_rx_aggr_release_frames tid frames tgt = release_n n tid frames"
    using assms by (simp add: release_frames_n)
  have n: "0 < n" "n < 2048" "int n = sn_dist (tid_head tid) tgt"
    using assms(2) sn_dist_bounds(1) by (auto simp: n_def sn_less_dist' nat_less_iff)
  then show "n < 2048" by simp
  obtain k where k: "n = Suc k" using n(1) by (cases n) auto
  have "uint ((ieee80211_sn_inc ^^ n) (tid_head tid)) = (uint (tid_head tid) + sn_dist (tid_head tid) tgt) mod 4096"
    using uint_sn_inc_funpow [of k "tid_head tid"] k n(3) by (simp only:)
  also have "\<dots> = uint tgt"
    using assms(3) by (simp add: sn_dist_def mod_simps)
  finally show "(ieee80211_sn_inc ^^ n) (tid_head tid) = tgt"
    by (simp add: word_uint_eq_iff)
qed

lemma release_head_spec:
  assumes "tid_ok tid"
  obtains n where "n \<le> 2048"
    and "mt76_rx_aggr_release_head tid frames = release_n n tid frames"
    and "tid_inv (fst (mt76_rx_aggr_release_head tid frames))"
proof -
  obtain n where n: "n \<le> occupied tid"
      "mt76_rx_aggr_release_head tid frames = release_n n tid frames"
    using release_head_n by blast
  have "occupied tid \<le> length (tid_buf tid)" by (simp add: occupied_def)
  moreover have "length (tid_buf tid) \<le> 2048"
    using assms by (auto simp: tid_ok_def tid_shape_def tid_window_def)
  ultimately have "n \<le> 2048" using n(1) by linarith
  moreover have "tid_inv (fst (mt76_rx_aggr_release_head tid frames))"
    using release_n_spec [OF assms, of n frames] n(2) \<open>n \<le> 2048\<close> release_head_empty [of tid frames]
    by (simp add: tid_inv_def)
  ultimately show ?thesis using n(2) that by blast
qed

lemma filter_update_Some:
  assumes "i < length xs" "xs ! i = None"
  shows "length (filter (\<lambda>s. s \<noteq> None) (xs[i := Some x])) = Suc (length (filter (\<lambda>s. s \<noteq> None) xs))"
  using assms by (induction xs arbitrary: i) (auto split: nat.split)

text \<open>Storing a frame in its free slot inside the window.\<close>

lemma store_ok:
  fixes tid skb
  assumes ok: "tid_ok tid" and free: "slot tid (unat (seqno_of skb) mod unat (tid_size tid)) = None"
    and seq: "uint (seqno_of skb) < 4096" and d: "sn_dist (tid_head tid) (seqno_of skb) < uint (tid_size tid)"
  defines "tid' \<equiv> tid\<lparr>tid_buf := (tid_buf tid)[unat (seqno_of skb) mod unat (tid_size tid) := Some skb],
                      tid_nframes := tid_nframes tid + 1\<rparr>"
  shows "tid_ok tid'" and "buffered tid' = (buffered tid)(seqno_of skb := Some skb)"
proof -
  let ?i = "unat (seqno_of skb) mod unat (tid_size tid)"
  have i: "?i < length (tid_buf tid)"
    using ok slot_index_ok by (auto simp: tid_ok_def)
  have sl: "slot tid' j = (if j = ?i then Some skb else slot tid j)" for j
    using i by (auto simp: slot_def tid'_def)
  have occ: "occupied tid' = Suc (occupied tid)"
    using filter_update_Some [OF i] free i by (simp add: occupied_def slot_def tid'_def)
  have "length (filter (\<lambda>s. s \<noteq> None) (tid_buf tid)) < length (tid_buf tid)"
    using i free nth_mem [OF i] by (intro length_filter_less [of "tid_buf tid ! ?i"]) (auto simp: slot_def)
  then have "occupied tid < 2048"
    using ok by (auto simp: tid_ok_def tid_shape_def tid_window_def occupied_def)
  then have "unat (tid_nframes tid + 1) = Suc (occupied tid)"
    using ok by (simp add: tid_ok_def tid_shape_def unat_word_ariths)
  then have nf: "unat (tid_nframes tid') = occupied tid'"
    using occ by (simp add: tid'_def)
  have fr: "tid_head tid' = tid_head tid" "tid_size tid' = tid_size tid"
      "length (tid_buf tid') = length (tid_buf tid)"
    by (simp_all add: tid'_def)
  show "tid_ok tid'"
    using ok seq d nf by (auto simp: tid_ok_def tid_shape_def tid_window_def sl fr)
  show "buffered tid' = (buffered tid)(seqno_of skb := Some skb)"
  proof
    fix s
    show "buffered tid' s = ((buffered tid)(seqno_of skb := Some skb)) s"
      using free by (auto simp: buffered_def sl fr)
  qed
qed

lemma slot_buffered:
  assumes ok: "tid_ok tid" and s: "uint s < 4096" "sn_dist (tid_head tid) s < uint (tid_size tid)"
  shows "slot tid (unat s mod unat (tid_size tid)) = buffered tid s"
proof (cases "slot tid (unat s mod unat (tid_size tid))")
  case None
  then show ?thesis by (simp add: buffered_def)
next
  case (Some skb)
  let ?n = "unat (tid_size tid)" and ?h = "tid_head tid"
  have w: "uint (seqno_of skb) < 4096" "unat (seqno_of skb) mod ?n = unat s mod ?n"
      "sn_dist ?h (seqno_of skb) < uint (tid_size tid)" "?n dvd 4096" "uint ?h < 4096"
    using ok Some by (auto simp: tid_ok_def tid_window_def)
  have "(unat ?h + nat (sn_dist ?h (seqno_of skb))) mod ?n = (unat ?h + nat (sn_dist ?h s)) mod ?n"
    using w(2) sn_index [OF w(1) w(4), of ?h] sn_index [OF s(1) w(4), of ?h] by simp
  then have "nat (sn_dist ?h (seqno_of skb)) = nat (sn_dist ?h s)"
    by (rule mod_add_window) (use w(3) s(2) sn_dist_bounds(1) [of ?h] in \<open>simp_all add: nat_less_iff\<close>)
  then have "sn_dist ?h (seqno_of skb) = sn_dist ?h s"
    using sn_dist_bounds(1) [of ?h] by (metis nat_0_le)
  then have "(uint (seqno_of skb) - uint ?h) mod 4096 = (uint s - uint ?h) mod 4096"
    by (simp add: sn_dist_def)
  then have "uint (seqno_of skb) mod 4096 = uint s mod 4096"
    by (simp add: mod_eq_dvd_iff)
  then have "seqno_of skb = s"
    using w(1) s(1) by (simp add: mod_pos_pos_trivial word_uint_eq_iff)
  with Some show ?thesis by (simp add: buffered_def)
qed

lemma buffered_in_window:
  assumes "tid_ok tid" "buffered tid s = Some skb"
  shows "sn_dist (tid_head tid) s < uint (tid_size tid)"
  using assms by (auto simp: buffered_def tid_ok_def tid_window_def split: option.splits if_splits)

lemma seq_run_append: "seq_run h (a + b) = seq_run h a @ seq_run ((ieee80211_sn_inc ^^ a) h) b"
  by (induction a arbitrary: h) (simp_all add: funpow_swap1)

lemma seq_run_distinct: "uint h < 4096 \<Longrightarrow> n \<le> 4096 \<Longrightarrow> distinct (seq_run h n)"
proof (induction n arbitrary: h)
  case (Suc n)
  then show ?case using seq_run_fresh [of h n] by (simp add: uint_sn_inc_less)
qed simp

lemma map_filter_append [simp]: "List.map_filter f (xs @ ys) = List.map_filter f xs @ List.map_filter f ys"
  by (simp add: List.map_filter_def)

text \<open>Where a frame beyond the window puts the head.\<close>

lemma window_exceeded:
  assumes h: "uint h < 4096" and sz: "1 < unat sz" "unat sz \<le> 2048"
    and nl: "\<not> ieee80211_sn_less s h" and ne: "sn_dist h s \<noteq> 0"
  shows "ieee80211_sn_less s (h + sz) \<longleftrightarrow> sn_dist h s < uint sz"
    and "uint sz \<le> sn_dist h s \<Longrightarrow>
      ieee80211_sn_less h (ieee80211_sn_inc (ieee80211_sn_sub s sz))
      \<and> sn_dist h (ieee80211_sn_inc (ieee80211_sn_sub s sz)) = sn_dist h s - uint sz + 1
      \<and> sn_dist (ieee80211_sn_inc (ieee80211_sn_sub s sz)) s = uint sz - 1"
proof -
  let ?d = "sn_dist h s" and ?z = "uint sz"
  have z: "1 < ?z" "?z \<le> 2048"
    using sz by (simp_all add: unat_eq_nat_uint del: nat_uint_eq)
  have d: "0 < ?d" "?d \<le> 2048"
    using nl ne sn_dist_bounds [of h s] by (auto simp: sn_less_dist)
  have "sn_dist s (h + sz) = (?z - ?d) mod 4096"
  proof -
    have "sn_dist s (h + sz) = (uint (h + sz) mod 4096 - uint s) mod 4096"
      by (simp add: sn_dist_def mod_simps)
    also have "\<dots> = (?z - ?d) mod 4096"
      by (simp add: uint16_mod_4096 sn_dist_def mod_simps algebra_simps)
    finally show ?thesis .
  qed
  moreover have "(?z - ?d) mod 4096 = (if ?d \<le> ?z then ?z - ?d else ?z - ?d + 4096)"
    using z d by (auto simp: mod_pos_pos_trivial intro: mod_pos_pos_trivial [of "?z - ?d + 4096" 4096, simplified])
  ultimately show "ieee80211_sn_less s (h + sz) \<longleftrightarrow> ?d < ?z"
    using z d by (auto simp: sn_less_dist')
  assume ge: "?z \<le> ?d"
  let ?t = "ieee80211_sn_inc (ieee80211_sn_sub s sz)"
  have t: "uint ?t = (uint s - ?z + 1) mod 4096"
    by (simp add: uint_sn_inc uint_sn_sub mod_simps)
  have "sn_dist h ?t = ((uint s - uint h) + (1 - ?z)) mod 4096"
    unfolding sn_dist_def t by (simp add: mod_simps algebra_simps)
  also have "\<dots> = (?d + (1 - ?z)) mod 4096"
    by (simp only: sn_dist_def mod_add_left_eq)
  also have "\<dots> = ?d + (1 - ?z)"
    using ge z d by (intro mod_pos_pos_trivial) auto
  finally have 1: "sn_dist h ?t = ?d - ?z + 1" by simp
  have "sn_dist ?t s = (?z - 1) mod 4096"
    unfolding sn_dist_def t by (simp add: mod_simps algebra_simps)
  also have "\<dots> = ?z - 1"
    using z by (intro mod_pos_pos_trivial) auto
  finally show "ieee80211_sn_less h ?t \<and> sn_dist h ?t = ?d - ?z + 1 \<and> sn_dist ?t s = ?z - 1"
    using 1 ge z d by (auto simp: sn_less_dist')
qed

lemma started_update [simp]:
  "slot (tid\<lparr>tid_started := b\<rparr>) i = slot tid i"
  "buffered (tid\<lparr>tid_started := b\<rparr>) = buffered tid"
  "head_idx (tid\<lparr>tid_started := b\<rparr>) = head_idx tid"
  "tid_ok (tid\<lparr>tid_started := b\<rparr>) = tid_ok tid"
  by (simp_all add: slot_def fun_eq_iff buffered_def head_idx_def tid_ok_def tid_shape_def
      tid_window_def occupied_def)

lemma skb_seqno_update [simp]:
  "seqno_of (skb\<lparr>skb_status := (skb_status skb)\<lparr>rs_reorder_time := t\<rparr>\<rparr>) = seqno_of skb"
  by simp

text \<open>
  The abstract reorder buffer: a head and a partial map from sequence numbers to frames.
  Advancing the head by \<open>n\<close> hands over the buffered frames of the \<open>n\<close> numbers passed.
\<close>

definition agg_released :: "(u16 \<Rightarrow> rx_skb option) \<Rightarrow> u16 \<Rightarrow> nat \<Rightarrow> rx_skb list" where
  "agg_released B h n = List.map_filter B (seq_run h n)"

definition agg_after :: "(u16 \<Rightarrow> rx_skb option) \<Rightarrow> u16 \<Rightarrow> nat \<Rightarrow> u16 \<Rightarrow> rx_skb option" where
  "agg_after B h n = (\<lambda>s. if s \<in> set (seq_run h n) then None else B s)"

definition agg_advance :: "(u16 \<Rightarrow> rx_skb option) \<Rightarrow> nat \<Rightarrow> rx_tid \<Rightarrow> rx_tid \<Rightarrow> rx_skb list \<Rightarrow> bool" where
  "agg_advance B n tid tid' out \<longleftrightarrow> out = agg_released B (tid_head tid) n
     \<and> buffered tid' = agg_after B (tid_head tid) n
     \<and> tid_head tid' = (ieee80211_sn_inc ^^ n) (tid_head tid)"

lemma agg_split:
  assumes "uint h < 4096" "a + b \<le> 4096" "s \<notin> set (seq_run h a)"
  shows "agg_released (B(s := v)) h (a + b) =
           agg_released B h a @ agg_released ((agg_after B h a)(s := v)) ((ieee80211_sn_inc ^^ a) h) b"
    and "agg_after (B(s := v)) h (a + b) =
           agg_after ((agg_after B h a)(s := v)) ((ieee80211_sn_inc ^^ a) h) b"
proof -
  let ?r1 = "seq_run h a" and ?r2 = "seq_run ((ieee80211_sn_inc ^^ a) h) b"
  have "distinct (?r1 @ ?r2)"
    using seq_run_distinct [OF assms(1,2)] by (simp add: seq_run_append)
  then have "List.map_filter (B(s := v)) ?r2 = List.map_filter ((agg_after B h a)(s := v)) ?r2"
    by (intro map_filter_cong_on) (auto simp: agg_after_def)
  moreover have "List.map_filter (B(s := v)) ?r1 = List.map_filter B ?r1"
    using assms(3) by (intro map_filter_cong_on) auto
  ultimately show "agg_released (B(s := v)) h (a + b) =
      agg_released B h a @ agg_released ((agg_after B h a)(s := v)) ((ieee80211_sn_inc ^^ a) h) b"
    by (simp add: agg_released_def seq_run_append)
  show "agg_after (B(s := v)) h (a + b) =
      agg_after ((agg_after B h a)(s := v)) ((ieee80211_sn_inc ^^ a) h) b"
    using assms(3) by (auto simp: agg_after_def seq_run_append fun_eq_iff)
qed

lemma release_n_agg:
  assumes "tid_ok tid" "n \<le> 4096"
  obtains out where "snd (release_n n tid frames) = frames @ out"
    and "agg_advance (buffered tid) n tid (fst (release_n n tid frames)) out"
    and "tid_ok (fst (release_n n tid frames))"
  using release_n_spec [OF assms, of frames] that
  by (simp add: agg_advance_def agg_released_def agg_after_def)

lemma release_head_agg:
  assumes "tid_ok tid"
  obtains n out where "n \<le> 2048" and "snd (mt76_rx_aggr_release_head tid frames) = frames @ out"
    and "agg_advance (buffered tid) n tid (fst (mt76_rx_aggr_release_head tid frames)) out"
    and "tid_inv (fst (mt76_rx_aggr_release_head tid frames))"
proof -
  obtain n where n: "n \<le> 2048" "mt76_rx_aggr_release_head tid frames = release_n n tid frames"
      "tid_inv (fst (mt76_rx_aggr_release_head tid frames))"
    by (rule release_head_spec [OF assms])
  from n(1) have "n \<le> 4096" by simp
  with assms obtain out where "snd (release_n n tid frames) = frames @ out"
      "agg_advance (buffered tid) n tid (fst (release_n n tid frames)) out"
    by (rule release_n_agg)
  with n show ?thesis using that by metis
qed

definition stored_skb :: "u32 \<Rightarrow> rx_tid \<Rightarrow> rx_skb \<Rightarrow> rx_skb" where
  "stored_skb now tid skb = (if seqno_of skb = tid_head tid then skb
     else skb\<lparr>skb_status := (skb_status skb)\<lparr>rs_reorder_time := now\<rparr>\<rparr>)"

text \<open>The frame that is expected next: the head moves past it and past what waited for it.\<close>

lemma reorder_at_head:
  fixes hz now frames
  assumes inv: "tid_inv tid" and seq: "seqno_of skb = tid_head tid" and st: "\<not> tid_stopped tid"
  defines "r \<equiv> rx_aggr_reorder_locked hz now tid skb frames"
  obtains n out where "n < 4096" "ao_frames (snd r) = frames @ out" "ao_freed (snd r) = []"
    "agg_advance ((buffered tid)(seqno_of skb := Some skb)) n tid (fst r) out" "tid_inv (fst r)"
proof -
  let ?h = "tid_head tid" and ?B = "buffered tid"
  define t where "t = tid\<lparr>tid_started := True, tid_head := ieee80211_sn_inc ?h\<rparr>"
  have ok: "tid_ok tid" and h: "uint ?h < 4096" and free: "slot tid (head_idx tid) = None"
    using inv by (auto simp: tid_inv_def tid_ok_def tid_window_def)
  have nl: "\<not> ieee80211_sn_less ?h ?h" by (simp add: sn_less_dist)
  have "mt76_aggr_release tid [] (head_idx tid) = (tid\<lparr>tid_head := ieee80211_sn_inc ?h\<rparr>, [])"
    using free by (simp add: mt76_aggr_release_def)
  then have "tid_ok (tid\<lparr>tid_head := ieee80211_sn_inc ?h\<rparr>)"
      "buffered (tid\<lparr>tid_head := ieee80211_sn_inc ?h\<rparr>) = ?B(?h := None)"
    using release_step(1,3) [OF ok, of "[]"] by simp_all
  moreover have "t = (tid\<lparr>tid_head := ieee80211_sn_inc ?h\<rparr>)\<lparr>tid_started := True\<rparr>"
    by (simp add: t_def)
  ultimately have t: "tid_ok t" "buffered t = ?B(?h := None)" "tid_head t = ieee80211_sn_inc ?h"
    by (simp_all only: started_update) simp
  have one: "h' \<noteq> ?h \<Longrightarrow> (?B(?h := Some skb)) h' = buffered t h'" for h'
    by (simp add: t)
  show ?thesis
  proof (cases "tid_nframes tid = 0")
    case True
    then have r: "r = (t, \<lparr>ao_frames = frames @ [skb], ao_freed = [], ao_queue_work = None\<rparr>)"
      using st nl seq by (simp add: r_def rx_aggr_reorder_locked_def Let_def t_def)
    have "occupied tid = 0"
      using True ok by (simp add: tid_ok_def tid_shape_def)
    then have "occupied t = 0" by (simp add: t_def occupied_def)
    then have "slot t (head_idx t) = None"
      using occupied_pos [of t "head_idx t"] by (cases "slot t (head_idx t)") auto
    with t(1) have "tid_inv t" by (simp add: tid_inv_def)
    moreover have "agg_advance (?B(?h := Some skb)) 1 tid t [skb]"
      using t by (auto simp: agg_advance_def agg_released_def agg_after_def map_filter_simps fun_eq_iff)
    ultimately show ?thesis using that [of 1 "[skb]"] seq r by simp
  next
    case False
    then have r: "fst r = fst (mt76_rx_aggr_release_head t (frames @ [skb]))"
        "snd r = \<lparr>ao_frames = snd (mt76_rx_aggr_release_head t (frames @ [skb])), ao_freed = [], ao_queue_work = None\<rparr>"
      using st nl seq by (simp_all add: r_def rx_aggr_reorder_locked_def Let_def t_def case_prod_beta)
    obtain n out where n: "n \<le> 2048"
        "snd (mt76_rx_aggr_release_head t (frames @ [skb])) = (frames @ [skb]) @ out"
        "agg_advance (buffered t) n t (fst (mt76_rx_aggr_release_head t (frames @ [skb]))) out"
        "tid_inv (fst (mt76_rx_aggr_release_head t (frames @ [skb])))"
      by (rule release_head_agg [OF t(1)])
    have fresh: "?h \<notin> set (seq_run (ieee80211_sn_inc ?h) n)"
      using seq_run_fresh [OF h] n(1) by simp
    then have "List.map_filter (?B(?h := Some skb)) (seq_run (ieee80211_sn_inc ?h) n) =
        List.map_filter (buffered t) (seq_run (ieee80211_sn_inc ?h) n)"
      by (intro map_filter_cong_on one) auto
    then have "agg_advance (?B(?h := Some skb)) (Suc n) tid (fst r) ([skb] @ out)"
      using n(3) r t fresh
      by (auto simp: agg_advance_def agg_released_def agg_after_def map_filter_simps fun_eq_iff funpow_swap1)
    then show ?thesis using that [of "Suc n" "[skb] @ out"] n r seq by simp
  qed
qed


text \<open>A later frame: room is made if it lies beyond the window, then it is stored or refused.\<close>

lemma reorder_ahead:
  fixes hz now frames
  assumes inv: "tid_inv tid" and ne: "seqno_of skb \<noteq> tid_head tid" and st: "\<not> tid_stopped tid"
    and nl: "\<not> ieee80211_sn_less (seqno_of skb) (tid_head tid)" and seq: "uint (seqno_of skb) < 4096"
    and new: "buffered tid (seqno_of skb) = None"
  defines "r \<equiv> rx_aggr_reorder_locked hz now tid skb frames"
  obtains n out where "n < 4096" "ao_frames (snd r) = frames @ out" "ao_freed (snd r) = []"
    "agg_advance ((buffered tid)(seqno_of skb := Some (stored_skb now tid skb))) n tid (fst r) out"
    "tid_inv (fst r)"
proof -
  let ?h = "tid_head tid" and ?B = "buffered tid" and ?s = "seqno_of skb" and ?z = "tid_size tid"
  let ?t = "tid\<lparr>tid_started := True\<rparr>"
  let ?tgt = "ieee80211_sn_inc (ieee80211_sn_sub ?s ?z)"
  let ?skb = "stored_skb now tid skb"
  have ok: "tid_ok tid" and h: "uint ?h < 4096" and z: "1 < unat ?z" "unat ?z \<le> 2048"
    using inv by (auto simp: tid_inv_def tid_ok_def tid_window_def)
  have d: "sn_dist ?h ?s \<noteq> 0" using sn_dist_0_iff [OF h seq] ne by auto
  note win = window_exceeded [OF h z nl d]
  define p where "p = (if \<not> ieee80211_sn_less ?s (?h + ?z)
      then mt76_rx_aggr_release_frames ?t frames ?tgt else (?t, frames))"
  obtain a out1 where a: "a < 2048" "snd p = frames @ out1" "agg_advance ?B a tid (fst p) out1"
      "tid_ok (fst p)" "sn_dist (tid_head (fst p)) ?s < uint ?z" "sn_dist (tid_head (fst p)) ?s \<noteq> 0"
      "?s \<notin> set (seq_run ?h a)"
  proof (cases "ieee80211_sn_less ?s (?h + ?z)")
    case True
    then show ?thesis
      using that [of 0 "[]"] ok win(1) d
      by (simp add: p_def agg_advance_def agg_released_def agg_after_def map_filter_simps fun_eq_iff)
  next
    case False
    then have far: "ieee80211_sn_less ?h ?tgt" "sn_dist ?h ?tgt = sn_dist ?h ?s - uint ?z + 1"
        "sn_dist ?tgt ?s = uint ?z - 1"
      using win by auto
    let ?n = "nat (sn_dist ?h ?tgt)"
    have rel: "mt76_rx_aggr_release_frames ?t frames ?tgt = release_n ?n ?t frames"
        "(ieee80211_sn_inc ^^ ?n) ?h = ?tgt" "?n < 2048"
      using release_frames_spec(1) [of ?t ?tgt frames] release_frames_spec(2,3) [of ?t ?tgt]
        ok far(1) uint_sn_inc_less by auto
    then obtain out where out: "snd (release_n ?n ?t frames) = frames @ out"
        "agg_advance (buffered ?t) ?n ?t (fst (release_n ?n ?t frames)) out"
        "tid_ok (fst (release_n ?n ?t frames))"
      using release_n_agg [of ?t ?n frames] ok by auto
    have notin: "?s \<notin> set (seq_run ?h ?n)"
    proof
      assume "?s \<in> set (seq_run ?h ?n)"
      then obtain k where k: "k < ?n" "?s = (ieee80211_sn_inc ^^ k) ?h" by (auto simp: seq_run_mem)
      have "int k = sn_dist ?h ?s"
      proof (cases k)
        case 0 with k ne show ?thesis by simp
      next
        case (Suc j)
        then have "uint ?s = (uint ?h + int k) mod 4096" using uint_sn_inc_funpow [of j ?h] k by simp
        then have "sn_dist ?h ?s = int k mod 4096" by (simp add: sn_dist_def mod_simps)
        then show ?thesis using k rel(3) by simp
      qed
      with k(1) far(2) z show False
        by (simp add: unat_eq_nat_uint del: nat_uint_eq)
    qed
    have z1: "1 < uint ?z" using z by (simp add: unat_eq_nat_uint del: nat_uint_eq)
    show ?thesis
      using that [of ?n out] rel out far False notin z1
      by (simp add: p_def agg_advance_def)
  qed
  have sz: "tid_size (fst p) = ?z"
    by (simp add: p_def)
  have "buffered (fst p) ?s = None"
    using a(3) new by (simp add: agg_advance_def agg_after_def)
  then have free: "slot (fst p) (unat ?s mod unat (tid_size (fst p))) = None"
    using slot_buffered [OF a(4) seq] a(5) by (simp add: sz)
  define q where "q = (fst p)\<lparr>tid_buf := (tid_buf (fst p))[unat ?s mod unat ?z := Some ?skb],
                      tid_nframes := tid_nframes (fst p) + 1\<rparr>"
  have sq: "seqno_of ?skb = ?s" by (simp add: stored_skb_def)
  have q: "tid_ok q" "buffered q = (buffered (fst p))(?s := Some ?skb)" "tid_head q = tid_head (fst p)"
    using store_ok [of "fst p" ?skb] a(4,5) free seq by (simp_all add: sq q_def sz)
  have r: "fst r = fst (mt76_rx_aggr_release_head q (frames @ out1))"
      "ao_frames (snd r) = snd (mt76_rx_aggr_release_head q (frames @ out1))" "ao_freed (snd r) = []"
    using st nl ne free a(2)
    by (simp_all add: r_def rx_aggr_reorder_locked_def Let_def case_prod_beta p_def [symmetric] q_def
        sz stored_skb_def)
  obtain b out2 where b: "b \<le> 2048" "snd (mt76_rx_aggr_release_head q (frames @ out1)) = (frames @ out1) @ out2"
      "agg_advance (buffered q) b q (fst (mt76_rx_aggr_release_head q (frames @ out1))) out2"
      "tid_inv (fst (mt76_rx_aggr_release_head q (frames @ out1)))"
    by (rule release_head_agg [OF q(1)])
  have ab: "a + b \<le> 4096" "a + b < 4096" using a(1) b(1) by simp_all
  note split = agg_split [OF h ab(1) a(7), where B = ?B and v = "Some ?skb"]
  have hp: "tid_head (fst p) = (ieee80211_sn_inc ^^ a) ?h" and bp: "buffered (fst p) = agg_after ?B ?h a"
      and o1: "out1 = agg_released ?B ?h a"
    using a(3) by (simp_all add: agg_advance_def)
  have "agg_advance (?B(?s := Some ?skb)) (a + b) tid (fst r) (out1 @ out2)"
    using b(3) unfolding agg_advance_def r q(2,3) hp bp o1 split
    by (simp add: funpow_add add.commute [of a b])
  then show ?thesis
    using that [OF ab(2)] r b by simp
qed

section \<open>Properties\<close>

lemma agg_released_subseq:
  "(\<And>s f. B s = Some f \<Longrightarrow> seqno_of f = s) \<Longrightarrow> subseq (map seqno_of (agg_released B h n)) (seq_run h n)"
  unfolding agg_released_def
proof (induction n arbitrary: h)
  case (Suc n)
  then show ?case
    by (cases "B h") (auto simp: map_filter_simps intro: list_emb_Cons)
qed (simp add: map_filter_simps)

lemma subseq_set: "subseq xs ys \<Longrightarrow> set xs \<subseteq> set ys"
  by (auto dest: list_emb_set)

lemma subseq_distinct: "subseq xs ys \<Longrightarrow> distinct ys \<Longrightarrow> distinct xs"
  by (induction rule: list_emb.induct) (auto dest: subseq_set)

lemma reorder_late:
  fixes hz now frames
  assumes "\<not> tid_stopped tid" "tid_started tid" "ieee80211_sn_less (seqno_of skb) (tid_head tid)"
  shows "rx_aggr_reorder_locked hz now tid skb frames =
    (tid, \<lparr>ao_frames = frames, ao_freed = [skb], ao_queue_work = None\<rparr>)"
  using assms by (simp add: rx_aggr_reorder_locked_def Let_def)

lemma reorder_bypass:
  fixes hz now frames
  assumes "tid_stopped tid \<or> \<not> tid_started tid \<and> ieee80211_sn_less (seqno_of skb) (tid_head tid)"
  shows "rx_aggr_reorder_locked hz now tid skb frames =
    (tid, \<lparr>ao_frames = frames @ [skb], ao_freed = [], ao_queue_work = None\<rparr>)"
  using assms by (auto simp: rx_aggr_reorder_locked_def Let_def)

lemma reorder_duplicate:
  fixes hz now frames
  assumes inv: "tid_inv tid" and st: "\<not> tid_stopped tid"
    and nl: "\<not> ieee80211_sn_less (seqno_of skb) (tid_head tid)" and seq: "uint (seqno_of skb) < 4096"
    and dup: "buffered tid (seqno_of skb) \<noteq> None"
  shows "rx_aggr_reorder_locked hz now tid skb frames =
    (tid\<lparr>tid_started := True\<rparr>, \<lparr>ao_frames = frames, ao_freed = [skb], ao_queue_work = None\<rparr>)"
proof -
  have ok: "tid_ok tid" and h: "uint (tid_head tid) < 4096"
      and z: "1 < unat (tid_size tid)" "unat (tid_size tid) \<le> 2048"
    using inv by (auto simp: tid_inv_def tid_ok_def tid_window_def)
  have d: "sn_dist (tid_head tid) (seqno_of skb) < uint (tid_size tid)"
    using dup buffered_in_window [OF ok] by blast
  have ne: "seqno_of skb \<noteq> tid_head tid"
    using dup inv by (auto simp: buffered_def tid_inv_def head_idx_def)
  then have "sn_dist (tid_head tid) (seqno_of skb) \<noteq> 0"
    using sn_dist_0_iff [OF h seq] by auto
  then have "ieee80211_sn_less (seqno_of skb) (tid_head tid + tid_size tid)"
    using window_exceeded(1) [OF h z nl] d by simp
  moreover have "slot tid (unat (seqno_of skb) mod unat (tid_size tid)) \<noteq> None"
    using slot_buffered [OF ok seq d] dup by simp
  ultimately show ?thesis
    using st nl ne by (auto simp: rx_aggr_reorder_locked_def Let_def)
qed

lemma reorder_accept:
  fixes hz now frames
  assumes "tid_inv tid" "\<not> tid_stopped tid" "\<not> ieee80211_sn_less (seqno_of skb) (tid_head tid)"
    "uint (seqno_of skb) < 4096" "buffered tid (seqno_of skb) = None"
  defines "r \<equiv> rx_aggr_reorder_locked hz now tid skb frames"
  shows "\<exists>n out. n < 4096 \<and> ao_frames (snd r) = frames @ out \<and> ao_freed (snd r) = []
    \<and> agg_advance ((buffered tid)(seqno_of skb := Some (stored_skb now tid skb))) n tid (fst r) out
    \<and> tid_inv (fst r)"
proof (cases "seqno_of skb = tid_head tid")
  case True
  then have "stored_skb now tid skb = skb" by (simp add: stored_skb_def)
  with reorder_at_head [OF assms(1) True assms(2), of hz now frames] show ?thesis
    unfolding r_def by metis
next
  case False
  from reorder_ahead [OF assms(1) False assms(2-5), of hz now frames] show ?thesis
    unfolding r_def by metis
qed

lemma tid_inv_started [simp]: "tid_inv (tid\<lparr>tid_started := b\<rparr>) = tid_inv tid"
  by (simp add: tid_inv_def)

lemma reorder_locked_inv:
  assumes "tid_inv tid" "uint (seqno_of skb) < 4096"
  shows "tid_inv (fst (rx_aggr_reorder_locked hz now tid skb frames))"
proof (cases "tid_stopped tid \<or> ieee80211_sn_less (seqno_of skb) (tid_head tid)")
  case True
  then show ?thesis
    using assms(1) reorder_bypass [of tid skb hz now frames] reorder_late [of tid skb hz now frames]
    by (cases "tid_started tid"; cases "tid_stopped tid") auto
next
  case False
  show ?thesis
  proof (cases "buffered tid (seqno_of skb)")
    case None
    with False assms reorder_accept [of tid skb hz now frames] show ?thesis by auto
  next
    case (Some f)
    with False assms show ?thesis by (simp add: reorder_duplicate)
  qed
qed

text \<open>
  C1: A frame that is not late, on a running session, refines an insertion into a finite map
  \<open>B\<close> from sequence numbers to frames. When the map already holds the number, the frame is
  freed and nothing else changes. Otherwise it is inserted with its arrival time, and the
  handler hands over exactly the frames of the map on some number \<open>n\<close> of consecutive sequence
  numbers from the head, removes them from the map and advances the head by \<open>n\<close>: no frame is
  lost, duplicated or handed over out of place.
\<close>

theorem reorder_refines_map:
  assumes "tid_inv tid" "\<not> tid_stopped tid" "\<not> ieee80211_sn_less (seqno_of skb) (tid_head tid)"
    and "uint (seqno_of skb) < 4096"
    and "rx_aggr_reorder_locked hz now tid skb frames = (tid', out)"
  defines "B \<equiv> (buffered tid)(seqno_of skb := Some (stored_skb now tid skb))"
  shows "if buffered tid (seqno_of skb) \<noteq> None
    then ao_frames out = frames \<and> ao_freed out = [skb] \<and> buffered tid' = buffered tid
      \<and> tid_head tid' = tid_head tid
    else ao_freed out = [] \<and> (\<exists>n < 4096. ao_frames out = frames @ agg_released B (tid_head tid) n
      \<and> buffered tid' = agg_after B (tid_head tid) n
      \<and> tid_head tid' = (ieee80211_sn_inc ^^ n) (tid_head tid))"
proof (cases "buffered tid (seqno_of skb)")
  case None
  obtain n rel where "n < 4096" "ao_frames out = frames @ rel" "ao_freed out = []"
      "agg_advance B n tid tid' rel"
    using reorder_accept [OF assms(1-4) None, of hz now frames] assms(5) unfolding B_def by auto
  with None show ?thesis by (auto simp: agg_advance_def)
next
  case (Some f)
  with reorder_duplicate [OF assms(1-4), of hz now frames] assms(5) show ?thesis by auto
qed



section \<open>The other operations\<close>

lemma release_frames_ok: "tid_ok tid \<Longrightarrow> tid_ok (fst (mt76_rx_aggr_release_frames tid frames tgt))"
proof -
  assume ok: "tid_ok tid"
  have "nat (sn_dist (tid_head tid) tgt) \<le> 4096" using sn_dist_bounds(2) [of "tid_head tid" tgt] by simp
  with ok show ?thesis
    using release_n_spec [OF ok, of "nat (sn_dist (tid_head tid) tgt)" frames]
    by (simp add: release_frames_n)
qed

lemma release_head_inv: "tid_ok tid \<Longrightarrow> tid_inv (fst (mt76_rx_aggr_release_head tid frames))"
  by (rule release_head_spec)

lemma check_loop_ok:
  "tid_ok tid \<Longrightarrow> tid_ok (fst (rx_aggr_check_loop hz now start idx n tid frames))"
proof (induction hz now start idx n tid frames rule: rx_aggr_check_loop.induct)
  case (1 hz now start idx nframes tid frames)
  show ?case
  proof (cases "idx \<noteq> start \<and> nframes \<noteq> 0 \<and> idx < unat (tid_size tid) \<and> start < unat (tid_size tid)")
    case False
    with "1.prems" show ?thesis by (subst rx_aggr_check_loop.simps) auto
  next
    case True
    with 1 release_frames_ok [OF "1.prems", of frames] show ?thesis
      by (subst rx_aggr_check_loop.simps) (auto simp: Let_def split: option.split)
  qed
qed

lemma check_release_inv:
  assumes "tid_inv tid"
  shows "tid_inv (fst (mt76_rx_aggr_check_release hz now tid frames))"
  using assms check_loop_ok release_head_inv
  by (simp add: mt76_rx_aggr_check_release_def Let_def case_prod_beta tid_inv_def)

lemma shutdown_loop_spec:
  "unat n = length (filter (\<lambda>s. s \<noteq> None) ss) \<Longrightarrow>
   rx_aggr_shutdown_loop n ss = (0, replicate (length ss) None, List.map_filter (\<lambda>s. s) ss)"
proof (induction n ss rule: rx_aggr_shutdown_loop.induct)
  case (1 n)
  then show ?case by (simp add: map_filter_simps unsigned_eq_0_iff)
next
  case (2 n s ss)
  show ?case
  proof (cases s)
    case None
    have "n = 0 \<Longrightarrow> replicate (length ss) None = ss \<and> List.map_filter (\<lambda>s. s) ss = []"
      using "2.prems" None
      by (auto simp: filter_empty_conv map_filter_def intro!: replicate_eqI [symmetric])
    with 2 None show ?thesis by (auto simp: map_filter_simps)
  next
    case (Some skb)
    then have n: "n \<noteq> 0" using "2.prems" by auto
    then have "unat (n - 1) = length (filter (\<lambda>s. s \<noteq> None) ss)"
      using "2.prems" Some by (simp add: unat_minus_one)
    with 2 Some n show ?thesis by (simp add: map_filter_simps)
  qed
qed

lemma shutdown_spec:
  assumes "tid_shape tid"
  shows "mt76_rx_aggr_shutdown tid =
    (tid\<lparr>tid_stopped := True, tid_nframes := 0, tid_buf := replicate (length (tid_buf tid)) None\<rparr>,
     List.map_filter (\<lambda>s. s) (tid_buf tid))"
  using assms shutdown_loop_spec [of "tid_nframes tid" "tid_buf tid"]
  by (simp add: mt76_rx_aggr_shutdown_def tid_shape_def occupied_def)

lemma empty_tid_inv:
  assumes "1 < unat (tid_size tid)" "unat (tid_size tid) \<le> 2048" "unat (tid_size tid) dvd 4096"
    "uint (tid_head tid) < 4096" "tid_nframes tid = 0"
    "tid_buf tid = replicate (unat (tid_size tid)) None"
  shows "tid_inv tid"
  using assms by (auto simp: tid_inv_def tid_ok_def tid_shape_def tid_window_def occupied_def slot_def)

lemma shutdown_inv: "tid_inv tid \<Longrightarrow> tid_inv (fst (mt76_rx_aggr_shutdown tid))"
  by (rule empty_tid_inv)
    (auto simp: tid_inv_def tid_ok_def tid_window_def shutdown_spec, simp add: tid_shape_def shutdown_spec)

text \<open>
  A session as a state machine: it is created by \<open>mt76_rx_aggr_start\<close> with a starting sequence
  number and a size, and from then on takes frames, block-ack requests, timer work and shutdown
  in any order.
\<close>

definition agg_session :: "u16 \<Rightarrow> u16 \<Rightarrow> u8 \<Rightarrow> rx_tid" where
  "agg_session ssn sz tidno = \<lparr>tid_head = ssn, tid_size = sz, tid_nframes = 0, tid_num = tidno,
     tid_started = False, tid_stopped = False, tid_buf = replicate (unat sz) None\<rparr>"

inductive agg_step :: "nat \<Rightarrow> rx_tid \<Rightarrow> rx_tid \<Rightarrow> bool" for hz where
  frame: "uint (seqno_of skb) < 4096 \<Longrightarrow>
    agg_step hz tid (fst (rx_aggr_reorder_locked hz now tid skb frames))"
| bar: "\<not> tid_stopped tid \<Longrightarrow> uint ssn < 4096 \<Longrightarrow>
    agg_step hz tid (fst (mt76_rx_aggr_release_head (fst (mt76_rx_aggr_release_frames tid frames ssn)) frames'))"
| timer: "agg_step hz tid (fst (mt76_rx_aggr_reorder_work hz now tid))"
| stop: "agg_step hz tid (fst (mt76_rx_aggr_shutdown tid))"

definition agg_init :: "rx_tid \<Rightarrow> bool" where
  "agg_init tid \<longleftrightarrow> 1 < unat (tid_size tid) \<and> unat (tid_size tid) \<le> 2048
     \<and> unat (tid_size tid) dvd 4096 \<and> uint (tid_head tid) < 4096
     \<and> tid = agg_session (tid_head tid) (tid_size tid) (tid_num tid)"

lemma agg_step_inv: "agg_step hz tid tid' \<Longrightarrow> tid_inv tid \<Longrightarrow> tid_inv tid'"
proof (induction rule: agg_step.induct)
  case (bar tid ssn frames frames')
  then show ?case using release_frames_ok release_head_inv by (simp add: tid_inv_def)
qed (simp_all add: reorder_locked_inv shutdown_inv check_release_inv
      mt76_rx_aggr_reorder_work_def Let_def case_prod_beta)

lemma agg_init_inv: "agg_init tid \<Longrightarrow> tid_inv tid"
proof -
  assume a: "agg_init tid"
  then have "tid_nframes tid = 0" "tid_buf tid = replicate (unat (tid_size tid)) None"
    unfolding agg_init_def agg_session_def by (metis rx_tid.select_convs)+
  with a show "tid_inv tid" by (intro empty_tid_inv) (auto simp: agg_init_def)
qed

interpretation agg: state_machine agg_init "agg_step hz" tid_inv for hz
  by unfold_locales (auto intro: agg_init_inv agg_step_inv)


lemma agg_session_init:
  "1 < unat sz \<Longrightarrow> unat sz \<le> 2048 \<Longrightarrow> unat sz dvd 4096 \<Longrightarrow> uint ssn < 4096 \<Longrightarrow>
   agg_init (agg_session ssn sz tidno)"
  by (simp add: agg_init_def agg_session_def)


section \<open>The timer\<close>

abbreviation sn_pos :: "u16 \<Rightarrow> nat \<Rightarrow> u16" where
  "sn_pos h k \<equiv> (ieee80211_sn_inc ^^ k) h"

lemma uint_sn_pos: "uint h < 4096 \<Longrightarrow> uint (sn_pos h k) = (uint h + int k) mod 4096"
  using uint_sn_inc_funpow [of "k - 1" h] by (cases k) auto

lemma sn_dist_pos:
  assumes "uint h < 4096" "a \<le> k" "k < 4096"
  shows "sn_dist (sn_pos h a) (sn_pos h k) = int (k - a)"
proof -
  have "sn_dist (sn_pos h a) (sn_pos h k) = (int k - int a) mod 4096"
    using assms(1) by (simp add: sn_dist_def uint_sn_pos mod_simps)
  then show ?thesis using assms(2,3) by (simp add: of_nat_diff)
qed

lemma sn_pos_index:
  assumes "uint h < 4096" "n dvd 4096" "k < 4096"
  shows "unat (sn_pos h k) mod n = (unat h + k) mod n"
proof -
  have "uint (sn_pos h k) < 4096" using assms(1) by (simp add: uint_sn_pos)
  then show ?thesis
    using sn_index [of "sn_pos h k" n h] assms sn_dist_pos [of h 0 k] by simp
qed

lemma sn_pos_fresh:
  assumes "uint h < 4096" "a \<le> k" "k < 4096"
  shows "sn_pos h k \<notin> set (seq_run h a)"
proof
  assume "sn_pos h k \<in> set (seq_run h a)"
  then obtain j where j: "j < a" "sn_pos h k = sn_pos h j" by (auto simp: seq_run_mem)
  then have "int k = int j"
    using sn_dist_pos [of h 0 k] sn_dist_pos [of h 0 j] assms by simp
  with j(1) assms(2) show False by simp
qed

lemma sn_pos_of_dist:
  assumes "uint h < 4096" "uint s < 4096"
  shows "s = sn_pos h (nat (sn_dist h s))"
proof -
  have "uint (sn_pos h (nat (sn_dist h s))) = (uint h + sn_dist h s) mod 4096"
    using assms(1) sn_dist_bounds(1) by (simp add: uint_sn_pos)
  also have "\<dots> = uint s" using assms(2) by (simp add: sn_dist_def mod_simps)
  finally show ?thesis by (simp add: word_uint_eq_iff)
qed

lemma agg_after_add: "agg_after (agg_after B h a) (sn_pos h a) b = agg_after B h (a + b)"
  by (auto simp: agg_after_def seq_run_append fun_eq_iff)

text \<open>The frame has waited longer than the timeout of its traffic class.\<close>

definition rx_expired :: "nat \<Rightarrow> u32 \<Rightarrow> u8 \<Rightarrow> rx_skb \<Rightarrow> bool" where
  "rx_expired hz now num skb \<longleftrightarrow>
     time_after32 now (rs_reorder_time (skb_status skb) + of_nat (mt76_aggr_tid_to_timeo hz num))"

definition scan_state ::
  "nat \<Rightarrow> u32 \<Rightarrow> u8 \<Rightarrow> u16 \<Rightarrow> (u16 \<Rightarrow> rx_skb option) \<Rightarrow> u16 \<Rightarrow> nat \<Rightarrow> rx_tid \<Rightarrow> bool" where
  "scan_state hz now num h B sz k tid \<longleftrightarrow> tid_ok tid \<and> tid_size tid = sz \<and> tid_num tid = num
     \<and> (\<exists>a<k. tid_head tid = sn_pos h a \<and> buffered tid = agg_after B h a
          \<and> (\<forall>j f. a < j \<longrightarrow> j < k \<longrightarrow> B (sn_pos h j) = Some f \<longrightarrow> \<not> rx_expired hz now num f))"

definition waiting :: "(u16 \<Rightarrow> rx_skb option) \<Rightarrow> u16 \<Rightarrow> nat \<Rightarrow> nat \<Rightarrow> nat" where
  "waiting B h z k = card {j \<in> {k..<z}. B (sn_pos h j) \<noteq> None}"

lemma waiting_step:
  assumes "k < z"
  shows "waiting B h z k = waiting B h z (Suc k) + (if B (sn_pos h k) = None then 0 else 1)"
proof -
  have "{j \<in> {k..<z}. B (sn_pos h j) \<noteq> None} =
    (if B (sn_pos h k) = None then {} else {k}) \<union> {j \<in> {Suc k..<z}. B (sn_pos h j) \<noteq> None}"
    using assms by (auto simp: Suc_le_eq le_less)
  then show ?thesis unfolding waiting_def
    by (simp split: if_splits)
qed

lemma release_frames_num [simp]:
  "tid_num (fst (mt76_rx_aggr_release_frames tid frames head)) = tid_num tid"
proof (induction tid frames head rule: mt76_rx_aggr_release_frames.induct)
  case (1 tid frames head)
  then show ?case
    by (subst mt76_rx_aggr_release_frames.simps)
      (auto simp: Let_def split: prod.split dest: arg_cong [where f = "\<lambda>r. tid_num (fst r)"])
qed

lemma check_loop_scan:
  assumes "scan_state hz now num h B sz k tid" "1 \<le> k" "k \<le> unat sz" "uint h < 4096"
    and "idx = (unat h + k) mod unat sz" "start = unat h mod unat sz"
    and "waiting B h (unat sz) k \<le> unat n"
  shows "scan_state hz now num h B sz (unat sz) (fst (rx_aggr_check_loop hz now start idx n tid frames))"
  using assms
proof (induction "unat sz - k" arbitrary: k idx n tid frames)
  case 0
  then have "idx = start" by simp
  with 0 show ?case by (subst rx_aggr_check_loop.simps) simp
next
  case (Suc d)
  let ?z = "unat sz"
  have kz: "k < ?z" using Suc.hyps(2) by simp
  obtain a where a: "a < k" "tid_head tid = sn_pos h a" "buffered tid = agg_after B h a"
      "\<And>j f. a < j \<Longrightarrow> j < k \<Longrightarrow> B (sn_pos h j) = Some f \<Longrightarrow> \<not> rx_expired hz now num f"
    and ok: "tid_ok tid" and sz: "tid_size tid = sz" and num: "tid_num tid = num"
    using Suc.prems(1) by (auto simp: scan_state_def)
  have z: "?z \<le> 2048" "?z dvd 4096" "0 < ?z" using ok sz by (auto simp: tid_ok_def tid_window_def)
  have k4: "k < 4096" using kz z by simp
  have "idx \<noteq> start"
  proof
    assume "idx = start"
    then have "(unat h + k) mod ?z = (unat h + 0) mod ?z" using Suc.prems by simp
    then have "k = 0" by (rule mod_add_window) (use kz z in simp_all)
    with Suc.prems(2) show False by simp
  qed
  moreover have "idx < unat (tid_size tid)" "start < unat (tid_size tid)"
    using Suc.prems z by (simp_all add: sz)
  ultimately have guard: "idx \<noteq> start \<and> n \<noteq> 0 \<and> idx < unat (tid_size tid) \<and> start < unat (tid_size tid) \<longleftrightarrow> n \<noteq> 0"
    by blast
  have dist: "sn_dist (tid_head tid) (sn_pos h k) = int (k - a)"
    using a sn_dist_pos [OF Suc.prems(4), of a k] k4 by simp
  have pos: "uint (sn_pos h k) < 4096" using Suc.prems(4) by (simp add: uint_sn_pos)
  have "slot tid (unat (sn_pos h k) mod unat (tid_size tid)) = buffered tid (sn_pos h k)"
  proof (rule slot_buffered [OF ok pos])
    have "k - a < ?z" using kz by simp
    then have "int (k - a) < int ?z" by (simp only: of_nat_less_iff)
    then show "sn_dist (tid_head tid) (sn_pos h k) < uint (tid_size tid)" by (simp add: dist sz)
  qed
  then have sl: "slot tid idx = B (sn_pos h k)"
    using sn_pos_index [OF Suc.prems(4) z(2) k4] Suc.prems(5) a(1,3) sn_pos_fresh [OF Suc.prems(4), of a k] k4
    by (simp add: sz agg_after_def)
  have next_idx: "(idx + 1) mod unat (tid_size tid) = (unat h + Suc k) mod ?z"
    using Suc.prems(5) by (simp add: sz mod_simps)
  have w: "waiting B h ?z k = waiting B h ?z (Suc k) + (if B (sn_pos h k) = None then 0 else 1)"
    by (rule waiting_step [OF kz])
  have d: "d = ?z - Suc k" using Suc.hyps(2) by simp
  note IH = Suc.hyps(1) [OF d _ _ _ Suc.prems(4) refl Suc.prems(6)]
  have keep: "scan_state hz now num h B sz (Suc k) tid"
    if "\<And>f. B (sn_pos h k) = Some f \<Longrightarrow> \<not> rx_expired hz now num f"
    unfolding scan_state_def
    using ok sz num a that by (auto simp: less_Suc_eq intro!: exI [of _ a])
  show ?case
  proof (cases "n = 0")
    case True
    then have "waiting B h ?z k = 0" using Suc.prems(7) by simp
    then have "\<And>j. k \<le> j \<Longrightarrow> j < ?z \<Longrightarrow> B (sn_pos h j) = None"
      by (auto simp: waiting_def)
    then have "scan_state hz now num h B sz ?z tid"
      unfolding scan_state_def using ok sz num a kz
      by (auto intro!: exI [of _ a]) (metis not_le option.distinct(1))
    with True show ?thesis by (subst rx_aggr_check_loop.simps) simp
  next
    case False
    show ?thesis
    proof (cases "B (sn_pos h k)")
      case None
      then have "rx_aggr_check_loop hz now start idx n tid frames =
          rx_aggr_check_loop hz now start ((unat h + Suc k) mod ?z) n tid frames"
        using False guard sl next_idx by (subst rx_aggr_check_loop.simps) (simp add: Let_def)
      then show ?thesis using IH [of tid n frames] keep None w kz Suc.prems(7) by simp
    next
      case (Some f)
      have n1: "waiting B h ?z (Suc k) \<le> unat (n - 1)"
        using w Some False Suc.prems(7) by (simp add: unat_minus_one)
      show ?thesis
      proof (cases "rx_expired hz now num f")
        case False2: False
        then have "rx_aggr_check_loop hz now start idx n tid frames =
            rx_aggr_check_loop hz now start ((unat h + Suc k) mod ?z) (n - 1) tid frames"
          using False guard sl next_idx Some num
          by (subst rx_aggr_check_loop.simps) (simp add: Let_def rx_expired_def)
        then show ?thesis using IH [of tid "n - 1" frames] keep Some False2 n1 kz by simp
      next
        case True
        let ?r = "mt76_rx_aggr_release_frames tid frames (sn_pos h k)"
        have f: "seqno_of f = sn_pos h k"
          using Some a(3) sn_pos_fresh [OF Suc.prems(4), of a k] a(1) k4
          by (intro buffered_Some_seq [of tid]) (simp add: agg_after_def)
        have less: "ieee80211_sn_less (tid_head tid) (sn_pos h k)"
          using a(1) kz z by (simp add: sn_less_dist' dist)
        have nd: "nat (sn_dist (tid_head tid) (sn_pos h k)) = k - a" by (simp only: dist nat_int)
        note rf = release_frames_spec [OF ok less pos, unfolded nd]
        have ka: "k - a \<le> 4096" using k4 by simp
        have rn: "?r = release_n (k - a) tid frames" by (rule rf(1))
        have rel: "tid_head (fst ?r) = sn_pos h k" "buffered (fst ?r) = agg_after B h k" "tid_ok (fst ?r)"
        proof -
          show "tid_head (fst ?r) = sn_pos h k" "tid_ok (fst ?r)"
            unfolding rn using release_n_spec [OF ok ka, of frames] rf(2) by simp_all
          have "buffered (fst ?r) = agg_after (buffered tid) (tid_head tid) (k - a)"
            unfolding rn using release_n_spec [OF ok ka, of frames] by (simp add: agg_after_def)
          also have "\<dots> = agg_after B h k"
            unfolding a(2,3) agg_after_add using a(1) by simp
          finally show "buffered (fst ?r) = agg_after B h k" .
        qed
        then have "scan_state hz now num h B sz (Suc k) (fst ?r)"
          unfolding scan_state_def using sz num by (auto intro!: exI [of _ k])
        moreover have "rx_aggr_check_loop hz now start idx n tid frames =
            rx_aggr_check_loop hz now start ((unat h + Suc k) mod ?z) (n - 1) (fst ?r) (snd ?r)"
          using False guard sl next_idx Some num True f
          by (subst rx_aggr_check_loop.simps) (simp add: Let_def rx_expired_def)
        ultimately show ?thesis using IH [of "fst ?r" "n - 1" "snd ?r"] n1 kz by simp
      qed
    qed
  qed
qed


lemma occupied_waiting:
  assumes inv: "tid_inv tid"
  shows "waiting (buffered tid) (tid_head tid) (unat (tid_size tid)) 1 \<le> occupied tid"
proof -
  let ?h = "tid_head tid" and ?z = "unat (tid_size tid)"
  let ?A = "{j \<in> {1..<?z}. buffered tid (sn_pos ?h j) \<noteq> None}"
  let ?g = "\<lambda>j. (unat ?h + j) mod ?z"
  have ok: "tid_ok tid" and h: "uint ?h < 4096" and z: "?z \<le> 2048" "?z dvd 4096" "0 < ?z"
    using inv by (auto simp: tid_inv_def tid_ok_def tid_window_def)
  have inj: "inj_on ?g ?A"
    by (intro inj_onI) (rule mod_add_window [of "unat ?h"], auto)
  have "?g ` ?A \<subseteq> {i. i < length (tid_buf tid) \<and> tid_buf tid ! i \<noteq> None}"
  proof clarify
    fix j f
    assume j: "j \<in> {1..<?z}" "buffered tid (sn_pos ?h j) = Some f"
    then have "slot tid (unat (sn_pos ?h j) mod ?z) = Some f"
      by (auto simp: buffered_def split: option.splits if_splits)
    then show "?g j < length (tid_buf tid) \<and> tid_buf tid ! ?g j \<noteq> None"
      using sn_pos_index [OF h z(2), of j] j z by (auto simp: slot_def split: if_splits)
  qed
  moreover have "finite {i. i < length (tid_buf tid) \<and> tid_buf tid ! i \<noteq> None}" by simp
  ultimately have "card (?g ` ?A) \<le> card {i. i < length (tid_buf tid) \<and> tid_buf tid ! i \<noteq> None}"
    by (intro card_mono)
  then have "card ?A \<le> card {i. i < length (tid_buf tid) \<and> tid_buf tid ! i \<noteq> None}"
    by (simp only: card_image [OF inj])
  then show ?thesis
    by (simp add: waiting_def occupied_def length_filter_conv_card)
qed

lemma check_release_no_expired:
  assumes inv: "tid_inv tid" and s: "buffered (fst (mt76_rx_aggr_check_release hz now tid frames)) s = Some f"
  shows "\<not> rx_expired hz now (tid_num tid) f"
proof (cases "tid_nframes tid = 0")
  case True
  have "slot tid i = None" for i
    using True inv occupied_pos [of tid i] by (cases "slot tid i") (auto simp: tid_inv_def tid_ok_def tid_shape_def)
  with True s show ?thesis by (simp add: mt76_rx_aggr_check_release_def buffered_def)
next
  case False
  let ?h = "tid_head tid" and ?z = "unat (tid_size tid)" and ?B = "buffered tid"
  have ok: "tid_ok tid" and h: "uint ?h < 4096" and z: "1 < ?z" and free: "slot tid (head_idx tid) = None"
    using inv by (auto simp: tid_inv_def tid_ok_def tid_window_def)
  have rh: "mt76_rx_aggr_release_head tid frames = (tid, frames)"
    using free by (subst mt76_rx_aggr_release_head.simps) simp
  define r where "r = rx_aggr_check_loop hz now (head_idx tid) ((unat ?h + 1) mod ?z) (tid_nframes tid) tid frames"
  have res: "mt76_rx_aggr_check_release hz now tid frames = mt76_rx_aggr_release_head (fst r) (snd r)"
    using False by (simp add: mt76_rx_aggr_check_release_def Let_def rh r_def case_prod_beta)
  have "scan_state hz now (tid_num tid) ?h ?B (tid_size tid) 1 tid"
    using ok by (auto simp: scan_state_def agg_after_def fun_eq_iff intro!: exI [of _ 0])
  then have "scan_state hz now (tid_num tid) ?h ?B (tid_size tid) ?z (fst r)"
    unfolding r_def
    by (rule check_loop_scan)
      (use z h occupied_waiting [OF inv] ok in \<open>auto simp: head_idx_def tid_ok_def tid_shape_def\<close>)
  then obtain a where a: "a < ?z" "tid_head (fst r) = sn_pos ?h a" "buffered (fst r) = agg_after ?B ?h a"
      "\<And>j f. a < j \<Longrightarrow> j < ?z \<Longrightarrow> ?B (sn_pos ?h j) = Some f \<Longrightarrow> \<not> rx_expired hz now (tid_num tid) f"
    and ok': "tid_ok (fst r)"
    by (auto simp: scan_state_def)
  obtain n out where n: "agg_advance (buffered (fst r)) n (fst r)
        (fst (mt76_rx_aggr_release_head (fst r) (snd r))) out"
      "tid_inv (fst (mt76_rx_aggr_release_head (fst r) (snd r)))"
    by (rule release_head_agg [OF ok'])
  have bs: "agg_after (agg_after ?B ?h a) (sn_pos ?h a) n s = Some f"
    using s n(1) a by (simp add: res agg_advance_def)
  then have Bs: "?B s = Some f" and sa: "s \<notin> set (seq_run ?h a)"
    by (auto simp: agg_after_def split: if_splits)
  let ?j = "nat (sn_dist ?h s)"
  have us: "uint s < 4096"
    using Bs ok buffered_Some_seq [OF Bs] by (auto simp: buffered_def tid_ok_def tid_window_def split: option.splits if_splits)
  have sj: "s = sn_pos ?h ?j" by (rule sn_pos_of_dist [OF h us])
  have jz: "?j < ?z"
    using buffered_in_window [OF ok Bs] sn_dist_bounds(1) [of ?h s] by (simp add: nat_less_iff)
  have "a \<le> ?j"
  proof (rule ccontr)
    assume "\<not> a \<le> ?j"
    then have "?j < a" by simp
    with sj have "s \<in> set (seq_run ?h a)" unfolding seq_run_mem by blast
    with sa show False ..
  qed
  moreover have "a \<noteq> ?j"
  proof
    assume aj: "a = ?j"
    show False
    proof (cases n)
      case 0
      let ?t = "fst (mt76_rx_aggr_release_head (fst r) (snd r))"
      have "tid_head ?t = s" "buffered ?t s = Some f"
        using n(1) 0 a(2,3) aj sj bs by (simp_all add: agg_advance_def)
      with n(2) show False
        by (auto simp: tid_inv_def buffered_def head_idx_def)
    next
      case (Suc m)
      with bs aj sj show False by (auto simp: agg_after_def)
    qed
  qed
  ultimately show ?thesis using a(4) [of ?j f] jz Bs sj by simp
qed

text \<open>
  C4: After the reorder timer has run, no frame is left in the buffer that has waited longer
  than the timeout of its traffic class: head-of-line blocking is bounded.
\<close>

theorem reorder_work_releases_expired:
  assumes "reachable agg_init (agg_step hz) tid"
    and "mt76_rx_aggr_reorder_work hz now tid = (tid', out, again)"
    and "slot tid' i = Some skb"
  shows "\<not> rx_expired hz now (tid_num tid) skb \<and> again \<noteq> None"
proof -
  have inv: "tid_inv tid" using agg.reachable_inv [OF assms(1)] .
  have t': "tid' = fst (mt76_rx_aggr_check_release hz now tid [])"
    using assms(2) by (simp add: mt76_rx_aggr_reorder_work_def Let_def case_prod_beta)
  have inv': "tid_inv tid'" using check_release_inv [OF inv] t' by simp
  then have "unat (seqno_of skb) mod unat (tid_size tid') = i"
    using assms(3) by (auto simp: tid_inv_def tid_ok_def tid_window_def)
  then have "buffered tid' (seqno_of skb) = Some skb"
    using assms(3) by (simp add: buffered_def)
  then have "\<not> rx_expired hz now (tid_num tid) skb"
    using check_release_no_expired [OF inv] t' by simp
  moreover have "tid_nframes tid' \<noteq> 0"
    using inv' occupied_pos [OF assms(3)] by (auto simp: tid_inv_def tid_ok_def tid_shape_def)
  ultimately show ?thesis
    using assms(2) t' by (auto simp: mt76_rx_aggr_reorder_work_def Let_def case_prod_beta)
qed

text \<open>Concrete frames for the witnesses.\<close>

definition demo_skb :: "nat \<Rightarrow> u16 \<Rightarrow> u32 \<Rightarrow> rx_skb" where
  "demo_skb i s t = \<lparr>skb_id = i,
     skb_status = \<lparr>rs_wcid = Some 1, rs_reorder_time = t, rs_aggr = True, rs_qos_ctl = 0, rs_seqno = s,
                   rs_flag_8023 = False, rs_flag_dup_validated = False\<rparr>,
     skb_is_ctl = False, skb_is_back_req = False, skb_bar_control = 0, skb_bar_start_seq = 0\<rparr>"

lemma demo_session_inv: "tid_inv (agg_session 100 8 0)"
  by (intro agg_init_inv agg_session_init) simp_all

definition demo_tid :: rx_tid where
  "demo_tid = fst (rx_aggr_reorder_locked 250 0 (agg_session 100 8 0) (demo_skb 1 102 0) [])"

lemma demo_tid_reachable: "reachable agg_init (agg_step 250) demo_tid"
proof (rule reach_step [OF reach_init])
  show "agg_init (agg_session 100 8 0)" by (intro agg_session_init) simp_all
  show "agg_step 250 (agg_session 100 8 0) demo_tid"
    unfolding demo_tid_def by (rule agg_step.frame) (simp add: demo_skb_def)
qed

theorem reorder_refines_map_witness:
  "ao_freed (snd (rx_aggr_reorder_locked 250 7 (agg_session 100 8 0) (demo_skb 1 102 0) [])) = []"
proof -
  let ?r = "rx_aggr_reorder_locked 250 7 (agg_session 100 8 0) (demo_skb 1 102 0) []"
  have "buffered (agg_session 100 8 0) (seqno_of (demo_skb 1 102 0)) = None" by code_simp
  moreover have "\<not> ieee80211_sn_less (seqno_of (demo_skb 1 102 0)) (tid_head (agg_session 100 8 0))"
      "uint (seqno_of (demo_skb 1 102 0)) < 4096" "\<not> tid_stopped (agg_session 100 8 0)"
    by code_simp+
  ultimately show ?thesis
    using reorder_refines_map [OF demo_session_inv, of "demo_skb 1 102 0" 250 7 "[]" "fst ?r" "snd ?r"]
    by simp
qed


theorem reorder_work_releases_expired_witness:
  "\<not> rx_expired 250 5 (tid_num demo_tid) (demo_skb 1 102 0)"
proof -
  have "mt76_rx_aggr_reorder_work 250 5 demo_tid = (demo_tid, [], Some 25)" by code_simp
  moreover have "slot demo_tid 6 = Some (demo_skb 1 102 0)" by code_simp
  ultimately show ?thesis
    using reorder_work_releases_expired [OF demo_tid_reachable] by blast
qed

text \<open>
  Tearing a session down leaks nothing: the session leaves the table, and the frames freed
  are exactly the frames the buffer still held, as many as \<open>nframes\<close> counted.
\<close>

theorem aggr_stop_frees_buffered:
  assumes "reachable agg_init (agg_step hz) tid" and "aw_aggr (tbl w) t = Some tid"
    and "mt76_rx_aggr_stop tbl w t = (tbl', freed)"
  shows "aw_aggr (tbl' w) t = None \<and> length freed = unat (tid_nframes tid)
    \<and> (\<forall>skb. skb \<in> set freed \<longleftrightarrow> (\<exists>i. slot tid i = Some skb))"
proof -
  have shape: "tid_shape tid"
    using agg.reachable_inv [OF assms(1)] by (simp add: tid_inv_def tid_ok_def)
  then have freed: "freed = List.map_filter (\<lambda>s. s) (tid_buf tid)"
    and tbl': "tbl' = set_tid tbl w t None"
    using assms(2,3) by (simp_all add: mt76_rx_aggr_stop_def shutdown_spec)
  have "length freed = length (filter (\<lambda>s. s \<noteq> None) (tid_buf tid))"
    by (simp add: freed List.map_filter_def)
  moreover have "skb \<in> set freed \<longleftrightarrow> Some skb \<in> set (tid_buf tid)" for skb
    by (force simp: freed List.map_filter_def)
  ultimately show ?thesis
    using shape tbl'
    by (auto simp: set_tid_def tid_shape_def occupied_def slot_def in_set_conv_nth split: if_splits)
qed

theorem aggr_stop_frees_buffered_witness:
  "snd (mt76_rx_aggr_stop (\<lambda>_. \<lparr>aw_sta = True, aw_def = None, aw_aggr = (\<lambda>_. Some demo_tid)\<rparr>) 1 0)
     \<noteq> []"
proof -
  let ?tbl = "\<lambda>_. \<lparr>aw_sta = True, aw_def = None, aw_aggr = (\<lambda>_. Some demo_tid)\<rparr>"
  have "slot demo_tid 6 = Some (demo_skb 1 102 0)" by code_simp
  then show ?thesis
    using aggr_stop_frees_buffered [OF demo_tid_reachable, of ?tbl 1 0 "fst (mt76_rx_aggr_stop ?tbl 1 0)"
        "snd (mt76_rx_aggr_stop ?tbl 1 0)"]
    by auto
qed

text \<open>
  The restriction of the theorems above to sizes that divide 4096 is necessary. With a
  negotiated buffer size of 10, a frame inside the receive window and not yet received is
  discarded because another frame of the window owns the slot \<open>seqno % size\<close> once the sequence
  numbers wrap.
\<close>

theorem nondividing_size_drops_new_frame:
  "let tid = fst (rx_aggr_reorder_locked 250 0 (agg_session 4090 10 0) (demo_skb 1 4091 0) []);
       skb = demo_skb 2 1 0;
       r = rx_aggr_reorder_locked 250 1 tid skb []
   in sn_dist (tid_head tid) (seqno_of skb) < uint (tid_size tid) \<and> buffered tid (seqno_of skb) = None
      \<and> ao_freed (snd r) = [skb] \<and> ao_frames (snd r) = [] \<and> tid_buf (fst r) = tid_buf tid"
  by code_simp

end
