(* ===== verification/WcidUtil.thy ===== *)
theory WcidUtil
  imports Mt76Prelude
begin

text \<open>
  The helpers of src/src/mt76/util.c and util.h: register polling, the bitmap of wireless-client
  indices, and the smallest average signal over the clients of a radio. A bitmap \<open>u32 *mask\<close> is
  the list of its words. The bitmap meets the interface \<open>id_pool\<close> of an allocator that hands
  out the least free number; what a client may rely on is proved in the locale and holds of
  \<open>mt76_wcid_alloc\<close> by the interpretation.
\<close>

section \<open>Register polling\<close>

text \<open>
  \<open>rr i\<close> is the value the \<open>i\<close>-th register read returns. \<open>k\<close> is what is left of \<open>timeout\<close>: the
  loop body runs once more than that. The result is the returned flag and the number of reads.
\<close>

fun poll_loop :: "(nat \<Rightarrow> u32) \<Rightarrow> u32 \<Rightarrow> u32 \<Rightarrow> nat \<Rightarrow> nat \<Rightarrow> bool \<times> nat" where
  "poll_loop rr msk val i k =
     (if rr i AND msk = val then (True, i + 1)
      else (case k of 0 \<Rightarrow> (False, i + 1) | Suc k' \<Rightarrow> poll_loop rr msk val (i + 1) k'))"

declare poll_loop.simps [simp del]

definition mt76_poll :: "(nat \<Rightarrow> u32) \<Rightarrow> u32 \<Rightarrow> u32 \<Rightarrow> nat \<Rightarrow> bool \<times> nat" where
  "mt76_poll rr msk val timeout = poll_loop rr msk val 0 (timeout div 10)"

definition mt76_poll_msec :: "(nat \<Rightarrow> u32) \<Rightarrow> u32 \<Rightarrow> u32 \<Rightarrow> nat \<Rightarrow> nat \<Rightarrow> bool \<times> nat" where
  "mt76_poll_msec rr msk val timeout tick = poll_loop rr msk val 0 (timeout div tick)"

lemma poll_loop_spec:
  "poll_loop rr msk val i k =
     (case List.find (\<lambda>j. rr j AND msk = val) [i..<i + k + 1] of
        None \<Rightarrow> (False, i + k + 1) | Some j \<Rightarrow> (True, j + 1))"
proof (induction k arbitrary: i)
  case 0
  then show ?case by (simp add: poll_loop.simps)
next
  case (Suc k)
  have "[i..<i + Suc k + 1] = i # [Suc i..<Suc i + k + 1]"
    by (simp add: upt_conv_Cons)
  then show ?case
    using Suc [of "Suc i"] by (subst poll_loop.simps) (simp split: option.split)
qed

text \<open>The first hit of a search over an interval.\<close>

lemma find_upt_Some:
  "List.find P [0..<m] = Some j \<longleftrightarrow> j < m \<and> P j \<and> (\<forall>i<j. \<not> P i)"
  by (auto simp: find_Some_iff)

lemma find_upt_None: "List.find P [0..<m] = None \<longleftrightarrow> (\<forall>i<m. \<not> P i)"
  by (auto simp: find_None_iff)

text \<open>
  Polling reads the register at least once and at most \<open>timeout / 10 + 1\<close> times, stops at
  the first read whose masked value is the wanted one, and reports success exactly when there
  is such a read.
\<close>

theorem mt76_poll_first_match:
  "case mt76_poll rr msk val timeout of
     (True, n) \<Rightarrow> 0 < n \<and> n \<le> timeout div 10 + 1 \<and> rr (n - 1) AND msk = val
        \<and> list_all (\<lambda>j. rr j AND msk \<noteq> val) [0..<n - 1]
   | (False, n) \<Rightarrow> n = timeout div 10 + 1 \<and> list_all (\<lambda>j. rr j AND msk \<noteq> val) [0..<n]"
proof (cases "List.find (\<lambda>j. rr j AND msk = val) [0..<timeout div 10 + 1]")
  case None
  then have "mt76_poll rr msk val timeout = (False, timeout div 10 + 1)"
    by (simp only: mt76_poll_def poll_loop_spec add_0 option.case)
  with None show ?thesis by (simp add: list_all_iff find_upt_None del: upt_Suc)
next
  case (Some j)
  then have "mt76_poll rr msk val timeout = (True, j + 1)"
    by (simp only: mt76_poll_def poll_loop_spec add_0 option.case)
  with Some show ?thesis by (simp add: list_all_iff find_upt_Some del: upt_Suc)
qed

section \<open>The bitmap of client indices\<close>

text \<open>\<open>ffs\<close>: one more than the position of the least set bit, 0 when there is none.\<close>

definition ffs :: "u32 \<Rightarrow> nat" where
  "ffs w = (case List.find (bit w) [0..<32] of None \<Rightarrow> 0 | Some n \<Rightarrow> n + 1)"

fun wcid_alloc_loop :: "u32 list \<Rightarrow> nat \<Rightarrow> nat \<Rightarrow> nat \<Rightarrow> nat option \<times> u32 list" where
  "wcid_alloc_loop msk sz i 0 = (None, msk)"
| "wcid_alloc_loop msk sz i (Suc n) =
     (let idx = ffs (NOT (msk ! i))
      in if idx = 0 then wcid_alloc_loop msk sz (i + 1) n
         else let cur = i * 32 + (idx - 1)
              in if cur \<ge> sz then (None, msk)
                 else (Some cur, msk[i := msk ! i OR BIT (idx - 1)]))"

text \<open>\<open>None\<close> is the returned \<open>-1\<close>.\<close>

definition mt76_wcid_alloc :: "u32 list \<Rightarrow> nat \<Rightarrow> nat option \<times> u32 list" where
  "mt76_wcid_alloc msk sz = wcid_alloc_loop msk sz 0 ((sz + 31) div 32)"

definition mt76_wcid_mask_set :: "u32 list \<Rightarrow> nat \<Rightarrow> u32 list" where
  "mt76_wcid_mask_set msk idx = msk[idx div 32 := msk ! (idx div 32) OR BIT (idx mod 32)]"

definition mt76_wcid_mask_clear :: "u32 list \<Rightarrow> nat \<Rightarrow> u32 list" where
  "mt76_wcid_mask_clear msk idx = msk[idx div 32 := msk ! (idx div 32) AND NOT (BIT (idx mod 32))]"

definition wcid_used :: "u32 list \<Rightarrow> nat \<Rightarrow> bool" where
  "wcid_used msk n \<longleftrightarrow> n div 32 < length msk \<and> bit (msk ! (n div 32)) (n mod 32)"

lemma ffs_0: "ffs w = 0 \<longleftrightarrow> (\<forall>n<32. \<not> bit w n)"
  unfolding ffs_def by (simp add: find_upt_None split: option.split del: upt_rec_numeral)
    (metis find_upt_None option.distinct(1))

lemma ffs_Suc: "ffs w = Suc n \<longleftrightarrow> n < 32 \<and> bit w n \<and> (\<forall>m<n. \<not> bit w m)"
  unfolding ffs_def using find_upt_Some [of "bit w" 32 n]
  by (auto split: option.split simp del: upt_rec_numeral)

lemma ffs_bound: "ffs w \<le> 32"
  using ffs_Suc [of w "ffs w - 1"] by (cases "ffs w") auto

lemma wcid_used_word: "n < 32 \<Longrightarrow> i < length msk \<Longrightarrow> wcid_used msk (i * 32 + n) \<longleftrightarrow> bit (msk ! i) n"
  by (simp add: wcid_used_def)

lemma wcid_split:
  fixes m i :: nat
  assumes "m < (i + 1) * 32"
  obtains "m < i * 32" | n where "m = i * 32 + n" "n < 32"
  using assms that(1) that(2) [of "m - i * 32"] by (cases "m < i * 32") auto

lemma wcid_pos: "k < 32 \<Longrightarrow> n = i * 32 + k \<longleftrightarrow> n div 32 = i \<and> n mod 32 = k" for n i k :: nat
  by auto

lemma wcid_used_set:
  assumes "i < length msk" "k < 32"
  shows "wcid_used (msk[i := msk ! i OR BIT k]) n \<longleftrightarrow> wcid_used msk n \<or> n = i * 32 + k"
  using assms by (auto simp: wcid_used_def nth_list_update bit_or_iff bit_BIT wcid_pos)

lemma wcid_used_clear:
  assumes "i < length msk" "k < 32"
  shows "wcid_used (msk[i := msk ! i AND NOT (BIT k)]) n \<longleftrightarrow> wcid_used msk n \<and> n \<noteq> i * 32 + k"
  using assms
  by (auto simp: wcid_used_def nth_list_update bit_and_iff bit_not_iff bit_BIT wcid_pos)

definition alloc_least :: "(nat \<Rightarrow> bool) \<Rightarrow> nat \<Rightarrow> nat option \<Rightarrow> (nat \<Rightarrow> bool) \<Rightarrow> bool" where
  "alloc_least used cap r used' \<longleftrightarrow>
     (case r of Some cur \<Rightarrow> cur < cap \<and> \<not> used cur \<and> (\<forall>n<cur. used n) \<and> (\<forall>n. used' n \<longleftrightarrow> used n \<or> n = cur)
      | None \<Rightarrow> used' = used \<and> (\<forall>n<cap. used n))"

lemma wcid_alloc_loop_spec:
  assumes "\<forall>m < i * 32. wcid_used msk m" "i + n = (sz + 31) div 32" "(sz + 31) div 32 \<le> length msk"
  shows "alloc_least (wcid_used msk) sz (fst (wcid_alloc_loop msk sz i n)) (wcid_used (snd (wcid_alloc_loop msk sz i n)))
    \<and> length (snd (wcid_alloc_loop msk sz i n)) = length msk"
  using assms
proof (induction n arbitrary: i)
  case 0
  then have "sz \<le> i * 32" by simp
  with 0 show ?case by (simp add: alloc_least_def)
next
  case (Suc n)
  have i: "i < length msk" using Suc.prems by simp
  show ?case
  proof (cases "ffs (NOT (msk ! i))")
    case 0
    then have full: "\<forall>k<32. bit (msk ! i) k" by (simp add: ffs_0 bit_not_iff)
    have "\<forall>m < (i + 1) * 32. wcid_used msk m"
    proof clarify
      fix m assume "m < (i + 1) * 32"
      then show "wcid_used msk m"
        using Suc.prems(1) full i by (elim wcid_split) (auto simp: wcid_used_word)
    qed
    with 0 show ?thesis using Suc.IH [of "i + 1"] Suc.prems by simp
  next
    case (Suc k)
    then have k: "k < 32" "\<not> bit (msk ! i) k" "\<forall>m<k. bit (msk ! i) m"
      by (auto simp: ffs_Suc bit_not_iff)
    have below: "wcid_used msk m" if "m < i * 32 + k" for m
    proof -
      have "m < (i + 1) * 32" using that k by simp
      then show ?thesis
        using Suc.prems(1) k i that by (elim wcid_split) (auto simp: wcid_used_word)
    qed
    have "\<not> wcid_used msk (i * 32 + k)" using k i by (simp add: wcid_used_word)
    then show ?thesis
      using Suc below i k by (auto simp: alloc_least_def Let_def wcid_used_set)
  qed
qed

text \<open>
  What a client of an allocator of small numbers may rely on.
\<close>

locale id_pool =
  fixes used :: "'s \<Rightarrow> nat \<Rightarrow> bool" and wf :: "'s \<Rightarrow> bool" and cap :: nat
    and alloc :: "'s \<Rightarrow> nat option \<times> 's" and release :: "'s \<Rightarrow> nat \<Rightarrow> 's"
  assumes alloc_law: "wf s \<Longrightarrow> alloc_least (used s) cap (fst (alloc s)) (used (snd (alloc s)))"
    and alloc_wf: "wf s \<Longrightarrow> wf (snd (alloc s))"
    and release_law: "wf s \<Longrightarrow> n < cap \<Longrightarrow> used (release s n) m \<longleftrightarrow> used s m \<and> m \<noteq> n"
    and release_wf: "wf s \<Longrightarrow> wf (release s n)"
begin

lemma alloc_increasing:
  assumes "wf s" "alloc s = (Some a, s1)" "alloc s1 = (Some b, s2)"
  shows "a < b"
proof -
  have "\<forall>n\<le>a. used s1 n"
    using alloc_law [OF assms(1)] assms(2) by (auto simp: alloc_least_def le_less)
  moreover have "\<not> used s1 b"
    using alloc_law [of s1] alloc_wf [OF assms(1)] assms(2,3) by (auto simp: alloc_least_def)
  ultimately show ?thesis by (meson not_le)
qed

lemma alloc_full_iff:
  assumes "wf s"
  shows "fst (alloc s) = None \<longleftrightarrow> (\<forall>n<cap. used s n)"
  using alloc_law [OF assms] by (auto simp: alloc_least_def split: option.splits)

lemma release_alloc:
  assumes "wf s" "a < cap" "used s a" "\<forall>n<a. used s n"
  shows "fst (alloc (release s a)) = Some a"
proof -
  have r: "used (release s a) m \<longleftrightarrow> used s m \<and> m \<noteq> a" for m
    using release_law [OF assms(1,2)] .
  show ?thesis
  proof (cases "fst (alloc (release s a))")
    case None
    then show ?thesis
      using alloc_law [OF release_wf [OF assms(1)], of a] r assms(2) by (auto simp: alloc_least_def)
  next
    case (Some c)
    then have "\<not> used (release s a) c" "\<forall>n<c. used (release s a) n"
      using alloc_law [OF release_wf [OF assms(1)], of a] by (auto simp: alloc_least_def)
    then have "c = a" using r assms(4) by (metis linorder_neqE_nat)
    with Some show ?thesis by simp
  qed
qed

end

text \<open>The driver's bitmap for \<open>MT76_N_WCIDS\<close> clients.\<close>

definition MT76_N_WCIDS :: nat where
  "MT76_N_WCIDS = 1088"

definition wcid_mask_wf :: "u32 list \<Rightarrow> bool" where
  "wcid_mask_wf msk \<longleftrightarrow> length msk = (MT76_N_WCIDS + 31) div 32"

definition wcid_mask_release :: "u32 list \<Rightarrow> nat \<Rightarrow> u32 list" where
  "wcid_mask_release msk n = (if n < MT76_N_WCIDS then mt76_wcid_mask_clear msk n else msk)"

interpretation wcid: id_pool wcid_used wcid_mask_wf MT76_N_WCIDS
  "\<lambda>msk. mt76_wcid_alloc msk MT76_N_WCIDS" wcid_mask_release
proof unfold_locales
  fix msk assume wf: "wcid_mask_wf msk"
  then show "alloc_least (wcid_used msk) MT76_N_WCIDS (fst (mt76_wcid_alloc msk MT76_N_WCIDS))
      (wcid_used (snd (mt76_wcid_alloc msk MT76_N_WCIDS)))"
    and "wcid_mask_wf (snd (mt76_wcid_alloc msk MT76_N_WCIDS))"
    using wcid_alloc_loop_spec [of 0 msk "(MT76_N_WCIDS + 31) div 32" MT76_N_WCIDS]
    by (simp_all add: mt76_wcid_alloc_def wcid_mask_wf_def)
  fix n
  show "wcid_mask_wf (wcid_mask_release msk n)"
    using wf by (simp add: wcid_mask_wf_def wcid_mask_release_def mt76_wcid_mask_clear_def)
  fix m assume "n < MT76_N_WCIDS"
  then show "wcid_used (wcid_mask_release msk n) m \<longleftrightarrow> wcid_used msk m \<and> m \<noteq> n"
    using wf wcid_used_clear [of "n div 32" msk "n mod 32" m]
    by (simp add: wcid_mask_wf_def wcid_mask_release_def mt76_wcid_mask_clear_def MT76_N_WCIDS_def)
qed

text \<open>
  \<open>mt76_wcid_alloc\<close> returns the least index below the size that is free, sets exactly its
  bit, and fails, changing nothing, exactly when every index below the size is taken.
\<close>

theorem mt76_wcid_alloc_least:
  assumes "(sz + 31) div 32 \<le> length msk"
  shows "case mt76_wcid_alloc msk sz of
      (Some cur, msk') \<Rightarrow> cur < sz \<and> \<not> wcid_used msk cur \<and> (\<forall>n<cur. wcid_used msk n)
        \<and> (\<forall>n. wcid_used msk' n \<longleftrightarrow> wcid_used msk n \<or> n = cur)
    | (None, msk') \<Rightarrow> wcid_used msk' = wcid_used msk \<and> (\<forall>n < sz. wcid_used msk n)"
  using wcid_alloc_loop_spec [of 0 msk "(sz + 31) div 32" sz] assms
  by (auto simp: mt76_wcid_alloc_def alloc_least_def split: option.splits prod.splits)

theorem mt76_wcid_alloc_least_witness:
  "mt76_wcid_alloc [0xFFFFFFFF, 0xF7] 64 = (Some 35, [0xFFFFFFFF, 0xFF]) \<and> \<not> wcid_used [0xFFFFFFFF, 0xF7] 35"
proof -
  have e: "mt76_wcid_alloc [0xFFFFFFFF, 0xF7] 64 = (Some 35, [0xFFFFFFFF, 0xFF])" by code_simp
  then show ?thesis using mt76_wcid_alloc_least [of 64 "[0xFFFFFFFF, 0xF7]"] by simp
qed

section \<open>The smallest average signal of a radio\<close>

text \<open>
  The two fields of \<open>struct mt76_wcid\<close> that \<open>mt76_get_min_avg_rssi\<close> reads, and what
  \<open>ewma_signal_read\<close> returns for its average. \<open>dev->wcid[]\<close> is a map: an index past the array or
  an empty slot is \<open>None\<close>.
\<close>

record rssi_wcid =
  rw_phy_idx :: u8
  rw_inactive_count :: int
  rw_signal :: u32

definition cur_rssi :: "rssi_wcid \<Rightarrow> int" where
  "cur_rssi w = (if rw_inactive_count w < 5 then sint (- (ucast (rw_signal w) :: u8)) else 0)"

definition rssi_visit ::
  "u8 \<Rightarrow> nat \<Rightarrow> (nat \<rightharpoonup> rssi_wcid) \<times> int \<Rightarrow> (nat \<rightharpoonup> rssi_wcid) \<times> int" where
  "rssi_visit phy j st =
     (case fst st j of
        None \<Rightarrow> st
      | Some w \<Rightarrow>
          if rw_phy_idx w \<noteq> phy then st
          else ((fst st)(j \<mapsto> w\<lparr>rw_inactive_count := rw_inactive_count w + 1\<rparr>),
                if cur_rssi w < snd st then cur_rssi w else snd st))"

function rssi_bit_loop ::
  "u8 \<Rightarrow> u32 \<Rightarrow> nat \<Rightarrow> (nat \<rightharpoonup> rssi_wcid) \<times> int \<Rightarrow> (nat \<rightharpoonup> rssi_wcid) \<times> int" where
  "rssi_bit_loop phy msk j st =
     (if msk = 0 then st
      else rssi_bit_loop phy (drop_bit 1 msk) (j + 1) (if msk AND 1 = 0 then st else rssi_visit phy j st))"
  by pat_completeness auto
termination
  by (relation "measure (\<lambda>(phy, msk, j, st). unat msk)")
    (auto simp: drop_bit_eq_div unat_div unat_gt_0)

declare rssi_bit_loop.simps [simp del]

fun rssi_word_loop ::
  "u8 \<Rightarrow> u32 list \<Rightarrow> nat \<Rightarrow> (nat \<rightharpoonup> rssi_wcid) \<times> int \<Rightarrow> (nat \<rightharpoonup> rssi_wcid) \<times> int" where
  "rssi_word_loop phy [] i st = st"
| "rssi_word_loop phy (m # ms) i st =
     rssi_word_loop phy ms (i + 1) (if m = 0 then st else rssi_bit_loop phy m (i * 32) st)"

definition mt76_get_min_avg_rssi ::
  "(nat \<rightharpoonup> rssi_wcid) \<Rightarrow> u32 list \<Rightarrow> u8 \<Rightarrow> (nat \<rightharpoonup> rssi_wcid) \<times> int" where
  "mt76_get_min_avg_rssi ws msk phy = rssi_word_loop phy msk 0 (ws, 0)"

lemma rssi_bit_loop_fold:
  assumes "\<And>k. bit msk k \<Longrightarrow> k < n"
  shows "rssi_bit_loop phy msk j st = fold (rssi_visit phy) (filter (\<lambda>k. bit msk (k - j)) [j..<j + n]) st"
  using assms
proof (induction n arbitrary: msk j st)
  case 0
  then have "msk = 0" by (intro bit_eqI) auto
  then show ?case by (simp add: rssi_bit_loop.simps)
next
  case (Suc n)
  have odd: "msk AND 1 = 0 \<longleftrightarrow> \<not> bit msk 0"
    by (simp add: and_one_eq bit_0 even_iff_mod_2_eq_zero)
  have up: "[j..<j + Suc n] = j # [j + 1..<j + 1 + n]" by (simp add: upt_conv_Cons)
  have sh: "filter (\<lambda>k. bit msk (k - j)) [j + 1..<j + 1 + n]
      = filter (\<lambda>k. bit (drop_bit 1 msk) (k - (j + 1))) [j + 1..<j + 1 + n]"
    by (rule filter_cong) (auto simp: bit_drop_bit_eq Suc_diff_Suc)
  have IH: "rssi_bit_loop phy (drop_bit 1 msk) (j + 1) s
      = fold (rssi_visit phy) (filter (\<lambda>k. bit (drop_bit 1 msk) (k - (j + 1))) [j + 1..<j + 1 + n]) s" for s
    using Suc.prems by (intro Suc.IH) (force simp: bit_drop_bit_eq)
  show ?case
  proof (cases "msk = 0")
    case True
    then show ?thesis by (simp add: rssi_bit_loop.simps)
  next
    case False
    then show ?thesis
      unfolding up filter.simps sh using IH
      by (subst rssi_bit_loop.simps) (cases "bit msk 0"; simp only: odd if_False if_True simp_thms diff_self_eq_0 fold_simps)
  qed
qed

lemma rssi_word_loop_fold:
  "rssi_word_loop phy ms i st =
     fold (rssi_visit phy) (filter (\<lambda>k. bit (ms ! ((k - i * 32) div 32)) (k mod 32)) [i * 32..<(i + length ms) * 32]) st"
proof (induction ms arbitrary: i st)
  case Nil
  then show ?case by simp
next
  case (Cons m ms)
  have up: "[i * 32..<(i + length (m # ms)) * 32] = [i * 32..<i * 32 + 32] @ [(i + 1) * 32..<(i + 1 + length ms) * 32]"
    using upt_add_eq_append [of "i * 32" "i * 32 + 32" "length ms * 32"] by (simp add: algebra_simps)
  have first: "filter (\<lambda>k. bit ((m # ms) ! ((k - i * 32) div 32)) (k mod 32)) [i * 32..<i * 32 + 32]
      = filter (\<lambda>k. bit m (k - i * 32)) [i * 32..<i * 32 + 32]"
  proof (rule filter_cong)
    fix k assume "k \<in> set [i * 32..<i * 32 + 32]"
    then have "(k - i * 32) div 32 = 0" "k mod 32 = k - i * 32"
      by (auto simp: mod_eq_nat1E [of k 32] nat_mod_eq_iff le_mod_geq mod_nat_eqI)
    then show "bit ((m # ms) ! ((k - i * 32) div 32)) (k mod 32) = bit m (k - i * 32)" by simp
  qed simp
  have rest: "filter (\<lambda>k. bit ((m # ms) ! ((k - i * 32) div 32)) (k mod 32)) [(i + 1) * 32..<(i + 1 + length ms) * 32]
      = filter (\<lambda>k. bit (ms ! ((k - (i + 1) * 32) div 32)) (k mod 32)) [(i + 1) * 32..<(i + 1 + length ms) * 32]"
  proof (rule filter_cong)
    fix k assume "k \<in> set [(i + 1) * 32..<(i + 1 + length ms) * 32]"
    then have "k - i * 32 = (k - (i + 1) * 32) + 32" by simp
    then have "(k - i * 32) div 32 = Suc ((k - (i + 1) * 32) div 32)"
      by (metis div_add_self2 zero_neq_numeral Suc_eq_plus1)
    then show "bit ((m # ms) ! ((k - i * 32) div 32)) (k mod 32) = bit (ms ! ((k - (i + 1) * 32) div 32)) (k mod 32)"
      by simp
  qed simp
  have m: "(if m = 0 then st else rssi_bit_loop phy m (i * 32) st)
      = fold (rssi_visit phy) (filter (\<lambda>k. bit m (k - i * 32)) [i * 32..<i * 32 + 32]) st"
    using rssi_bit_loop_fold [of m 32 phy "i * 32" st] bit_imp_le_length [of m] by auto
  show ?case
    unfolding up filter_append first rest fold_append o_apply rssi_word_loop.simps m Cons.IH ..
qed

lemma rssi_all: "mt76_get_min_avg_rssi ws msk phy =
    fold (rssi_visit phy) (filter (wcid_used msk) [0..<length msk * 32]) (ws, 0)"
proof -
  have "filter (\<lambda>k. bit (msk ! (k div 32)) (k mod 32)) [0..<length msk * 32]
      = filter (wcid_used msk) [0..<length msk * 32]"
    by (rule filter_cong) (auto simp: wcid_used_def less_mult_imp_div_less)
  then show ?thesis
    using rssi_word_loop_fold [of phy msk 0 "(ws, 0)"] by (simp add: mt76_get_min_avg_rssi_def)
qed

lemma Min_insert_smaller:
  fixes c m :: int
  assumes "finite A"
  shows "Min (insert (if c < m then c else m) A) = Min (insert m (insert c A))"
  using assms by (cases "A = {}") (auto simp: min_def)

lemma rssi_fold:
  assumes "distinct js"
  shows "snd (fold (rssi_visit phy) js (ws, m))
       = Min (insert m {cur_rssi w |w j. j \<in> set js \<and> ws j = Some w \<and> rw_phy_idx w = phy})"
    and "fst (fold (rssi_visit phy) js (ws, m)) j
       = (case ws j of None \<Rightarrow> None
          | Some w \<Rightarrow> Some (if j \<in> set js \<and> rw_phy_idx w = phy
                           then w\<lparr>rw_inactive_count := rw_inactive_count w + 1\<rparr> else w))"
  using assms
proof (induction js arbitrary: ws m)
  case Nil
  { case 1 then show ?case by simp }
  { case 2 then show ?case by (simp split: option.split) }
next
  case (Cons i js)
  let ?S = "\<lambda>ws js. {cur_rssi w |w j. j \<in> set js \<and> ws j = Some w \<and> rw_phy_idx w = phy}"
  have fin: "finite (?S ws js)" for ws js
    by (rule finite_subset [of _ "(cur_rssi \<circ> the \<circ> ws) ` set js"]) (force simp: image_iff)+
  { case 1
    show ?case
    proof (cases "\<exists>w. ws i = Some w \<and> rw_phy_idx w = phy")
      case True
      then obtain w where w: "ws i = Some w" "rw_phy_idx w = phy" by blast
      let ?ws = "ws(i \<mapsto> w\<lparr>rw_inactive_count := rw_inactive_count w + 1\<rparr>)"
      let ?m = "if cur_rssi w < m then cur_rssi w else m"
      have "?S ?ws js = ?S ws js" using 1 by force
      moreover have "?S ws (i # js) = insert (cur_rssi w) (?S ws js)" using w by auto
      moreover have "rssi_visit phy i (ws, m) = (?ws, ?m)" using w by (simp add: rssi_visit_def)
      moreover have "snd (fold (rssi_visit phy) js (?ws, ?m)) = Min (insert ?m (?S ?ws js))"
        using 1 by (intro Cons.IH(1)) simp
      ultimately show ?thesis
        using Min_insert_smaller [OF fin [of js ws], of "cur_rssi w" m] by (simp only: fold_simps)
    next
      case False
      then have "?S ws (i # js) = ?S ws js" by auto
      moreover have "rssi_visit phy i (ws, m) = (ws, m)"
        using False by (auto simp: rssi_visit_def split: option.split)
      ultimately show ?thesis using Cons.IH(1) [of ws m] 1 by simp
    qed }
  { case 2
    then show ?case
      using Cons.IH(2) by (auto simp: rssi_visit_def split: option.split) }
qed

text \<open>
  \<open>mt76_get_min_avg_rssi\<close> returns the least of 0 and the current signals of the clients of
  the radio whose bit is set in the mask (0 for a client seen inactive five times), and counts
  one inactivity for exactly those clients; no other client changes.
\<close>

theorem mt76_get_min_avg_rssi_min:
  "snd (mt76_get_min_avg_rssi ws msk phy)
     = Min (insert 0 {cur_rssi w |w j. wcid_used msk j \<and> ws j = Some w \<and> rw_phy_idx w = phy})
   \<and> (\<forall>j. fst (mt76_get_min_avg_rssi ws msk phy) j
       = (case ws j of None \<Rightarrow> None
          | Some w \<Rightarrow> Some (if wcid_used msk j \<and> rw_phy_idx w = phy
                           then w\<lparr>rw_inactive_count := rw_inactive_count w + 1\<rparr> else w)))"
proof -
  have used: "j \<in> set (filter (wcid_used msk) [0..<length msk * 32]) \<longleftrightarrow> wcid_used msk j" for j
    by (auto simp: wcid_used_def div_less_iff_less_mult)
  have d: "distinct (filter (wcid_used msk) [0..<length msk * 32])" by simp
  show ?thesis
    unfolding rssi_all using rssi_fold [OF d, of phy ws 0] by (simp only: used simp_thms)
qed

end
