(* ===== verification/Worker.thy ===== *)
theory Worker
  imports Mt76Prelude
begin

text \<open>
  The worker thread of src/src/mt76/util.c and util.h: a kernel thread that runs a function
  whenever it was scheduled, with the two bits of \<open>w->state\<close>, and the operations other threads
  call on it. Every thread is a program counter, every access to shared memory is one step, and
  the steps interleave freely. The kernel's part (task states, \<open>schedule\<close>, \<open>wake_up_process\<close>,
  the kthread stop and park flags) follows the documentation of \<open>linux/kthread.h\<close>; whether
  \<open>kthread_stop\<close> also interrupts an interruptible sleep (it does since Linux 6.1) is the constant
  \<open>wk_stop_signals\<close> of the state. The theorems show that no wake-up and no request to park is
  lost, and that a stop request is safe because of that interruption only.
\<close>

section \<open>State\<close>

datatype task_state = TASK_RUNNING | TASK_INTERRUPTIBLE

text \<open>The points of \<open>__mt76_worker_fn\<close> between two accesses to shared state.\<close>

datatype worker_pc =
  W_should_stop | W_set_interruptible | W_should_park | W_parkme | W_test_scheduled | W_schedule
  | W_set_running_bit | W_set_running | W_fn | W_clear_running_bit | W_return

text \<open>The points of \<open>mt76_worker_schedule\<close>, for each thread that may call it.\<close>

datatype sched_pc = S_idle | S_task | S_test_and_set | S_test_running | S_wake_up

text \<open>The thread that disables, enables and tears down the worker.\<close>

datatype ctl_pc = C_idle | C_park_wake | C_park_wait | C_clear_state | C_disabled
  | C_stop_wake | C_stop_wait | C_gone

record worker =
  wk_task :: bool
  wk_scheduled :: bool
  wk_running :: bool
  wk_tstate :: task_state
  wk_stop_signals :: bool
  wk_signal :: bool
  wk_should_park :: bool
  wk_should_stop :: bool
  wk_pc :: worker_pc
  wk_sched :: "nat \<Rightarrow> sched_pc"
  wk_ctl :: ctl_pc
  wk_runs :: nat

definition worker_init :: "bool \<Rightarrow> worker \<Rightarrow> bool" where
  "worker_init sig w \<longleftrightarrow> w = \<lparr>wk_task = True, wk_scheduled = False, wk_running = False,
     wk_tstate = TASK_RUNNING, wk_stop_signals = sig, wk_signal = False, wk_should_park = False, wk_should_stop = False,
     wk_pc = W_should_stop, wk_sched = (\<lambda>i. S_idle), wk_ctl = C_idle, wk_runs = 0\<rparr>"

section \<open>Steps\<close>

text \<open>
  The thread function. \<open>schedule()\<close> returns only in state \<open>TASK_RUNNING\<close>
  or with a signal pending; \<open>kthread_parkme\<close>
  returns, in that state, when the park flag is cleared. \<open>cond_resched\<close> does nothing here.
\<close>

inductive worker_fn_step :: "worker \<Rightarrow> worker \<Rightarrow> bool" where
  stop: "\<lbrakk>wk_pc w = W_should_stop; wk_should_stop w\<rbrakk> \<Longrightarrow> worker_fn_step w (w\<lparr>wk_pc := W_return\<rparr>)"
| loop: "\<lbrakk>wk_pc w = W_should_stop; \<not> wk_should_stop w\<rbrakk>
    \<Longrightarrow> worker_fn_step w (w\<lparr>wk_pc := W_set_interruptible\<rparr>)"
| set_interruptible: "wk_pc w = W_set_interruptible
    \<Longrightarrow> worker_fn_step w (w\<lparr>wk_pc := W_should_park, wk_tstate := TASK_INTERRUPTIBLE\<rparr>)"
| park: "\<lbrakk>wk_pc w = W_should_park; wk_should_park w\<rbrakk> \<Longrightarrow> worker_fn_step w (w\<lparr>wk_pc := W_parkme\<rparr>)"
| no_park: "\<lbrakk>wk_pc w = W_should_park; \<not> wk_should_park w\<rbrakk>
    \<Longrightarrow> worker_fn_step w (w\<lparr>wk_pc := W_test_scheduled\<rparr>)"
| parkme: "\<lbrakk>wk_pc w = W_parkme; \<not> wk_should_park w\<rbrakk>
    \<Longrightarrow> worker_fn_step w (w\<lparr>wk_pc := W_should_stop, wk_tstate := TASK_RUNNING\<rparr>)"
| not_scheduled: "\<lbrakk>wk_pc w = W_test_scheduled; \<not> wk_scheduled w\<rbrakk>
    \<Longrightarrow> worker_fn_step w (w\<lparr>wk_pc := W_schedule\<rparr>)"
| schedule: "\<lbrakk>wk_pc w = W_schedule; wk_tstate w = TASK_RUNNING \<or> wk_signal w\<rbrakk>
    \<Longrightarrow> worker_fn_step w (w\<lparr>wk_pc := W_should_stop, wk_tstate := TASK_RUNNING\<rparr>)"
| clear_scheduled: "\<lbrakk>wk_pc w = W_test_scheduled; wk_scheduled w\<rbrakk>
    \<Longrightarrow> worker_fn_step w (w\<lparr>wk_pc := W_set_running_bit, wk_scheduled := False\<rparr>)"
| set_running_bit: "wk_pc w = W_set_running_bit
    \<Longrightarrow> worker_fn_step w (w\<lparr>wk_pc := W_set_running, wk_running := True\<rparr>)"
| set_running: "wk_pc w = W_set_running
    \<Longrightarrow> worker_fn_step w (w\<lparr>wk_pc := W_fn, wk_tstate := TASK_RUNNING\<rparr>)"
| run_fn: "wk_pc w = W_fn
    \<Longrightarrow> worker_fn_step w (w\<lparr>wk_pc := W_clear_running_bit, wk_runs := wk_runs w + 1\<rparr>)"
| clear_running_bit: "wk_pc w = W_clear_running_bit
    \<Longrightarrow> worker_fn_step w (w\<lparr>wk_pc := W_should_stop, wk_running := False\<rparr>)"

text \<open>\<open>mt76_worker_schedule\<close>, called by thread \<open>i\<close>.\<close>

definition set_sched :: "worker \<Rightarrow> nat \<Rightarrow> sched_pc \<Rightarrow> worker" where
  "set_sched w i pc = w\<lparr>wk_sched := (wk_sched w)(i := pc)\<rparr>"

inductive worker_schedule_step :: "nat \<Rightarrow> worker \<Rightarrow> worker \<Rightarrow> bool" for i where
  call: "wk_sched w i = S_idle \<Longrightarrow> worker_schedule_step i w (set_sched w i S_task)"
| task: "wk_sched w i = S_task
    \<Longrightarrow> worker_schedule_step i w (set_sched w i (if wk_task w then S_test_and_set else S_idle))"
| test_and_set: "wk_sched w i = S_test_and_set
    \<Longrightarrow> worker_schedule_step i w
          (set_sched (w\<lparr>wk_scheduled := True\<rparr>) i (if wk_scheduled w then S_idle else S_test_running))"
| test_running: "wk_sched w i = S_test_running
    \<Longrightarrow> worker_schedule_step i w (set_sched w i (if wk_running w then S_idle else S_wake_up))"
| wake_up: "wk_sched w i = S_wake_up
    \<Longrightarrow> worker_schedule_step i w (set_sched (w\<lparr>wk_tstate := TASK_RUNNING\<rparr>) i S_idle)"

text \<open>
  \<open>mt76_worker_disable\<close>: \<open>kthread_park\<close> sets the park flag, wakes the thread and waits until it
  is parked; then the state word is cleared.
\<close>

inductive worker_disable_step :: "worker \<Rightarrow> worker \<Rightarrow> bool" where
  kthread_park: "wk_ctl w = C_idle
    \<Longrightarrow> worker_disable_step w (w\<lparr>wk_ctl := C_park_wake, wk_should_park := True\<rparr>)"
| park_wake: "wk_ctl w = C_park_wake
    \<Longrightarrow> worker_disable_step w (w\<lparr>wk_ctl := C_park_wait, wk_tstate := TASK_RUNNING\<rparr>)"
| park_wait: "\<lbrakk>wk_ctl w = C_park_wait; wk_pc w = W_parkme\<rbrakk>
    \<Longrightarrow> worker_disable_step w (w\<lparr>wk_ctl := C_clear_state\<rparr>)"
| clear_state: "wk_ctl w = C_clear_state
    \<Longrightarrow> worker_disable_step w (w\<lparr>wk_ctl := C_disabled, wk_scheduled := False, wk_running := False\<rparr>)"

text \<open>\<open>mt76_worker_enable\<close>: \<open>kthread_unpark\<close>, then \<open>mt76_worker_schedule\<close> (by thread \<open>i\<close>).\<close>

inductive worker_enable_step :: "nat \<Rightarrow> worker \<Rightarrow> worker \<Rightarrow> bool" for i where
  kthread_unpark: "\<lbrakk>wk_ctl w = C_disabled; wk_sched w i = S_idle\<rbrakk>
    \<Longrightarrow> worker_enable_step i w
          (set_sched (w\<lparr>wk_ctl := C_idle, wk_should_park := False\<rparr>) i S_task)"

text \<open>
  \<open>mt76_worker_teardown\<close>: \<open>kthread_stop\<close> sets the stop flag, unparks and wakes the thread and
  waits for it to return; then \<open>w->task\<close> is cleared.
\<close>

inductive worker_teardown_step :: "worker \<Rightarrow> worker \<Rightarrow> bool" where
  kthread_stop: "wk_ctl w = C_idle \<or> wk_ctl w = C_disabled
    \<Longrightarrow> worker_teardown_step w (w\<lparr>wk_ctl := C_stop_wake, wk_should_stop := True, wk_should_park := False,
            wk_signal := wk_stop_signals w\<rparr>)"
| stop_wake: "wk_ctl w = C_stop_wake
    \<Longrightarrow> worker_teardown_step w (w\<lparr>wk_ctl := C_stop_wait, wk_tstate := TASK_RUNNING\<rparr>)"
| stop_wait: "\<lbrakk>wk_ctl w = C_stop_wait; wk_pc w = W_return\<rbrakk>
    \<Longrightarrow> worker_teardown_step w (w\<lparr>wk_ctl := C_gone, wk_task := False\<rparr>)"

inductive worker_step :: "worker \<Rightarrow> worker \<Rightarrow> bool" where
  by_fn: "worker_fn_step w w' \<Longrightarrow> worker_step w w'"
| by_schedule: "worker_schedule_step i w w' \<Longrightarrow> worker_step w w'"
| by_disable: "worker_disable_step w w' \<Longrightarrow> worker_step w w'"
| by_enable: "worker_enable_step i w w' \<Longrightarrow> worker_step w w'"
| by_teardown: "worker_teardown_step w w' \<Longrightarrow> worker_step w w'"

inductive_cases worker_stepE: "worker_step w w'"
inductive_simps worker_schedule_step_iff: "worker_schedule_step i w w'"

section \<open>No wake-up is lost\<close>

definition asleep :: "worker \<Rightarrow> bool" where
  "asleep w \<longleftrightarrow> wk_pc w = W_schedule \<and> wk_tstate w = TASK_INTERRUPTIBLE \<and> \<not> wk_signal w"

text \<open>
  The running bit is set exactly while the function may run; a sleeping worker that is scheduled
  has a caller of \<open>mt76_worker_schedule\<close> on its way to wake it; a worker about to sleep that is
  to be parked has its controller on the way; a worker is disabled only while it is parked.
\<close>

definition wakeup_pending :: "worker \<Rightarrow> bool" where
  "wakeup_pending w \<longleftrightarrow> (\<exists>i. wk_sched w i = S_test_running \<or> wk_sched w i = S_wake_up)"

fun in_run :: "worker_pc \<Rightarrow> bool" where
  "in_run W_set_running = True"
| "in_run W_fn = True"
| "in_run W_clear_running_bit = True"
| "in_run pc = False"

fun going_to_sleep :: "worker_pc \<Rightarrow> bool" where
  "going_to_sleep W_test_scheduled = True"
| "going_to_sleep W_schedule = True"
| "going_to_sleep pc = False"

fun parking :: "ctl_pc \<Rightarrow> bool" where
  "parking C_park_wake = True"
| "parking C_park_wait = True"
| "parking C_clear_state = True"
| "parking C_disabled = True"
| "parking pc = False"

fun parked :: "ctl_pc \<Rightarrow> bool" where
  "parked C_clear_state = True"
| "parked C_disabled = True"
| "parked pc = False"

fun stopping :: "ctl_pc \<Rightarrow> bool" where
  "stopping C_stop_wake = True"
| "stopping C_stop_wait = True"
| "stopping C_gone = True"
| "stopping pc = False"

definition about_to_park :: "ctl_pc \<Rightarrow> bool" where
  "about_to_park pc \<longleftrightarrow> pc = C_park_wake"

definition in_parkme :: "worker_pc \<Rightarrow> bool" where
  "in_parkme pc \<longleftrightarrow> pc = W_parkme"

lemma pc_tests [simp]:
  "about_to_park C_park_wake" "in_parkme W_parkme" "\<not> in_parkme W_should_stop" "\<not> in_parkme W_set_interruptible"
  "\<not> in_parkme W_should_park" "\<not> in_parkme W_test_scheduled" "\<not> in_parkme W_schedule" "\<not> in_parkme W_fn"
  "\<not> in_parkme W_set_running_bit" "\<not> in_parkme W_set_running" "\<not> in_parkme W_clear_running_bit"
  "\<not> in_parkme W_return"
  by (simp_all add: about_to_park_def in_parkme_def)

lemma pc_tests_dest [dest]:
  "parked pc \<Longrightarrow> parking pc" "in_parkme wpc \<Longrightarrow> wpc = W_parkme"
  by (cases pc; simp) (simp add: in_parkme_def)

definition worker_inv :: "bool \<Rightarrow> worker \<Rightarrow> bool" where
  "worker_inv sig w \<longleftrightarrow>
     wk_stop_signals w = sig
   \<and> wk_running w = in_run (wk_pc w)
   \<and> (wk_pc w = W_schedule \<and> wk_tstate w = TASK_INTERRUPTIBLE \<and> wk_scheduled w \<longrightarrow> wakeup_pending w)
   \<and> (going_to_sleep (wk_pc w) \<and> wk_tstate w = TASK_INTERRUPTIBLE \<and> wk_should_park w
        \<longrightarrow> about_to_park (wk_ctl w))
   \<and> (parked (wk_ctl w) \<longrightarrow> in_parkme (wk_pc w))
   \<and> wk_should_park w = parking (wk_ctl w)
   \<and> wk_should_stop w = stopping (wk_ctl w)
   \<and> (wk_pc w = W_return \<longrightarrow> wk_should_stop w)
   \<and> wk_signal w = (wk_should_stop w \<and> wk_stop_signals w)"

lemma set_sched_sel [simp]:
  "wk_sched (set_sched w i pc) = (wk_sched w)(i := pc)"
  "wk_task (set_sched w i pc) = wk_task w" "wk_scheduled (set_sched w i pc) = wk_scheduled w"
  "wk_running (set_sched w i pc) = wk_running w" "wk_tstate (set_sched w i pc) = wk_tstate w"
  "wk_should_park (set_sched w i pc) = wk_should_park w"
  "wk_should_stop (set_sched w i pc) = wk_should_stop w" "wk_pc (set_sched w i pc) = wk_pc w"
  "wk_signal (set_sched w i pc) = wk_signal w" "wk_stop_signals (set_sched w i pc) = wk_stop_signals w"
  "wk_ctl (set_sched w i pc) = wk_ctl w" "wk_runs (set_sched w i pc) = wk_runs w"
  by (simp_all add: set_sched_def)

lemma worker_inv_init: "worker_init sig w \<Longrightarrow> worker_inv sig w"
  by (simp add: worker_init_def worker_inv_def)

lemma worker_inv_fn: "worker_fn_step w w' \<Longrightarrow> worker_inv sig w \<Longrightarrow> worker_inv sig w'"
  by (induction rule: worker_fn_step.induct) (auto simp: worker_inv_def wakeup_pending_def)

lemma wakeup_pending_set:
  "pc \<in> {S_test_running, S_wake_up} \<Longrightarrow> wakeup_pending (set_sched w i pc)"
  "wk_sched w i \<notin> {S_test_running, S_wake_up} \<Longrightarrow> wakeup_pending w \<Longrightarrow> wakeup_pending (set_sched w i pc)"
  "wakeup_pending (w\<lparr>wk_scheduled := b\<rparr>) = wakeup_pending w"
  by (auto simp: wakeup_pending_def)

lemma worker_inv_schedule: "worker_schedule_step i w w' \<Longrightarrow> worker_inv sig w \<Longrightarrow> worker_inv sig w'"
  by (induction rule: worker_schedule_step.induct)
    (auto simp: worker_inv_def wakeup_pending_set)

lemma worker_inv_control:
  "worker_disable_step w w' \<Longrightarrow> worker_inv sig w \<Longrightarrow> worker_inv sig w'"
  "worker_enable_step i w w' \<Longrightarrow> worker_inv sig w \<Longrightarrow> worker_inv sig w'"
  "worker_teardown_step w w' \<Longrightarrow> worker_inv sig w \<Longrightarrow> worker_inv sig w'"
proof -
  show "worker_disable_step w w' \<Longrightarrow> worker_inv sig w \<Longrightarrow> worker_inv sig w'"
    by (induction rule: worker_disable_step.induct) (auto simp: worker_inv_def wakeup_pending_def)
  show "worker_enable_step i w w' \<Longrightarrow> worker_inv sig w \<Longrightarrow> worker_inv sig w'"
    by (induction rule: worker_enable_step.induct) (auto simp: worker_inv_def wakeup_pending_def)
  show "worker_teardown_step w w' \<Longrightarrow> worker_inv sig w \<Longrightarrow> worker_inv sig w'"
    by (induction rule: worker_teardown_step.induct) (auto simp: worker_inv_def wakeup_pending_def)
qed

interpretation wk: state_machine "worker_init sig" worker_step "worker_inv sig" for sig
proof unfold_locales
  show "worker_inv sig w" if "worker_init sig w" for w using that by (rule worker_inv_init)
  show "worker_inv sig w'" if "worker_inv sig w" "worker_step w w'" for w w'
    using that(2,1)
    by (elim worker_stepE) (auto intro: worker_inv_fn worker_inv_schedule worker_inv_control)
qed

lemmas worker_fn_intros = worker_fn_step.intros
lemmas worker_sched_intros = worker_schedule_step.intros
lemmas worker_ctl_intros = worker_disable_step.intros worker_enable_step.intros worker_teardown_step.intros

text \<open>A run of the system from its initial state, given by the states after each step.\<close>

fun worker_run :: "worker \<Rightarrow> worker list \<Rightarrow> bool" where
  "worker_run w [] = True"
| "worker_run w (w' # ws) = (worker_step w w' \<and> worker_run w' ws)"

lemma worker_run_reachable:
  "reachable init worker_step w \<Longrightarrow> worker_run w ws \<Longrightarrow> reachable init worker_step (last (w # ws))"
proof (induction ws arbitrary: w)
  case (Cons a ws)
  then have "reachable init worker_step (last (a # ws))"
    by (metis reach_step worker_run.simps(2))
  then show ?case by simp
qed simp

definition worker_start :: "bool \<Rightarrow> worker" where
  "worker_start sig = \<lparr>wk_task = True, wk_scheduled = False, wk_running = False,
     wk_tstate = TASK_RUNNING, wk_stop_signals = sig, wk_signal = False, wk_should_park = False,
     wk_should_stop = False, wk_pc = W_should_stop, wk_sched = (\<lambda>i. S_idle), wk_ctl = C_idle, wk_runs = 0\<rparr>"

lemma worker_start_reachable: "reachable (worker_init sig) worker_step (worker_start sig)"
  by (rule reach_init) (simp add: worker_init_def worker_start_def)

text \<open>
  C5: No wake-up is lost. However the worker, any number of callers of
  \<open>mt76_worker_schedule\<close> and the thread that disables, enables or tears it down interleave:
  when the worker sleeps although it is scheduled, some caller is about to wake it (it sits
  before the test of the running bit, which is clear, or before \<open>wake_up_process\<close>); when it
  sleeps although it is to be parked, \<open>kthread_park\<close> is about to wake it; and where
  \<open>kthread_stop\<close> interrupts sleeps, it never sleeps once it is to stop.
\<close>

theorem worker_no_lost_wakeup:
  assumes "reachable (worker_init sig) worker_step w" "asleep w"
  shows "(wk_scheduled w \<longrightarrow>
            (\<exists>i. wk_sched w i = S_test_running \<and> \<not> wk_running w \<or> wk_sched w i = S_wake_up))
       \<and> (wk_should_park w \<longrightarrow> wk_ctl w = C_park_wake)
       \<and> (sig \<longrightarrow> \<not> wk_should_stop w)"
  using wk.reachable_inv [OF assms(1)] assms(2)
  by (auto simp: worker_inv_def asleep_def wakeup_pending_def about_to_park_def)

definition demo_asleep :: worker where
  "demo_asleep = (worker_start True)\<lparr>wk_pc := W_schedule, wk_tstate := TASK_INTERRUPTIBLE,
     wk_scheduled := True, wk_sched := (\<lambda>i. S_idle)(0 := S_test_running)\<rparr>"

lemma demo_asleep_reachable: "reachable (worker_init True) worker_step demo_asleep"
proof -
  let ?w = "worker_start True"
  let ?a = "\<lambda>pc. ?w\<lparr>wk_pc := pc, wk_tstate := TASK_INTERRUPTIBLE\<rparr>"
  let ?b = "\<lambda>pc. (?a W_schedule)\<lparr>wk_sched := (\<lambda>i. S_idle)(0 := pc)\<rparr>"
  have "worker_run ?w [?w\<lparr>wk_pc := W_set_interruptible\<rparr>, ?a W_should_park, ?a W_test_scheduled,
      ?a W_schedule, ?b S_task, ?b S_test_and_set, demo_asleep]"
    unfolding worker_run.simps
    by (intro conjI TrueI; ((rule by_fn, force simp: worker_fn_step.simps worker_start_def)
      | (rule by_schedule [where i = 0],
         force simp: worker_schedule_step_iff worker_start_def set_sched_def demo_asleep_def)))
  from worker_run_reachable [OF worker_start_reachable this] show ?thesis by simp
qed

theorem worker_no_lost_wakeup_witness:
  "asleep demo_asleep \<and> wk_scheduled demo_asleep
   \<and> (\<exists>i. wk_sched demo_asleep i = S_test_running \<and> \<not> wk_running demo_asleep
        \<or> wk_sched demo_asleep i = S_wake_up)"
proof -
  have "asleep demo_asleep" "wk_scheduled demo_asleep"
    by (simp_all add: asleep_def demo_asleep_def worker_start_def)
  with worker_no_lost_wakeup [OF demo_asleep_reachable] show ?thesis by blast
qed

text \<open>
  The stop flag is tested before the thread becomes interruptible, so on a kernel whose
  \<open>kthread_stop\<close> only sets the flag and wakes the thread, a stop request can be lost: a state is
  reachable in which the worker sleeps, \<open>kthread_stop\<close> waits for it to return, no caller of
  \<open>mt76_worker_schedule\<close> is active, and neither the worker nor the teardown can take a step.
\<close>

theorem worker_stop_can_be_lost:
  "\<exists>w. reachable (worker_init False) worker_step w \<and> asleep w \<and> wk_should_stop w
     \<and> wk_ctl w = C_stop_wait \<and> (\<forall>i. wk_sched w i = S_idle)
     \<and> \<not> (\<exists>w'. worker_fn_step w w' \<or> worker_teardown_step w w' \<or> worker_disable_step w w')"
proof -
  let ?w = "worker_start False"
  let ?r = "\<lambda>pc. ?w\<lparr>wk_pc := pc\<rparr>"
  let ?s = "\<lambda>pc. (?r W_set_interruptible)\<lparr>wk_ctl := pc, wk_should_stop := True\<rparr>"
  let ?a = "\<lambda>pc. (?s C_stop_wait)\<lparr>wk_pc := pc, wk_tstate := TASK_INTERRUPTIBLE\<rparr>"
  have "worker_run ?w [?r W_set_interruptible, ?s C_stop_wake, ?s C_stop_wait, ?a W_should_park,
      ?a W_test_scheduled, ?a W_schedule]"
    unfolding worker_run.simps
    by (intro conjI TrueI; ((rule by_fn, force simp: worker_fn_step.simps worker_start_def)
      | (rule by_teardown, force simp: worker_teardown_step.simps worker_start_def)))
  from worker_run_reachable [OF worker_start_reachable this]
  have "reachable (worker_init False) worker_step (?a W_schedule)" by simp
  moreover have "\<not> (\<exists>w'. worker_fn_step (?a W_schedule) w' \<or> worker_teardown_step (?a W_schedule) w'
      \<or> worker_disable_step (?a W_schedule) w')"
    by (simp add: worker_fn_step.simps worker_teardown_step.simps worker_disable_step.simps worker_start_def)
  ultimately show ?thesis
    by (intro exI [of _ "?a W_schedule"]) (simp add: asleep_def worker_start_def)
qed

section \<open>A scheduled worker can run\<close>

text \<open>
  The steps that need no new request: those of the thread, and those of callers that are past
  setting the scheduled bit.
\<close>

definition pending_step :: "worker \<Rightarrow> worker \<Rightarrow> bool" where
  "pending_step w w' \<longleftrightarrow> worker_fn_step w w'
     \<or> (\<exists>i. wk_sched w i \<in> {S_test_running, S_wake_up} \<and> worker_schedule_step i w w')"

definition claims_request :: "worker \<Rightarrow> bool" where
  "claims_request w \<longleftrightarrow> (\<exists>w'. pending_step\<^sup>*\<^sup>* w w' \<and> wk_pc w' = W_set_running_bit \<and> \<not> wk_scheduled w')"

definition active_request :: "worker \<Rightarrow> bool" where
  "active_request w \<longleftrightarrow> wk_scheduled w \<and> \<not> wk_should_stop w \<and> \<not> wk_should_park w"

lemma claims_step: "pending_step w w' \<Longrightarrow> claims_request w' \<Longrightarrow> claims_request w"
  unfolding claims_request_def by (meson converse_rtranclp_into_rtranclp)

lemma claims_fn: "worker_fn_step w w' \<Longrightarrow> claims_request w' \<Longrightarrow> claims_request w"
  by (rule claims_step) (simp_all add: pending_step_def)

lemma claims_now: "wk_pc w = W_set_running_bit \<Longrightarrow> \<not> wk_scheduled w \<Longrightarrow> claims_request w"
  unfolding claims_request_def by blast

lemma active_request_update [simp]:
  "active_request (w\<lparr>wk_pc := pc\<rparr>) = active_request w"
  "active_request (w\<lparr>wk_tstate := t\<rparr>) = active_request w"
  "active_request (w\<lparr>wk_running := r\<rparr>) = active_request w"
  "active_request (w\<lparr>wk_runs := n\<rparr>) = active_request w"
  "active_request (set_sched w i s) = active_request w"
  by (simp_all add: active_request_def)

lemma claims_from_loop:
  assumes "active_request w"
  shows "wk_pc w = W_test_scheduled \<Longrightarrow> claims_request w"
    and "wk_pc w = W_should_park \<Longrightarrow> claims_request w"
    and "wk_pc w = W_set_interruptible \<Longrightarrow> claims_request w"
    and "wk_pc w = W_should_stop \<Longrightarrow> claims_request w"
    and "wk_pc w = W_parkme \<Longrightarrow> claims_request w"
proof -
  have test: "claims_request w" if "active_request w" "wk_pc w = W_test_scheduled" for w
    using that by (rule_tac claims_fn [OF clear_scheduled]; simp add: claims_now active_request_def)
  have park: "claims_request w" if "active_request w" "wk_pc w = W_should_park" for w
    using that by (rule_tac claims_fn [OF no_park]; simp add: test active_request_def)
  have int: "claims_request w" if "active_request w" "wk_pc w = W_set_interruptible" for w
    using that by (rule_tac claims_fn [OF set_interruptible]; simp add: park)
  have top: "claims_request w" if "active_request w" "wk_pc w = W_should_stop" for w
    using that by (rule_tac claims_fn [OF loop]; simp add: int active_request_def)
  show "wk_pc w = W_parkme \<Longrightarrow> claims_request w"
    using assms by (rule_tac claims_fn [OF parkme]; simp add: top active_request_def)
  show "wk_pc w = W_test_scheduled \<Longrightarrow> claims_request w" "wk_pc w = W_should_park \<Longrightarrow> claims_request w"
    "wk_pc w = W_set_interruptible \<Longrightarrow> claims_request w" "wk_pc w = W_should_stop \<Longrightarrow> claims_request w"
    using assms by (simp_all add: test park int top)
qed

lemma claims_from_fn:
  assumes "active_request w" "in_run (wk_pc w) \<or> wk_pc w = W_set_running_bit"
  shows "claims_request w"
proof -
  have c: "claims_request w" if "active_request w" "wk_pc w = W_clear_running_bit" for w
    using that by (rule_tac claims_fn [OF clear_running_bit]; simp add: claims_from_loop(4))
  have f: "claims_request w" if "active_request w" "wk_pc w = W_fn" for w
    using that by (rule_tac claims_fn [OF run_fn]; simp add: c)
  have r: "claims_request w" if "active_request w" "wk_pc w = W_set_running" for w
    using that by (rule_tac claims_fn [OF set_running]; simp add: f)
  have "claims_request w" if "wk_pc w = W_set_running_bit"
    using that assms(1) by (rule_tac claims_fn [OF set_running_bit]; simp add: r)
  with assms c f r show ?thesis by (cases "wk_pc w") auto
qed

lemma claims_from_schedule:
  assumes "active_request w" "wk_pc w = W_schedule" "worker_inv sig w"
  shows "claims_request w"
proof -
  have run: "claims_request w" if "active_request w" "wk_pc w = W_schedule" "wk_tstate w = TASK_RUNNING" for w
    using that by (rule_tac claims_fn [OF schedule]; simp add: claims_from_loop(4))
  have wake: "claims_request w"
    if "active_request w" "wk_pc w = W_schedule" "wk_sched w i = S_wake_up" for w i
    using that worker_schedule_step.wake_up [of w i]
    by (rule_tac claims_step [of w "set_sched (w\<lparr>wk_tstate := TASK_RUNNING\<rparr>) i S_idle"])
      (auto simp: pending_step_def run)
  have test: "claims_request w"
    if "wk_sched w i = S_test_running" for i
    using that assms worker_schedule_step.test_running [of w i]
    by (rule_tac claims_step [of w "set_sched w i S_wake_up"])
      (auto simp: pending_step_def worker_inv_def wake [of _ i])
  show ?thesis
  proof (cases "wk_tstate w")
    case TASK_INTERRUPTIBLE
    then have "wakeup_pending w" using assms by (simp add: worker_inv_def active_request_def)
    with test wake assms show ?thesis by (auto simp: wakeup_pending_def)
  qed (use assms run in blast)
qed

text \<open>
  A request is always served: from every reachable state in which the worker is scheduled
  and neither being parked nor stopped, steps of the thread and of callers already past setting
  the bit lead to the point where the thread has claimed the request and is about to run its
  function, with no new request needed.
\<close>

theorem worker_scheduled_can_run:
  assumes "reachable (worker_init sig) worker_step w"
    and "wk_scheduled w" "\<not> wk_should_stop w" "\<not> wk_should_park w"
  shows "\<exists>w'. pending_step\<^sup>*\<^sup>* w w' \<and> wk_pc w' = W_set_running_bit \<and> \<not> wk_scheduled w'"
proof -
  have inv: "worker_inv sig w" and act: "active_request w"
    using assms wk.reachable_inv by (auto simp: active_request_def)
  have "claims_request w"
    using claims_from_loop [OF act] claims_from_fn [OF act] claims_from_schedule [OF act _ inv] assms inv
    by (cases "wk_pc w") (auto simp: worker_inv_def)
  then show ?thesis unfolding claims_request_def .
qed

theorem worker_scheduled_can_run_witness:
  "\<exists>w'. pending_step\<^sup>*\<^sup>* demo_asleep w' \<and> wk_pc w' = W_set_running_bit \<and> \<not> wk_scheduled w'"
  by (rule worker_scheduled_can_run [OF demo_asleep_reachable]) (simp_all add: demo_asleep_def worker_start_def)

end
