(* ===== verification/DmaRing.thy ===== *)
theory DmaRing
  imports Mt76Prelude
begin

text \<open>
  Descriptor rings, src/src/mt76/dma.c and dma.h: the ring of hardware descriptors with the
  driver's entry for each, and the transmit side (filling descriptors, mapping the buffers of a
  frame, cleaning up what the hardware has sent, reset). Theory DmaRx holds the receive side.
  A \<open>dma_queue\<close> is \<open>struct mt76_queue\<close> with the registers of its ring; the flag tests are those
  of mt76.h. DMA addresses have 64 bits (\<open>CONFIG_ARCH_DMA_ADDR_T_64BIT\<close>), and the network
  offload unit (\<open>CONFIG_MT76_NPU\<close>, whose code is not in the repository) is off. The ring
  refines a queue: entries leave in the order they were added, each exactly once.
\<close>

section \<open>State\<close>

record queue_buf =
  qb_addr :: u64
  qb_len :: u16
  qb_skip_unmap :: bool

text \<open>The pointer \<open>entry->txwi\<close>: null, \<open>DMA_DUMMY_DATA\<close>, or a cache entry.\<close>

datatype txwi_ptr = Txwi_null | Txwi_dummy | Txwi nat

text \<open>
  What \<open>entry->buf\<close> or \<open>entry->skb\<close> points to: a buffer or frame by its number, or the ring's
  own descriptor at an index.
\<close>

datatype buf_ptr = Buf nat | Desc nat

record queue_entry =
  e_buf :: "buf_ptr option"
  e_txwi :: txwi_ptr
  e_dma_addr0 :: u64
  e_dma_addr1 :: u64
  e_dma_len0 :: u16
  e_dma_len1 :: u16
  e_wcid :: u16
  e_skip_buf0 :: bool
  e_skip_buf1 :: bool
  e_done :: bool

definition zero_entry :: queue_entry where
  "zero_entry = \<lparr>e_buf = None, e_txwi = Txwi_null, e_dma_addr0 = 0, e_dma_addr1 = 0, e_dma_len0 = 0,
     e_dma_len1 = 0, e_wcid = 0, e_skip_buf0 = False, e_skip_buf1 = False, e_done = False\<rparr>"

record dma_desc =
  d_buf0 :: u32
  d_ctrl :: u32
  d_buf1 :: u32
  d_info :: u32

text \<open>
  \<open>rro_data1\<close> is the second word of each \<open>struct mt76_wed_rro_ind\<close> of an indication ring; a
  \<open>struct mt76_rro_rxdmad_c\<close> is read through the four words of a descriptor.
\<close>

record dma_queue =
  q_entry :: "queue_entry list"
  q_desc :: "dma_desc list"
  q_rro_data1 :: "u32 list"
  q_head :: nat
  q_tail :: nat
  q_ndesc :: nat
  q_queued :: nat
  q_buf_size :: nat
  q_buf_offset :: nat
  q_stopped :: bool
  q_blocked :: bool
  q_flags :: u16
  q_magic_cnt :: u8
  q_emi_cpu_idx :: u16
  q_desc_dma :: u32
  q_reg_desc_base :: u32
  q_reg_ring_size :: u32
  q_reg_cpu_idx :: u32
  q_reg_dma_idx :: u32

section \<open>Kinds of queues\<close>

definition qflag :: "nat \<Rightarrow> dma_queue \<Rightarrow> bool" where
  "qflag n q \<longleftrightarrow> q_flags q AND BIT n \<noteq> 0"

definition qtype :: "dma_queue \<Rightarrow> u16" where
  "qtype q = FIELD_GET 4 2 (q_flags q)"

definition mt76_queue_is_wed_tx_free :: "dma_queue \<Rightarrow> bool" where
  "mt76_queue_is_wed_tx_free q \<longleftrightarrow> qflag 5 q \<and> qtype q = 1"

definition mt76_queue_is_wed_rro :: "dma_queue \<Rightarrow> bool" where
  "mt76_queue_is_wed_rro q \<longleftrightarrow> qflag 6 q"

definition mt76_queue_is_wed_rro_ind :: "dma_queue \<Rightarrow> bool" where
  "mt76_queue_is_wed_rro_ind q \<longleftrightarrow> mt76_queue_is_wed_rro q \<and> qtype q = 5"

definition mt76_queue_is_wed_rro_rxdmad_c :: "dma_queue \<Rightarrow> bool" where
  "mt76_queue_is_wed_rro_rxdmad_c q \<longleftrightarrow> mt76_queue_is_wed_rro q \<and> qtype q = 6"

definition mt76_queue_is_wed_rro_data :: "dma_queue \<Rightarrow> bool" where
  "mt76_queue_is_wed_rro_data q \<longleftrightarrow> mt76_queue_is_wed_rro q \<and> qtype q = 3"

definition mt76_queue_is_wed_rro_msdu_pg :: "dma_queue \<Rightarrow> bool" where
  "mt76_queue_is_wed_rro_msdu_pg q \<longleftrightarrow> mt76_queue_is_wed_rro q \<and> qtype q = 4"

definition mt76_queue_is_wed_rx :: "dma_queue \<Rightarrow> bool" where
  "mt76_queue_is_wed_rx q \<longleftrightarrow> qflag 5 q \<and> qtype q = 2"

definition mt76_queue_is_emi :: "dma_queue \<Rightarrow> bool" where
  "mt76_queue_is_emi q \<longleftrightarrow> qflag 8 q"

definition mt76_queue_is_npu :: "dma_queue \<Rightarrow> bool" where
  "mt76_queue_is_npu q \<longleftrightarrow> qflag 9 q"

definition mt76_queue_is_npu_tx :: "dma_queue \<Rightarrow> bool" where
  "mt76_queue_is_npu_tx q \<longleftrightarrow> mt76_queue_is_npu q \<and> qtype q = 0"

section \<open>Reset and index registers\<close>

definition mt76_dma_queue_magic_cnt_init :: "dma_queue \<Rightarrow> dma_queue" where
  "mt76_dma_queue_magic_cnt_init q =
     (if \<not> mt76_queue_is_wed_rro q then q
      else let q = q\<lparr>q_magic_cnt := 0\<rparr>
           in if mt76_queue_is_wed_rro_ind q
              then q\<lparr>q_rro_data1 := map (\<lambda>_. FIELD_PREP 31 29 (8 - 1)) (q_rro_data1 q)\<rparr>
              else if mt76_queue_is_wed_rro_rxdmad_c q
              then q\<lparr>q_desc := map (\<lambda>d. d\<lparr>d_info := FIELD_PREP 31 28 (16 - 1)\<rparr>) (q_desc q)\<rparr>
              else q)"

text \<open>
  \<open>hw\<close> is what the hardware makes of a write of the ring registers: the value its index register
  then reads. The register file is plain memory without offload.
\<close>

definition mt76_dma_sync_idx :: "dma_queue \<Rightarrow> dma_queue" where
  "mt76_dma_sync_idx q =
     (let q = q\<lparr>q_reg_desc_base := q_desc_dma q,
               q_reg_ring_size := (if qflag 7 q then BIT 13 OR of_nat (q_ndesc q) else of_nat (q_ndesc q))\<rparr>;
          q = (if mt76_queue_is_npu_tx q
               then q\<lparr>q_reg_desc_base := q_desc_dma q, q_reg_ring_size := of_nat (q_ndesc q)\<rparr> else q);
          q = q\<lparr>q_head := unat (ucast (q_reg_dma_idx q) :: u16)\<rparr>
      in q\<lparr>q_tail := q_head q\<rparr>)"

definition clear_descs :: "dma_queue \<Rightarrow> dma_queue" where
  "clear_descs q = q\<lparr>q_desc := map (\<lambda>d. d\<lparr>d_ctrl := BIT 31\<rparr>) (q_desc q)\<rparr>"

definition mt76_dma_queue_reset :: "dma_queue \<Rightarrow> bool \<Rightarrow> dma_queue" where
  "mt76_dma_queue_reset q reset_idx =
     (if q_ndesc q = 0 then q
      else let q = (if \<not> mt76_queue_is_wed_rro_ind q \<and> \<not> mt76_queue_is_wed_rro_rxdmad_c q
                      \<and> \<not> mt76_queue_is_npu q then clear_descs q else q);
               q = mt76_dma_queue_magic_cnt_init q;
               q = (if reset_idx
                    then (if mt76_queue_is_emi q then q\<lparr>q_emi_cpu_idx := 0\<rparr> else q\<lparr>q_reg_cpu_idx := 0\<rparr>)
                           \<lparr>q_reg_dma_idx := 0\<rparr>
                    else q)
           in mt76_dma_sync_idx q)"

definition mt76_dma_kick_queue :: "dma_queue \<Rightarrow> dma_queue" where
  "mt76_dma_kick_queue q =
     (if mt76_queue_is_emi q then q\<lparr>q_emi_cpu_idx := of_nat (q_head q)\<rparr>
      else q\<lparr>q_reg_cpu_idx := of_nat (q_head q)\<rparr>)"

section \<open>Filling transmit descriptors\<close>

text \<open>
  One round of the loop of \<open>mt76_dma_add_buf\<close>: the first two of the remaining buffers go into
  the entry \<open>e\<close> and the descriptor at the head. \<open>info\<close> is the variable the loop accumulates.
\<close>

definition fill_desc :: "queue_entry \<Rightarrow> queue_buf list \<Rightarrow> u32 \<Rightarrow> queue_entry \<times> dma_desc \<times> u32" where
  "fill_desc e bufs info =
     (let b0 = hd bufs;
          e = (if qb_skip_unmap b0 then e\<lparr>e_skip_buf0 := True\<rparr> else e);
          e = e\<lparr>e_skip_buf1 := (length bufs = 1), e_dma_addr0 := qb_addr b0, e_dma_len0 := qb_len b0\<rparr>;
          ctrl = FIELD_PREP 29 16 (ucast (qb_len b0)) :: u32;
          info = info OR FIELD_PREP 3 0 (ucast (drop_bit 32 (qb_addr b0)));
          (e, buf1, ctrl, info) =
            (case tl bufs of
               [] \<Rightarrow> (e, 0, ctrl, info)
             | b1 # _ \<Rightarrow>
                 (if qb_skip_unmap b1
                  then e\<lparr>e_dma_addr1 := qb_addr b1, e_dma_len1 := qb_len b1, e_skip_buf1 := True\<rparr>
                  else e\<lparr>e_dma_addr1 := qb_addr b1, e_dma_len1 := qb_len b1\<rparr>,
                  ucast (qb_addr b1),
                  ctrl OR FIELD_PREP 13 0 (ucast (qb_len b1)),
                  info OR FIELD_PREP 19 16 (ucast (drop_bit 32 (qb_addr b1)))));
          ctrl = (if length bufs = 1 then ctrl OR BIT 30
                  else if length bufs = 2 then ctrl OR BIT 14 else ctrl)
      in (e, \<lparr>d_buf0 = ucast (qb_addr b0), d_ctrl = ctrl, d_buf1 = buf1, d_info = info\<rparr>, info))"

definition push_head :: "dma_queue \<Rightarrow> queue_entry \<Rightarrow> dma_desc \<Rightarrow> dma_queue" where
  "push_head q e d =
     q\<lparr>q_entry := (q_entry q)[q_head q := e], q_desc := (q_desc q)[q_head q := d],
       q_head := (q_head q + 1) mod q_ndesc q, q_queued := q_queued q + 1\<rparr>"

definition add_buf_round :: "dma_queue \<Rightarrow> queue_buf list \<Rightarrow> u32 \<Rightarrow> dma_queue \<times> u32" where
  "add_buf_round q bufs info =
     (let (e, d, info) = fill_desc (q_entry q ! q_head q) bufs info in (push_head q e d, info))"

text \<open>The loop; the last component is the index of the last descriptor, \<open>None\<close> for \<open>-1\<close>.\<close>

fun add_buf_loop :: "dma_queue \<Rightarrow> queue_buf list \<Rightarrow> u32 \<Rightarrow> nat option \<Rightarrow> dma_queue \<times> nat option" where
  "add_buf_loop q [] info idx = (q, idx)"
| "add_buf_loop q [b0] info idx = (fst (add_buf_round q [b0] info), Some (q_head q))"
| "add_buf_loop q (b0 # b1 # bs) info idx =
     (let (q', info') = add_buf_round q (b0 # b1 # bs) info
      in add_buf_loop q' bs info' (Some (q_head q)))"

definition upd_entry :: "dma_queue \<Rightarrow> nat \<Rightarrow> (queue_entry \<Rightarrow> queue_entry) \<Rightarrow> dma_queue" where
  "upd_entry q i g = q\<lparr>q_entry := (q_entry q)[i := g (q_entry q ! i)]\<rparr>"

text \<open>
  \<open>mt76_dma_add_buf\<close>, called with at least one buffer. With none, the C code writes
  \<open>entry[-1]\<close>; the model returns the queue of the loop.
\<close>

definition mt76_dma_add_buf ::
  "dma_queue \<Rightarrow> queue_buf list \<Rightarrow> u32 \<Rightarrow> nat option \<Rightarrow> nat option \<Rightarrow> nat option \<times> dma_queue" where
  "mt76_dma_add_buf q bufs info skb txwi =
     (let q = (case txwi of None \<Rightarrow> q
               | Some _ \<Rightarrow> upd_entry q (q_head q) (\<lambda>e. e\<lparr>e_txwi := Txwi_dummy, e_skip_buf0 := True\<rparr>));
          (q, idx) = add_buf_loop q bufs info None
      in case idx of
           None \<Rightarrow> (None, q)
         | Some i \<Rightarrow>
             (Some i, upd_entry q i (\<lambda>e. e\<lparr>e_txwi := (case txwi of None \<Rightarrow> Txwi_null | Some t \<Rightarrow> Txwi t),
                                           e_buf := map_option Buf skb, e_wcid := 0xffff\<rparr>)))"

section \<open>Cleaning up what was sent\<close>

text \<open>
  What the transmit side does outside the ring, in order: mappings, the driver's completion and
  status reports, and the wake-up of \<open>dev->tx_wait\<close>.
\<close>

datatype dma_action =
    Dma_map u64 nat
  | Dma_unmap u64 u16
  | Tx_complete_skb queue_entry
  | Tx_status_ext "nat option"
  | Free_skb nat
  | Wake_tx_wait

text \<open>The cached transmit descriptors (\<open>dev->txwi_cache\<close>, by number) and the log of actions.\<close>

record dma_dev =
  dv_txwi :: "nat list"
  dv_log :: "dma_action list"

definition dv_act :: "dma_dev \<Rightarrow> dma_action list \<Rightarrow> dma_dev" where
  "dv_act dev as = dev\<lparr>dv_log := dv_log dev @ as\<rparr>"

definition mt76_get_txwi :: "nat option \<Rightarrow> dma_dev \<Rightarrow> nat option \<times> dma_dev" where
  "mt76_get_txwi fresh dev =
     (case dv_txwi dev of t # ts \<Rightarrow> (Some t, dev\<lparr>dv_txwi := ts\<rparr>) | [] \<Rightarrow> (fresh, dev))"

definition mt76_put_txwi :: "dma_dev \<Rightarrow> nat \<Rightarrow> dma_dev" where
  "mt76_put_txwi dev t = dev\<lparr>dv_txwi := t # dv_txwi dev\<rparr>"

definition mt76_dma_tx_cleanup_idx :: "dma_queue \<Rightarrow> nat \<Rightarrow> queue_entry \<times> dma_action list \<times> dma_queue" where
  "mt76_dma_tx_cleanup_idx q idx =
     (let e = q_entry q ! idx;
          as = (if e_skip_buf0 e then [] else [Dma_unmap (e_dma_addr0 e) (e_dma_len0 e)])
             @ (if e_skip_buf1 e then [] else [Dma_unmap (e_dma_addr1 e) (e_dma_len1 e)]);
          e = (if e_txwi e = Txwi_dummy then e\<lparr>e_txwi := Txwi_null\<rparr> else e)
      in (e, as, q\<lparr>q_entry := (q_entry q)[idx := zero_entry]\<rparr>))"

definition mt76_queue_tx_complete :: "dma_dev \<Rightarrow> dma_queue \<Rightarrow> queue_entry \<Rightarrow> dma_dev \<times> dma_queue" where
  "mt76_queue_tx_complete dev q e =
     (if e_buf e = None then dev else dv_act dev [Tx_complete_skb e],
      q\<lparr>q_tail := (q_tail q + 1) mod q_ndesc q, q_queued := q_queued q - 1\<rparr>)"

text \<open>One round of the loop of \<open>mt76_dma_tx_cleanup\<close>; \<open>no_free\<close> is \<open>MT_DRV_TXWI_NO_FREE\<close>.\<close>

definition tx_cleanup_round :: "bool \<Rightarrow> dma_dev \<Rightarrow> dma_queue \<Rightarrow> dma_dev \<times> dma_queue" where
  "tx_cleanup_round no_free dev q =
     (let (e, as, q) = mt76_dma_tx_cleanup_idx q (q_tail q);
          (dev, q) = mt76_queue_tx_complete (dv_act dev as) q e;
          dev = (case e_txwi e of Txwi t \<Rightarrow> if no_free then dev else mt76_put_txwi dev t | _ \<Rightarrow> dev)
      in (dev, q))"

lemma tx_cleanup_round_sel [simp]:
  "q_queued (snd (tx_cleanup_round nf dev q)) = q_queued q - 1"
  "q_tail (snd (tx_cleanup_round nf dev q)) = (q_tail q + 1) mod q_ndesc q"
  "q_head (snd (tx_cleanup_round nf dev q)) = q_head q"
  "q_ndesc (snd (tx_cleanup_round nf dev q)) = q_ndesc q"
  "q_desc (snd (tx_cleanup_round nf dev q)) = q_desc q"
  "q_entry (snd (tx_cleanup_round nf dev q)) = (q_entry q)[q_tail q := zero_entry]"
  by (simp_all add: tx_cleanup_round_def mt76_dma_tx_cleanup_idx_def mt76_queue_tx_complete_def
      mt76_put_txwi_def dv_act_def Let_def split: txwi_ptr.split)

text \<open>
  The loop. \<open>stop\<close> is \<open>None\<close> for \<open>-1\<close>; \<open>rd k\<close> is the value of the \<open>k\<close>-th read of the hardware's
  index.
\<close>

function tx_cleanup_loop ::
  "bool \<Rightarrow> bool \<Rightarrow> (nat \<Rightarrow> nat) \<Rightarrow> nat \<Rightarrow> nat option \<Rightarrow> dma_dev \<Rightarrow> dma_queue \<Rightarrow> dma_dev \<times> dma_queue" where
  "tx_cleanup_loop no_free flush rd k stop dev q =
     (if 0 < q_queued q \<and> stop \<noteq> Some (q_tail q)
      then let (dev', q') = tx_cleanup_round no_free dev q
           in if \<not> flush \<and> stop = Some (q_tail q')
              then tx_cleanup_loop no_free flush rd (k + 1) (Some (rd k)) dev' q'
              else tx_cleanup_loop no_free flush rd k stop dev' q'
      else (dev, q))"
  by pat_completeness auto
termination
proof (relation "measure (\<lambda>(nf, fl, rd, k, stop, dev, q). q_queued q)", goal_cases)
  case 1
  show ?case by simp
next
  case (2 nf fl rd k stop dev q r dev' q')
  then have "q_queued q' = q_queued q - 1" by (metis snd_conv tx_cleanup_round_sel(1))
  with 2(1) show ?case by simp
next
  case (3 nf fl rd k stop dev q r dev' q')
  then have "q_queued q' = q_queued q - 1" by (metis snd_conv tx_cleanup_round_sel(1))
  with 3(1) show ?case by simp
qed

declare tx_cleanup_loop.simps [simp del]

definition mt76_dma_tx_cleanup ::
  "bool \<Rightarrow> (nat \<Rightarrow> nat) \<Rightarrow> dma_dev \<Rightarrow> dma_queue \<Rightarrow> bool \<Rightarrow> dma_dev \<times> dma_queue" where
  "mt76_dma_tx_cleanup no_free rd dev q flush =
     (if q_ndesc q = 0 then (dev, q)
      else let (dev, q) = (if flush then tx_cleanup_loop no_free True rd 0 None dev q
                           else tx_cleanup_loop no_free False rd 1 (Some (rd 0)) dev q);
               q = (if flush then mt76_dma_kick_queue (mt76_dma_sync_idx q) else q);
               dev = (if q_queued q = 0 then dv_act dev [Wake_tx_wait] else dev)
           in (dev, q))"

section \<open>Queueing a frame\<close>

definition mt76_dma_tx_queue_skb_raw ::
  "bool \<Rightarrow> u64 option \<Rightarrow> dma_dev \<Rightarrow> dma_queue \<Rightarrow> nat \<Rightarrow> nat \<Rightarrow> u32 \<Rightarrow> errno option \<times> dma_dev \<times> dma_queue" where
  "mt76_dma_tx_queue_skb_raw mcu_reset mapped dev q skb len tx_info =
     (if mcu_reset \<or> q_queued q + 2 \<ge> q_ndesc q then (Some ENOMEM, dv_act dev [Free_skb skb], q)
      else case mapped of
             None \<Rightarrow> (Some ENOMEM, dv_act dev [Free_skb skb], q)
           | Some addr \<Rightarrow>
               let buf = \<lparr>qb_addr = addr, qb_len = of_nat len AND 0x7FFF, qb_skip_unmap = False\<rparr>;
                   (idx, q) = mt76_dma_add_buf q [buf] tx_info (Some skb) None
               in (None, dv_act dev [Dma_map addr len], mt76_dma_kick_queue q))"

text \<open>
  \<open>struct mt76_tx_info\<close>. The driver's \<open>tx_prepare_skb\<close> is the parameter \<open>prepare\<close>: it returns an
  error number or nothing, and may change the buffers, their number, the info word and the frame
  (on success, the driver of this chip clears the frame: its token owns it then).
\<close>

record tx_info =
  ti_buf :: "queue_buf list"
  ti_nbuf :: nat
  ti_info :: u32
  ti_skb :: "nat option"

text \<open>What \<open>mt76_dma_tx_queue_skb\<close> reads of the frame, the device and the allocators.\<close>

record tx_req =
  tr_reset :: bool
  tr_skb :: nat
  tr_headlen :: nat
  tr_hdrlen :: nat
  tr_frags :: "nat list"
  tr_aligned4 :: bool
  tr_fresh :: "nat option"
  tr_txwi_addr :: "nat \<Rightarrow> u64"
  tr_txwi_size :: nat
  tr_map :: "nat \<Rightarrow> u64 option"

definition mk_buf :: "u64 \<Rightarrow> nat \<Rightarrow> queue_buf" where
  "mk_buf addr len = \<lparr>qb_addr = addr, qb_len = of_nat len AND 0x7FFF, qb_skip_unmap = False\<rparr>"

text \<open>\<open>skb_walk_frags\<close>: \<open>Inl\<close> is the jump to \<open>unmap\<close> with the buffers filled so far.\<close>

fun map_frags :: "(nat \<Rightarrow> u64 option) \<Rightarrow> nat \<Rightarrow> nat list \<Rightarrow> dma_dev \<Rightarrow> queue_buf list
    \<Rightarrow> (queue_buf list + queue_buf list) \<times> dma_dev" where
  "map_frags mp k [] dev bufs = (Inr bufs, dev)"
| "map_frags mp k (len # lens) dev bufs =
     (if length bufs = 32 then (Inl bufs, dev)
      else case mp k of
             None \<Rightarrow> (Inl bufs, dev)
           | Some addr \<Rightarrow>
               map_frags mp (k + 1) lens (dv_act dev [Dma_map addr len]) (bufs @ [mk_buf addr len]))"

text \<open>The exits of the function: \<open>unmap\<close> falls through to \<open>free\<close> and to \<open>free_skb\<close>.\<close>

definition tx_fail_skb :: "dma_dev \<Rightarrow> nat option \<Rightarrow> dma_dev" where
  "tx_fail_skb dev skb = dv_act dev [Tx_status_ext skb]"

definition tx_fail_free :: "dma_dev \<Rightarrow> nat \<Rightarrow> nat option \<Rightarrow> dma_dev" where
  "tx_fail_free dev t skb = tx_fail_skb (mt76_put_txwi dev t) skb"

definition tx_fail_unmap :: "dma_dev \<Rightarrow> queue_buf list \<Rightarrow> nat \<Rightarrow> nat \<Rightarrow> nat option \<Rightarrow> dma_dev" where
  "tx_fail_unmap dev bufs n t skb =
     tx_fail_free (dv_act dev (map (\<lambda>b. Dma_unmap (qb_addr b) (qb_len b)) (rev (tl (take n bufs))))) t skb"

definition mt76_dma_tx_queue_skb ::
  "(tx_info \<Rightarrow> errno option \<times> tx_info) \<Rightarrow> dma_dev \<Rightarrow> dma_queue \<Rightarrow> tx_req
     \<Rightarrow> nat option res \<times> dma_dev \<times> dma_queue" where
  "mt76_dma_tx_queue_skb prepare dev q r =
     (if tr_reset r then (Inl ENOMEM, tx_fail_skb dev (Some (tr_skb r)), q)
      else case mt76_get_txwi (tr_fresh r) dev of
        (None, dev) \<Rightarrow> (Inl ENOMEM, tx_fail_skb dev (Some (tr_skb r)), q)
      | (Some t, dev) \<Rightarrow>
          let len = tr_headlen r + (if tr_aligned4 r \<and> tr_hdrlen r mod 4 \<noteq> 0 then 2 else 0)
          in case tr_map r 0 of
               None \<Rightarrow> (Inl ENOMEM, tx_fail_free dev t (Some (tr_skb r)), q)
             | Some addr \<Rightarrow>
                 let dev = dv_act dev [Dma_map addr len];
                     bufs = [mk_buf (tr_txwi_addr r t) (tr_txwi_size r), mk_buf addr len]
                 in case map_frags (tr_map r) 1 (tr_frags r) dev bufs of
                      (Inl bufs, dev) \<Rightarrow> (Inl ENOMEM, tx_fail_unmap dev bufs (length bufs) t (Some (tr_skb r)), q)
                    | (Inr bufs, dev) \<Rightarrow>
                        let n = length bufs
                        in if q_queued q + (n + 1) div 2 + 1 \<ge> q_ndesc q
                           then (Inl ENOMEM, tx_fail_unmap dev bufs n t (Some (tr_skb r)), q)
                           else case prepare \<lparr>ti_buf = bufs, ti_nbuf = n, ti_info = 0, ti_skb = Some (tr_skb r)\<rparr> of
                                  (Some e, ti) \<Rightarrow> (Inl e, tx_fail_unmap dev (ti_buf ti) n t (ti_skb ti), q)
                                | (None, ti) \<Rightarrow>
                                    let (idx, q) = mt76_dma_add_buf q (take (ti_nbuf ti) (ti_buf ti)) (ti_info ti)
                                                     (ti_skb ti) (Some t)
                                    in (Inr idx, dev, q))"

section \<open>The ring as a queue\<close>

text \<open>The interface of a bounded queue, and what follows from its laws.\<close>

locale bounded_fifo =
  fixes ok :: "'q \<Rightarrow> bool" and items :: "'q \<Rightarrow> 'e list" and cap :: "'q \<Rightarrow> nat"
    and push :: "'q \<Rightarrow> 'e \<Rightarrow> 'q" and pop :: "'q \<Rightarrow> 'q"
  assumes push_items: "ok q \<Longrightarrow> length (items q) < cap q \<Longrightarrow> items (push q e) = items q @ [e]"
    and push_ok: "ok q \<Longrightarrow> length (items q) < cap q \<Longrightarrow> ok (push q e)"
    and push_cap: "cap (push q e) = cap q"
    and pop_items: "ok q \<Longrightarrow> items q \<noteq> [] \<Longrightarrow> items (pop q) = tl (items q)"
    and pop_ok: "ok q \<Longrightarrow> items q \<noteq> [] \<Longrightarrow> ok (pop q)"
begin

lemma push_all:
  assumes "ok q" "length (items q) + length es \<le> cap q"
  shows "items (foldl push q es) = items q @ es \<and> ok (foldl push q es) \<and> cap (foldl push q es) = cap q"
  using assms
proof (induction es arbitrary: q)
  case (Cons e es)
  then show ?case using push_items [of q e] push_ok [of q e] push_cap [of q e] by simp
qed simp

lemma pop_many:
  assumes "ok q" "n \<le> length (items q)"
  shows "items ((pop ^^ n) q) = drop n (items q) \<and> ok ((pop ^^ n) q)"
  using assms
proof (induction n)
  case (Suc n)
  then have "items ((pop ^^ n) q) = drop n (items q)" "ok ((pop ^^ n) q)" by simp_all
  moreover have "drop n (items q) \<noteq> []" using Suc.prems by simp
  ultimately show ?case
    using pop_items [of "(pop ^^ n) q"] pop_ok [of "(pop ^^ n) q"] by (simp add: drop_Suc tl_drop)
qed simp

lemma fifo_order:
  assumes "ok q" "items q = []" "length es \<le> cap q" "n \<le> length es"
  shows "items ((pop ^^ n) (foldl push q es)) = drop n es"
  using push_all [OF assms(1), of es] pop_many [of "foldl push q es" n] assms by simp

end

definition slot_at :: "dma_queue \<Rightarrow> nat \<Rightarrow> queue_entry \<times> dma_desc" where
  "slot_at q i = (q_entry q ! i, q_desc q ! i)"

definition ring :: "dma_queue \<Rightarrow> (queue_entry \<times> dma_desc) list" where
  "ring q = map (\<lambda>i. slot_at q ((q_tail q + i) mod q_ndesc q)) [0..<q_queued q]"

definition ring_ok :: "dma_queue \<Rightarrow> bool" where
  "ring_ok q \<longleftrightarrow> 0 < q_ndesc q \<and> length (q_entry q) = q_ndesc q \<and> length (q_desc q) = q_ndesc q
     \<and> q_tail q < q_ndesc q \<and> q_queued q \<le> q_ndesc q \<and> q_head q = (q_tail q + q_queued q) mod q_ndesc q"

definition pop_tail :: "dma_queue \<Rightarrow> dma_queue" where
  "pop_tail q = q\<lparr>q_tail := (q_tail q + 1) mod q_ndesc q, q_queued := q_queued q - 1\<rparr>"

lemma ring_length [simp]: "length (ring q) = q_queued q"
  by (simp add: ring_def)

lemma ring_Nil [simp]: "ring q = [] \<longleftrightarrow> q_queued q = 0"
  by (simp add: ring_def)

lemma mod_add_less_neq:
  assumes "i < j" "j < n"
  shows "(t + i) mod n \<noteq> (t + j) mod (n :: nat)"
proof
  assume "(t + i) mod n = (t + j) mod n"
  then have "n dvd (t + j) - (t + i)" using assms(1) by (metis mod_eq_dvd_iff_nat add_le_cancel_left less_imp_le)
  then have "n dvd j - i" by simp
  then show False using assms nat_dvd_not_less [of "j - i" n] by simp
qed

lemma ring_push:
  assumes "ring_ok q" "q_queued q < q_ndesc q"
  shows "ring (push_head q e d) = ring q @ [(e, d)]"
proof -
  have "slot_at (push_head q e d) ((q_tail q + i) mod q_ndesc q) = slot_at q ((q_tail q + i) mod q_ndesc q)"
    if "i < q_queued q" for i
    using that assms mod_add_less_neq [of i "q_queued q" "q_ndesc q" "q_tail q"]
    by (simp add: slot_at_def push_head_def ring_ok_def)
  moreover have "slot_at (push_head q e d) ((q_tail q + q_queued q) mod q_ndesc q) = (e, d)"
    using assms by (simp add: slot_at_def push_head_def ring_ok_def)
  ultimately show ?thesis
    unfolding ring_def by (simp add: push_head_def)
qed

lemma ring_ok_push: "ring_ok q \<Longrightarrow> q_queued q < q_ndesc q \<Longrightarrow> ring_ok (push_head q e d)"
  by (auto simp: ring_ok_def push_head_def mod_simps)

lemma ring_pop:
  assumes "ring_ok q" "0 < q_queued q"
  shows "ring (pop_tail q) = tl (ring q)"
proof -
  obtain m where m: "q_queued q = Suc m" using assms(2) gr0_conv_Suc by blast
  have "tl (ring q) = map (\<lambda>i. slot_at q ((q_tail q + Suc i) mod q_ndesc q)) [0..<m]"
    unfolding ring_def m map_tl [symmetric] by (simp add: map_Suc_upt [symmetric] upt_rec [of 0 "Suc m"] del: upt_Suc)
  then show ?thesis
    using m by (simp add: ring_def pop_tail_def slot_at_def mod_simps)
qed

lemma ring_ok_pop: "ring_ok q \<Longrightarrow> 0 < q_queued q \<Longrightarrow> ring_ok (pop_tail q)"
  by (cases "q_queued q") (auto simp: ring_ok_def pop_tail_def mod_simps)

lemma push_head_sel [simp]:
  "q_ndesc (push_head q e d) = q_ndesc q" "q_queued (push_head q e d) = q_queued q + 1"
  "q_tail (push_head q e d) = q_tail q" "q_head (push_head q e d) = (q_head q + 1) mod q_ndesc q"
  "q_entry (push_head q e d) = (q_entry q)[q_head q := e]"
  "q_desc (push_head q e d) = (q_desc q)[q_head q := d]"
  by (simp_all add: push_head_def)

interpretation tx_ring: bounded_fifo ring_ok ring q_ndesc "\<lambda>q (e, d). push_head q e d" pop_tail
  by unfold_locales
    (auto simp: ring_push ring_ok_push ring_pop ring_ok_pop)

section \<open>What a queued frame puts into the ring\<close>

text \<open>The entries and descriptors for a list of buffers, the first of them on top of \<open>e\<close>.\<close>

fun tx_pairs :: "queue_entry \<Rightarrow> queue_buf list \<Rightarrow> u32 \<Rightarrow> (queue_entry \<times> dma_desc) list" where
  "tx_pairs e [] info = []"
| "tx_pairs e [b0] info = (case fill_desc e [b0] info of (e', d, _) \<Rightarrow> [(e', d)])"
| "tx_pairs e (b0 # b1 # bs) info =
     (case fill_desc e (b0 # b1 # bs) info of (e', d, info') \<Rightarrow> (e', d) # tx_pairs zero_entry bs info')"

definition free_zero :: "dma_queue \<Rightarrow> nat \<Rightarrow> bool" where
  "free_zero q k \<longleftrightarrow> (\<forall>i. k \<le> i \<and> i < q_ndesc q \<longrightarrow> q_entry q ! ((q_tail q + i) mod q_ndesc q) = zero_entry)"

definition tx_inv :: "dma_queue \<Rightarrow> bool" where
  "tx_inv q \<longleftrightarrow> ring_ok q \<and> free_zero q (q_queued q)"

lemma tx_pairs_length: "length (tx_pairs e bs info) = (length bs + 1) div 2"
  by (induction e bs info rule: tx_pairs.induct) (simp_all split: prod.split)

lemma free_zero_push:
  assumes "ring_ok q" "q_queued q < q_ndesc q" "free_zero q (q_queued q + 1)"
  shows "free_zero (push_head q e d) (q_queued q + 1)"
  unfolding free_zero_def push_head_sel
proof (intro allI impI)
  fix i assume i: "q_queued q + 1 \<le> i \<and> i < q_ndesc q"
  then have "(q_tail q + q_queued q) mod q_ndesc q \<noteq> (q_tail q + i) mod q_ndesc q"
    by (intro mod_add_less_neq) auto
  then show "(q_entry q)[q_head q := e] ! ((q_tail q + i) mod q_ndesc q) = zero_entry"
    using assms i by (simp add: ring_ok_def free_zero_def)
qed

lemma ring_head_index: "ring_ok q \<Longrightarrow> q_head q < length (q_entry q)"
  by (simp add: ring_ok_def)

lemma add_buf_loop_ring:
  assumes "ring_ok q" "free_zero q (q_queued q + 1)" "q_queued q + (length bs + 1) div 2 \<le> q_ndesc q"
  shows "ring (fst (add_buf_loop q bs info idx)) = ring q @ tx_pairs (q_entry q ! q_head q) bs info
    \<and> ring_ok (fst (add_buf_loop q bs info idx))
    \<and> q_tail (fst (add_buf_loop q bs info idx)) = q_tail q
    \<and> q_ndesc (fst (add_buf_loop q bs info idx)) = q_ndesc q
    \<and> q_queued (fst (add_buf_loop q bs info idx)) = q_queued q + (length bs + 1) div 2
    \<and> (bs \<noteq> [] \<longrightarrow> snd (add_buf_loop q bs info idx)
          = Some ((q_tail q + (q_queued q + (length bs + 1) div 2 - 1)) mod q_ndesc q)
        \<and> free_zero (fst (add_buf_loop q bs info idx)) (q_queued q + (length bs + 1) div 2))"
  using assms
proof (induction q bs info idx rule: add_buf_loop.induct)
  case (1 q info idx)
  then show ?case by simp
next
  case (2 q b0 info idx)
  then have "q_queued q < q_ndesc q" by simp
  with 2 show ?case
    by (simp add: add_buf_round_def case_prod_beta ring_push ring_ok_push free_zero_push [simplified])
      (simp add: ring_ok_def)
next
  case (3 q b0 b1 bs info idx)
  define r where "r = fill_desc (q_entry q ! q_head q) (b0 # b1 # bs) info"
  define q1 where "q1 = push_head q (fst r) (fst (snd r))"
  have room: "q_queued q < q_ndesc q" using 3(4) by simp
  have step: "add_buf_round q (b0 # b1 # bs) info = (q1, snd (snd r))"
    by (simp add: add_buf_round_def case_prod_beta q1_def r_def)
  have ok1: "ring_ok q1" "ring q1 = ring q @ [(fst r, fst (snd r))]" "free_zero q1 (q_queued q + 1)"
    unfolding q1_def using 3(2,3) room ring_ok_push ring_push free_zero_push by simp_all
  have sel: "q_queued q1 = q_queued q + 1" "q_ndesc q1 = q_ndesc q" "q_tail q1 = q_tail q"
    by (simp_all add: q1_def)
  have fz: "free_zero q1 (q_queued q1 + 1)" using ok1(3) sel by (auto simp: free_zero_def)
  have loop: "add_buf_loop q (b0 # b1 # bs) info idx = add_buf_loop q1 bs (snd (snd r)) (Some (q_head q))"
    by (simp add: step)
  have pairs: "tx_pairs (q_entry q ! q_head q) (b0 # b1 # bs) info
      = (fst r, fst (snd r)) # tx_pairs zero_entry bs (snd (snd r))"
    by (simp add: r_def case_prod_beta)
  have head: "q_head q = (q_tail q + q_queued q) mod q_ndesc q" using 3(2) by (simp add: ring_ok_def)
  show ?case
  proof (cases "bs = []")
    case True
    then show ?thesis
      unfolding loop pairs using ok1 sel head by simp
  next
    case False
    have half: "q_queued q + (length (b0 # b1 # bs) + 1) div 2 = q_queued q1 + (length bs + 1) div 2"
      using sel by simp
    have pos: "0 < (length bs + 1) div 2" using False by (cases bs) simp_all
    have "q_head q1 = (q_tail q1 + (q_queued q + 1)) mod q_ndesc q1" using ok1(1) sel by (simp add: ring_ok_def)
    moreover have "q_queued q + 1 < q_ndesc q1" using 3(4) half pos sel by linarith
    ultimately have "q_entry q1 ! q_head q1 = zero_entry"
      using ok1(3) [unfolded free_zero_def, rule_format, of "q_queued q + 1"] by simp
    moreover have "q_queued q1 + (length bs + 1) div 2 \<le> q_ndesc q1" using 3(4) half sel by simp
    ultimately show ?thesis
      unfolding loop pairs half using 3(1) [OF refl step [symmetric] ok1(1) fz] ok1(2) sel False
      by simp
  qed
qed

lemma upd_entry_sel [simp]:
  "q_ndesc (upd_entry q i g) = q_ndesc q" "q_queued (upd_entry q i g) = q_queued q"
  "q_tail (upd_entry q i g) = q_tail q" "q_head (upd_entry q i g) = q_head q"
  "q_desc (upd_entry q i g) = q_desc q" "ring_ok (upd_entry q i g) = ring_ok q"
  by (simp_all add: upd_entry_def ring_ok_def)

lemma ring_upd_free:
  assumes "ring_ok q" "q_queued q < q_ndesc q"
  shows "ring (upd_entry q (q_head q) g) = ring q"
proof -
  have "slot_at (upd_entry q (q_head q) g) ((q_tail q + i) mod q_ndesc q) = slot_at q ((q_tail q + i) mod q_ndesc q)"
    if "i < q_queued q" for i
    using that assms mod_add_less_neq [of i "q_queued q" "q_ndesc q" "q_tail q"]
    by (simp add: slot_at_def upd_entry_def ring_ok_def)
  then show ?thesis by (simp add: ring_def)
qed

lemma ring_upd_last:
  assumes "ring_ok q" "q_queued q = Suc n"
  shows "ring (upd_entry q ((q_tail q + n) mod q_ndesc q) g)
       = butlast (ring q) @ [(g (fst (last (ring q))), snd (last (ring q)))]"
proof -
  let ?q = "upd_entry q ((q_tail q + n) mod q_ndesc q) g"
  have "slot_at ?q ((q_tail q + i) mod q_ndesc q) = slot_at q ((q_tail q + i) mod q_ndesc q)" if "i < n" for i
    using that assms mod_add_less_neq [of i n "q_ndesc q" "q_tail q"]
    by (simp add: slot_at_def upd_entry_def ring_ok_def)
  moreover have "slot_at ?q ((q_tail q + n) mod q_ndesc q)
      = (g (q_entry q ! ((q_tail q + n) mod q_ndesc q)), q_desc q ! ((q_tail q + n) mod q_ndesc q))"
    using assms by (simp add: slot_at_def upd_entry_def ring_ok_def)
  ultimately show ?thesis
    unfolding ring_def assms(2) upd_entry_sel by (simp add: slot_at_def)
qed

lemma free_zero_upd:
  assumes "ring_ok q" "free_zero q k" "n < k" "k \<le> q_ndesc q"
  shows "free_zero (upd_entry q ((q_tail q + n) mod q_ndesc q) g) k"
  unfolding free_zero_def upd_entry_sel
proof (intro allI impI)
  fix i assume i: "k \<le> i \<and> i < q_ndesc q"
  then have "(q_tail q + n) mod q_ndesc q \<noteq> (q_tail q + i) mod q_ndesc q"
    using assms(3) by (intro mod_add_less_neq) auto
  then show "q_entry (upd_entry q ((q_tail q + n) mod q_ndesc q) g) ! ((q_tail q + i) mod q_ndesc q) = zero_entry"
    using assms(2) i by (simp add: upd_entry_def free_zero_def)
qed

text \<open>What the first entry starts as, and what the last one is completed with.\<close>

definition tx_first :: "nat option \<Rightarrow> queue_entry" where
  "tx_first txwi = (case txwi of None \<Rightarrow> zero_entry
     | Some _ \<Rightarrow> zero_entry\<lparr>e_txwi := Txwi_dummy, e_skip_buf0 := True\<rparr>)"

definition tx_last :: "nat option \<Rightarrow> nat option \<Rightarrow> queue_entry \<Rightarrow> queue_entry" where
  "tx_last skb txwi e = e\<lparr>e_txwi := (case txwi of None \<Rightarrow> Txwi_null | Some t \<Rightarrow> Txwi t),
     e_buf := map_option Buf skb, e_wcid := 0xffff\<rparr>"

definition tx_frame :: "queue_buf list \<Rightarrow> u32 \<Rightarrow> nat option \<Rightarrow> nat option \<Rightarrow> (queue_entry \<times> dma_desc) list" where
  "tx_frame bufs info skb txwi =
     (let ps = tx_pairs (tx_first txwi) bufs info
      in butlast ps @ [(tx_last skb txwi (fst (last ps)), snd (last ps))])"

lemma add_buf_ring:
  assumes "tx_inv q" "bufs \<noteq> []" "q_queued q + (length bufs + 1) div 2 \<le> q_ndesc q"
    and "(idx, q') = mt76_dma_add_buf q bufs info skb txwi"
  shows "ring q' = ring q @ tx_frame bufs info skb txwi" "tx_inv q'"
    "idx = Some ((q_tail q + (q_queued q + (length bufs + 1) div 2 - 1)) mod q_ndesc q)"
    "q_ndesc q' = q_ndesc q" "q_tail q' = q_tail q" "q_queued q' = q_queued q + (length bufs + 1) div 2"
proof -
  define q0 where "q0 = (case txwi of None \<Rightarrow> q
      | Some _ \<Rightarrow> upd_entry q (q_head q) (\<lambda>e. e\<lparr>e_txwi := Txwi_dummy, e_skip_buf0 := True\<rparr>))"
  define l where "l = add_buf_loop q0 bufs info None"
  let ?k = "(length bufs + 1) div 2"
  have pos: "0 < ?k" using assms(2) by (cases bufs) simp_all
  have ok: "ring_ok q" and fz: "free_zero q (q_queued q)" using assms(1) by (simp_all add: tx_inv_def)
  have room: "q_queued q < q_ndesc q" using assms(3) pos by linarith
  have head: "q_head q = (q_tail q + q_queued q) mod q_ndesc q" using ok by (simp add: ring_ok_def)
  have sel0: "q_ndesc q0 = q_ndesc q" "q_queued q0 = q_queued q" "q_tail q0 = q_tail q" "q_head q0 = q_head q"
      "ring_ok q0" "ring q0 = ring q"
    using ok room by (simp_all add: q0_def ring_upd_free split: option.split)
  have fz1: "free_zero q (q_queued q + 1)" using fz by (simp add: free_zero_def)
  have fz0: "free_zero q0 (q_queued q0 + 1)"
    using free_zero_upd [OF ok fz1, of "q_queued q"] room fz1 by (auto simp: q0_def head split: option.split)
  have e0: "q_entry q0 ! q_head q0 = tx_first txwi"
    using fz room ok head
    by (auto simp: q0_def tx_first_def upd_entry_def free_zero_def ring_ok_def split: option.split)
  have L: "ring (fst l) = ring q @ tx_pairs (tx_first txwi) bufs info" "ring_ok (fst l)" "q_tail (fst l) = q_tail q"
      "q_ndesc (fst l) = q_ndesc q" "q_queued (fst l) = q_queued q + ?k"
      "snd l = Some ((q_tail q + (q_queued q + ?k - 1)) mod q_ndesc q)" "free_zero (fst l) (q_queued q + ?k)"
    using add_buf_loop_ring [OF sel0(5) fz0, of bufs info None] assms(2,3) sel0 e0 by (simp_all add: l_def)
  let ?i = "(q_tail q + (q_queued q + ?k - 1)) mod q_ndesc q"
  have res: "idx = Some ?i" "q' = upd_entry (fst l) ?i (tx_last skb txwi)"
    using assms(4) L(6)
    by (simp_all add: mt76_dma_add_buf_def q0_def [symmetric] l_def [symmetric] Let_def case_prod_beta tx_last_def [abs_def])
  have Suc: "q_queued (fst l) = Suc (q_queued q + ?k - 1)" using L(5) pos by simp
  have ps: "tx_pairs (tx_first txwi) bufs info \<noteq> []"
    using pos tx_pairs_length [of "tx_first txwi" bufs info] by force
  show "ring q' = ring q @ tx_frame bufs info skb txwi"
    using ring_upd_last [OF L(2) Suc, of "tx_last skb txwi"] ps
    by (simp add: res(2) L tx_frame_def Let_def butlast_append)
  show "tx_inv q'"
    using free_zero_upd [OF L(2) L(7), of "q_queued q + ?k - 1"] L pos assms(3) by (simp add: res(2) tx_inv_def)
  show "idx = Some ?i" "q_ndesc q' = q_ndesc q" "q_tail q' = q_tail q" "q_queued q' = q_queued q + ?k"
    using res L by simp_all
qed

lemma ring_upd_tail:
  assumes "ring_ok q" "0 < q_queued q"
  shows "tl (ring (upd_entry q (q_tail q) g)) = tl (ring q)"
proof -
  obtain m where m: "q_queued q = Suc m" using assms(2) gr0_conv_Suc by blast
  have tl: "tl (ring q) = map (\<lambda>i. slot_at q ((q_tail q + Suc i) mod q_ndesc q)) [0..<m]" if "q_queued q = Suc m" for q
    unfolding ring_def that map_tl [symmetric] by (simp add: map_Suc_upt [symmetric] upt_rec [of 0 "Suc m"] del: upt_Suc)
  have "q_tail q = (q_tail q + 0) mod q_ndesc q" using assms(1) by (simp add: ring_ok_def)
  then have "slot_at (upd_entry q (q_tail q) g) ((q_tail q + Suc i) mod q_ndesc q) = slot_at q ((q_tail q + Suc i) mod q_ndesc q)"
    if "i < m" for i
    using mod_add_less_neq [of 0 "Suc i" "q_ndesc q" "q_tail q"] that m assms(1)
    by (simp add: slot_at_def upd_entry_def ring_ok_def)
  then show ?thesis using m by (simp add: tl)
qed

lemma ring_hd: "ring_ok q \<Longrightarrow> 0 < q_queued q \<Longrightarrow> hd (ring q) = slot_at q (q_tail q)"
  by (simp add: ring_def hd_map ring_ok_def)

end
