(* ===== verification/DmaTx.thy ===== *)
theory DmaTx
  imports DmaRing
begin

text \<open>
  What the transmit side of theory DmaRing does: a queued frame becomes the right entries and
  descriptors at the end of the ring, the descriptors decode to the buffers they were made from,
  cleaning up completes entries oldest first and exactly once, and the error paths of
  \<open>mt76_dma_tx_queue_skb\<close> leave nothing mapped.
\<close>

section \<open>Filling the ring\<close>

text \<open>
  C8: On a ring in its invariant with room for them, \<open>mt76_dma_add_buf\<close> appends the entries of
  the frame, two buffers to a descriptor, behind all older entries, which stay as they are; the
  returned index is that of the frame's last entry, which holds the frame and the transmit
  descriptor; and the invariant holds again.
\<close>

theorem add_buf_appends_frame:
  assumes "tx_inv q" "bufs \<noteq> []" "q_queued q + (length bufs + 1) div 2 \<le> q_ndesc q"
    and "(idx, q') = mt76_dma_add_buf q bufs info skb txwi"
  shows "ring q' = ring q @ tx_frame bufs info skb txwi \<and> tx_inv q'
    \<and> q_queued q' = q_queued q + (length bufs + 1) div 2
    \<and> (\<exists>i. idx = Some i \<and> slot_at q' i = last (ring q')
         \<and> e_buf (fst (slot_at q' i)) = map_option Buf skb)"
proof -
  let ?n = "q_queued q + (length bufs + 1) div 2 - 1"
  have pos: "0 < (length bufs + 1) div 2" using assms(2) by (cases bufs) simp_all
  have A: "ring q' = ring q @ tx_frame bufs info skb txwi" "tx_inv q'" "idx = Some ((q_tail q + ?n) mod q_ndesc q)"
    "q_ndesc q' = q_ndesc q" "q_tail q' = q_tail q" "q_queued q' = q_queued q + (length bufs + 1) div 2"
    using add_buf_ring [OF assms] .
  have last: "slot_at q' ((q_tail q + ?n) mod q_ndesc q) = last (ring q')"
    using A(4-6) pos by (simp add: ring_def last_map del: upt_Suc)
  have "e_buf (fst (last (tx_frame bufs info skb txwi))) = map_option Buf skb"
    by (simp add: tx_frame_def Let_def tx_last_def)
  then have "e_buf (fst (last (ring q'))) = map_option Buf skb"
    by (simp add: A(1) tx_frame_def Let_def)
  with A last show ?thesis by auto
qed

section \<open>The descriptors decode to the buffers\<close>

text \<open>The buffers the hardware reads from one descriptor.\<close>

definition desc_bufs :: "dma_desc \<Rightarrow> (u64 \<times> u32) list" where
  "desc_bufs d =
     (ucast (d_buf0 d) OR push_bit 32 (ucast (FIELD_GET 3 0 (d_info d))), FIELD_GET 29 16 (d_ctrl d))
     # (if bit (d_ctrl d) 30 then []
        else [(ucast (d_buf1 d) OR push_bit 32 (ucast (FIELD_GET 19 16 (d_info d))), FIELD_GET 13 0 (d_ctrl d))])"

definition desc_last :: "dma_desc \<Rightarrow> bool" where
  "desc_last d \<longleftrightarrow> bit (d_ctrl d) 30 \<or> bit (d_ctrl d) 14"

lemma high_bits_0:
  "drop_bit k w = 0 \<Longrightarrow> bit w n \<Longrightarrow> n < k" for w :: "'a::len word"
  by (metis bit_drop_bit_eq comp_apply bit_0_eq bot_apply bot_bool_def le_add_diff_inverse not_less)

lemma addr_join:
  assumes "drop_bit 36 (a :: u64) = 0"
  shows "ucast (ucast a :: u32) OR push_bit 32 (ucast (take_bit 4 (ucast (drop_bit 32 a) :: u32))) = a"
proof (rule bit_word_eqI)
  fix n assume "n < LENGTH(64)"
  then show "bit (ucast (ucast a :: u32) OR push_bit 32 (ucast (take_bit 4 (ucast (drop_bit 32 a) :: u32))) :: u64) n
      = bit a n"
    using high_bits_0 [OF assms, of n]
    by (cases "n < 32") (auto simp: bit_or_iff bit_push_bit_iff bit_ucast_iff bit_take_bit_iff bit_drop_bit_eq)
qed

lemma len_field: "drop_bit 14 l = 0 \<Longrightarrow> take_bit 14 (ucast (l :: u16) :: u32) = ucast l"
  by (rule bit_word_eqI) (auto simp: bit_take_bit_iff bit_ucast_iff dest: high_bits_0)

lemma ctrl_bits:
  "bit (FIELD_PREP h l v OR BIT k :: u32) n \<longleftrightarrow> bit (FIELD_PREP h l v :: u32) n \<or> n = k \<and> k < 32"
  by (auto simp: bit_or_iff bit_BIT)

text \<open>A round's descriptor, when the high address bits of all buffers are those of \<open>h\<close>.\<close>

definition info_ok :: "u64 \<Rightarrow> u32 \<Rightarrow> bool" where
  "info_ok h info \<longleftrightarrow> FIELD_GET 3 0 info \<in> {0, take_bit 4 (ucast h)} \<and> FIELD_GET 19 16 info \<in> {0, take_bit 4 (ucast h)}"

definition buf_ok :: "u64 \<Rightarrow> queue_buf \<Rightarrow> bool" where
  "buf_ok h b \<longleftrightarrow> drop_bit 36 (qb_addr b) = 0 \<and> drop_bit 14 (qb_len b) = 0 \<and> drop_bit 32 (qb_addr b) = h"

lemma buf_okD:
  assumes "buf_ok h b"
  shows "ucast (ucast (qb_addr b) :: u32) OR push_bit 32 (ucast (take_bit 4 (ucast h :: u32))) = qb_addr b"
    and "take_bit 14 (ucast (qb_len b) :: u32) = ucast (qb_len b)"
  using assms addr_join [of "qb_addr b"] len_field [of "qb_len b"] by (auto simp: buf_ok_def)

lemma info_or:
  assumes "info_ok h info"
  shows "FIELD_GET 3 0 (info OR FIELD_PREP 3 0 (ucast h)) = take_bit 4 (ucast h)"
    and "info_ok h (info OR FIELD_PREP 3 0 (ucast h))"
    and "FIELD_GET 19 16 ((info OR FIELD_PREP 3 0 (ucast h)) OR FIELD_PREP 19 16 (ucast h)) = take_bit 4 (ucast h)"
    and "FIELD_GET 3 0 ((info OR FIELD_PREP 3 0 (ucast h)) OR FIELD_PREP 19 16 (ucast h)) = take_bit 4 (ucast h)"
    and "info_ok h ((info OR FIELD_PREP 3 0 (ucast h)) OR FIELD_PREP 19 16 (ucast h))"
  using assms by (auto simp: info_ok_def bitfield FIELD_GET_PREP)

lemma fill_one:
  assumes "info_ok h info" "buf_ok h b"
  shows "desc_bufs (fst (snd (fill_desc e [b] info))) = [(qb_addr b, ucast (qb_len b))]"
    and "desc_last (fst (snd (fill_desc e [b] info)))"
  using buf_okD [OF assms(2)] assms info_or(1) [OF assms(1)]
  by (simp_all add: fill_desc_def Let_def desc_bufs_def desc_last_def ctrl_bits buf_ok_def bitfield FIELD_GET_PREP)

lemma fill_two:
  assumes "info_ok h info" "buf_ok h b0" "buf_ok h b1"
  shows "desc_bufs (fst (snd (fill_desc e (b0 # b1 # bs) info)))
      = [(qb_addr b0, ucast (qb_len b0)), (qb_addr b1, ucast (qb_len b1))]"
    and "desc_last (fst (snd (fill_desc e (b0 # b1 # bs) info))) \<longleftrightarrow> bs = []"
    and "info_ok h (snd (snd (fill_desc e (b0 # b1 # bs) info)))"
  using buf_okD [OF assms(2)] buf_okD [OF assms(3)] assms info_or [OF assms(1)]
  by (auto simp: fill_desc_def Let_def desc_bufs_def desc_last_def buf_ok_def bitfield FIELD_GET_PREP
      bit_or_iff bit_BIT bit_FIELD_PREP split: if_splits)

lemma tx_pairs_decode:
  assumes "info_ok h info" "\<forall>b \<in> set bs. buf_ok h b"
  shows "concat (map (\<lambda>p. desc_bufs (snd p)) (tx_pairs e bs info)) = map (\<lambda>b. (qb_addr b, ucast (qb_len b))) bs
    \<and> map (\<lambda>p. desc_last (snd p)) (tx_pairs e bs info) = replicate (length (tx_pairs e bs info) - 1) False @ (if bs = [] then [] else [True])"
  using assms
proof (induction e bs info rule: tx_pairs.induct)
  case (1 e info)
  then show ?case by simp
next
  case (2 e b info)
  then show ?case using fill_one [of h info b e] by (simp add: case_prod_beta)
next
  case (3 e b0 b1 bs info)
  let ?r = "fill_desc e (b0 # b1 # bs) info"
  have f: "desc_bufs (fst (snd ?r)) = [(qb_addr b0, ucast (qb_len b0)), (qb_addr b1, ucast (qb_len b1))]"
    "desc_last (fst (snd ?r)) \<longleftrightarrow> bs = []" "info_ok h (snd (snd ?r))"
    using fill_two [of h info b0 b1 e bs] 3(2,3) by simp_all
  have IH: "concat (map (\<lambda>p. desc_bufs (snd p)) (tx_pairs zero_entry bs (snd (snd ?r)))) = map (\<lambda>b. (qb_addr b, ucast (qb_len b))) bs
    \<and> map (\<lambda>p. desc_last (snd p)) (tx_pairs zero_entry bs (snd (snd ?r)))
      = replicate (length (tx_pairs zero_entry bs (snd (snd ?r))) - 1) False @ (if bs = [] then [] else [True])"
    using 3(1) [of "fst ?r" "snd ?r" "fst (snd ?r)" "snd (snd ?r)"] f(3) 3(3) by simp
  have len: "length (tx_pairs zero_entry bs (snd (snd ?r))) = (length bs + 1) div 2" by (rule tx_pairs_length)
  show ?case
  proof (cases "bs = []")
    case True
    then show ?thesis using f by (simp add: case_prod_beta)
  next
    case False
    then obtain k where k: "(length bs + 1) div 2 = Suc k" by (cases bs) auto
    show ?thesis using f IH False len k by (simp add: case_prod_beta)
  qed
qed

lemma tx_frame_snd: "bufs \<noteq> [] \<Longrightarrow> map snd (tx_frame bufs info skb txwi) = map snd (tx_pairs (tx_first txwi) bufs info)"
proof -
  assume "bufs \<noteq> []"
  then have "0 < (length bufs + 1) div 2" by (cases bufs) simp_all
  then have "tx_pairs (tx_first txwi) bufs info \<noteq> []"
    using tx_pairs_length [of "tx_first txwi" bufs info] by force
  then show ?thesis
    by (simp add: tx_frame_def Let_def map_butlast) (metis append_butlast_last_id last_map map_butlast map_is_Nil_conv)
qed

lemma tx_frame_map:
  assumes "bufs \<noteq> []"
  shows "map (\<lambda>p. f (snd p)) (tx_frame bufs info skb txwi) = map (\<lambda>p. f (snd p)) (tx_pairs (tx_first txwi) bufs info)"
proof -
  have "map f (map snd (tx_frame bufs info skb txwi)) = map f (map snd (tx_pairs (tx_first txwi) bufs info))"
    using tx_frame_snd [OF assms, of info skb txwi] by simp
  then show ?thesis by (simp add: comp_def)
qed

text \<open>
  C9: The descriptors a frame becomes decode, in order, to exactly its buffers (address and
  length), and exactly the last of them is marked as the last segment, provided that addresses
  have at most 36 bits, lengths at most 14, the info word starts with clear address fields, and
  all buffers share the address bits above 32.
\<close>

theorem descriptors_decode:
  assumes "bufs \<noteq> []" "\<forall>b \<in> set bufs. drop_bit 36 (qb_addr b) = 0 \<and> drop_bit 14 (qb_len b) = 0"
    and "\<forall>b \<in> set bufs. drop_bit 32 (qb_addr b) = h"
    and "FIELD_GET 3 0 info = 0" "FIELD_GET 19 16 info = 0"
  shows "concat (map (\<lambda>p. desc_bufs (snd p)) (tx_frame bufs info skb txwi)) = map (\<lambda>b. (qb_addr b, ucast (qb_len b))) bufs
    \<and> map (\<lambda>p. desc_last (snd p)) (tx_frame bufs info skb txwi)
       = replicate (length (tx_frame bufs info skb txwi) - 1) False @ [True]"
proof -
  have "info_ok h info" "\<forall>b \<in> set bufs. buf_ok h b" using assms by (auto simp: info_ok_def buf_ok_def)
  note D = tx_pairs_decode [OF this, of "tx_first txwi"]
  have len: "length (tx_frame bufs info skb txwi) = length (tx_pairs (tx_first txwi) bufs info)"
    using tx_frame_snd [OF assms(1)] by (metis length_map)
  show ?thesis using D assms(1) len by (simp add: tx_frame_map [OF assms(1)])
qed

text \<open>
  Without that last condition the decoding fails: the loop accumulates the high address bits
  of all descriptors of a frame in one variable, so after a buffer above 4 GiB the next
  descriptor of the frame points to a different address than its buffer's.
\<close>

theorem high_address_bits_leak:
  "\<exists>bufs. list_all (\<lambda>b. drop_bit 36 (qb_addr b) = 0 \<and> drop_bit 14 (qb_len b) = 0) bufs
     \<and> concat (map (\<lambda>p. desc_bufs (snd p)) (tx_frame bufs 0 (Some 1) None))
         \<noteq> map (\<lambda>b. (qb_addr b, ucast (qb_len b))) bufs"
proof -
  let ?b = "\<lambda>a. \<lparr>qb_addr = a, qb_len = 64, qb_skip_unmap = False\<rparr>"
  let ?bufs = "[?b 0x100000000, ?b 0x2000, ?b 0x3000]"
  have "map (\<lambda>p. desc_bufs (snd p)) (tx_frame ?bufs 0 (Some 1) None)
      = [[(0x100000000, 64), (0x2000, 64)], [(0x100003000, 64)]]"
    by (simp add: fill_desc_def FIELD_PREP_def GENMASK_def FIELD_GET_def mask_eq_exp_minus_1
        case_prod_beta Let_def tx_frame_def desc_bufs_def BIT_def bit_or_iff)
  then have "concat (map (\<lambda>p. desc_bufs (snd p)) (tx_frame ?bufs 0 (Some 1) None))
      \<noteq> map (\<lambda>b. (qb_addr b, ucast (qb_len b))) ?bufs"
    by simp
  moreover have "list_all (\<lambda>b. drop_bit 36 (qb_addr b) = 0 \<and> drop_bit 14 (qb_len b) = 0) ?bufs" by code_simp
  ultimately show ?thesis by blast
qed

section \<open>Cleaning up\<close>

text \<open>What cleaning one entry does outside the ring.\<close>

definition cleanup_unmaps :: "queue_entry \<Rightarrow> dma_action list" where
  "cleanup_unmaps e = (if e_skip_buf0 e then [] else [Dma_unmap (e_dma_addr0 e) (e_dma_len0 e)])
     @ (if e_skip_buf1 e then [] else [Dma_unmap (e_dma_addr1 e) (e_dma_len1 e)])"

definition no_dummy :: "queue_entry \<Rightarrow> queue_entry" where
  "no_dummy e = (if e_txwi e = Txwi_dummy then e\<lparr>e_txwi := Txwi_null\<rparr> else e)"

definition cleanup_actions :: "queue_entry \<Rightarrow> dma_action list" where
  "cleanup_actions e = cleanup_unmaps e @ (if e_buf e = None then [] else [Tx_complete_skb (no_dummy e)])"

definition cleanup_txwi :: "queue_entry \<Rightarrow> nat list" where
  "cleanup_txwi e = (case e_txwi e of Txwi t \<Rightarrow> [t] | _ \<Rightarrow> [])"

lemma cleanup_round_dev:
  "dv_log (fst (tx_cleanup_round nf dev q)) = dv_log dev @ cleanup_actions (q_entry q ! q_tail q)"
  "dv_txwi (fst (tx_cleanup_round nf dev q))
     = (if nf then [] else cleanup_txwi (q_entry q ! q_tail q)) @ dv_txwi dev"
  by (auto simp: tx_cleanup_round_def mt76_dma_tx_cleanup_idx_def mt76_queue_tx_complete_def dv_act_def
      mt76_put_txwi_def cleanup_actions_def cleanup_unmaps_def cleanup_txwi_def no_dummy_def Let_def
      split: txwi_ptr.splits)

lemma cleanup_round_queue:
  "snd (tx_cleanup_round nf dev q) = pop_tail (upd_entry q (q_tail q) (\<lambda>e. zero_entry))"
  by (simp add: tx_cleanup_round_def mt76_dma_tx_cleanup_idx_def mt76_queue_tx_complete_def
      pop_tail_def upd_entry_def Let_def)

lemma cleanup_round_ring:
  assumes "ring_ok q" "0 < q_queued q"
  shows "ring (snd (tx_cleanup_round nf dev q)) = tl (ring q)" "ring_ok (snd (tx_cleanup_round nf dev q))"
  using assms ring_pop [of "upd_entry q (q_tail q) (\<lambda>e. zero_entry)"] ring_ok_pop [of "upd_entry q (q_tail q) (\<lambda>e. zero_entry)"]
    ring_upd_tail [OF assms]
  by (simp_all add: cleanup_round_queue)

lemma cleanup_free_zero:
  assumes "tx_inv q" "0 < q_queued q"
  shows "tx_inv (snd (tx_cleanup_round nf dev q))"
proof -
  have ok: "ring_ok q" and fz: "free_zero q (q_queued q)" using assms(1) by (simp_all add: tx_inv_def)
  have "(q_entry q)[q_tail q := zero_entry] ! (((q_tail q + 1) mod q_ndesc q + i) mod q_ndesc q) = zero_entry"
    if i: "q_queued q - 1 \<le> i" "i < q_ndesc q" for i
  proof -
    have e: "((q_tail q + 1) mod q_ndesc q + i) mod q_ndesc q = (q_tail q + (i + 1)) mod q_ndesc q"
      by (simp add: mod_simps)
    show ?thesis
    proof (cases "i + 1 = q_ndesc q")
      case True
      then have "(q_tail q + (i + 1)) mod q_ndesc q = q_tail q" using ok by (simp add: ring_ok_def)
      then show ?thesis unfolding e using ok by (simp add: ring_ok_def)
    next
      case False
      then have "q_entry q ! ((q_tail q + (i + 1)) mod q_ndesc q) = zero_entry"
        using fz i unfolding free_zero_def by (metis Suc_eq_plus1 Suc_lessI diff_le_self le_diff_conv)
      then show ?thesis unfolding e
        by (cases "(q_tail q + (i + 1)) mod q_ndesc q = q_tail q") (use ok in \<open>auto simp: ring_ok_def\<close>)
    qed
  qed
  then show ?thesis
    using cleanup_round_ring(2) [OF ok assms(2)] by (simp add: tx_inv_def free_zero_def)
qed

definition cleaned :: "bool \<Rightarrow> nat \<Rightarrow> dma_dev \<Rightarrow> dma_queue \<Rightarrow> dma_dev \<Rightarrow> bool" where
  "cleaned nf k dev q dev' \<longleftrightarrow>
     dv_log dev' = dv_log dev @ concat (map (\<lambda>p. cleanup_actions (fst p)) (take k (ring q)))
   \<and> dv_txwi dev' = (if nf then [] else concat (rev (map (\<lambda>p. cleanup_txwi (fst p)) (take k (ring q))))) @ dv_txwi dev"

lemma cleaned_Suc:
  assumes "ring_ok q" "0 < q_queued q"
    and "cleaned nf k (fst (tx_cleanup_round nf dev q)) (snd (tx_cleanup_round nf dev q)) dev'"
  shows "cleaned nf (Suc k) dev q dev'"
proof -
  obtain r rs where r: "ring q = r # rs" using assms(2) ring_Nil [of q] by (cases "ring q") auto
  have "r = slot_at q (q_tail q)" using ring_hd [OF assms(1,2)] r by simp
  then have hd: "fst r = q_entry q ! q_tail q" by (simp add: slot_at_def)
  have rs: "ring (snd (tx_cleanup_round nf dev q)) = rs"
    using cleanup_round_ring(1) [OF assms(1,2), of nf dev] r by simp
  show ?thesis
    using assms(3) unfolding cleaned_def rs cleanup_round_dev r by (simp add: hd)
qed

lemma tx_cleanup_loop_spec:
  assumes "tx_inv q" "(dev', q') = tx_cleanup_loop nf flush rd n stop dev q"
    and "\<not> flush \<longrightarrow> (\<exists>m<n. stop = Some (rd m))" "flush \<longrightarrow> stop = None"
  shows "\<exists>k \<le> q_queued q. ring q' = drop k (ring q) \<and> tx_inv q' \<and> cleaned nf k dev q dev'
    \<and> q_queued q' = q_queued q - k \<and> q_ndesc q' = q_ndesc q
    \<and> (if flush then k = q_queued q else q_queued q' = 0 \<or> (\<exists>m. rd m = q_tail q'))
    \<and> ((\<forall>m. rd m = hw) \<and> \<not> flush \<longrightarrow> (\<forall>j<k. (q_tail q + j) mod q_ndesc q \<noteq> hw))"
  using assms
proof (induction nf flush rd n stop dev q arbitrary: dev' q' rule: tx_cleanup_loop.induct)
  case (1 nf flush rd n stop dev q)
  show ?case
  proof (cases "0 < q_queued q \<and> stop \<noteq> Some (q_tail q)")
    case False
    then have e: "dev' = dev" "q' = q" using "1.prems"(2) by (auto simp: tx_cleanup_loop.simps)
    show ?thesis
      by (rule exI [of _ 0]) (use "1.prems" False e in \<open>auto simp: cleaned_def\<close>)
  next
    case True
    let ?r = "tx_cleanup_round nf dev q"
    define stop' where "stop' = (if \<not> flush \<and> stop = Some (q_tail (snd ?r)) then Some (rd n) else stop)"
    define n' where "n' = (if \<not> flush \<and> stop = Some (q_tail (snd ?r)) then n + 1 else n)"
    have run: "(dev', q') = tx_cleanup_loop nf flush rd n' stop' (fst ?r) (snd ?r)"
      using "1.prems"(2) True
      by (simp add: tx_cleanup_loop.simps [of nf flush rd n stop dev q] case_prod_beta stop'_def n'_def split: if_splits)
    have inv: "tx_inv (snd ?r)" using cleanup_free_zero "1.prems"(1) True by blast
    have ok: "ring_ok q" using "1.prems"(1) by (simp add: tx_inv_def)
    have st: "\<not> flush \<longrightarrow> (\<exists>m<n'. stop' = Some (rd m))" "flush \<longrightarrow> stop' = None"
      using "1.prems"(3,4) by (auto simp: stop'_def n'_def less_Suc_eq)
    have "\<exists>k \<le> q_queued (snd ?r). ring q' = drop k (ring (snd ?r)) \<and> tx_inv q' \<and> cleaned nf k (fst ?r) (snd ?r) dev'
      \<and> q_queued q' = q_queued (snd ?r) - k \<and> q_ndesc q' = q_ndesc (snd ?r)
      \<and> (if flush then k = q_queued (snd ?r) else q_queued q' = 0 \<or> (\<exists>m. rd m = q_tail q'))
      \<and> ((\<forall>m. rd m = hw) \<and> \<not> flush \<longrightarrow> (\<forall>j<k. (q_tail (snd ?r) + j) mod q_ndesc (snd ?r) \<noteq> hw))"
    proof (cases "\<not> flush \<and> stop = Some (q_tail (snd ?r))")
      case T: True
      then have e: "stop' = Some (rd n)" "n' = n + 1" by (simp_all only: stop'_def n'_def simp_thms if_True)
      show ?thesis
        by (rule "1.IH"(1) [OF True refl prod.collapse T inv]) (use run st in \<open>simp_all only: e\<close>)
    next
      case F: False
      then have e: "stop' = stop" "n' = n" by (simp_all only: stop'_def n'_def if_False)
      show ?thesis
        by (rule "1.IH"(2) [OF True refl prod.collapse F inv]) (use run st in \<open>simp_all only: e\<close>)
    qed
    then obtain k where k: "k \<le> q_queued q - 1" "ring q' = drop k (ring (snd ?r))" "tx_inv q'"
      "cleaned nf k (fst ?r) (snd ?r) dev'" "q_queued q' = q_queued q - 1 - k" "q_ndesc q' = q_ndesc q"
      "if flush then k = q_queued q - 1 else q_queued q' = 0 \<or> (\<exists>m. rd m = q_tail q')"
      "(\<forall>m. rd m = hw) \<and> \<not> flush \<longrightarrow> (\<forall>j<k. ((q_tail q + 1) mod q_ndesc q + j) mod q_ndesc q \<noteq> hw)"
      unfolding tx_cleanup_round_sel by blast
    have tail: "(\<forall>m. rd m = hw) \<and> \<not> flush \<longrightarrow> (\<forall>j<Suc k. (q_tail q + j) mod q_ndesc q \<noteq> hw)"
    proof (intro impI allI)
      fix j assume h: "(\<forall>m. rd m = hw) \<and> \<not> flush" "j < Suc k"
      show "(q_tail q + j) mod q_ndesc q \<noteq> hw"
      proof (cases j)
        case 0
        then show ?thesis using h True "1.prems"(3) ok by (auto simp: ring_ok_def)
      next
        case (Suc i)
        then show ?thesis using k(8) h by (auto simp: mod_simps)
      qed
    qed
    show ?thesis
    proof (intro exI [of _ "Suc k"] conjI)
      show "ring q' = drop (Suc k) (ring q)"
        using k(2) cleanup_round_ring(1) [OF ok] True by (simp add: drop_Suc)
      show "cleaned nf (Suc k) dev q dev'" using cleaned_Suc [OF ok] True k(4) by simp
    qed (use k True tail in \<open>auto split: if_splits\<close>)
  qed
qed

text \<open>
  Cleaning up takes a number \<open>k\<close> of the oldest entries off the ring, in order: each is
  unmapped (both buffers unless marked otherwise), its frame is completed, its transmit
  descriptor goes back to the cache unless the driver frees it, each exactly once; and when the
  ring is empty the waiters are woken. A flush takes all entries. Otherwise the cleanup stops
  where the ring is empty or its tail is an index the hardware reported, and never passes that
  index when it does not move.
\<close>

theorem tx_cleanup_in_order:
  assumes "tx_inv q" "(dev', q') = mt76_dma_tx_cleanup nf rd dev q flush"
  shows "\<exists>k \<le> q_queued q.
     dv_log dev' = dv_log dev @ concat (map (\<lambda>p. cleanup_actions (fst p)) (take k (ring q)))
         @ (if k = q_queued q then [Wake_tx_wait] else [])
   \<and> dv_txwi dev' = (if nf then [] else concat (rev (map (\<lambda>p. cleanup_txwi (fst p)) (take k (ring q))))) @ dv_txwi dev
   \<and> (if flush then k = q_queued q \<and> q_queued q' = 0 \<and> q_tail q' = q_head q'
      else ring q' = drop k (ring q) \<and> tx_inv q'
         \<and> (k = q_queued q \<or> (\<exists>m. rd m = q_tail q'))
         \<and> ((\<forall>m. rd m = hw) \<longrightarrow> (\<forall>j<k. (q_tail q + j) mod q_ndesc q \<noteq> hw)))"
proof -
  have n: "0 < q_ndesc q" using assms(1) by (simp add: tx_inv_def ring_ok_def)
  show ?thesis
  proof (cases flush)
    case True
    define l where "l = tx_cleanup_loop nf True rd 0 None dev q"
    obtain k where k: "k \<le> q_queued q" "cleaned nf k dev q (fst l)" "q_queued (snd l) = q_queued q - k" "k = q_queued q"
      using tx_cleanup_loop_spec [OF assms(1), of "fst l" "snd l" nf True rd 0 None dev] by (auto simp: l_def)
    have "q' = mt76_dma_kick_queue (mt76_dma_sync_idx (snd l))" "dev' = dv_act (fst l) [Wake_tx_wait]"
      using assms(2) n True k(3,4)
      by (auto simp: mt76_dma_tx_cleanup_def l_def [symmetric] case_prod_beta Let_def mt76_dma_kick_queue_def mt76_dma_sync_idx_def)
    with True k show ?thesis
      by (intro exI [of _ k])
        (auto simp: cleaned_def dv_act_def mt76_dma_kick_queue_def mt76_dma_sync_idx_def Let_def)
  next
    case False
    define l where "l = tx_cleanup_loop nf False rd 1 (Some (rd 0)) dev q"
    obtain k where k: "k \<le> q_queued q" "ring (snd l) = drop k (ring q)" "tx_inv (snd l)" "cleaned nf k dev q (fst l)"
      "q_queued (snd l) = q_queued q - k" "q_queued (snd l) = 0 \<or> (\<exists>m. rd m = q_tail (snd l))"
      "(\<forall>m. rd m = hw) \<longrightarrow> (\<forall>j<k. (q_tail q + j) mod q_ndesc q \<noteq> hw)"
    proof -
      have "(fst l, snd l) = tx_cleanup_loop nf False rd 1 (Some (rd 0)) dev q" by (simp add: l_def)
      moreover have "\<not> False \<longrightarrow> (\<exists>m<1. Some (rd 0) = Some (rd m))" "False \<longrightarrow> Some (rd 0) = None" by auto
      ultimately have "\<exists>k \<le> q_queued q. ring (snd l) = drop k (ring q) \<and> tx_inv (snd l) \<and> cleaned nf k dev q (fst l)
        \<and> q_queued (snd l) = q_queued q - k \<and> q_ndesc (snd l) = q_ndesc q
        \<and> (if False then k = q_queued q else q_queued (snd l) = 0 \<or> (\<exists>m. rd m = q_tail (snd l)))
        \<and> ((\<forall>m. rd m = hw) \<and> \<not> False \<longrightarrow> (\<forall>j<k. (q_tail q + j) mod q_ndesc q \<noteq> hw))"
        by (rule tx_cleanup_loop_spec [OF assms(1)])
      then show ?thesis unfolding if_False by (elim exE conjE) (rule that; simp)
    qed
    have "q' = snd l" "dev' = (if q_queued (snd l) = 0 then dv_act (fst l) [Wake_tx_wait] else fst l)"
      using assms(2) n False by (auto simp: mt76_dma_tx_cleanup_def l_def case_prod_beta Let_def)
    with False k show ?thesis
      by (intro exI [of _ k]) (auto simp: cleaned_def dv_act_def)
  qed
qed

section \<open>Queueing a frame: every exit\<close>

definition maps_of :: "dma_action list \<Rightarrow> u64 list" where
  "maps_of as = List.map_filter (\<lambda>a. case a of Dma_map addr len \<Rightarrow> Some addr | _ \<Rightarrow> None) as"

definition unmaps_of :: "dma_action list \<Rightarrow> u64 list" where
  "unmaps_of as = List.map_filter (\<lambda>a. case a of Dma_unmap addr len \<Rightarrow> Some addr | _ \<Rightarrow> None) as"

definition statuses_of :: "dma_action list \<Rightarrow> nat option list" where
  "statuses_of as = List.map_filter (\<lambda>a. case a of Tx_status_ext s \<Rightarrow> Some s | _ \<Rightarrow> None) as"

lemmas actions_def = maps_of_def unmaps_of_def statuses_of_def

lemma actions_append [simp]:
  "maps_of (as @ bs) = maps_of as @ maps_of bs" "unmaps_of (as @ bs) = unmaps_of as @ unmaps_of bs"
  "statuses_of (as @ bs) = statuses_of as @ statuses_of bs"
  by (simp_all add: actions_def List.map_filter_def)

lemma actions_simps [simp]:
  "maps_of [] = []" "unmaps_of [] = []" "statuses_of [] = []"
  "maps_of (Dma_map a l # as) = a # maps_of as" "unmaps_of (Dma_map a l # as) = unmaps_of as"
  "statuses_of (Dma_map a l # as) = statuses_of as"
  "maps_of (Dma_unmap a' l' # as) = maps_of as" "unmaps_of (Dma_unmap a' l' # as) = a' # unmaps_of as"
  "statuses_of (Dma_unmap a' l' # as) = statuses_of as"
  "maps_of (Tx_status_ext s # as) = maps_of as" "unmaps_of (Tx_status_ext s # as) = unmaps_of as"
  "statuses_of (Tx_status_ext s # as) = s # statuses_of as"
  by (simp_all add: actions_def map_filter_simps)

lemma unmaps_map [simp]:
  "unmaps_of (map (\<lambda>b. Dma_unmap (qb_addr b) (qb_len b)) bs) = map qb_addr bs"
  "maps_of (map (\<lambda>b. Dma_unmap (qb_addr b) (qb_len b)) bs) = []"
  "statuses_of (map (\<lambda>b. Dma_unmap (qb_addr b) (qb_len b)) bs) = []"
  by (induction bs) simp_all

text \<open>
  What \<open>mt76_dma_tx_queue_skb\<close> relies on of the driver's \<open>tx_prepare_skb\<close>: an error leaves the
  buffers alone, and success leaves between one and the given number of buffers.
\<close>

definition prepare_ok :: "(tx_info \<Rightarrow> errno option \<times> tx_info) \<Rightarrow> bool" where
  "prepare_ok prepare \<longleftrightarrow> (\<forall>ti. case prepare ti of
      (Some e, ti') \<Rightarrow> ti' = ti
    | (None, ti') \<Rightarrow> 0 < ti_nbuf ti' \<and> ti_nbuf ti' \<le> ti_nbuf ti \<and> ti_nbuf ti' \<le> length (ti_buf ti'))"

lemma map_frags_spec:
  assumes "map_frags mp k lens dev bufs = (res, dev')"
  shows "\<exists>new. (case res of Inl b \<Rightarrow> b | Inr b \<Rightarrow> b) = bufs @ new
    \<and> dv_txwi dev' = dv_txwi dev
    \<and> (\<exists>as. dv_log dev' = dv_log dev @ as \<and> maps_of as = map qb_addr new \<and> unmaps_of as = [] \<and> statuses_of as = [])"
  using assms
proof (induction mp k lens dev bufs arbitrary: res dev' rule: map_frags.induct)
  case (1 mp k dev bufs)
  then show ?case by auto
next
  case (2 mp k len lens dev bufs)
  show ?case
  proof (cases "length bufs = 32 \<or> mp k = None")
    case True
    then have "res = Inl bufs" "dev' = dev" using "2.prems" by (auto split: if_splits)
    then show ?thesis by auto
  next
    case False
    then obtain addr where a: "mp k = Some addr" "length bufs \<noteq> 32" by auto
    let ?d = "dv_act dev [Dma_map addr len]"
    have "map_frags mp (k + 1) lens ?d (bufs @ [mk_buf addr len]) = (res, dev')" using "2.prems" a by simp
    from "2.IH" [OF a(2,1) this] obtain new as where
      n: "(case res of Inl b \<Rightarrow> b | Inr b \<Rightarrow> b) = (bufs @ [mk_buf addr len]) @ new" "dv_txwi dev' = dv_txwi ?d"
        "dv_log dev' = dv_log ?d @ as" "maps_of as = map qb_addr new" "unmaps_of as = []" "statuses_of as = []"
      by blast
    show ?thesis
      by (rule exI [of _ "mk_buf addr len # new"])
        (use n in \<open>auto simp: dv_act_def mk_buf_def intro!: exI [of _ "Dma_map addr len # as"]\<close>)
  qed
qed

definition failed_exit :: "dma_dev \<Rightarrow> tx_req \<Rightarrow> dma_dev \<Rightarrow> bool" where
  "failed_exit dev r dev' \<longleftrightarrow> (\<exists>as. dv_log dev' = dv_log dev @ as \<and> unmaps_of as = rev (maps_of as)
     \<and> statuses_of as = [Some (tr_skb r)])
   \<and> (dv_txwi dev' = dv_txwi dev \<or> dv_txwi dev = [] \<and> (\<exists>t. tr_fresh r = Some t \<and> dv_txwi dev' = [t]))"

lemma get_txwi_spec:
  assumes "mt76_get_txwi fresh dev = (x, dev1)"
  shows "dv_log dev1 = dv_log dev"
    and "x = None \<Longrightarrow> dv_txwi dev1 = dv_txwi dev"
    and "x = Some t \<Longrightarrow> dv_txwi dev = t # dv_txwi dev1 \<or> dv_txwi dev = [] \<and> dv_txwi dev1 = [] \<and> fresh = Some t"
  using assms by (auto simp: mt76_get_txwi_def split: list.splits)

lemma failed_unmapI:
  assumes "mt76_get_txwi (tr_fresh r) dev = (Some t, dev1)"
    and "dv_log dev2 = dv_log dev1 @ as" "maps_of as = map qb_addr (tl bs)" "unmaps_of as = []" "statuses_of as = []"
    and "dv_txwi dev2 = dv_txwi dev1" "n = length bs"
  shows "failed_exit dev r (tx_fail_unmap dev2 bs n t (Some (tr_skb r)))"
proof -
  let ?as = "as @ map (\<lambda>b. Dma_unmap (qb_addr b) (qb_len b)) (rev (tl bs)) @ [Tx_status_ext (Some (tr_skb r))]"
  have "dv_log (tx_fail_unmap dev2 bs n t (Some (tr_skb r))) = dv_log dev @ ?as"
    using assms(2,7) get_txwi_spec(1) [OF assms(1)]
    by (simp add: tx_fail_unmap_def tx_fail_free_def tx_fail_skb_def dv_act_def mt76_put_txwi_def)
  moreover have "unmaps_of ?as = rev (maps_of ?as)" "statuses_of ?as = [Some (tr_skb r)]"
    using assms(3-5) by (simp_all add: rev_map)
  moreover have "dv_txwi (tx_fail_unmap dev2 bs n t (Some (tr_skb r))) = t # dv_txwi dev1"
    using assms(6) by (simp add: tx_fail_unmap_def tx_fail_free_def tx_fail_skb_def dv_act_def mt76_put_txwi_def)
  ultimately show ?thesis
    using get_txwi_spec(3) [OF assms(1) refl] unfolding failed_exit_def by auto
qed

lemma failed_plain:
  assumes "mt76_get_txwi (tr_fresh r) dev = (x, dev1)"
  shows "failed_exit dev r (tx_fail_skb dev (Some (tr_skb r)))"
    and "x = None \<Longrightarrow> failed_exit dev r (tx_fail_skb dev1 (Some (tr_skb r)))"
    and "x = Some t \<Longrightarrow> failed_exit dev r (tx_fail_free dev1 t (Some (tr_skb r)))"
  using get_txwi_spec(1,2) [OF assms] get_txwi_spec(3) [OF assms, of t]
  by (auto simp: failed_exit_def tx_fail_skb_def tx_fail_free_def dv_act_def mt76_put_txwi_def
      intro!: exI [of _ "[Tx_status_ext (Some (tr_skb r))]"])

text \<open>The exits of a submission before its frame is mapped.\<close>

lemma tx_queue_early:
  assumes "(res, dev', q') = mt76_dma_tx_queue_skb prepare dev q r"
    and "tr_reset r \<or> fst (mt76_get_txwi (tr_fresh r) dev) = None \<or> tr_map r 0 = None"
  shows "failed_exit dev r dev' \<and> q' = q \<and> res = Inl ENOMEM"
proof -
  obtain x dev1 where g: "mt76_get_txwi (tr_fresh r) dev = (x, dev1)" by fastforce
  show ?thesis
  proof (cases "tr_reset r")
    case True
    then show ?thesis using assms(1) failed_plain(1) [OF g] by (simp add: mt76_dma_tx_queue_skb_def)
  next
    case False
    then show ?thesis
      using assms g failed_plain(2,3) [OF g]
      by (cases x) (simp_all add: mt76_dma_tx_queue_skb_def Let_def)
  qed
qed

text \<open>
  After the first buffer is mapped, the rest of the submission is a choice between one failure, which takes
  everything back, and the hand-over to the driver; \<open>ok\<close> is whether all fragments were mapped.
\<close>

lemma tx_queue_mapped:
  assumes "(res, dev', q') = mt76_dma_tx_queue_skb prepare dev q r"
    and "\<not> (tr_reset r \<or> fst (mt76_get_txwi (tr_fresh r) dev) = None \<or> tr_map r 0 = None)"
  obtains t dev3 bs as ok where
    "failed_exit dev r (tx_fail_unmap dev3 bs (length bs) t (Some (tr_skb r)))"
    "dv_log dev3 = dv_log dev @ as" "unmaps_of as = []" "statuses_of as = []"
    "(res, dev', q') = (if \<not> ok \<or> q_queued q + (length bs + 1) div 2 + 1 \<ge> q_ndesc q
       then (Inl ENOMEM, tx_fail_unmap dev3 bs (length bs) t (Some (tr_skb r)), q)
       else case prepare \<lparr>ti_buf = bs, ti_nbuf = length bs, ti_info = 0, ti_skb = Some (tr_skb r)\<rparr> of
           (Some e, ti) \<Rightarrow> (Inl e, tx_fail_unmap dev3 (ti_buf ti) (length bs) t (ti_skb ti), q)
         | (None, ti) \<Rightarrow> let (idx, q) = mt76_dma_add_buf q (take (ti_nbuf ti) (ti_buf ti)) (ti_info ti) (ti_skb ti) (Some t)
             in (Inr idx, dev3, q))"
proof -
  obtain t dev1 addr where g: "mt76_get_txwi (tr_fresh r) dev = (Some t, dev1)" "tr_map r 0 = Some addr" "\<not> tr_reset r"
    using assms(2) by (metis not_None_eq prod.collapse)
  define len where "len = tr_headlen r + (if tr_aligned4 r \<and> tr_hdrlen r mod 4 \<noteq> 0 then 2 else 0)"
  define dev2 where "dev2 = dv_act dev1 [Dma_map addr len]"
  define b0 where "b0 = mk_buf (tr_txwi_addr r t) (tr_txwi_size r)"
  obtain fr dev3 where m: "map_frags (tr_map r) 1 (tr_frags r) dev2 [b0, mk_buf addr len] = (fr, dev3)" by fastforce
  define bs where "bs = (case fr of Inl b \<Rightarrow> b | Inr b \<Rightarrow> b)"
  obtain new as where sp: "bs = [b0, mk_buf addr len] @ new" "dv_txwi dev3 = dv_txwi dev2"
      "dv_log dev3 = dv_log dev2 @ as" "maps_of as = map qb_addr new" "unmaps_of as = []" "statuses_of as = []"
    using map_frags_spec [OF m] by (auto simp: bs_def)
  have l3: "dv_log dev3 = dv_log dev1 @ (Dma_map addr len # as)" "dv_txwi dev3 = dv_txwi dev1"
    using sp by (simp_all add: dev2_def dv_act_def)
  show thesis
  proof (rule that [of dev3 bs t "Dma_map addr len # as" "\<exists>b. fr = Inr b"])
    show "failed_exit dev r (tx_fail_unmap dev3 bs (length bs) t (Some (tr_skb r)))"
      using g sp l3 by (intro failed_unmapI [of r dev t dev1 dev3 "Dma_map addr len # as"]) (simp_all add: mk_buf_def)
    show "(res, dev', q') = (if \<not> (\<exists>b. fr = Inr b) \<or> q_queued q + (length bs + 1) div 2 + 1 \<ge> q_ndesc q
       then (Inl ENOMEM, tx_fail_unmap dev3 bs (length bs) t (Some (tr_skb r)), q)
       else case prepare \<lparr>ti_buf = bs, ti_nbuf = length bs, ti_info = 0, ti_skb = Some (tr_skb r)\<rparr> of
           (Some e, ti) \<Rightarrow> (Inl e, tx_fail_unmap dev3 (ti_buf ti) (length bs) t (ti_skb ti), q)
         | (None, ti) \<Rightarrow> let (idx, q) = mt76_dma_add_buf q (take (ti_nbuf ti) (ti_buf ti)) (ti_info ti) (ti_skb ti) (Some t)
             in (Inr idx, dev3, q))"
      using assms(1) g m unfolding bs_def
      by (cases fr; hypsubst; unfold sum.case; simp add: mt76_dma_tx_queue_skb_def Let_def len_def dev2_def b0_def)
  qed (use sp l3 get_txwi_spec(1) [OF g(1)] in simp_all)
qed

text \<open>What the driver prepared of the frame fits behind the frames of the ring.\<close>

lemma tx_queued_ring:
  assumes "tx_inv q" "prepare_ok prepare" "prepare \<lparr>ti_buf = bs, ti_nbuf = length bs, ti_info = 0, ti_skb = s\<rparr> = (None, ti)"
    and "q_queued q + (length bs + 1) div 2 + 1 < q_ndesc q"
    and "(idx, q') = mt76_dma_add_buf q (take (ti_nbuf ti) (ti_buf ti)) (ti_info ti) (ti_skb ti) t"
  shows "tx_inv q' \<and> ring q' = ring q @ tx_frame (take (ti_nbuf ti) (ti_buf ti)) (ti_info ti) (ti_skb ti) t
    \<and> q_queued q' + 1 < q_ndesc q'"
proof -
  let ?bufs = "take (ti_nbuf ti) (ti_buf ti)"
  have n: "0 < ti_nbuf ti" "ti_nbuf ti \<le> length bs" "ti_nbuf ti \<le> length (ti_buf ti)"
    using assms(2) [unfolded prepare_ok_def, rule_format,
        of "\<lparr>ti_buf = bs, ti_nbuf = length bs, ti_info = 0, ti_skb = s\<rparr>"] assms(3) by simp_all
  then have L: "?bufs \<noteq> []" "(length ?bufs + 1) div 2 \<le> (length bs + 1) div 2" by (auto simp: div_le_mono)
  then have "q_queued q + (length ?bufs + 1) div 2 \<le> q_ndesc q" using assms(4) by linarith
  then show ?thesis using add_buf_ring [OF assms(1) L(1) _ assms(5)] L(2) assms(4) by simp
qed

text \<open>
  C10: \<open>mt76_dma_tx_queue_skb\<close> on a ring in its invariant either queues the frame (the ring grows
  by the entries for what the driver prepared of the frame, its invariant holds, nothing was unmapped and no status reported), or
  returns an error with the queue unchanged, every buffer it mapped unmapped again exactly once,
  the frame reported once, and the transmit descriptor back in the cache.
\<close>

theorem tx_queue_skb_exits:
  assumes "tx_inv q" "prepare_ok prepare"
    and "(res, dev', q') = mt76_dma_tx_queue_skb prepare dev q r"
  shows "case res of
      Inl e \<Rightarrow> q' = q \<and> failed_exit dev r dev'
    | Inr idx \<Rightarrow> tx_inv q' \<and> (\<exists>ti0 ti t. prepare ti0 = (None, ti) \<and> ti_skb ti0 = Some (tr_skb r)
            \<and> ring q' = ring q @ tx_frame (take (ti_nbuf ti) (ti_buf ti)) (ti_info ti) (ti_skb ti) (Some t))
        \<and> q_queued q' + 1 < q_ndesc q'
        \<and> (\<exists>as. dv_log dev' = dv_log dev @ as \<and> unmaps_of as = [] \<and> statuses_of as = [])"
proof (cases "tr_reset r \<or> fst (mt76_get_txwi (tr_fresh r) dev) = None \<or> tr_map r 0 = None")
  case True
  then show ?thesis using tx_queue_early [OF assms(3)] by simp
next
  case False
  obtain t dev3 bs as ok where
    fail: "failed_exit dev r (tx_fail_unmap dev3 bs (length bs) t (Some (tr_skb r)))"
    and log: "dv_log dev3 = dv_log dev @ as" "unmaps_of as = []" "statuses_of as = []"
    and run: "(res, dev', q') = (if \<not> ok \<or> q_queued q + (length bs + 1) div 2 + 1 \<ge> q_ndesc q
       then (Inl ENOMEM, tx_fail_unmap dev3 bs (length bs) t (Some (tr_skb r)), q)
       else case prepare \<lparr>ti_buf = bs, ti_nbuf = length bs, ti_info = 0, ti_skb = Some (tr_skb r)\<rparr> of
           (Some e, ti) \<Rightarrow> (Inl e, tx_fail_unmap dev3 (ti_buf ti) (length bs) t (ti_skb ti), q)
         | (None, ti) \<Rightarrow> let (idx, q) = mt76_dma_add_buf q (take (ti_nbuf ti) (ti_buf ti)) (ti_info ti) (ti_skb ti) (Some t)
             in (Inr idx, dev3, q))"
    using tx_queue_mapped [OF assms(3) False] .
  let ?ti = "\<lparr>ti_buf = bs, ti_nbuf = length bs, ti_info = 0, ti_skb = Some (tr_skb r)\<rparr>"
  obtain pe ti where p: "prepare ?ti = (pe, ti)" by fastforce
  consider "\<not> ok \<or> q_queued q + (length bs + 1) div 2 + 1 \<ge> q_ndesc q"
    | e where "ok" "q_queued q + (length bs + 1) div 2 + 1 < q_ndesc q" "pe = Some e"
    | "ok" "q_queued q + (length bs + 1) div 2 + 1 < q_ndesc q" "pe = None"
    by (metis not_le option.exhaust)
  then show ?thesis
  proof cases
    case 1
    then show ?thesis using run fail by simp
  next
    case 2
    moreover have "ti = ?ti" using assms(2) [unfolded prepare_ok_def, rule_format, of ?ti] p 2 by simp
    ultimately show ?thesis using run fail p by simp
  next
    case 3
    define a where "a = mt76_dma_add_buf q (take (ti_nbuf ti) (ti_buf ti)) (ti_info ti) (ti_skb ti) (Some t)"
    have r: "res = Inr (fst a)" "dev' = dev3" "q' = snd a" using run p 3 by (simp_all add: case_prod_beta a_def)
    then have "(fst a, q') = mt76_dma_add_buf q (take (ti_nbuf ti) (ti_buf ti)) (ti_info ti) (ti_skb ti) (Some t)"
      by (simp add: a_def)
    note tx_queued_ring [OF assms(1,2) _ 3(2) this]
    moreover have "prepare ?ti = (None, ti)" "ti_skb ?ti = Some (tr_skb r)" using p 3 by simp_all
    ultimately show ?thesis using log unfolding r sum.case by blast
  qed
qed

section \<open>Witnesses\<close>

definition demo_queue :: dma_queue where
  "demo_queue = \<lparr>q_entry = replicate 4 zero_entry, q_desc = replicate 4 \<lparr>d_buf0 = 0, d_ctrl = 0, d_buf1 = 0, d_info = 0\<rparr>,
     q_rro_data1 = [], q_head = 0, q_tail = 0, q_ndesc = 4, q_queued = 0, q_buf_size = 2048, q_buf_offset = 0,
     q_stopped = False, q_blocked = False, q_flags = 0, q_magic_cnt = 0, q_emi_cpu_idx = 0, q_desc_dma = 0,
     q_reg_desc_base = 0, q_reg_ring_size = 4, q_reg_cpu_idx = 0, q_reg_dma_idx = 0\<rparr>"

lemma demo_queue_inv: "tx_inv demo_queue"
  by (auto simp: tx_inv_def ring_ok_def free_zero_def demo_queue_def nth_replicate)

definition demo_bufs :: "queue_buf list" where
  "demo_bufs = [mk_buf 0x1000 64, mk_buf 0x2000 100]"

theorem add_buf_appends_frame_witness:
  "ring (snd (mt76_dma_add_buf demo_queue demo_bufs 0 (Some 5) (Some 9))) = tx_frame demo_bufs 0 (Some 5) (Some 9)"
proof -
  have "q_queued demo_queue = 0" "q_ndesc demo_queue = 4" by (simp_all add: demo_queue_def)
  moreover from this have "ring demo_queue = []" by simp
  ultimately show ?thesis
    using add_buf_appends_frame [OF demo_queue_inv, of demo_bufs _ _ 0 "Some 5" "Some 9", OF _ _ prod.collapse]
    by (simp add: demo_bufs_def)
qed

theorem descriptors_decode_witness:
  "concat (map (\<lambda>p. desc_bufs (snd p)) (tx_frame demo_bufs 0 (Some 5) (Some 9))) = [(0x1000, 64), (0x2000, 100)]"
proof -
  have "qb_addr (mk_buf a l) = a" "qb_len (mk_buf a l) = of_nat l AND 0x7FFF" for a l by (simp_all add: mk_buf_def)
  then show ?thesis
    using descriptors_decode [of demo_bufs 0 0 "Some 5" "Some 9"] by (simp add: demo_bufs_def)
qed

definition demo_dev :: dma_dev where
  "demo_dev = \<lparr>dv_txwi = [], dv_log = []\<rparr>"

definition demo_sent :: dma_queue where
  "demo_sent = snd (mt76_dma_add_buf demo_queue demo_bufs 0 (Some 5) (Some 9))"

lemma demo_sent_ring: "ring demo_sent = tx_frame demo_bufs 0 (Some 5) (Some 9)" "tx_inv demo_sent"
  "q_queued demo_sent = 1" "q_tail demo_sent = 0" "q_ndesc demo_sent = 4"
proof -
  have q: "q_queued demo_queue = 0" "q_ndesc demo_queue = 4" "q_tail demo_queue = 0" by (simp_all add: demo_queue_def)
  then have "ring demo_queue = []" by simp
  have ne: "demo_bufs \<noteq> []" and two: "(length demo_bufs + 1) div 2 = 1" by (simp_all add: demo_bufs_def)
  have room: "q_queued demo_queue + (length demo_bufs + 1) div 2 \<le> q_ndesc demo_queue" using q two by simp
  have "(fst (mt76_dma_add_buf demo_queue demo_bufs 0 (Some 5) (Some 9)), demo_sent)
      = mt76_dma_add_buf demo_queue demo_bufs 0 (Some 5) (Some 9)"
    by (simp only: demo_sent_def prod.collapse)
  note A = add_buf_ring [OF demo_queue_inv ne room this]
  show "ring demo_sent = tx_frame demo_bufs 0 (Some 5) (Some 9)" "tx_inv demo_sent"
    "q_queued demo_sent = 1" "q_tail demo_sent = 0" "q_ndesc demo_sent = 4"
    using A q two \<open>ring demo_queue = []\<close> by simp_all
qed

theorem tx_cleanup_in_order_witness:
  "dv_log (fst (mt76_dma_tx_cleanup True (\<lambda>n. 1) demo_dev demo_sent True))
     = cleanup_actions (fst (hd (ring demo_sent))) @ [Wake_tx_wait]"
proof -
  obtain p where p: "ring demo_sent = [p]" using demo_sent_ring(3) ring_length [of demo_sent] by (metis One_nat_def length_0_conv length_Suc_conv)
  have "dv_log demo_dev = []" by (simp add: demo_dev_def)
  then show ?thesis
    using tx_cleanup_in_order [OF demo_sent_ring(2) prod.collapse, of True "\<lambda>n. 1" demo_dev True 0] demo_sent_ring(3) p
    by auto
qed

definition demo_prepare :: "tx_info \<Rightarrow> errno option \<times> tx_info" where
  "demo_prepare ti = (if ti_nbuf ti = 0 \<or> length (ti_buf ti) < ti_nbuf ti then (Some EINVAL, ti) else (None, ti))"

definition demo_req :: tx_req where
  "demo_req = \<lparr>tr_reset = False, tr_skb = 5, tr_headlen = 100, tr_hdrlen = 24, tr_frags = [60], tr_aligned4 = False,
     tr_fresh = Some 9, tr_txwi_addr = (\<lambda>t. 0x1000), tr_txwi_size = 64,
     tr_map = (\<lambda>k. if k = 0 then Some 0x2000 else None)\<rparr>"

theorem tx_queue_skb_exits_witness:
  "fst (mt76_dma_tx_queue_skb demo_prepare demo_dev demo_queue demo_req) = Inl ENOMEM
   \<and> failed_exit demo_dev demo_req (fst (snd (mt76_dma_tx_queue_skb demo_prepare demo_dev demo_queue demo_req)))"
proof -
  let ?r = "mt76_dma_tx_queue_skb demo_prepare demo_dev demo_queue demo_req"
  have "fst ?r = Inl ENOMEM"
    by (simp add: mt76_dma_tx_queue_skb_def demo_req_def mt76_get_txwi_def demo_dev_def Let_def)
  moreover have "prepare_ok demo_prepare" by (simp add: prepare_ok_def demo_prepare_def)
  moreover have "(fst ?r, fst (snd ?r), snd (snd ?r)) = ?r" by (simp only: prod.collapse)
  ultimately show ?thesis
    using tx_queue_skb_exits [OF demo_queue_inv] by fastforce
qed

end
