(* ===== verification/Tokens.thy ===== *)
theory Tokens
  imports Mt76Prelude
begin

text \<open>
  Token accounting, src/src/mt76/tx.c, and the handler of a TX-free event,
  \<open>mt7921_mac_tx_free\<close> of src/src/mt76/mt7921/mac.c. A token stands for a transmit descriptor
  that the firmware holds. \<open>'t\<close> is the type of \<open>struct mt76_txwi_cache\<close> pointers; an \<open>idr\<close> is a
  map from numbers to pointers. The kernel's \<open>idr_alloc\<close> is the parameter \<open>alloc\<close> of the
  definitions; \<open>idr_ok\<close> states its documented contract: what it returns is an unused number of
  the range. The lemmas show that tokens are counted exactly, that the transmit queues are
  blocked exactly while tokens are scarce, and what a TX-free event releases.
\<close>

type_synonym 't idr = "nat \<rightharpoonup> 't"
type_synonym 't idr_alloc = "'t idr \<Rightarrow> nat \<Rightarrow> nat \<Rightarrow> nat option"

definition idr_ok :: "'t idr_alloc \<Rightarrow> bool" where
  "idr_ok alloc \<longleftrightarrow> (\<forall>m lo hi n. alloc m lo hi = Some n \<longrightarrow> lo \<le> n \<and> n < hi \<and> m n = None)"

text \<open>The least unused number: an instance of the contract, for the witnesses.\<close>

definition idr_first :: "'t idr_alloc" where
  "idr_first m lo hi = List.find (\<lambda>n. case m n of None \<Rightarrow> True | Some t \<Rightarrow> False) [lo..<hi]"

lemma idr_first_ok: "idr_ok idr_first"
  by (auto simp: idr_ok_def idr_first_def find_Some_iff split: option.splits)

section \<open>State and operations\<close>

text \<open>
  The token fields of \<open>struct mt76_dev\<close>, the \<open>blocked\<close> flag of the first transmit queue of each
  radio (\<open>None\<close> for a radio that does not exist), and counters of the wake-ups issued.
\<close>

record 't token_dev =
  td_token :: "'t idr"
  td_count :: u16
  td_start :: u16
  td_size :: u16
  td_wed_active :: bool
  td_wed_start :: nat
  td_wed_count :: u16
  td_rx_token :: "'t idr"
  td_rx_size :: u16
  td_blocked :: bool
  td_band1 :: "bool option"
  td_band2 :: "bool option"
  td_worker_scheduled :: nat
  td_tx_wait_wakeups :: nat

definition MT76_TOKEN_FREE_THR :: int where
  "MT76_TOKEN_FREE_THR = 64"

definition set_tx_blocked :: "'t token_dev \<Rightarrow> bool \<Rightarrow> 't token_dev" where
  "set_tx_blocked dev b =
     (if b = td_blocked dev then dev
      else let dev = dev\<lparr>td_blocked := b,
                 td_band1 := map_option (\<lambda>_. b) (td_band1 dev),
                 td_band2 := map_option (\<lambda>_. b) (td_band2 dev)\<rparr>
           in if b then dev else dev\<lparr>td_worker_scheduled := td_worker_scheduled dev + 1\<rparr>)"

definition tokens_scarce :: "'t token_dev \<Rightarrow> bool" where
  "tokens_scarce dev \<longleftrightarrow> uint (td_count dev) \<ge> uint (td_size dev) - MT76_TOKEN_FREE_THR"

definition mt76_token_consume :: "'t idr_alloc \<Rightarrow> 't token_dev \<Rightarrow> 't \<Rightarrow> nat option \<times> 't token_dev" where
  "mt76_token_consume alloc dev t =
     (let start = unat (td_start dev);
          token = alloc (td_token dev) start (start + unat (td_size dev));
          dev = (case token of
              None \<Rightarrow> dev
            | Some n \<Rightarrow>
                let dev = dev\<lparr>td_token := (td_token dev)(n \<mapsto> t)\<rparr>;
                    dev = (if n \<ge> start then dev\<lparr>td_count := td_count dev + 1\<rparr> else dev)
                in if td_wed_active dev \<and> n \<ge> td_wed_start dev
                   then dev\<lparr>td_wed_count := td_wed_count dev + 1\<rparr> else dev);
          dev = (if tokens_scarce dev then set_tx_blocked dev True else dev)
      in (token, dev))"

text \<open>The result holds the removed entry and whether \<open>*wake\<close> was set.\<close>

definition mt76_token_release :: "'t token_dev \<Rightarrow> nat \<Rightarrow> 't option \<times> bool \<times> 't token_dev" where
  "mt76_token_release dev token =
     (let txwi = td_token dev token;
          dev = dev\<lparr>td_token := (td_token dev)(token := None)\<rparr>;
          dev = (case txwi of
              None \<Rightarrow> dev
            | Some t \<Rightarrow>
                let dev = dev\<lparr>td_count := td_count dev - 1\<rparr>
                in if td_wed_active dev \<and> token \<ge> td_wed_start dev
                   then let dev = dev\<lparr>td_wed_count := td_wed_count dev - 1\<rparr>
                        in if td_wed_count dev = 0
                           then dev\<lparr>td_tx_wait_wakeups := td_tx_wait_wakeups dev + 1\<rparr> else dev
                   else dev)
      in (txwi, \<not> tokens_scarce dev \<and> td_blocked dev, dev))"

text \<open>
  The receive tokens. The entry is stored with the buffer and its address in it; \<open>upd\<close> is that
  update of \<open>t->ptr\<close> and \<open>t->dma_addr\<close>.
\<close>

definition mt76_rx_token_consume ::
  "'t idr_alloc \<Rightarrow> ('t \<Rightarrow> 't) \<Rightarrow> 't token_dev \<Rightarrow> 't \<Rightarrow> nat option \<times> 't token_dev" where
  "mt76_rx_token_consume alloc upd dev t =
     (case alloc (td_rx_token dev) 0 (unat (td_rx_size dev)) of
        None \<Rightarrow> (None, dev)
      | Some n \<Rightarrow> (Some n, dev\<lparr>td_rx_token := (td_rx_token dev)(n \<mapsto> upd t)\<rparr>))"

definition mt76_rx_token_release :: "'t token_dev \<Rightarrow> nat \<Rightarrow> 't option \<times> 't token_dev" where
  "mt76_rx_token_release dev token =
     (td_rx_token dev token, dev\<lparr>td_rx_token := (td_rx_token dev)(token := None)\<rparr>)"

section \<open>The TX-free event\<close>

text \<open>
  What the handler reads and writes of a client: whether it belongs to a station, whether it
  is on the poll list, and two counters.
\<close>

record tf_wcid =
  tw_sta :: bool
  tw_on_poll_list :: bool
  tw_tx_retries :: u32
  tw_tx_failed :: u32

datatype 't tf_action =
    Queue_cleanup_psd
  | Queue_cleanup_be
  | Txwi_free 't "nat option"
  | Consume_free_list
  | Sta_poll
  | Schedule_worker

record 't tf_state =
  tf_dev :: "'t token_dev"
  tf_wcids :: "nat \<rightharpoonup> tf_wcid"
  tf_mcu_reset :: bool
  tf_log :: "'t tf_action list"

definition TF_FREE_PAIR :: u32 where "TF_FREE_PAIR = BIT 31"

definition tf_wlan_id :: "u32 \<Rightarrow> nat" where "tf_wlan_id info = unat (FIELD_GET 23 14 info)"
definition tf_msdu_id :: "u32 \<Rightarrow> nat" where "tf_msdu_id info = unat (FIELD_GET 30 16 info)"
definition tf_is_pair :: "u32 \<Rightarrow> bool" where "tf_is_pair info \<longleftrightarrow> info AND TF_FREE_PAIR \<noteq> 0"

definition mt76_wcid_add_poll :: "'t tf_state \<Rightarrow> nat \<Rightarrow> 't tf_state" where
  "mt76_wcid_add_poll st idx =
     (case tf_wcids st idx of
        None \<Rightarrow> st
      | Some w \<Rightarrow>
          if tf_mcu_reset st \<or> \<not> tw_sta w then st
          else st\<lparr>tf_wcids := (tf_wcids st)(idx \<mapsto> w\<lparr>tw_on_poll_list := True\<rparr>)\<rparr>)"

text \<open>A word with the pair bit: the client of the following words.\<close>

definition tf_pair :: "'t tf_state \<Rightarrow> u32 \<Rightarrow> 't tf_state \<times> nat option \<times> nat option" where
  "tf_pair st info =
     (let idx = tf_wlan_id info
      in case tf_wcids st idx of
           None \<Rightarrow> (st, None, None)
         | Some w \<Rightarrow> if tw_sta w then (mt76_wcid_add_poll st idx, Some idx, Some idx) else (st, Some idx, None))"

text \<open>Any other word: a frame the firmware is done with.\<close>

definition tf_stats :: "'t tf_state \<Rightarrow> nat option \<Rightarrow> u32 \<Rightarrow> 't tf_state" where
  "tf_stats st wcid info =
     (case wcid of
        None \<Rightarrow> st
      | Some idx \<Rightarrow>
          (case tf_wcids st idx of
             None \<Rightarrow> st
           | Some w \<Rightarrow> st\<lparr>tf_wcids := (tf_wcids st)(idx \<mapsto> w\<lparr>
                 tw_tx_retries := tw_tx_retries w + (FIELD_GET 12 0 info - 1),
                 tw_tx_failed := tw_tx_failed w + (if FIELD_GET 14 13 info \<noteq> 0 then 1 else 0)\<rparr>)\<rparr>))"

definition tf_msdu :: "'t tf_state \<Rightarrow> nat option \<Rightarrow> nat option \<Rightarrow> u32 \<Rightarrow> 't tf_state \<times> bool" where
  "tf_msdu st wcid sta info =
     (let st = tf_stats st wcid info;
          (txwi, wake, dev) = mt76_token_release (tf_dev st) (tf_msdu_id info);
          st = st\<lparr>tf_dev := dev\<rparr>
      in (case txwi of
            None \<Rightarrow> (st, wake)
          | Some t \<Rightarrow> (st\<lparr>tf_log := tf_log st @ [Txwi_free t sta]\<rparr>, wake)))"

lemma u8_bound: "unat (x :: u8) < 256"
  using unsigned_less [of x] by simp

lemma u8_inc: "i < count \<Longrightarrow> unat (i + 1) = unat i + 1" for i count :: u8
  using u8_bound [of count] by (simp add: word_less_nat_alt unat_word_ariths)

lemma u8_inc_or_wrap: "count + 1 = (0 :: u8) \<or> unat (count + 1) = unat count + 1"
  using u8_bound [of count] by (auto simp: unat_word_ariths mod_Suc unat_eq_0 [symmetric])

definition tf_left :: "u8 \<Rightarrow> u8 \<Rightarrow> nat" where
  "tf_left i count =
     (if i < count then Suc ((256 - unat count) * 256 + (unat count - unat i)) else 0)"

lemma tf_left_msdu: "i < count \<Longrightarrow> tf_left (i + 1) count < tf_left i count"
  using u8_inc [of i count] by (auto simp: tf_left_def word_less_nat_alt)

lemma tf_left_pair:
  assumes "i < count"
  shows "tf_left (i + 1) (count + 1) < tf_left i count"
proof (cases "count + 1 = 0")
  case True
  then show ?thesis using assms by (simp add: tf_left_def word_less_nat_alt)
next
  case False
  then show ?thesis
    using u8_inc [OF assms] u8_inc_or_wrap [of count] u8_bound [of count] assms
    by (auto simp: tf_left_def word_less_nat_alt)
qed

text \<open>
  The loop, with \<open>u8 i, count\<close>. \<open>tx_info\<close> is the memory from the first word of the event on,
  beyond its end too; the last component of the result lists the indices that were read.
\<close>

function tx_free_loop ::
  "(nat \<Rightarrow> u32) \<Rightarrow> 't tf_state \<Rightarrow> nat option \<Rightarrow> nat option \<Rightarrow> bool \<Rightarrow> u8 \<Rightarrow> u8 \<Rightarrow> 't tf_state \<times> bool \<times> nat list" where
  "tx_free_loop tx_info st wcid sta wake i count =
     (if \<not> i < count then (st, wake, [])
      else let info = tx_info (unat i)
           in if tf_is_pair info
              then let (st, wcid, sta) = tf_pair st info;
                       (st, wake, reads) = tx_free_loop tx_info st wcid sta wake (i + 1) (count + 1)
                   in (st, wake, unat i # reads)
              else let (st, w) = tf_msdu st wcid sta info;
                       (st, wake, reads) = tx_free_loop tx_info st wcid sta (wake \<or> w) (i + 1) count
                   in (st, wake, unat i # reads))"
  by pat_completeness auto
termination
  by (relation "measure (\<lambda>(tx_info, st, wcid, sta, wake, i, count). tf_left i count)")
    (simp_all add: tf_left_msdu tf_left_pair)

declare tx_free_loop.simps [simp del]

text \<open>
  The handler. \<open>len\<close> is the length of the event in bytes, 8 of which are its header. The last
  component of the result lists the words that were read after the length check.
\<close>

definition mt7921_mac_tx_free :: "u16 \<Rightarrow> (nat \<Rightarrow> u32) \<Rightarrow> nat \<Rightarrow> 't tf_state \<Rightarrow> 't tf_state \<times> nat list" where
  "mt7921_mac_tx_free ctrl tx_info len st =
     (let st = st\<lparr>tf_log := tf_log st @ [Queue_cleanup_psd, Queue_cleanup_be]\<rparr>;
          count = (ucast (FIELD_GET 9 0 ctrl) :: u8)
      in if 8 + 4 * unat count > len then (st, [])
         else let (st, wake, reads) = tx_free_loop tx_info st None None False 0 count;
                  st = (if wake then st\<lparr>tf_dev := set_tx_blocked (tf_dev st) False\<rparr> else st);
                  st = st\<lparr>tf_log := tf_log st @ [Consume_free_list, Sta_poll, Schedule_worker],
                          tf_dev := (tf_dev st)\<lparr>td_worker_scheduled := td_worker_scheduled (tf_dev st) + 1\<rparr>\<rparr>
              in (st, reads))"

section \<open>Tokens are counted and queues do not stay blocked\<close>

definition tok_count_ok :: "'t token_dev \<Rightarrow> bool" where
  "tok_count_ok dev \<longleftrightarrow> finite (dom (td_token dev))
     \<and> dom (td_token dev) \<subseteq> {unat (td_start dev)..<unat (td_start dev) + unat (td_size dev)}
     \<and> unat (td_count dev) = card (dom (td_token dev))"

lemma tok_count_room:
  assumes "tok_count_ok dev" "n \<notin> dom (td_token dev)" "unat (td_start dev) \<le> n"
    "n < unat (td_start dev) + unat (td_size dev)"
  shows "unat (td_count dev) < unat (td_size dev)"
proof -
  let ?S = "{unat (td_start dev)..<unat (td_start dev) + unat (td_size dev)}"
  have "dom (td_token dev) \<subset> ?S" using assms by (auto simp: tok_count_ok_def)
  then have "card (dom (td_token dev)) < card ?S" by (intro psubset_card_mono) auto
  then show ?thesis using assms(1) by (simp add: tok_count_ok_def)
qed

lemma u16_bound: "unat (d :: u16) < 65536"
  using unsigned_less [of d] by simp

lemma unat_u16_inc: "unat c < unat (d :: u16) \<Longrightarrow> unat (c + 1 :: u16) = unat c + 1"
  using u16_bound [of d] by (simp add: unat_word_ariths)

lemma unat_u16_dec: "0 < unat (c :: u16) \<Longrightarrow> unat (c - 1) = unat c - 1"
  by (simp add: unat_sub_if' Suc_leI)

lemma set_tx_blocked_sel [simp]:
  "td_token (set_tx_blocked dev b) = td_token dev" "td_count (set_tx_blocked dev b) = td_count dev"
  "td_start (set_tx_blocked dev b) = td_start dev" "td_size (set_tx_blocked dev b) = td_size dev"
  "td_blocked (set_tx_blocked dev b) = b" "td_rx_token (set_tx_blocked dev b) = td_rx_token dev"
  "tokens_scarce (set_tx_blocked dev b) = tokens_scarce dev"
  by (auto simp: set_tx_blocked_def Let_def tokens_scarce_def)

lemma token_consume_spec:
  assumes "idr_ok alloc" "tok_count_ok dev"
  shows "tok_count_ok (snd (mt76_token_consume alloc dev t))"
    and "td_start (snd (mt76_token_consume alloc dev t)) = td_start dev"
    and "td_size (snd (mt76_token_consume alloc dev t)) = td_size dev"
    and "case fst (mt76_token_consume alloc dev t) of
           None \<Rightarrow> td_token (snd (mt76_token_consume alloc dev t)) = td_token dev
                 \<and> td_count (snd (mt76_token_consume alloc dev t)) = td_count dev
         | Some n \<Rightarrow> td_token dev n = None
                 \<and> td_token (snd (mt76_token_consume alloc dev t)) = (td_token dev)(n \<mapsto> t)
                 \<and> unat (td_count (snd (mt76_token_consume alloc dev t))) = unat (td_count dev) + 1"
    and "td_blocked (snd (mt76_token_consume alloc dev t)) \<longleftrightarrow>
           tokens_scarce (snd (mt76_token_consume alloc dev t)) \<or> td_blocked dev"
proof -
  let ?a = "alloc (td_token dev) (unat (td_start dev)) (unat (td_start dev) + unat (td_size dev))"
  let ?r = "mt76_token_consume alloc dev t"
  show "td_start (snd ?r) = td_start dev" "td_size (snd ?r) = td_size dev"
    "td_blocked (snd ?r) \<longleftrightarrow> tokens_scarce (snd ?r) \<or> td_blocked dev"
    by (auto simp: mt76_token_consume_def Let_def tokens_scarce_def split: option.splits)
  have inc: "unat (td_start dev) \<le> n \<and> td_token dev n = None \<and> n < unat (td_start dev) + unat (td_size dev)
      \<and> unat (td_count dev + 1) = unat (td_count dev) + 1" if "?a = Some n" for n
    using that assms(1) tok_count_room [OF assms(2), of n] unat_u16_inc [of "td_count dev" "td_size dev"]
    by (auto simp: idr_ok_def domIff)
  then show "case fst ?r of None \<Rightarrow> td_token (snd ?r) = td_token dev \<and> td_count (snd ?r) = td_count dev
     | Some n \<Rightarrow> td_token dev n = None \<and> td_token (snd ?r) = (td_token dev)(n \<mapsto> t)
         \<and> unat (td_count (snd ?r)) = unat (td_count dev) + 1"
    by (auto simp: mt76_token_consume_def Let_def split: option.splits)
  show "tok_count_ok (snd ?r)"
    using inc assms(2)
    by (auto simp: mt76_token_consume_def Let_def tok_count_ok_def card_insert_disjoint domIff split: option.splits)
qed

lemma token_release_spec:
  assumes "tok_count_ok dev"
  shows "tok_count_ok (snd (snd (mt76_token_release dev n)))"
    and "td_start (snd (snd (mt76_token_release dev n))) = td_start dev"
    and "td_size (snd (snd (mt76_token_release dev n))) = td_size dev"
    and "td_blocked (snd (snd (mt76_token_release dev n))) = td_blocked dev"
    and "td_token (snd (snd (mt76_token_release dev n))) = (td_token dev)(n := None)"
    and "fst (mt76_token_release dev n) = td_token dev n"
    and "unat (td_count (snd (snd (mt76_token_release dev n))))
          = (if td_token dev n = None then unat (td_count dev) else unat (td_count dev) - 1)"
    and "fst (snd (mt76_token_release dev n)) \<longleftrightarrow>
           \<not> tokens_scarce (snd (snd (mt76_token_release dev n))) \<and> td_blocked dev"
proof -
  let ?r = "mt76_token_release dev n"
  show "td_start (snd (snd ?r)) = td_start dev" "td_size (snd (snd ?r)) = td_size dev"
    "td_blocked (snd (snd ?r)) = td_blocked dev" "td_token (snd (snd ?r)) = (td_token dev)(n := None)"
    "fst ?r = td_token dev n"
    "fst (snd ?r) \<longleftrightarrow> \<not> tokens_scarce (snd (snd ?r)) \<and> td_blocked dev"
    by (auto simp: mt76_token_release_def Let_def split: option.splits)
  have dec: "unat (td_count dev - 1) = unat (td_count dev) - 1" if "td_token dev n = Some t" for t
  proof -
    have "0 < card (dom (td_token dev))" using assms that by (auto simp: tok_count_ok_def card_gt_0_iff)
    then show ?thesis using assms unat_u16_dec by (simp add: tok_count_ok_def)
  qed
  then show "unat (td_count (snd (snd ?r))) = (if td_token dev n = None then unat (td_count dev) else unat (td_count dev) - 1)"
    by (auto simp: mt76_token_release_def Let_def split: option.splits)
  show "tok_count_ok (snd (snd ?r))"
    using dec assms
    by (auto simp: mt76_token_release_def Let_def tok_count_ok_def card_Diff_singleton domI domIff
        split: option.splits if_splits)
qed

text \<open>
  The tokens as a machine: transmitters consume, the TX-free handler releases and, at the end,
  lifts the block when one of its releases asked for it. The second component of a state is
  whether that is still to come.
\<close>

definition tok_init :: "'t token_dev \<times> bool \<Rightarrow> bool" where
  "tok_init s \<longleftrightarrow> td_token (fst s) = Map.empty \<and> td_count (fst s) = 0 \<and> \<not> td_blocked (fst s)"

inductive tok_step :: "'t idr_alloc \<Rightarrow> 't token_dev \<times> bool \<Rightarrow> 't token_dev \<times> bool \<Rightarrow> bool" for alloc where
  consume: "tok_step alloc (dev, w) (snd (mt76_token_consume alloc dev t), w)"
| release: "tok_step alloc (dev, w)
    (snd (snd (mt76_token_release dev n)), w \<or> fst (snd (mt76_token_release dev n)))"
| unblock: "tok_step alloc (dev, True) (set_tx_blocked dev False, False)"

definition tok_inv :: "'t idr_alloc \<Rightarrow> 't token_dev \<times> bool \<Rightarrow> bool" where
  "tok_inv alloc s \<longleftrightarrow> (idr_ok alloc \<longrightarrow>
     tok_count_ok (fst s) \<and> (td_blocked (fst s) \<longrightarrow> tokens_scarce (fst s) \<or> snd s))"

lemma tok_consume_scarce:
  assumes "idr_ok alloc" "tok_count_ok dev" "tokens_scarce dev"
  shows "tokens_scarce (snd (mt76_token_consume alloc dev t))"
proof -
  let ?d = "snd (mt76_token_consume alloc dev t)"
  have "uint (td_count dev) \<le> uint (td_count ?d)"
    using token_consume_spec(4) [OF assms(1,2), of t]
    by (auto simp: word_le_def [symmetric] word_le_nat_alt split: option.splits)
  moreover have "td_size ?d = td_size dev" using token_consume_spec(3) [OF assms(1,2)] .
  ultimately show ?thesis using assms(3) by (simp add: tokens_scarce_def)
qed

interpretation tok: state_machine tok_init "tok_step alloc" "tok_inv alloc" for alloc
proof unfold_locales
  show "tok_inv alloc s" if "tok_init s" for s
    using that by (simp add: tok_init_def tok_inv_def tok_count_ok_def)
  show "tok_inv alloc t" if "tok_inv alloc s" "tok_step alloc s t" for s t
    using that(2,1)
  proof (cases rule: tok_step.cases)
    case (consume dev w a)
    then show ?thesis
      using that(1) token_consume_spec(1,5) [of alloc dev a] tok_consume_scarce [of alloc dev a]
      by (auto simp: tok_inv_def)
  next
    case (release dev w n)
    then show ?thesis
      using that(1) token_release_spec(1,4,8) [of dev n] by (auto simp: tok_inv_def)
  next
    case (unblock dev)
    then show ?thesis using that(1) by (auto simp: tok_inv_def tok_count_ok_def)
  qed
qed

text \<open>
  C6: In every state reachable by consuming and releasing tokens and by lifting the block, in
  any order, \<open>token_count\<close> is the number of tokens in use, all of them in the configured
  range, and the transmit queues are blocked only while tokens are scarce or while the handler
  that will unblock them is still running: they never stay blocked for lack of an unblock.
\<close>

theorem token_accounting:
  assumes "idr_ok alloc" "reachable tok_init (tok_step alloc) (dev, w)"
  shows "unat (td_count dev) = card (dom (td_token dev))
    \<and> dom (td_token dev) \<subseteq> {unat (td_start dev)..<unat (td_start dev) + unat (td_size dev)}
    \<and> (td_blocked dev \<longrightarrow> tokens_scarce dev \<or> w)"
  using tok.reachable_inv [OF assms(2)] assms(1) by (auto simp: tok_inv_def tok_count_ok_def)

definition demo_tokens :: "nat token_dev" where
  "demo_tokens = \<lparr>td_token = Map.empty, td_count = 0, td_start = 0, td_size = 66, td_wed_active = False,
     td_wed_start = 0, td_wed_count = 0, td_rx_token = Map.empty, td_rx_size = 0, td_blocked = False,
     td_band1 = Some False, td_band2 = None, td_worker_scheduled = 0, td_tx_wait_wakeups = 0\<rparr>"

definition demo_consume2 :: "nat token_dev" where
  "demo_consume2 = snd (mt76_token_consume idr_first (snd (mt76_token_consume idr_first demo_tokens 7)) 8)"

lemma demo_consume2_reachable: "reachable tok_init (tok_step idr_first) (demo_consume2, False)"
proof -
  have "reachable tok_init (tok_step idr_first) (demo_tokens, False)"
    by (rule reach_init) (simp add: tok_init_def demo_tokens_def)
  from reach_step [OF reach_step [OF this consume] consume] show ?thesis
    unfolding demo_consume2_def .
qed

lemma demo_consume2_values:
  "td_token demo_consume2 0 = Some 7" "td_token demo_consume2 1 = Some 8" "td_blocked demo_consume2"
  "td_count demo_consume2 = 2"
  by code_simp+

theorem token_accounting_witness:
  "td_token demo_consume2 0 = Some 7 \<and> td_token demo_consume2 1 = Some 8 \<and> td_blocked demo_consume2
   \<and> tokens_scarce demo_consume2 \<and> card (dom (td_token demo_consume2)) = 2"
proof -
  have "unat (td_count demo_consume2) = 2" by (simp add: demo_consume2_values)
  then show ?thesis
    using token_accounting [OF idr_first_ok demo_consume2_reachable] demo_consume2_values by auto
qed

section \<open>What a TX-free event releases\<close>

text \<open>The words of an event, processed in order without the counters.\<close>

fun tf_words ::
  "'t tf_state \<Rightarrow> nat option \<Rightarrow> nat option \<Rightarrow> bool \<Rightarrow> u32 list \<Rightarrow> 't tf_state \<times> bool" where
  "tf_words st wcid sta wake [] = (st, wake)"
| "tf_words st wcid sta wake (info # ws) =
     (if tf_is_pair info
      then tf_words (fst (tf_pair st info)) (fst (snd (tf_pair st info))) (snd (snd (tf_pair st info))) wake ws
      else tf_words (fst (tf_msdu st wcid sta info)) wcid sta (wake \<or> snd (tf_msdu st wcid sta info)) ws)"

abbreviation msdu_words :: "u32 list \<Rightarrow> u32 list" where
  "msdu_words ws \<equiv> filter (\<lambda>w. \<not> tf_is_pair w) ws"

text \<open>An event as the firmware documents it: the last word stands for a frame.\<close>

definition tf_event_ok :: "u32 list \<Rightarrow> bool" where
  "tf_event_ok ws \<longleftrightarrow> length ws < 256 \<and> (ws = [] \<or> \<not> tf_is_pair (last ws))"

lemma msdu_words_pos: "ws \<noteq> [] \<Longrightarrow> \<not> tf_is_pair (last ws) \<Longrightarrow> 0 < length (msdu_words ws)"
  by (metis filter_empty_conv last_in_set length_greater_0_conv)

lemma tx_free_loop_words:
  assumes "unat i + length ws < 256" "ws = [] \<or> \<not> tf_is_pair (last ws)"
    and "unat count = unat i + length (msdu_words ws)"
    and "\<forall>k < length ws. mem (unat i + k) = ws ! k"
  shows "tx_free_loop mem st wcid sta wake i count =
    (fst (tf_words st wcid sta wake ws), snd (tf_words st wcid sta wake ws), [unat i..<unat i + length ws])"
  using assms
proof (induction ws arbitrary: st wcid sta wake i count)
  case Nil
  then show ?case by (simp add: tx_free_loop.simps word_less_nat_alt)
next
  case (Cons info ws)
  have m: "mem (unat i) = info" using Cons.prems(4) by force
  have pos: "0 < length (msdu_words (info # ws))" using msdu_words_pos [of "info # ws"] Cons.prems(2) by simp
  then have less: "i < count" using Cons.prems(3) by (simp add: word_less_nat_alt)
  have inc: "unat (i + 1) = unat i + 1" using u8_inc [OF less] .
  have rest: "\<forall>k < length ws. mem (unat (i + 1) + k) = ws ! k"
  proof (intro allI impI)
    fix k assume "k < length ws"
    then show "mem (unat (i + 1) + k) = ws ! k" using Cons.prems(4) [rule_format, of "Suc k"] inc by simp
  qed
  have last: "ws = [] \<or> \<not> tf_is_pair (last ws)" using Cons.prems(2) by (auto split: if_splits)
  have up: "unat i # [Suc (unat i)..<Suc (unat i + length ws)] = [unat i..<Suc (unat i + length ws)]"
    using upt_conv_Cons [of "unat i" "Suc (unat i + length ws)"] by (simp del: upt_Suc)
  show ?case
  proof (cases "tf_is_pair info")
    case True
    have "Suc (unat i + length (msdu_words ws)) < 256"
      using length_filter_le [of "\<lambda>w. \<not> tf_is_pair w" ws] Cons.prems(1) unfolding list.size by linarith
    then have "unat (count + 1) = unat count + 1"
      using Cons.prems(3) True by (simp add: unat_word_ariths)
    then have c: "unat (count + 1) = unat (i + 1) + length (msdu_words ws)"
      using Cons.prems(3) True inc by simp
    show ?thesis
      using Cons.IH [OF _ last c rest] Cons.prems(1) inc True m less
      by (subst tx_free_loop.simps) (simp add: up [symmetric] Let_def case_prod_beta del: upt_Suc)
  next
    case False
    have c: "unat count = unat (i + 1) + length (msdu_words ws)" using Cons.prems(3) False inc by simp
    show ?thesis
      using Cons.IH [OF _ last c rest] Cons.prems(1) inc False m less
      by (subst tx_free_loop.simps) (simp add: up [symmetric] Let_def case_prod_beta del: upt_Suc)
  qed
qed

lemma tf_pair_dev [simp]: "tf_dev (fst (tf_pair st info)) = tf_dev st" "tf_log (fst (tf_pair st info)) = tf_log st"
  by (auto simp: tf_pair_def mt76_wcid_add_poll_def Let_def split: option.splits)

lemma map_filter_app: "List.map_filter f (xs @ ys) = List.map_filter f xs @ List.map_filter f ys"
  by (simp add: List.map_filter_def)

lemma map_filter_same:
  "(\<And>x. x \<in> set xs \<Longrightarrow> f x = g x) \<Longrightarrow> List.map_filter f xs = List.map_filter g xs"
  by (induction xs) (auto simp: map_filter_simps split: option.split)

definition freed :: "'t tf_action list \<Rightarrow> 't list" where
  "freed as = List.map_filter (\<lambda>a. case a of Txwi_free t sta \<Rightarrow> Some t | _ \<Rightarrow> None) as"

lemma freed_append [simp]: "freed (as @ bs) = freed as @ freed bs"
  by (simp add: freed_def map_filter_app)

lemma freed_simps [simp]:
  "freed [] = []" "freed (Txwi_free t sta # as) = t # freed as" "freed (Sta_poll # as) = freed as"
  "freed (Queue_cleanup_psd # as) = freed as" "freed (Queue_cleanup_be # as) = freed as"
  "freed (Consume_free_list # as) = freed as" "freed (Schedule_worker # as) = freed as"
  by (simp_all add: freed_def map_filter_simps)

lemma tf_stats_dev [simp]: "tf_dev (tf_stats st wcid info) = tf_dev st" "tf_log (tf_stats st wcid info) = tf_log st"
  by (simp_all add: tf_stats_def split: option.split)

lemma token_release_fst [simp]: "fst (mt76_token_release dev n) = td_token dev n"
  by (simp add: mt76_token_release_def Let_def)

lemma tf_msdu_effect:
  "tf_dev (fst (tf_msdu st wcid sta info)) = snd (snd (mt76_token_release (tf_dev st) (tf_msdu_id info)))"
  "snd (tf_msdu st wcid sta info) = fst (snd (mt76_token_release (tf_dev st) (tf_msdu_id info)))"
  "freed (tf_log (fst (tf_msdu st wcid sta info)))
     = freed (tf_log st) @ (case td_token (tf_dev st) (tf_msdu_id info) of None \<Rightarrow> [] | Some t \<Rightarrow> [t])"
  by (simp_all add: tf_msdu_def Let_def case_prod_beta split: option.split)

abbreviation msdu_ids :: "u32 list \<Rightarrow> nat list" where
  "msdu_ids ws \<equiv> map tf_msdu_id (msdu_words ws)"

lemma tf_words_effect:
  assumes "tok_count_ok (tf_dev st)" "distinct (msdu_ids ws)"
    "td_blocked (tf_dev st) \<longrightarrow> tokens_scarce (tf_dev st) \<or> wake"
  shows "tok_count_ok (tf_dev (fst (tf_words st wcid sta wake ws)))
    \<and> td_token (tf_dev (fst (tf_words st wcid sta wake ws))) = td_token (tf_dev st) |` (- set (msdu_ids ws))
    \<and> freed (tf_log (fst (tf_words st wcid sta wake ws)))
        = freed (tf_log st) @ List.map_filter (td_token (tf_dev st)) (msdu_ids ws)
    \<and> (td_blocked (tf_dev (fst (tf_words st wcid sta wake ws))) \<longrightarrow>
         tokens_scarce (tf_dev (fst (tf_words st wcid sta wake ws))) \<or> snd (tf_words st wcid sta wake ws))"
  using assms
proof (induction ws arbitrary: st wcid sta wake)
  case Nil
  then show ?case by (simp add: map_filter_simps)
next
  case (Cons info ws)
  show ?case
  proof (cases "tf_is_pair info")
    case True
    then show ?thesis using Cons.IH [of "fst (tf_pair st info)"] Cons.prems by simp
  next
    case False
    let ?n = "tf_msdu_id info"
    let ?st = "fst (tf_msdu st wcid sta info)"
    let ?w = "wake \<or> snd (tf_msdu st wcid sta info)"
    have n: "?n \<notin> set (msdu_ids ws)" "distinct (msdu_ids ws)" using Cons.prems(2) False by auto
    have tok: "td_token (tf_dev ?st) = (td_token (tf_dev st))(?n := None)" and ok: "tok_count_ok (tf_dev ?st)"
      and w: "td_blocked (tf_dev ?st) \<longrightarrow> tokens_scarce (tf_dev ?st) \<or> ?w"
      using token_release_spec(1,4,5,8) [OF Cons.prems(1), of ?n] by (auto simp: tf_msdu_effect)
    have mf: "List.map_filter (td_token (tf_dev ?st)) (msdu_ids ws) = List.map_filter (td_token (tf_dev st)) (msdu_ids ws)"
    proof (rule map_filter_same)
      fix m assume "m \<in> set (msdu_ids ws)"
      with n(1) have "m \<noteq> ?n" by blast
      then show "td_token (tf_dev ?st) m = td_token (tf_dev st) m" by (simp add: tok)
    qed
    have restrict: "(td_token (tf_dev st))(?n := None) |` (- set (msdu_ids ws))
        = td_token (tf_dev st) |` (- set (msdu_ids (info # ws)))"
      using False by (auto simp: restrict_map_def)
    have words: "tf_words st wcid sta wake (info # ws) = tf_words ?st wcid sta ?w ws"
      using False by simp
    have log: "freed (tf_log ?st) @ List.map_filter (td_token (tf_dev ?st)) (msdu_ids ws)
        = freed (tf_log st) @ List.map_filter (td_token (tf_dev st)) (msdu_ids (info # ws))"
      unfolding mf using False by (simp add: tf_msdu_effect(3) map_filter_simps split: option.split)
    show ?thesis
      using Cons.IH [OF ok n(2) w, of wcid sta]
      unfolding words log [symmetric] restrict [symmetric] tok [symmetric] .
  qed
qed

text \<open>
  C7: A well-formed TX-free event (\<open>ws\<close> its words, ending in a frame word, \<open>ctrl\<close> counting its
  frame words, which name different tokens) releases exactly the tokens it names, hands each
  descriptor it found to \<open>mt76_connac2_txwi_free\<close> once and in order, reads exactly its own
  words, and leaves the queues unblocked unless tokens are still scarce.
\<close>

theorem tx_free_releases_tokens:
  assumes "tok_count_ok (tf_dev st)" "td_blocked (tf_dev st) \<longrightarrow> tokens_scarce (tf_dev st)"
    and "tf_event_ok ws" "distinct (msdu_ids ws)"
    and "unat (FIELD_GET 9 0 ctrl) = length (msdu_words ws)" "8 + 4 * length (msdu_words ws) \<le> len"
    and "\<forall>k < length ws. mem k = ws ! k"
    and "(st', reads) = mt7921_mac_tx_free ctrl mem len st"
  shows "reads = [0..<length ws]
    \<and> td_token (tf_dev st') = td_token (tf_dev st) |` (- set (msdu_ids ws))
    \<and> freed (tf_log st') = freed (tf_log st) @ List.map_filter (td_token (tf_dev st)) (msdu_ids ws)
    \<and> tok_count_ok (tf_dev st') \<and> (td_blocked (tf_dev st') \<longrightarrow> tokens_scarce (tf_dev st'))"
proof -
  let ?s = "st\<lparr>tf_log := tf_log st @ [Queue_cleanup_psd, Queue_cleanup_be]\<rparr>"
  let ?r = "tf_words ?s None None False ws"
  let ?c = "ucast (FIELD_GET 9 0 ctrl) :: u8"
  have lt: "length (msdu_words ws) < 256"
    using length_filter_le [of "\<lambda>w. \<not> tf_is_pair w" ws] assms(3) unfolding tf_event_ok_def by linarith
  have c: "unat ?c = length (msdu_words ws)"
    using assms(5) lt by (simp add: unsigned_ucast_eq take_bit_eq_mod)
  have loop: "tx_free_loop mem ?s None None False 0 ?c = (fst ?r, snd ?r, [0..<length ws])"
    using tx_free_loop_words [of 0 ws ?c mem ?s None None False] assms(3,7) c
    by (simp add: tf_event_ok_def)
  have run: "mt7921_mac_tx_free ctrl mem len st =
    (let s = (if snd ?r then (fst ?r)\<lparr>tf_dev := set_tx_blocked (tf_dev (fst ?r)) False\<rparr> else fst ?r)
     in (s\<lparr>tf_log := tf_log s @ [Consume_free_list, Sta_poll, Schedule_worker],
           tf_dev := (tf_dev s)\<lparr>td_worker_scheduled := td_worker_scheduled (tf_dev s) + 1\<rparr>\<rparr>, [0..<length ws]))"
    unfolding mt7921_mac_tx_free_def Let_def loop c using assms(6) by (simp add: Let_def)
  show ?thesis
    using tf_words_effect [of ?s ws False None None] assms(1,2,4,8) unfolding run
    by (auto simp: Let_def tok_count_ok_def tokens_scarce_def split: if_splits)
qed

definition demo_tf :: "nat tf_state" where
  "demo_tf = \<lparr>tf_dev = demo_consume2, tf_wcids = [5 \<mapsto> \<lparr>tw_sta = True, tw_on_poll_list = False,
     tw_tx_retries = 0, tw_tx_failed = 0\<rparr>], tf_mcu_reset = False, tf_log = []\<rparr>"

definition demo_event :: "u32 list" where
  "demo_event = [0x80014000, 0x00010000, 0x00000003]"

theorem tx_free_releases_tokens_witness:
  "td_token (tf_dev (fst (mt7921_mac_tx_free 2 (\<lambda>k. if k < 3 then demo_event ! k else 0) 20 demo_tf))) = Map.empty
   \<and> freed (tf_log (fst (mt7921_mac_tx_free 2 (\<lambda>k. if k < 3 then demo_event ! k else 0) 20 demo_tf))) = [8, 7]"
proof -
  let ?mem = "\<lambda>k. if k < 3 then demo_event ! k else 0"
  let ?r = "mt7921_mac_tx_free 2 ?mem 20 demo_tf"
  have m: "msdu_words demo_event = [0x00010000, 0x00000003]" by code_simp
  have ids: "msdu_ids demo_event = [1, 0]" unfolding m by (simp add: tf_msdu_id_def unat_FIELD_GET)
  have c: "tok_count_ok (tf_dev demo_tf)" "td_blocked (tf_dev demo_tf) \<longrightarrow> tokens_scarce (tf_dev demo_tf)"
    using tok.reachable_inv [OF demo_consume2_reachable] idr_first_ok by (auto simp: demo_tf_def tok_inv_def)
  have toks: "td_token (tf_dev demo_tf) 0 = Some 7" "td_token (tf_dev demo_tf) 1 = Some 8"
    "freed (tf_log demo_tf) = []" "unat (td_count (tf_dev demo_tf)) = 2"
    by (simp_all only: demo_tf_def demo_consume2_values tf_state.select_convs freed_simps) simp
  have d: "dom (td_token (tf_dev demo_tf)) = {0, 1}"
  proof (rule sym, rule card_seteq)
    show "finite (dom (td_token (tf_dev demo_tf)))" "card (dom (td_token (tf_dev demo_tf))) \<le> card {0, 1 :: nat}"
      using c(1) toks(4) by (simp_all add: tok_count_ok_def)
    show "{0, 1} \<subseteq> dom (td_token (tf_dev demo_tf))" using toks by blast
  qed
  have "tf_event_ok demo_event" by code_simp
  moreover have "unat (FIELD_GET 9 0 (2 :: u16)) = length (msdu_words demo_event)" unfolding m by code_simp
  moreover have "8 + 4 * length (msdu_words demo_event) \<le> 20" unfolding m by simp
  moreover have "\<forall>k < length demo_event. ?mem k = demo_event ! k" by (simp add: demo_event_def)
  ultimately have "td_token (tf_dev (fst ?r)) = td_token (tf_dev demo_tf) |` (- set (msdu_ids demo_event))"
    and "freed (tf_log (fst ?r)) = [] @ List.map_filter (td_token (tf_dev demo_tf)) (msdu_ids demo_event)"
    using tx_free_releases_tokens [of demo_tf demo_event 2 20 ?mem "fst ?r" "snd ?r"] c toks(3) ids by simp_all
  moreover have "td_token (tf_dev demo_tf) |` (- set [1, 0]) = Map.empty"
  proof
    fix n
    have "n \<notin> {0, 1} \<Longrightarrow> td_token (tf_dev demo_tf) n = None" unfolding d [symmetric] domIff by simp
    then show "(td_token (tf_dev demo_tf) |` (- set [1, 0])) n = None"
      unfolding restrict_map_def by (simp del: insert_iff) blast
  qed
  ultimately show ?thesis
    unfolding ids using toks(1,2) by (simp add: map_filter_simps)
qed

text \<open>
  The length check of the handler counts frame words only, so it does not bound what the
  loop reads: an event of one word, a pair word, passes the check and makes the handler read,
  and act on, the word behind the end of the event, whatever that word is.
\<close>

theorem tx_free_reads_past_end:
  assumes "tf_is_pair (tx_info 0)"
  shows "1 \<in> set (snd (mt7921_mac_tx_free 1 tx_info 12 st)) \<and> 12 < 8 + 4 * (1 + 1 :: nat)"
proof -
  have c: "(ucast (FIELD_GET 9 0 (1 :: u16)) :: u8) = 1" by code_simp
  have l: "unat (1 :: u8) = 1" "(0 :: u8) < 1" "(1 :: u8) < 1 + 1" "unat (1 + 1 :: u8) = 2" by code_simp+
  let ?s = "st\<lparr>tf_log := tf_log st @ [Queue_cleanup_psd, Queue_cleanup_be]\<rparr>"
  have tail: "unat i \<in> set (snd (snd (tx_free_loop tx_info s wcid sta w i n)))" if "i < n" for i n s wcid sta w
    using that by (subst tx_free_loop.simps) (simp add: Let_def case_prod_beta)
  have "snd (snd (tx_free_loop tx_info ?s None None False 0 1))
      = 0 # snd (snd (tx_free_loop tx_info (fst (tf_pair ?s (tx_info 0))) (fst (snd (tf_pair ?s (tx_info 0))))
              (snd (snd (tf_pair ?s (tx_info 0)))) False (0 + 1) (1 + 1)))"
    using assms l(2) by (subst tx_free_loop.simps) (simp add: Let_def case_prod_beta del: word_neq_0_conv)
  moreover have "unat (0 + 1 :: u8) = 1" "(0 + 1 :: u8) < 1 + 1" by code_simp+
  ultimately have "1 \<in> set (snd (snd (tx_free_loop tx_info ?s None None False 0 1)))"
    using tail [of "0 + 1" "1 + 1"] by (metis list.set_intros(2))
  then show ?thesis
    unfolding mt7921_mac_tx_free_def Let_def c by (simp add: Let_def case_prod_beta)
qed

theorem tx_free_reads_past_end_witness:
  "1 \<in> set (snd (mt7921_mac_tx_free 1 (\<lambda>k. 0x80000000) 12 demo_tf))"
proof -
  have "tf_is_pair 0x80000000" by code_simp
  then show ?thesis using tx_free_reads_past_end [of "\<lambda>k. 0x80000000" demo_tf] by simp
qed

end
