(* ===== verification/DmaRx.thy ===== *)
theory DmaRx
  imports DmaRing Tokens
begin

text \<open>
  The receive side of src/src/mt76/dma.c: giving buffers to the hardware (\<open>mt76_dma_rx_fill\<close>),
  taking them back (\<open>mt76_dma_dequeue\<close>), assembling frames from them
  (\<open>mt76_dma_rx_process\<close>, \<open>mt76_add_fragment\<close>) and cleaning up. The descriptors are those of
  theory DmaRing, the receive tokens of a ring with hardware reordering those of theory Tokens.
  The hardware completes descriptors between calls: one call sees them fixed. The theorems show
  that every buffer the driver takes off the ring is handed over, kept or recycled exactly once,
  that the budget is kept, and which frames are dropped.
\<close>

section \<open>State\<close>

text \<open>\<open>struct mt76_txwi_cache\<close> as a receive token uses it.\<close>

record rxwi =
  rw_ptr :: "buf_ptr option"
  rw_dma_addr :: u64
  rw_qid :: nat

text \<open>A frame under construction: the buffer of its head, its length, its fragments.\<close>

record rx_frame =
  rf_head :: buf_ptr
  rf_len :: nat
  rf_info :: u32
  rf_frags :: "(buf_ptr \<times> nat) list"

datatype rx_action =
    Rx_skb rx_frame u32
  | Recycle buf_ptr
  | Free_rx_skb rx_frame
  | Rro_ind_process buf_ptr

text \<open>
  The device as the receive path sees it; \<open>rd_rx_head\<close> is \<open>q->rx_head\<close>, \<open>rd_rxwi\<close> the cache of
  descriptors without a buffer.
\<close>

record rx_dev =
  rd_tok :: "rxwi token_dev"
  rd_rxwi :: "rxwi list"
  rd_rx_head :: "rx_frame option"
  rd_log :: "rx_action list"

definition rd_act :: "rx_dev \<Rightarrow> rx_action list \<Rightarrow> rx_dev" where
  "rd_act dev as = dev\<lparr>rd_log := rd_log dev @ as\<rparr>"

text \<open>What the code calls: allocators, the driver's hooks, and the shape of a socket buffer.\<close>

record rx_ops =
  ro_alloc :: "rxwi idr_alloc"
  ro_kzalloc :: bool
  ro_msdu_page :: "(u64 \<Rightarrow> buf_ptr option \<Rightarrow> bool) option"
  ro_rro_ind :: bool
  ro_rx_check :: "(buf_ptr \<Rightarrow> nat \<Rightarrow> bool) option"
  ro_build_skb :: "buf_ptr \<Rightarrow> bool"
  ro_overhead :: nat
  ro_max_frags :: nat
  ro_soc_wed :: bool

section \<open>Giving buffers to the hardware\<close>

definition mt76_get_rxwi :: "rx_ops \<Rightarrow> rx_dev \<Rightarrow> rxwi option \<times> rx_dev" where
  "mt76_get_rxwi ops dev =
     (case rd_rxwi dev of
        t # ts \<Rightarrow> (Some t, dev\<lparr>rd_rxwi := ts\<rparr>)
      | [] \<Rightarrow> (if ro_kzalloc ops then Some \<lparr>rw_ptr = None, rw_dma_addr = 0, rw_qid = 0\<rparr> else None, dev))"

definition mt76_put_rxwi :: "rx_dev \<Rightarrow> rxwi \<Rightarrow> rx_dev" where
  "mt76_put_rxwi dev t = dev\<lparr>rd_rxwi := t # rd_rxwi dev\<rparr>"

text \<open>The code after the label \<open>done\<close>.\<close>

definition rx_store :: "dma_queue \<Rightarrow> queue_buf \<Rightarrow> txwi_ptr \<Rightarrow> buf_ptr option \<Rightarrow> dma_desc \<Rightarrow> dma_queue" where
  "rx_store q buf txwi data d =
     push_head q ((q_entry q ! q_head q)\<lparr>e_dma_addr0 := qb_addr buf, e_dma_len0 := qb_len buf,
                    e_txwi := txwi, e_buf := data, e_wcid := 0xffff, e_skip_buf1 := True\<rparr>) d"

text \<open>
  \<open>mt76_dma_add_rx_buf\<close>. \<open>qid\<close> is the number of the queue, \<open>q - dev->q_rx\<close>. The store of
  \<open>txwi->qid\<close> happens after the descriptor went into the token table, through the same pointer.
\<close>

definition mt76_dma_add_rx_buf ::
  "rx_ops \<Rightarrow> rx_dev \<Rightarrow> nat \<Rightarrow> dma_queue \<Rightarrow> queue_buf \<Rightarrow> buf_ptr option \<Rightarrow> nat res \<times> rx_dev \<times> dma_queue" where
  "mt76_dma_add_rx_buf ops dev qid q buf data =
     (if mt76_queue_is_wed_rro_ind q \<or> mt76_queue_is_wed_rro_rxdmad_c q
      then (Inr (q_head q), dev, rx_store q buf Txwi_null (Some (Desc (q_head q))) (q_desc q ! q_head q))
      else
        let ctrl = FIELD_PREP 29 16 (ucast (qb_len buf)) :: u32;
            buf1 = FIELD_PREP 3 0 (ucast (drop_bit 32 (qb_addr buf))) :: u32;
            r = (if mt76_queue_is_wed_rx q \<or> mt76_queue_is_wed_rro_data q
                 then case mt76_get_rxwi ops dev of
                        (None, dev) \<Rightarrow> (None, dev)
                      | (Some t, dev) \<Rightarrow>
                          (case mt76_rx_token_consume (ro_alloc ops)
                                  (\<lambda>t. t\<lparr>rw_ptr := data, rw_dma_addr := qb_addr buf, rw_qid := qid\<rparr>) (rd_tok dev) t of
                             (None, tok) \<Rightarrow> (None, mt76_put_rxwi (dev\<lparr>rd_tok := tok\<rparr>) t)
                           | (Some n, tok) \<Rightarrow>
                               (Some (buf1 OR FIELD_PREP 31 16 (of_nat n), ctrl OR BIT 8, Txwi n), dev\<lparr>rd_tok := tok\<rparr>))
                 else (Some (buf1, ctrl, Txwi_null), dev))
        in case r of
             (None, dev) \<Rightarrow> (Inl ENOMEM, dev, q)
           | (Some (buf1, ctrl, txwi), dev) \<Rightarrow>
               (if mt76_queue_is_wed_rro_msdu_pg q \<and>
                   (case ro_msdu_page ops of None \<Rightarrow> False | Some add \<Rightarrow> add (qb_addr buf) data)
                then (Inl ENOMEM, dev, q)
                else
                  let info = (if qflag 7 q then FIELD_PREP 31 28 (ucast (q_magic_cnt q)) else 0);
                      q = (if qflag 7 q \<and> q_head q + 1 = q_ndesc q
                           then q\<lparr>q_magic_cnt := (q_magic_cnt q + 1) mod 16\<rparr> else q)
                  in (Inr (q_head q), dev,
                      rx_store q buf txwi data
                        \<lparr>d_buf0 = ucast (qb_addr buf), d_ctrl = ctrl, d_buf1 = buf1, d_info = info\<rparr>)))"

lemma add_rx_buf_grows:
  "(Inr i, dev', q') = mt76_dma_add_rx_buf ops dev qid q buf data
     \<Longrightarrow> q_queued q' = q_queued q + 1 \<and> q_ndesc q' = q_ndesc q"
  by (auto simp: mt76_dma_add_rx_buf_def Let_def rx_store_def split: prod.splits option.splits if_splits)

text \<open>
  \<open>mt76_dma_rx_fill_buf\<close>: \<open>pool k\<close> is what the \<open>k\<close>-th call of the page pool returns, a buffer and
  its address, or nothing. \<open>int len\<close> is not negative: a buffer has room for the overhead and the
  offset.
\<close>

function rx_fill_loop :: "rx_ops \<Rightarrow> rx_dev \<Rightarrow> nat \<Rightarrow> dma_queue \<Rightarrow> (nat \<Rightarrow> (nat \<times> u64) option) \<Rightarrow> nat
    \<Rightarrow> rx_dev \<times> dma_queue \<times> nat" where
  "rx_fill_loop ops dev qid q pool frames =
     (if \<not> q_queued q + 1 < q_ndesc q then (dev, q, frames)
      else
        let len = of_nat (q_buf_size q - ro_overhead ops - q_buf_offset q) AND 0x7FFF;
            own = mt76_queue_is_wed_rro_ind q \<or> mt76_queue_is_wed_rro_rxdmad_c q
        in if \<not> own \<and> pool frames = None then (dev, q, frames)
           else
             let buf = (if own then None else map_option (Buf \<circ> fst) (pool frames));
                 addr = (if own then 0 else snd (the (pool frames)) + of_nat (q_buf_offset q))
             in case mt76_dma_add_rx_buf ops dev qid q \<lparr>qb_addr = addr, qb_len = len, qb_skip_unmap = False\<rparr> buf of
                  (Inl e, dev, q) \<Rightarrow> (case buf of None \<Rightarrow> dev | Some b \<Rightarrow> rd_act dev [Recycle b], q, frames)
                | (Inr i, dev, q) \<Rightarrow> rx_fill_loop ops dev qid q pool (frames + 1))"
  by pat_completeness auto
termination
  by (relation "measure (\<lambda>(ops, dev, qid, q, pool, frames). q_ndesc q - q_queued q)")
    (auto dest!: add_rx_buf_grows)

declare rx_fill_loop.simps [simp del]

definition mt76_dma_rx_fill ::
  "rx_ops \<Rightarrow> rx_dev \<Rightarrow> nat \<Rightarrow> dma_queue \<Rightarrow> (nat \<Rightarrow> (nat \<times> u64) option) \<Rightarrow> nat \<times> rx_dev \<times> dma_queue" where
  "mt76_dma_rx_fill ops dev qid q pool =
     (if q_ndesc q = 0 then (0, dev, q)
      else let (dev, q, frames) = rx_fill_loop ops dev qid q pool 0;
               q = (if 0 < frames \<or> mt76_queue_is_wed_rx q then mt76_dma_kick_queue q else q)
           in (frames, dev, q))"

section \<open>Taking buffers back\<close>

text \<open>What a call returns (\<open>ERR_PTR(-EAGAIN)\<close> is \<open>Rx_again\<close>), and its output arguments.\<close>

datatype rx_data = Rx_null | Rx_again | Rx_data buf_ptr

record rx_out =
  o_len :: nat
  o_info :: u32
  o_more :: bool
  o_drop :: bool

definition rx_data_of :: "buf_ptr option \<Rightarrow> rx_data" where
  "rx_data_of b = (case b of None \<Rightarrow> Rx_null | Some b \<Rightarrow> Rx_data b)"

definition mt76_dma_should_drop_buf :: "u32 \<Rightarrow> u32 \<Rightarrow> u32 \<Rightarrow> bool" where
  "mt76_dma_should_drop_buf ctrl buf1 info =
     (if ctrl AND BIT 7 = 0 then ctrl AND (BIT 12 OR BIT 14) \<noteq> 0
      else let reason = FIELD_GET 15 12 buf1
           in if reason = 1 then True
              else if reason = 2 then info AND BIT 9 = 0
              else ctrl AND BIT 13 \<noteq> 0)"

text \<open>
  The descriptor that an entry of an indication or completion ring points to is the one at its
  own index. \<open>want\<close> says that the caller passed the output arguments.
\<close>

definition mt76_dma_get_rxdmad_c_buf ::
  "rx_dev \<Rightarrow> dma_queue \<Rightarrow> nat \<Rightarrow> rx_out \<Rightarrow> rx_data \<times> rx_out \<times> rx_dev" where
  "mt76_dma_get_rxdmad_c_buf dev q idx out =
     (let data1 = d_ctrl (q_desc q ! idx);
          data2 = d_buf1 (q_desc q ! idx);
          (t, tok) = mt76_rx_token_release (rd_tok dev) (unat (FIELD_GET 31 16 data2));
          dev = dev\<lparr>rd_tok := tok\<rparr>
      in case t of
           None \<Rightarrow> (Rx_again, out, dev)
         | Some t \<Rightarrow>
             let out = out\<lparr>o_len := unat (FIELD_GET 29 16 data1), o_more := (FIELD_GET 30 30 data1 = 0)\<rparr>;
                 reason = FIELD_GET 15 12 data2;
                 (buf, dev) = (if reason = 1 \<or> reason = 2
                               then (Rx_again, case rw_ptr t of None \<Rightarrow> dev | Some b \<Rightarrow> rd_act dev [Recycle b])
                               else (rx_data_of (rw_ptr t), dev))
             in (buf, out, mt76_put_rxwi dev (t\<lparr>rw_ptr := None, rw_dma_addr := 0\<rparr>)))"

definition clear_buf :: "dma_queue \<Rightarrow> nat \<Rightarrow> dma_queue" where
  "clear_buf q idx = upd_entry q idx (\<lambda>e. e\<lparr>e_buf := None\<rparr>)"

definition mt76_dma_get_buf ::
  "rx_dev \<Rightarrow> dma_queue \<Rightarrow> nat \<Rightarrow> bool \<Rightarrow> bool \<Rightarrow> rx_out \<Rightarrow> rx_data \<times> rx_out \<times> rx_dev \<times> dma_queue" where
  "mt76_dma_get_buf dev q idx flush want out =
     (let e = q_entry q ! idx;
          (buf, out, dev) =
            (if mt76_queue_is_wed_rro_rxdmad_c q \<and> \<not> flush then mt76_dma_get_rxdmad_c_buf dev q idx out
             else (rx_data_of (e_buf e), out, dev))
      in if mt76_queue_is_wed_rro q then (buf, out, dev, clear_buf q idx)
         else
           let ctrl = d_ctrl (q_desc q ! idx);
               info = d_info (q_desc q ! idx);
               buf1 = d_buf1 (q_desc q ! idx);
               out = (if want
                      then out\<lparr>o_len := unat (FIELD_GET 29 16 ctrl), o_more := (ctrl AND BIT 30 = 0),
                               o_info := info, o_drop := mt76_dma_should_drop_buf ctrl buf1 info\<rparr>
                      else out)
           in if mt76_queue_is_wed_rx q
              then let (t, tok) = mt76_rx_token_release (rd_tok dev) (unat (FIELD_GET 31 16 buf1));
                       dev = dev\<lparr>rd_tok := tok\<rparr>
                   in case t of
                        None \<Rightarrow> (Rx_null, out, dev, q)
                      | Some t \<Rightarrow>
                          (rx_data_of (rw_ptr t),
                           if want then out\<lparr>o_drop := o_drop out \<or> buf1 AND BIT 8 \<noteq> 0\<rparr> else out,
                           mt76_put_rxwi dev (t\<lparr>rw_ptr := None, rw_dma_addr := 0\<rparr>), clear_buf q idx)
              else (buf, out, dev, clear_buf q idx))"

text \<open>
  \<open>mt76_dma_dequeue\<close>: first whether the oldest entry may be taken and what that changes, then the
  step of the tail and the read of the buffer.
\<close>

definition dequeue_ready :: "dma_queue \<Rightarrow> bool \<Rightarrow> dma_queue option" where
  "dequeue_ready q flush =
     (let idx = q_tail q;
          wrap = (\<lambda>m. if q_tail q + 1 = q_ndesc q then q\<lparr>q_magic_cnt := (q_magic_cnt q + 1) mod m\<rparr> else q)
      in if mt76_queue_is_wed_rro_data q \<or> mt76_queue_is_wed_rro_msdu_pg q then Some q
         else if mt76_queue_is_wed_rro_ind q
         then if flush then Some q
              else if FIELD_GET 31 29 (q_rro_data1 q ! idx) \<noteq> ucast (q_magic_cnt q) then None else Some (wrap 8)
         else if mt76_queue_is_wed_rro_rxdmad_c q
         then if flush then Some q
              else if FIELD_GET 31 28 (d_info (q_desc q ! idx)) \<noteq> ucast (q_magic_cnt q) then None else Some (wrap 16)
         else if flush
         then Some (q\<lparr>q_desc := (q_desc q)[idx := (q_desc q ! idx)\<lparr>d_ctrl := d_ctrl (q_desc q ! idx) OR BIT 31\<rparr>]\<rparr>)
         else if d_ctrl (q_desc q ! idx) AND BIT 31 = 0 then None else Some q)"

definition mt76_dma_dequeue ::
  "rx_dev \<Rightarrow> dma_queue \<Rightarrow> bool \<Rightarrow> bool \<Rightarrow> rx_out \<Rightarrow> rx_data \<times> rx_out \<times> rx_dev \<times> dma_queue" where
  "mt76_dma_dequeue dev q flush want out =
     (let idx = q_tail q;
          out = out\<lparr>o_more := False\<rparr>
      in if q_queued q = 0 then (Rx_null, out, dev, q)
         else case dequeue_ready q flush of
                None \<Rightarrow> (Rx_null, out, dev, q)
              | Some q \<Rightarrow> mt76_dma_get_buf dev (pop_tail q) idx flush want out)"

lemma dequeue_ready_sel:
  assumes "dequeue_ready q flush = Some q'"
  shows "q_queued q' = q_queued q" "q_ndesc q' = q_ndesc q" "q_tail q' = q_tail q" "q_head q' = q_head q"
    "q_entry q' = q_entry q" "q_flags q' = q_flags q" "length (q_desc q') = length (q_desc q)"
    "q_buf_size q' = q_buf_size q" "q_buf_offset q' = q_buf_offset q"
  using assms by (auto simp: dequeue_ready_def Let_def split: if_splits)

lemma get_buf_sel:
  "q_queued (snd (snd (snd (mt76_dma_get_buf dev q idx flush want out)))) = q_queued q"
  "q_ndesc (snd (snd (snd (mt76_dma_get_buf dev q idx flush want out)))) = q_ndesc q"
  by (auto simp: mt76_dma_get_buf_def clear_buf_def Let_def case_prod_beta split: option.split)

lemma dequeue_shrinks:
  assumes "mt76_dma_dequeue dev q flush want out = (buf, out', dev', q')" "buf \<noteq> Rx_null"
  shows "q_queued q' < q_queued q"
proof -
  obtain q1 where q1: "dequeue_ready q flush = Some q1" "0 < q_queued q"
    and r: "mt76_dma_get_buf dev (pop_tail q1) (q_tail q) flush want (out\<lparr>o_more := False\<rparr>) = (buf, out', dev', q')"
    using assms by (auto simp: mt76_dma_dequeue_def Let_def split: if_splits option.splits)
  have "q_queued q' = q_queued (pop_tail q1)"
    using get_buf_sel(1) [of dev "pop_tail q1" "q_tail q" flush want "out\<lparr>o_more := False\<rparr>"] r by simp
  then show ?thesis using q1 dequeue_ready_sel(1) [OF q1(1)] by (simp add: pop_tail_def)
qed

lemma dequeue_shrinks_sel:
  "fst (mt76_dma_dequeue dev q flush want out) \<noteq> Rx_null
     \<Longrightarrow> q_queued (snd (snd (snd (mt76_dma_dequeue dev q flush want out)))) < q_queued q"
  using dequeue_shrinks [of dev q flush want out] by (metis prod.collapse)

section \<open>Cleaning up\<close>

text \<open>The \<open>do ... while (1)\<close> loop of \<open>mt76_dma_rx_cleanup\<close>; output arguments are null pointers.\<close>

definition no_out :: rx_out where
  "no_out = \<lparr>o_len = 0, o_info = 0, o_more = False, o_drop = False\<rparr>"

function rx_cleanup_loop :: "rx_dev \<Rightarrow> dma_queue \<Rightarrow> rx_dev \<times> dma_queue" where
  "rx_cleanup_loop dev q =
     (let r = mt76_dma_dequeue dev q True False no_out;
          dev = fst (snd (snd r));
          q' = snd (snd (snd r))
      in case fst r of
           Rx_null \<Rightarrow> (dev, q')
         | Rx_again \<Rightarrow> rx_cleanup_loop dev q'
         | Rx_data b \<Rightarrow> rx_cleanup_loop (if mt76_queue_is_wed_rro q' then dev else rd_act dev [Recycle b]) q')"
  by pat_completeness auto
termination
  by (relation "measure (\<lambda>(dev, q). q_queued q)")
    (auto simp: case_prod_beta intro!: dequeue_shrinks_sel)

declare rx_cleanup_loop.simps [simp del]

definition mt76_dma_rx_cleanup :: "rx_dev \<Rightarrow> dma_queue \<Rightarrow> rx_dev \<times> dma_queue" where
  "mt76_dma_rx_cleanup dev q =
     (if q_ndesc q = 0 \<or> mt76_queue_is_npu q then (dev, q)
      else let (dev, q) = rx_cleanup_loop dev q
           in case rd_rx_head dev of
                None \<Rightarrow> (dev, q)
              | Some f \<Rightarrow> ((rd_act dev [Free_rx_skb f])\<lparr>rd_rx_head := None\<rparr>, q))"

definition mt76_dma_rx_reset ::
  "rx_ops \<Rightarrow> bool \<Rightarrow> rx_dev \<Rightarrow> nat \<Rightarrow> dma_queue \<Rightarrow> (nat \<Rightarrow> (nat \<times> u64) option) \<Rightarrow> rx_dev \<times> dma_queue" where
  "mt76_dma_rx_reset ops wed_active dev qid q pool =
     (if q_ndesc q = 0 then (dev, q)
      else let q = (if \<not> mt76_queue_is_wed_rro_ind q \<and> \<not> mt76_queue_is_wed_rro_rxdmad_c q \<and> \<not> mt76_queue_is_npu q
                    then clear_descs q else q);
               (dev, q) = mt76_dma_rx_cleanup dev q
           in if mt76_queue_is_wed_tx_free q then (dev, q)
              else if wed_active \<and> mt76_queue_is_wed_rro q then (dev, q)
              else let q = mt76_dma_sync_idx q
                   in if mt76_queue_is_npu q then (dev, q)
                      else let (frames, dev, q) = mt76_dma_rx_fill ops dev qid q pool in (dev, q))"

section \<open>Assembling frames\<close>

definition mt76_add_fragment :: "rx_ops \<Rightarrow> rx_dev \<Rightarrow> rx_frame \<Rightarrow> buf_ptr \<Rightarrow> nat \<Rightarrow> bool \<Rightarrow> u32 \<Rightarrow> rx_dev" where
  "mt76_add_fragment ops dev skb data len has_more info =
     (let nr_frags = length (rf_frags skb);
          (skb, dev) = (if nr_frags < ro_max_frags ops
                        then (skb\<lparr>rf_frags := rf_frags skb @ [(data, len)], rf_len := rf_len skb + len\<rparr>, dev)
                        else (skb, rd_act dev [Recycle data]));
          dev = dev\<lparr>rd_rx_head := Some skb\<rparr>
      in if has_more then dev
         else (if nr_frags < ro_max_frags ops then rd_act dev [Rx_skb skb info] else rd_act dev [Free_rx_skb skb])
                \<lparr>rd_rx_head := None\<rparr>)"

text \<open>
  What the loop of \<open>mt76_dma_rx_process\<close> does with one dequeued buffer, and by how much \<open>done\<close>
  grows. \<open>Free_frag\<close> is the label \<open>free_frag\<close>.
\<close>

definition rx_one :: "rx_ops \<Rightarrow> dma_queue \<Rightarrow> rx_dev \<Rightarrow> buf_ptr \<Rightarrow> rx_out \<Rightarrow> rx_dev \<times> nat" where
  "rx_one ops q dev data out =
     (let dev = (if mt76_queue_is_wed_rro_ind q \<and> ro_rro_ind ops then rd_act dev [Rro_ind_process data] else dev)
      in if mt76_queue_is_wed_rro q \<and> \<not> mt76_queue_is_wed_rro_rxdmad_c q then (dev, 1)
         else if o_drop out then (rd_act dev [Recycle data], 0)
         else
           let data_len = (if rd_rx_head dev = None then int (q_buf_size q) - int (ro_overhead ops) else int (q_buf_size q))
           in if data_len < int (o_len out) + int (q_buf_offset q)
              then ((case rd_rx_head dev of None \<Rightarrow> rd_act dev [Recycle data]
                     | Some f \<Rightarrow> rd_act dev [Free_rx_skb f, Recycle data])\<lparr>rd_rx_head := None\<rparr>, 0)
              else case rd_rx_head dev of
                Some f \<Rightarrow> (mt76_add_fragment ops dev f data (o_len out) (o_more out) (o_info out), 0)
              | None \<Rightarrow>
                  if \<not> o_more out \<and> (case ro_rx_check ops of None \<Rightarrow> False | Some chk \<Rightarrow> \<not> chk data (o_len out))
                  then (rd_act dev [Recycle data], 0)
                  else if \<not> ro_build_skb ops data then (rd_act dev [Recycle data], 0)
                  else let skb = \<lparr>rf_head = data, rf_len = o_len out, rf_info = o_info out, rf_frags = []\<rparr>
                       in if o_more out then (dev\<lparr>rd_rx_head := Some skb\<rparr>, 1)
                          else (rd_act dev [Rx_skb skb (o_info out)], 1))"

text \<open>
  The loop of \<open>mt76_dma_rx_process\<close>. \<open>rd k\<close> is the \<open>k\<close>-th read of the hardware's index, \<open>idx\<close> the
  last one seen (used when \<open>check_ddone\<close>); \<open>out0\<close> is what the output variables hold before they
  are written.
\<close>

function rx_process_loop ::
  "rx_ops \<Rightarrow> (nat \<Rightarrow> nat) \<Rightarrow> bool \<Rightarrow> rx_out \<Rightarrow> rx_dev \<Rightarrow> dma_queue \<Rightarrow> nat \<Rightarrow> nat \<Rightarrow> nat \<Rightarrow> nat
     \<Rightarrow> rx_dev \<times> dma_queue \<times> nat" where
  "rx_process_loop ops rd check out0 dev q k idx budget n =
     (if \<not> n < budget then (dev, q, n)
      else
        let (k', idx') = (if check \<and> q_tail q = idx then (k + 1, rd k) else (k, idx))
        in if check \<and> q_tail q = idx' then (dev, q, n)
           else
             let r = mt76_dma_dequeue dev q False True (out0\<lparr>o_drop := False\<rparr>);
                 dev' = fst (snd (snd r));
                 q' = snd (snd (snd r))
             in case fst r of
                  Rx_null \<Rightarrow> (dev', q', n)
                | Rx_again \<Rightarrow> rx_process_loop ops rd check out0 dev' q' k' idx' budget (n + 1)
                | Rx_data data \<Rightarrow>
                    (let s = rx_one ops q' dev' data (fst (snd r))
                     in rx_process_loop ops rd check out0 (fst s) q' k' idx' budget (n + snd s)))"
  by pat_completeness auto
termination
  by (relation "measure (\<lambda>(ops, rd, check, out0, dev, q, k, idx, budget, n). q_queued q)")
    (auto simp: case_prod_beta intro!: dequeue_shrinks_sel)

declare rx_process_loop.simps [simp del]

definition mt76_dma_rx_process ::
  "rx_ops \<Rightarrow> (nat \<Rightarrow> nat) \<Rightarrow> rx_out \<Rightarrow> (nat \<Rightarrow> (nat \<times> u64) option) \<Rightarrow> rx_dev \<Rightarrow> nat \<Rightarrow> dma_queue \<Rightarrow> nat
     \<Rightarrow> nat \<times> rx_dev \<times> dma_queue" where
  "mt76_dma_rx_process ops rd out0 pool dev qid q budget =
     (let check = qflag 7 q \<or> ro_soc_wed ops \<and> mt76_queue_is_wed_tx_free q;
          (dev, q, n) = rx_process_loop ops rd check out0 dev q 1 (rd 0) budget 0;
          (frames, dev, q) = mt76_dma_rx_fill ops dev qid q pool
      in (n, dev, q))"

text \<open>
  \<open>mt76_dma_rx_poll\<close>: the rounds of the loop, each with its own reads and pool. The result says
  whether the driver's \<open>rx_poll_complete\<close> was called; \<open>napi_done\<close> is what \<open>napi_complete\<close> returns.
  \<open>mt76_rx_poll_complete\<close> hands the frames to the reorder code of theory AggRx.
\<close>

fun rx_poll_loop ::
  "rx_ops \<Rightarrow> (nat \<Rightarrow> nat \<Rightarrow> nat) \<Rightarrow> rx_out \<Rightarrow> (nat \<Rightarrow> nat \<Rightarrow> (nat \<times> u64) option) \<Rightarrow> nat \<Rightarrow> rx_dev \<Rightarrow> nat
     \<Rightarrow> dma_queue \<Rightarrow> nat \<Rightarrow> nat \<Rightarrow> nat \<Rightarrow> (nat \<times> rx_dev \<times> dma_queue)" where
  "rx_poll_loop ops rd out0 pool i dev qid q budget n 0 = (n, dev, q)"
| "rx_poll_loop ops rd out0 pool i dev qid q budget n (Suc fuel) =
     (let (cur, dev, q) = mt76_dma_rx_process ops (rd i) out0 (pool i) dev qid q (budget - n);
          n = n + cur
      in if cur \<noteq> 0 \<and> n < budget then rx_poll_loop ops rd out0 pool (i + 1) dev qid q budget n fuel
         else (n, dev, q))"

text \<open>Every further round adds to the count, so \<open>budget + 1\<close> rounds are enough.\<close>

definition mt76_dma_rx_poll ::
  "rx_ops \<Rightarrow> (nat \<Rightarrow> nat \<Rightarrow> nat) \<Rightarrow> rx_out \<Rightarrow> (nat \<Rightarrow> nat \<Rightarrow> (nat \<times> u64) option) \<Rightarrow> bool \<Rightarrow> rx_dev \<Rightarrow> nat
     \<Rightarrow> dma_queue \<Rightarrow> nat \<Rightarrow> nat \<times> bool \<times> rx_dev \<times> dma_queue" where
  "mt76_dma_rx_poll ops rd out0 pool napi_done dev qid q budget =
     (let (n, dev, q) = rx_poll_loop ops rd out0 pool 0 dev qid q budget 0 (budget + 1)
      in (n, n < budget \<and> napi_done, dev, q))"

end
