(* ===== verification/DmaRxProps.thy ===== *)
theory DmaRxProps
  imports DmaRx "HOL-Library.Multiset"
begin

text \<open>
  What the receive side of theory DmaRx does on a ring without offload: filling keeps the ring a
  queue of buffers whose descriptors point to them, one poll takes the oldest buffers and hands
  over, keeps or recycles each of them exactly once, and the budget bounds the work.
\<close>

section \<open>Filling the ring\<close>

definition plain :: "dma_queue \<Rightarrow> bool" where
  "plain q \<longleftrightarrow> \<not> mt76_queue_is_wed_rro q \<and> \<not> mt76_queue_is_wed_rx q"

text \<open>The buffer of a slot and the address its descriptor gives the hardware.\<close>

definition rx_view :: "queue_entry \<times> dma_desc \<Rightarrow> buf_ptr option \<times> u32" where
  "rx_view p = (e_buf (fst p), d_buf0 (snd p))"

definition rx_inv :: "dma_queue \<Rightarrow> bool" where
  "rx_inv q \<longleftrightarrow> ring_ok q \<and> plain q \<and> q_queued q < q_ndesc q \<and> (\<forall>p \<in> set (ring q). e_buf (fst p) \<noteq> None)"

lemma plain_kinds:
  assumes "plain q"
  shows "\<not> mt76_queue_is_wed_rro q" "\<not> mt76_queue_is_wed_rro_ind q" "\<not> mt76_queue_is_wed_rro_rxdmad_c q"
    "\<not> mt76_queue_is_wed_rro_data q" "\<not> mt76_queue_is_wed_rro_msdu_pg q" "\<not> mt76_queue_is_wed_rx q"
  using assms
  by (simp_all add: plain_def mt76_queue_is_wed_rro_ind_def mt76_queue_is_wed_rro_rxdmad_c_def
      mt76_queue_is_wed_rro_data_def mt76_queue_is_wed_rro_msdu_pg_def)

lemma plain_flags: "q_flags q' = q_flags q \<Longrightarrow> plain q' = plain q"
  by (simp add: plain_def mt76_queue_is_wed_rro_def mt76_queue_is_wed_rx_def qflag_def qtype_def)

definition bump_magic :: "dma_queue \<Rightarrow> dma_queue" where
  "bump_magic q = (if qflag 7 q \<and> q_head q + 1 = q_ndesc q
     then q\<lparr>q_magic_cnt := (q_magic_cnt q + 1) mod 16\<rparr> else q)"

lemma bump_magic_sel [simp]:
  "ring (bump_magic q) = ring q" "ring_ok (bump_magic q) = ring_ok q" "q_queued (bump_magic q) = q_queued q"
  "q_ndesc (bump_magic q) = q_ndesc q" "q_flags (bump_magic q) = q_flags q" "q_head (bump_magic q) = q_head q"
  "q_buf_size (bump_magic q) = q_buf_size q" "q_buf_offset (bump_magic q) = q_buf_offset q"
  "q_entry (bump_magic q) = q_entry q" "q_tail (bump_magic q) = q_tail q" "q_desc (bump_magic q) = q_desc q"
  by (simp_all add: bump_magic_def ring_def slot_at_def ring_ok_def)

lemma add_rx_buf_plain:
  assumes "plain q"
  obtains ctrl buf1 info where
    "mt76_dma_add_rx_buf ops dev qid q buf data =
       (Inr (q_head q), dev, rx_store (bump_magic q) buf Txwi_null data
          \<lparr>d_buf0 = ucast (qb_addr buf), d_ctrl = ctrl, d_buf1 = buf1, d_info = info\<rparr>)"
  using plain_kinds [OF assms] unfolding mt76_dma_add_rx_buf_def Let_def bump_magic_def [symmetric] by simp

lemma push_head_keeps [simp]:
  "q_flags (push_head q e d) = q_flags q" "q_buf_size (push_head q e d) = q_buf_size q"
  "q_buf_offset (push_head q e d) = q_buf_offset q"
  by (simp_all add: push_head_def)

lemma rx_fill_stop:
  assumes "plain q" "\<not> q_queued q + 1 < q_ndesc q \<or> pool n = None"
  shows "rx_fill_loop ops dev qid q pool n = (dev, q, n)"
  using assms(2) plain_kinds [OF assms(1)] by (subst rx_fill_loop.simps) (auto simp: Let_def)

lemma rx_fill_step:
  assumes "plain q" "q_queued q + 1 < q_ndesc q" "pool n = Some (b, addr)"
  obtains q1 where "rx_fill_loop ops dev qid q pool n = rx_fill_loop ops dev qid q1 pool (n + 1)"
    "ring_ok q \<Longrightarrow> map rx_view (ring q1) = map rx_view (ring q) @ [(Some (Buf b), ucast (addr + of_nat (q_buf_offset q)))]"
    "ring_ok q \<Longrightarrow> ring_ok q1" "plain q1"
    "q_queued q1 = q_queued q + 1" "q_ndesc q1 = q_ndesc q" "q_buf_offset q1 = q_buf_offset q"
proof -
  let ?buf = "\<lparr>qb_addr = addr + of_nat (q_buf_offset q),
      qb_len = of_nat (q_buf_size q - ro_overhead ops - q_buf_offset q) AND 0x7FFF, qb_skip_unmap = False\<rparr>"
  obtain ctrl buf1 info where add: "mt76_dma_add_rx_buf ops dev qid q ?buf (Some (Buf b)) =
       (Inr (q_head q), dev, rx_store (bump_magic q) ?buf Txwi_null (Some (Buf b))
          \<lparr>d_buf0 = ucast (qb_addr ?buf), d_ctrl = ctrl, d_buf1 = buf1, d_info = info\<rparr>)"
    using add_rx_buf_plain [OF assms(1)] by blast
  let ?q = "rx_store (bump_magic q) ?buf Txwi_null (Some (Buf b))
          \<lparr>d_buf0 = ucast (qb_addr ?buf), d_ctrl = ctrl, d_buf1 = buf1, d_info = info\<rparr>"
  show thesis
  proof (rule that [of ?q])
    show "rx_fill_loop ops dev qid q pool n = rx_fill_loop ops dev qid ?q pool (n + 1)"
      using assms(2,3) plain_kinds [OF assms(1)] add by (subst rx_fill_loop.simps) (simp add: Let_def)
    have "q_flags ?q = q_flags q" by (simp add: rx_store_def)
    then show "plain ?q" using assms(1) plain_flags by blast
  qed (use assms(2) in \<open>simp_all add: rx_store_def ring_push ring_ok_push rx_view_def\<close>)
qed

lemma rx_inv_view: "rx_inv q \<longleftrightarrow> ring_ok q \<and> plain q \<and> q_queued q < q_ndesc q \<and> (\<forall>v \<in> set (map rx_view (ring q)). fst v \<noteq> None)"
  by (auto simp: rx_inv_def rx_view_def)

lemma rx_fill_loop_spec:
  assumes "rx_inv q" "(dev', q', n') = rx_fill_loop ops dev qid q pool n"
  shows "dev' = dev \<and> rx_inv q' \<and> q_ndesc q' = q_ndesc q
    \<and> (\<exists>m. n' = n + m \<and> q_queued q' = q_queued q + m
        \<and> map rx_view (ring q') = map rx_view (ring q)
            @ map (\<lambda>i. (Some (Buf (fst (the (pool i)))), ucast (snd (the (pool i)) + of_nat (q_buf_offset q)))) [n..<n + m]
        \<and> (\<forall>i \<in> {n..<n + m}. pool i \<noteq> None)
        \<and> (q_queued q' + 1 = q_ndesc q' \<or> pool (n + m) = None))"
  using assms
proof (induction "q_ndesc q - q_queued q" arbitrary: q n rule: less_induct)
  case less
  have pl: "plain q" and ok: "ring_ok q" and room: "q_queued q < q_ndesc q" using less.prems(1) by (simp_all add: rx_inv_def)
  show ?case
  proof (cases "q_queued q + 1 < q_ndesc q \<and> pool n \<noteq> None")
    case False
    then have "rx_fill_loop ops dev qid q pool n = (dev, q, n)" using rx_fill_stop [OF pl] by blast
    then have "dev' = dev" "q' = q" "n' = n" using less.prems(2) by simp_all
    then show ?thesis using less.prems(1) False room by (auto intro!: exI [of _ 0])
  next
    case True
    then obtain b addr where p: "pool n = Some (b, addr)" by auto
    have lt: "q_queued q + 1 < q_ndesc q" using True by simp
    obtain q1 where q1: "rx_fill_loop ops dev qid q pool n = rx_fill_loop ops dev qid q1 pool (n + 1)"
      "map rx_view (ring q1) = map rx_view (ring q) @ [(Some (Buf b), ucast (addr + of_nat (q_buf_offset q)))]"
      "ring_ok q1" "plain q1" "q_queued q1 = q_queued q + 1" "q_ndesc q1 = q_ndesc q" "q_buf_offset q1 = q_buf_offset q"
      by (rule rx_fill_step [where ops = ops and dev = dev and qid = qid and pool = pool, OF pl lt p]) (use ok in blast)
    have inv1: "rx_inv q1" using q1 True less.prems(1) by (simp add: rx_inv_view)
    have d: "q_ndesc q1 - q_queued q1 < q_ndesc q - q_queued q" using q1(5,6) lt by linarith
    have run: "(dev', q', n') = rx_fill_loop ops dev qid q1 pool (n + 1)" using less.prems(2) q1(1) by simp
    from less.hyps [OF d inv1 run] obtain m where
      m: "dev' = dev" "rx_inv q'" "q_ndesc q' = q_ndesc q1" "n' = n + 1 + m" "q_queued q' = q_queued q1 + m"
        "map rx_view (ring q') = map rx_view (ring q1)
            @ map (\<lambda>i. (Some (Buf (fst (the (pool i)))), ucast (snd (the (pool i)) + of_nat (q_buf_offset q1)))) [n + 1..<n + 1 + m]"
        "\<forall>i \<in> {n + 1..<n + 1 + m}. pool i \<noteq> None" "q_queued q' + 1 = q_ndesc q' \<or> pool (n + 1 + m) = None"
      by blast
    have up: "[n..<n + Suc m] = n # [n + 1..<n + 1 + m]" using upt_conv_Cons [of n "n + Suc m"] by simp
    show ?thesis
    proof (intro conjI exI [of _ "Suc m"])
      show "map rx_view (ring q') = map rx_view (ring q)
          @ map (\<lambda>i. (Some (Buf (fst (the (pool i)))), ucast (snd (the (pool i)) + of_nat (q_buf_offset q)))) [n..<n + Suc m]"
        unfolding up m(6) q1(2,7) using p by simp
      show "\<forall>i \<in> {n..<n + Suc m}. pool i \<noteq> None"
      proof
        fix i assume "i \<in> {n..<n + Suc m}"
        then show "pool i \<noteq> None" using m(7) p by (cases "i = n") auto
      qed
    qed (use m q1 in simp_all)
  qed
qed

text \<open>
  \<open>mt76_dma_rx_fill\<close> puts the buffers of the page pool, in the order they came, behind those
  already in the ring, with descriptors that point to them; it stops only when one slot is left
  or the pool is exhausted, reports how many it added, and keeps the ring's invariant: slots in
  use are never overwritten.
\<close>

theorem rx_fill_appends_buffers:
  assumes "rx_inv q" "(m, dev', q') = mt76_dma_rx_fill ops dev qid q pool"
  shows "dev' = dev \<and> rx_inv q' \<and> q_queued q' = q_queued q + m \<and> q_ndesc q' = q_ndesc q
    \<and> map rx_view (ring q') = map rx_view (ring q)
        @ map (\<lambda>i. (Some (Buf (fst (the (pool i)))), ucast (snd (the (pool i)) + of_nat (q_buf_offset q)))) [0..<m]
    \<and> (\<forall>i<m. pool i \<noteq> None) \<and> (q_queued q' + 1 = q_ndesc q' \<or> pool m = None)
    \<and> (0 < m \<and> \<not> mt76_queue_is_emi q' \<longrightarrow> q_reg_cpu_idx q' = of_nat (q_head q'))"
proof -
  define l where "l = rx_fill_loop ops dev qid q pool 0"
  have kick: "ring (mt76_dma_kick_queue x) = ring x" "q_queued (mt76_dma_kick_queue x) = q_queued x"
    "q_ndesc (mt76_dma_kick_queue x) = q_ndesc x" "rx_inv (mt76_dma_kick_queue x) = rx_inv x"
    "q_flags (mt76_dma_kick_queue x) = q_flags x"
    "\<not> mt76_queue_is_emi x \<Longrightarrow> q_reg_cpu_idx (mt76_dma_kick_queue x) = of_nat (q_head (mt76_dma_kick_queue x))" for x
    by (simp_all add: mt76_dma_kick_queue_def ring_def slot_at_def rx_inv_def ring_ok_def plain_def
        mt76_queue_is_wed_rro_def mt76_queue_is_wed_rx_def qflag_def qtype_def mt76_queue_is_emi_def)
  define lq where "lq = fst (snd l)"
  have n: "q_ndesc q \<noteq> 0" using assms(1) by (simp add: rx_inv_def ring_ok_def)
  have "m = snd (snd l)" and q': "dev' = fst l"
      "q' = (if 0 < m \<or> mt76_queue_is_wed_rx lq then mt76_dma_kick_queue lq else lq)"
    using assms(2) n by (simp_all add: mt76_dma_rx_fill_def l_def lq_def Let_def case_prod_beta)
  then have l: "rx_fill_loop ops dev qid q pool 0 = (fst l, lq, m)" by (simp add: l_def lq_def)
  from rx_fill_loop_spec [OF assms(1) l [symmetric]]
  have L: "fst l = dev" "rx_inv lq" "q_queued lq = q_queued q + m" "q_ndesc lq = q_ndesc q"
    "map rx_view (ring lq) = map rx_view (ring q)
        @ map (\<lambda>i. (Some (Buf (fst (the (pool i)))), ucast (snd (the (pool i)) + of_nat (q_buf_offset q)))) [0..<m]"
    "\<forall>i<m. pool i \<noteq> None" "q_queued lq + 1 = q_ndesc lq \<or> pool m = None"
    by auto
  show ?thesis
    using L kick unfolding q' by (auto simp: mt76_queue_is_emi_def qflag_def)
qed

section \<open>Taking buffers off the ring\<close>

lemma clear_pop: "clear_buf (pop_tail q) i = pop_tail (upd_entry q i (\<lambda>e. e\<lparr>e_buf := None\<rparr>))"
  by (simp add: clear_buf_def pop_tail_def upd_entry_def)

lemma clear_pop_ring:
  assumes "ring_ok q" "0 < q_queued q"
  shows "ring (clear_buf (pop_tail q) (q_tail q)) = tl (ring q)" "ring_ok (clear_buf (pop_tail q) (q_tail q))"
  using assms ring_pop [of "upd_entry q (q_tail q) (\<lambda>e. e\<lparr>e_buf := None\<rparr>)"]
    ring_ok_pop [of "upd_entry q (q_tail q) (\<lambda>e. e\<lparr>e_buf := None\<rparr>)"] ring_upd_tail [OF assms]
  by (simp_all add: clear_pop)

lemma pop_clear_sel [simp]:
  "q_flags (clear_buf (pop_tail q) i) = q_flags q" "q_ndesc (clear_buf (pop_tail q) i) = q_ndesc q"
  "q_queued (clear_buf (pop_tail q) i) = q_queued q - 1" "q_buf_size (clear_buf (pop_tail q) i) = q_buf_size q"
  "q_buf_offset (clear_buf (pop_tail q) i) = q_buf_offset q"
  by (simp_all add: clear_buf_def pop_tail_def upd_entry_def)

lemma dequeue_plain:
  assumes "rx_inv q" "mt76_dma_dequeue dev q False True out = (buf, out', dev', q')"
  shows "dev' = dev \<and> (buf = Rx_null \<and> q' = q
    \<or> (\<exists>b p. buf = Rx_data b \<and> ring q = p # ring q' \<and> e_buf (fst p) = Some b \<and> rx_inv q'
         \<and> q_ndesc q' = q_ndesc q \<and> q_buf_size q' = q_buf_size q \<and> q_buf_offset q' = q_buf_offset q))"
proof -
  have pl: "plain q" and ok: "ring_ok q" using assms(1) by (simp_all add: rx_inv_def)
  note kinds = plain_kinds [OF pl]
  have ready: "dequeue_ready q False = (if d_ctrl (q_desc q ! q_tail q) AND BIT 31 = 0 then None else Some q)"
    using kinds by (simp add: dequeue_ready_def)
  show ?thesis
  proof (cases "q_queued q = 0 \<or> d_ctrl (q_desc q ! q_tail q) AND BIT 31 = 0")
    case True
    then have "dev' = dev \<and> buf = Rx_null \<and> q' = q"
      using assms(2) by (auto simp: mt76_dma_dequeue_def ready Let_def split: if_splits)
    then show ?thesis by simp
  next
    case False
    have pk: "\<not> mt76_queue_is_wed_rro (pop_tail q)" "\<not> mt76_queue_is_wed_rx (pop_tail q)"
        "\<not> mt76_queue_is_wed_rro_rxdmad_c (pop_tail q)"
      using plain_kinds [of "pop_tail q"] pl plain_flags [of "pop_tail q" q] by (simp_all add: pop_tail_def)
    have pe: "q_entry (pop_tail q) = q_entry q" by (simp add: pop_tail_def)
    obtain p where p: "ring q = p # tl (ring q)" "p = slot_at q (q_tail q)"
      using False ring_hd [OF ok] ring_Nil [of q] by (cases "ring q") auto
    then obtain b where b: "e_buf (q_entry q ! q_tail q) = Some b"
      using assms(1) by (metis fst_conv list.set_intros(1) not_None_eq rx_inv_def slot_at_def)
    have "buf = Rx_data b \<and> dev' = dev \<and> q' = clear_buf (pop_tail q) (q_tail q)"
      using assms(2) False kinds pk b
      by (simp add: mt76_dma_dequeue_def ready mt76_dma_get_buf_def Let_def rx_data_of_def pe)
    moreover have "rx_inv (clear_buf (pop_tail q) (q_tail q))"
    proof -
      have "set (tl (ring q)) \<subseteq> set (ring q)" using p(1) by (metis set_subset_Cons)
      then show ?thesis
        using assms(1) False clear_pop_ring [OF ok] plain_flags [of "clear_buf (pop_tail q) (q_tail q)" q]
        by (auto simp: rx_inv_def)
    qed
    moreover have "ring q = p # ring (clear_buf (pop_tail q) (q_tail q))"
      using clear_pop_ring(1) [OF ok] False p(1) by simp
    ultimately show ?thesis using b p(2) by (auto simp: slot_at_def)
  qed
qed

text \<open>The buffers an action disposes of, and those the device holds or has disposed of.\<close>

definition frame_bufs :: "rx_frame \<Rightarrow> buf_ptr list" where
  "frame_bufs f = rf_head f # map fst (rf_frags f)"

fun action_bufs :: "rx_action \<Rightarrow> buf_ptr list" where
  "action_bufs (Rx_skb f info) = frame_bufs f"
| "action_bufs (Recycle b) = [b]"
| "action_bufs (Free_rx_skb f) = frame_bufs f"
| "action_bufs (Rro_ind_process b) = []"

definition accounted :: "rx_dev \<Rightarrow> buf_ptr multiset" where
  "accounted dev = mset (concat (map action_bufs (rd_log dev)))
     + (case rd_rx_head dev of None \<Rightarrow> {#} | Some f \<Rightarrow> mset (frame_bufs f))"

lemma accounted_simps [simp]:
  "rd_log (rd_act dev as) = rd_log dev @ as" "rd_rx_head (rd_act dev as) = rd_rx_head dev"
  by (simp_all add: rd_act_def)

lemma rx_one_accounted:
  assumes "plain q"
  shows "accounted (fst (rx_one ops q dev data out)) = accounted dev + {#data#}"
    and "snd (rx_one ops q dev data out) \<le> 1"
  using plain_kinds [OF assms]
  by (auto simp: rx_one_def mt76_add_fragment_def accounted_def frame_bufs_def Let_def split: option.splits)

abbreviation slot_bufs :: "(queue_entry \<times> dma_desc) list \<Rightarrow> buf_ptr list" where
  "slot_bufs ps \<equiv> map (\<lambda>p. the (e_buf (fst p))) ps"

lemma rx_process_loop_spec:
  assumes "rx_inv q" "(dev', q', n') = rx_process_loop ops rd check out0 dev q k idx budget n" "n \<le> budget"
  shows "rx_inv q' \<and> q_ndesc q' = q_ndesc q \<and> q_buf_offset q' = q_buf_offset q \<and> n \<le> n' \<and> n' \<le> budget
    \<and> (\<exists>j \<le> q_queued q. ring q' = drop j (ring q) \<and> accounted dev' = accounted dev + mset (slot_bufs (take j (ring q))))"
  using assms
proof (induction "q_queued q" arbitrary: q dev n k idx rule: less_induct)
  case less
  let ?i = "if check \<and> q_tail q = idx then (k + 1, rd k) else (k, idx)"
  let ?r = "mt76_dma_dequeue dev q False True (out0\<lparr>o_drop := False\<rparr>)"
  obtain buf out d1 q1 where r: "?r = (buf, out, d1, q1)" by (cases ?r) auto
  have D: "d1 = dev" "buf = Rx_null \<and> q1 = q \<or> (\<exists>b p. buf = Rx_data b \<and> ring q = p # ring q1 \<and> e_buf (fst p) = Some b
       \<and> rx_inv q1 \<and> q_ndesc q1 = q_ndesc q \<and> q_buf_offset q1 = q_buf_offset q)"
    using dequeue_plain [OF less.prems(1) r] by auto
  show ?case
  proof (cases "n < budget \<and> \<not> (check \<and> q_tail q = snd ?i) \<and> buf \<noteq> Rx_null")
    case False
    then have "dev' = dev \<and> q' = q \<and> n' = n"
      using less.prems(2) D r by (subst (asm) rx_process_loop.simps) (auto simp: Let_def split: if_splits)
    then show ?thesis using less.prems(1,3) by (auto intro!: exI [of _ 0])
  next
    case True
    then obtain b p where b: "buf = Rx_data b" "ring q = p # ring q1" "e_buf (fst p) = Some b" "rx_inv q1"
        "q_ndesc q1 = q_ndesc q" "q_buf_offset q1 = q_buf_offset q"
      using D(2) by auto
    let ?s = "rx_one ops q1 dev b out"
    have acc: "accounted (fst ?s) = accounted dev + {#b#}" "snd ?s \<le> 1"
      using rx_one_accounted b(4) unfolding rx_inv_def by blast+
    have run: "(dev', q', n') = rx_process_loop ops rd check out0 (fst ?s) q1 (fst ?i) (snd ?i) budget (n + snd ?s)"
      using less.prems(2) True D(1) r b(1)
      by (subst (asm) rx_process_loop.simps) (simp add: Let_def case_prod_beta)
    have q: "q_queued q = q_queued q1 + 1" using b(2) ring_length [of q] ring_length [of q1] by simp
    have "n + snd ?s \<le> budget" using True acc(2) by simp
    then obtain j where j: "rx_inv q'" "q_ndesc q' = q_ndesc q1" "q_buf_offset q' = q_buf_offset q1" "n + snd ?s \<le> n'"
        "n' \<le> budget" "j \<le> q_queued q1" "ring q' = drop j (ring q1)"
        "accounted dev' = accounted (fst ?s) + mset (slot_bufs (take j (ring q1)))"
      using less.hyps [OF _ b(4) run] q by auto
    show ?thesis
      by (intro conjI exI [of _ "Suc j"]) (use j b acc q in simp_all)
  qed
qed

text \<open>
  C11: One round of receive processing on a ring without offload takes some number \<open>j\<close> of the
  oldest buffers off the ring, in order, and hands over, keeps (in the frame under construction)
  or recycles each of them exactly once; it refills the ring behind the remaining ones, keeps its
  invariant, and counts at most \<open>budget\<close> frames.
\<close>

theorem rx_process_accounts_buffers:
  assumes "rx_inv q" "(n, dev', q') = mt76_dma_rx_process ops rd out0 pool dev qid q budget"
  shows "rx_inv q' \<and> n \<le> budget
    \<and> (\<exists>j m. j \<le> q_queued q \<and> accounted dev' = accounted dev + mset (slot_bufs (take j (ring q)))
        \<and> slot_bufs (ring q') = slot_bufs (drop j (ring q)) @ map (\<lambda>i. Buf (fst (the (pool i)))) [0..<m]
        \<and> (\<forall>i<m. pool i \<noteq> None))"
proof -
  define check where "check = (qflag 7 q \<or> ro_soc_wed ops \<and> mt76_queue_is_wed_tx_free q)"
  define l where "l = rx_process_loop ops rd check out0 dev q 1 (rd 0) budget 0"
  define fl where "fl = mt76_dma_rx_fill ops (fst l) qid (fst (snd l)) pool"
  have res: "n = snd (snd l)" "dev' = fst (snd fl)" "q' = snd (snd fl)"
    using assms(2) by (simp_all add: mt76_dma_rx_process_def check_def l_def fl_def case_prod_beta prod_eq_iff Let_def)
  have "(fst l, fst (snd l), snd (snd l)) = rx_process_loop ops rd check out0 dev q 1 (rd 0) budget 0"
    by (simp add: l_def)
  from rx_process_loop_spec [OF assms(1) this] obtain j where
    j: "rx_inv (fst (snd l))" "snd (snd l) \<le> budget" "j \<le> q_queued q" "ring (fst (snd l)) = drop j (ring q)"
      "accounted (fst l) = accounted dev + mset (slot_bufs (take j (ring q)))"
    by auto
  have "(fst fl, fst (snd fl), snd (snd fl)) = mt76_dma_rx_fill ops (fst l) qid (fst (snd l)) pool"
    by (simp add: fl_def)
  note F = rx_fill_appends_buffers [OF j(1) this]
  have "map (the \<circ> fst) (map rx_view (ring q')) = map (the \<circ> fst) (map rx_view (ring (fst (snd l)))
      @ map (\<lambda>i. (Some (Buf (fst (the (pool i)))), ucast (snd (the (pool i)) + of_nat (q_buf_offset (fst (snd l)))))) [0..<fst fl])"
    using F res by simp
  then have "slot_bufs (ring q') = slot_bufs (drop j (ring q)) @ map (\<lambda>i. Buf (fst (the (pool i)))) [0..<fst fl]"
    by (simp add: rx_view_def comp_def j(4))
  with F j res show ?thesis by (intro conjI exI [of _ j] exI [of _ "fst fl"]) simp_all
qed

section \<open>The poll loop\<close>

lemma rx_poll_loop_budget:
  assumes "rx_inv q" "n \<le> budget"
  shows "fst (rx_poll_loop ops rd out0 pool i dev qid q budget n fuel) \<le> budget
    \<and> rx_inv (snd (snd (rx_poll_loop ops rd out0 pool i dev qid q budget n fuel)))"
  using assms
proof (induction fuel arbitrary: i dev q n)
  case 0
  then show ?case by simp
next
  case (Suc fuel)
  obtain cur d1 q1 where r: "mt76_dma_rx_process ops (rd i) out0 (pool i) dev qid q (budget - n) = (cur, d1, q1)"
    by (cases "mt76_dma_rx_process ops (rd i) out0 (pool i) dev qid q (budget - n)") auto
  then have "rx_inv q1" "cur \<le> budget - n"
    using rx_process_accounts_buffers [OF Suc.prems(1) r [symmetric]] by simp_all
  with Suc show ?case by (auto simp: r Let_def)
qed

lemma rx_poll_loop_fuel:
  assumes "rx_inv q" "budget < n + fuel" "n \<le> budget"
  shows "rx_poll_loop ops rd out0 pool i dev qid q budget n (fuel + extra)
       = rx_poll_loop ops rd out0 pool i dev qid q budget n fuel"
  using assms
proof (induction fuel arbitrary: i dev q n)
  case 0
  then show ?case by simp
next
  case (Suc fuel)
  obtain cur d1 q1 where r: "mt76_dma_rx_process ops (rd i) out0 (pool i) dev qid q (budget - n) = (cur, d1, q1)"
    by (cases "mt76_dma_rx_process ops (rd i) out0 (pool i) dev qid q (budget - n)") auto
  then have "rx_inv q1" "cur \<le> budget - n"
    using rx_process_accounts_buffers [OF Suc.prems(1) r [symmetric]] by simp_all
  then show ?case using Suc.IH [of q1 "n + cur" "i + 1" d1] Suc.prems by (auto simp: r Let_def)
qed

text \<open>
  A poll ends and keeps its budget: the number of frames it reports is at most \<open>budget\<close>,
  more rounds than the model allows would change nothing, the ring's invariant holds afterwards,
  and \<open>rx_poll_complete\<close> runs only when the budget was not used up.
\<close>

theorem rx_poll_ends_in_budget:
  assumes "rx_inv q" "(n, completed, dev', q') = mt76_dma_rx_poll ops rd out0 pool napi_done dev qid q budget"
  shows "n \<le> budget \<and> rx_inv q' \<and> (completed \<longrightarrow> n < budget)
    \<and> (\<forall>extra. rx_poll_loop ops rd out0 pool 0 dev qid q budget 0 (budget + 1 + extra) = (n, dev', q'))"
proof -
  define l where "l = rx_poll_loop ops rd out0 pool 0 dev qid q budget 0 (budget + 1)"
  have "n = fst l" "dev' = fst (snd l)" "q' = snd (snd l)" "completed \<longleftrightarrow> n < budget \<and> napi_done"
    using assms(2) by (simp_all add: mt76_dma_rx_poll_def l_def case_prod_beta Let_def prod_eq_iff del: rx_poll_loop.simps)
  then show ?thesis
    using rx_poll_loop_budget [OF assms(1), of 0 budget ops rd out0 pool 0 dev qid "budget + 1"]
      rx_poll_loop_fuel [OF assms(1), of budget 0 "budget + 1" ops rd out0 pool 0 dev qid]
    unfolding l_def by simp
qed

section \<open>Witnesses\<close>

definition demo_rx_queue :: dma_queue where
  "demo_rx_queue = \<lparr>q_entry = replicate 4 zero_entry, q_desc = replicate 4 \<lparr>d_buf0 = 0, d_ctrl = 0, d_buf1 = 0, d_info = 0\<rparr>,
     q_rro_data1 = [], q_head = 0, q_tail = 0, q_ndesc = 4, q_queued = 0, q_buf_size = 2048, q_buf_offset = 0,
     q_stopped = False, q_blocked = False, q_flags = 0, q_magic_cnt = 0, q_emi_cpu_idx = 0, q_desc_dma = 0,
     q_reg_desc_base = 0, q_reg_ring_size = 4, q_reg_cpu_idx = 0, q_reg_dma_idx = 0\<rparr>"

definition demo_ops :: rx_ops where
  "demo_ops = \<lparr>ro_alloc = (\<lambda>m lo hi. None), ro_kzalloc = True, ro_msdu_page = None, ro_rro_ind = False,
     ro_rx_check = None, ro_build_skb = (\<lambda>b. True), ro_overhead = 320, ro_max_frags = 17, ro_soc_wed = False\<rparr>"

definition demo_rx_dev :: rx_dev where
  "demo_rx_dev = \<lparr>rd_tok = \<lparr>td_token = Map.empty, td_count = 0, td_start = 0, td_size = 66, td_wed_active = False,
     td_wed_start = 0, td_wed_count = 0, td_rx_token = Map.empty, td_rx_size = 0, td_blocked = False,
     td_band1 = None, td_band2 = None, td_worker_scheduled = 0, td_tx_wait_wakeups = 0\<rparr>,
     rd_rxwi = [], rd_rx_head = None, rd_log = []\<rparr>"

definition demo_pool :: "nat \<Rightarrow> (nat \<times> u64) option" where
  "demo_pool i = (if i < 2 then Some (i, 0x1000 * of_nat i) else None)"

lemma demo_rx_inv: "rx_inv demo_rx_queue"
  by (auto simp: rx_inv_def ring_ok_def demo_rx_queue_def plain_def mt76_queue_is_wed_rro_def
      mt76_queue_is_wed_rx_def qflag_def ring_def)

theorem rx_fill_appends_buffers_witness:
  "fst (mt76_dma_rx_fill demo_ops demo_rx_dev 0 demo_rx_queue demo_pool) = 2
   \<and> map fst (map rx_view (ring (snd (snd (mt76_dma_rx_fill demo_ops demo_rx_dev 0 demo_rx_queue demo_pool)))))
       = [Some (Buf 0), Some (Buf 1)]"
proof -
  let ?r = "mt76_dma_rx_fill demo_ops demo_rx_dev 0 demo_rx_queue demo_pool"
  have q: "q_queued demo_rx_queue = 0" "q_ndesc demo_rx_queue = 4" "ring demo_rx_queue = []"
    by (simp_all add: demo_rx_queue_def ring_def)
  obtain m d q' where r: "?r = (m, d, q')" by (metis prod.collapse)
  note T = rx_fill_appends_buffers [OF demo_rx_inv r [symmetric]]
  have pool: "demo_pool i = None \<longleftrightarrow> 2 \<le> i" for i by (simp add: demo_pool_def)
  have "\<not> 2 < m" using T pool by (metis order_refl)
  moreover have "m + 1 = 4 \<or> 2 \<le> m" using T q pool by (metis add_0)
  ultimately have m: "m = 2" by linarith
  then have "map fst (map rx_view (ring q')) = map fst (map (\<lambda>i. (Some (Buf (fst (the (demo_pool i)))),
      ucast (snd (the (demo_pool i)) + of_nat (q_buf_offset demo_rx_queue)) :: u32)) [0..<2])"
    using T q by simp
  also have "\<dots> = [Some (Buf 0), Some (Buf 1)]" by (simp add: demo_pool_def upt_rec)
  finally show ?thesis using m r by simp
qed

definition demo_done :: dma_queue where
  "demo_done = demo_rx_queue\<lparr>
     q_entry := zero_entry\<lparr>e_buf := Some (Buf 7)\<rparr> # replicate 3 zero_entry,
     q_desc := \<lparr>d_buf0 = 0, d_ctrl = 0xC0400000, d_buf1 = 0, d_info = 0\<rparr>
       # replicate 3 \<lparr>d_buf0 = 0, d_ctrl = 0, d_buf1 = 0, d_info = 0\<rparr>,
     q_head := 1, q_queued := 1\<rparr>"

lemma demo_done_inv: "rx_inv demo_done" "slot_bufs (ring demo_done) = [Buf 7]" "q_queued demo_done = 1"
  by (auto simp: rx_inv_def ring_ok_def demo_done_def demo_rx_queue_def plain_def mt76_queue_is_wed_rro_def
      mt76_queue_is_wed_rx_def qflag_def ring_def slot_at_def)

theorem rx_process_accounts_buffers_witness:
  "\<exists>n dev' q' j. mt76_dma_rx_process demo_ops (\<lambda>k. 0) no_out demo_pool demo_rx_dev 0 demo_done 8 = (n, dev', q')
     \<and> n \<le> 8 \<and> accounted dev' = mset (take j [Buf 7])"
proof -
  obtain n dev' q' where r: "mt76_dma_rx_process demo_ops (\<lambda>k. 0) no_out demo_pool demo_rx_dev 0 demo_done 8 = (n, dev', q')"
    by (metis prod.collapse)
  have "accounted demo_rx_dev = {#}" by (simp add: accounted_def demo_rx_dev_def)
  then show ?thesis
    using rx_process_accounts_buffers [OF demo_done_inv(1) r [symmetric]] r demo_done_inv(2)
    by (metis add_0 take_map)
qed

theorem rx_poll_ends_in_budget_witness:
  "fst (mt76_dma_rx_poll demo_ops (\<lambda>i k. 0) no_out (\<lambda>i. demo_pool) True demo_rx_dev 0 demo_done 8) \<le> 8"
  using rx_poll_ends_in_budget [OF demo_done_inv(1)]
  by (metis prod.collapse)

end
