(* ===== verification/TxsRate.thy ===== *)
theory TxsRate
  imports Mt76Prelude
begin

text \<open>
  Decoding of a transmit-status report, \<open>mt76_connac2_mac_fill_txs\<close> of
  src/src/mt76/mt76_connac_mac.c, with the rate table and \<open>mt76_get_rate\<close> of
  src/src/mt76/mac80211.c. The report is the list of its little-endian words, already converted.
  C arrays of counters are lists; an index the code guards is guarded here, and \<open>fill_txs_safe\<close>
  shows that the others are in range. \<open>struct rate_info\<close> and the channel widths are those of
  \<open>net/cfg80211.h\<close>.
\<close>

section \<open>Data\<close>

datatype mt76_phy_type = PHY_CCK | PHY_OFDM | PHY_HT | PHY_HT_GF | PHY_VHT | PHY_HE_SU
  | PHY_HE_EXT_SU | PHY_HE_TB | PHY_HE_MU | PHY_EHT_SU | PHY_EHT_TRIG | PHY_EHT_MU

definition phy_type_of :: "nat \<Rightarrow> mt76_phy_type option" where
  "phy_type_of n =
     map_of [(0, PHY_CCK), (1, PHY_OFDM), (2, PHY_HT), (3, PHY_HT_GF), (4, PHY_VHT), (8, PHY_HE_SU),
             (9, PHY_HE_EXT_SU), (10, PHY_HE_TB), (11, PHY_HE_MU), (13, PHY_EHT_SU),
             (14, PHY_EHT_TRIG), (15, PHY_EHT_MU)] n"

datatype rate_bw = RATE_BW_20 | RATE_BW_40 | RATE_BW_80 | RATE_BW_160

record rate_info =
  ri_flags :: u16
  ri_legacy :: u16
  ri_mcs :: u8
  ri_nss :: u8
  ri_bw :: rate_bw
  ri_he_gi :: u8
  ri_he_dcm :: u8

definition RATE_FLAGS_MCS :: u16 where "RATE_FLAGS_MCS = BIT 0"
definition RATE_FLAGS_VHT :: u16 where "RATE_FLAGS_VHT = BIT 1"
definition RATE_FLAGS_SHORT_GI :: u16 where "RATE_FLAGS_SHORT_GI = BIT 2"
definition RATE_FLAGS_HE :: u16 where "RATE_FLAGS_HE = BIT 4"

text \<open>\<open>struct rate_info rate = {}\<close>.\<close>

definition rate_zero :: rate_info where
  "rate_zero = \<lparr>ri_flags = 0, ri_legacy = 0, ri_mcs = 0, ri_nss = 0, ri_bw = RATE_BW_20,
     ri_he_gi = 0, ri_he_dcm = 0\<rparr>"

record sta_stats =
  st_tx_mode :: "u64 list"
  st_tx_bw :: "u64 list"
  st_tx_nss :: "u64 list"
  st_tx_mcs :: "u64 list"
  st_tx_bytes :: u64
  st_tx_retries :: u32
  st_tx_failed :: u32

definition stats_ok :: "sta_stats \<Rightarrow> bool" where
  "stats_ok s \<longleftrightarrow> length (st_tx_mode s) = 16 \<and> length (st_tx_bw s) = 5
     \<and> length (st_tx_nss s) = 4 \<and> length (st_tx_mcs s) = 16"

section \<open>Legacy rates\<close>

datatype nl80211_band = Band_2GHZ | Band_5GHZ | Band_6GHZ | Band_other

text \<open>\<open>struct ieee80211_rate\<close> and the table \<open>mt76_rates\<close>, built by two macros.\<close>

record bitrate =
  br_bitrate :: u16
  br_hw_value :: u16
  br_hw_value_short :: u16

record sband =
  sb_band :: nl80211_band
  sb_bitrates :: "bitrate list"

definition CCK_RATE :: "u16 \<Rightarrow> u16 \<Rightarrow> bitrate" where
  "CCK_RATE idx r = \<lparr>br_bitrate = r, br_hw_value = push_bit 8 0 OR idx,
     br_hw_value_short = push_bit 8 0 OR (4 + idx)\<rparr>"

definition OFDM_RATE :: "u16 \<Rightarrow> u16 \<Rightarrow> bitrate" where
  "OFDM_RATE idx r = \<lparr>br_bitrate = r, br_hw_value = push_bit 8 1 OR idx,
     br_hw_value_short = push_bit 8 1 OR idx\<rparr>"

definition mt76_rates :: "bitrate list" where
  "mt76_rates = [CCK_RATE 0 10, CCK_RATE 1 20, CCK_RATE 2 55, CCK_RATE 3 110,
     OFDM_RATE 11 60, OFDM_RATE 15 90, OFDM_RATE 10 120, OFDM_RATE 14 180,
     OFDM_RATE 9 240, OFDM_RATE 13 360, OFDM_RATE 8 480, OFDM_RATE 12 540]"

fun get_rate_loop :: "bitrate list \<Rightarrow> u32 \<Rightarrow> nat \<Rightarrow> nat" where
  "get_rate_loop [] idx i = 0"
| "get_rate_loop (b # bs) idx i =
     (if ucast (br_hw_value b AND GENMASK 7 0) = idx then i else get_rate_loop bs idx (i + 1))"

definition mt76_get_rate :: "sband \<Rightarrow> u32 \<Rightarrow> bool \<Rightarrow> nat" where
  "mt76_get_rate sband idx cck =
     (let is_2g = (sb_band sband = Band_2GHZ) in
      if cck then
        if \<not> is_2g then 0
        else get_rate_loop (sb_bitrates sband) (idx AND NOT (BIT 2)) 0
      else let offset = (if is_2g then 4 else 0)
           in get_rate_loop (drop offset (sb_bitrates sband)) idx offset)"

section \<open>The report\<close>

text \<open>The fields of a report that are read, and the parts of device and client it needs.\<close>

definition TXS0_TXS_FORMAT :: "u32 \<Rightarrow> u32" where "TXS0_TXS_FORMAT = FIELD_GET 24 23"
definition TXS0_BW :: "u32 \<Rightarrow> u32" where "TXS0_BW = FIELD_GET 30 29"
definition TXS0_TID :: "u32 \<Rightarrow> u32" where "TXS0_TID = FIELD_GET 28 26"
definition TXS0_TX_RATE :: "u32 \<Rightarrow> u32" where "TXS0_TX_RATE = FIELD_GET 13 0"
definition TX_RATE_STBC :: "u32 \<Rightarrow> u32" where "TX_RATE_STBC = FIELD_GET 13 13"
definition TX_RATE_NSS :: "u32 \<Rightarrow> u32" where "TX_RATE_NSS = FIELD_GET 12 10"
definition TX_RATE_MODE :: "u32 \<Rightarrow> u32" where "TX_RATE_MODE = FIELD_GET 9 6"
definition TX_RATE_DCM :: "u32 \<Rightarrow> u32" where "TX_RATE_DCM = FIELD_GET 4 4"
definition TX_RATE_IDX :: "u32 \<Rightarrow> u32" where "TX_RATE_IDX = FIELD_GET 5 0"

lemmas txs_fields = TXS0_TXS_FORMAT_def TXS0_BW_def TXS0_TID_def TXS0_TX_RATE_def TX_RATE_STBC_def
  TX_RATE_NSS_def TX_RATE_MODE_def TX_RATE_DCM_def TX_RATE_IDX_def

record txs_phy =
  tp_band :: nl80211_band
  tp_2g :: sband
  tp_5g :: sband
  tp_6g :: sband

record txs_dev =
  tdv_wed_active :: bool
  tdv_phy :: txs_phy
  tdv_band1 :: "txs_phy option"

record txs_wcid =
  tc_sta :: bool
  tc_phy_idx :: nat
  tc_rate :: rate_info
  tc_stats :: sta_stats

text \<open>\<open>arr[i]++\<close> on an array of 64-bit counters.\<close>

definition incr_at :: "u64 list \<Rightarrow> nat \<Rightarrow> u64 list" where
  "incr_at xs i = xs[i := xs ! i + 1]"

lemma length_incr_at [simp]: "length (incr_at xs i) = length xs"
  by (simp add: incr_at_def)

definition txs_wed_stats :: "u32 list \<Rightarrow> sta_stats \<Rightarrow> sta_stats" where
  "txs_wed_stats d s = s\<lparr>
     st_tx_bytes := st_tx_bytes s + ucast (FIELD_GET 22 0 (d ! 5) - FIELD_GET 22 0 (d ! 7)),
     st_tx_failed := st_tx_failed s + FIELD_GET 31 23 (d ! 6),
     st_tx_retries := st_tx_retries s + FIELD_GET 31 23 (d ! 7)\<rparr>"

definition txs_sband :: "txs_dev \<Rightarrow> txs_wcid \<Rightarrow> sband" where
  "txs_sband dev w =
     (let mphy = (case tdv_band1 dev of
            Some p \<Rightarrow> if tc_phy_idx w = 1 then p else tdv_phy dev | None \<Rightarrow> tdv_phy dev)
      in case tp_band mphy of
           Band_5GHZ \<Rightarrow> tp_5g mphy | Band_6GHZ \<Rightarrow> tp_6g mphy | _ \<Rightarrow> tp_2g mphy)"

text \<open>The \<open>switch (mode)\<close>: the rate of the report, or \<open>None\<close> where the code returns false.\<close>

definition txs_mode_rate ::
  "txs_dev \<Rightarrow> txs_wcid \<Rightarrow> u32 \<Rightarrow> mt76_phy_type option \<Rightarrow> rate_info \<Rightarrow> rate_info option" where
  "txs_mode_rate dev w txrate mode rate =
     (let legacy = (\<lambda>cck.
            let sband = txs_sband dev w;
                i = mt76_get_rate sband (ucast (ri_mcs rate)) cck;
                mcs = (word_of_nat i :: u8)
            in Some (rate\<lparr>ri_mcs := mcs, ri_legacy := br_bitrate (sb_bitrates sband ! unat mcs)\<rparr>));
          ht = (if ri_mcs rate > 31 then None
                else Some (rate\<lparr>ri_flags := (if ri_flags (tc_rate w) AND RATE_FLAGS_SHORT_GI \<noteq> 0
                       then RATE_FLAGS_MCS OR RATE_FLAGS_SHORT_GI else RATE_FLAGS_MCS)\<rparr>));
          he = (if ri_mcs rate > 11 then None
                else Some (rate\<lparr>ri_he_gi := ri_he_gi (tc_rate w),
                       ri_he_dcm := ucast (TX_RATE_DCM txrate), ri_flags := RATE_FLAGS_HE\<rparr>))
      in case mode of
           Some PHY_CCK \<Rightarrow> legacy True
         | Some PHY_OFDM \<Rightarrow> legacy False
         | Some PHY_HT \<Rightarrow> ht
         | Some PHY_HT_GF \<Rightarrow> ht
         | Some PHY_VHT \<Rightarrow> if ri_mcs rate > 9 then None else Some (rate\<lparr>ri_flags := RATE_FLAGS_VHT\<rparr>)
         | Some PHY_HE_SU \<Rightarrow> he
         | Some PHY_HE_EXT_SU \<Rightarrow> he
         | Some PHY_HE_TB \<Rightarrow> he
         | Some PHY_HE_MU \<Rightarrow> he
         | _ \<Rightarrow> None)"

definition txs_bw :: "u32 \<Rightarrow> rate_bw \<times> nat" where
  "txs_bw txs = (let b = TXS0_BW txs in
     if b = 3 then (RATE_BW_160, 3) else if b = 2 then (RATE_BW_80, 2)
     else if b = 1 then (RATE_BW_40, 1) else (RATE_BW_20, 0))"

definition txs_nss :: "u32 \<Rightarrow> u8" where
  "txs_nss txrate =
     (let nss = ucast (TX_RATE_NSS txrate + 1) in
      if TX_RATE_STBC txrate \<noteq> 0 \<and> nss > 1 then drop_bit 1 nss else nss)"

text \<open>
  The result holds the returned flag, the TID whose aggregation timer is refreshed, if any, and
  the client.
\<close>

definition mt76_connac2_mac_fill_txs ::
  "txs_dev \<Rightarrow> txs_wcid \<Rightarrow> u32 list \<Rightarrow> bool \<times> u8 option \<times> txs_wcid" where
  "mt76_connac2_mac_fill_txs dev w d =
     (let txs = d ! 0;
          ppdu = tdv_wed_active dev \<and> TXS0_TXS_FORMAT txs > 1;
          stats = (if ppdu then txs_wed_stats d (tc_stats w) else tc_stats w);
          refresh = (if ppdu \<and> tc_sta w then Some (ucast (TXS0_TID txs)) else None);
          txrate = TXS0_TX_RATE txs;
          mcs = (ucast (TX_RATE_IDX txrate) :: u8);
          nss = txs_nss txrate;
          rate = rate_zero\<lparr>ri_mcs := mcs, ri_nss := nss\<rparr>;
          stats = (if (ucast nss - 1 :: u64) < 4
                   then stats\<lparr>st_tx_nss := incr_at (st_tx_nss stats) (unat (ucast nss - 1 :: u64))\<rparr>
                   else stats);
          stats = (if mcs < 16 then stats\<lparr>st_tx_mcs := incr_at (st_tx_mcs stats) (unat mcs)\<rparr> else stats);
          mode = unat (TX_RATE_MODE txrate)
      in case txs_mode_rate dev w txrate (phy_type_of mode) rate of
           None \<Rightarrow> (False, refresh, w\<lparr>tc_stats := stats\<rparr>)
         | Some rate \<Rightarrow>
             let (bw, k) = txs_bw txs;
                 stats = stats\<lparr>st_tx_mode := incr_at (st_tx_mode stats) mode\<rparr>;
                 stats = stats\<lparr>st_tx_bw := incr_at (st_tx_bw stats) k\<rparr>
             in (True, refresh, w\<lparr>tc_stats := stats, tc_rate := rate\<lparr>ri_bw := bw\<rparr>\<rparr>))"


section \<open>What a report can say\<close>

lemma get_rate_loop_range:
  "get_rate_loop bs idx i = 0 \<or> (i \<le> get_rate_loop bs idx i \<and> get_rate_loop bs idx i < i + length bs)"
  by (induction bs idx i rule: get_rate_loop.induct) auto

lemma mt76_get_rate_range:
  "sb_bitrates sband \<noteq> [] \<Longrightarrow> mt76_get_rate sband idx cck < length (sb_bitrates sband)"
  using get_rate_loop_range [of "sb_bitrates sband" "idx AND NOT (BIT 2)" 0]
    get_rate_loop_range [of "drop 4 (sb_bitrates sband)" idx 4]
    get_rate_loop_range [of "sb_bitrates sband" idx 0]
  by (auto simp: mt76_get_rate_def Let_def)

text \<open>
  The rate index field of a report is six bits wide and overlaps the DCM bit, so an index within
  the limits of the HE modes has the DCM bit clear.
\<close>

lemma unat_TX_RATE_IDX: "unat (TX_RATE_IDX r) = unat r mod 64"
  by (simp add: TX_RATE_IDX_def unat_FIELD_GET)

lemma unat_TX_RATE_DCM: "unat (TX_RATE_DCM r) = unat r div 16 mod 2"
  by (simp add: TX_RATE_DCM_def unat_FIELD_GET)

lemma unat_txs_mcs: "unat (ucast (TX_RATE_IDX r) :: u8) = unat r mod 64"
  by (simp add: unsigned_ucast_eq take_bit_eq_mod unat_TX_RATE_IDX mod_mod_cancel)

lemma small_mcs_no_dcm:
  assumes "\<not> (ucast (TX_RATE_IDX r) :: u8) > 11"
  shows "TX_RATE_DCM r = 0"
proof -
  have "unat r mod 64 \<le> 11"
    using assms by (simp add: not_less word_le_nat_alt unat_txs_mcs)
  moreover have "unat r mod 64 = 16 * (unat r div 16 mod 4) + unat r mod 16"
    using mod_mult2_eq [of "unat r" 16 4] by simp
  ultimately have "unat r div 16 mod 4 = 0" by linarith
  then have "unat r div 16 mod 2 = 0"
    by (metis mod_mod_cancel dvd_triv_left mod_0 numeral_Bit0_eq_double)
  then show ?thesis by (simp add: unat_TX_RATE_DCM flip: unat_eq_0)
qed

lemma txs_nss_range: "1 \<le> unat (txs_nss r)" "unat (txs_nss r) \<le> 8"
proof -
  have f: "unat (TX_RATE_NSS r) < 8"
    using FIELD_GET_bound [of 12 10 r] by (simp add: TX_RATE_NSS_def)
  then have "unat (TX_RATE_NSS r + 1) = unat (TX_RATE_NSS r) + 1"
    by (simp add: unat_word_ariths)
  then have n: "unat (ucast (TX_RATE_NSS r + 1) :: u8) = unat (TX_RATE_NSS r) + 1"
    using f by (simp add: unsigned_ucast_eq take_bit_eq_mod)
  show "1 \<le> unat (txs_nss r)" "unat (txs_nss r) \<le> 8"
    using n f by (auto simp: txs_nss_def Let_def unat_drop_bit_eq drop_bit_eq_div word_less_nat_alt unat_div)
qed

text \<open>The limits of the rate that a client is left with.\<close>

definition rate_limits :: "rate_info \<Rightarrow> bool" where
  "rate_limits r \<longleftrightarrow> ri_he_dcm r = 0 \<and> 1 \<le> ri_nss r \<and> ri_nss r \<le> 8
     \<and> (ri_flags r AND RATE_FLAGS_MCS \<noteq> 0 \<longrightarrow> ri_mcs r \<le> 31)
     \<and> (ri_flags r = RATE_FLAGS_VHT \<longrightarrow> ri_mcs r \<le> 9)
     \<and> (ri_flags r = RATE_FLAGS_HE \<longrightarrow> ri_mcs r \<le> 11)"

lemmas rate_flags = RATE_FLAGS_MCS_def RATE_FLAGS_VHT_def RATE_FLAGS_SHORT_GI_def RATE_FLAGS_HE_def

lemma rate_flag_values:
  "(0 :: u16) AND RATE_FLAGS_MCS = 0" "RATE_FLAGS_VHT AND RATE_FLAGS_MCS = 0"
  "RATE_FLAGS_HE AND RATE_FLAGS_MCS = 0" "RATE_FLAGS_VHT \<noteq> RATE_FLAGS_HE"
  "RATE_FLAGS_MCS \<noteq> RATE_FLAGS_VHT" "RATE_FLAGS_MCS \<noteq> RATE_FLAGS_HE"
  "RATE_FLAGS_MCS OR RATE_FLAGS_SHORT_GI \<noteq> RATE_FLAGS_VHT"
  "RATE_FLAGS_MCS OR RATE_FLAGS_SHORT_GI \<noteq> RATE_FLAGS_HE"
  "0 \<noteq> RATE_FLAGS_VHT" "0 \<noteq> RATE_FLAGS_HE"
  by code_simp+

lemma txs_mode_rate_limits:
  assumes "txs_mode_rate dev w txrate mode r = Some r'"
    and "ri_mcs r = ucast (TX_RATE_IDX txrate)" "ri_nss r = txs_nss txrate"
    and "ri_he_dcm r = 0" "ri_flags r = 0"
  shows "rate_limits (r'\<lparr>ri_bw := bw\<rparr>)"
proof -
  have n: "1 \<le> txs_nss txrate" "txs_nss txrate \<le> 8"
    using txs_nss_range [of txrate] by (simp_all add: word_le_nat_alt)
  then show ?thesis
    using assms small_mcs_no_dcm [of txrate] rate_flag_values rate_flag_values(4) [symmetric]
    by (auto simp: txs_mode_rate_def Let_def rate_limits_def not_less
        split: option.splits mt76_phy_type.splits if_splits)
qed

lemma mode_index_range: "unat (TX_RATE_MODE r) < 16"
  using FIELD_GET_bound [of 9 6 r] by (simp add: TX_RATE_MODE_def)

lemma txs_bw_range: "snd (txs_bw txs) < 4"
  by (simp add: txs_bw_def Let_def)

text \<open>The statistics before the \<open>switch\<close>, shared by the two outcomes.\<close>

definition txs_stats :: "txs_dev \<Rightarrow> txs_wcid \<Rightarrow> u32 list \<Rightarrow> sta_stats" where
  "txs_stats dev w d = tc_stats (snd (snd (mt76_connac2_mac_fill_txs dev w d)))"

lemma fill_txs_stats_ok: "stats_ok (tc_stats w) \<Longrightarrow> stats_ok (txs_stats dev w d)"
  by (simp add: txs_stats_def mt76_connac2_mac_fill_txs_def Let_def stats_ok_def txs_wed_stats_def
      split: option.split prod.split)

lemma fill_txs_accepted:
  assumes "mt76_connac2_mac_fill_txs dev w d = (True, refresh, w')"
  shows "rate_limits (tc_rate w')"
    and "st_tx_mode (tc_stats w') =
      incr_at (st_tx_mode (tc_stats w)) (unat (TX_RATE_MODE (TXS0_TX_RATE (d ! 0))))"
    and "st_tx_bw (tc_stats w') = incr_at (st_tx_bw (tc_stats w)) (snd (txs_bw (d ! 0)))"
  using assms txs_mode_rate_limits
  by (auto simp: mt76_connac2_mac_fill_txs_def Let_def rate_zero_def txs_wed_stats_def
      split: option.splits prod.splits)

lemma fill_txs_rejected:
  assumes "mt76_connac2_mac_fill_txs dev w d = (False, refresh, w')"
  shows "tc_rate w' = tc_rate w" "st_tx_mode (tc_stats w') = st_tx_mode (tc_stats w)"
    "st_tx_bw (tc_stats w') = st_tx_bw (tc_stats w)"
  using assms by (auto simp: mt76_connac2_mac_fill_txs_def Let_def txs_wed_stats_def
      split: option.splits prod.splits)

text \<open>
  A status report leaves the client's counter arrays well formed and counts in range: an
  accepted one adds one to exactly one mode counter and one width counter and leaves a rate
  within the limits of its mode (spatial streams 1 to 8, rate index at most 31, 9 or 11); a
  rejected one changes neither the rate nor those counters. In particular the accepted rate
  never has the dual-carrier flag set, although the code reads it from the report: the rate
  index is not cut to four bits for the modes that use bit 4 as that flag, so such a report is
  rejected as having an index above 11.
\<close>

theorem fill_txs_counts:
  assumes "stats_ok (tc_stats w)"
    and "mt76_connac2_mac_fill_txs dev w d = (ok, refresh, w')"
  shows "stats_ok (tc_stats w')
    \<and> unat (TX_RATE_MODE (TXS0_TX_RATE (d ! 0))) < length (st_tx_mode (tc_stats w))
    \<and> snd (txs_bw (d ! 0)) < length (st_tx_bw (tc_stats w))
    \<and> (if ok
       then rate_limits (tc_rate w')
         \<and> st_tx_mode (tc_stats w') =
             incr_at (st_tx_mode (tc_stats w)) (unat (TX_RATE_MODE (TXS0_TX_RATE (d ! 0))))
         \<and> st_tx_bw (tc_stats w') = incr_at (st_tx_bw (tc_stats w)) (snd (txs_bw (d ! 0)))
       else tc_rate w' = tc_rate w \<and> st_tx_mode (tc_stats w') = st_tx_mode (tc_stats w)
         \<and> st_tx_bw (tc_stats w') = st_tx_bw (tc_stats w))"
  using fill_txs_stats_ok [OF assms(1), of dev d] fill_txs_accepted [of dev w d refresh w']
    fill_txs_rejected [of dev w d refresh w'] assms mode_index_range txs_bw_range [of "d ! 0"]
  by (cases ok) (auto simp: txs_stats_def stats_ok_def)

definition demo_txs_wcid :: txs_wcid where
  "demo_txs_wcid = \<lparr>tc_sta = True, tc_phy_idx = 0, tc_rate = rate_zero,
     tc_stats = \<lparr>st_tx_mode = replicate 16 0, st_tx_bw = replicate 5 0, st_tx_nss = replicate 4 0,
       st_tx_mcs = replicate 16 0, st_tx_bytes = 0, st_tx_retries = 0, st_tx_failed = 0\<rparr>\<rparr>"

definition demo_txs_dev :: txs_dev where
  "demo_txs_dev = \<lparr>tdv_wed_active = False,
     tdv_phy = \<lparr>tp_band = Band_5GHZ, tp_2g = \<lparr>sb_band = Band_2GHZ, sb_bitrates = mt76_rates\<rparr>,
       tp_5g = \<lparr>sb_band = Band_5GHZ, sb_bitrates = drop 4 mt76_rates\<rparr>,
       tp_6g = \<lparr>sb_band = Band_6GHZ, sb_bitrates = drop 4 mt76_rates\<rparr>\<rparr>, tdv_band1 = None\<rparr>"

text \<open>A HE report (mode 8, index 5, two streams) is accepted; with the DCM bit it is not.\<close>

lemma fill_txs_accepts:
  "fst (mt76_connac2_mac_fill_txs dev w d) \<longleftrightarrow>
     (let r = TXS0_TX_RATE (d ! 0) in
      txs_mode_rate dev w r (phy_type_of (unat (TX_RATE_MODE r)))
        (rate_zero\<lparr>ri_mcs := ucast (TX_RATE_IDX r), ri_nss := txs_nss r\<rparr>) \<noteq> None)"
  by (auto simp: mt76_connac2_mac_fill_txs_def Let_def split: option.split prod.split)

lemma demo_txs_fields:
  "unat (TX_RATE_MODE (TXS0_TX_RATE 0x605)) = 8" "unat (TX_RATE_MODE (TXS0_TX_RATE 0x615)) = 8"
  "unat (ucast (TX_RATE_IDX (TXS0_TX_RATE 0x605)) :: u8) = 5"
  "unat (ucast (TX_RATE_IDX (TXS0_TX_RATE 0x615)) :: u8) = 21"
  unfolding unat_txs_mcs by (simp_all add: TX_RATE_MODE_def TXS0_TX_RATE_def unat_FIELD_GET)

lemma demo_txs_accepted: "fst (mt76_connac2_mac_fill_txs demo_txs_dev demo_txs_wcid [0x605])"
  and demo_txs_rejected: "\<not> fst (mt76_connac2_mac_fill_txs demo_txs_dev demo_txs_wcid [0x615])"
  by (simp_all add: fill_txs_accepts demo_txs_fields phy_type_of_def txs_mode_rate_def Let_def
      word_less_nat_alt)

theorem fill_txs_counts_witness:
  "rate_limits (tc_rate (snd (snd (mt76_connac2_mac_fill_txs demo_txs_dev demo_txs_wcid [0x605]))))
   \<and> tc_rate (snd (snd (mt76_connac2_mac_fill_txs demo_txs_dev demo_txs_wcid [0x615]))) = rate_zero"
proof -
  have ok: "stats_ok (tc_stats demo_txs_wcid)" "tc_rate demo_txs_wcid = rate_zero"
    by (simp_all add: demo_txs_wcid_def stats_ok_def)
  obtain ra wa where a: "mt76_connac2_mac_fill_txs demo_txs_dev demo_txs_wcid [0x605] = (True, ra, wa)"
    using demo_txs_accepted by (metis prod.collapse)
  obtain rb wb where b: "mt76_connac2_mac_fill_txs demo_txs_dev demo_txs_wcid [0x615] = (False, rb, wb)"
    using demo_txs_rejected by (metis prod.collapse)
  show ?thesis
    using fill_txs_counts [OF ok(1) a] fill_txs_counts [OF ok(1) b] ok(2) by (simp add: a b)
qed

text \<open>
  The rate table and its lookup agree: every legacy rate is found again from its hardware
  value, on the 2.4 GHz band (twelve rates, four of them CCK, which are found from the
  short-preamble value as well) and on the 5 and 6 GHz bands (the last eight); CCK has no rate
  outside the 2.4 GHz band and falls back to the first.
\<close>

theorem get_rate_roundtrip:
  "map (\<lambda>b. mt76_get_rate \<lparr>sb_band = Band_2GHZ, sb_bitrates = mt76_rates\<rparr>
        (ucast (br_hw_value b AND 0xFF)) (br_hw_value b < 256)) mt76_rates = [0..<12]
   \<and> map (\<lambda>b. mt76_get_rate \<lparr>sb_band = Band_2GHZ, sb_bitrates = mt76_rates\<rparr>
        (ucast (br_hw_value_short b AND 0xFF)) (br_hw_value_short b < 256)) mt76_rates = [0..<12]
   \<and> map (\<lambda>b. mt76_get_rate \<lparr>sb_band = Band_5GHZ, sb_bitrates = drop 4 mt76_rates\<rparr>
        (ucast (br_hw_value b AND 0xFF)) False) (drop 4 mt76_rates) = [0..<8]
   \<and> mt76_get_rate \<lparr>sb_band = Band_5GHZ, sb_bitrates = drop 4 mt76_rates\<rparr> idx True = 0"
proof (intro conjI)
  have u: "[0..<12] = [0, 1, 2, 3, 4, 5, 6, 7, 8, 9, 10, 11]" "[0..<8] = [0, 1, 2, 3, 4, 5, 6, 7]"
    by (simp_all add: upt_rec)
  have m: "GENMASK 7 0 = (0xFF :: u16)" "NOT (BIT 2) = (0xFFFFFFFB :: u32)" by code_simp+
  note eval = u m mt76_get_rate_def mt76_rates_def CCK_RATE_def OFDM_RATE_def Let_def
  show "map (\<lambda>b. mt76_get_rate \<lparr>sb_band = Band_2GHZ, sb_bitrates = mt76_rates\<rparr>
        (ucast (br_hw_value b AND 0xFF)) (br_hw_value b < 256)) mt76_rates = [0..<12]"
    by (simp add: eval)
  show "map (\<lambda>b. mt76_get_rate \<lparr>sb_band = Band_2GHZ, sb_bitrates = mt76_rates\<rparr>
        (ucast (br_hw_value_short b AND 0xFF)) (br_hw_value_short b < 256)) mt76_rates = [0..<12]"
    by (simp add: eval)
  show "map (\<lambda>b. mt76_get_rate \<lparr>sb_band = Band_5GHZ, sb_bitrates = drop 4 mt76_rates\<rparr>
        (ucast (br_hw_value b AND 0xFF)) False) (drop 4 mt76_rates) = [0..<8]"
    by (simp add: eval)
  show "mt76_get_rate \<lparr>sb_band = Band_5GHZ, sb_bitrates = drop 4 mt76_rates\<rparr> idx True = 0"
    by (simp add: mt76_get_rate_def)
qed

end
