(* ===== verification/TxState.thy ===== *)
theory TxState
  imports WcidUtil Tokens TxsRate
begin

text \<open>
  The state of the transmit path, shared by the theories \<open>TxStatus\<close> (src/src/mt76/tx.c, status
  reporting) and \<open>TxSched\<close> (scheduling). Frames, clients, transmit queues of mac80211 and radios
  are objects of the C heap: they are named by numbers (their addresses) and the device record
  holds the map from addresses to contents, so that two pointers to one object stay one object.
  A frame list (\<open>struct sk_buff_head\<close>) is the list of its frames. Every handler of these
  components runs under a lock or inside one worker, so an operation is one state change.
\<close>

section \<open>Objects\<close>

text \<open>\<open>struct mt76_tx_cb\<close>, and of a frame the parts of its control block that are used.\<close>

record tx_cb =
  cb_jiffies :: u64
  cb_wcid :: u16
  cb_pktid :: u8
  cb_flags :: u8

record tx_skb =
  sk_cb :: tx_cb
  sk_no_ack :: bool
  sk_req_tx_status :: bool
  sk_rate_ctrl_probe :: bool
  sk_hw_encap :: bool
  sk_is_data :: bool
  sk_is_qos_present :: bool
  sk_is_probe_req :: bool
  sk_is_deauth :: bool
  sk_is_bufferable :: bool
  sk_tx_offchan :: bool
  sk_dont_use_rate_mask :: bool
  sk_time_est :: bool
  sk_ps_response :: bool
  sk_eosp :: bool
  sk_more_data :: bool
  sk_stat_ack :: bool
  sk_rate0_idx :: int
  sk_rate0_count :: u8
  sk_ampdu_len :: u8
  sk_ampdu_ack_len :: u8
  sk_hw_queue :: u8
  sk_queue_mapping :: nat
  sk_priority :: u32
  sk_seq_ctrl :: u16

record tx_wcid =
  wc_idx :: u16
  wc_def :: "nat option"
  wc_ps :: bool
  wc_tx_info :: u32
  wc_txs :: txs_wcid
  wc_pktid :: "nat idr"
  wc_non_aql :: int
  wc_pending :: "nat list"
  wc_offchannel :: "nat list"

text \<open>\<open>struct mt76_queue\<close> as far as scheduling reads it, \<open>struct mt76_phy\<close>, \<open>struct mt76_txq\<close>.\<close>

record tx_hwq =
  hq_stopped :: bool
  hq_blocked :: bool
  hq_queued :: int
  hq_ndesc :: int
  hq_entry_wcid :: "int \<Rightarrow> u16"

record tx_phy =
  py_band_idx :: nat
  py_reset :: bool
  py_offchannel :: bool
  py_tx_list :: "nat list"
  py_q_tx :: "nat \<Rightarrow> tx_hwq"
  py_hw :: nat

record tx_txq =
  xq_sta :: "nat option"
  xq_ac :: nat
  xq_tid :: nat
  xq_wcid :: u16
  xq_agg_ssn :: u16
  xq_send_bar :: bool
  xq_aggr :: bool

text \<open>
  What the driver tells mac80211 or its own hardware layer: a status report (with the station and
  rate it carries and the radio it goes to), a frame freed, a frame handed to a hardware queue
  (radio, queue, frame and its contents at that moment), a doorbell, a block-ack request, the end
  of a service period, and a wake-up of the worker.
\<close>

datatype tx_event =
    Report nat "nat option" "rate_info option" nat
  | Free_skb nat nat
  | Get_rates nat
  | Submitted nat nat nat tx_skb
  | Kick nat nat
  | Send_bar nat u16
  | Sta_eosp nat
  | Tx_cleanup nat nat
  | Worker_schedule

record tx_dev =
  dv_skb :: "nat \<Rightarrow> tx_skb"
  dv_wcid :: "nat \<Rightarrow> tx_wcid"
  dv_txq :: "nat \<Rightarrow> tx_txq"
  dv_table :: "nat \<rightharpoonup> nat"
  dv_phy :: "nat \<Rightarrow> tx_phy"
  dv_phys :: "nat \<Rightarrow> bool"
  dv_wcid_list :: "nat list"
  dv_jiffies :: u64
  dv_hz :: u64
  dv_txs :: txs_dev
  dv_ignore_txs_failed :: bool
  dv_hw_mgmt_txq :: bool
  dv_log :: "tx_event list"

section \<open>Access\<close>

definition upd_skb :: "nat \<Rightarrow> (tx_skb \<Rightarrow> tx_skb) \<Rightarrow> tx_dev \<Rightarrow> tx_dev" where
  "upd_skb s f dev = dev\<lparr>dv_skb := (dv_skb dev)(s := f (dv_skb dev s))\<rparr>"

definition upd_wcid :: "nat \<Rightarrow> (tx_wcid \<Rightarrow> tx_wcid) \<Rightarrow> tx_dev \<Rightarrow> tx_dev" where
  "upd_wcid w f dev = dev\<lparr>dv_wcid := (dv_wcid dev)(w := f (dv_wcid dev w))\<rparr>"

definition upd_phy :: "nat \<Rightarrow> (tx_phy \<Rightarrow> tx_phy) \<Rightarrow> tx_dev \<Rightarrow> tx_dev" where
  "upd_phy p f dev = dev\<lparr>dv_phy := (dv_phy dev)(p := f (dv_phy dev p))\<rparr>"

definition upd_txq :: "nat \<Rightarrow> (tx_txq \<Rightarrow> tx_txq) \<Rightarrow> tx_dev \<Rightarrow> tx_dev" where
  "upd_txq x f dev = dev\<lparr>dv_txq := (dv_txq dev)(x := f (dv_txq dev x))\<rparr>"

definition log_ev :: "tx_event \<Rightarrow> tx_dev \<Rightarrow> tx_dev" where
  "log_ev e dev = dev\<lparr>dv_log := dv_log dev @ [e]\<rparr>"

text \<open>Reading and writing through these is settled by the simplifier.\<close>

named_theorems txacc "the effect of one field update on each field of the device"

lemma upd_skb_sel [txacc, simp]:
  "dv_skb (upd_skb s f dev) = (dv_skb dev)(s := f (dv_skb dev s))"
  "dv_wcid (upd_skb s f dev) = dv_wcid dev" "dv_txq (upd_skb s f dev) = dv_txq dev"
  "dv_table (upd_skb s f dev) = dv_table dev" "dv_phy (upd_skb s f dev) = dv_phy dev"
  "dv_phys (upd_skb s f dev) = dv_phys dev" "dv_wcid_list (upd_skb s f dev) = dv_wcid_list dev"
  "dv_jiffies (upd_skb s f dev) = dv_jiffies dev" "dv_hz (upd_skb s f dev) = dv_hz dev"
  "dv_txs (upd_skb s f dev) = dv_txs dev" "dv_log (upd_skb s f dev) = dv_log dev"
  "dv_ignore_txs_failed (upd_skb s f dev) = dv_ignore_txs_failed dev"
  "dv_hw_mgmt_txq (upd_skb s f dev) = dv_hw_mgmt_txq dev"
  by (simp_all add: upd_skb_def)

lemma upd_wcid_sel [txacc, simp]:
  "dv_wcid (upd_wcid w f dev) = (dv_wcid dev)(w := f (dv_wcid dev w))"
  "dv_skb (upd_wcid w f dev) = dv_skb dev" "dv_txq (upd_wcid w f dev) = dv_txq dev"
  "dv_table (upd_wcid w f dev) = dv_table dev" "dv_phy (upd_wcid w f dev) = dv_phy dev"
  "dv_phys (upd_wcid w f dev) = dv_phys dev" "dv_wcid_list (upd_wcid w f dev) = dv_wcid_list dev"
  "dv_jiffies (upd_wcid w f dev) = dv_jiffies dev" "dv_hz (upd_wcid w f dev) = dv_hz dev"
  "dv_txs (upd_wcid w f dev) = dv_txs dev" "dv_log (upd_wcid w f dev) = dv_log dev"
  "dv_ignore_txs_failed (upd_wcid w f dev) = dv_ignore_txs_failed dev"
  "dv_hw_mgmt_txq (upd_wcid w f dev) = dv_hw_mgmt_txq dev"
  by (simp_all add: upd_wcid_def)

lemma upd_phy_sel [txacc, simp]:
  "dv_phy (upd_phy p f dev) = (dv_phy dev)(p := f (dv_phy dev p))"
  "dv_skb (upd_phy p f dev) = dv_skb dev" "dv_wcid (upd_phy p f dev) = dv_wcid dev"
  "dv_txq (upd_phy p f dev) = dv_txq dev" "dv_table (upd_phy p f dev) = dv_table dev"
  "dv_phys (upd_phy p f dev) = dv_phys dev" "dv_wcid_list (upd_phy p f dev) = dv_wcid_list dev"
  "dv_log (upd_phy p f dev) = dv_log dev" "dv_hw_mgmt_txq (upd_phy p f dev) = dv_hw_mgmt_txq dev"
  by (simp_all add: upd_phy_def)

lemma upd_txq_sel [txacc, simp]:
  "dv_txq (upd_txq x f dev) = (dv_txq dev)(x := f (dv_txq dev x))"
  "dv_skb (upd_txq x f dev) = dv_skb dev" "dv_wcid (upd_txq x f dev) = dv_wcid dev"
  "dv_table (upd_txq x f dev) = dv_table dev" "dv_phy (upd_txq x f dev) = dv_phy dev"
  "dv_phys (upd_txq x f dev) = dv_phys dev" "dv_log (upd_txq x f dev) = dv_log dev"
  "dv_hw_mgmt_txq (upd_txq x f dev) = dv_hw_mgmt_txq dev"
  by (simp_all add: upd_txq_def)

lemma log_ev_sel [txacc, simp]:
  "dv_log (log_ev e dev) = dv_log dev @ [e]"
  "dv_skb (log_ev e dev) = dv_skb dev" "dv_wcid (log_ev e dev) = dv_wcid dev"
  "dv_txq (log_ev e dev) = dv_txq dev" "dv_table (log_ev e dev) = dv_table dev"
  "dv_phy (log_ev e dev) = dv_phy dev" "dv_phys (log_ev e dev) = dv_phys dev"
  "dv_wcid_list (log_ev e dev) = dv_wcid_list dev"
  "dv_jiffies (log_ev e dev) = dv_jiffies dev" "dv_hz (log_ev e dev) = dv_hz dev"
  "dv_txs (log_ev e dev) = dv_txs dev" "dv_hw_mgmt_txq (log_ev e dev) = dv_hw_mgmt_txq dev"
  "dv_ignore_txs_failed (log_ev e dev) = dv_ignore_txs_failed dev"
  by (simp_all add: log_ev_def)

section \<open>Lookups\<close>

definition mt76_wcid_ptr :: "tx_dev \<Rightarrow> u16 \<Rightarrow> nat option" where
  "mt76_wcid_ptr dev idx = (if unat idx \<ge> MT76_N_WCIDS then None else dv_table dev (unat idx))"

text \<open>A station is named by the address of the client embedded in it (\<open>drv_priv\<close>).\<close>

definition wcid_to_sta :: "tx_dev \<Rightarrow> nat option \<Rightarrow> nat option" where
  "wcid_to_sta dev wcid = (case wcid of
     None \<Rightarrow> None
   | Some w \<Rightarrow> if \<not> tc_sta (wc_txs (dv_wcid dev w)) then None
       else (case wc_def (dv_wcid dev w) of Some d \<Rightarrow> Some d | None \<Rightarrow> Some w))"

definition mt76_dev_phy :: "tx_dev \<Rightarrow> nat \<Rightarrow> nat" where
  "mt76_dev_phy dev phy_idx =
     (if (phy_idx = 1 \<and> dv_phys dev 1) \<or> (phy_idx = 2 \<and> dv_phys dev 2) then phy_idx else 0)"

definition mt76_phy_hw :: "tx_dev \<Rightarrow> nat \<Rightarrow> nat" where
  "mt76_phy_hw dev phy_idx = py_hw (dv_phy dev (mt76_dev_phy dev phy_idx))"

definition mt76_tx_status_get_hw :: "tx_dev \<Rightarrow> nat \<Rightarrow> nat \<times> tx_dev" where
  "mt76_tx_status_get_hw dev s =
     (let phy_idx = unat (drop_bit 2 (sk_hw_queue (dv_skb dev s) AND GENMASK 3 2))
      in (mt76_phy_hw dev phy_idx,
          upd_skb s (\<lambda>k. k\<lparr>sk_hw_queue := sk_hw_queue k AND NOT (GENMASK 3 2)\<rparr>) dev))"

end
