(* ===== verification/TxStatus.thy ===== *)
theory TxStatus
  imports TxState
begin

text \<open>
  Transmit status tracking: the first half of src/src/mt76/tx.c, the status handler
  \<open>mt76_connac2_mac_add_txs_skb\<close> of src/src/mt76/mt76_connac_mac.c and \<open>mt76_wcid_cleanup\<close> of
  src/src/mt76/mac80211.c. A frame whose status is wanted gets a packet id of its client; its
  report to mac80211 waits for two events, the end of DMA and the hardware's status (or its
  time-out). The main theorem is that no frame is ever reported twice, and that a flush leaves
  none behind. CONFIG_NL80211_TESTMODE is off.
\<close>

section \<open>Operations\<close>

definition MT_TX_CB_DMA_DONE :: u8 where "MT_TX_CB_DMA_DONE = BIT 0"
definition MT_TX_CB_TXS_DONE :: u8 where "MT_TX_CB_TXS_DONE = BIT 1"
definition MT_TX_CB_TXS_FAILED :: u8 where "MT_TX_CB_TXS_FAILED = BIT 2"

definition MT_PACKET_ID_MASK :: nat where "MT_PACKET_ID_MASK = 127"
definition MT_PACKET_ID_NO_ACK :: nat where "MT_PACKET_ID_NO_ACK = 0"
definition MT_PACKET_ID_NO_SKB :: nat where "MT_PACKET_ID_NO_SKB = 1"
definition MT_PACKET_ID_WED :: nat where "MT_PACKET_ID_WED = 2"
definition MT_PACKET_ID_FIRST :: nat where "MT_PACKET_ID_FIRST = 3"

lemmas pktid_defs = MT_PACKET_ID_MASK_def MT_PACKET_ID_NO_ACK_def MT_PACKET_ID_NO_SKB_def
  MT_PACKET_ID_WED_def MT_PACKET_ID_FIRST_def

definition MT_TX_STATUS_SKB_TIMEOUT :: "tx_dev \<Rightarrow> u64" where
  "MT_TX_STATUS_SKB_TIMEOUT dev = dv_hz dev div 4"

definition upd_cb :: "nat \<Rightarrow> (tx_cb \<Rightarrow> tx_cb) \<Rightarrow> tx_dev \<Rightarrow> tx_dev" where
  "upd_cb s f = upd_skb s (\<lambda>k. k\<lparr>sk_cb := f (sk_cb k)\<rparr>)"

text \<open>The rate a report carries: that of a client with a station and a known rate.\<close>

definition status_rate :: "tx_dev \<Rightarrow> nat option \<Rightarrow> rate_info option" where
  "status_rate dev wcid = (case wcid of
     None \<Rightarrow> None
   | Some w \<Rightarrow> let r = tc_rate (wc_txs (dv_wcid dev w)) in
       if wcid_to_sta dev wcid \<noteq> None \<and> (ri_flags r \<noteq> 0 \<or> ri_legacy r \<noteq> 0) then Some r else None)"

definition mt76_tx_status_unlock :: "tx_dev \<Rightarrow> nat list \<Rightarrow> tx_dev" where
  "mt76_tx_status_unlock dev frames = fold (\<lambda>s dev.
     let wcid = mt76_wcid_ptr dev (cb_wcid (sk_cb (dv_skb dev s)));
         sta = wcid_to_sta dev wcid;
         rate = status_rate dev wcid;
         (hw, dev) = mt76_tx_status_get_hw dev s
     in log_ev (Report s sta rate hw) dev) frames dev"

definition tx_status_skb_done :: "tx_dev \<Rightarrow> nat \<Rightarrow> u8 \<Rightarrow> nat list \<Rightarrow> tx_dev \<times> nat list" where
  "tx_status_skb_done dev s flags frames =
     (let done = MT_TX_CB_DMA_DONE OR MT_TX_CB_TXS_DONE;
          flags = flags OR cb_flags (sk_cb (dv_skb dev s));
          dev = upd_cb s (\<lambda>cb. cb\<lparr>cb_flags := flags\<rparr>) dev
      in if flags AND done \<noteq> done then (dev, frames)
         else (if flags AND MT_TX_CB_TXS_FAILED \<noteq> 0 \<and> dv_ignore_txs_failed dev
               then upd_skb s (\<lambda>k. k\<lparr>sk_rate0_count := 0, sk_rate0_idx := -1, sk_stat_ack := True\<rparr>) dev
               else dev, frames @ [s]))"

definition mt76_tx_status_skb_done :: "tx_dev \<Rightarrow> nat \<Rightarrow> nat list \<Rightarrow> tx_dev \<times> nat list" where
  "mt76_tx_status_skb_done dev s frames = tx_status_skb_done dev s MT_TX_CB_TXS_DONE frames"

definition wed_only :: "tx_dev \<Rightarrow> nat \<Rightarrow> bool" where
  "wed_only dev s \<longleftrightarrow>
     tdv_wed_active (dv_txs dev) \<and> (sk_hw_encap (dv_skb dev s) \<or> sk_is_data (dv_skb dev s))"

definition mt76_tx_status_skb_add ::
  "nat idr_alloc \<Rightarrow> tx_dev \<Rightarrow> nat option \<Rightarrow> nat \<Rightarrow> nat \<times> tx_dev" where
  "mt76_tx_status_skb_add alloc dev wcid s =
     (let dev = upd_cb s (\<lambda>_. \<lparr>cb_jiffies = 0, cb_wcid = 0, cb_pktid = 0, cb_flags = 0\<rparr>) dev
      in case wcid of
           None \<Rightarrow> (MT_PACKET_ID_NO_ACK, dev)
         | Some w \<Rightarrow>
             if dv_table dev (unat (wc_idx (dv_wcid dev w))) = None then (MT_PACKET_ID_NO_ACK, dev)
             else if sk_no_ack (dv_skb dev s) then (MT_PACKET_ID_NO_ACK, dev)
             else if \<not> (sk_req_tx_status (dv_skb dev s) \<or> sk_rate_ctrl_probe (dv_skb dev s)) then
               (if wed_only dev s then MT_PACKET_ID_WED else MT_PACKET_ID_NO_SKB, dev)
             else (case alloc (wc_pktid (dv_wcid dev w)) MT_PACKET_ID_FIRST MT_PACKET_ID_MASK of
                 None \<Rightarrow> (MT_PACKET_ID_NO_SKB, dev)
               | Some pid \<Rightarrow>
                   let dev = upd_wcid w (\<lambda>c. c\<lparr>wc_pktid := (wc_pktid c)(pid \<mapsto> s)\<rparr>) dev;
                       dev = upd_cb s (\<lambda>cb. cb\<lparr>cb_wcid := wc_idx (dv_wcid dev w),
                               cb_pktid := word_of_nat pid\<rparr>) dev
                   in (pid, if w \<in> set (dv_wcid_list dev) then dev
                            else dev\<lparr>dv_wcid_list := dv_wcid_list dev @ [w]\<rparr>)))"

text \<open>
  The scan of \<open>idr_for_each_entry\<close>: packet ids are allocated below \<open>MT_PACKET_ID_MASK\<close> only, so
  the ascending scan of the map visits these numbers. An entry is looked up when its turn comes.
\<close>

definition time_is_after_jiffies :: "tx_dev \<Rightarrow> u64 \<Rightarrow> bool" where
  "time_is_after_jiffies dev a \<longleftrightarrow> sint (dv_jiffies dev - a) < 0"

definition skb_is_stale :: "tx_dev \<Rightarrow> int \<Rightarrow> nat \<Rightarrow> bool" where
  "skb_is_stale dev pktid s =
     (let cb = sk_cb (dv_skb dev s) in
      \<not> (pktid \<ge> 0 \<and> (cb_flags cb AND MT_TX_CB_DMA_DONE = 0
           \<or> time_is_after_jiffies dev (cb_jiffies cb + MT_TX_STATUS_SKB_TIMEOUT dev))))"

fun scan_stale :: "nat list \<Rightarrow> tx_dev \<Rightarrow> nat \<Rightarrow> int \<Rightarrow> nat list \<Rightarrow> tx_dev \<times> nat list" where
  "scan_stale [] dev w pktid frames = (dev, frames)"
| "scan_stale (i # ids) dev w pktid frames =
     (case wc_pktid (dv_wcid dev w) i of
        None \<Rightarrow> scan_stale ids dev w pktid frames
      | Some s \<Rightarrow>
          if \<not> skb_is_stale dev pktid s then scan_stale ids dev w pktid frames
          else let dev = upd_wcid w (\<lambda>c. c\<lparr>wc_pktid :=
                     (wc_pktid c)(unat (cb_pktid (sk_cb (dv_skb dev s))) := None)\<rparr>) dev;
                   (dev, frames) = tx_status_skb_done dev s
                     (MT_TX_CB_TXS_FAILED OR MT_TX_CB_TXS_DONE) frames
               in scan_stale ids dev w pktid frames)"

definition pktid_empty :: "tx_wcid \<Rightarrow> bool" where
  "pktid_empty c \<longleftrightarrow> list_all (\<lambda>i. wc_pktid c i = None) [0..<MT_PACKET_ID_MASK]"

definition drop_if_empty :: "tx_dev \<Rightarrow> nat \<Rightarrow> tx_dev" where
  "drop_if_empty dev w =
     (if pktid_empty (dv_wcid dev w) then dev\<lparr>dv_wcid_list := removeAll w (dv_wcid_list dev)\<rparr> else dev)"

definition mt76_tx_status_skb_get ::
  "tx_dev \<Rightarrow> nat \<Rightarrow> int \<Rightarrow> nat list \<Rightarrow> nat option \<times> tx_dev \<times> nat list" where
  "mt76_tx_status_skb_get dev w pktid frames =
     (case (if pktid < 0 then None else wc_pktid (dv_wcid dev w) (nat pktid)) of
        Some s \<Rightarrow>
          let dev = upd_wcid w (\<lambda>c. c\<lparr>wc_pktid := (wc_pktid c)(nat pktid := None)\<rparr>) dev
          in (Some s, drop_if_empty dev w, frames)
      | None \<Rightarrow>
          let (dev, frames) = scan_stale [0..<MT_PACKET_ID_MASK] dev w pktid frames
          in (None, drop_if_empty dev w, frames))"

fun check_list :: "nat list \<Rightarrow> tx_dev \<Rightarrow> int \<Rightarrow> nat list \<Rightarrow> tx_dev \<times> nat list" where
  "check_list [] dev pktid frames = (dev, frames)"
| "check_list (w # ws) dev pktid frames =
     (let (_, dev, frames) = mt76_tx_status_skb_get dev w pktid frames
      in check_list ws dev pktid frames)"

definition mt76_tx_status_check :: "tx_dev \<Rightarrow> bool \<Rightarrow> tx_dev" where
  "mt76_tx_status_check dev flush =
     (let (dev, frames) = check_list (dv_wcid_list dev) dev (if flush then -1 else 0) []
      in mt76_tx_status_unlock dev frames)"

definition mt76_tx_check_non_aql :: "tx_dev \<Rightarrow> nat option \<Rightarrow> nat \<Rightarrow> tx_dev" where
  "mt76_tx_check_non_aql dev wcid s = (case wcid of
     None \<Rightarrow> dev
   | Some w \<Rightarrow> if sk_time_est (dv_skb dev s) then dev
       else let pending = wc_non_aql (dv_wcid dev w) - 1
            in upd_wcid w (\<lambda>c. c\<lparr>wc_non_aql := if pending < 0 then 0 else pending\<rparr>) dev)"

definition mt76_tx_complete_skb :: "tx_dev \<Rightarrow> u16 \<Rightarrow> nat \<Rightarrow> tx_dev" where
  "mt76_tx_complete_skb dev idx s =
     (let wcid = mt76_wcid_ptr dev idx;
          dev = mt76_tx_check_non_aql dev wcid s
      in if unat (cb_pktid (sk_cb (dv_skb dev s))) < MT_PACKET_ID_FIRST then
           let (hw, dev) = mt76_tx_status_get_hw dev s
           in log_ev (Report s (wcid_to_sta dev wcid) (status_rate dev wcid) hw) dev
         else let dev = upd_cb s (\<lambda>cb. cb\<lparr>cb_jiffies := dv_jiffies dev\<rparr>) dev;
                  (dev, frames) = tx_status_skb_done dev s MT_TX_CB_DMA_DONE []
              in mt76_tx_status_unlock dev frames)"

definition TXS0_ACK_ERROR_MASK :: u32 where "TXS0_ACK_ERROR_MASK = GENMASK 18 16"

definition mt76_connac2_mac_add_txs_skb :: "tx_dev \<Rightarrow> nat \<Rightarrow> int \<Rightarrow> u32 list \<Rightarrow> bool \<times> tx_dev" where
  "mt76_connac2_mac_add_txs_skb dev w pid txs_data =
     (if TXS0_TXS_FORMAT (txs_data ! 0) = 2 then (False, dev)
      else let (skb, dev, frames) = mt76_tx_status_skb_get dev w pid [] in
        case skb of
          None \<Rightarrow> (False, mt76_tx_status_unlock dev frames)
        | Some s \<Rightarrow>
            let dev = upd_skb s (\<lambda>k. if txs_data ! 0 AND TXS0_ACK_ERROR_MASK = 0
                    then k\<lparr>sk_stat_ack := True\<rparr> else k) dev;
                dev = upd_skb s (\<lambda>k. k\<lparr>sk_ampdu_len := 1,
                    sk_ampdu_ack_len := if sk_stat_ack k then 1 else 0, sk_rate0_idx := -1\<rparr>) dev;
                (_, _, c) = mt76_connac2_mac_fill_txs (dv_txs dev) (wc_txs (dv_wcid dev w)) txs_data;
                dev = upd_wcid w (\<lambda>k. k\<lparr>wc_txs := c\<rparr>) dev;
                (dev, frames) = mt76_tx_status_skb_done dev s frames
            in (True, mt76_tx_status_unlock dev frames))"

text \<open>\<open>idr_destroy\<close> empties the map whatever it holds.\<close>

definition mt76_wcid_cleanup :: "tx_dev \<Rightarrow> nat \<Rightarrow> tx_dev" where
  "mt76_wcid_cleanup dev w =
     (let phy = mt76_dev_phy dev (tc_phy_idx (wc_txs (dv_wcid dev w)));
          (_, dev, frames) = mt76_tx_status_skb_get dev w (-1) [];
          dev = mt76_tx_status_unlock dev frames;
          dev = upd_wcid w (\<lambda>c. c\<lparr>wc_pktid := Map.empty\<rparr>) dev;
          dev = upd_phy phy (\<lambda>p. p\<lparr>py_tx_list := removeAll w (py_tx_list p)\<rparr>) dev;
          queued = wc_pending (dv_wcid dev w) @ wc_offchannel (dv_wcid dev w);
          dev = upd_wcid w (\<lambda>c. c\<lparr>wc_pending := [], wc_offchannel := []\<rparr>) dev
      in fold (\<lambda>s dev. let (hw, dev) = mt76_tx_status_get_hw dev s in log_ev (Free_skb s hw) dev)
           queued dev)"

definition mt76_sta_pre_rcu_remove :: "tx_dev \<Rightarrow> nat \<Rightarrow> tx_dev" where
  "mt76_sta_pre_rcu_remove dev w =
     dev\<lparr>dv_table := (dv_table dev)(unat (wc_idx (dv_wcid dev w)) := None)\<rparr>"

section \<open>The tracking invariant\<close>

text \<open>
  It relates the packet-id maps of all clients, the packet id and flags of every frame, the set
  of listed clients, the frames reported or about to be (\<open>R\<close>), and two histories: the frames
  ever given to \<open>mt76_tx_status_skb_add\<close> (\<open>A\<close>) and those whose DMA completed (\<open>C\<close>). \<open>X\<close> holds
  a frame taken out of its map whose status is still to be recorded.
\<close>

definition in_idr :: "(nat \<Rightarrow> nat idr) \<Rightarrow> nat \<Rightarrow> bool" where
  "in_idr idr s \<longleftrightarrow> (\<exists>w i. idr w i = Some s)"

definition tracked_inv :: "(nat \<Rightarrow> nat idr) \<Rightarrow> (nat \<Rightarrow> nat) \<Rightarrow> (nat \<Rightarrow> u8) \<Rightarrow> nat set \<Rightarrow> nat list
    \<Rightarrow> nat set \<Rightarrow> nat set \<Rightarrow> nat set \<Rightarrow> bool" where
  "tracked_inv idr pid fl L R A C X \<longleftrightarrow>
     C \<subseteq> A \<and> X \<subseteq> A \<and> set R \<subseteq> A
     \<and> (\<forall>w i s. idr w i = Some s \<longrightarrow>
          3 \<le> i \<and> i < 127 \<and> s \<in> A \<and> pid s = i \<and> \<not> bit (fl s) 1 \<and> w \<in> L \<and> s \<notin> X)
     \<and> (\<forall>w w' i i' s. idr w i = Some s \<longrightarrow> idr w' i' = Some s \<longrightarrow> w = w')
     \<and> (\<forall>s \<in> A. 3 \<le> pid s \<longrightarrow> (bit (fl s) 0 \<longleftrightarrow> s \<in> C))
     \<and> (\<forall>s \<in> A. 3 \<le> pid s \<longrightarrow> \<not> bit (fl s) 1 \<longrightarrow> s \<in> X \<or> in_idr idr s)
     \<and> (\<forall>s \<in> X. 3 \<le> pid s \<and> \<not> bit (fl s) 1)
     \<and> (\<forall>s \<in> A. count_list R s = (if s \<in> C \<and> (3 \<le> pid s \<longrightarrow> bit (fl s) 1) then 1 else 0))"

lemma track_idr:
  assumes "tracked_inv idr pid fl L R A C X" "idr w i = Some s"
  shows "3 \<le> i" "i < 127" "s \<in> A" "pid s = i" "\<not> bit (fl s) 1" "w \<in> L" "s \<notin> X"
  using assms unfolding tracked_inv_def by blast+

lemma track_unique:
  "tracked_inv idr pid fl L R A C X \<Longrightarrow> idr w i = Some s \<Longrightarrow> idr v j = Some s \<Longrightarrow> v = w \<and> j = i"
  unfolding tracked_inv_def by metis

lemma track_facts:
  assumes "tracked_inv idr pid fl L R A C X"
  shows "C \<subseteq> A" "X \<subseteq> A" "set R \<subseteq> A"
    and "s \<in> A \<Longrightarrow> 3 \<le> pid s \<Longrightarrow> bit (fl s) 0 \<longleftrightarrow> s \<in> C"
    and "s \<in> A \<Longrightarrow> 3 \<le> pid s \<Longrightarrow> \<not> bit (fl s) 1 \<Longrightarrow> s \<in> X \<or> in_idr idr s"
    and "s \<in> X \<Longrightarrow> 3 \<le> pid s" "s \<in> X \<Longrightarrow> \<not> bit (fl s) 1"
    and "s \<in> A \<Longrightarrow> count_list R s = (if s \<in> C \<and> (3 \<le> pid s \<longrightarrow> bit (fl s) 1) then 1 else 0)"
  using assms unfolding tracked_inv_def by blast+

lemma tracked_invI:
  assumes "C \<subseteq> A" "X \<subseteq> A" "set R \<subseteq> A"
    and "\<And>w i s. idr w i = Some s \<Longrightarrow>
      3 \<le> i \<and> i < 127 \<and> s \<in> A \<and> pid s = i \<and> \<not> bit (fl s) 1 \<and> w \<in> L \<and> s \<notin> X"
    and "\<And>w v i j s. idr w i = Some s \<Longrightarrow> idr v j = Some s \<Longrightarrow> w = v"
    and "\<And>s. s \<in> A \<Longrightarrow> 3 \<le> pid s \<Longrightarrow> bit (fl s) 0 \<longleftrightarrow> s \<in> C"
    and "\<And>s. s \<in> A \<Longrightarrow> 3 \<le> pid s \<Longrightarrow> \<not> bit (fl s) 1 \<Longrightarrow> s \<in> X \<or> in_idr idr s"
    and "\<And>s. s \<in> X \<Longrightarrow> 3 \<le> pid s \<and> \<not> bit (fl s) 1"
    and "\<And>s. s \<in> A \<Longrightarrow> count_list R s = (if s \<in> C \<and> (3 \<le> pid s \<longrightarrow> bit (fl s) 1) then 1 else 0)"
  shows "tracked_inv idr pid fl L R A C X"
  unfolding tracked_inv_def using assms by meson

lemma in_idr_I: "idr w i = Some s \<Longrightarrow> in_idr idr s"
  by (auto simp: in_idr_def)

lemma track_add_untracked:
  assumes inv: "tracked_inv idr pid fl L R A C {}" and "s \<notin> A" "p < 3"
  shows "tracked_inv idr (pid(s := p)) (fl(s := 0)) L R (insert s A) C {}"
proof -
  have "count_list R s = 0" using track_facts(3) [OF inv] \<open>s \<notin> A\<close> by (auto simp: count_list_0_iff)
  moreover have "s \<noteq> t" if "idr w i = Some t" for w i t
    using track_idr(3) [OF inv that] \<open>s \<notin> A\<close> by blast
  ultimately show ?thesis
    using track_facts [OF inv] track_idr [OF inv] track_unique [OF inv] assms(2,3)
    by (intro tracked_invI) (auto split: if_splits)
qed

lemma track_add_tracked:
  assumes inv: "tracked_inv idr pid fl L R A C {}" and "s \<notin> A" "3 \<le> i" "i < 127" "idr w i = None"
  shows "tracked_inv (idr(w := (idr w)(i \<mapsto> s))) (pid(s := i)) (fl(s := 0)) (insert w L) R (insert s A) C {}"
proof -
  let ?idr = "idr(w := (idr w)(i \<mapsto> s))"
  have c: "count_list R s = 0" using track_facts(3) [OF inv] \<open>s \<notin> A\<close> by (auto simp: count_list_0_iff)
  have new: "(v = w \<and> j = i \<and> t = s) \<or> (idr v j = Some t \<and> t \<noteq> s)" if "?idr v j = Some t" for v j t
    using that track_idr(3) [OF inv, of v j t] \<open>s \<notin> A\<close> by (auto split: if_splits)
  have old: "?idr v j = Some t" if "idr v j = Some t" for v j t
    using that \<open>idr w i = None\<close> by auto
  have "in_idr ?idr t" if "in_idr idr t" for t
    using that old unfolding in_idr_def by blast
  moreover have "in_idr ?idr s" by (rule in_idr_I [of _ w i]) simp
  ultimately show ?thesis
    using c track_facts [OF inv] assms(2-4)
    by (intro tracked_invI; (drule new)?; (drule new)?)
      (use track_idr [OF inv] track_unique [OF inv] in \<open>auto split: if_splits\<close>)
qed

lemma track_remove:
  assumes inv: "tracked_inv idr pid fl L R A C {}" and e: "idr w i = Some s"
  shows "tracked_inv (idr(w := (idr w)(i := None))) pid fl L R A C {s}"
proof -
  define idr' where "idr' = idr(w := (idr w)(i := None))"
  have new: "idr v j = Some t \<and> t \<noteq> s" if "idr' v j = Some t" for v j t
    using that track_unique [OF inv e, of v j] by (auto simp: idr'_def split: if_splits)
  have keep: "in_idr idr' t" if t: "in_idr idr t" "t \<noteq> s" for t
  proof -
    obtain v j where "idr v j = Some t" using t(1) unfolding in_idr_def by blast
    then have "idr' v j = Some t" using t(2) e by (auto simp: idr'_def)
    then show ?thesis by (rule in_idr_I)
  qed
  have rest: "t = s \<or> in_idr idr' t" if "t \<in> A" "3 \<le> pid t" "\<not> bit (fl t) 1" for t
    using track_facts(5) [OF inv that] keep by blast
  show ?thesis
    unfolding idr'_def [symmetric]
  proof (rule tracked_invI)
    fix v j t assume "idr' v j = Some t"
    from new [OF this] show "3 \<le> j \<and> j < 127 \<and> t \<in> A \<and> pid t = j \<and> \<not> bit (fl t) 1 \<and> v \<in> L \<and> t \<notin> {s}"
      using track_idr [OF inv, of v j t] by simp
  next
    fix v u j k t assume "idr' v j = Some t" "idr' u k = Some t"
    then show "v = u" using new track_unique [OF inv] by metis
  next
    fix t assume "t \<in> {s}"
    then show "3 \<le> pid t \<and> \<not> bit (fl t) 1" using track_idr [OF inv e] by simp
  next
    fix t assume "t \<in> A" "3 \<le> pid t" "\<not> bit (fl t) 1"
    then show "t \<in> {s} \<or> in_idr idr' t" using rest by simp
  qed (use track_facts(1-4,8) [OF inv] track_idr(3) [OF inv e] in simp_all)
qed

lemma track_txs:
  assumes inv: "tracked_inv idr pid fl L R A C {s}" and f: "bit f 1" "\<not> bit f 0"
  shows "tracked_inv idr pid (fl(s := f OR fl s)) L
    (if bit (fl s) 0 then R @ [s] else R) A C {}"
proof -
  have new: "t \<noteq> s" if "idr v j = Some t" for v j t
    using track_idr(7) [OF inv that] by blast
  have keep: "in_idr idr t" if "t \<in> A" "3 \<le> pid t" "\<not> bit (fl t) 1" "t \<noteq> s" for t
    using track_facts(5) [OF inv that(1-3)] that(4) by blast
  show ?thesis
    using track_facts(1-4,6-8) [OF inv] keep f track_unique [OF inv]
    by (intro tracked_invI; (frule new)?) (use track_idr [OF inv] in \<open>auto simp: bit_or_iff split: if_splits\<close>)
qed

lemma track_dma:
  assumes inv: "tracked_inv idr pid fl L R A C {}" and "s \<in> A" "s \<notin> C" "3 \<le> pid s"
    and f: "bit f 0" "\<not> bit f 1"
  shows "tracked_inv idr pid (fl(s := f OR fl s)) L
    (if bit (fl s) 1 then R @ [s] else R) A (insert s C) {}"
  using track_facts [OF inv] assms(2-) track_unique [OF inv] track_idr [OF inv]
  by (intro tracked_invI) (auto simp: bit_or_iff split: if_splits)

lemma track_untracked:
  assumes inv: "tracked_inv idr pid fl L R A C {}" and "s \<in> A" "s \<notin> C" "pid s < 3"
  shows "tracked_inv idr pid fl L (R @ [s]) A (insert s C) {}"
  using track_facts [OF inv] assms(2-) track_unique [OF inv] track_idr [OF inv]
  by (intro tracked_invI) auto

lemma track_list:
  assumes inv: "tracked_inv idr pid fl L R A C X" and "\<And>w i s. idr w i = Some s \<Longrightarrow> w \<in> L'"
  shows "tracked_inv idr pid fl L' R A C X"
  using track_facts [OF inv] track_idr [OF inv] track_unique [OF inv] assms(2)
  by (intro tracked_invI) simp_all

section \<open>The operations keep the invariant\<close>

fun reports :: "tx_event list \<Rightarrow> nat list" where
  "reports [] = []"
| "reports (Report s sta rate hw # es) = s # reports es"
| "reports (e # es) = reports es"

lemma reports_append [simp]: "reports (xs @ ys) = reports xs @ reports ys"
  by (induction xs rule: reports.induct) simp_all

definition ids :: "tx_dev \<Rightarrow> nat \<Rightarrow> nat idr" where
  "ids dev w = wc_pktid (dv_wcid dev w)"

definition pid_of :: "tx_dev \<Rightarrow> nat \<Rightarrow> nat" where
  "pid_of dev s = unat (cb_pktid (sk_cb (dv_skb dev s)))"

definition flags_of :: "tx_dev \<Rightarrow> nat \<Rightarrow> u8" where
  "flags_of dev s = cb_flags (sk_cb (dv_skb dev s))"

definition ts_inv :: "tx_dev \<Rightarrow> nat list \<Rightarrow> nat set \<Rightarrow> nat set \<Rightarrow> nat set \<Rightarrow> bool" where
  "ts_inv dev fr A C X \<longleftrightarrow> tracked_inv (ids dev) (pid_of dev) (flags_of dev)
     (set (dv_wcid_list dev)) (reports (dv_log dev) @ fr) A C X"

text \<open>Two devices that agree on what the invariant reads.\<close>

definition same_track :: "tx_dev \<Rightarrow> tx_dev \<Rightarrow> bool" where
  "same_track d e \<longleftrightarrow> ids d = ids e \<and> pid_of d = pid_of e \<and> flags_of d = flags_of e
     \<and> dv_wcid_list d = dv_wcid_list e \<and> reports (dv_log d) = reports (dv_log e)"

lemma same_track_inv: "same_track d e \<Longrightarrow> ts_inv d fr A C X \<longleftrightarrow> ts_inv e fr A C X"
  by (simp add: same_track_def ts_inv_def)

lemma same_track_trans: "same_track d e \<Longrightarrow> same_track e f \<Longrightarrow> same_track d f"
  by (simp add: same_track_def)

lemma same_track_upd_skb:
  "(\<And>k. sk_cb (f k) = sk_cb k) \<Longrightarrow> same_track (upd_skb s f dev) dev"
  by (auto simp: same_track_def ids_def pid_of_def flags_of_def)

lemma same_track_upd_wcid:
  "(\<And>c. wc_pktid (f c) = wc_pktid c) \<Longrightarrow> same_track (upd_wcid w f dev) dev"
  by (auto simp: same_track_def ids_def pid_of_def flags_of_def)

lemma same_track_upd_phy: "same_track (upd_phy q f dev) dev"
  by (simp add: same_track_def ids_def [abs_def] pid_of_def [abs_def] flags_of_def [abs_def])

lemma same_track_get_hw: "same_track (snd (mt76_tx_status_get_hw dev s)) dev"
  by (simp add: mt76_tx_status_get_hw_def Let_def same_track_upd_skb)

lemma get_hw_keeps:
  "dv_log (snd (mt76_tx_status_get_hw dev s)) = dv_log dev"
  "dv_wcid (snd (mt76_tx_status_get_hw dev s)) = dv_wcid dev"
  by (simp_all add: mt76_tx_status_get_hw_def Let_def)

text \<open>Releasing the lock turns the pending frames into reports, in order.\<close>

lemma unlock_effect:
  "ids (mt76_tx_status_unlock dev frames) = ids dev
   \<and> pid_of (mt76_tx_status_unlock dev frames) = pid_of dev
   \<and> flags_of (mt76_tx_status_unlock dev frames) = flags_of dev
   \<and> dv_wcid_list (mt76_tx_status_unlock dev frames) = dv_wcid_list dev
   \<and> reports (dv_log (mt76_tx_status_unlock dev frames)) = reports (dv_log dev) @ frames"
proof (induction frames arbitrary: dev)
  case Nil
  then show ?case by (simp add: mt76_tx_status_unlock_def)
next
  case (Cons s fs)
  define dev' where "dev' = log_ev (Report s (wcid_to_sta dev (mt76_wcid_ptr dev (cb_wcid (sk_cb (dv_skb dev s)))))
    (status_rate dev (mt76_wcid_ptr dev (cb_wcid (sk_cb (dv_skb dev s)))))
    (fst (mt76_tx_status_get_hw dev s))) (snd (mt76_tx_status_get_hw dev s))"
  have step: "mt76_tx_status_unlock dev (s # fs) = mt76_tx_status_unlock dev' fs"
    by (simp add: mt76_tx_status_unlock_def dev'_def Let_def case_prod_beta)
  have "same_track (snd (mt76_tx_status_get_hw dev s)) dev" by (rule same_track_get_hw)
  then have "ids dev' = ids dev" "pid_of dev' = pid_of dev" "flags_of dev' = flags_of dev"
    "dv_wcid_list dev' = dv_wcid_list dev" "reports (dv_log dev') = reports (dv_log dev) @ [s]"
    by (simp_all add: dev'_def same_track_def ids_def [abs_def] pid_of_def [abs_def]
        flags_of_def [abs_def] get_hw_keeps)
  then show ?case using Cons.IH [of dev'] by (simp add: step)
qed

lemma unlock_inv:
  "ts_inv dev frames A C X \<Longrightarrow> ts_inv (mt76_tx_status_unlock dev frames) [] A C X"
  using unlock_effect [of dev frames] by (simp add: ts_inv_def)

lemma bits_done: "(f :: u8) AND (MT_TX_CB_DMA_DONE OR MT_TX_CB_TXS_DONE) = MT_TX_CB_DMA_DONE OR MT_TX_CB_TXS_DONE
    \<longleftrightarrow> bit f 0 \<and> bit f 1"
proof
  assume a: "f AND (MT_TX_CB_DMA_DONE OR MT_TX_CB_TXS_DONE) = MT_TX_CB_DMA_DONE OR MT_TX_CB_TXS_DONE"
  have "bit (f AND (MT_TX_CB_DMA_DONE OR MT_TX_CB_TXS_DONE)) i" if "i = 0 \<or> i = 1" for i
    unfolding a using that by (auto simp: bit_or_iff MT_TX_CB_DMA_DONE_def MT_TX_CB_TXS_DONE_def bit_BIT)
  then show "bit f 0 \<and> bit f 1" by (auto simp: bit_and_iff)
next
  assume "bit f 0 \<and> bit f 1"
  then show "f AND (MT_TX_CB_DMA_DONE OR MT_TX_CB_TXS_DONE) = MT_TX_CB_DMA_DONE OR MT_TX_CB_TXS_DONE"
    by (auto intro!: bit_word_eqI simp: bit_and_iff bit_or_iff MT_TX_CB_DMA_DONE_def
        MT_TX_CB_TXS_DONE_def bit_BIT)
qed

lemma flag_bits:
  "bit MT_TX_CB_DMA_DONE 0" "\<not> bit MT_TX_CB_DMA_DONE 1" "bit MT_TX_CB_TXS_DONE 1"
  "\<not> bit MT_TX_CB_TXS_DONE 0" "bit (MT_TX_CB_TXS_FAILED OR MT_TX_CB_TXS_DONE) 1"
  "\<not> bit (MT_TX_CB_TXS_FAILED OR MT_TX_CB_TXS_DONE) 0"
  by (auto simp: MT_TX_CB_DMA_DONE_def MT_TX_CB_TXS_DONE_def MT_TX_CB_TXS_FAILED_def bit_BIT bit_or_iff)

lemma skb_done_effect:
  "ids (fst (tx_status_skb_done dev s f fr)) = ids dev
   \<and> pid_of (fst (tx_status_skb_done dev s f fr)) = pid_of dev
   \<and> flags_of (fst (tx_status_skb_done dev s f fr)) = (flags_of dev)(s := f OR flags_of dev s)
   \<and> dv_wcid_list (fst (tx_status_skb_done dev s f fr)) = dv_wcid_list dev
   \<and> dv_log (fst (tx_status_skb_done dev s f fr)) = dv_log dev
   \<and> dv_wcid (fst (tx_status_skb_done dev s f fr)) = dv_wcid dev
   \<and> snd (tx_status_skb_done dev s f fr) =
       (if bit (f OR flags_of dev s) 0 \<and> bit (f OR flags_of dev s) 1 then fr @ [s] else fr)"
  unfolding tx_status_skb_done_def Let_def bits_done
  by (auto simp: upd_cb_def ids_def pid_of_def flags_of_def fun_eq_iff)

lemma skb_done_txs:
  assumes "ts_inv dev fr A C {s}" "bit f 1" "\<not> bit f 0"
  shows "ts_inv (fst (tx_status_skb_done dev s f fr)) (snd (tx_status_skb_done dev s f fr)) A C {}"
  using track_txs [OF assms(1) [unfolded ts_inv_def] assms(2,3)] assms(2,3)
    skb_done_effect [of dev s f fr]
  by (auto simp: ts_inv_def bit_or_iff split: if_splits)

lemma skb_done_dma:
  assumes "ts_inv dev fr A C {}" "s \<in> A" "s \<notin> C" "3 \<le> pid_of dev s"
  shows "ts_inv (fst (tx_status_skb_done dev s MT_TX_CB_DMA_DONE fr))
    (snd (tx_status_skb_done dev s MT_TX_CB_DMA_DONE fr)) A (insert s C) {}"
  using track_dma [OF assms(1) [unfolded ts_inv_def] assms(2-4) flag_bits(1,2)] flag_bits(1,2)
    skb_done_effect [of dev s MT_TX_CB_DMA_DONE fr]
  by (auto simp: ts_inv_def bit_or_iff split: if_splits)

text \<open>Taking one entry out of a client's map.\<close>

definition take_out :: "tx_dev \<Rightarrow> nat \<Rightarrow> nat \<Rightarrow> tx_dev" where
  "take_out dev w i = upd_wcid w (\<lambda>c. c\<lparr>wc_pktid := (wc_pktid c)(i := None)\<rparr>) dev"

lemma take_out_effect:
  "ids (take_out dev w i) = (ids dev)(w := (ids dev w)(i := None))"
  "pid_of (take_out dev w i) = pid_of dev" "flags_of (take_out dev w i) = flags_of dev"
  "dv_wcid_list (take_out dev w i) = dv_wcid_list dev" "dv_log (take_out dev w i) = dv_log dev"
  by (simp_all add: take_out_def ids_def pid_of_def [abs_def] flags_of_def [abs_def] fun_eq_iff)

lemma take_out_inv:
  "ts_inv dev fr A C {} \<Longrightarrow> ids dev w i = Some s \<Longrightarrow> ts_inv (take_out dev w i) fr A C {s}"
  unfolding ts_inv_def take_out_effect by (rule track_remove)

lemma scan_stale_step:
  assumes "ids dev w i = Some s" "skb_is_stale dev pktid s" "pid_of dev s = i"
  shows "scan_stale (i # is) dev w pktid fr =
    (let r = tx_status_skb_done (take_out dev w i) s (MT_TX_CB_TXS_FAILED OR MT_TX_CB_TXS_DONE) fr
     in scan_stale is (fst r) w pktid (snd r))"
  using assms by (simp add: ids_def pid_of_def take_out_def Let_def case_prod_beta)

lemma scan_stale_inv:
  assumes "ts_inv dev fr A C {}"
  shows "ts_inv (fst (scan_stale is dev w pktid fr)) (snd (scan_stale is dev w pktid fr)) A C {}
    \<and> dv_log (fst (scan_stale is dev w pktid fr)) = dv_log dev
    \<and> dv_wcid_list (fst (scan_stale is dev w pktid fr)) = dv_wcid_list dev
    \<and> (\<forall>v j. ids (fst (scan_stale is dev w pktid fr)) v j \<in>
          {ids dev v j, None})
    \<and> (pktid < 0 \<longrightarrow> (\<forall>i \<in> set is. ids (fst (scan_stale is dev w pktid fr)) w i = None))"
  using assms
proof (induction "is" arbitrary: dev fr)
  case Nil
  then show ?case by simp
next
  case (Cons i "is")
  consider (skip) "ids dev w i = None"
    | (keep) s where "ids dev w i = Some s" "\<not> skb_is_stale dev pktid s"
    | (stale) s where "ids dev w i = Some s" "skb_is_stale dev pktid s"
    by (cases "ids dev w i") auto
  then show ?case
  proof cases
    case skip
    then have e: "scan_stale (i # is) dev w pktid fr = scan_stale is dev w pktid fr"
      by (simp add: ids_def)
    have "ids (fst (scan_stale is dev w pktid fr)) w i \<in> {ids dev w i, None}"
      using Cons.IH [OF Cons.prems] by blast
    then show ?thesis using Cons.IH [OF Cons.prems] skip unfolding e by simp
  next
    case keep
    then have e: "scan_stale (i # is) dev w pktid fr = scan_stale is dev w pktid fr"
      by (simp add: ids_def)
    have "\<not> pktid < 0" using keep(2) by (auto simp: skb_is_stale_def Let_def)
    then show ?thesis using Cons.IH [OF Cons.prems] unfolding e by simp
  next
    case stale
    let ?f = "MT_TX_CB_TXS_FAILED OR MT_TX_CB_TXS_DONE"
    let ?r = "tx_status_skb_done (take_out dev w i) s ?f fr"
    have pid: "pid_of dev s = i"
      using track_idr(4) [OF Cons.prems [unfolded ts_inv_def] stale(1)] .
    have e: "scan_stale (i # is) dev w pktid fr = scan_stale is (fst ?r) w pktid (snd ?r)"
      using scan_stale_step [OF stale pid] by (simp add: Let_def)
    have "ts_inv (fst ?r) (snd ?r) A C {}"
      by (intro skb_done_txs take_out_inv [OF Cons.prems stale(1)] flag_bits)
    note IH = Cons.IH [OF this]
    have r: "ids (fst ?r) = (ids dev)(w := (ids dev w)(i := None))" "dv_log (fst ?r) = dv_log dev"
      "dv_wcid_list (fst ?r) = dv_wcid_list dev"
      using skb_done_effect [of "take_out dev w i" s ?f fr] by (simp_all add: take_out_effect)
    have "ids (fst ?r) v j \<in> {ids dev v j, None}" "ids (fst ?r) w i = None" for v j
      by (auto simp: r(1))
    then show ?thesis using IH r(2,3) unfolding e by (metis (no_types, lifting) insert_iff singletonD set_ConsD)
  qed
qed

lemma drop_if_empty_same:
  "ids (drop_if_empty dev w) = ids dev" "pid_of (drop_if_empty dev w) = pid_of dev"
  "flags_of (drop_if_empty dev w) = flags_of dev" "dv_log (drop_if_empty dev w) = dv_log dev"
  "dv_skb (drop_if_empty dev w) = dv_skb dev" "dv_wcid (drop_if_empty dev w) = dv_wcid dev"
  by (simp_all add: drop_if_empty_def ids_def [abs_def] pid_of_def [abs_def] flags_of_def [abs_def])

lemma drop_if_empty_inv:
  assumes "ts_inv dev fr A C X"
  shows "ts_inv (drop_if_empty dev w) fr A C X"
proof -
  have "v \<in> set (dv_wcid_list (drop_if_empty dev w))" if "ids dev v i = Some s" for v i s
  proof (cases "v = w \<and> pktid_empty (dv_wcid dev w)")
    case True
    then have "ids dev v i = None" if "i < 127"
      using that by (simp add: pktid_empty_def list_all_iff MT_PACKET_ID_MASK_def ids_def)
    then show ?thesis using track_idr(2) [OF assms [unfolded ts_inv_def] that] that by simp
  next
    case False
    then show ?thesis using track_idr(6) [OF assms [unfolded ts_inv_def] that]
      by (auto simp: drop_if_empty_def)
  qed
  then show ?thesis
    using track_list [OF assms [unfolded ts_inv_def]] unfolding ts_inv_def drop_if_empty_same by blast
qed

text \<open>
  \<open>mt76_tx_status_skb_get\<close>: either it takes out the entry asked for, or it times out stale
  entries, all of them when the id is negative.
\<close>

lemma skb_get_inv:
  assumes "ts_inv dev fr A C {}" "mt76_tx_status_skb_get dev w pktid fr = (r, dev', fr')"
  shows "ts_inv dev' fr' A C (set_option r)"
    and "dv_log dev' = dv_log dev"
    and "ids dev' v j \<in> {ids dev v j, None}"
    and "pktid < 0 \<Longrightarrow> r = None \<and> ids dev' w i = None"
    and "v \<noteq> w \<Longrightarrow> v \<in> set (dv_wcid_list dev) \<longleftrightarrow> v \<in> set (dv_wcid_list dev')"
proof -
  let ?e = "if pktid < 0 then None else wc_pktid (dv_wcid dev w) (nat pktid)"
  let ?s = "scan_stale [0..<MT_PACKET_ID_MASK] dev w pktid fr"
  note scan = scan_stale_inv [OF assms(1), of "[0..<MT_PACKET_ID_MASK]" w pktid]
  have some: "r = Some s \<and> dev' = drop_if_empty (take_out dev w (nat pktid)) w \<and> fr' = fr
    \<and> ids dev w (nat pktid) = Some s \<and> \<not> pktid < 0" if "?e = Some s" for s
    using that assms(2) by (auto simp: mt76_tx_status_skb_get_def take_out_def ids_def Let_def split: if_splits)
  have none: "r = None \<and> dev' = drop_if_empty (fst ?s) w \<and> fr' = snd ?s" if "?e = None"
    using that assms(2) by (auto simp: mt76_tx_status_skb_get_def Let_def case_prod_beta split: if_splits)
  show "ts_inv dev' fr' A C (set_option r)"
  proof (cases ?e)
    case None
    then show ?thesis using none [OF None] scan drop_if_empty_inv by simp
  next
    case (Some s)
    then show ?thesis using some [OF Some] drop_if_empty_inv [OF take_out_inv [OF assms(1)]] by simp
  qed
  show "dv_log dev' = dv_log dev"
    using some none scan by (cases ?e) (auto simp: drop_if_empty_same take_out_effect)
  show "ids dev' v j \<in> {ids dev v j, None}"
    using some none scan by (cases ?e) (auto simp: drop_if_empty_same take_out_effect)
  show "v \<noteq> w \<Longrightarrow> v \<in> set (dv_wcid_list dev) \<longleftrightarrow> v \<in> set (dv_wcid_list dev')"
    using some none scan by (cases ?e) (auto simp: drop_if_empty_def take_out_effect)
  assume neg: "pktid < 0"
  then have "r = None" "dev' = drop_if_empty (fst ?s) w" using none by simp_all
  moreover have "ids (fst ?s) w i = None"
  proof (cases "i < 127")
    case True
    then show ?thesis using scan neg by (auto simp: MT_PACKET_ID_MASK_def)
  next
    case False
    then have "ids dev w i = None"
      using track_idr(2) [OF assms(1) [unfolded ts_inv_def], of w i] by (cases "ids dev w i") auto
    moreover have "ids (fst ?s) w i \<in> {ids dev w i, None}" using scan by blast
    ultimately show ?thesis by simp
  qed
  ultimately show "r = None \<and> ids dev' w i = None" by (simp add: drop_if_empty_same)
qed

lemma skb_get_small:
  assumes "ts_inv dev fr A C {}" "mt76_tx_status_skb_get dev w pktid fr = (r, dev', fr')" "pktid < 3"
  shows "r = None"
proof (cases "if pktid < 0 then None else wc_pktid (dv_wcid dev w) (nat pktid)")
  case None
  then show ?thesis
    using assms(2) by (auto simp: mt76_tx_status_skb_get_def Let_def case_prod_beta split: if_splits)
next
  case (Some s)
  then have "0 \<le> pktid" "ids dev w (nat pktid) = Some s" by (auto simp: ids_def split: if_splits)
  then show ?thesis
    using track_idr(1) [OF assms(1) [unfolded ts_inv_def]] assms(3) by fastforce
qed

lemma check_list_inv:
  assumes "ts_inv dev fr A C {}" "pktid < 3"
  shows "ts_inv (fst (check_list ws dev pktid fr)) (snd (check_list ws dev pktid fr)) A C {}
    \<and> dv_log (fst (check_list ws dev pktid fr)) = dv_log dev
    \<and> (\<forall>v j. ids (fst (check_list ws dev pktid fr)) v j \<in> {ids dev v j, None})
    \<and> (pktid < 0 \<longrightarrow> (\<forall>w \<in> set ws. \<forall>i. ids (fst (check_list ws dev pktid fr)) w i = None))"
  using assms(1)
proof (induction ws arbitrary: dev fr)
  case Nil
  then show ?case by simp
next
  case (Cons w ws)
  obtain r d f where g: "mt76_tx_status_skb_get dev w pktid fr = (r, d, f)"
    by (metis prod.collapse)
  have e: "check_list (w # ws) dev pktid fr = check_list ws d pktid f" by (simp add: g)
  note got = skb_get_inv [OF Cons.prems g]
  have "ts_inv d f A C {}" using got(1) skb_get_small [OF Cons.prems g assms(2)] by simp
  note IH = Cons.IH [OF this]
  have "ids (fst (check_list ws d pktid f)) w i = None" if "pktid < 0" for i
    using got(4) [OF that] IH by (metis insertE singletonD)
  moreover have "ids (fst (check_list ws d pktid f)) v j \<in> {ids dev v j, None}" for v j
    using got(3) [of v j] IH by (metis insertE insertI1 insertI2 singletonD)
  ultimately show ?case using IH got(2) unfolding e by auto
qed

lemma status_check_inv:
  assumes "ts_inv dev [] A C {}"
  shows "ts_inv (mt76_tx_status_check dev flush) [] A C {}"
    and "flush \<Longrightarrow> ids (mt76_tx_status_check dev flush) w i = None"
proof -
  let ?p = "if flush then -1 else 0 :: int"
  let ?r = "check_list (dv_wcid_list dev) dev ?p []"
  have run: "mt76_tx_status_check dev flush = mt76_tx_status_unlock (fst ?r) (snd ?r)"
    by (simp add: mt76_tx_status_check_def case_prod_beta)
  note c = check_list_inv [OF assms, of ?p "dv_wcid_list dev"]
  show "ts_inv (mt76_tx_status_check dev flush) [] A C {}"
    unfolding run by (rule unlock_inv) (use c in simp)
  assume f: "flush"
  have "ids (fst ?r) w i = None"
  proof (cases "w \<in> set (dv_wcid_list dev)")
    case True
    then show ?thesis using c f by simp
  next
    case False
    then have "ids dev w i = None"
      using track_idr(6) [OF assms [unfolded ts_inv_def], of w i] by (cases "ids dev w i") auto
    moreover have "ids (fst ?r) w i \<in> {ids dev w i, None}" using c f by simp
    ultimately show ?thesis by simp
  qed
  then show "ids (mt76_tx_status_check dev flush) w i = None"
    unfolding run using unlock_effect [of "fst ?r" "snd ?r"] by simp
qed

lemma add_txs_inv:
  assumes "ts_inv dev [] A C {}"
  shows "ts_inv (snd (mt76_connac2_mac_add_txs_skb dev w pid d)) [] A C {}"
proof (cases "TXS0_TXS_FORMAT (d ! 0) = 2")
  case True
  then show ?thesis using assms by (simp add: mt76_connac2_mac_add_txs_skb_def)
next
  case False
  obtain r e f where g: "mt76_tx_status_skb_get dev w pid [] = (r, e, f)" by (metis prod.collapse)
  note got = skb_get_inv(1) [OF assms g]
  show ?thesis
  proof (cases r)
    case None
    then show ?thesis
      using unlock_inv [of e f] got False g by (simp add: mt76_connac2_mac_add_txs_skb_def)
  next
    case (Some s)
    define e1 where "e1 = upd_skb s (\<lambda>k. if d ! 0 AND TXS0_ACK_ERROR_MASK = 0
                    then k\<lparr>sk_stat_ack := True\<rparr> else k) e"
    define e2 where "e2 = upd_skb s (\<lambda>k. k\<lparr>sk_ampdu_len := 1,
                    sk_ampdu_ack_len := if sk_stat_ack k then 1 else 0, sk_rate0_idx := -1\<rparr>) e1"
    define e3 where "e3 = upd_wcid w (\<lambda>k. k\<lparr>wc_txs :=
      snd (snd (mt76_connac2_mac_fill_txs (dv_txs e2) (wc_txs (dv_wcid e2 w)) d))\<rparr>) e2"
    have "same_track e1 e" "same_track e2 e1" "same_track e3 e2"
      unfolding e1_def e2_def e3_def by (auto intro!: same_track_upd_skb same_track_upd_wcid)
    then have "ts_inv e3 f A C {s}"
      using same_track_inv got Some by (metis option.set(2))
    note fin = skb_done_txs [OF this flag_bits(3,4)]
    have "snd (mt76_connac2_mac_add_txs_skb dev w pid d) =
      mt76_tx_status_unlock (fst (tx_status_skb_done e3 s MT_TX_CB_TXS_DONE f))
        (snd (tx_status_skb_done e3 s MT_TX_CB_TXS_DONE f))"
      using False g Some
      by (simp add: mt76_connac2_mac_add_txs_skb_def Let_def case_prod_beta e1_def e2_def e3_def
          mt76_tx_status_skb_done_def)
    then show ?thesis using unlock_inv [OF fin] by simp
  qed
qed

lemma check_non_aql_same: "same_track (mt76_tx_check_non_aql dev wcid s) dev"
  by (auto simp: mt76_tx_check_non_aql_def Let_def same_track_def[of dev dev]
      intro!: same_track_upd_wcid split: option.split)

lemma same_track_pid: "same_track d e \<Longrightarrow> unat (cb_pktid (sk_cb (dv_skb d s))) = pid_of e s"
  by (auto simp: same_track_def pid_of_def fun_eq_iff)

lemma complete_inv:
  assumes "ts_inv dev [] A C {}" "s \<in> A" "s \<notin> C"
  shows "ts_inv (mt76_tx_complete_skb dev idx s) [] A (insert s C) {}"
proof -
  define w where "w = mt76_wcid_ptr dev idx"
  define d where "d = mt76_tx_check_non_aql dev w s"
  have same: "same_track d dev" unfolding d_def by (rule check_non_aql_same)
  have inv: "ts_inv d [] A C {}" using same_track_inv [OF same] assms(1) by blast
  show ?thesis
  proof (cases "pid_of d s < 3")
    case True
    let ?h = "mt76_tx_status_get_hw d s"
    have h: "same_track (snd ?h) d" by (rule same_track_get_hw)
    have "tracked_inv (ids d) (pid_of d) (flags_of d) (set (dv_wcid_list d))
        (reports (dv_log d) @ [s]) A (insert s C) {}"
      using track_untracked [OF inv [unfolded ts_inv_def append_Nil2] assms(2,3) True] .
    then have "tracked_inv (ids (snd ?h)) (pid_of (snd ?h)) (flags_of (snd ?h))
        (set (dv_wcid_list (snd ?h))) (reports (dv_log (snd ?h)) @ [s]) A (insert s C) {}"
      using h unfolding same_track_def by simp
    then show ?thesis
      using True unfolding mt76_tx_complete_skb_def Let_def w_def [symmetric] d_def [symmetric]
      by (simp add: pid_of_def MT_PACKET_ID_FIRST_def case_prod_beta ts_inv_def ids_def [abs_def]
          pid_of_def [abs_def] flags_of_def [abs_def])
  next
    case False
    define e where "e = upd_cb s (\<lambda>cb. cb\<lparr>cb_jiffies := dv_jiffies d\<rparr>) d"
    have "same_track e d"
      by (auto simp: e_def upd_cb_def same_track_def ids_def pid_of_def flags_of_def)
    then have e: "ts_inv e [] A C {}" "3 \<le> pid_of e s"
      using same_track_inv [of e d "[]"] inv False unfolding same_track_def by simp_all
    note fin = skb_done_dma [OF e(1) assms(2,3) e(2)]
    have "mt76_tx_complete_skb dev idx s = mt76_tx_status_unlock
        (fst (tx_status_skb_done e s MT_TX_CB_DMA_DONE [])) (snd (tx_status_skb_done e s MT_TX_CB_DMA_DONE []))"
      using False unfolding mt76_tx_complete_skb_def Let_def w_def [symmetric] d_def [symmetric]
      by (simp add: pid_of_def MT_PACKET_ID_FIRST_def case_prod_beta e_def)
    then show ?thesis using unlock_inv [OF fin] by simp
  qed
qed

lemma skb_add_inv:
  assumes ok: "idr_ok alloc" and inv: "ts_inv dev [] A C {}" and new: "s \<notin> A"
  shows "ts_inv (snd (mt76_tx_status_skb_add alloc dev wcid s)) [] (insert s A) C {}"
proof -
  define d where "d = upd_cb s (\<lambda>_. \<lparr>cb_jiffies = 0, cb_wcid = 0, cb_pktid = 0, cb_flags = 0\<rparr>) dev"
  have dd: "ids d = ids dev" "pid_of d = (pid_of dev)(s := 0)" "flags_of d = (flags_of dev)(s := 0)"
    "dv_wcid_list d = dv_wcid_list dev" "dv_log d = dv_log dev"
    by (auto simp: d_def upd_cb_def ids_def pid_of_def flags_of_def fun_eq_iff)
  have base: "ts_inv d [] (insert s A) C {}"
    using track_add_untracked [OF inv [unfolded ts_inv_def] new, of 0] by (simp add: ts_inv_def dd)
  show ?thesis
  proof (cases "\<exists>w. wcid = Some w \<and> dv_table d (unat (wc_idx (dv_wcid d w))) \<noteq> None
      \<and> \<not> sk_no_ack (dv_skb d s) \<and> (sk_req_tx_status (dv_skb d s) \<or> sk_rate_ctrl_probe (dv_skb d s))
      \<and> alloc (wc_pktid (dv_wcid d w)) 3 127 \<noteq> None")
    case False
    then have "snd (mt76_tx_status_skb_add alloc dev wcid s) = d"
      unfolding mt76_tx_status_skb_add_def Let_def d_def [symmetric] pktid_defs
      by (auto split: option.split)
    then show ?thesis using base by simp
  next
    case True
    then obtain w pid where w: "wcid = Some w" "dv_table d (unat (wc_idx (dv_wcid d w))) \<noteq> None"
      "\<not> sk_no_ack (dv_skb d s)" "sk_req_tx_status (dv_skb d s) \<or> sk_rate_ctrl_probe (dv_skb d s)"
      and a: "alloc (wc_pktid (dv_wcid d w)) 3 127 = Some pid" by blast
    have p: "3 \<le> pid" "pid < 127" "wc_pktid (dv_wcid d w) pid = None"
      using ok a unfolding idr_ok_def by blast+
    have n: "ids dev w pid = None"
      using p(3) dd(1) by (metis ids_def)
    define e where "e = upd_cb s (\<lambda>cb. cb\<lparr>cb_wcid := wc_idx (dv_wcid d w), cb_pktid := word_of_nat pid\<rparr>)
      (upd_wcid w (\<lambda>c. c\<lparr>wc_pktid := (wc_pktid c)(pid \<mapsto> s)\<rparr>) d)"
    define r where "r = (if w \<in> set (dv_wcid_list e) then e
      else e\<lparr>dv_wcid_list := dv_wcid_list e @ [w]\<rparr>)"
    have run: "snd (mt76_tx_status_skb_add alloc dev wcid s) = r"
      unfolding mt76_tx_status_skb_add_def Let_def d_def [symmetric] pktid_defs
      using w a by (auto simp: e_def r_def)
    have "unat (word_of_nat pid :: u8) = pid" using p(2) by (simp add: unat_of_nat)
    then have "ids e = (ids dev)(w := (ids dev w)(pid \<mapsto> s))" "pid_of e = (pid_of dev)(s := pid)"
      "flags_of e = (flags_of dev)(s := 0)" "dv_wcid_list e = dv_wcid_list dev" "dv_log e = dv_log dev"
      using dd by (auto simp: e_def upd_cb_def ids_def pid_of_def flags_of_def fun_eq_iff)
    then have "ids r = (ids dev)(w := (ids dev w)(pid \<mapsto> s))" "pid_of r = (pid_of dev)(s := pid)"
      "flags_of r = (flags_of dev)(s := 0)" "set (dv_wcid_list r) = insert w (set (dv_wcid_list dev))"
      "dv_log r = dv_log dev"
      by (auto simp: r_def ids_def [abs_def] pid_of_def [abs_def] flags_of_def [abs_def])
    then show ?thesis
      using track_add_tracked [OF inv [unfolded ts_inv_def] new p(1,2) n] by (simp add: run ts_inv_def)
  qed
qed

lemma fold_free_same:
  "same_track (fold (\<lambda>s dev. log_ev (Free_skb s (fst (mt76_tx_status_get_hw dev s)))
      (snd (mt76_tx_status_get_hw dev s))) q dev) dev"
proof (induction q arbitrary: dev)
  case Nil
  then show ?case by (simp add: same_track_def)
next
  case (Cons s q)
  have "same_track (log_ev (Free_skb s hw) d) d" for hw d
    by (simp add: same_track_def ids_def [abs_def] pid_of_def [abs_def] flags_of_def [abs_def])
  then show ?case
    using Cons.IH same_track_get_hw [of dev s] by (simp del: log_ev_sel) (meson same_track_trans)
qed

lemma cleanup_inv:
  assumes "ts_inv dev [] A C {}"
  shows "ts_inv (mt76_wcid_cleanup dev w) [] A C {}"
proof -
  obtain r d f where g: "mt76_tx_status_skb_get dev w (-1) [] = (r, d, f)" by (metis prod.collapse)
  note got = skb_get_inv [OF assms g]
  have inv: "ts_inv (mt76_tx_status_unlock d f) [] A C {}"
    using unlock_inv got(1) got(4) by simp
  define u where "u = mt76_tx_status_unlock d f"
  have "wc_pktid (dv_wcid u w) = Map.empty"
    using got(4) unlock_effect [of d f] by (auto simp: u_def ids_def [abs_def] fun_eq_iff)
  then have a: "same_track (upd_wcid w (\<lambda>c. c\<lparr>wc_pktid := Map.empty\<rparr>) u) u"
    by (auto simp: same_track_def ids_def pid_of_def flags_of_def)
  have b: "same_track (upd_wcid w (\<lambda>c. c\<lparr>wc_pending := [], wc_offchannel := []\<rparr>) v) v" for v
    by (auto intro!: same_track_upd_wcid)
  have "same_track (mt76_wcid_cleanup dev w) u"
    unfolding mt76_wcid_cleanup_def Let_def g case_prod_beta fst_conv snd_conv u_def [symmetric]
    by (rule same_track_trans [OF fold_free_same same_track_trans [OF b
          same_track_trans [OF same_track_upd_phy a]]])
  then show ?thesis using same_track_inv inv unfolding u_def by blast
qed

section \<open>The system\<close>

text \<open>
  The operations in any order, with the histories. What the hardware owes is that a frame is
  given to the driver once before it completes, and completes at most once.
\<close>

record ts_sys =
  sy_dev :: tx_dev
  sy_added :: "nat set"
  sy_completed :: "nat set"

inductive ts_step :: "nat idr_alloc \<Rightarrow> ts_sys \<Rightarrow> ts_sys \<Rightarrow> bool" for alloc where
  ts_add: "s \<notin> sy_added y \<Longrightarrow> ts_step alloc y
    (y\<lparr>sy_dev := snd (mt76_tx_status_skb_add alloc (sy_dev y) wcid s), sy_added := insert s (sy_added y)\<rparr>)"
| ts_complete: "s \<in> sy_added y \<Longrightarrow> s \<notin> sy_completed y \<Longrightarrow> ts_step alloc y
    (y\<lparr>sy_dev := mt76_tx_complete_skb (sy_dev y) idx s, sy_completed := insert s (sy_completed y)\<rparr>)"
| ts_txs: "ts_step alloc y (y\<lparr>sy_dev := snd (mt76_connac2_mac_add_txs_skb (sy_dev y) w pid d)\<rparr>)"
| ts_check: "ts_step alloc y (y\<lparr>sy_dev := mt76_tx_status_check (sy_dev y) flush\<rparr>)"
| ts_cleanup: "ts_step alloc y (y\<lparr>sy_dev := mt76_wcid_cleanup (sy_dev y) w\<rparr>)"
| ts_unpublish: "ts_step alloc y (y\<lparr>sy_dev := mt76_sta_pre_rcu_remove (sy_dev y) w\<rparr>)"
| ts_publish: "ts_step alloc y
    (y\<lparr>sy_dev := (sy_dev y)\<lparr>dv_table := (dv_table (sy_dev y))(i \<mapsto> w)\<rparr>\<rparr>)"
| ts_time: "ts_step alloc y (y\<lparr>sy_dev := (sy_dev y)\<lparr>dv_jiffies := j\<rparr>\<rparr>)"

definition ts_run :: "nat idr_alloc \<Rightarrow> ts_sys \<Rightarrow> ts_sys \<Rightarrow> bool" where
  "ts_run alloc y z \<longleftrightarrow> idr_ok alloc \<and> ts_step alloc y z"

definition ts_init :: "ts_sys \<Rightarrow> bool" where
  "ts_init y \<longleftrightarrow> sy_added y = {} \<and> sy_completed y = {} \<and> dv_log (sy_dev y) = []
     \<and> (\<forall>w. wc_pktid (dv_wcid (sy_dev y) w) = Map.empty)"

definition ts_ok :: "ts_sys \<Rightarrow> bool" where
  "ts_ok y \<longleftrightarrow> ts_inv (sy_dev y) [] (sy_added y) (sy_completed y) {}"

lemma ts_init_ok: "ts_init y \<Longrightarrow> ts_ok y"
  unfolding ts_ok_def ts_inv_def ts_init_def by (rule tracked_invI) (auto simp: ids_def)

lemma ts_step_ok:
  assumes "idr_ok alloc" "ts_ok y" "ts_step alloc y z"
  shows "ts_ok z"
  using assms(3,1,2)
proof (induction rule: ts_step.induct)
  case (ts_unpublish y w)
  have "same_track (mt76_sta_pre_rcu_remove (sy_dev y) w) (sy_dev y)"
    by (simp add: mt76_sta_pre_rcu_remove_def same_track_def ids_def [abs_def] pid_of_def [abs_def]
        flags_of_def [abs_def])
  then show ?case using ts_unpublish same_track_inv by (simp add: ts_ok_def)
next
  case (ts_publish y i w)
  then show ?case
    by (simp add: ts_ok_def ts_inv_def ids_def [abs_def] pid_of_def [abs_def] flags_of_def [abs_def])
next
  case (ts_time y j)
  then show ?case
    by (simp add: ts_ok_def ts_inv_def ids_def [abs_def] pid_of_def [abs_def] flags_of_def [abs_def])
qed (auto simp: ts_ok_def intro: skb_add_inv complete_inv add_txs_inv status_check_inv(1) cleanup_inv)

interpretation tstat: state_machine ts_init "ts_run alloc" ts_ok for alloc
  by unfold_locales (auto simp: ts_run_def intro: ts_init_ok ts_step_ok)

section \<open>Concrete runs\<close>

text \<open>
  A device with one client, 5, published under index 1, and frames that ask for a status. Frame
  9 is sent to the client and gets a packet id; frame 8 has no client and gets none.
\<close>

definition demo_tx_skb :: tx_skb where
  "demo_tx_skb = \<lparr>sk_cb = \<lparr>cb_jiffies = 0, cb_wcid = 0, cb_pktid = 0, cb_flags = 0\<rparr>,
     sk_no_ack = False, sk_req_tx_status = True, sk_rate_ctrl_probe = False, sk_hw_encap = False,
     sk_is_data = True, sk_is_qos_present = True, sk_is_probe_req = False, sk_is_deauth = False,
     sk_is_bufferable = False, sk_tx_offchan = False, sk_dont_use_rate_mask = False,
     sk_time_est = False, sk_ps_response = False, sk_eosp = False, sk_more_data = False,
     sk_stat_ack = False, sk_rate0_idx = 0, sk_rate0_count = 0, sk_ampdu_len = 0,
     sk_ampdu_ack_len = 0, sk_hw_queue = 0, sk_queue_mapping = 2, sk_priority = 0, sk_seq_ctrl = 0\<rparr>"

definition demo_tx_wcid :: tx_wcid where
  "demo_tx_wcid = \<lparr>wc_idx = 1, wc_def = None, wc_ps = False, wc_tx_info = 0,
     wc_txs = demo_txs_wcid, wc_pktid = Map.empty, wc_non_aql = 0, wc_pending = [],
     wc_offchannel = []\<rparr>"

definition demo_hwq :: tx_hwq where
  "demo_hwq = \<lparr>hq_stopped = False, hq_blocked = False, hq_queued = 0, hq_ndesc = 256,
     hq_entry_wcid = (\<lambda>_. 0)\<rparr>"

definition demo_tx_dev :: tx_dev where
  "demo_tx_dev = \<lparr>dv_skb = (\<lambda>_. demo_tx_skb), dv_wcid = (\<lambda>_. demo_tx_wcid),
     dv_txq = (\<lambda>_. \<lparr>xq_sta = Some 5, xq_ac = 2, xq_tid = 0, xq_wcid = 1, xq_agg_ssn = 0,
        xq_send_bar = False, xq_aggr = False\<rparr>),
     dv_table = [1 \<mapsto> 5],
     dv_phy = (\<lambda>_. \<lparr>py_band_idx = 0, py_reset = False, py_offchannel = False, py_tx_list = [],
        py_q_tx = (\<lambda>_. demo_hwq), py_hw = 0\<rparr>),
     dv_phys = (\<lambda>n. n = 0), dv_wcid_list = [], dv_jiffies = 0, dv_hz = 1000,
     dv_txs = demo_txs_dev, dv_ignore_txs_failed = False, dv_hw_mgmt_txq = True, dv_log = []\<rparr>"

definition demo_sys :: ts_sys where
  "demo_sys = \<lparr>sy_dev = demo_tx_dev, sy_added = {}, sy_completed = {}\<rparr>"

definition demo_run :: "nat option \<Rightarrow> nat \<Rightarrow> ts_sys" where
  "demo_run wcid s = (let y = demo_sys\<lparr>sy_dev := snd (mt76_tx_status_skb_add idr_first demo_tx_dev wcid s),
       sy_added := {s}\<rparr>
     in y\<lparr>sy_dev := mt76_tx_complete_skb (sy_dev y) 1 s, sy_completed := {s}\<rparr>)"

lemma demo_run_reachable:
  "reachable ts_init (ts_run idr_first) (demo_run wcid s)"
proof -
  let ?y = "demo_sys\<lparr>sy_dev := snd (mt76_tx_status_skb_add idr_first demo_tx_dev wcid s), sy_added := {s}\<rparr>"
  have "ts_init demo_sys"
    by (simp add: ts_init_def demo_sys_def demo_tx_dev_def demo_tx_wcid_def)
  then have "reachable ts_init (ts_run idr_first) demo_sys" by (rule reach_init)
  moreover have "ts_run idr_first demo_sys ?y"
    using ts_add [of s demo_sys idr_first wcid] idr_first_ok by (simp add: demo_sys_def ts_run_def)
  ultimately have "reachable ts_init (ts_run idr_first) ?y" by (rule reach_step)
  moreover have "ts_run idr_first ?y (demo_run wcid s)"
    using ts_complete [of s ?y idr_first 1] idr_first_ok by (simp add: demo_sys_def demo_run_def Let_def ts_run_def)
  ultimately show ?thesis by (rule reach_step)
qed

text \<open>A frame is tracked when it has a packet id; its status has arrived when it was recorded.\<close>

definition txs_arrived :: "tx_dev \<Rightarrow> nat \<Rightarrow> bool" where
  "txs_arrived dev s \<longleftrightarrow> bit (flags_of dev s) 1"

text \<open>
  C12: However the operations interleave, a frame is reported to mac80211 at most once: exactly
  once when its DMA has completed and, if it is tracked, its status has arrived or timed out;
  not at all before.
\<close>

theorem status_reported_once:
  assumes "reachable ts_init (ts_run alloc) y"
    and "s \<in> sy_added y"
  shows "count_list (reports (dv_log (sy_dev y))) s =
    (if s \<in> sy_completed y \<and> (pid_of (sy_dev y) s < 3 \<or> txs_arrived (sy_dev y) s) then 1 else 0)"
proof -
  have "ts_ok y" using tstat.reachable_inv [OF assms(1)] .
  from track_facts(8) [OF this [unfolded ts_ok_def ts_inv_def append_Nil2] assms(2)]
  show ?thesis by (auto simp: txs_arrived_def)
qed

theorem status_reported_once_witness:
  "count_list (reports (dv_log (sy_dev (demo_run None 8)))) 8 = 1"
proof -
  have "8 \<in> sy_added (demo_run None 8)" "8 \<in> sy_completed (demo_run None 8)"
    by (simp_all add: demo_run_def Let_def)
  moreover have "pid_of (sy_dev (demo_run None 8)) 8 < 3"
    by (simp add: demo_run_def Let_def demo_sys_def mt76_tx_status_skb_add_def upd_cb_def pid_of_def
        mt76_tx_complete_skb_def mt76_tx_check_non_aql_def mt76_wcid_ptr_def MT76_N_WCIDS_def
        demo_tx_dev_def pktid_defs mt76_tx_status_get_hw_def upd_skb_def upd_wcid_def log_ev_def
        demo_tx_skb_def)
  ultimately show ?thesis
    using status_reported_once [OF demo_run_reachable, of 8 None 8] by simp
qed

text \<open>
  A flush loses nothing: after \<open>mt76_tx_status_check\<close> with the flush flag, every frame
  whose DMA has completed has been reported exactly once, and no packet id is left in use.
\<close>

theorem flush_reports_all:
  assumes "reachable ts_init (ts_run alloc) y"
    and "s \<in> sy_completed y" and "dev = mt76_tx_status_check (sy_dev y) True"
  shows "count_list (reports (dv_log dev)) s = 1 \<and> wc_pktid (dv_wcid dev w) i = None"
proof -
  have "ts_ok y" using tstat.reachable_inv [OF assms(1)] .
  then have inv: "ts_inv dev [] (sy_added y) (sy_completed y) {}"
    and none: "\<And>w i. ids dev w i = None"
    using status_check_inv [of "sy_dev y"] by (simp_all add: ts_ok_def assms(3))
  note f = track_facts [OF inv [unfolded ts_inv_def append_Nil2]]
  have "s \<in> sy_added y" using f(1) assms(2) by blast
  moreover have "\<not> in_idr (ids dev) s" using none by (simp add: in_idr_def)
  ultimately have "count_list (reports (dv_log dev)) s = 1"
    using f(5) [of s] f(8) [of s] assms(2) by auto
  then show ?thesis using none [of w i] by (simp add: ids_def)
qed

theorem flush_reports_all_witness:
  "count_list (reports (dv_log (mt76_tx_status_check (sy_dev (demo_run (Some 5) 9)) True))) 9 = 1"
proof -
  have "9 \<in> sy_completed (demo_run (Some 5) 9)" by (simp add: demo_run_def Let_def)
  then show ?thesis using flush_reports_all [OF demo_run_reachable _ refl, of 9 "Some 5" 9] by simp
qed

end
