(* ===== verification/TxSched.thy ===== *)
theory TxSched
  imports TxStatus
begin

text \<open>
  Queueing and scheduling of frames, the second half of src/src/mt76/tx.c: frames handed over by
  mac80211 wait in per-client lists; the worker moves them, and those of mac80211's own queues,
  to the hardware queues; in power save, frames are released one service period at a time. The
  code it calls through pointers (mac80211 and the bus layer's \<open>queue_ops\<close>) is the parameter
  \<open>tx_env\<close>, whose own state of type \<open>'e\<close> is threaded through. \<open>env_ok\<close> names what the scheduler
  relies on. Loops that end only because a foreign queue runs empty carry fuel, and are \<open>None\<close>
  when it is used up.
\<close>

section \<open>The environment\<close>

record 'e tx_env =
  te_dequeue :: "nat \<Rightarrow> 'e \<Rightarrow> nat option \<times> 'e"
  te_next_txq :: "nat \<Rightarrow> nat \<Rightarrow> 'e \<Rightarrow> nat option \<times> 'e"
  te_schedule_start :: "nat \<Rightarrow> nat \<Rightarrow> 'e \<Rightarrow> 'e"
  te_submit :: "tx_dev \<Rightarrow> nat \<Rightarrow> nat \<Rightarrow> nat \<Rightarrow> nat \<Rightarrow> nat option \<Rightarrow> 'e \<Rightarrow> int \<times> tx_dev \<times> 'e"
  te_cleanup :: "(tx_dev \<Rightarrow> nat \<Rightarrow> nat \<Rightarrow> tx_dev) option"

definition MT_TXQ_BE :: nat where "MT_TXQ_BE = 2"
definition MT_TXQ_BK :: nat where "MT_TXQ_BK = 3"
definition MT_TXQ_PSD :: nat where "MT_TXQ_PSD = 4"
definition MT_MAX_NON_AQL_PKT :: int where "MT_MAX_NON_AQL_PKT = 16"
definition MT_TXQ_FREE_THR :: int where "MT_TXQ_FREE_THR = 32"

lemmas txq_consts = MT_TXQ_BE_def MT_TXQ_BK_def MT_TXQ_PSD_def MT_MAX_NON_AQL_PKT_def MT_TXQ_FREE_THR_def

definition hwq :: "tx_dev \<Rightarrow> nat \<Rightarrow> nat \<Rightarrow> tx_hwq" where
  "hwq dev phy qid = py_q_tx (dv_phy dev phy) qid"

definition upd_hwq :: "nat \<Rightarrow> nat \<Rightarrow> (tx_hwq \<Rightarrow> tx_hwq) \<Rightarrow> tx_dev \<Rightarrow> tx_dev" where
  "upd_hwq phy qid f = upd_phy phy (\<lambda>p. p\<lparr>py_q_tx := (py_q_tx p)(qid := f (py_q_tx p qid))\<rparr>)"

definition mt76_txq_get_qid :: "tx_txq \<Rightarrow> nat" where
  "mt76_txq_get_qid txq = (case xq_sta txq of None \<Rightarrow> MT_TXQ_BE | Some sta \<Rightarrow> xq_ac txq)"

definition mt76_txq_stopped :: "tx_hwq \<Rightarrow> bool" where
  "mt76_txq_stopped q \<longleftrightarrow> hq_stopped q \<or> hq_blocked q \<or> hq_queued q + MT_TXQ_FREE_THR \<ge> hq_ndesc q"

section \<open>Handing one frame to a hardware queue\<close>

text \<open>\<open>sta\<close> is the address of the client in the station; the result holds \<open>*stop\<close>.\<close>

definition tx_queue_skb ::
  "'e tx_env \<Rightarrow> nat \<Rightarrow> nat \<Rightarrow> nat \<Rightarrow> nat \<Rightarrow> nat option \<Rightarrow> tx_dev \<Rightarrow> 'e \<Rightarrow> int \<times> bool \<times> tx_dev \<times> 'e" where
  "tx_queue_skb env phy qid s wcid sta dev e =
     (let non_aql = \<not> sk_time_est (dv_skb dev s);
          dev = log_ev (Submitted phy qid s (dv_skb dev s)) dev;
          (idx, dev, e) = te_submit env dev phy qid s wcid sta e
      in if idx < 0 then (idx, False, dev, e)
         else case sta of
           None \<Rightarrow> (idx, False, dev, e)
         | Some w \<Rightarrow>
             if \<not> tc_sta (wc_txs (dv_wcid dev w)) then (idx, False, dev, e)
             else let dev = upd_hwq phy qid (\<lambda>q. q\<lparr>hq_entry_wcid :=
                        (hq_entry_wcid q)(idx := wc_idx (dv_wcid dev w))\<rparr>) dev
               in if \<not> non_aql then (idx, False, dev, e)
                  else let pending = wc_non_aql (dv_wcid dev w) + 1;
                           dev = upd_wcid w (\<lambda>c. c\<lparr>wc_non_aql := pending\<rparr>) dev
                       in (idx, pending \<ge> MT_MAX_NON_AQL_PKT, dev, e))"

definition MT_WCID_TX_INFO_SET :: u32 where "MT_WCID_TX_INFO_SET = BIT 31"

definition get_rates_unless_set :: "nat \<Rightarrow> nat \<Rightarrow> tx_dev \<Rightarrow> tx_dev" where
  "get_rates_unless_set w s dev =
     (if wc_tx_info (dv_wcid dev w) AND MT_WCID_TX_INFO_SET = 0 then log_ev (Get_rates s) dev else dev)"

definition set_hw_queue_phy :: "nat \<Rightarrow> nat \<Rightarrow> tx_dev \<Rightarrow> tx_dev" where
  "set_hw_queue_phy phy s dev = upd_skb s (\<lambda>k. k\<lparr>sk_hw_queue :=
     sk_hw_queue k OR FIELD_PREP 3 2 (word_of_nat (py_band_idx (dv_phy dev phy)))\<rparr>) dev"

section \<open>Frames from mac80211 without a queue of its own\<close>

datatype tx_head = Head_pending | Head_offchannel

definition head_frames :: "tx_dev \<Rightarrow> nat \<Rightarrow> tx_head \<Rightarrow> nat list" where
  "head_frames dev w h =
     (case h of Head_pending \<Rightarrow> wc_pending (dv_wcid dev w) | Head_offchannel \<Rightarrow> wc_offchannel (dv_wcid dev w))"

definition upd_head :: "nat \<Rightarrow> tx_head \<Rightarrow> (nat list \<Rightarrow> nat list) \<Rightarrow> tx_dev \<Rightarrow> tx_dev" where
  "upd_head w h f = upd_wcid w (\<lambda>c. case h of
     Head_pending \<Rightarrow> c\<lparr>wc_pending := f (wc_pending c)\<rparr>
   | Head_offchannel \<Rightarrow> c\<lparr>wc_offchannel := f (wc_offchannel c)\<rparr>)"

definition mt76_tx :: "nat \<Rightarrow> nat \<Rightarrow> nat \<Rightarrow> tx_dev \<Rightarrow> tx_dev" where
  "mt76_tx phy w s dev =
     (let dev = (if sk_queue_mapping (dv_skb dev s) \<ge> MT_TXQ_PSD
                 then upd_skb s (\<lambda>k. k\<lparr>sk_queue_mapping := MT_TXQ_BE\<rparr>) dev else dev);
          dev = get_rates_unless_set w s dev;
          dev = set_hw_queue_phy phy s dev;
          k = dv_skb dev s;
          h = (if sk_tx_offchan k \<or> (sk_dont_use_rate_mask k \<and> sk_is_probe_req k)
               then Head_offchannel else Head_pending);
          dev = upd_head w h (\<lambda>q. q @ [s]) dev;
          dev = (if w \<in> set (py_tx_list (dv_phy dev phy)) then dev
                 else upd_phy phy (\<lambda>p. p\<lparr>py_tx_list := py_tx_list p @ [w]\<rparr>) dev)
      in log_ev Worker_schedule dev)"

text \<open>
  The loop over one list. It holds the list's lock except while it submits, and only it removes
  frames; frames appended meanwhile come with their own entry in the radio's list.
\<close>

definition pending_qid :: "tx_dev \<Rightarrow> tx_head \<Rightarrow> nat \<Rightarrow> nat" where
  "pending_qid dev h s =
     (let k = dv_skb dev s in
      if dv_hw_mgmt_txq dev \<and> \<not> sk_hw_encap k \<and> \<not> sk_is_data k
         \<and> (\<not> sk_is_bufferable k \<or> sk_is_deauth k \<or> h = Head_offchannel)
      then MT_TXQ_PSD else sk_queue_mapping k)"

fun pending_loop ::
  "'e tx_env \<Rightarrow> nat \<Rightarrow> nat \<Rightarrow> tx_head \<Rightarrow> nat list \<Rightarrow> tx_dev \<Rightarrow> 'e \<Rightarrow> int \<times> tx_dev \<times> 'e" where
  "pending_loop env phy w h [] dev e = (0, dev, e)"
| "pending_loop env phy w h (s # ss) dev e =
     (let qid = pending_qid dev h s in
      if mt76_txq_stopped (hwq dev phy qid) \<or> py_reset (dv_phy dev phy) then (-1, dev, e)
      else let dev = upd_head w h tl dev;
               sta = wcid_to_sta dev (Some w);
               (_, _, dev, e) = tx_queue_skb env phy qid s w sta dev e
           in pending_loop env phy w h ss (log_ev (Kick phy qid) dev) e)"

definition mt76_txq_schedule_pending_wcid ::
  "'e tx_env \<Rightarrow> nat \<Rightarrow> nat \<Rightarrow> tx_head \<Rightarrow> tx_dev \<Rightarrow> 'e \<Rightarrow> int \<times> tx_dev \<times> 'e" where
  "mt76_txq_schedule_pending_wcid env phy w h dev e =
     pending_loop env phy w h (head_frames dev w h) dev e"

fun schedule_pending_loop :: "'e tx_env \<Rightarrow> nat \<Rightarrow> nat list \<Rightarrow> int \<Rightarrow> tx_dev \<Rightarrow> 'e \<Rightarrow> tx_dev \<times> 'e" where
  "schedule_pending_loop env phy [] ret dev e = (dev, e)"
| "schedule_pending_loop env phy (w # ws) ret dev e =
     (let (ret, dev, e) = (if ret \<ge> 0 then mt76_txq_schedule_pending_wcid env phy w Head_offchannel dev e
                           else (ret, dev, e));
          (ret, dev, e) = (if ret \<ge> 0 \<and> \<not> py_offchannel (dv_phy dev phy)
                           then mt76_txq_schedule_pending_wcid env phy w Head_pending dev e
                           else (ret, dev, e));
          dev = (if wc_pending (dv_wcid dev w) \<noteq> [] \<and> wc_offchannel (dv_wcid dev w) \<noteq> []
                    \<and> w \<notin> set (py_tx_list (dv_phy dev phy)) \<union> set ws
                 then upd_phy phy (\<lambda>p. p\<lparr>py_tx_list := py_tx_list p @ [w]\<rparr>) dev else dev)
      in schedule_pending_loop env phy ws ret dev e)"

definition mt76_txq_schedule_pending :: "'e tx_env \<Rightarrow> nat \<Rightarrow> tx_dev \<Rightarrow> 'e \<Rightarrow> tx_dev \<times> 'e" where
  "mt76_txq_schedule_pending env phy dev e =
     (let ws = py_tx_list (dv_phy dev phy) in
      if ws = [] then (dev, e)
      else schedule_pending_loop env phy ws 0 (upd_phy phy (\<lambda>p. p\<lparr>py_tx_list := []\<rparr>) dev) e)"

section \<open>Frames from the queues of mac80211\<close>

definition mt76_txq_dequeue :: "'e tx_env \<Rightarrow> nat \<Rightarrow> nat \<Rightarrow> tx_dev \<Rightarrow> 'e \<Rightarrow> nat option \<times> tx_dev \<times> 'e" where
  "mt76_txq_dequeue env phy x dev e =
     (case te_dequeue env x e of
        (None, e) \<Rightarrow> (None, dev, e)
      | (Some s, e) \<Rightarrow> (Some s, set_hw_queue_phy phy s dev, e))"

fun burst_loop :: "nat \<Rightarrow> 'e tx_env \<Rightarrow> nat \<Rightarrow> nat \<Rightarrow> nat \<Rightarrow> nat \<Rightarrow> bool \<Rightarrow> int \<Rightarrow> tx_dev \<Rightarrow> 'e
    \<Rightarrow> (int \<times> tx_dev \<times> 'e) option" where
  "burst_loop 0 env phy qid x w stop n dev e = None"
| "burst_loop (Suc fuel) env phy qid x w stop n dev e =
     (if py_reset (dv_phy dev phy) \<or> py_offchannel (dv_phy dev phy) then Some (n, dev, e)
      else if stop \<or> mt76_txq_stopped (hwq dev phy qid) then Some (n, dev, e)
      else case mt76_txq_dequeue env phy x dev e of
          (None, dev, e) \<Rightarrow> Some (n, dev, e)
        | (Some s, dev, e) \<Rightarrow>
            let dev = get_rates_unless_set w s dev;
                (idx, stop, dev, e) = tx_queue_skb env phy qid s w (xq_sta (dv_txq dev x)) dev e
            in if idx < 0 then Some (n, dev, e)
               else burst_loop fuel env phy qid x w stop (n + 1) dev e)"

definition mt76_txq_send_burst :: "nat \<Rightarrow> 'e tx_env \<Rightarrow> nat \<Rightarrow> nat \<Rightarrow> nat \<Rightarrow> tx_dev \<Rightarrow> 'e
    \<Rightarrow> (int \<times> tx_dev \<times> 'e) option" where
  "mt76_txq_send_burst fuel env phy x w dev e =
     (let qid = mt76_txq_get_qid (dv_txq dev x) in
      if wc_ps (dv_wcid dev w) then Some (0, dev, e)
      else if wc_non_aql (dv_wcid dev w) \<ge> MT_MAX_NON_AQL_PKT then Some (0, dev, e)
      else case mt76_txq_dequeue env phy x dev e of
          (None, dev, e) \<Rightarrow> Some (0, dev, e)
        | (Some s, dev, e) \<Rightarrow>
            let dev = get_rates_unless_set w s dev;
                (idx, stop, dev, e) = tx_queue_skb env phy qid s w (xq_sta (dv_txq dev x)) dev e
            in if idx < 0 then Some (idx, dev, e)
               else (case burst_loop fuel env phy qid x w stop 1 dev e of
                   None \<Rightarrow> None
                 | Some (n, dev, e) \<Rightarrow> Some (n, log_ev (Kick phy qid) dev, e)))"

text \<open>
  One round over the queues of an access category. The C variable \<open>phy\<close> is overwritten with the
  radio of each client, and the next queue is asked of that radio's \<open>hw\<close>.
\<close>

fun schedule_list :: "nat \<Rightarrow> 'e tx_env \<Rightarrow> nat \<Rightarrow> nat \<Rightarrow> int \<Rightarrow> tx_dev \<Rightarrow> 'e \<Rightarrow> (int \<times> tx_dev \<times> 'e) option" where
  "schedule_list 0 env phy qid ret dev e = None"
| "schedule_list (Suc fuel) env phy qid ret dev e =
     (case te_next_txq env (py_hw (dv_phy dev phy)) qid e of
        (None, e) \<Rightarrow> Some (ret, dev, e)
      | (Some x, e) \<Rightarrow>
          (case mt76_wcid_ptr dev (xq_wcid (dv_txq dev x)) of
             None \<Rightarrow> schedule_list fuel env phy qid ret dev e
           | Some w \<Rightarrow>
               if wc_ps (dv_wcid dev w) then schedule_list fuel env phy qid ret dev e
               else let phy = mt76_dev_phy dev (tc_phy_idx (wc_txs (dv_wcid dev w))) in
                 if py_reset (dv_phy dev phy) \<or> py_offchannel (dv_phy dev phy)
                 then schedule_list fuel env phy qid ret dev e
                 else
                   let q = hwq dev phy qid;
                       dev = (case te_cleanup env of
                           Some clean \<Rightarrow> if hq_queued q + 2 * MT_TXQ_FREE_THR \<ge> hq_ndesc q
                                         then log_ev (Tx_cleanup phy qid) (clean dev phy qid) else dev
                         | None \<Rightarrow> dev);
                       t = dv_txq dev x;
                       dev = (if xq_send_bar t \<and> xq_aggr t
                              then log_ev (Send_bar x (xq_agg_ssn t))
                                     (upd_txq x (\<lambda>t. t\<lparr>xq_send_bar := False\<rparr>) dev)
                              else dev)
                   in case (if \<not> mt76_txq_stopped (hwq dev phy qid)
                            then mt76_txq_send_burst fuel env phy x w dev e else Some (0, dev, e)) of
                        None \<Rightarrow> None
                      | Some (n, dev, e) \<Rightarrow>
                          if n < 0 then Some (n, dev, e)
                          else schedule_list fuel env phy qid (ret + n) dev e))"

fun schedule_rounds :: "nat \<Rightarrow> 'e tx_env \<Rightarrow> nat \<Rightarrow> nat \<Rightarrow> tx_dev \<Rightarrow> 'e \<Rightarrow> (tx_dev \<times> 'e) option" where
  "schedule_rounds 0 env phy qid dev e = None"
| "schedule_rounds (Suc fuel) env phy qid dev e =
     (case schedule_list fuel env phy qid 0 dev (te_schedule_start env (py_hw (dv_phy dev phy)) qid e) of
        None \<Rightarrow> None
      | Some (len, dev, e) \<Rightarrow>
          if len > 0 then schedule_rounds fuel env phy qid dev e else Some (dev, e))"

definition mt76_txq_schedule :: "nat \<Rightarrow> 'e tx_env \<Rightarrow> nat \<Rightarrow> nat \<Rightarrow> tx_dev \<Rightarrow> 'e \<Rightarrow> (tx_dev \<times> 'e) option" where
  "mt76_txq_schedule fuel env phy qid dev e =
     (if qid \<ge> 4 then Some (dev, e) else schedule_rounds fuel env phy qid dev e)"

fun schedule_qids :: "nat \<Rightarrow> 'e tx_env \<Rightarrow> nat \<Rightarrow> nat list \<Rightarrow> tx_dev \<Rightarrow> 'e \<Rightarrow> (tx_dev \<times> 'e) option" where
  "schedule_qids fuel env phy [] dev e = Some (dev, e)"
| "schedule_qids fuel env phy (i # is) dev e =
     (case mt76_txq_schedule fuel env phy i dev e of
        None \<Rightarrow> None | Some (dev, e) \<Rightarrow> schedule_qids fuel env phy is dev e)"

definition mt76_txq_schedule_all :: "nat \<Rightarrow> 'e tx_env \<Rightarrow> nat \<Rightarrow> tx_dev \<Rightarrow> 'e \<Rightarrow> (tx_dev \<times> 'e) option" where
  "mt76_txq_schedule_all fuel env phy dev e =
     (let (dev, e) = mt76_txq_schedule_pending env phy dev e in
      if phy \<noteq> 0 \<and> py_hw (dv_phy dev phy) = py_hw (dv_phy dev 0) then Some (dev, e)
      else schedule_qids fuel env phy [0..<MT_TXQ_BK + 1] dev e)"

fun worker_phys :: "nat \<Rightarrow> 'e tx_env \<Rightarrow> nat list \<Rightarrow> tx_dev \<Rightarrow> 'e \<Rightarrow> (tx_dev \<times> 'e) option" where
  "worker_phys fuel env [] dev e = Some (dev, e)"
| "worker_phys fuel env (i # is) dev e =
     (if \<not> dv_phys dev i then worker_phys fuel env is dev e
      else case mt76_txq_schedule_all fuel env i dev e of
          None \<Rightarrow> None | Some (dev, e) \<Rightarrow> worker_phys fuel env is dev e)"

text \<open>The main radio, number 0, then the three entries of \<open>dev->phys\<close>.\<close>

definition mt76_tx_worker_run :: "nat \<Rightarrow> 'e tx_env \<Rightarrow> tx_dev \<Rightarrow> 'e \<Rightarrow> (tx_dev \<times> 'e) option" where
  "mt76_tx_worker_run fuel env dev e =
     (case mt76_txq_schedule_all fuel env 0 dev e of
        None \<Rightarrow> None | Some (dev, e) \<Rightarrow> worker_phys fuel env [0, 1, 2] dev e)"

section \<open>Power save and aggregation\<close>

definition mt76_queue_ps_skb ::
  "'e tx_env \<Rightarrow> nat \<Rightarrow> nat \<Rightarrow> nat \<Rightarrow> bool \<Rightarrow> tx_dev \<Rightarrow> 'e \<Rightarrow> tx_dev \<times> 'e" where
  "mt76_queue_ps_skb env phy sta s lst dev e =
     (let dev = upd_skb s (\<lambda>k. k\<lparr>sk_ps_response := True\<rparr>) dev;
          dev = (if lst then upd_skb s (\<lambda>k. k\<lparr>sk_eosp := True, sk_req_tx_status := True\<rparr>) dev else dev);
          dev = upd_skb s (\<lambda>k. k\<lparr>sk_more_data := \<not> lst\<rparr>) dev;
          (_, _, dev, e) = tx_queue_skb env phy MT_TXQ_PSD s sta (Some sta) dev e
      in (dev, e))"

text \<open>
  The frames of one queue: the inner \<open>do ... while (nframes)\<close>. mac80211 asks for a positive
  number of frames, so the counter is a natural number.
\<close>

fun release_txq :: "'e tx_env \<Rightarrow> nat \<Rightarrow> nat \<Rightarrow> nat \<Rightarrow> nat \<Rightarrow> nat option \<Rightarrow> tx_dev \<Rightarrow> 'e
    \<Rightarrow> nat \<times> nat option \<times> tx_dev \<times> 'e" where
  "release_txq env phy sta x 0 last_skb dev e = (0, last_skb, dev, e)"
| "release_txq env phy sta x (Suc n) last_skb dev e =
     (case mt76_txq_dequeue env phy x dev e of
        (None, dev, e) \<Rightarrow> (Suc n, last_skb, dev, e)
      | (Some s, dev, e) \<Rightarrow>
          let (dev, e) = (case last_skb of
                None \<Rightarrow> (dev, e)
              | Some l \<Rightarrow> mt76_queue_ps_skb env phy sta l False dev e)
          in release_txq env phy sta x n (Some s) dev e)"

text \<open>The loop over the TIDs: bit \<open>i\<close> of \<open>tids\<close> stands for the station's queue \<open>i\<close>.\<close>

fun release_tids :: "'e tx_env \<Rightarrow> nat \<Rightarrow> nat \<Rightarrow> (nat \<Rightarrow> nat) \<Rightarrow> nat list \<Rightarrow> u16 \<Rightarrow> nat \<Rightarrow> nat option \<Rightarrow> tx_dev \<Rightarrow> 'e
    \<Rightarrow> nat option \<times> tx_dev \<times> 'e" where
  "release_tids env phy sta txqs [] tids n last_skb dev e = (last_skb, dev, e)"
| "release_tids env phy sta txqs (i # is) tids n last_skb dev e =
     (if \<not> (tids \<noteq> 0 \<and> n \<noteq> 0) then (last_skb, dev, e)
      else if tids AND 1 = 0 then release_tids env phy sta txqs is (drop_bit 1 tids) n last_skb dev e
      else let (n, last_skb, dev, e) = release_txq env phy sta (txqs i) n last_skb dev e
           in release_tids env phy sta txqs is (drop_bit 1 tids) n last_skb dev e)"

definition mt76_release_buffered_frames ::
  "'e tx_env \<Rightarrow> nat \<Rightarrow> nat \<Rightarrow> (nat \<Rightarrow> nat) \<Rightarrow> u16 \<Rightarrow> nat \<Rightarrow> tx_dev \<Rightarrow> 'e \<Rightarrow> tx_dev \<times> 'e" where
  "mt76_release_buffered_frames env phy sta txqs tids nframes dev e =
     (let (last_skb, dev, e) = release_tids env phy sta txqs [0..<16] tids nframes None dev e
      in case last_skb of
           Some l \<Rightarrow> let (dev, e) = mt76_queue_ps_skb env phy sta l True dev e
                     in (log_ev (Kick phy MT_TXQ_PSD) dev, e)
         | None \<Rightarrow> (log_ev (Sta_eosp sta) dev, e))"

definition mt76_tx_check_agg_ssn :: "nat option \<Rightarrow> (nat \<Rightarrow> nat) \<Rightarrow> nat \<Rightarrow> tx_dev \<Rightarrow> tx_dev" where
  "mt76_tx_check_agg_ssn sta txqs s dev =
     (let k = dv_skb dev s in
      if sta = None \<or> \<not> sk_is_qos_present k then dev
      else let x = txqs (unat (sk_priority k AND 7))
           in if \<not> xq_aggr (dv_txq dev x) then dev
              else upd_txq x (\<lambda>t. t\<lparr>xq_agg_ssn := sk_seq_ctrl k + 0x10\<rparr>) dev)"

definition mt76_stop_tx_queues :: "nat option list \<Rightarrow> bool \<Rightarrow> tx_dev \<Rightarrow> tx_dev" where
  "mt76_stop_tx_queues txqs send_bar dev =
     fold (\<lambda>txq dev. case txq of
         None \<Rightarrow> dev
       | Some x \<Rightarrow> upd_txq x (\<lambda>t. t\<lparr>xq_send_bar := xq_aggr t \<and> send_bar\<rparr>) dev) txqs dev"

definition mt76_wake_tx_queue :: "tx_dev \<Rightarrow> tx_dev" where
  "mt76_wake_tx_queue dev = log_ev Worker_schedule dev"

text \<open>The four access categories in the order of \<open>wmm_queue_map\<close>: VO, VI, BE, BK are 0 to 3.\<close>

definition mt76_ac_to_hwq :: "u8 \<Rightarrow> u8" where
  "mt76_ac_to_hwq ac = (if ac \<ge> 4 then 0 else [3, 2, 0, 1] ! unat ac)"

text \<open>
  Padding a frame: its linear length, the length of its fragments, and the lengths of the frames
  of its fragment list; \<open>padded\<close> is whether \<open>skb_pad\<close> found room.
\<close>

record pad_skb =
  pk_len :: int
  pk_data_len :: int
  pk_frags :: "int list"

definition mt76_skb_adjust_pad :: "bool \<Rightarrow> pad_skb \<Rightarrow> int \<Rightarrow> unit res \<times> pad_skb" where
  "mt76_skb_adjust_pad padded k pad =
     (let k1 = (if pk_frags k \<noteq> [] then k\<lparr>pk_data_len := pk_data_len k + pad, pk_len := pk_len k + pad\<rparr> else k)
      in if \<not> padded then (Inl ENOMEM, k1)
         else (Inr (), if pk_frags k = [] then k1\<lparr>pk_len := pk_len k1 + pad\<rparr>
               else k1\<lparr>pk_frags := butlast (pk_frags k) @ [last (pk_frags k) + pad]\<rparr>))"

section \<open>What the scheduler relies on\<close>

fun submitted :: "tx_event list \<Rightarrow> (nat \<times> tx_skb) list" where
  "submitted [] = []"
| "submitted (Submitted phy qid s k # es) = (s, k) # submitted es"
| "submitted (e # es) = submitted es"

lemma submitted_append [simp]: "submitted (xs @ ys) = submitted xs @ submitted ys"
  by (induction xs rule: submitted.induct) simp_all

abbreviation sent :: "tx_dev \<Rightarrow> (nat \<times> tx_skb) list" where
  "sent dev \<equiv> submitted (dv_log dev)"

text \<open>
  Two devices with the same software queues, lists and counters: a bus layer that is handed a
  frame changes only its own hardware queue, the frame, and the status records of frames.
\<close>

definition sched_same :: "tx_dev \<Rightarrow> tx_dev \<Rightarrow> bool" where
  "sched_same d e \<longleftrightarrow> sent d = sent e \<and> dv_txq d = dv_txq e \<and> dv_table d = dv_table e
     \<and> (\<forall>w. wc_pending (dv_wcid d w) = wc_pending (dv_wcid e w)
          \<and> wc_offchannel (dv_wcid d w) = wc_offchannel (dv_wcid e w)
          \<and> wc_non_aql (dv_wcid d w) = wc_non_aql (dv_wcid e w)
          \<and> tc_sta (wc_txs (dv_wcid d w)) = tc_sta (wc_txs (dv_wcid e w)))
     \<and> (\<forall>p. py_tx_list (dv_phy d p) = py_tx_list (dv_phy e p)
          \<and> py_offchannel (dv_phy d p) = py_offchannel (dv_phy e p))"

definition env_ok :: "'e tx_env \<Rightarrow> bool" where
  "env_ok env \<longleftrightarrow> (\<forall>dev phy qid s w sta e.
     sched_same (fst (snd (te_submit env dev phy qid s w sta e))) dev)"

text \<open>mac80211's queues are finite: \<open>left\<close> bounds what can still be dequeued.\<close>

definition queues_finite :: "'e tx_env \<Rightarrow> ('e \<Rightarrow> nat) \<Rightarrow> bool" where
  "queues_finite env left \<longleftrightarrow>
     (\<forall>x e. fst (te_dequeue env x e) \<noteq> None \<longrightarrow> left (snd (te_dequeue env x e)) < left e)
     \<and> (\<forall>dev phy qid s w sta e. left (snd (snd (te_submit env dev phy qid s w sta e))) \<le> left e)"

lemma sched_same_trans: "sched_same d e \<Longrightarrow> sched_same e f \<Longrightarrow> sched_same d f"
  by (simp add: sched_same_def)

lemma sched_same_refl [simp]: "sched_same d d"
  by (simp add: sched_same_def)

lemma sched_same_upd:
  "sched_same (upd_skb s f d) d"
  "sched_same (upd_hwq phy qid g d) d"
  "submitted [ev] = [] \<Longrightarrow> sched_same (log_ev ev d) d"
  by (simp_all add: sched_same_def upd_hwq_def)

lemma sched_same_dequeue: "sched_same (fst (snd (mt76_txq_dequeue env phy x dev e))) dev"
  by (auto simp: mt76_txq_dequeue_def set_hw_queue_phy_def sched_same_upd split: prod.split option.split)

lemma sched_same_get_rates: "sched_same (get_rates_unless_set w s dev) dev"
  by (simp add: get_rates_unless_set_def sched_same_upd)

text \<open>One frame handed over: what it adds to the log, and the client's counter.\<close>

lemma tx_queue_skb_effect:
  assumes "env_ok env"
  shows "sent (fst (snd (snd (tx_queue_skb env phy qid s w sta dev e)))) = sent dev @ [(s, dv_skb dev s)]"
    and "wc_pending (dv_wcid (fst (snd (snd (tx_queue_skb env phy qid s w sta dev e)))) v) =
      wc_pending (dv_wcid dev v)"
    and "wc_offchannel (dv_wcid (fst (snd (snd (tx_queue_skb env phy qid s w sta dev e)))) v) =
      wc_offchannel (dv_wcid dev v)"
    and "dv_txq (fst (snd (snd (tx_queue_skb env phy qid s w sta dev e)))) = dv_txq dev"
    and "py_tx_list (dv_phy (fst (snd (snd (tx_queue_skb env phy qid s w sta dev e)))) p) =
      py_tx_list (dv_phy dev p)"
    and "py_offchannel (dv_phy (fst (snd (snd (tx_queue_skb env phy qid s w sta dev e)))) p) =
      py_offchannel (dv_phy dev p)"
proof -
  let ?d = "log_ev (Submitted phy qid s (dv_skb dev s)) dev"
  have "sched_same (fst (snd (te_submit env ?d phy qid s w sta e))) ?d"
    using assms unfolding env_ok_def by blast
  then show "sent (fst (snd (snd (tx_queue_skb env phy qid s w sta dev e)))) = sent dev @ [(s, dv_skb dev s)]"
    and "wc_pending (dv_wcid (fst (snd (snd (tx_queue_skb env phy qid s w sta dev e)))) v) =
      wc_pending (dv_wcid dev v)"
    and "wc_offchannel (dv_wcid (fst (snd (snd (tx_queue_skb env phy qid s w sta dev e)))) v) =
      wc_offchannel (dv_wcid dev v)"
    and "dv_txq (fst (snd (snd (tx_queue_skb env phy qid s w sta dev e)))) = dv_txq dev"
    and "py_tx_list (dv_phy (fst (snd (snd (tx_queue_skb env phy qid s w sta dev e)))) p) =
      py_tx_list (dv_phy dev p)"
    and "py_offchannel (dv_phy (fst (snd (snd (tx_queue_skb env phy qid s w sta dev e)))) p) =
      py_offchannel (dv_phy dev p)"
    by (auto simp: tx_queue_skb_def Let_def case_prod_beta sched_same_def upd_hwq_def split: option.split)
qed

lemma tx_queue_skb_aql:
  assumes "env_ok env" and r: "tx_queue_skb env phy qid s w (Some v) dev e = (idx, stop, dev', e')"
    and "wc_non_aql (dv_wcid dev v) < 16"
  shows "wc_non_aql (dv_wcid dev' v) \<le> 16 \<and> (stop \<or> wc_non_aql (dv_wcid dev' v) < 16)"
proof -
  let ?d = "log_ev (Submitted phy qid s (dv_skb dev s)) dev"
  have "sched_same (fst (snd (te_submit env ?d phy qid s w (Some v) e))) ?d"
    using assms(1) unfolding env_ok_def by blast
  then show ?thesis
    using r assms(3)
    by (auto simp: tx_queue_skb_def Let_def case_prod_beta sched_same_def upd_hwq_def
        MT_MAX_NON_AQL_PKT_def split: if_splits)
qed

lemma tx_queue_skb_left:
  "queues_finite env left \<Longrightarrow>
    left (snd (snd (snd (tx_queue_skb env phy qid s w sta dev e)))) \<le> left e"
  by (auto simp: tx_queue_skb_def Let_def case_prod_beta queues_finite_def split: option.split)

section \<open>Pending frames\<close>

lemma upd_head_simps:
  "head_frames (upd_head w h f dev) w h = f (head_frames dev w h)"
  "h' \<noteq> h \<Longrightarrow> head_frames (upd_head w h f dev) v h' = head_frames dev v h'"
  "dv_log (upd_head w h f dev) = dv_log dev" "dv_skb (upd_head w h f dev) = dv_skb dev"
  "dv_phy (upd_head w h f dev) = dv_phy dev"
  by (auto simp: head_frames_def upd_head_def split: tx_head.split)

lemma tx_queue_skb_head:
  "env_ok env \<Longrightarrow>
    head_frames (fst (snd (snd (tx_queue_skb env phy qid s w sta dev e)))) v h = head_frames dev v h"
  by (simp add: head_frames_def tx_queue_skb_effect split: tx_head.split)

lemma head_frames_log [simp]: "head_frames (log_ev ev dev) w h = head_frames dev w h"
  by (simp add: head_frames_def split: tx_head.split)

lemma pending_loop_step:
  assumes "\<not> mt76_txq_stopped (hwq dev phy (pending_qid dev h s))" "\<not> py_reset (dv_phy dev phy)"
  shows "pending_loop env phy w h (s # ss) dev e =
    (let d = upd_head w h tl dev;
         r = tx_queue_skb env phy (pending_qid dev h s) s w (wcid_to_sta d (Some w)) d e
     in pending_loop env phy w h ss (log_ev (Kick phy (pending_qid dev h s)) (fst (snd (snd r)))) (snd (snd (snd r))))"
  using assms by (simp add: Let_def case_prod_beta)

lemma pending_loop_prefix:
  assumes "env_ok env" "head_frames dev w h = xs"
  shows "\<exists>k \<le> length xs.
     map fst (sent (fst (snd (pending_loop env phy w h xs dev e)))) = map fst (sent dev) @ take k xs
     \<and> head_frames (fst (snd (pending_loop env phy w h xs dev e))) w h = drop k xs
     \<and> fst (pending_loop env phy w h xs dev e) = (if k = length xs then 0 else -1)"
  using assms(2)
proof (induction xs arbitrary: dev e)
  case Nil
  then show ?case by simp
next
  case (Cons s ss)
  let ?q = "pending_qid dev h s"
  show ?case
  proof (cases "mt76_txq_stopped (hwq dev phy ?q) \<or> py_reset (dv_phy dev phy)")
    case True
    then have "pending_loop env phy w h (s # ss) dev e = (-1, dev, e)" by (simp add: Let_def)
    then show ?thesis using Cons.prems by (intro exI [of _ 0]) simp
  next
    case False
    let ?d = "upd_head w h tl dev"
    let ?r = "tx_queue_skb env phy ?q s w (wcid_to_sta ?d (Some w)) ?d e"
    let ?dev = "log_ev (Kick phy ?q) (fst (snd (snd ?r)))"
    have step: "pending_loop env phy w h (s # ss) dev e =
        pending_loop env phy w h ss ?dev (snd (snd (snd ?r)))"
      by (rule pending_loop_step [unfolded Let_def]) (use False in blast)+
    have h: "head_frames ?dev w h = ss"
      using Cons.prems by (simp add: tx_queue_skb_head [OF assms(1)] upd_head_simps)
    have "map fst (sent ?dev) = map fst (sent dev) @ [s]"
      using tx_queue_skb_effect(1) [OF assms(1)] by (simp add: upd_head_simps)
    then show ?thesis
      using Cons.IH [OF h, of "snd (snd (snd ?r))"] unfolding step
      by (elim exE conjE) (rule_tac x = "Suc k" in exI, simp)
  qed
qed

text \<open>
  C13: Pending frames of a client go out in the order they came, each once: one call hands a
  prefix of the list to the hardware, leaves the rest in place, and returns 0 exactly when the
  list is drained.
\<close>

theorem schedule_pending_in_order:
  assumes "env_ok env" and "mt76_txq_schedule_pending_wcid env phy w h dev e = (ret, dev', e')"
  shows "\<exists>k \<le> length (head_frames dev w h).
     map fst (sent dev') = map fst (sent dev) @ take k (head_frames dev w h)
     \<and> head_frames dev' w h = drop k (head_frames dev w h)
     \<and> ret = (if k = length (head_frames dev w h) then 0 else -1)"
  using pending_loop_prefix [OF assms(1) refl, of dev w h phy e] assms(2)
  by (simp add: mt76_txq_schedule_pending_wcid_def)

text \<open>
  A frame can be left behind. When the hardware queue of a client's first pending frame is
  full, the worker takes the client off the radio's list and puts it back only if both of its
  lists hold frames. A client with pending frames alone is dropped: the frames stay in its
  list, and later runs of the worker do nothing, whatever became of the hardware queue.
\<close>

theorem pending_frames_stranded:
  assumes "py_tx_list (dv_phy dev phy) = [w]" "wc_offchannel (dv_wcid dev w) = []"
    and "wc_pending (dv_wcid dev w) = s # ss"
    and "mt76_txq_stopped (hwq dev phy (pending_qid dev Head_pending s))"
  shows "\<exists>dev'. mt76_txq_schedule_pending env phy dev e = (dev', e)
     \<and> wc_pending (dv_wcid dev' w) = s # ss \<and> py_tx_list (dv_phy dev' phy) = []
     \<and> dv_log dev' = dv_log dev
     \<and> mt76_txq_schedule_pending env phy (upd_hwq phy qid f dev') e' = (upd_hwq phy qid f dev', e')"
proof -
  let ?d = "upd_phy phy (\<lambda>p. p\<lparr>py_tx_list := []\<rparr>) dev"
  have q: "pending_qid ?d Head_pending s = pending_qid dev Head_pending s"
    "hwq ?d phy qid = hwq dev phy qid" for qid
    by (simp_all add: pending_qid_def hwq_def)
  have "mt76_txq_schedule_pending env phy dev e = (?d, e)"
    using assms by (simp add: mt76_txq_schedule_pending_def mt76_txq_schedule_pending_wcid_def
        head_frames_def Let_def q)
  then show ?thesis
    using assms(3) by (simp add: mt76_txq_schedule_pending_def upd_hwq_def)
qed

section \<open>Bursts and power save\<close>

lemma dequeue_left:
  assumes "queues_finite env left" "mt76_txq_dequeue env phy x dev e = (Some s, dev', e')"
  shows "left e' < left e"
proof -
  have "te_dequeue env x e = (Some s, e')"
    using assms(2) by (auto simp: mt76_txq_dequeue_def split: prod.splits option.splits)
  then show ?thesis
    using assms(1) unfolding queues_finite_def by (metis fst_conv snd_conv option.distinct(1))
qed

lemma dequeue_rates_same:
  assumes "mt76_txq_dequeue env phy x dev e = (r, d, e')"
  shows "sched_same (get_rates_unless_set w s d) dev"
  using sched_same_trans [OF sched_same_get_rates] sched_same_dequeue [of env phy x dev e] assms by simp

lemma burst_loop_bound:
  assumes "env_ok env" "queues_finite env left" "left e < fuel" "xq_sta (dv_txq dev x) = Some w"
    and "wc_non_aql (dv_wcid dev w) \<le> 16" "stop \<or> wc_non_aql (dv_wcid dev w) < 16"
  shows "\<exists>n' dev' e'. burst_loop fuel env phy qid x w stop n dev e = Some (n', dev', e')
     \<and> wc_non_aql (dv_wcid dev' w) \<le> 16 \<and> n \<le> n'"
  using assms(3-6)
proof (induction fuel arbitrary: stop n dev e)
  case 0
  then show ?case by simp
next
  case (Suc fuel)
  show ?case
  proof (cases "py_reset (dv_phy dev phy) \<or> py_offchannel (dv_phy dev phy) \<or> stop
      \<or> mt76_txq_stopped (hwq dev phy qid)")
    case True
    then show ?thesis using Suc.prems by auto
  next
    case False
    obtain r d e1 where d: "mt76_txq_dequeue env phy x dev e = (r, d, e1)" by (metis prod.collapse)
    show ?thesis
    proof (cases r)
      case None
      then show ?thesis
        using False d Suc.prems sched_same_dequeue [of env phy x dev e] by (simp add: sched_same_def)
    next
      case (Some s)
      define g where "g = get_rates_unless_set w s d"
      have g: "sched_same g dev" unfolding g_def by (rule dequeue_rates_same [OF d])
      then have sta: "xq_sta (dv_txq g x) = Some w" and low: "wc_non_aql (dv_wcid g w) < 16"
        using Suc.prems(2,4) False by (simp_all add: sched_same_def)
      obtain idx st d2 e2 where q: "tx_queue_skb env phy qid s w (Some w) g e1 = (idx, st, d2, e2)"
        by (metis prod.collapse)
      have run: "burst_loop (Suc fuel) env phy qid x w stop n dev e =
          (if idx < 0 then Some (n, d2, e2) else burst_loop fuel env phy qid x w st (n + 1) d2 e2)"
        using False d Some q sta by (simp add: g_def)
      note b = tx_queue_skb_aql [OF assms(1) q low]
      have "left e2 < fuel"
        using dequeue_left [OF assms(2), of phy x dev e s d e1] d Some Suc.prems(1)
          tx_queue_skb_left [OF assms(2), of phy qid s w "Some w" g e1] q by simp
      moreover have "xq_sta (dv_txq d2 x) = Some w"
        using tx_queue_skb_effect(4) [OF assms(1), of phy qid s w "Some w" g e1] q sta by simp
      ultimately show ?thesis
        using Suc.IH [of e2 d2 st "n + 1"] b unfolding run by fastforce
    qed
  qed
qed

text \<open>
  A burst ends and is bounded: it returns (with more fuel than mac80211 has frames left),
  a sleeping client gets nothing, and the number of a client's frames in flight that airtime
  limits do not cover never passes 16.
\<close>

theorem send_burst_bounded:
  assumes "env_ok env" "queues_finite env left" "left e < fuel"
    and "xq_sta (dv_txq dev x) = Some w" "wc_non_aql (dv_wcid dev w) \<le> 16"
  shows "\<exists>n dev' e'. mt76_txq_send_burst fuel env phy x w dev e = Some (n, dev', e')
    \<and> wc_non_aql (dv_wcid dev' w) \<le> 16
    \<and> (if wc_ps (dv_wcid dev w) then n = 0 \<and> dev' = dev \<and> e' = e else True)"
proof (cases "wc_ps (dv_wcid dev w) \<or> wc_non_aql (dv_wcid dev w) \<ge> MT_MAX_NON_AQL_PKT")
  case True
  then show ?thesis using assms(5) by (auto simp: mt76_txq_send_burst_def Let_def)
next
  case False
  let ?q = "mt76_txq_get_qid (dv_txq dev x)"
  obtain r d e1 where d: "mt76_txq_dequeue env phy x dev e = (r, d, e1)" by (metis prod.collapse)
  show ?thesis
  proof (cases r)
    case None
    then show ?thesis
      using False d assms(5) sched_same_dequeue [of env phy x dev e]
      by (simp add: mt76_txq_send_burst_def Let_def sched_same_def)
  next
    case (Some s)
    define g where "g = get_rates_unless_set w s d"
    have g: "sched_same g dev" unfolding g_def by (rule dequeue_rates_same [OF d])
    then have sta: "xq_sta (dv_txq g x) = Some w" and low: "wc_non_aql (dv_wcid g w) < 16"
      using assms(4) False by (simp_all add: sched_same_def MT_MAX_NON_AQL_PKT_def)
    obtain idx st d2 e2 where q: "tx_queue_skb env phy ?q s w (Some w) g e1 = (idx, st, d2, e2)"
      by (metis prod.collapse)
    note b = tx_queue_skb_aql [OF assms(1) q low]
    have run: "mt76_txq_send_burst fuel env phy x w dev e =
        (if idx < 0 then Some (idx, d2, e2)
         else (case burst_loop fuel env phy ?q x w st 1 d2 e2 of
                   None \<Rightarrow> None | Some (n, dev, e) \<Rightarrow> Some (n, log_ev (Kick phy ?q) dev, e)))"
      using False d Some q sta by (simp add: mt76_txq_send_burst_def Let_def g_def)
    have left: "left e2 < fuel"
      using dequeue_left [OF assms(2), of phy x dev e s d e1] d Some assms(3)
        tx_queue_skb_left [OF assms(2), of phy ?q s w "Some w" g e1] q by simp
    have x: "xq_sta (dv_txq d2 x) = Some w"
      using tx_queue_skb_effect(4) [OF assms(1), of phy ?q s w "Some w" g e1] q sta by simp
    obtain n d3 e3 where "burst_loop fuel env phy ?q x w st 1 d2 e2 = Some (n, d3, e3)"
        "wc_non_aql (dv_wcid d3 w) \<le> 16"
      using burst_loop_bound [OF assms(1,2) left x conjunct1 [OF b] conjunct2 [OF b], of phy ?q 1]
      by blast
    then show ?thesis using b False unfolding run by simp
  qed
qed

text \<open>A released frame, with what it carried when it was submitted.\<close>

definition ps_middle :: "nat \<times> tx_skb \<Rightarrow> bool" where
  "ps_middle f \<longleftrightarrow> sk_more_data (snd f) \<and> sk_ps_response (snd f)"

definition ps_end :: "nat \<times> tx_skb \<Rightarrow> bool" where
  "ps_end f \<longleftrightarrow> \<not> sk_more_data (snd f) \<and> sk_eosp (snd f) \<and> sk_req_tx_status (snd f) \<and> sk_ps_response (snd f)"

lemma queue_ps_sent:
  assumes "env_ok env"
  shows "\<exists>f. sent (fst (mt76_queue_ps_skb env phy sta s lst dev e)) = sent dev @ [f]
    \<and> fst f = s \<and> (if lst then ps_end f else ps_middle f)"
  using tx_queue_skb_effect(1) [OF assms]
  by (auto simp: mt76_queue_ps_skb_def Let_def case_prod_beta ps_end_def ps_middle_def)

text \<open>How many frames a state of the release loop accounts for: those sent and the one held back.\<close>

fun held :: "nat option \<Rightarrow> nat" where
  "held None = 0"
| "held (Some s) = 1"

lemma release_txq_sent:
  assumes "env_ok env" "release_txq env phy sta x n lst dev e = (n', lst', dev', e')"
  shows "\<exists>D. sent dev' = sent dev @ D \<and> list_all ps_middle D
    \<and> length D + held lst' + n' = held lst + n \<and> (lst' = None \<longrightarrow> lst = None \<and> D = [])"
  using assms(2)
proof (induction n arbitrary: lst dev e)
  case 0
  then show ?case by (intro exI [of _ "[]"]) auto
next
  case (Suc n)
  obtain r d e1 where d: "mt76_txq_dequeue env phy x dev e = (r, d, e1)" by (metis prod.collapse)
  have same: "sent d = sent dev"
    using sched_same_dequeue [of env phy x dev e] d by (simp add: sched_same_def)
  show ?case
  proof (cases r)
    case None
    then show ?thesis using Suc.prems d same by (intro exI [of _ "[]"]) auto
  next
    case (Some s)
    show ?thesis
    proof (cases lst)
      case None
      then show ?thesis using Suc.IH [of "Some s" d e1] Suc.prems d Some same by auto
    next
      case (Some l)
      obtain f where f: "sent (fst (mt76_queue_ps_skb env phy sta l False d e1)) = sent d @ [f]" "ps_middle f"
        using queue_ps_sent [OF assms(1), of phy sta l False d e1] by auto
      obtain D where "sent dev' = sent (fst (mt76_queue_ps_skb env phy sta l False d e1)) @ D"
        "list_all ps_middle D" "length D + held lst' + n' = 1 + n" "lst' \<noteq> None"
        using Suc.IH [of "Some s" "fst (mt76_queue_ps_skb env phy sta l False d e1)"
            "snd (mt76_queue_ps_skb env phy sta l False d e1)"] Suc.prems d
          \<open>r = Some s\<close> Some by (auto simp: case_prod_beta)
      then show ?thesis using f same Some by (intro exI [of _ "f # D"]) auto
    qed
  qed
qed

lemma release_tids_sent:
  assumes "env_ok env" "release_tids env phy sta txqs is tids n lst dev e = (lst', dev', e')"
  shows "\<exists>D. sent dev' = sent dev @ D \<and> list_all ps_middle D
    \<and> length D + held lst' \<le> held lst + n \<and> (lst' = None \<longrightarrow> lst = None \<and> D = [])"
  using assms(2)
proof (induction "is" arbitrary: tids n lst dev e)
  case Nil
  then show ?case by (intro exI [of _ "[]"]) auto
next
  case (Cons i "is")
  consider "\<not> (tids \<noteq> 0 \<and> n \<noteq> 0)" | "tids \<noteq> 0 \<and> n \<noteq> 0" "tids AND 1 = 0" | "tids \<noteq> 0 \<and> n \<noteq> 0" "tids AND 1 \<noteq> 0"
    by blast
  then show ?case
  proof cases
    case 1
    then show ?thesis using Cons.prems by (intro exI [of _ "[]"]) auto
  next
    case 2
    then show ?thesis using Cons.IH Cons.prems by simp
  next
    case 3
    obtain n1 l1 d1 e1 where q: "release_txq env phy sta (txqs i) n lst dev e = (n1, l1, d1, e1)"
      by (metis prod.collapse)
    have run: "release_tids env phy sta txqs is (drop_bit 1 tids) n1 l1 d1 e1 = (lst', dev', e')"
      using Cons.prems 3 q by simp
    obtain D where D: "sent d1 = sent dev @ D" "list_all ps_middle D"
      "length D + held l1 + n1 = held lst + n" "l1 = None \<longrightarrow> lst = None \<and> D = []"
      using release_txq_sent [OF assms(1) q] by blast
    obtain E where E: "sent dev' = sent d1 @ E" "list_all ps_middle E"
      "length E + held lst' \<le> held l1 + n1" "lst' = None \<longrightarrow> l1 = None \<and> E = []"
      using Cons.IH [OF run] by blast
    show ?thesis using D E 3 run q by (intro exI [of _ "D @ E"]) (auto simp: Cons.prems)
  qed
qed

text \<open>
  Releasing buffered frames to a sleeping client opens one service period: at most the
  number of frames asked for, every one but the last announcing more data, the last one ending
  the period and asking for a status. Without a frame to send, the end of the period is
  signalled to mac80211 instead.
\<close>

theorem release_one_service_period:
  assumes "env_ok env"
    and "mt76_release_buffered_frames env phy sta txqs tids nframes dev e = (dev', e')"
  shows "\<exists>D. sent dev' = sent dev @ D \<and> length D \<le> nframes
    \<and> (if D = [] then last (dv_log dev') = Sta_eosp sta
       else list_all ps_middle (butlast D) \<and> ps_end (last D))"
proof -
  obtain lst d e1 where r: "release_tids env phy sta txqs [0..<16] tids nframes None dev e = (lst, d, e1)"
    by (metis prod.collapse)
  obtain D where D: "sent d = sent dev @ D" "list_all ps_middle D"
    "length D + held lst \<le> nframes" "lst = None \<longrightarrow> D = []"
    using release_tids_sent [OF assms(1) r] by auto
  show ?thesis
  proof (cases lst)
    case None
    then have "dev' = log_ev (Sta_eosp sta) d"
      using assms(2) r by (simp add: mt76_release_buffered_frames_def)
    then show ?thesis using D None by (intro exI [of _ "[]"]) simp
  next
    case (Some l)
    obtain f where f: "sent (fst (mt76_queue_ps_skb env phy sta l True d e1)) = sent d @ [f]" "ps_end f"
      using queue_ps_sent [OF assms(1), of phy sta l True d e1] by auto
    have "dev' = log_ev (Kick phy MT_TXQ_PSD) (fst (mt76_queue_ps_skb env phy sta l True d e1))"
      using assms(2) r Some by (auto simp: mt76_release_buffered_frames_def Let_def case_prod_beta)
    then show ?thesis using D f Some by (intro exI [of _ "D @ [f]"]) simp
  qed
qed

section \<open>Concrete runs\<close>

text \<open>
  An environment: mac80211's queues hold lists of frames (\<open>'e\<close> is the map from queues to their
  lists), and the bus layer takes every frame without any other effect.
\<close>

definition demo_env :: "(nat list) tx_env" where
  "demo_env = \<lparr>te_dequeue = (\<lambda>x e. case e of [] \<Rightarrow> (None, []) | s # ss \<Rightarrow> (Some s, ss)),
     te_next_txq = (\<lambda>hw qid e. (None, e)), te_schedule_start = (\<lambda>hw qid e. e),
     te_submit = (\<lambda>dev phy qid s w sta e. (0, dev, e)), te_cleanup = None\<rparr>"

lemma demo_env_ok: "env_ok demo_env"
  by (simp add: env_ok_def demo_env_def)

lemma demo_env_finite: "queues_finite demo_env length"
  by (auto simp: queues_finite_def demo_env_def split: list.split)

definition demo_pending :: tx_dev where
  "demo_pending = upd_wcid 5 (\<lambda>c. c\<lparr>wc_pending := [8, 9]\<rparr>)
     (upd_phy 0 (\<lambda>p. p\<lparr>py_tx_list := [5]\<rparr>) demo_tx_dev)"

theorem schedule_pending_in_order_witness:
  "\<exists>k \<le> 2. map fst (sent (fst (snd (mt76_txq_schedule_pending_wcid demo_env 0 5 Head_pending demo_pending []))))
     = take k [8, 9]"
proof -
  have h: "head_frames demo_pending 5 Head_pending = [8, 9]" "sent demo_pending = []"
    by (simp_all add: head_frames_def demo_pending_def demo_tx_dev_def)
  obtain ret d e where r: "mt76_txq_schedule_pending_wcid demo_env 0 5 Head_pending demo_pending [] = (ret, d, e)"
    by (metis prod.collapse)
  obtain k where "k \<le> length (head_frames demo_pending 5 Head_pending)"
    "map fst (sent d) = map fst (sent demo_pending) @ take k (head_frames demo_pending 5 Head_pending)"
    using schedule_pending_in_order [OF demo_env_ok r] by blast
  then show ?thesis unfolding h r by (intro exI [of _ k]) simp
qed

definition demo_full :: tx_dev where
  "demo_full = upd_phy 0 (\<lambda>p. p\<lparr>py_q_tx := (\<lambda>_. demo_hwq\<lparr>hq_stopped := True\<rparr>)\<rparr>) demo_pending"

theorem pending_frames_stranded_witness:
  "\<exists>dev'. mt76_txq_schedule_pending demo_env 0 demo_full [] = (dev', [])
     \<and> wc_pending (dv_wcid dev' 5) = [8, 9] \<and> py_tx_list (dv_phy dev' 0) = []
     \<and> mt76_txq_schedule_pending demo_env 0 (upd_hwq 0 2 (\<lambda>_. demo_hwq) dev') []
         = (upd_hwq 0 2 (\<lambda>_. demo_hwq) dev', [])"
proof -
  have "py_tx_list (dv_phy demo_full 0) = [5]" "wc_offchannel (dv_wcid demo_full 5) = []"
    "wc_pending (dv_wcid demo_full 5) = [8, 9]"
    by (simp_all add: demo_full_def demo_pending_def demo_tx_dev_def demo_tx_wcid_def)
  moreover have "mt76_txq_stopped (hwq demo_full 0 (pending_qid demo_full Head_pending 8))"
    by (simp add: demo_full_def hwq_def mt76_txq_stopped_def)
  ultimately show ?thesis
    using pending_frames_stranded [of demo_full 0 5 8 "[9]" demo_env "[]" 2 "\<lambda>_. demo_hwq" "[]"] by blast
qed

theorem send_burst_bounded_witness:
  "\<exists>n dev' e'. mt76_txq_send_burst 3 demo_env 0 7 5 demo_tx_dev [8, 9] = Some (n, dev', e')
     \<and> wc_non_aql (dv_wcid dev' 5) \<le> 16"
proof -
  have "xq_sta (dv_txq demo_tx_dev 7) = Some 5" "wc_non_aql (dv_wcid demo_tx_dev 5) \<le> 16"
    by (simp_all add: demo_tx_dev_def demo_tx_wcid_def)
  then show ?thesis
    using send_burst_bounded [OF demo_env_ok demo_env_finite, of "[8, 9]" 3 demo_tx_dev 7 5 0] by auto
qed

theorem release_one_service_period_witness:
  "\<exists>D. sent (fst (mt76_release_buffered_frames demo_env 0 5 (\<lambda>i. i) 3 2 demo_tx_dev [8, 9])) = D
     \<and> length D \<le> 2"
proof -
  have "sent demo_tx_dev = []" by (simp add: demo_tx_dev_def)
  then show ?thesis
    using release_one_service_period [OF demo_env_ok, of 0 5 "\<lambda>i. i" 3 2 demo_tx_dev "[8, 9]"
        "fst (mt76_release_buffered_frames demo_env 0 5 (\<lambda>i. i) 3 2 demo_tx_dev [8, 9])"
        "snd (mt76_release_buffered_frames demo_env 0 5 (\<lambda>i. i) 3 2 demo_tx_dev [8, 9])"] by auto
qed

end
