(* ===== verification/BtUsbRx.thy ===== *)
theory BtUsbRx
  imports Mt76Prelude
begin

text \<open>
  Reassembly of HCI packets from USB transfers, \<open>btusb_recv_intr\<close>, \<open>btusb_recv_bulk\<close> and
  \<open>btusb_recv_isoc\<close> of src/src/bluetooth/btusb.c. The three C functions repeat one loop; \<open>rx_loop\<close>
  is that loop, and \<open>rx_kind\<close> says where they differ (packet header, buffer size, the check of
  the header, and what the event function does with a short rest). Buffer allocation and the
  connection lookup of the Bluetooth core are parameters. The interface \<open>stream_framing\<close> is what
  the reassembly of a byte stream promises; ACL, SCO and
  ISO packets meet it, events do not, by design. ISO packets come over MediaTek's own interface and
  are received by src/src/bluetooth/btmtk.c, whose loop is the same (theory BtMtk).
\<close>

section \<open>Kinds of packets\<close>

datatype rx_kind = Evt | Acl | Sco | Iso

text \<open>Header and buffer sizes of \<open>net/bluetooth/hci.h\<close>.\<close>

definition hdr_size :: "rx_kind \<Rightarrow> nat" where
  "hdr_size k = (case k of Evt \<Rightarrow> 2 | Acl \<Rightarrow> 4 | Sco \<Rightarrow> 3 | Iso \<Rightarrow> 4)"

definition max_frame :: "rx_kind \<Rightarrow> nat" where
  "max_frame k = (case k of Evt \<Rightarrow> 260 | Acl \<Rightarrow> 1028 | Sco \<Rightarrow> 255 | Iso \<Rightarrow> 251)"

definition get_le16 :: "u8 \<Rightarrow> u8 \<Rightarrow> nat" where
  "get_le16 lo hi = unat lo + 256 * unat hi"

text \<open>The payload length a complete header announces.\<close>

definition body_len :: "rx_kind \<Rightarrow> u8 list \<Rightarrow> nat" where
  "body_len k hdr = (case k of
     Evt \<Rightarrow> unat (hdr ! 1) | Acl \<Rightarrow> get_le16 (hdr ! 2) (hdr ! 3) | Sco \<Rightarrow> unat (hdr ! 2)
   | Iso \<Rightarrow> get_le16 (hdr ! 2) (hdr ! 3))"

text \<open>
  The Bluetooth core: whether user space controls the device, and the link type of a connection
  handle (its low 12 bits).
\<close>

datatype link_type = Sco_link | Esco_link | Other_link

record bt_core =
  bc_user_channel :: bool
  bc_conn_type :: "nat \<Rightarrow> link_type"

definition btusb_validate_sco_handle :: "bt_core \<Rightarrow> u8 list \<Rightarrow> bool" where
  "btusb_validate_sco_handle core hdr =
     (if bc_user_channel core then True
      else case bc_conn_type core (get_le16 (hdr ! 0) (hdr ! 1) mod 4096) of
          Sco_link \<Rightarrow> True | Esco_link \<Rightarrow> True | Other_link \<Rightarrow> False)"

section \<open>The reassembly loop\<close>

text \<open>A partly received packet: its bytes so far and how many are missing (\<open>hci_skb_expect\<close>).\<close>

record bt_skb =
  rs_data :: "u8 list"
  rs_expect :: nat

text \<open>
  What the loop depends on: the room of a fresh buffer (at least the size asked for) and whether
  each allocation of this call succeeds.
\<close>

record rx_env =
  re_core :: bt_core
  re_room :: nat
  re_alloc :: "nat \<Rightarrow> bool"

definition fresh_skb :: "rx_kind \<Rightarrow> bt_skb" where
  "fresh_skb k = \<lparr>rs_data = [], rs_expect = hdr_size k\<rparr>"

definition hdr_bad :: "rx_env \<Rightarrow> rx_kind \<Rightarrow> u8 list \<Rightarrow> bool" where
  "hdr_bad env k d \<longleftrightarrow> re_room env - length d < body_len k d
     \<or> (k = Sco \<and> \<not> btusb_validate_sco_handle (re_core env) d)"

text \<open>One round with a buffer: its new value, the rest of the input, and the packet if complete.\<close>

datatype rx_round = Corrupt | Partial bt_skb "u8 list" | Complete "u8 list" "u8 list"

definition rx_step :: "rx_env \<Rightarrow> rx_kind \<Rightarrow> bt_skb \<Rightarrow> u8 list \<Rightarrow> rx_round" where
  "rx_step env k skb buf =
     (let n = min (rs_expect skb) (length buf);
          d = rs_data skb @ take n buf;
          buf = drop n buf;
          expect = rs_expect skb - n;
          expect' = (if length d = hdr_size k then body_len k d else expect)
      in if length d = hdr_size k \<and> hdr_bad env k d then Corrupt
         else if expect' = 0 then
           Complete d (if k = Evt \<and> buf \<noteq> [] \<and> length buf < hdr_size k then [] else buf)
         else Partial \<lparr>rs_data = d, rs_expect = expect'\<rparr> buf)"

definition skb_rank :: "bt_skb option \<Rightarrow> nat" where
  "skb_rank skb = (case skb of None \<Rightarrow> 0 | Some s \<Rightarrow> if rs_expect s = 0 then 1 else 0)"

lemma hdr_size_pos [simp]: "0 < hdr_size k" "hdr_size k \<noteq> 0"
  by (simp_all add: hdr_size_def split: rx_kind.split)

lemma rx_step_shorter:
  assumes "buf \<noteq> []"
  shows "rx_step env k s buf = Partial s' b \<Longrightarrow>
      length b < length buf \<or> (length b = length buf \<and> rs_expect s = 0 \<and> rs_expect s' \<noteq> 0)"
    and "rx_step env k s buf = Complete d b \<Longrightarrow>
      length b < length buf \<or> (length b = length buf \<and> rs_expect s = 0)"
  using assms by (cases "rs_expect s = 0", auto simp: rx_step_def Let_def min_def split: if_splits)+

text \<open>
  The loop: \<open>n\<close> counts the allocations. The result holds the error, the packet left incomplete,
  and the complete packets in order.
\<close>

function rx_loop :: "rx_env \<Rightarrow> rx_kind \<Rightarrow> nat \<Rightarrow> bt_skb option \<Rightarrow> u8 list
    \<Rightarrow> unit res \<times> bt_skb option \<times> u8 list list" where
  "rx_loop env k n skb buf =
     (if buf = [] then (Inr (), skb, [])
      else if skb = None \<and> \<not> re_alloc env n then (Inl ENOMEM, None, [])
      else let n' = (if skb = None then n + 1 else n);
               s = (case skb of None \<Rightarrow> fresh_skb k | Some s \<Rightarrow> s)
           in case rx_step env k s buf of
                Corrupt \<Rightarrow> (Inl EILSEQ, None, [])
              | Partial s buf \<Rightarrow> rx_loop env k n' (Some s) buf
              | Complete d buf \<Rightarrow>
                  let (r, skb, ds) = rx_loop env k n' None buf in (r, skb, d # ds))"
  by pat_completeness auto
termination
proof (relation "measures [\<lambda>(env, k, n, skb, buf). length buf, \<lambda>(env, k, n, skb, buf). skb_rank skb]",
    goal_cases)
  case 1
  then show ?case by simp
next
  case (2 env k n skb buf n' s s' b)
  then show ?case
    using rx_step_shorter(1) [of buf env k s s' b]
    by (auto simp: skb_rank_def fresh_skb_def split: option.splits)
next
  case (3 env k n skb buf n' s d b)
  then show ?case
    using rx_step_shorter(2) [of buf env k s d b]
    by (auto simp: skb_rank_def fresh_skb_def split: option.splits)
qed

declare rx_loop.simps [simp del]

section \<open>The driver's state\<close>

record btusb_rx =
  bu_evt_skb :: "bt_skb option"
  bu_acl_skb :: "bt_skb option"
  bu_sco_skb :: "bt_skb option"
  bu_intr_interval :: nat
  bu_acl_q :: "u8 list list"
  bu_rx_work :: "nat option"
  bu_delivered :: "(rx_kind \<times> u8 list) list"

text \<open>
  \<open>schedule_delayed_work\<close> does nothing when the work is already pending. Delivery is the
  driver's callback into the Bluetooth core.
\<close>

definition schedule_rx_work :: "nat \<Rightarrow> btusb_rx \<Rightarrow> btusb_rx" where
  "schedule_rx_work delay data = (case bu_rx_work data of
     None \<Rightarrow> data\<lparr>bu_rx_work := Some delay\<rparr> | Some d \<Rightarrow> data)"

definition deliver :: "rx_kind \<Rightarrow> u8 list \<Rightarrow> btusb_rx \<Rightarrow> btusb_rx" where
  "deliver k d data = data\<lparr>bu_delivered := bu_delivered data @ [(k, d)]\<rparr>"

definition btusb_recv_event :: "u8 list \<Rightarrow> btusb_rx \<Rightarrow> btusb_rx" where
  "btusb_recv_event d data =
     deliver Evt d (if bu_intr_interval data \<noteq> 0 then schedule_rx_work 0 data else data)"

definition btusb_recv_acl :: "u8 list \<Rightarrow> btusb_rx \<Rightarrow> btusb_rx" where
  "btusb_recv_acl d data =
     (if bu_intr_interval data = 0 then deliver Acl d data
      else schedule_rx_work (bu_intr_interval data) (data\<lparr>bu_acl_q := bu_acl_q data @ [d]\<rparr>))"

definition btusb_rx_work :: "btusb_rx \<Rightarrow> btusb_rx" where
  "btusb_rx_work data =
     fold (deliver Acl) (bu_acl_q data) (data\<lparr>bu_acl_q := [], bu_rx_work := None\<rparr>)"

definition btusb_recv_intr :: "rx_env \<Rightarrow> btusb_rx \<Rightarrow> u8 list \<Rightarrow> unit res \<times> btusb_rx" where
  "btusb_recv_intr env data buf =
     (let (r, skb, ds) = rx_loop env Evt 0 (bu_evt_skb data) buf
      in (r, (fold btusb_recv_event ds data)\<lparr>bu_evt_skb := skb\<rparr>))"

definition btusb_recv_bulk :: "rx_env \<Rightarrow> btusb_rx \<Rightarrow> u8 list \<Rightarrow> unit res \<times> btusb_rx" where
  "btusb_recv_bulk env data buf =
     (let (r, skb, ds) = rx_loop env Acl 0 (bu_acl_skb data) buf
      in (r, (fold btusb_recv_acl ds data)\<lparr>bu_acl_skb := skb\<rparr>))"

definition btusb_recv_isoc :: "rx_env \<Rightarrow> btusb_rx \<Rightarrow> u8 list \<Rightarrow> unit res \<times> btusb_rx" where
  "btusb_recv_isoc env data buf =
     (let (r, skb, ds) = rx_loop env Sco 0 (bu_sco_skb data) buf
      in (r, (fold (deliver Sco) ds data)\<lparr>bu_sco_skb := skb\<rparr>))"

definition btusb_free_frags :: "btusb_rx \<Rightarrow> btusb_rx" where
  "btusb_free_frags data = data\<lparr>bu_evt_skb := None, bu_acl_skb := None, bu_sco_skb := None\<rparr>"

section \<open>Stream framing\<close>

text \<open>Feeding a receiver one chunk after the other.\<close>

fun feed :: "('s \<Rightarrow> 'b list \<Rightarrow> ('s \<times> 'f list) option) \<Rightarrow> 's \<Rightarrow> 'b list list \<Rightarrow> ('s \<times> 'f list) option" where
  "feed recv s [] = Some (s, [])"
| "feed recv s (c # cs) = (case recv s c of
     None \<Rightarrow> None
   | Some (s', ds) \<Rightarrow> (case feed recv s' cs of None \<Rightarrow> None | Some (s'', es) \<Rightarrow> Some (s'', ds @ es)))"

text \<open>
  The promise: between packets the receiver is in the state \<open>idle\<close>, a packet that is given whole
  comes out whole, and where a chunk ends does not matter.
\<close>

locale stream_framing =
  fixes recv :: "'s \<Rightarrow> 'b list \<Rightarrow> ('s \<times> 'f list) option"
    and wf :: "'s \<Rightarrow> bool" and idle :: 's and encode :: "'f \<Rightarrow> 'b list" and frame_ok :: "'f \<Rightarrow> bool"
  assumes wf_idle: "wf idle"
    and wf_recv: "wf s \<Longrightarrow> recv s c = Some (s', ds) \<Longrightarrow> wf s'"
    and recv_nil: "recv s [] = Some (s, [])"
    and recv_append: "wf s \<Longrightarrow> recv s (a @ b) = (case recv s a of
        None \<Rightarrow> None
      | Some (s', ds) \<Rightarrow> (case recv s' b of None \<Rightarrow> None | Some (s'', es) \<Rightarrow> Some (s'', ds @ es)))"
    and recv_frame: "frame_ok f \<Longrightarrow> recv idle (encode f) = Some (idle, [f])"
begin

lemma feed_concat: "wf s \<Longrightarrow> feed recv s cs = recv s (concat cs)"
proof (induction cs arbitrary: s)
  case Nil
  then show ?case by (simp add: recv_nil)
next
  case (Cons c cs)
  show ?case
  proof (cases "recv s c")
    case None
    then show ?thesis using recv_append [OF Cons.prems, of c "concat cs"] by simp
  next
    case (Some r)
    obtain s' ds where r: "r = (s', ds)" by (cases r)
    have "wf s'" using wf_recv [OF Cons.prems] Some r by blast
    then show ?thesis
      using Cons.IH recv_append [OF Cons.prems, of c "concat cs"] Some r by simp
  qed
qed

lemma recv_frames: "list_all frame_ok fs \<Longrightarrow> recv idle (concat (map encode fs)) = Some (idle, fs)"
  by (induction fs) (simp_all add: recv_nil recv_append [OF wf_idle] recv_frame)

lemma any_chunking:
  "list_all frame_ok fs \<Longrightarrow> concat cs = concat (map encode fs) \<Longrightarrow> feed recv idle cs = Some (idle, fs)"
  by (simp add: feed_concat [OF wf_idle] recv_frames)

end

section \<open>The loop as a stream receiver\<close>

definition rx_recv :: "rx_env \<Rightarrow> rx_kind \<Rightarrow> bt_skb option \<Rightarrow> u8 list \<Rightarrow> (bt_skb option \<times> u8 list list) option" where
  "rx_recv env k skb buf =
     (case rx_loop env k 0 skb buf of (Inr u, skb', ds) \<Rightarrow> Some (skb', ds) | (Inl err, skb', ds) \<Rightarrow> None)"

text \<open>A partly received packet is in its header or in its body, and misses exactly the rest of it.\<close>

definition skb_wf :: "rx_kind \<Rightarrow> bt_skb option \<Rightarrow> bool" where
  "skb_wf k skb = (case skb of None \<Rightarrow> True | Some s \<Rightarrow>
     0 < rs_expect s \<and>
     (if length (rs_data s) < hdr_size k then length (rs_data s) + rs_expect s = hdr_size k
      else length (rs_data s) + rs_expect s = hdr_size k + body_len k (rs_data s)))"

definition frame_wf :: "rx_env \<Rightarrow> rx_kind \<Rightarrow> u8 list \<Rightarrow> bool" where
  "frame_wf env k d \<longleftrightarrow> hdr_size k \<le> length d \<and> length d = hdr_size k + body_len k d
     \<and> \<not> hdr_bad env k (take (hdr_size k) d)"

definition always_alloc :: "rx_env \<Rightarrow> bool" where
  "always_alloc env \<longleftrightarrow> (\<forall>n. re_alloc env n)"

lemma body_len_prefix: "hdr_size k \<le> length d \<Longrightarrow> body_len k (d @ e) = body_len k d"
  by (auto simp: body_len_def hdr_size_def nth_append split: rx_kind.splits)

lemma body_len_take: "hdr_size k \<le> length d \<Longrightarrow> body_len k (take (hdr_size k) d) = body_len k d"
  by (auto simp: body_len_def hdr_size_def split: rx_kind.splits)

lemma fresh_wf: "skb_wf k (Some (fresh_skb k))"
  by (simp add: skb_wf_def fresh_skb_def)

lemma rx_step_wf: "skb_wf k (Some s) \<Longrightarrow> rx_step env k s buf = Partial s' b \<Longrightarrow> skb_wf k (Some s')"
  by (auto simp: skb_wf_def rx_step_def Let_def body_len_prefix min_def split: if_splits)

lemma rx_step_progress:
  "skb_wf k (Some s) \<Longrightarrow> buf \<noteq> [] \<Longrightarrow> rx_step env k s buf = Partial s' b \<Longrightarrow> length b < length buf"
  "skb_wf k (Some s) \<Longrightarrow> buf \<noteq> [] \<Longrightarrow> rx_step env k s buf = Complete d b \<Longrightarrow> length b < length buf"
  using rx_step_shorter [of buf env k s] by (auto simp: skb_wf_def)

lemma rx_loop_n: "always_alloc env \<Longrightarrow> rx_loop env k n skb buf = rx_loop env k m skb buf"
proof (induction env k n skb buf arbitrary: m rule: rx_loop.induct)
  case (1 env k n skb buf)
  show ?case
  proof (cases "buf = []")
    case True
    then show ?thesis by (subst (1 2) rx_loop.simps) simp
  next
    case False
    let ?s = "case skb of None \<Rightarrow> fresh_skb k | Some s \<Rightarrow> s"
    let ?c = "\<lambda>n. if skb = None then n + 1 else n"
    have al: "\<not> (skb = None \<and> \<not> re_alloc env i)" for i
      using "1.prems" by (simp add: always_alloc_def)
    have P: "rx_step env k ?s buf = Partial s b \<Longrightarrow> rx_loop env k (?c n) (Some s) b = rx_loop env k (?c m) (Some s) b"
      and C: "rx_step env k ?s buf = Complete d b \<Longrightarrow> rx_loop env k (?c n) None b = rx_loop env k (?c m) None b"
      for s b d
      using "1.IH"(1) [OF False al refl refl _ "1.prems"] "1.IH"(2) [OF False al refl refl _ "1.prems"] by blast+
    have u: "rx_loop env k i skb buf = (case rx_step env k ?s buf of
        Corrupt \<Rightarrow> (Inl EILSEQ, None, [])
      | Partial s b \<Rightarrow> rx_loop env k (?c i) (Some s) b
      | Complete d b \<Rightarrow> let (r, skb, ds) = rx_loop env k (?c i) None b in (r, skb, d # ds))" for i
      using False al by (subst rx_loop.simps) (simp only: Let_def if_False simp_thms)
    show ?thesis
      unfolding u [of n] u [of m] using P C by (cases "rx_step env k ?s buf") simp_all
  qed
qed

text \<open>The loop with memory at hand: one equation for an empty and one for a non-empty chunk.\<close>

lemma rx_loop_Nil [simp]: "rx_loop env k n skb [] = (Inr (), skb, [])"
  by (subst rx_loop.simps) simp

lemma rx_loop_unfold:
  assumes "always_alloc env" "buf \<noteq> []"
  shows "rx_loop env k 0 skb buf =
    (case rx_step env k (case skb of None \<Rightarrow> fresh_skb k | Some s \<Rightarrow> s) buf of
       Corrupt \<Rightarrow> (Inl EILSEQ, None, [])
     | Partial s b \<Rightarrow> rx_loop env k 0 (Some s) b
     | Complete d b \<Rightarrow> let (r, skb, ds) = rx_loop env k 0 None b in (r, skb, d # ds))"
  using assms rx_loop_n [OF assms(1), of k "Suc 0" _ _ 0]
  by (subst rx_loop.simps) (auto simp: always_alloc_def Let_def split: rx_round.split)

lemma rx_step_append:
  assumes "k \<noteq> Evt" "rs_expect s \<le> length a"
  shows "rx_step env k s (a @ b) = (case rx_step env k s a of
     Corrupt \<Rightarrow> Corrupt | Partial s' r \<Rightarrow> Partial s' (r @ b) | Complete d r \<Rightarrow> Complete d (r @ b))"
  using assms by (simp add: rx_step_def Let_def min_def)

text \<open>A chunk that ends inside a packet leaves a state from which the next one goes on.\<close>

lemma rx_step_split:
  assumes "skb_wf k (Some s)" "length a < rs_expect s" "a \<noteq> []"
  shows "rx_step env k s a = Partial (s\<lparr>rs_data := rs_data s @ a, rs_expect := rs_expect s - length a\<rparr>) []"
    and "k \<noteq> Evt \<Longrightarrow> rx_step env k s (a @ b) =
      rx_step env k (s\<lparr>rs_data := rs_data s @ a, rs_expect := rs_expect s - length a\<rparr>) b"
proof -
  have "0 < length a" using assms(3) by simp
  then have "length (rs_data s) + length a \<noteq> hdr_size k"
    using assms(1,2) by (auto simp: skb_wf_def simp del: length_greater_0_conv split: if_splits)
  then show "rx_step env k s a =
      Partial (s\<lparr>rs_data := rs_data s @ a, rs_expect := rs_expect s - length a\<rparr>) []"
    using assms(2) by (simp add: rx_step_def Let_def)
  show "rx_step env k s (a @ b) =
      rx_step env k (s\<lparr>rs_data := rs_data s @ a, rs_expect := rs_expect s - length a\<rparr>) b" if "k \<noteq> Evt"
  proof (cases "rs_expect s \<le> length a + length b")
    case True
    then have "rs_expect s - length a \<le> length b" by simp
    then show ?thesis using assms(2) True that by (simp add: rx_step_def Let_def min_def)
  next
    case False
    then have "\<not> rs_expect s - length a \<le> length b" by simp
    then show ?thesis using assms(2) False that by (simp add: rx_step_def Let_def min_def)
  qed
qed

abbreviation skb_or_fresh :: "rx_kind \<Rightarrow> bt_skb option \<Rightarrow> bt_skb" where
  "skb_or_fresh k skb \<equiv> (case skb of None \<Rightarrow> fresh_skb k | Some s \<Rightarrow> s)"

lemma skb_or_fresh_wf: "skb_wf k skb \<Longrightarrow> skb_wf k (Some (skb_or_fresh k skb))"
  by (cases skb) (simp_all add: fresh_wf)

lemma rx_loop_append:
  assumes "always_alloc env" "k \<noteq> Evt" "skb_wf k skb"
  shows "rx_loop env k 0 skb (a @ b) = (case rx_loop env k 0 skb a of
      (Inl err, s', ds) \<Rightarrow> (Inl err, s', ds)
    | (Inr u, s', ds) \<Rightarrow> let (r, s'', es) = rx_loop env k 0 s' b in (r, s'', ds @ es))"
  using assms(3)
proof (induction a arbitrary: skb rule: length_induct)
  case (1 a)
  let ?s = "skb_or_fresh k skb"
  have wf: "skb_wf k (Some ?s)" by (rule skb_or_fresh_wf [OF 1(2)])
  consider "a = []" | "a \<noteq> []" "rs_expect ?s \<le> length a" | "a \<noteq> []" "length a < rs_expect ?s"
    by linarith
  then show ?case
  proof cases
    case 1
    then show ?thesis by (simp add: case_prod_beta)
  next
    case 2
    have IH: "rx_loop env k 0 s1 (r @ b) = (case rx_loop env k 0 s1 r of
        (Inl err, s', ds) \<Rightarrow> (Inl err, s', ds)
      | (Inr u, s', ds) \<Rightarrow> let (r, s'', es) = rx_loop env k 0 s' b in (r, s'', ds @ es))"
      if "length r < length a" "skb_wf k s1" for r s1
      using 1(1) that by blast
    note step = rx_loop_unfold [OF assms(1) 2(1)]
      rx_loop_unfold [OF assms(1), of "a @ b" k skb] rx_step_append [OF assms(2) 2(2)]
    show ?thesis
    proof (cases "rx_step env k ?s a")
      case Corrupt
      then show ?thesis using step 2 by simp
    next
      case (Partial s' r)
      then show ?thesis
        using step 2 IH [OF rx_step_progress(1) [OF wf 2(1) Partial] rx_step_wf [OF wf Partial]] by simp
    next
      case (Complete d r)
      have "rx_loop env k 0 None (r @ b) = (case rx_loop env k 0 None r of
          (Inl err, s', ds) \<Rightarrow> (Inl err, s', ds)
        | (Inr u, s', ds) \<Rightarrow> let (r, s'', es) = rx_loop env k 0 s' b in (r, s'', ds @ es))"
        using IH [OF rx_step_progress(2) [OF wf 2(1) Complete], of None] by (simp add: skb_wf_def)
      then show ?thesis
        using step 2 Complete by (auto simp: Let_def case_prod_beta split: sum.split)
    qed
  next
    case 3
    let ?t = "?s\<lparr>rs_data := rs_data ?s @ a, rs_expect := rs_expect ?s - length a\<rparr>"
    have a: "rx_loop env k 0 skb a = (Inr (), Some ?t, [])"
      using rx_loop_unfold [OF assms(1) 3(1)] rx_step_split(1) [OF wf 3(2,1)] by simp
    show ?thesis
    proof (cases "b = []")
      case True
      then show ?thesis by (simp add: a)
    next
      case False
      have "rx_loop env k 0 skb (a @ b) = rx_loop env k 0 (Some ?t) b"
        using rx_loop_unfold [OF assms(1), of "a @ b" k skb] rx_loop_unfold [OF assms(1) False, of k "Some ?t"]
          rx_step_split(2) [OF wf 3(2,1) assms(2)] 3(1) by simp
      then show ?thesis by (simp add: a case_prod_beta)
    qed
  qed
qed

lemma rx_loop_wf:
  assumes "always_alloc env" "skb_wf k skb"
  shows "skb_wf k (fst (snd (rx_loop env k 0 skb buf)))"
  using assms(2)
proof (induction buf arbitrary: skb rule: length_induct)
  case (1 buf)
  let ?s = "skb_or_fresh k skb"
  have wf: "skb_wf k (Some ?s)" by (rule skb_or_fresh_wf [OF 1(2)])
  show ?case
  proof (cases "buf = []")
    case True
    then show ?thesis using 1(2) by simp
  next
    case False
    have none: "skb_wf k None" by (simp add: skb_wf_def)
    show ?thesis
    proof (cases "rx_step env k ?s buf")
      case Corrupt
      then show ?thesis using rx_loop_unfold [OF assms(1) False] none by simp
    next
      case (Partial s' b)
      then show ?thesis
        using rx_loop_unfold [OF assms(1) False, of k skb] 1(1) rx_step_progress(1) [OF wf False Partial]
          rx_step_wf [OF wf Partial] by simp
    next
      case (Complete d b)
      then show ?thesis
        using rx_loop_unfold [OF assms(1) False, of k skb] 1(1) rx_step_progress(2) [OF wf False Complete]
          none by (simp add: case_prod_beta)
    qed
  qed
qed

lemma rx_loop_frame:
  assumes "always_alloc env" "frame_wf env k d"
  shows "rx_loop env k 0 None d = (Inr (), None, [d])"
proof -
  let ?h = "hdr_size k"
  have d: "d \<noteq> []" "?h \<le> length d" "length d = ?h + body_len k d" "\<not> hdr_bad env k (take ?h d)"
    using assms(2) hdr_size_pos [of k] by (auto simp: frame_wf_def)
  note b = body_len_take [OF d(2)]
  show ?thesis
  proof (cases "body_len k d = 0")
    case True
    then show ?thesis
      using rx_loop_unfold [OF assms(1) d(1), of k None] d b by (simp add: rx_step_def fresh_skb_def Let_def)
  next
    case False
    then have "rx_step env k (fresh_skb k) d =
        Partial \<lparr>rs_data = take ?h d, rs_expect = body_len k d\<rparr> (drop ?h d)"
      using d b by (simp add: rx_step_def fresh_skb_def Let_def)
    moreover have "drop ?h d \<noteq> []" using False d(3) by simp
    moreover have "rx_step env k \<lparr>rs_data = take ?h d, rs_expect = body_len k d\<rparr> (drop ?h d) = Complete d []"
      using d b False by (simp add: rx_step_def Let_def)
    ultimately show ?thesis
      using rx_loop_unfold [OF assms(1) d(1), of k None]
        rx_loop_unfold [OF assms(1), of "drop ?h d" k "Some \<lparr>rs_data = take ?h d, rs_expect = body_len k d\<rparr>"]
      by simp
  qed
qed

text \<open>Any kind but events meets the promise, for any chunking.\<close>

definition stream_kind :: "rx_kind \<Rightarrow> rx_kind" where
  "stream_kind k = (if k = Evt then Acl else k)"

lemma stream_kind_not_evt: "stream_kind k \<noteq> Evt"
  by (simp add: stream_kind_def)

definition rx_always :: "bt_core \<Rightarrow> nat \<Rightarrow> rx_env" where
  "rx_always core room = \<lparr>re_core = core, re_room = room, re_alloc = (\<lambda>_. True)\<rparr>"

lemma rx_always_alloc: "always_alloc (rx_always core room)"
  by (simp add: always_alloc_def rx_always_def)

interpretation h4: stream_framing "rx_recv (rx_always core room) (stream_kind k)"
  "skb_wf (stream_kind k)" None "\<lambda>d. d" "frame_wf (rx_always core room) (stream_kind k)" for core room k
proof unfold_locales
  let ?env = "rx_always core room" and ?k = "stream_kind k"
  note al = rx_always_alloc [of core room]
  show "skb_wf ?k None" by (simp add: skb_wf_def)
  show "skb_wf ?k s'" if "skb_wf ?k s" "rx_recv ?env ?k s c = Some (s', ds)" for s c s' ds
    using rx_loop_wf [OF al that(1), of c] that(2) by (auto simp: rx_recv_def split: prod.splits sum.splits)
  show "rx_recv ?env ?k s [] = Some (s, [])" for s
    by (simp add: rx_recv_def)
  show "rx_recv ?env ?k s (a @ b) = (case rx_recv ?env ?k s a of None \<Rightarrow> None
      | Some (s', ds) \<Rightarrow> (case rx_recv ?env ?k s' b of None \<Rightarrow> None | Some (s'', es) \<Rightarrow> Some (s'', ds @ es)))"
    if "skb_wf ?k s" for s a b
    unfolding rx_recv_def rx_loop_append [OF al stream_kind_not_evt that]
    by (auto split: prod.split sum.split)
  show "rx_recv ?env ?k None f = Some (None, [f])" if "frame_wf ?env ?k f" for f
    using rx_loop_frame [OF al that] by (simp add: rx_recv_def)
qed

section \<open>What the driver delivers\<close>

text \<open>The bulk endpoint fed chunk by chunk, until an error.\<close>

fun bulk_chunks :: "rx_env \<Rightarrow> btusb_rx \<Rightarrow> u8 list list \<Rightarrow> unit res \<times> btusb_rx" where
  "bulk_chunks env data [] = (Inr (), data)"
| "bulk_chunks env data (c # cs) =
     (case btusb_recv_bulk env data c of
        (Inl err, data) \<Rightarrow> (Inl err, data) | (Inr u, data) \<Rightarrow> bulk_chunks env data cs)"

lemma fold_deliver:
  "fold (deliver k) ds data = data\<lparr>bu_delivered := bu_delivered data @ map (Pair k) ds\<rparr>"
  by (induction ds arbitrary: data) (simp_all add: deliver_def)

lemma fold_recv_acl_direct:
  "bu_intr_interval data = 0 \<Longrightarrow>
    fold btusb_recv_acl ds data = data\<lparr>bu_delivered := bu_delivered data @ map (Pair Acl) ds\<rparr>"
  by (induction ds arbitrary: data) (simp_all add: btusb_recv_acl_def deliver_def)

lemma bulk_chunks_feed:
  assumes "bu_intr_interval data = 0"
    and "feed (rx_recv env Acl) (bu_acl_skb data) cs = Some (skb, ds)"
  shows "bulk_chunks env data cs =
    (Inr (), data\<lparr>bu_delivered := bu_delivered data @ map (Pair Acl) ds, bu_acl_skb := skb\<rparr>)"
  using assms
proof (induction cs arbitrary: data ds)
  case Nil
  then show ?case by simp
next
  case (Cons c cs)
  from Cons.prems(2) obtain s1 d1 d2 where c: "rx_recv env Acl (bu_acl_skb data) c = Some (s1, d1)"
    and cs: "feed (rx_recv env Acl) s1 cs = Some (skb, d2)" and ds: "ds = d1 @ d2"
    by (auto split: option.splits)
  then have "btusb_recv_bulk env data c =
      (Inr (), data\<lparr>bu_delivered := bu_delivered data @ map (Pair Acl) d1, bu_acl_skb := s1\<rparr>)"
    using fold_recv_acl_direct [OF Cons.prems(1)]
    by (auto simp: btusb_recv_bulk_def rx_recv_def split: prod.splits sum.splits)
  then show ?case using Cons.IH [of _ d2] Cons.prems(1) cs ds by simp
qed

text \<open>
  C14: The boundaries of USB transfers do not matter on the bulk endpoint: however the bytes of
  a sequence of well-formed ACL packets are cut into transfers, the driver delivers exactly
  these packets, in order, and is idle again.
\<close>

theorem acl_any_chunking:
  assumes "bu_intr_interval data = 0" "bu_acl_skb data = None"
    and "list_all (frame_wf (rx_always core room) Acl) ps" and "concat chunks = concat ps"
  shows "bulk_chunks (rx_always core room) data chunks =
    (Inr (), data\<lparr>bu_delivered := bu_delivered data @ map (Pair Acl) ps\<rparr>)"
proof -
  have "feed (rx_recv (rx_always core room) Acl) None chunks = Some (None, ps)"
    using h4.any_chunking [of core room Acl ps chunks] assms(3,4) by (simp add: stream_kind_def)
  then show ?thesis
    using bulk_chunks_feed [OF assms(1), of "rx_always core room" chunks None ps] assms(2) by simp
qed

definition demo_rx :: btusb_rx where
  "demo_rx = \<lparr>bu_evt_skb = None, bu_acl_skb = None, bu_sco_skb = None, bu_intr_interval = 0,
     bu_acl_q = [], bu_rx_work = None, bu_delivered = []\<rparr>"

definition demo_core :: bt_core where
  "demo_core = \<lparr>bc_user_channel = False, bc_conn_type = (\<lambda>_. Other_link)\<rparr>"

theorem acl_any_chunking_witness:
  "bulk_chunks (rx_always demo_core 1028) demo_rx [[1, 0, 2], [0, 7], [8, 1, 0, 0, 0]] =
    (Inr (), demo_rx\<lparr>bu_delivered := [(Acl, [1, 0, 2, 0, 7, 8]), (Acl, [1, 0, 0, 0])]\<rparr>)"
proof -
  have "list_all (frame_wf (rx_always demo_core 1028) Acl) [[1, 0, 2, 0, 7, 8], [1, 0, 0, 0]]"
    by (simp add: frame_wf_def hdr_size_def body_len_def get_le16_def hdr_bad_def rx_always_def)
  then show ?thesis
    using acl_any_chunking [of demo_rx demo_core 1028 "[[1, 0, 2, 0, 7, 8], [1, 0, 0, 0]]"
        "[[1, 0, 2], [0, 7], [8, 1, 0, 0, 0]]"] by (simp add: demo_rx_def)
qed

text \<open>One whole event at the head of a transfer.\<close>

definition evt_rest :: "u8 list \<Rightarrow> u8 list" where
  "evt_rest buf = (if length buf < 2 then [] else buf)"

lemma rx_loop_evt:
  assumes "always_alloc env" "frame_wf env Evt d"
  shows "rx_loop env Evt 0 None (d @ buf) =
    (let (r, skb, ds) = rx_loop env Evt 0 None (evt_rest buf) in (r, skb, d # ds))"
proof -
  have d: "d \<noteq> []" "2 \<le> length d" "length d = 2 + body_len Evt d" "\<not> hdr_bad env Evt (take 2 d)"
    using assms(2) by (auto simp: frame_wf_def hdr_size_def)
  have b: "body_len Evt (take 2 d) = body_len Evt d"
    using body_len_take [of Evt d] d(2) by (simp add: hdr_size_def)
  have ne: "d @ buf \<noteq> []" using d(1) by simp
  note u = rx_loop_unfold [OF assms(1) ne, of Evt None]
  show ?thesis
  proof (cases "body_len Evt d = 0")
    case True
    then have "rx_step env Evt (fresh_skb Evt) (d @ buf) = Complete d (evt_rest buf)"
      using d b by (simp add: rx_step_def fresh_skb_def Let_def hdr_size_def evt_rest_def)
    then show ?thesis using u by simp
  next
    case False
    have len: "length d - 2 = body_len Evt d" using d(3) by simp
    have "rx_step env Evt (fresh_skb Evt) (d @ buf) =
        Partial \<lparr>rs_data = take 2 d, rs_expect = body_len Evt d\<rparr> (drop 2 d @ buf)"
      using d b False by (simp add: rx_step_def fresh_skb_def Let_def hdr_size_def min_def)
    moreover have "drop 2 d @ buf \<noteq> []" using False d(3) by simp
    moreover have "rx_step env Evt \<lparr>rs_data = take 2 d, rs_expect = body_len Evt d\<rparr> (drop 2 d @ buf) =
        Complete d (evt_rest buf)"
      using d(2,3) False len by (simp add: rx_step_def Let_def hdr_size_def evt_rest_def min_def)
    ultimately show ?thesis
      using u rx_loop_unfold [OF assms(1), of "drop 2 d @ buf" Evt
          "Some \<lparr>rs_data = take 2 d, rs_expect = body_len Evt d\<rparr>"] by simp
  qed
qed

lemma rx_loop_evts:
  assumes "always_alloc env" "list_all (frame_wf env Evt) es" "es \<noteq> []" "length rest < 2"
  shows "rx_loop env Evt 0 None (concat es @ rest) = (Inr (), None, es)"
  using assms(2,3)
proof (induction es)
  case Nil
  then show ?case by simp
next
  case (Cons d es)
  show ?case
  proof (cases "es = []")
    case True
    then show ?thesis using rx_loop_evt [OF assms(1), of d rest] Cons.prems(1) assms(4) by (simp add: evt_rest_def)
  next
    case False
    have "2 \<le> length (concat es @ rest)"
      using False Cons.prems(1) by (cases es) (auto simp: frame_wf_def hdr_size_def)
    then have "evt_rest (concat es @ rest) = concat es @ rest" by (simp add: evt_rest_def)
    then show ?thesis
      using rx_loop_evt [OF assms(1), of d "concat es @ rest"] Cons.IH [OF _ False] Cons.prems(1) by simp
  qed
qed

text \<open>
  Events resynchronise at every interrupt transfer: a transfer of whole events delivers
  them in order, and a rest too short for an event header is dropped, so that the next transfer
  starts with a new event. An event that announces more than the buffer can hold ends the
  transfer with an error, and what was received of it is dropped too.
\<close>

theorem intr_resynchronises:
  assumes "always_alloc env" "bu_intr_interval data = 0" "bu_evt_skb data = None"
    and "list_all (frame_wf env Evt) es" "es \<noteq> []" "length rest < 2"
    and "2 \<le> re_room env" "re_room env < 2 + unat n"
  shows "btusb_recv_intr env data (concat es @ rest) =
      (Inr (), data\<lparr>bu_delivered := bu_delivered data @ map (Pair Evt) es\<rparr>)
    \<and> btusb_recv_intr env data ([c, n] @ body) = (Inl EILSEQ, data)"
proof -
  have ev: "fold btusb_recv_event ds data =
      data\<lparr>bu_delivered := bu_delivered data @ map (Pair Evt) ds\<rparr>" for ds
    using assms(2)
    by (induction ds arbitrary: data) (simp_all add: btusb_recv_event_def deliver_def)
  have "rx_step env Evt (fresh_skb Evt) ([c, n] @ body) = Corrupt"
    using assms(7,8) by (auto simp: rx_step_def fresh_skb_def Let_def hdr_size_def hdr_bad_def body_len_def min_def)
  then have "rx_loop env Evt 0 None ([c, n] @ body) = (Inl EILSEQ, None, [])"
    using rx_loop_unfold [OF assms(1), of "[c, n] @ body" Evt None] by simp
  then show ?thesis
    using rx_loop_evts [OF assms(1,4,5,6)] ev assms(3) by (simp add: btusb_recv_intr_def)
qed

theorem intr_resynchronises_witness:
  "btusb_recv_intr (rx_always demo_core 100) demo_rx [5, 1, 9, 6, 0, 4] =
     (Inr (), demo_rx\<lparr>bu_delivered := [(Evt, [5, 1, 9]), (Evt, [6, 0])]\<rparr>)
   \<and> btusb_recv_intr (rx_always demo_core 100) demo_rx [5, 200, 1] = (Inl EILSEQ, demo_rx)"
proof -
  have "list_all (frame_wf (rx_always demo_core 100) Evt) [[5, 1, 9], [6, 0]]"
    by (simp add: frame_wf_def hdr_size_def body_len_def hdr_bad_def rx_always_def)
  then show ?thesis
    using intr_resynchronises [OF rx_always_alloc [of demo_core 100], of demo_rx "[[5, 1, 9], [6, 0]]" "[4]" 200 5 "[1]"]
    by (simp add: demo_rx_def rx_always_def)
qed

end
