(* ===== verification/BtUsbTx.thy ===== *)
theory BtUsbTx
  imports Mt76Prelude "HOL-Library.Multiset" "HOL-Library.Sublist"
begin

text \<open>
  Transmission and power management of src/src/bluetooth/btusb.c: frames become USB requests that
  are submitted at once, or deferred while the device is suspending and replayed when it
  resumes. The results of \<open>usb_submit_urb\<close> and of the allocations are parameters. The histories
  \<open>bx_sent\<close> (requests handed to \<open>submit_or_queue_tx_urb\<close>), \<open>bx_hw\<close> (accepted by the host
  controller) and \<open>bx_dropped\<close> do not exist in the driver; they let the theorems say that no
  request is lost or reordered. SCO requests go around the deferral and its counter.
\<close>

section \<open>State\<close>

record tx_urb =
  ur_id :: nat
  ur_isoc :: bool

record bt_tx =
  bx_running :: bool
  bx_suspending :: bool
  bx_suspend_count :: int
  bx_in_flight :: int
  bx_anchored :: "tx_urb list"
  bx_deferred :: "tx_urb list"
  bx_intr_running :: bool
  bx_bulk_running :: bool
  bx_isoc_running :: bool
  bx_rx_urbs :: nat
  bx_oob_irq :: bool
  bx_oob_enabled :: bool
  bx_wakeup_autosuspend :: bool
  bx_remote_wakeup :: bool
  bx_reset_resume :: bool
  bx_waker :: nat
  bx_work :: nat
  bx_sent :: "tx_urb list"
  bx_hw :: "tx_urb list"
  bx_dropped :: "tx_urb list"
  bx_failed :: nat

section \<open>Submitting\<close>

text \<open>\<open>accepted\<close> is whether \<open>usb_submit_urb\<close> returned a non-negative result.\<close>

definition submit_tx_urb :: "bool \<Rightarrow> tx_urb \<Rightarrow> bt_tx \<Rightarrow> bool \<times> bt_tx" where
  "submit_tx_urb accepted u s =
     (let s = s\<lparr>bx_anchored := bx_anchored s @ [u]\<rparr> in
      if accepted then (True, s\<lparr>bx_hw := bx_hw s @ [u]\<rparr>)
      else (False, s\<lparr>bx_anchored := butlast (bx_anchored s), bx_dropped := bx_dropped s @ [u]\<rparr>))"

definition submit_or_queue_tx_urb :: "bool \<Rightarrow> tx_urb \<Rightarrow> bt_tx \<Rightarrow> bool \<times> bt_tx" where
  "submit_or_queue_tx_urb accepted u s =
     (let s = s\<lparr>bx_sent := bx_sent s @ [u]\<rparr> in
      if \<not> bx_suspending s then
        let s = s\<lparr>bx_in_flight := bx_in_flight s + 1\<rparr>;
            (ok, s) = submit_tx_urb accepted u s
        in (ok, if ok then s else s\<lparr>bx_failed := bx_failed s + 1\<rparr>)
      else (True, s\<lparr>bx_deferred := bx_deferred s @ [u], bx_waker := bx_waker s + 1\<rparr>))"

datatype hci_pkt = Command_pkt | Acldata_pkt | Scodata_pkt | Isodata_pkt | Other_pkt

text \<open>
  \<open>alloc\<close> is the error of the request's allocation, if any; \<open>user\<close> and \<open>sco_links\<close> are what the
  core says of the channel; the result counts which statistic was raised.
\<close>

datatype hci_stat = Cmd_tx | Acl_tx | Sco_tx

definition btusb_send_frame ::
  "errno option \<Rightarrow> bool \<Rightarrow> nat \<Rightarrow> bool \<Rightarrow> hci_pkt \<Rightarrow> nat \<Rightarrow> bt_tx \<Rightarrow> unit res \<times> hci_stat option \<times> bt_tx" where
  "btusb_send_frame alloc user sco_links accepted pkt i s =
     (let queue = (\<lambda>stat. case alloc of
            Some err \<Rightarrow> (Inl err, None, s)
          | None \<Rightarrow> (case submit_or_queue_tx_urb accepted \<lparr>ur_id = i, ur_isoc = False\<rparr> s of
              (ok, s) \<Rightarrow> (if ok then Inr () else Inl EIO, stat, s)))
      in case pkt of
           Command_pkt \<Rightarrow> queue (Some Cmd_tx)
         | Acldata_pkt \<Rightarrow> queue (Some Acl_tx)
         | Scodata_pkt \<Rightarrow>
             if \<not> user \<and> sco_links < 1 then (Inl ENODEV, None, s)
             else (case alloc of
                 Some err \<Rightarrow> (Inl err, None, s)
               | None \<Rightarrow> (case submit_tx_urb accepted \<lparr>ur_id = i, ur_isoc = True\<rparr> s of
                   (ok, s) \<Rightarrow> (if ok then Inr () else Inl EIO, Some Sco_tx, s)))
         | Isodata_pkt \<Rightarrow> queue None
         | Other_pkt \<Rightarrow> (Inl EILSEQ, None, s))"

text \<open>
  The completion of a request: \<open>btusb_tx_complete\<close> for control and bulk requests,
  \<open>btusb_isoc_tx_complete\<close>, which does not count, for SCO.
\<close>

definition btusb_tx_complete :: "tx_urb \<Rightarrow> bt_tx \<Rightarrow> bt_tx" where
  "btusb_tx_complete u s = s\<lparr>bx_in_flight := bx_in_flight s - 1, bx_anchored := remove1 u (bx_anchored s)\<rparr>"

definition btusb_isoc_tx_complete :: "tx_urb \<Rightarrow> bt_tx \<Rightarrow> bt_tx" where
  "btusb_isoc_tx_complete u s = s\<lparr>bx_anchored := remove1 u (bx_anchored s)\<rparr>"

definition urb_complete :: "tx_urb \<Rightarrow> bt_tx \<Rightarrow> bt_tx" where
  "urb_complete u s = (if ur_isoc u then btusb_isoc_tx_complete u s else btusb_tx_complete u s)"

definition kill_anchored :: "bt_tx \<Rightarrow> bt_tx" where
  "kill_anchored s = fold urb_complete (bx_anchored s) s"

section \<open>Power management\<close>

definition scuttle_deferred :: "bt_tx \<Rightarrow> bt_tx" where
  "scuttle_deferred s = s\<lparr>bx_dropped := bx_dropped s @ bx_deferred s, bx_deferred := []\<rparr>"

definition btusb_stop_traffic :: "bt_tx \<Rightarrow> bt_tx" where
  "btusb_stop_traffic s = s\<lparr>bx_rx_urbs := 0\<rparr>"

text \<open>\<open>PMSG_IS_AUTO\<close>, the number of connections, and what the USB core says about wake-up.\<close>

definition btusb_suspend :: "bool \<Rightarrow> nat \<Rightarrow> bool \<Rightarrow> bool \<Rightarrow> bt_tx \<Rightarrow> unit res \<times> bt_tx" where
  "btusb_suspend auto_pm conns may_wakeup can_wakeup s =
     (if auto_pm \<and> conns \<noteq> 0 then (Inl EBUSY, s)
      else let count = bx_suspend_count s; s = s\<lparr>bx_suspend_count := count + 1\<rparr>
      in if count \<noteq> 0 then (Inr (), s)
         else if auto_pm \<and> bx_in_flight s \<noteq> 0
         then (Inl EBUSY, s\<lparr>bx_suspend_count := bx_suspend_count s - 1\<rparr>)
         else let s = s\<lparr>bx_suspending := True\<rparr>;
                  s = kill_anchored (btusb_stop_traffic s);
                  s = (if bx_oob_irq s \<and> may_wakeup then s\<lparr>bx_oob_enabled := True\<rparr> else s);
                  s = (if \<not> bx_wakeup_autosuspend s then s
                       else if auto_pm \<and> can_wakeup then s\<lparr>bx_remote_wakeup := True\<rparr>
                       else if \<not> auto_pm \<and> \<not> may_wakeup
                       then s\<lparr>bx_remote_wakeup := False, bx_reset_resume := True\<rparr> else s)
              in (Inr (), s))"

text \<open>The replay stops at the first request that is refused; that one and the rest are freed.\<close>

fun play_loop :: "(tx_urb \<Rightarrow> bool) \<Rightarrow> tx_urb list \<Rightarrow> bt_tx \<Rightarrow> bt_tx" where
  "play_loop acc [] s = s"
| "play_loop acc (u # us) s =
     (let s = s\<lparr>bx_deferred := us, bx_anchored := bx_anchored s @ [u]\<rparr> in
      if \<not> acc u then scuttle_deferred
          (s\<lparr>bx_anchored := butlast (bx_anchored s), bx_dropped := bx_dropped s @ [u]\<rparr>)
      else play_loop acc us (s\<lparr>bx_in_flight := bx_in_flight s + 1, bx_hw := bx_hw s @ [u]\<rparr>))"

definition play_deferred :: "(tx_urb \<Rightarrow> bool) \<Rightarrow> bt_tx \<Rightarrow> bt_tx" where
  "play_deferred acc s = play_loop acc (bx_deferred s) s"

text \<open>
  \<open>rx i\<close> is whether the submission of a receive request succeeds: interrupt 0, bulk 1 and 2,
  isochronous 3 and 4.
\<close>

definition rx_submit :: "bool \<Rightarrow> bt_tx \<Rightarrow> bt_tx" where
  "rx_submit ok s = (if ok then s\<lparr>bx_rx_urbs := bx_rx_urbs s + 1\<rparr> else s)"

definition resume_failed :: "bt_tx \<Rightarrow> bt_tx" where
  "resume_failed s = (scuttle_deferred s)\<lparr>bx_suspending := False\<rparr>"

definition resume_isoc :: "(nat \<Rightarrow> bool) \<Rightarrow> (tx_urb \<Rightarrow> bool) \<Rightarrow> bt_tx \<Rightarrow> unit res \<times> bt_tx" where
  "resume_isoc rx acc s =
     (let s = (if \<not> bx_isoc_running s then s
               else if \<not> rx 3 then s\<lparr>bx_isoc_running := False\<rparr>
               else rx_submit (rx 4) (rx_submit True s));
          s = (play_deferred acc s)\<lparr>bx_suspending := False\<rparr>
      in (Inr (), s\<lparr>bx_work := bx_work s + 1\<rparr>))"

definition resume_bulk :: "(nat \<Rightarrow> bool) \<Rightarrow> (tx_urb \<Rightarrow> bool) \<Rightarrow> bt_tx \<Rightarrow> unit res \<times> bt_tx" where
  "resume_bulk rx acc s =
     (if \<not> bx_bulk_running s then resume_isoc rx acc s
      else if \<not> rx 1 then (Inl EIO, resume_failed (s\<lparr>bx_bulk_running := False\<rparr>))
      else resume_isoc rx acc (rx_submit (rx 2) (rx_submit True s)))"

definition btusb_resume :: "(nat \<Rightarrow> bool) \<Rightarrow> (tx_urb \<Rightarrow> bool) \<Rightarrow> bt_tx \<Rightarrow> unit res \<times> bt_tx" where
  "btusb_resume rx acc s =
     (let s = s\<lparr>bx_suspend_count := bx_suspend_count s - 1\<rparr> in
      if bx_suspend_count s \<noteq> 0 then (Inr (), s)
      else let s = s\<lparr>bx_oob_enabled := False\<rparr> in
        if \<not> bx_running s then (Inr (), s\<lparr>bx_suspending := False\<rparr>)
        else if \<not> bx_intr_running s then resume_bulk rx acc s
        else if \<not> rx 0 then (Inl EIO, resume_failed (s\<lparr>bx_intr_running := False\<rparr>))
        else resume_bulk rx acc (rx_submit True s))"

text \<open>
  Closing: the core has stopped the device before it calls the driver. What is left of
  \<open>btusb_close\<close> here is the end of the receive traffic and of the deferred requests.
\<close>

definition btusb_close :: "bt_tx \<Rightarrow> bt_tx" where
  "btusb_close s = scuttle_deferred (btusb_stop_traffic
     (s\<lparr>bx_running := False, bx_isoc_running := False, bx_bulk_running := False, bx_intr_running := False\<rparr>))"

definition btusb_flush :: "bt_tx \<Rightarrow> bt_tx" where
  "btusb_flush s = kill_anchored s"

section \<open>The system\<close>

text \<open>
  What can happen: the core sends frames while the device runs and closes or opens it, the host
  controller completes requests that it holds, and the USB core suspends and resumes, balanced.
\<close>

inductive bt_step :: "bt_tx \<Rightarrow> bt_tx \<Rightarrow> bool" where
  bt_send: "bx_running s \<Longrightarrow> btusb_send_frame alloc user links accepted pkt i s = (r, stat, t) \<Longrightarrow> bt_step s t"
| bt_complete: "u \<in> set (bx_anchored s) \<Longrightarrow> bt_step s (urb_complete u s)"
| bt_suspend: "bt_step s (snd (btusb_suspend auto_pm conns may can s))"
| bt_resume: "0 < bx_suspend_count s \<Longrightarrow> bt_step s (snd (btusb_resume rx acc s))"
| bt_flush: "bt_step s (btusb_flush s)"
| bt_close: "bt_step s (btusb_close s)"
| bt_open: "bt_step s (s\<lparr>bx_running := True, bx_intr_running := i, bx_bulk_running := b\<rparr>)"

definition bt_init :: "bt_tx \<Rightarrow> bool" where
  "bt_init s \<longleftrightarrow> \<not> bx_suspending s \<and> bx_suspend_count s = 0 \<and> bx_in_flight s = 0 \<and> bx_anchored s = []
     \<and> bx_deferred s = [] \<and> bx_sent s = [] \<and> bx_hw s = [] \<and> bx_dropped s = [] \<and> bx_failed s = 0"

text \<open>The requests that the counter counts.\<close>

abbreviation counted :: "tx_urb list \<Rightarrow> tx_urb list" where
  "counted us \<equiv> filter (\<lambda>u. \<not> ur_isoc u) us"

text \<open>
  The ledger: what went to the host controller and what is deferred is in the order of sending,
  every request is in one place, and the counter is off by the submissions that failed.
\<close>

definition ledger :: "tx_urb list \<Rightarrow> tx_urb list \<Rightarrow> tx_urb list \<Rightarrow> tx_urb list \<Rightarrow> bool" where
  "ledger sent hw deferred dropped \<longleftrightarrow> subseq (counted hw @ deferred) sent
     \<and> mset sent = mset (counted hw) + mset deferred + mset (counted dropped)
     \<and> list_all (\<lambda>u. \<not> ur_isoc u) deferred"

definition bt_ok :: "bt_tx \<Rightarrow> bool" where
  "bt_ok s \<longleftrightarrow> ledger (bx_sent s) (bx_hw s) (bx_deferred s) (bx_dropped s)
     \<and> (\<not> bx_suspending s \<or> \<not> bx_running s \<longrightarrow> bx_deferred s = [])
     \<and> bx_in_flight s = int (length (counted (bx_anchored s))) + int (bx_failed s)"

lemma bt_init_ok: "bt_init s \<Longrightarrow> bt_ok s"
  by (simp add: bt_init_def bt_ok_def ledger_def)

text \<open>Moves of the ledger.\<close>

lemma ledger_hw:
  "ledger sent hw [] dropped \<Longrightarrow> \<not> ur_isoc u \<Longrightarrow> ledger (sent @ [u]) (hw @ [u]) [] dropped"
  by (simp add: ledger_def list_emb_append_mono)

lemma ledger_hw_isoc: "ledger sent hw ds dropped \<Longrightarrow> ur_isoc u \<Longrightarrow> ledger sent (hw @ [u]) ds dropped"
  by (simp add: ledger_def)

lemma ledger_drop_isoc: "ledger sent hw ds dropped \<Longrightarrow> ur_isoc u \<Longrightarrow> ledger sent hw ds (dropped @ [u])"
  by (simp add: ledger_def)

lemma ledger_drop:
  "ledger sent hw ds dropped \<Longrightarrow> \<not> ur_isoc u \<Longrightarrow> ledger (sent @ [u]) hw ds (dropped @ [u])"
  by (simp add: ledger_def subseq_rev_drop_many)

lemma ledger_defer:
  "ledger sent hw ds dropped \<Longrightarrow> \<not> ur_isoc u \<Longrightarrow> ledger (sent @ [u]) hw (ds @ [u]) dropped"
  using list_emb_append_mono [of "(=)" "counted hw @ ds" sent "[u]" "[u]"] by (simp add: ledger_def)

lemma ledger_replay: "ledger sent hw (u # ds) dropped \<Longrightarrow> ledger sent (hw @ [u]) ds dropped"
  by (simp add: ledger_def)

lemma ledger_scuttle: "ledger sent hw ds dropped \<Longrightarrow> ledger sent hw [] (dropped @ ds)"
proof -
  assume l: "ledger sent hw ds dropped"
  have "filter (\<lambda>u. \<not> ur_isoc u) ds = ds"
    using l by (simp add: ledger_def filter_id_conv list_all_iff)
  moreover have "subseq (counted hw) sent"
    using l subseq_order.trans [of "counted hw" "counted hw @ ds" sent] by (auto simp: ledger_def)
  ultimately show ?thesis using l by (simp add: ledger_def)
qed

lemma ledger_drop_head: "ledger sent hw (u # ds) dropped \<Longrightarrow> ledger sent hw ds (dropped @ [u])"
proof -
  assume l: "ledger sent hw (u # ds) dropped"
  have "subseq (counted hw @ ds) (counted hw @ u # ds)" by (rule list_emb_append_mono) auto
  then show ?thesis using l subseq_order.trans by (auto simp: ledger_def)
qed

lemma counted_remove1:
  "u \<in> set us \<Longrightarrow> int (length (counted (remove1 u us))) =
     int (length (counted us)) - (if ur_isoc u then 0 else 1)"
  by (induction us) auto

lemma urb_complete_ok: "u \<in> set (bx_anchored s) \<Longrightarrow> bt_ok s \<Longrightarrow> bt_ok (urb_complete u s)"
  by (auto simp: bt_ok_def urb_complete_def btusb_tx_complete_def btusb_isoc_tx_complete_def
      counted_remove1)

lemma kill_effect:
  "bx_anchored s = us @ vs \<Longrightarrow> fold urb_complete us s =
     s\<lparr>bx_in_flight := bx_in_flight s - int (length (counted us)), bx_anchored := vs\<rparr>"
proof (induction us arbitrary: s)
  case Nil
  then show ?case by simp
next
  case (Cons u us)
  have "bx_anchored (urb_complete u s) = us @ vs"
    using Cons.prems by (simp add: urb_complete_def btusb_tx_complete_def btusb_isoc_tx_complete_def)
  from Cons.IH [OF this] show ?case
    by (simp add: urb_complete_def btusb_tx_complete_def btusb_isoc_tx_complete_def)
qed

lemma kill_anchored_eq:
  "kill_anchored s = s\<lparr>bx_in_flight := bx_in_flight s - int (length (counted (bx_anchored s))), bx_anchored := []\<rparr>"
  using kill_effect [of s "bx_anchored s" "[]"] by (simp add: kill_anchored_def)

lemma submit_ok:
  assumes "bt_ok s" "bx_running s"
  shows "\<not> ur_isoc u \<Longrightarrow> bt_ok (snd (submit_or_queue_tx_urb accepted u s))"
    and "ur_isoc u \<Longrightarrow> bt_ok (snd (submit_tx_urb accepted u s))"
  using assms
  by (auto simp: bt_ok_def submit_or_queue_tx_urb_def submit_tx_urb_def Let_def
      intro: ledger_hw ledger_drop ledger_defer ledger_hw_isoc ledger_drop_isoc)

lemma send_frame_ok:
  assumes "bt_ok s" "bx_running s"
    and "btusb_send_frame alloc user links accepted pkt i s = (r, stat, t)"
  shows "bt_ok t"
  using assms(3) submit_ok [OF assms(1,2)] assms(1)
  by (auto simp: btusb_send_frame_def split: hci_pkt.splits option.splits if_splits prod.splits)
    (metis snd_conv tx_urb.select_convs(2))+

lemma play_loop_ok:
  assumes "ledger (bx_sent s) (bx_hw s) us (bx_dropped s)" "bx_deferred s = us"
    and "bx_in_flight s = int (length (counted (bx_anchored s))) + int (bx_failed s)"
  shows "ledger (bx_sent (play_loop acc us s)) (bx_hw (play_loop acc us s)) [] (bx_dropped (play_loop acc us s))
    \<and> bx_deferred (play_loop acc us s) = []
    \<and> bx_in_flight (play_loop acc us s) =
        int (length (counted (bx_anchored (play_loop acc us s)))) + int (bx_failed (play_loop acc us s))"
  using assms
proof (induction us arbitrary: s)
  case Nil
  then show ?case by simp
next
  case (Cons u us)
  have u: "\<not> ur_isoc u" using Cons.prems(1) by (simp add: ledger_def)
  show ?case
  proof (cases "acc u")
    case True
    then show ?thesis
      using Cons.IH [of "s\<lparr>bx_deferred := us, bx_anchored := bx_anchored s @ [u],
          bx_in_flight := bx_in_flight s + 1, bx_hw := bx_hw s @ [u]\<rparr>"] Cons.prems u
        ledger_replay [OF Cons.prems(1)] by (simp add: Let_def)
  next
    case False
    then show ?thesis
      using Cons.prems ledger_scuttle [OF ledger_drop_head [OF Cons.prems(1)]]
      by (simp add: Let_def scuttle_deferred_def)
  qed
qed

lemma play_deferred_ok:
  assumes "bt_ok s"
  shows "bt_ok ((play_deferred acc s)\<lparr>bx_suspending := False, bx_work := n\<rparr>)"
  using play_loop_ok [of s "bx_deferred s" acc] assms by (simp add: play_deferred_def bt_ok_def)

lemma bt_ok_other:
  "bt_ok (s\<lparr>bx_isoc_running := a\<rparr>) = bt_ok s" "bt_ok (s\<lparr>bx_bulk_running := a\<rparr>) = bt_ok s"
  "bt_ok (s\<lparr>bx_intr_running := a\<rparr>) = bt_ok s" "bt_ok (s\<lparr>bx_rx_urbs := n\<rparr>) = bt_ok s"
  "bt_ok (s\<lparr>bx_oob_enabled := a\<rparr>) = bt_ok s" "bt_ok (s\<lparr>bx_suspend_count := c\<rparr>) = bt_ok s"
  "bt_ok (s\<lparr>bx_remote_wakeup := a\<rparr>) = bt_ok s" "bt_ok (s\<lparr>bx_reset_resume := a\<rparr>) = bt_ok s"
  by (simp_all add: bt_ok_def)

lemma resume_failed_ok: "bt_ok s \<Longrightarrow> bt_ok (resume_failed s)"
  by (auto simp: bt_ok_def resume_failed_def scuttle_deferred_def intro: ledger_scuttle)

lemma resume_isoc_ok: "bt_ok s \<Longrightarrow> bt_ok (snd (resume_isoc rx acc s))"
  by (simp add: resume_isoc_def Let_def rx_submit_def play_deferred_ok bt_ok_other)

lemma resume_bulk_ok: "bt_ok s \<Longrightarrow> bt_ok (snd (resume_bulk rx acc s))"
  by (simp add: resume_bulk_def rx_submit_def resume_isoc_ok resume_failed_ok bt_ok_other)

lemma bt_ok_stopped: "bt_ok s \<Longrightarrow> \<not> bx_running s \<Longrightarrow> bt_ok (s\<lparr>bx_suspending := False\<rparr>)"
  by (auto simp: bt_ok_def)

lemma resume_ok: "bt_ok s \<Longrightarrow> bt_ok (snd (btusb_resume rx acc s))"
  by (simp add: btusb_resume_def Let_def rx_submit_def resume_bulk_ok resume_failed_ok bt_ok_other
      bt_ok_stopped)

lemma kill_ok: "bt_ok s \<Longrightarrow> bt_ok (kill_anchored s)"
  by (simp add: kill_anchored_eq bt_ok_def)

lemma bt_ok_suspending: "bt_ok s \<Longrightarrow> bt_ok (s\<lparr>bx_suspending := True\<rparr>)"
  by (auto simp: bt_ok_def)

lemma suspend_ok: "bt_ok s \<Longrightarrow> bt_ok (snd (btusb_suspend auto_pm c m w s))"
  by (simp add: btusb_suspend_def Let_def bt_ok_other kill_ok btusb_stop_traffic_def bt_ok_suspending)

lemma close_ok: "bt_ok s \<Longrightarrow> bt_ok (btusb_close s)"
  by (auto simp: bt_ok_def btusb_close_def scuttle_deferred_def btusb_stop_traffic_def intro: ledger_scuttle)

inductive_cases bt_stepE: "bt_step s t"

lemma bt_step_ok: "bt_ok s \<Longrightarrow> bt_step s t \<Longrightarrow> bt_ok t"
  by (erule bt_stepE)
    (auto simp: btusb_flush_def intro: send_frame_ok urb_complete_ok suspend_ok resume_ok kill_ok close_ok,
      auto simp: bt_ok_def)

interpretation btx: state_machine bt_init bt_step bt_ok
  by unfold_locales (auto intro: bt_init_ok bt_step_ok)

section \<open>Properties\<close>

text \<open>
  C15: However sending, completion, suspend, resume, flush and close interleave, no request is
  lost silently, duplicated or overtaken: the counted requests accepted by the host controller,
  followed by the deferred ones, are in the order of sending; and every request sent is
  accepted, deferred, or dropped, exactly one of them. The driver's counter of requests in
  flight is their number plus the number of submissions that were refused.
\<close>

theorem requests_conserved:
  assumes "reachable bt_init bt_step s"
  shows "subseq (counted (bx_hw s) @ bx_deferred s) (bx_sent s)
    \<and> mset (bx_sent s) = mset (counted (bx_hw s)) + mset (bx_deferred s) + mset (counted (bx_dropped s))
    \<and> bx_in_flight s = int (length (counted (bx_anchored s))) + int (bx_failed s)"
  using btx.reachable_inv [OF assms] by (simp add: bt_ok_def ledger_def)

text \<open>
  A refused submission pins the device: \<open>submit_or_queue_tx_urb\<close> counts a request before
  submitting it and nothing takes the count back when the submission fails, so from then on
  every automatic suspend is refused, even with nothing in flight.
\<close>

theorem refused_submission_blocks_autosuspend:
  assumes "reachable bt_init bt_step s" "0 < bx_failed s" "bx_suspend_count s = 0"
  shows "btusb_suspend True conns may_wakeup can_wakeup s = (Inl EBUSY, s)"
proof -
  have "bx_in_flight s \<noteq> 0" using btx.reachable_inv [OF assms(1)] assms(2) by (simp add: bt_ok_def)
  then show ?thesis using assms(3) by (simp add: btusb_suspend_def Let_def)
qed

definition demo_bt :: bt_tx where
  "demo_bt = \<lparr>bx_running = True, bx_suspending = False, bx_suspend_count = 0, bx_in_flight = 0,
     bx_anchored = [], bx_deferred = [], bx_intr_running = True, bx_bulk_running = False,
     bx_isoc_running = False, bx_rx_urbs = 0, bx_oob_irq = False, bx_oob_enabled = False,
     bx_wakeup_autosuspend = False, bx_remote_wakeup = False, bx_reset_resume = False,
     bx_waker = 0, bx_work = 0, bx_sent = [], bx_hw = [], bx_dropped = [], bx_failed = 0\<rparr>"

text \<open>A suspend with a frame deferred, and a frame whose submission is refused.\<close>

definition demo_deferred :: bt_tx where
  "demo_deferred = snd (snd (btusb_send_frame None False 0 True Command_pkt 7
     (snd (btusb_suspend False 0 False False demo_bt))))"

definition demo_refused :: bt_tx where
  "demo_refused = snd (snd (btusb_send_frame None False 0 False Command_pkt 7 demo_bt))"

lemma demo_bt_reachable: "reachable bt_init bt_step demo_bt"
  by (rule reach_init) (simp add: bt_init_def demo_bt_def)

lemma demo_bt_runs:
  "reachable bt_init bt_step demo_deferred" "reachable bt_init bt_step demo_refused"
proof -
  have "reachable bt_init bt_step (snd (btusb_suspend False 0 False False demo_bt))"
    by (rule reach_step [OF demo_bt_reachable bt_suspend])
  moreover have "bx_running (snd (btusb_suspend False 0 False False demo_bt))"
    by (simp add: btusb_suspend_def demo_bt_def Let_def kill_anchored_def btusb_stop_traffic_def)
  ultimately show "reachable bt_init bt_step demo_deferred"
    unfolding demo_deferred_def using reach_step bt_send by (metis prod.collapse)
  have "bx_running demo_bt" by (simp add: demo_bt_def)
  then show "reachable bt_init bt_step demo_refused"
    unfolding demo_refused_def using reach_step [OF demo_bt_reachable] bt_send by (metis prod.collapse)
qed

theorem requests_conserved_witness:
  "subseq (bx_deferred demo_deferred) [\<lparr>ur_id = 7, ur_isoc = False\<rparr>] \<and> bx_deferred demo_deferred \<noteq> []"
proof -
  have "bx_deferred demo_deferred = [\<lparr>ur_id = 7, ur_isoc = False\<rparr>]" "bx_hw demo_deferred = []"
    "bx_sent demo_deferred = [\<lparr>ur_id = 7, ur_isoc = False\<rparr>]"
    by (simp_all add: demo_deferred_def btusb_suspend_def demo_bt_def Let_def kill_anchored_def
        btusb_stop_traffic_def btusb_send_frame_def submit_or_queue_tx_urb_def)
  then show ?thesis using requests_conserved [OF demo_bt_runs(1)] by simp
qed

theorem refused_submission_blocks_autosuspend_witness:
  "btusb_suspend True 0 False False demo_refused = (Inl EBUSY, demo_refused) \<and> bx_anchored demo_refused = []"
proof -
  have "0 < bx_failed demo_refused" "bx_suspend_count demo_refused = 0" "bx_anchored demo_refused = []"
    by (simp_all add: demo_refused_def demo_bt_def Let_def btusb_send_frame_def
        submit_or_queue_tx_urb_def submit_tx_urb_def)
  then show ?thesis
    using refused_submission_blocks_autosuspend [OF demo_bt_runs(2)] by simp
qed

end
