(* ===== verification/McuMsg.thy ===== *)
theory McuMsg
  imports Mt76Prelude
begin

text \<open>
  Messages to the device's firmware, src/src/mt76/mcu.c: sending a command, waiting for its
  response with retries, and scattering a firmware image into commands. What the bus driver and
  the firmware do is the parameter \<open>mcu_env\<close>; a response is of type \<open>'r\<close>. The state carries the
  reference count of the command's buffer and the responses taken and freed, so that the
  theorems can say that no buffer leaks. The wait loop ends only when the firmware stops
  answering or time is up, so it carries fuel.
\<close>

section \<open>State and environment\<close>

record 'r mcu_state =
  mc_res_q :: "'r list"
  mc_refs :: int
  mc_taken :: "'r list"
  mc_freed :: "'r list"
  mc_sends :: nat
  mc_waits :: nat

text \<open>
  A wait either starts after the deadline, or ends with what has arrived by then. Return values
  are C integers, negative on errors.
\<close>

datatype 'r mcu_waited = Expired | Arrived "'r list"

record 'r mcu_env =
  me_hung :: bool
  me_prepare :: "(int \<times> nat) option"
  me_send :: "nat \<Rightarrow> int \<times> nat"
  me_wait :: "nat \<Rightarrow> 'r mcu_waited"
  me_reset :: "nat \<Rightarrow> bool"
  me_parse :: "'r option \<Rightarrow> nat \<Rightarrow> int"
  me_max_retry :: nat

definition E_AGAIN :: int where "E_AGAIN = 11"
definition E_NOMEM :: int where "E_NOMEM = 12"
definition E_IO :: int where "E_IO = 5"

section \<open>Commands\<close>

definition mt76_mcu_rx_event :: "'r \<Rightarrow> 'r mcu_state \<Rightarrow> 'r mcu_state" where
  "mt76_mcu_rx_event r s = s\<lparr>mc_res_q := mc_res_q s @ [r]\<rparr>"

definition mt76_mcu_get_response :: "'r mcu_env \<Rightarrow> 'r mcu_state \<Rightarrow> 'r option \<times> 'r mcu_state" where
  "mt76_mcu_get_response env s =
     (let i = mc_waits s; s = s\<lparr>mc_waits := i + 1\<rparr> in
      case me_wait env i of
        Expired \<Rightarrow> (None, s)
      | Arrived rs \<Rightarrow>
          let s = fold mt76_mcu_rx_event rs s
          in case mc_res_q s of
               [] \<Rightarrow> (None, s)
             | r # q \<Rightarrow> (Some r, s\<lparr>mc_res_q := q, mc_taken := mc_taken s @ [r]\<rparr>))"

definition kfree_response :: "'r option \<Rightarrow> 'r mcu_state \<Rightarrow> 'r mcu_state" where
  "kfree_response r s = (case r of None \<Rightarrow> s | Some r \<Rightarrow> s\<lparr>mc_freed := mc_freed s @ [r]\<rparr>)"

text \<open>
  From the label \<open>retry\<close>, and the \<open>do ... while\<close> loop. \<open>orig\<close> is whether the original buffer is
  kept for retries, \<open>want\<close> whether the caller takes the response. The result is the return
  value and the response handed over.
\<close>

fun mcu_attempt :: "nat \<Rightarrow> 'r mcu_env \<Rightarrow> bool \<Rightarrow> bool \<Rightarrow> bool \<Rightarrow> nat \<Rightarrow> 'r mcu_state
    \<Rightarrow> (int \<times> 'r option \<times> 'r mcu_state) option"
and mcu_wait :: "nat \<Rightarrow> 'r mcu_env \<Rightarrow> bool \<Rightarrow> bool \<Rightarrow> nat \<Rightarrow> nat \<Rightarrow> 'r mcu_state
    \<Rightarrow> (int \<times> 'r option \<times> 'r mcu_state) option" where
  "mcu_attempt 0 env wait_resp want orig retry s = None"
| "mcu_attempt (Suc n) env wait_resp want orig retry s =
     (let s = (if orig then s\<lparr>mc_refs := mc_refs s + 1\<rparr> else s);
          (ret, seq) = me_send env (mc_sends s);
          s = s\<lparr>mc_sends := mc_sends s + 1, mc_refs := mc_refs s - 1\<rparr>
      in if ret < 0 then Some (ret, None, s)
         else if \<not> wait_resp then Some (0, None, s)
         else mcu_wait n env want orig retry seq s)"
| "mcu_wait 0 env want orig retry seq s = None"
| "mcu_wait (Suc n) env want orig retry seq s =
     (let i = mc_waits s; (skb, s) = mt76_mcu_get_response env s in
      if skb = None \<and> \<not> me_reset env i \<and> orig \<and> retry < me_max_retry env
      then mcu_attempt n env True want orig (retry + 1) s
      else let ret = me_parse env skb seq
           in if ret = 0 \<and> want then Some (ret, skb, s)
              else let s = kfree_response skb s
                   in if ret = - E_AGAIN then mcu_wait n env want orig retry seq s
                      else Some (ret, None, s))"

text \<open>
  \<open>me_hung\<close>: an SDIO bus that hangs during a reset. The buffer \<open>orig_skb\<close> is freed at the label
  \<open>out\<close>.
\<close>

definition mt76_mcu_skb_send_and_get_msg :: "nat \<Rightarrow> 'r mcu_env \<Rightarrow> bool \<Rightarrow> bool \<Rightarrow> 'r mcu_state
    \<Rightarrow> (int \<times> 'r option \<times> 'r mcu_state) option" where
  "mt76_mcu_skb_send_and_get_msg fuel env wait_resp want s =
     (if me_hung env then Some (- E_IO, None, s)
      else let orig = (me_prepare env \<noteq> None);
               drop = (\<lambda>(ret, r, s). (ret, r, if orig then s\<lparr>mc_refs := mc_refs s - 1\<rparr> else s))
           in case me_prepare env of
                Some (ret, seq) \<Rightarrow>
                  if ret < 0 then Some (drop (ret, None, s))
                  else map_option drop (mcu_attempt fuel env wait_resp want orig 0 s)
              | None \<Rightarrow> map_option drop (mcu_attempt fuel env wait_resp want orig 0 s))"

text \<open>\<open>alloc\<close> is whether the message buffer could be allocated.\<close>

definition mt76_mcu_send_and_get_msg :: "bool \<Rightarrow> nat \<Rightarrow> 'r mcu_env \<Rightarrow> bool \<Rightarrow> bool \<Rightarrow> 'r mcu_state
    \<Rightarrow> (int \<times> 'r option \<times> 'r mcu_state) option" where
  "mt76_mcu_send_and_get_msg alloc fuel env wait_resp want s =
     (if \<not> alloc then Some (- E_NOMEM, None, s)
      else mt76_mcu_skb_send_and_get_msg fuel env wait_resp want (s\<lparr>mc_refs := 1\<rparr>))"

text \<open>
  The buffer of a message: head room, room for the larger of \<open>len\<close> and the data, tail room, all
  cleared; the data starts behind the head room.
\<close>

record mcu_buf =
  mb_head :: "u8 list"
  mb_data_off :: nat
  mb_len :: nat

definition mt76_mcu_msg_alloc :: "bool \<Rightarrow> nat \<Rightarrow> nat \<Rightarrow> u8 list option \<Rightarrow> nat \<Rightarrow> mcu_buf option" where
  "mt76_mcu_msg_alloc alloc headroom tailroom data len =
     (let d = (case data of None \<Rightarrow> [] | Some d \<Rightarrow> d);
          total = headroom + max len (length d) + tailroom
      in if \<not> alloc then None
         else Some \<lparr>mb_head = replicate headroom 0 @ d @ replicate (total - headroom - length d) 0,
                    mb_data_off = headroom, mb_len = length d\<rparr>)"

section \<open>Scattering a firmware image\<close>

text \<open>
  \<open>send i c\<close> is the return value of the \<open>i\<close>-th command with data \<open>c\<close>. The loop need not end for
  \<open>max_len = 0\<close>, so it is a partial function. The result holds the commands sent.
\<close>

partial_function (option) send_firmware_loop ::
  "(nat \<Rightarrow> u8 list \<Rightarrow> int) \<Rightarrow> nat \<Rightarrow> u8 list \<Rightarrow> u8 list list \<Rightarrow> (int \<times> u8 list list) option" where
  "send_firmware_loop send max_len data out =
     (if data = [] then Some (0, out)
      else let cur = take max_len data; err = send (length out) cur
           in if err \<noteq> 0 then Some (err, out @ [cur])
              else send_firmware_loop send max_len (drop max_len data) (out @ [cur]))"

definition mt76_mcu_send_firmware :: "(nat \<Rightarrow> u8 list \<Rightarrow> int) \<Rightarrow> nat \<Rightarrow> u8 list \<Rightarrow> (int \<times> u8 list list) option" where
  "mt76_mcu_send_firmware send max_len data = send_firmware_loop send max_len data []"

section \<open>Accounting\<close>

text \<open>
  What a state of the loop owes: every response taken off the queue is freed or about to be
  handed over, and the buffer has \<open>refs\<close> references.
\<close>

definition mcu_books :: "'r mcu_state \<Rightarrow> 'r option \<Rightarrow> int \<Rightarrow> bool" where
  "mcu_books s r refs \<longleftrightarrow> mc_taken s = mc_freed s @ (case r of None \<Rightarrow> [] | Some r \<Rightarrow> [r]) \<and> mc_refs s = refs"

lemma fold_rx_event: "fold mt76_mcu_rx_event rs s = s\<lparr>mc_res_q := mc_res_q s @ rs\<rparr>"
  by (induction rs arbitrary: s) (simp_all add: mt76_mcu_rx_event_def)

lemma get_response_books:
  assumes "mt76_mcu_get_response env s = (r, s')" "mcu_books s None refs"
  shows "mcu_books s' r refs" "mc_sends s' = mc_sends s" "mc_waits s' = mc_waits s + 1"
  using assms
  by (auto simp: mt76_mcu_get_response_def Let_def fold_rx_event mcu_books_def
      split: mcu_waited.splits list.splits)

lemma kfree_books: "mcu_books s r refs \<Longrightarrow> mcu_books (kfree_response r s) None refs"
  by (auto simp: kfree_response_def mcu_books_def split: option.splits)

lemma kfree_same [simp]:
  "mc_sends (kfree_response r s) = mc_sends s" "mc_waits (kfree_response r s) = mc_waits s"
  by (simp_all add: kfree_response_def split: option.split)

lemma mcu_attempt_Suc:
  assumes "s1 = (if orig then s\<lparr>mc_refs := mc_refs s + 1\<rparr> else s)" "(e, seq) = me_send env (mc_sends s1)"
    and "s2 = s1\<lparr>mc_sends := mc_sends s1 + 1, mc_refs := mc_refs s1 - 1\<rparr>"
  shows "mcu_attempt (Suc n) env wr want orig retry s =
    (if e < 0 then Some (e, None, s2) else if \<not> wr then Some (0, None, s2)
     else mcu_wait n env want orig retry seq s2)"
  by (simp only: mcu_attempt.simps Let_def assms(1) [symmetric] assms(2) [symmetric] prod.case assms(3))

text \<open>
  The whole loop: the reference of a kept original is the one that \<open>out\<close> drops.
\<close>

lemma mcu_loop_books:
  "mcu_attempt n env wr want orig retry s = Some (ret, r, s') \<Longrightarrow>
    mcu_books s None 1 \<Longrightarrow> retry \<le> me_max_retry env \<Longrightarrow> mc_sends s \<le> retry \<Longrightarrow>
    mcu_books s' r (if orig then 1 else 0) \<and> mc_sends s' \<le> me_max_retry env + 1
      \<and> (r \<noteq> None \<longrightarrow> ret = 0 \<and> want)"
  "mcu_wait n env want orig retry seq s = Some (ret, r, s') \<Longrightarrow>
    mcu_books s None (if orig then 1 else 0) \<Longrightarrow> retry \<le> me_max_retry env \<Longrightarrow> mc_sends s \<le> retry + 1 \<Longrightarrow>
    mcu_books s' r (if orig then 1 else 0) \<and> mc_sends s' \<le> me_max_retry env + 1
      \<and> (r \<noteq> None \<longrightarrow> ret = 0 \<and> want)"
proof (induction n env wr want orig retry s and n env want orig retry seq s
    arbitrary: ret r s' and ret r s' rule: mcu_attempt_mcu_wait.induct)
  case (1 env wr want orig retry s)
  then show ?case by simp
next
  case (2 n env wr want orig retry s)
  define s1 where "s1 = (if orig then s\<lparr>mc_refs := mc_refs s + 1\<rparr> else s)"
  define s2 where "s2 = s1\<lparr>mc_sends := mc_sends s1 + 1, mc_refs := mc_refs s1 - 1\<rparr>"
  obtain e seq where e: "me_send env (mc_sends s1) = (e, seq)" by (cases "me_send env (mc_sends s1)")
  have run: "(if e < 0 then Some (e, None, s2) else if \<not> wr then Some (0, None, s2)
      else mcu_wait n env want orig retry seq s2) = Some (ret, r, s')"
    using "2.prems"(1) mcu_attempt_Suc [OF s1_def e [symmetric] s2_def] by simp
  have books: "mcu_books s2 None (if orig then 1 else 0)" and sends: "mc_sends s2 \<le> retry + 1"
    using "2.prems"(2,4) by (simp_all add: s2_def s1_def mcu_books_def)
  show ?case
  proof (cases "e < 0 \<or> \<not> wr")
    case True
    then show ?thesis using run books sends "2.prems"(3) by (auto split: if_splits)
  next
    case False
    then show ?thesis
      using "2.IH" [OF s1_def refl e [symmetric] s2_def] run books sends "2.prems"(3) by simp
  qed
next
  case (3 env want orig retry seq s)
  then show ?case by simp
next
  case (4 n env want orig retry seq s)
  obtain k s1 where g: "mt76_mcu_get_response env s = (k, s1)" by (cases "mt76_mcu_get_response env s")
  note books = get_response_books [OF g "4.prems"(2)]
  let ?again = "k = None \<and> \<not> me_reset env (mc_waits s) \<and> orig \<and> retry < me_max_retry env"
  show ?case
  proof (cases ?again)
    case True
    then have run: "mcu_attempt n env True want orig (retry + 1) s1 = Some (ret, r, s')"
      using "4.prems"(1) g by (simp add: Let_def)
    then show ?thesis
      using "4.IH"(1) [OF refl g [symmetric] refl True, of ret r s'] books True "4.prems"(4) by simp
  next
    case False
    define p where "p = me_parse env k seq"
    have run: "(if p = 0 \<and> want then Some (p, k, s1)
        else if p = - E_AGAIN then mcu_wait n env want orig retry seq (kfree_response k s1)
        else Some (p, None, kfree_response k s1)) = Some (ret, r, s')"
      using "4.prems"(1) False g by (auto simp: Let_def p_def split: if_splits)
    note kf = kfree_books [OF books(1)]
    consider "p = 0 \<and> want" | "\<not> (p = 0 \<and> want)" "p = - E_AGAIN" | "\<not> (p = 0 \<and> want)" "p \<noteq> - E_AGAIN"
      by blast
    then show ?thesis
    proof cases
      case 1
      then show ?thesis using run books "4.prems"(3,4) by auto
    next
      case 2
      then have "mcu_wait n env want orig retry seq (kfree_response k s1) = Some (ret, r, s')"
        using run by (simp only: if_False if_True simp_thms)
      from "4.IH"(2) [OF refl g [symmetric] refl False p_def 2(1) refl 2(2) this kf "4.prems"(3)]
      show ?thesis using books(2) "4.prems"(4) by simp
    next
      case 3
      then show ?thesis using run kf books(2) "4.prems"(3,4) by auto
    qed
  qed
qed

text \<open>
  The loop ends when answers stop: from wait \<open>last_wait\<close> on the deadline has passed, and without
  a response the firmware's answer is not "again".
\<close>

definition answers_stop :: "'r mcu_env \<Rightarrow> nat \<Rightarrow> bool" where
  "answers_stop env last_wait \<longleftrightarrow>
     (\<forall>i \<ge> last_wait. me_wait env i = Expired) \<and> (\<forall>seq. me_parse env None seq \<noteq> - E_AGAIN)"

lemma mcu_loop_ends:
  "answers_stop env w \<Longrightarrow> retry \<le> me_max_retry env \<Longrightarrow>
    (w - mc_waits s) + 2 * (me_max_retry env - retry) + 1 < n \<Longrightarrow>
    mcu_attempt n env wr want orig retry s \<noteq> None"
  "answers_stop env w \<Longrightarrow> retry \<le> me_max_retry env \<Longrightarrow>
    (w - mc_waits s) + 2 * (me_max_retry env - retry) < n \<Longrightarrow>
    mcu_wait n env want orig retry seq s \<noteq> None"
proof (induction n env wr want orig retry s and n env want orig retry seq s
    rule: mcu_attempt_mcu_wait.induct)
  case (1 env wr want orig retry s)
  then show ?case by simp
next
  case (2 n env wr want orig retry s)
  define s1 where "s1 = (if orig then s\<lparr>mc_refs := mc_refs s + 1\<rparr> else s)"
  define s2 where "s2 = s1\<lparr>mc_sends := mc_sends s1 + 1, mc_refs := mc_refs s1 - 1\<rparr>"
  obtain e seq where e: "me_send env (mc_sends s1) = (e, seq)" by (cases "me_send env (mc_sends s1)")
  have "mc_waits s2 = mc_waits s" by (simp add: s2_def s1_def)
  then show ?case
    using "2.IH" [OF s1_def refl e [symmetric] s2_def] "2.prems"
    unfolding mcu_attempt_Suc [OF s1_def e [symmetric] s2_def] by auto
next
  case (3 env want orig retry seq s)
  then show ?case by simp
next
  case (4 n env want orig retry seq s)
  obtain k s1 where g: "mt76_mcu_get_response env s = (k, s1)" by (cases "mt76_mcu_get_response env s")
  have w1: "mc_waits s1 = mc_waits s + 1"
    using g by (auto simp: mt76_mcu_get_response_def Let_def fold_rx_event split: mcu_waited.splits list.splits)
  have none: "k = None" if "w \<le> mc_waits s"
    using g that "4.prems"(1) by (auto simp: mt76_mcu_get_response_def answers_stop_def)
  let ?again = "k = None \<and> \<not> me_reset env (mc_waits s) \<and> orig \<and> retry < me_max_retry env"
  show ?case
  proof (cases ?again)
    case True
    have "retry + 1 \<le> me_max_retry env"
      "(w - mc_waits s1) + 2 * (me_max_retry env - (retry + 1)) + 1 < n"
      using "4.prems"(3) w1 True by linarith+
    from "4.IH"(1) [OF refl g [symmetric] refl True "4.prems"(1) this]
    show ?thesis using True g by (simp add: Let_def)
  next
    case False
    define p where "p = me_parse env k seq"
    have "mcu_wait n env want orig retry seq (kfree_response k s1) \<noteq> None"
      if "\<not> (p = 0 \<and> want)" "p = - E_AGAIN"
    proof -
      have "k \<noteq> None"
      proof
        assume "k = None"
        then show False using "4.prems"(1) that(2) by (simp add: answers_stop_def p_def)
      qed
      then have "\<not> w \<le> mc_waits s" using none by blast
      then have "(w - mc_waits (kfree_response k s1)) + 2 * (me_max_retry env - retry) < n"
        using "4.prems"(3) w1 by simp
      from "4.IH"(2) [OF refl g [symmetric] refl False p_def that(1) refl that(2) "4.prems"(1,2) this]
      show ?thesis .
    qed
    then show ?thesis using False g by (auto simp: Let_def p_def [symmetric])
  qed
qed

text \<open>
  C16: A command is accounted for on every path: when answers stop, the call returns (with fuel
  for the waits and two steps per retry); it submits the command at most once more than the
  retries allow; every response taken from the queue is freed or, on success only, handed to the
  caller; and no reference to the command's buffer is left. The one exception is a hung SDIO
  bus, where the buffer is returned to nobody: its reference stays.
\<close>

theorem mcu_message_accounting:
  assumes "answers_stop env w" "w + 2 * me_max_retry env + 1 < fuel"
    and "mc_taken s = mc_freed s" "mc_sends s = 0" "mc_waits s = 0"
  shows "\<exists>ret r s'. mt76_mcu_send_and_get_msg True fuel env wait_resp want s = Some (ret, r, s')
    \<and> mc_taken s' = mc_freed s' @ (case r of None \<Rightarrow> [] | Some r \<Rightarrow> [r])
    \<and> (r \<noteq> None \<longrightarrow> ret = 0 \<and> want) \<and> mc_sends s' \<le> me_max_retry env + 1
    \<and> mc_refs s' = (if me_hung env then 1 else 0)"
proof -
  let ?s = "s\<lparr>mc_refs := 1\<rparr>" and ?orig = "me_prepare env \<noteq> None"
  have books: "mcu_books ?s None 1" using assms(3) by (simp add: mcu_books_def)
  have "mcu_attempt fuel env wait_resp want ?orig 0 ?s \<noteq> None"
    by (rule mcu_loop_ends(1) [OF assms(1)]) (use assms(2,5) in simp_all)
  then obtain ret r s' where a: "mcu_attempt fuel env wait_resp want ?orig 0 ?s = Some (ret, r, s')" by auto
  have b: "mcu_books s' r (if ?orig then 1 else 0)" "mc_sends s' \<le> me_max_retry env + 1"
    "r \<noteq> None \<longrightarrow> ret = 0 \<and> want"
    using mcu_loop_books(1) [OF a books] assms(4) by simp_all
  show ?thesis
  proof (cases "me_hung env")
    case True
    then show ?thesis
      using books assms(4) by (simp add: mt76_mcu_send_and_get_msg_def mt76_mcu_skb_send_and_get_msg_def mcu_books_def)
  next
    case False
    show ?thesis
    proof (cases "me_prepare env")
      case None
      then show ?thesis
        using a b False by (simp add: mt76_mcu_send_and_get_msg_def mt76_mcu_skb_send_and_get_msg_def mcu_books_def)
    next
      case (Some p)
      then show ?thesis
        using a b False books assms(4)
        by (cases p) (simp add: mt76_mcu_send_and_get_msg_def mt76_mcu_skb_send_and_get_msg_def
            mcu_books_def Let_def split: if_split)
    qed
  qed
qed

text \<open>An environment with one retry, a stale answer, then the answer 7 to the second attempt.\<close>

definition demo_mcu :: "nat mcu_env" where
  "demo_mcu = \<lparr>me_hung = False, me_prepare = Some (0, 1), me_send = (\<lambda>i. (0, 1)),
     me_wait = (\<lambda>i. if i = 1 then Arrived [3, 7] else Expired), me_reset = (\<lambda>_. False),
     me_parse = (\<lambda>r seq. case r of None \<Rightarrow> -110 | Some x \<Rightarrow> if x = 7 then 0 else -11), me_max_retry = 1\<rparr>"

definition demo_mcu_state :: "nat mcu_state" where
  "demo_mcu_state = \<lparr>mc_res_q = [], mc_refs = 0, mc_taken = [], mc_freed = [], mc_sends = 0, mc_waits = 0\<rparr>"

theorem mcu_message_accounting_witness:
  "\<exists>ret r s'. mt76_mcu_send_and_get_msg True 10 demo_mcu True True demo_mcu_state = Some (ret, r, s')
     \<and> mc_refs s' = 0 \<and> mc_sends s' \<le> 2"
proof -
  have "answers_stop demo_mcu 2"
    by (simp add: answers_stop_def demo_mcu_def E_AGAIN_def)
  moreover have e: "me_max_retry demo_mcu = 1" "\<not> me_hung demo_mcu" "mc_taken demo_mcu_state = []"
    "mc_freed demo_mcu_state = []" "mc_sends demo_mcu_state = 0" "mc_waits demo_mcu_state = 0"
    by (simp_all add: demo_mcu_def demo_mcu_state_def)
  ultimately show ?thesis
    using mcu_message_accounting [of demo_mcu 2 10 demo_mcu_state True True] e by fastforce
qed

section \<open>The firmware image arrives whole\<close>

lemma send_firmware_loop_ok:
  assumes "0 < max_len" "\<forall>i c. send i c = 0"
  shows "\<exists>cs. send_firmware_loop send max_len data out = Some (0, out @ cs)
    \<and> concat cs = data \<and> list_all (\<lambda>c. c \<noteq> [] \<and> length c \<le> max_len) cs
    \<and> list_all (\<lambda>c. length c = max_len) (butlast cs)"
proof (induction data arbitrary: out rule: length_induct)
  case (1 data)
  show ?case
  proof (cases "data = []")
    case True
    then show ?thesis by (intro exI [of _ "[]"]) (simp add: send_firmware_loop.simps)
  next
    case False
    let ?c = "take max_len data"
    have "length (drop max_len data) < length data" using False assms(1) by simp
    then obtain cs where cs: "send_firmware_loop send max_len (drop max_len data) (out @ [?c]) = Some (0, (out @ [?c]) @ cs)"
      "concat cs = drop max_len data" "list_all (\<lambda>c. c \<noteq> [] \<and> length c \<le> max_len) cs"
      "list_all (\<lambda>c. length c = max_len) (butlast cs)"
      using 1 by blast
    have "cs \<noteq> [] \<Longrightarrow> length ?c = max_len"
    proof -
      assume "cs \<noteq> []"
      then have "drop max_len data \<noteq> []" using cs(2,3) by (cases cs) auto
      then show "length ?c = max_len" by simp
    qed
    moreover have "send_firmware_loop send max_len data out =
        send_firmware_loop send max_len (drop max_len data) (out @ [?c])"
      using False assms(2) by (subst send_firmware_loop.simps) (simp add: Let_def)
    ultimately show ?thesis
      using cs False assms(1) by (intro exI [of _ "?c # cs"]) auto
  qed
qed

lemma send_firmware_loop_error:
  assumes "0 < max_len" "send_firmware_loop send max_len data out = Some (err, cs)"
  shows "\<exists>k. concat cs = concat out @ take k data"
  using assms(2)
proof (induction data arbitrary: out rule: length_induct)
  case (1 data)
  show ?case
  proof (cases "data = [] \<or> send (length out) (take max_len data) \<noteq> 0")
    case True
    then show ?thesis
      using 1(2) by (subst (asm) send_firmware_loop.simps) (auto simp: Let_def split: if_splits)
  next
    case False
    then have "send_firmware_loop send max_len (drop max_len data) (out @ [take max_len data]) = Some (err, cs)"
      using 1(2) by (subst (asm) send_firmware_loop.simps) (simp add: Let_def)
    moreover have "length (drop max_len data) < length data" using False assms(1) by auto
    ultimately obtain k where "concat cs = concat (out @ [take max_len data]) @ take k (drop max_len data)"
      using 1(1) by blast
    then have "concat cs = concat out @ take (max_len + k) data" by (simp add: take_add)
    then show ?thesis by blast
  qed
qed

text \<open>
  A firmware image is scattered without loss: if every command is accepted, the call ends,
  the commands' data are the image in order, none is empty or longer than the limit, and all but
  the last are full. Whatever the commands return, what was sent is a prefix of the image.
\<close>

theorem firmware_scattered_whole:
  assumes "0 < max_len" "\<forall>i c. good i c = 0"
    and "mt76_mcu_send_firmware send max_len data = Some (err, cs')"
  shows "\<exists>k. concat cs' = take k data
    \<and> (\<exists>cs. mt76_mcu_send_firmware good max_len data = Some (0, cs) \<and> concat cs = data
        \<and> list_all (\<lambda>c. c \<noteq> [] \<and> length c \<le> max_len) cs
        \<and> list_all (\<lambda>c. length c = max_len) (butlast cs))"
proof -
  obtain k where "concat cs' = take k data"
    using send_firmware_loop_error [OF assms(1), of send data "[]"] assms(3)
    by (auto simp: mt76_mcu_send_firmware_def)
  then show ?thesis
    using send_firmware_loop_ok [OF assms(1,2), of data "[]"] by (auto simp: mt76_mcu_send_firmware_def)
qed

theorem firmware_scattered_whole_witness:
  "\<exists>cs. mt76_mcu_send_firmware (\<lambda>i c. 0) 2 [1, 2, 3] = Some (0, cs) \<and> concat cs = [1, 2, 3]"
proof -
  have "mt76_mcu_send_firmware (\<lambda>i c. if i = 1 then -5 else 0) 2 [1, 2, 3] = Some (-5, [[1, 2], [3]])"
    unfolding mt76_mcu_send_firmware_def
    by (subst send_firmware_loop.simps, simp add: Let_def, subst send_firmware_loop.simps, simp add: Let_def)
  from firmware_scattered_whole [OF _ _ this, of "\<lambda>i c. 0"] show ?thesis by auto
qed

end
