(* ===== verification/RxPath.thy ===== *)
theory RxPath
  imports Mt76Prelude
begin

text \<open>
  The receive path behind the DMA queues, src/src/mt76/mac80211.c: replay detection of
  encrypted frames, signal strength, airtime accounting of aggregates, power-save tracking of
  clients, and delivery. A received frame is a record: its \<open>struct mt76_rx_status\<close> and what the
  code reads of its 802.11 header. Clients are named by their addresses. Calls into mac80211 are
  logged; the airtime of a frame (\<open>ieee80211_calc_rx_airtime\<close>) is a parameter.
\<close>

section \<open>Frames and clients\<close>

record rx_hdr =
  rh_fc :: u16
  rh_seq_ctrl :: u16
  rh_to_me :: bool
  rh_addr2 :: nat

text \<open>
  The predicates of \<open>linux/ieee80211.h\<close> on the frame control field (type in bits 2 and 3,
  subtype in bits 4 to 7), and \<open>ieee80211_is_first_frag\<close>, which is one on the sequence control
  field, whose low four bits hold the fragment number.
\<close>

definition rh_mgmt :: "rx_hdr \<Rightarrow> bool" where "rh_mgmt h \<longleftrightarrow> rh_fc h AND 0x000C = 0"
definition rh_data :: "rx_hdr \<Rightarrow> bool" where "rh_data h \<longleftrightarrow> rh_fc h AND 0x000C = 0x0008"
definition rh_data_qos :: "rx_hdr \<Rightarrow> bool" where "rh_data_qos h \<longleftrightarrow> rh_fc h AND 0x008C = 0x0088"
definition rh_qos_nullfunc :: "rx_hdr \<Rightarrow> bool" where "rh_qos_nullfunc h \<longleftrightarrow> rh_fc h AND 0x00FC = 0x00C8"
definition rh_pspoll :: "rx_hdr \<Rightarrow> bool" where "rh_pspoll h \<longleftrightarrow> rh_fc h AND 0x00FC = 0x00A4"
definition rh_beacon :: "rx_hdr \<Rightarrow> bool" where "rh_beacon h \<longleftrightarrow> rh_fc h AND 0x00FC = 0x0080"
definition rh_probe_resp :: "rx_hdr \<Rightarrow> bool" where "rh_probe_resp h \<longleftrightarrow> rh_fc h AND 0x00FC = 0x0050"
definition rh_tods :: "rx_hdr \<Rightarrow> bool" where "rh_tods h \<longleftrightarrow> rh_fc h AND 0x0100 \<noteq> 0"
definition rh_morefrags :: "rx_hdr \<Rightarrow> bool" where "rh_morefrags h \<longleftrightarrow> rh_fc h AND 0x0400 \<noteq> 0"
definition rh_pm :: "rx_hdr \<Rightarrow> bool" where "rh_pm h \<longleftrightarrow> rh_fc h AND 0x1000 \<noteq> 0"

definition rh_is_frag :: "rx_hdr \<Rightarrow> bool" where
  "rh_is_frag h \<longleftrightarrow> rh_morefrags h \<or> rh_seq_ctrl h AND 0x000F \<noteq> 0"

definition ieee80211_is_first_frag :: "u16 \<Rightarrow> bool" where
  "ieee80211_is_first_frag seq_ctrl \<longleftrightarrow> seq_ctrl AND 0x000F = 0"

record rx_pkt =
  rf_id :: nat
  rf_len :: nat
  rf_wcid :: "nat option"
  rf_decrypted :: bool
  rf_only_monitor :: bool
  rf_8023 :: bool
  rf_iv_stripped :: bool
  rf_pn_validated :: bool
  rf_ampdu_details :: bool
  rf_ampdu_ref :: u32
  rf_iv :: "u8 list"
  rf_qos_ctl :: u8
  rf_phy_idx :: nat
  rf_signal :: int
  rf_chains :: u8
  rf_chain_signal :: "int list"
  rf_hdr :: rx_hdr

record rx_client =
  rc_sta :: bool
  rc_idx :: nat
  rc_check_pn :: bool
  rc_key_pn :: "nat \<Rightarrow> u8 list"
  rc_check_ps :: bool
  rc_ps :: bool
  rc_inactive :: nat
  rc_link_valid :: bool
  rc_link_id :: nat

text \<open>What mac80211 gets of a frame (\<open>struct ieee80211_rx_status\<close> and its arguments).\<close>

record rx_delivery =
  dl_id :: nat
  dl_sta :: "nat option"
  dl_phy_idx :: nat
  dl_priority :: nat
  dl_signal :: int
  dl_no_signal :: bool
  dl_only_monitor :: bool
  dl_boottime :: bool
  dl_link :: "(bool \<times> nat) option"

datatype rx_call =
    Ps_transition nat bool
  | Sta_pspoll nat
  | Uapsd_trigger nat nat
  | Drv_sta_ps nat bool
  | Rssi_add nat int
  | Register_airtime nat nat nat
  | Rx_list rx_delivery

record rx_dev =
  rd_client :: "nat \<Rightarrow> rx_client"
  rd_table :: "nat \<rightharpoonup> nat"
  rd_sw_airtime :: bool
  rd_sta_ps :: bool
  rd_cc_bss_rx :: nat
  rd_ampdu_len :: nat
  rd_ampdu_ref :: u32
  rd_ampdu_idx :: nat
  rd_ampdu_status :: rx_pkt
  rd_find_sta :: "nat \<Rightarrow> nat \<Rightarrow> nat option"
  rd_log :: "rx_call list"

definition upd_client :: "nat \<Rightarrow> (rx_client \<Rightarrow> rx_client) \<Rightarrow> rx_dev \<Rightarrow> rx_dev" where
  "upd_client w f dev = dev\<lparr>rd_client := (rd_client dev)(w := f (rd_client dev w))\<rparr>"

definition rx_log :: "rx_call \<Rightarrow> rx_dev \<Rightarrow> rx_dev" where
  "rx_log c dev = dev\<lparr>rd_log := rd_log dev @ [c]\<rparr>"

definition tid_of :: "rx_pkt \<Rightarrow> nat" where
  "tid_of f = unat (rf_qos_ctl f AND 0xF)"

definition RX_N_WCIDS :: nat where "RX_N_WCIDS = 1088"

section \<open>Replay detection\<close>

text \<open>\<open>memcmp\<close>, up to the sign of its result.\<close>

fun memcmp :: "u8 list \<Rightarrow> u8 list \<Rightarrow> int" where
  "memcmp (a # as) (b # bs) = (if a = b then memcmp as bs else if a < b then -1 else 1)"
| "memcmp as bs = 0"

definition NUM_TIDS :: nat where "NUM_TIDS = 16"

text \<open>The checks before the comparison, and the index of the replay counter. The code asks
  \<open>ieee80211_is_first_frag\<close> about the frame control field.\<close>

definition pn_checked :: "rx_dev \<Rightarrow> rx_pkt \<Rightarrow> nat option" where
  "pn_checked dev f =
     (if \<not> rf_decrypted f \<or> rf_only_monitor f then None
      else case rf_wcid f of
        None \<Rightarrow> None
      | Some w \<Rightarrow>
          if \<not> rc_check_pn (rd_client dev w) then None
          else if \<not> rf_8023 f \<and> \<not> rf_iv_stripped f
             \<and> rh_is_frag (rf_hdr f) \<and> \<not> ieee80211_is_first_frag (rh_fc (rf_hdr f)) then None
          else Some w)"

definition security_idx :: "rx_pkt \<Rightarrow> nat" where
  "security_idx f = (if \<not> rf_8023 f \<and> rh_mgmt (rf_hdr f) \<and> \<not> rh_tods (rf_hdr f) then NUM_TIDS else tid_of f)"

definition mt76_check_ccmp_pn :: "rx_dev \<Rightarrow> rx_pkt \<Rightarrow> rx_pkt \<times> rx_dev" where
  "mt76_check_ccmp_pn dev f =
     (case pn_checked dev f of
        None \<Rightarrow> (f, dev)
      | Some w \<Rightarrow>
          let i = security_idx f in
          if memcmp (rf_iv f) (rc_key_pn (rd_client dev w) i) \<le> 0
          then (f\<lparr>rf_only_monitor := True\<rparr>, dev)
          else (if rf_iv_stripped f then f\<lparr>rf_pn_validated := True\<rparr> else f,
                upd_client w (\<lambda>c. c\<lparr>rc_key_pn := (rc_key_pn c)(i := rf_iv f)\<rparr>) dev))"

text \<open>
  Installing a key: \<open>None\<close> is no key, and of a key its cipher (CCMP or not) and the receive
  counter that mac80211 holds for each index.
\<close>

definition mt76_wcid_key_setup :: "nat \<Rightarrow> (bool \<times> (nat \<Rightarrow> u8 list)) option \<Rightarrow> rx_dev \<Rightarrow> rx_dev" where
  "mt76_wcid_key_setup w key dev =
     (let dev = upd_client w (\<lambda>c. c\<lparr>rc_check_pn := False\<rparr>) dev in
      case key of
        None \<Rightarrow> dev
      | Some (ccmp, seq) \<Rightarrow>
          if \<not> ccmp then dev
          else upd_client w (\<lambda>c. c\<lparr>rc_check_pn := True,
                 rc_key_pn := (\<lambda>i. if i \<le> NUM_TIDS then seq i else rc_key_pn c i)\<rparr>) dev)"

section \<open>Signal strength\<close>

fun rx_signal_loop :: "u8 list \<Rightarrow> int list \<Rightarrow> int \<Rightarrow> int" where
  "rx_signal_loop [] cs signal = signal"
| "rx_signal_loop (m # ms) cs signal =
     (let cur = hd cs in
      if m AND 1 = 0 \<or> cur > 0 then rx_signal_loop ms (tl cs) signal
      else let (cur, signal) = (if cur > signal then (signal, cur) else (cur, signal));
               diff = signal - cur
           in rx_signal_loop ms (tl cs)
                (if diff = 0 then signal + 3 else if diff \<le> 2 then signal + 2
                 else if diff \<le> 6 then signal + 1 else signal))"

text \<open>The values of \<open>chains\<close> in the loop: the mask shifted until it is 0.\<close>

function shifted_masks :: "u8 \<Rightarrow> u8 list" where
  "shifted_masks m = (if m = 0 then [] else m # shifted_masks (drop_bit 1 m))"
  by pat_completeness auto
termination
proof (relation "measure unat", goal_cases)
  case 1
  then show ?case by simp
next
  case (2 m)
  then have "0 < unat m" by (simp add: unat_gt_0)
  then show ?case by (simp add: unat_drop_bit_eq drop_bit_eq_div unat_div)
qed

declare shifted_masks.simps [simp del]

definition mt76_rx_signal :: "u8 \<Rightarrow> int list \<Rightarrow> int" where
  "mt76_rx_signal chain_mask chain_signal = rx_signal_loop (shifted_masks chain_mask) chain_signal (-128)"

section \<open>Airtime of aggregates\<close>

definition mt76_airtime_report :: "(rx_pkt \<Rightarrow> nat \<Rightarrow> nat) \<Rightarrow> rx_dev \<Rightarrow> rx_pkt \<Rightarrow> nat \<Rightarrow> rx_dev" where
  "mt76_airtime_report airtime dev f n =
     (let t = airtime f n;
          dev = dev\<lparr>rd_cc_bss_rx := rd_cc_bss_rx dev + t\<rparr>
      in case rf_wcid f of
           None \<Rightarrow> dev
         | Some w \<Rightarrow> if rc_sta (rd_client dev w) then rx_log (Register_airtime w (tid_of f) t) dev else dev)"

definition mt76_airtime_flush_ampdu :: "(rx_pkt \<Rightarrow> nat \<Rightarrow> nat) \<Rightarrow> rx_dev \<Rightarrow> rx_dev" where
  "mt76_airtime_flush_ampdu airtime dev =
     (if rd_ampdu_len dev = 0 then dev
      else let i = rd_ampdu_idx dev;
               wcid = (if i < RX_N_WCIDS then rd_table dev i else None);
               f = (rd_ampdu_status dev)\<lparr>rf_wcid := wcid\<rparr>;
               dev = mt76_airtime_report airtime (dev\<lparr>rd_ampdu_status := f\<rparr>) f (rd_ampdu_len dev)
           in dev\<lparr>rd_ampdu_len := 0, rd_ampdu_ref := 0\<rparr>)"

definition client_of :: "rx_dev \<Rightarrow> rx_pkt \<Rightarrow> nat option" where
  "client_of dev f = (case rf_wcid f of
     None \<Rightarrow> None | Some w \<Rightarrow> if rc_sta (rd_client dev w) then Some w else None)"

definition mt76_airtime_check :: "(rx_pkt \<Rightarrow> nat \<Rightarrow> nat) \<Rightarrow> rx_dev \<Rightarrow> rx_pkt \<Rightarrow> rx_dev" where
  "mt76_airtime_check airtime dev f =
     (if \<not> rd_sw_airtime dev then dev
      else let wcid = client_of dev f in
        if wcid = None \<and> (rf_8023 f \<or> \<not> rh_to_me (rf_hdr f)) then dev
        else let dev = (if \<not> rf_ampdu_details f \<or> rf_ampdu_ref f \<noteq> rd_ampdu_ref dev
                        then mt76_airtime_flush_ampdu airtime dev else dev)
          in if rf_ampdu_details f then
               let dev = (if rd_ampdu_len dev = 0 \<or> rf_ampdu_ref f \<noteq> rd_ampdu_ref dev
                          then dev\<lparr>rd_ampdu_status := f,
                                 rd_ampdu_idx := (case wcid of Some w \<Rightarrow> rc_idx (rd_client dev w) | None \<Rightarrow> 0xff),
                                 rd_ampdu_ref := rf_ampdu_ref f\<rparr>
                          else dev)
               in dev\<lparr>rd_ampdu_len := rd_ampdu_len dev + rf_len f\<rparr>
             else mt76_airtime_report airtime dev f (rf_len f))"

section \<open>Power save of a client\<close>

text \<open>The part of \<open>mt76_check_sta\<close> behind its early returns, for a client with a station.\<close>

definition check_sta_ps :: "rx_dev \<Rightarrow> nat \<Rightarrow> rx_pkt \<Rightarrow> rx_dev" where
  "check_sta_ps dev w f =
     (let h = rf_hdr f in
      if rf_8023 f \<or> \<not> rc_check_ps (rd_client dev w) then dev
      else if rh_pspoll h then rx_log (Sta_pspoll w) dev
      else if rh_morefrags h \<or> \<not> (rh_mgmt h \<or> rh_data h) then dev
      else let ps = rh_pm h;
               dev = (if ps \<and> (rh_data_qos h \<or> rh_qos_nullfunc h)
                      then rx_log (Uapsd_trigger w (tid_of f)) dev else dev)
           in if rc_ps (rd_client dev w) = ps then dev
              else let dev = (if ps then upd_client w (\<lambda>c. c\<lparr>rc_ps := True\<rparr>) dev else dev);
                       dev = (if rd_sta_ps dev then rx_log (Drv_sta_ps w ps) dev else dev);
                       dev = (if \<not> ps then upd_client w (\<lambda>c. c\<lparr>rc_ps := False\<rparr>) dev else dev)
                   in rx_log (Ps_transition w ps) dev)"

text \<open>The frame is returned too: a PS-Poll may find its client here.\<close>

definition mt76_check_sta :: "(rx_pkt \<Rightarrow> nat \<Rightarrow> nat) \<Rightarrow> rx_dev \<Rightarrow> rx_pkt \<Rightarrow> rx_pkt \<times> rx_dev" where
  "mt76_check_sta airtime dev f =
     (let f = (if rh_pspoll (rf_hdr f) \<and> rf_wcid f = None \<and> \<not> rf_8023 f
               then (case rd_find_sta dev (rf_phy_idx f) (rh_addr2 (rf_hdr f)) of
                       Some w \<Rightarrow> f\<lparr>rf_wcid := Some w\<rparr> | None \<Rightarrow> f)
               else f);
          dev = mt76_airtime_check airtime dev f
      in case client_of dev f of
           None \<Rightarrow> (f, dev)
         | Some w \<Rightarrow>
             let dev = (if rf_signal f \<le> 0 then rx_log (Rssi_add w (- rf_signal f)) dev else dev);
                 dev = upd_client w (\<lambda>c. c\<lparr>rc_inactive := 0\<rparr>) dev
             in (f, check_sta_ps dev w f))"

section \<open>Delivery\<close>

text \<open>
  A frame as mac80211 gets it. The rate fields, which are copied unchanged, are left out. In
  \<open>mt76_rx_complete\<close>, \<open>sub\<close> are the further frames of an aggregate, which are delivered behind
  their head and not checked on their own.
\<close>

definition rx_convert_list :: "rx_dev \<Rightarrow> rx_pkt \<Rightarrow> rx_dev" where
  "rx_convert_list dev f =
     (let signal = mt76_rx_signal (rf_chains f) (rf_chain_signal f)
      in rx_log (Rx_list \<lparr>dl_id = rf_id f, dl_sta = client_of dev f, dl_phy_idx = rf_phy_idx f,
           dl_priority = tid_of f, dl_signal = signal, dl_no_signal = (signal \<le> -128),
           dl_only_monitor = rf_only_monitor f,
           dl_boottime = (rh_beacon (rf_hdr f) \<or> rh_probe_resp (rf_hdr f)),
           dl_link = (case rf_wcid f of
              Some w \<Rightarrow> Some (rc_link_valid (rd_client dev w), rc_link_id (rd_client dev w))
            | None \<Rightarrow> None)\<rparr>) dev)"

definition mt76_rx_complete :: "rx_dev \<Rightarrow> (rx_pkt \<times> rx_pkt list) list \<Rightarrow> rx_dev" where
  "mt76_rx_complete dev frames = fold (\<lambda>(f, sub) dev.
     let (f, dev) = mt76_check_ccmp_pn dev f;
         dev = rx_convert_list dev f
     in fold (\<lambda>g dev. rx_convert_list dev g) sub dev) frames dev"

section \<open>Replay\<close>

text \<open>The packet number as the number its six bytes spell, most significant first.\<close>

fun pn_value :: "u8 list \<Rightarrow> nat" where
  "pn_value [] = 0"
| "pn_value (b # bs) = unat b * 256 ^ length bs + pn_value bs"

lemma pn_value_bound: "pn_value bs < 256 ^ length bs"
proof (induction bs)
  case Nil
  then show ?case by simp
next
  case (Cons b bs)
  have "unat b < 2 ^ LENGTH(8)" by (rule unsigned_less)
  then have "unat b + 1 \<le> 256" by simp
  then have "(unat b + 1) * 256 ^ length bs \<le> 256 * 256 ^ length bs" by (rule mult_right_mono) simp
  moreover have "(unat b + 1) * 256 ^ length bs = unat b * 256 ^ length bs + 256 ^ length bs" by simp
  moreover have "256 ^ length (b # bs) = (256 :: nat) * 256 ^ length bs" by simp
  ultimately show ?case using Cons.IH by (simp only: pn_value.simps)
qed

lemma memcmp_pn:
  "length as = length bs \<Longrightarrow>
    (memcmp as bs \<le> 0 \<longleftrightarrow> pn_value as \<le> pn_value bs) \<and> (memcmp as bs = 0 \<longleftrightarrow> as = bs)"
proof (induction as bs rule: memcmp.induct)
  case (1 a as b bs)
  have step: "unat x * 256 ^ length bs + u < unat y * 256 ^ length bs + v"
    if "x < y" "u < 256 ^ length bs" for x y :: u8 and u v
  proof -
    have "unat x + 1 \<le> unat y" using that(1) by (simp add: word_less_nat_alt)
    then have "(unat x + 1) * 256 ^ length bs \<le> unat y * 256 ^ length bs" by (rule mult_right_mono) simp
    then show ?thesis using that(2) by (simp add: algebra_simps)
  qed
  have len: "length as = length bs" using 1(2) by simp
  show ?case
  proof (cases a b rule: linorder_cases)
    case less
    then show ?thesis using step [of a b "pn_value as" "pn_value bs"] pn_value_bound [of as] len by auto
  next
    case equal
    then show ?thesis using 1(1) len by simp
  next
    case greater
    then show ?thesis using step [of b a "pn_value bs" "pn_value as"] pn_value_bound [of bs] len by auto
  qed
qed auto

text \<open>The replay counters hold six bytes, like the packet numbers of frames.\<close>

definition pn_wf :: "rx_dev \<Rightarrow> bool" where
  "pn_wf dev \<longleftrightarrow> (\<forall>w i. length (rc_key_pn (rd_client dev w) i) = 6)"

text \<open>Running the check over frames, and the packet numbers it accepted for one counter.\<close>

fun ccmp_run :: "rx_dev \<Rightarrow> rx_pkt list \<Rightarrow> rx_pkt list \<times> rx_dev" where
  "ccmp_run dev [] = ([], dev)"
| "ccmp_run dev (f # fs) =
     (let (g, dev) = mt76_check_ccmp_pn dev f; (gs, dev) = ccmp_run dev fs in (g # gs, dev))"

fun accepted :: "rx_dev \<Rightarrow> nat \<Rightarrow> nat \<Rightarrow> rx_pkt list \<Rightarrow> nat list" where
  "accepted dev w i [] = []"
| "accepted dev w i (f # fs) =
     (let (g, dev') = mt76_check_ccmp_pn dev f
      in (if pn_checked dev f = Some w \<and> security_idx f = i \<and> \<not> rf_only_monitor g
          then [pn_value (rf_iv f)] else []) @ accepted dev' w i fs)"

lemma pn_checked_not_monitor: "pn_checked dev f = Some w \<Longrightarrow> \<not> rf_only_monitor f"
  by (auto simp: pn_checked_def split: if_splits)

lemma check_ccmp_cases:
  assumes "pn_wf dev" "length (rf_iv f) = 6"
  obtains (skip) "pn_checked dev f = None" "mt76_check_ccmp_pn dev f = (f, dev)"
  | (replay) v where "pn_checked dev f = Some v"
      "pn_value (rf_iv f) \<le> pn_value (rc_key_pn (rd_client dev v) (security_idx f))"
      "mt76_check_ccmp_pn dev f = (f\<lparr>rf_only_monitor := True\<rparr>, dev)"
  | (fresh) v where "pn_checked dev f = Some v"
      "pn_value (rc_key_pn (rd_client dev v) (security_idx f)) < pn_value (rf_iv f)"
      "mt76_check_ccmp_pn dev f = (if rf_iv_stripped f then f\<lparr>rf_pn_validated := True\<rparr> else f,
         upd_client v (\<lambda>c. c\<lparr>rc_key_pn := (rc_key_pn c)(security_idx f := rf_iv f)\<rparr>) dev)"
proof (cases "pn_checked dev f")
  case None
  then show ?thesis using skip by (simp add: mt76_check_ccmp_pn_def)
next
  case (Some v)
  have "memcmp (rf_iv f) (rc_key_pn (rd_client dev v) (security_idx f)) \<le> 0 \<longleftrightarrow>
      pn_value (rf_iv f) \<le> pn_value (rc_key_pn (rd_client dev v) (security_idx f))"
    using memcmp_pn [of "rf_iv f" "rc_key_pn (rd_client dev v) (security_idx f)"] assms by (simp add: pn_wf_def)
  then show ?thesis
    using replay [OF Some] fresh [OF Some] Some by (auto simp: mt76_check_ccmp_pn_def Let_def split: if_splits)
qed

lemma accepted_increasing:
  assumes "pn_wf dev" "list_all (\<lambda>f. length (rf_iv f) = 6) fs"
  shows "sorted_wrt (<) (pn_value (rc_key_pn (rd_client dev w) i) # accepted dev w i fs)"
  using assms
proof (induction fs arbitrary: dev)
  case Nil
  then show ?case by simp
next
  case (Cons f fs)
  have f: "length (rf_iv f) = 6" and fs: "list_all (\<lambda>f. length (rf_iv f) = 6) fs" using Cons.prems(2) by simp_all
  from Cons.prems(1) f show ?case
  proof (cases rule: check_ccmp_cases)
    case skip
    then show ?thesis using Cons.IH [OF Cons.prems(1) fs] by simp
  next
    case (replay v)
    then show ?thesis using Cons.IH [OF Cons.prems(1) fs] by simp
  next
    case (fresh v)
    let ?d = "upd_client v (\<lambda>c. c\<lparr>rc_key_pn := (rc_key_pn c)(security_idx f := rf_iv f)\<rparr>) dev"
    have wf: "pn_wf ?d" using Cons.prems(1) f by (simp add: pn_wf_def upd_client_def)
    note IH = Cons.IH [OF wf fs]
    have nm: "\<not> rf_only_monitor f" using pn_checked_not_monitor [OF fresh(1)] .
    have g: "\<not> rf_only_monitor (if rf_iv_stripped f then f\<lparr>rf_pn_validated := True\<rparr> else f)" using nm by simp
    show ?thesis
    proof (cases "v = w \<and> security_idx f = i")
      case True
      have c: "rc_key_pn (rd_client ?d w) i = rf_iv f" using True by (simp add: upd_client_def)
      have a: "accepted dev w i (f # fs) = pn_value (rf_iv f) # accepted ?d w i fs"
        using True fresh(1) g by (simp add: fresh(3))
      have lt: "pn_value (rc_key_pn (rd_client dev w) i) < pn_value (rf_iv f)" using fresh(2) True by simp
      from IH have "\<forall>x \<in> set (accepted ?d w i fs). pn_value (rf_iv f) < x" by (simp add: c)
      then show ?thesis using IH lt unfolding a by (auto simp: c)
    next
      case False
      have c: "rc_key_pn (rd_client ?d w) i = rc_key_pn (rd_client dev w) i" using False by (auto simp: upd_client_def)
      have a: "accepted dev w i (f # fs) = accepted ?d w i fs" using False fresh(1) by (auto simp: fresh(3))
      show ?thesis using IH unfolding a c .
    qed
  qed
qed

text \<open>
  C17: No replay: whatever frames arrive, the packet numbers accepted for one client and one
  counter are strictly increasing, the first above the counter's value, and each frame that is
  compared and not above it is kept from the stack (\<open>RX_FLAG_ONLY_MONITOR\<close>).
\<close>

theorem ccmp_replay_rejected:
  assumes "pn_wf dev" "list_all (\<lambda>f. length (rf_iv f) = 6) fs"
  shows "sorted_wrt (<) (pn_value (rc_key_pn (rd_client dev w) i) # accepted dev w i fs)
    \<and> (\<forall>f \<in> set fs. pn_checked dev f = Some w \<longrightarrow> security_idx f = i \<longrightarrow>
         pn_value (rf_iv f) \<le> pn_value (rc_key_pn (rd_client dev w) i) \<longrightarrow>
         rf_only_monitor (fst (mt76_check_ccmp_pn dev f)))"
proof -
  have "rf_only_monitor (fst (mt76_check_ccmp_pn dev f))"
    if "f \<in> set fs" "pn_checked dev f = Some w" "security_idx f = i"
      "pn_value (rf_iv f) \<le> pn_value (rc_key_pn (rd_client dev w) i)" for f
  proof -
    have "length (rf_iv f) = 6" using assms(2) that(1) by (simp add: list_all_iff)
    from assms(1) this show ?thesis by (cases rule: check_ccmp_cases) (use that in auto)
  qed
  then show ?thesis using accepted_increasing [OF assms] by blast
qed

definition replay_hdr :: rx_hdr where
  "replay_hdr = \<lparr>rh_fc = 0x0188, rh_seq_ctrl = 0, rh_to_me = True, rh_addr2 = 0\<rparr>"

definition pn_frame :: "u8 \<Rightarrow> rx_pkt" where
  "pn_frame n = \<lparr>rf_id = unat n, rf_len = 100, rf_wcid = Some 0, rf_decrypted = True, rf_only_monitor = False,
     rf_8023 = False, rf_iv_stripped = True, rf_pn_validated = False, rf_ampdu_details = True, rf_ampdu_ref = 7,
     rf_iv = [0, 0, 0, 0, 0, n], rf_qos_ctl = 0, rf_phy_idx = 0, rf_signal = -40, rf_chains = 1,
     rf_chain_signal = [-40], rf_hdr = replay_hdr\<rparr>"

definition demo_client :: rx_client where
  "demo_client = \<lparr>rc_sta = True, rc_idx = 1, rc_check_pn = True, rc_key_pn = (\<lambda>_. replicate 6 0), rc_check_ps = True,
     rc_ps = False, rc_inactive = 3, rc_link_valid = False, rc_link_id = 0\<rparr>"

definition demo_dev :: rx_dev where
  "demo_dev = \<lparr>rd_client = (\<lambda>_. demo_client), rd_table = [1 \<mapsto> 0, 255 \<mapsto> 9], rd_sw_airtime = True, rd_sta_ps = True,
     rd_cc_bss_rx = 5, rd_ampdu_len = 0, rd_ampdu_ref = 0, rd_ampdu_idx = 0, rd_ampdu_status = pn_frame 0,
     rd_find_sta = (\<lambda>_ _. None), rd_log = []\<rparr>"

lemmas demo_defs = replay_hdr_def pn_frame_def demo_client_def demo_dev_def

definition pn_dev :: "u8 \<Rightarrow> rx_dev" where
  "pn_dev k = demo_dev\<lparr>rd_client :=
     (rd_client demo_dev)(0 := demo_client\<lparr>rc_key_pn := (\<lambda>_. replicate 6 0)(0 := [0, 0, 0, 0, 0, k])\<rparr>)\<rparr>"

lemma pn_dev_check:
  "pn_checked (pn_dev k) (pn_frame n) = Some 0"
  "security_idx (pn_frame n) = 0"
  by (simp_all add: pn_checked_def pn_dev_def demo_defs security_idx_def tid_of_def rh_mgmt_def)

lemma pn_dev_accepted:
  "accepted (pn_dev k) 0 0 (pn_frame n # fs) =
     (if n \<le> k then accepted (pn_dev k) 0 0 fs else unat n # accepted (pn_dev n) 0 0 fs)"
proof -
  have key: "rc_key_pn (rd_client (pn_dev k) 0) 0 = [0, 0, 0, 0, 0, k]" by (simp add: pn_dev_def)
  have upd: "upd_client 0 (\<lambda>c. c\<lparr>rc_key_pn := (rc_key_pn c)(0 := [0, 0, 0, 0, 0, n])\<rparr>) (pn_dev k) = pn_dev n"
    by (simp add: upd_client_def pn_dev_def)
  have f: "rf_iv (pn_frame n) = [0, 0, 0, 0, 0, n]" "rf_iv_stripped (pn_frame n)"
    "\<not> rf_only_monitor (pn_frame n)" by (simp_all add: pn_frame_def)
  have cmp: "memcmp [0, 0, 0, 0, 0, n] [0, 0, 0, 0, 0, k] \<le> 0 \<longleftrightarrow> n \<le> k"
    by (cases n k rule: linorder_cases) auto
  show ?thesis
    by (simp add: mt76_check_ccmp_pn_def Let_def pn_dev_check key f cmp upd del: memcmp.simps)
qed

text \<open>Packet numbers 1, 1 (a replay), 3 and 2 (too old) on a counter of 0: 1 and 3 are accepted.\<close>

theorem ccmp_replay_rejected_witness:
  "accepted (pn_dev 0) 0 0 [pn_frame 1, pn_frame 1, pn_frame 3, pn_frame 2] = [1, 3]
    \<and> sorted_wrt (<) (pn_value (rc_key_pn (rd_client (pn_dev 0) 0) 0)
         # accepted (pn_dev 0) 0 0 [pn_frame 1, pn_frame 1, pn_frame 3, pn_frame 2])"
proof
  show "accepted (pn_dev 0) 0 0 [pn_frame 1, pn_frame 1, pn_frame 3, pn_frame 2] = [1, 3]"
    by (simp add: pn_dev_accepted word_le_nat_alt del: accepted.simps(2))
  have "pn_wf (pn_dev 0)" by (simp add: pn_wf_def pn_dev_def demo_defs)
  moreover have "list_all (\<lambda>f. length (rf_iv f) = 6) [pn_frame 1, pn_frame 1, pn_frame 3, pn_frame 2]"
    by (simp add: pn_frame_def)
  ultimately show "sorted_wrt (<) (pn_value (rc_key_pn (rd_client (pn_dev 0) 0) 0)
         # accepted (pn_dev 0) 0 0 [pn_frame 1, pn_frame 1, pn_frame 3, pn_frame 2])"
    using ccmp_replay_rejected [of "pn_dev 0" "[pn_frame 1, pn_frame 1, pn_frame 3, pn_frame 2]" 0 0] by blast
qed

section \<open>Power-save transitions\<close>

text \<open>What a frame says about the power state of client \<open>w\<close>, if anything.\<close>

definition ps_bit :: "rx_dev \<Rightarrow> nat \<Rightarrow> rx_pkt \<Rightarrow> bool option" where
  "ps_bit dev w f =
     (if rf_wcid f = Some w \<and> rc_sta (rd_client dev w) \<and> rc_check_ps (rd_client dev w) \<and> \<not> rf_8023 f
         \<and> \<not> rh_pspoll (rf_hdr f) \<and> \<not> rh_morefrags (rf_hdr f) \<and> (rh_mgmt (rf_hdr f) \<or> rh_data (rf_hdr f))
      then Some (rh_pm (rf_hdr f)) else None)"

definition ps_seen :: "rx_dev \<Rightarrow> nat \<Rightarrow> rx_pkt list \<Rightarrow> bool list" where
  "ps_seen dev w fs = List.map_filter (ps_bit dev w) fs"

fun is_ps_call :: "nat \<Rightarrow> rx_call \<Rightarrow> bool" where
  "is_ps_call w (Ps_transition v b) = (v = w)"
| "is_ps_call w (Drv_sta_ps v b) = (v = w)"
| "is_ps_call w _ = False"

definition ps_calls :: "nat \<Rightarrow> rx_dev \<Rightarrow> rx_call list" where
  "ps_calls w dev = filter (is_ps_call w) (rd_log dev)"

definition ps_step :: "rx_dev \<Rightarrow> nat \<Rightarrow> bool \<Rightarrow> rx_call list" where
  "ps_step dev w b = (if rd_sta_ps dev then [Drv_sta_ps w b] else []) @ [Ps_transition w b]"

definition check_sta_run :: "(rx_pkt \<Rightarrow> nat \<Rightarrow> nat) \<Rightarrow> rx_dev \<Rightarrow> rx_pkt list \<Rightarrow> rx_dev" where
  "check_sta_run airtime dev fs = fold (\<lambda>f dev. snd (mt76_check_sta airtime dev f)) fs dev"

text \<open>What no frame changes.\<close>

definition same_setup :: "rx_dev \<Rightarrow> rx_dev \<Rightarrow> bool" where
  "same_setup a b \<longleftrightarrow> rd_sta_ps a = rd_sta_ps b
     \<and> (\<forall>w. rc_sta (rd_client a w) = rc_sta (rd_client b w) \<and> rc_check_ps (rd_client a w) = rc_check_ps (rd_client b w))"

lemma airtime_report_frame:
  "rd_client (mt76_airtime_report airtime dev f n) = rd_client dev
    \<and> rd_sta_ps (mt76_airtime_report airtime dev f n) = rd_sta_ps dev
    \<and> ps_calls w (mt76_airtime_report airtime dev f n) = ps_calls w dev"
  by (simp add: mt76_airtime_report_def Let_def rx_log_def ps_calls_def split: option.split)

lemma airtime_flush_frame:
  "rd_client (mt76_airtime_flush_ampdu airtime dev) = rd_client dev
    \<and> rd_sta_ps (mt76_airtime_flush_ampdu airtime dev) = rd_sta_ps dev
    \<and> ps_calls w (mt76_airtime_flush_ampdu airtime dev) = ps_calls w dev"
  by (simp add: mt76_airtime_flush_ampdu_def Let_def airtime_report_frame)
     (simp add: ps_calls_def mt76_airtime_report_def Let_def rx_log_def split: option.split)

lemma airtime_check_frame:
  "rd_client (mt76_airtime_check airtime dev f) = rd_client dev
    \<and> rd_sta_ps (mt76_airtime_check airtime dev f) = rd_sta_ps dev
    \<and> ps_calls w (mt76_airtime_check airtime dev f) = ps_calls w dev"
  using airtime_flush_frame [of airtime dev w] airtime_report_frame [of airtime _ f "rf_len f" w]
  by (simp add: mt76_airtime_check_def Let_def ps_calls_def)

lemma client_of_Some: "client_of dev f = Some v \<longleftrightarrow> rf_wcid f = Some v \<and> rc_sta (rd_client dev v)"
  by (auto simp: client_of_def split: option.splits if_splits)

text \<open>One frame: nothing happens to \<open>w\<close>, or one transition, when the frame contradicts the flag.\<close>

lemma check_sta_ps_own:
  assumes "rf_wcid f = Some w" "rc_sta (rd_client dev w)"
  defines "d \<equiv> check_sta_ps dev w f"
  shows "same_setup d dev"
    "ps_calls w d = ps_calls w dev @ (case ps_bit dev w f of
       Some b \<Rightarrow> if rc_ps (rd_client dev w) = b then [] else ps_step dev w b | None \<Rightarrow> [])"
    "rc_ps (rd_client d w) = (case ps_bit dev w f of Some b \<Rightarrow> b | None \<Rightarrow> rc_ps (rd_client dev w))"
  using assms(1,2) unfolding d_def
  by (simp_all add: check_sta_ps_def Let_def ps_bit_def ps_step_def ps_calls_def rx_log_def upd_client_def same_setup_def)

lemma check_sta_ps_other:
  assumes "v \<noteq> w"
  shows "same_setup (check_sta_ps dev v f) dev" "ps_calls w (check_sta_ps dev v f) = ps_calls w dev"
    "rc_ps (rd_client (check_sta_ps dev v f) w) = rc_ps (rd_client dev w)"
  using assms
  by (simp_all add: check_sta_ps_def Let_def ps_calls_def rx_log_def upd_client_def same_setup_def)

lemma check_sta_step:
  fixes airtime :: "rx_pkt \<Rightarrow> nat \<Rightarrow> nat" and dev :: rx_dev and f :: rx_pkt and w :: nat
  defines "d \<equiv> snd (mt76_check_sta airtime dev f)"
  shows "same_setup d dev"
    "ps_calls w d = ps_calls w dev @ (case ps_bit dev w f of
       Some b \<Rightarrow> if rc_ps (rd_client dev w) = b then [] else ps_step dev w b | None \<Rightarrow> [])"
    "rc_ps (rd_client d w) = (case ps_bit dev w f of Some b \<Rightarrow> b | None \<Rightarrow> rc_ps (rd_client dev w))"
proof -
  define g where "g = (if rh_pspoll (rf_hdr f) \<and> rf_wcid f = None \<and> \<not> rf_8023 f
    then (case rd_find_sta dev (rf_phy_idx f) (rh_addr2 (rf_hdr f)) of
            Some w \<Rightarrow> f\<lparr>rf_wcid := Some w\<rparr> | None \<Rightarrow> f) else f)"
  define a where "a = mt76_airtime_check airtime dev g"
  have bit: "ps_bit dev w f = ps_bit dev w g"
    by (simp add: g_def ps_bit_def split: option.split)
  have a: "rd_client a = rd_client dev" "rd_sta_ps a = rd_sta_ps dev" "ps_calls w a = ps_calls w dev"
    using airtime_check_frame [of airtime dev g w] by (simp_all add: a_def)
  have d: "d = (case client_of a g of None \<Rightarrow> a | Some v \<Rightarrow>
      check_sta_ps (upd_client v (\<lambda>c. c\<lparr>rc_inactive := 0\<rparr>)
        (if rf_signal g \<le> 0 then rx_log (Rssi_add v (- rf_signal g)) a else a)) v g)"
    by (simp add: d_def mt76_check_sta_def Let_def g_def a_def split: option.split)
  have "same_setup d dev
    \<and> ps_calls w d = ps_calls w dev @ (case ps_bit dev w f of
        Some b \<Rightarrow> if rc_ps (rd_client dev w) = b then [] else ps_step dev w b | None \<Rightarrow> [])
    \<and> rc_ps (rd_client d w) = (case ps_bit dev w f of Some b \<Rightarrow> b | None \<Rightarrow> rc_ps (rd_client dev w))"
  proof (cases "client_of a g")
    case None
    then have "ps_bit dev w g = None"
      using a client_of_Some [of a g w] by (auto simp: ps_bit_def)
    then show ?thesis using None a by (simp add: d bit same_setup_def)
  next
    case (Some v)
    define b where "b = upd_client v (\<lambda>c. c\<lparr>rc_inactive := 0\<rparr>)
        (if rf_signal g \<le> 0 then rx_log (Rssi_add v (- rf_signal g)) a else a)"
    have g: "rf_wcid g = Some v" "rc_sta (rd_client b v)" and b: "same_setup b dev" "ps_calls w b = ps_calls w dev"
      "rc_ps (rd_client b w) = rc_ps (rd_client dev w)" "ps_bit b w g = ps_bit dev w g"
      "ps_step b w = ps_step dev w"
      using Some a by (auto simp: client_of_Some b_def upd_client_def rx_log_def same_setup_def ps_calls_def ps_bit_def ps_step_def)
    have tr: "same_setup e dev" if "same_setup e b" for e using that b(1) by (simp add: same_setup_def)
    have db: "d = check_sta_ps b v g" by (simp add: d Some b_def)
    show ?thesis
    proof (cases "v = w")
      case True
      show ?thesis unfolding db bit
        using check_sta_ps_own [of g w b] g b tr True by (auto split: option.splits)
    next
      case False
      then have "ps_bit dev w g = None" using g(1) by (simp add: ps_bit_def)
      then show ?thesis unfolding db bit
        using check_sta_ps_other [OF False] b tr by simp
    qed
  qed
  then show "same_setup d dev"
    "ps_calls w d = ps_calls w dev @ (case ps_bit dev w f of
       Some b \<Rightarrow> if rc_ps (rd_client dev w) = b then [] else ps_step dev w b | None \<Rightarrow> [])"
    "rc_ps (rd_client d w) = (case ps_bit dev w f of Some b \<Rightarrow> b | None \<Rightarrow> rc_ps (rd_client dev w))"
    by blast+
qed

lemma same_setup_ps_bit: "same_setup a b \<Longrightarrow> ps_bit a w f = ps_bit b w f"
  by (simp add: same_setup_def ps_bit_def)

lemma same_setup_ps_step: "same_setup a b \<Longrightarrow> ps_step a w = ps_step b w"
  by (rule ext) (simp add: same_setup_def ps_step_def)

lemma tl_remdups_adj_step:
  "tl (remdups_adj (p # b # bs)) = (if p = b then [] else [b]) @ tl (remdups_adj (b # bs))"
  using remdups_adj_Cons_alt [of b bs] by simp

text \<open>
  Power-save tracking: over any frames, a client's transitions are told to the driver and
  then to mac80211 exactly where the power management bits of the frames that count change, in
  that order and never twice in a row; and the flag ends as the last such bit.
\<close>

theorem ps_transitions_follow_frames:
  "ps_calls w (check_sta_run airtime dev fs) = ps_calls w dev
      @ concat (map (ps_step dev w) (tl (remdups_adj (rc_ps (rd_client dev w) # ps_seen dev w fs))))
    \<and> rc_ps (rd_client (check_sta_run airtime dev fs) w) = last (rc_ps (rd_client dev w) # ps_seen dev w fs)"
proof (induction fs arbitrary: dev)
  case Nil
  then show ?case by (simp add: check_sta_run_def ps_seen_def)
next
  case (Cons f fs)
  define d where "d = snd (mt76_check_sta airtime dev f)"
  note step = check_sta_step [where airtime = airtime and dev = dev and f = f, folded d_def]
  have run: "check_sta_run airtime dev (f # fs) = check_sta_run airtime d fs"
    by (simp add: check_sta_run_def d_def)
  have "ps_bit d w = ps_bit dev w" using same_setup_ps_bit [OF step(1)] by (rule ext)
  then have "ps_seen d w fs = ps_seen dev w fs" and "ps_step d w = ps_step dev w"
    using same_setup_ps_step [OF step(1)] by (simp_all add: ps_seen_def)
  moreover have "ps_seen dev w (f # fs) = (case ps_bit dev w f of Some b \<Rightarrow> [b] | None \<Rightarrow> []) @ ps_seen dev w fs"
    by (simp add: ps_seen_def List.map_filter_simps split: option.split)
  ultimately show ?case
    using Cons.IH [of d] step(2,3) [of w] tl_remdups_adj_step [of "rc_ps (rd_client dev w)" _ "ps_seen dev w fs"]
    unfolding run by (cases "ps_bit dev w f") (simp_all split: if_splits)
qed

section \<open>Airtime of an aggregate\<close>

definition airtime_run :: "(rx_pkt \<Rightarrow> nat \<Rightarrow> nat) \<Rightarrow> rx_dev \<Rightarrow> rx_pkt list \<Rightarrow> rx_dev" where
  "airtime_run airtime dev fs = fold (\<lambda>f dev. mt76_airtime_check airtime dev f) fs dev"

text \<open>The subframes of one aggregate whose airtime counts.\<close>

definition one_aggregate :: "rx_dev \<Rightarrow> u32 \<Rightarrow> rx_pkt list \<Rightarrow> bool" where
  "one_aggregate dev ref fs \<longleftrightarrow> (\<forall>f \<in> set fs. rf_ampdu_details f \<and> rf_ampdu_ref f = ref \<and> 0 < rf_len f
     \<and> (client_of dev f \<noteq> None \<or> \<not> rf_8023 f \<and> rh_to_me (rf_hdr f)))"

text \<open>The client an aggregate is credited to: the one at the index latched at its first frame.\<close>

definition credited :: "rx_dev \<Rightarrow> rx_pkt \<Rightarrow> nat option" where
  "credited dev f = (let i = (case client_of dev f of Some w \<Rightarrow> rc_idx (rd_client dev w) | None \<Rightarrow> 0xff)
     in if i < RX_N_WCIDS then rd_table dev i else None)"

lemma client_of_cong: "rd_client a = rd_client b \<Longrightarrow> client_of a f = client_of b f"
  by (simp add: client_of_def split: option.split)

lemma airtime_check_next:
  assumes "rd_sw_airtime dev" "rf_ampdu_details f" "rf_ampdu_ref f = rd_ampdu_ref dev" "0 < rd_ampdu_len dev"
    "client_of dev f \<noteq> None \<or> \<not> rf_8023 f \<and> rh_to_me (rf_hdr f)"
  shows "mt76_airtime_check airtime dev f = dev\<lparr>rd_ampdu_len := rd_ampdu_len dev + rf_len f\<rparr>"
  using assms by (auto simp: mt76_airtime_check_def Let_def)

lemma airtime_run_next:
  assumes "rd_sw_airtime dev" "0 < rd_ampdu_len dev" "one_aggregate dev (rd_ampdu_ref dev) fs"
  shows "airtime_run airtime dev fs = dev\<lparr>rd_ampdu_len := rd_ampdu_len dev + sum_list (map rf_len fs)\<rparr>"
  using assms
proof (induction fs arbitrary: dev)
  case Nil
  then show ?case by (simp add: airtime_run_def)
next
  case (Cons f fs)
  let ?d = "dev\<lparr>rd_ampdu_len := rd_ampdu_len dev + rf_len f\<rparr>"
  have "mt76_airtime_check airtime dev f = ?d"
    using Cons.prems by (intro airtime_check_next) (auto simp: one_aggregate_def)
  then have "airtime_run airtime dev (f # fs) = airtime_run airtime ?d fs" by (simp add: airtime_run_def)
  moreover have "one_aggregate ?d (rd_ampdu_ref ?d) fs"
    using Cons.prems(3) by (simp add: one_aggregate_def client_of_cong [of ?d dev])
  ultimately show ?case using Cons.IH [of ?d] Cons.prems by (simp add: add.assoc)
qed

text \<open>
  The subframes of one aggregate are accounted once, when it is flushed: one airtime of the
  sum of their lengths at the rate of the first, credited to the client behind the index latched
  there. For frames of no client that index is 255, which is a client's if 255 clients are
  in the table.
\<close>

theorem aggregate_airtime_once:
  assumes "rd_sw_airtime dev" "rd_ampdu_len dev = 0" "one_aggregate dev (rf_ampdu_ref f) (f # fs)"
  shows "let run = airtime_run airtime dev (f # fs); c = credited dev f; fl = mt76_airtime_flush_ampdu airtime run;
      t = airtime (f\<lparr>rf_wcid := c\<rparr>) (sum_list (map rf_len (f # fs)))
    in rd_log run = rd_log dev \<and> rd_cc_bss_rx run = rd_cc_bss_rx dev
      \<and> rd_cc_bss_rx fl = rd_cc_bss_rx dev + t \<and> rd_ampdu_len fl = 0
      \<and> rd_log fl = rd_log dev @ (case c of Some w \<Rightarrow>
          if rc_sta (rd_client dev w) then [Register_airtime w (tid_of f) t] else [] | None \<Rightarrow> [])"
proof -
  define d where "d = dev\<lparr>rd_ampdu_status := f,
    rd_ampdu_idx := (case client_of dev f of Some w \<Rightarrow> rc_idx (rd_client dev w) | None \<Rightarrow> 0xff),
    rd_ampdu_ref := rf_ampdu_ref f, rd_ampdu_len := rf_len f\<rparr>"
  have "mt76_airtime_flush_ampdu airtime dev = dev" using assms(2) by (simp add: mt76_airtime_flush_ampdu_def)
  then have "mt76_airtime_check airtime dev f = d"
    using assms by (auto simp: mt76_airtime_check_def one_aggregate_def d_def Let_def split: option.split)
  then have "airtime_run airtime dev (f # fs) = airtime_run airtime d fs" by (simp add: airtime_run_def)
  also have "\<dots> = d\<lparr>rd_ampdu_len := sum_list (map rf_len (f # fs))\<rparr>"
    using assms airtime_run_next [of d fs airtime]
    by (simp add: d_def one_aggregate_def client_of_cong [of "dev\<lparr>rd_ampdu_status := _, rd_ampdu_idx := _,
      rd_ampdu_ref := _, rd_ampdu_len := _\<rparr>" dev])
  finally have run: "airtime_run airtime dev (f # fs) = d\<lparr>rd_ampdu_len := sum_list (map rf_len (f # fs))\<rparr>" .
  have "0 < rf_len f" using assms(3) by (simp add: one_aggregate_def)
  then show ?thesis
    unfolding run Let_def
    by (simp add: d_def mt76_airtime_flush_ampdu_def mt76_airtime_report_def Let_def credited_def rx_log_def tid_of_def
        split: option.splits)
qed

text \<open>Two subframes from a sender that is no client are credited to client 9, which has index 255.\<close>

definition alien_frame :: rx_pkt where
  "alien_frame = (pn_frame 1)\<lparr>rf_wcid := None\<rparr>"

theorem aggregate_airtime_once_witness:
  "credited demo_dev alien_frame = Some 9
    \<and> rd_log (mt76_airtime_flush_ampdu (\<lambda>_ n. n) (airtime_run (\<lambda>_ n. n) demo_dev [alien_frame, alien_frame]))
        = [Register_airtime 9 0 200]"
proof -
  have c: "credited demo_dev alien_frame = Some 9"
    by (simp add: credited_def client_of_def alien_frame_def demo_defs RX_N_WCIDS_def)
  have "one_aggregate demo_dev (rf_ampdu_ref alien_frame) [alien_frame, alien_frame]"
    by (simp add: one_aggregate_def alien_frame_def demo_defs)
  then show ?thesis
    using aggregate_airtime_once [of demo_dev alien_frame "[alien_frame]" "\<lambda>_ n. n"] c
    by (simp add: Let_def) (simp add: alien_frame_def demo_defs tid_of_def)
qed

end
