(* ===== verification/ChanCtx.thy ===== *)
theory ChanCtx
  imports Mt76Prelude
begin

text \<open>
  Channel contexts, scanning and remaining on a channel: src/src/mt76/channel.c, src/src/mt76/scan.c
  and the channel switch of src/src/mt76/mac80211.c. Radios, interfaces, channel contexts and links
  are numbered; an interface's \<open>drv_priv\<close> is its default link. Every operation runs alone except
  for \<open>dev->mutex\<close>, which is part of the state: an operation that takes it while its caller holds
  it never returns. The results of the driver's operations and of the allocations are parameters.
\<close>

section \<open>State\<close>

text \<open>A link is the one embedded in interface \<open>v\<close>, or one that was allocated.\<close>

datatype link_id = Deflink nat | Mlink nat

text \<open>A channel is its centre frequency.\<close>

record chandef =
  cd_chan :: nat
  cd_width :: nat

record radio =
  ra_chandef :: chandef
  ra_main :: "chandef option"
  ra_chanctx :: "nat option"
  ra_offchannel :: bool
  ra_radar_enabled :: bool
  ra_dfs_unknown :: bool
  ra_scanning :: bool
  ra_num_sta :: nat
  ra_survey :: "nat \<Rightarrow> nat"
  ra_roc_vif :: "nat option"
  ra_roc_link :: "link_id option"
  ra_roc_work :: bool

record vif_link =
  vl_offchannel :: bool
  vl_ctx :: "nat option"
  vl_mvif :: nat

record vif_data =
  vd_monitor :: bool
  vd_link :: "nat \<Rightarrow> link_id option"
  vd_offchannel_link :: "link_id option"
  vd_roc_phy :: "nat option"

record scan_req =
  rq_channels :: "nat list"
  rq_n_ssids :: nat
  rq_bssid :: "nat option"
  rq_no_cck :: bool
  rq_duration :: nat

record hw_scan_state =
  sc_req :: "scan_req option"
  sc_chan :: "nat option"
  sc_vif :: "nat option"
  sc_mlink :: "link_id option"
  sc_phy :: "nat option"
  sc_chan_idx :: nat

record chan_conf =
  cf_def :: chandef
  cf_radar :: bool

datatype chan_ev =
    Drv_set_channel nat chandef bool
  | Link_add nat nat link_id
  | Link_remove nat nat link_id
  | Link_free link_id
  | Scan_accepted
  | Scan_completed bool
  | Scan_dropped
  | Probe nat link_id nat nat "nat option" bool
  | Ready_on_channel nat
  | Roc_expired nat

record chan_dev =
  cv_mutex :: bool
  cv_mcu_reset :: bool
  cv_radio :: "nat \<Rightarrow> radio"
  cv_vif :: "nat \<Rightarrow> vif_data"
  cv_link :: "link_id \<Rightarrow> vif_link option"
  cv_next_link :: nat
  cv_conf :: "nat \<Rightarrow> chan_conf"
  cv_ctx_phy :: "nat \<Rightarrow> nat option"
  cv_scan :: hw_scan_state
  cv_scan_work :: "nat option"
  cv_log :: "chan_ev list"

text \<open>
  What one call meets: whether an allocation succeeds, the results of \<open>vif_link_add\<close> for each
  interface, of \<open>set_channel\<close>, and for each SSID whether a probe request could be built and prepared.
  The rest describes the machine: the bands, their radios, the channels' flags, the clock.
\<close>

record chan_env =
  ce_alloc :: bool
  ce_link_add :: "nat \<Rightarrow> int"
  ce_set_channel :: int
  ce_probe_skb :: "nat \<Rightarrow> bool"
  ce_probe_prepared :: "nat \<Rightarrow> bool"
  ce_has_link_add :: bool
  ce_n_radio :: nat
  ce_band :: "nat \<Rightarrow> nat"
  ce_band_phys :: "nat \<Rightarrow> nat option"
  ce_passive :: "nat \<Rightarrow> bool"
  ce_hz :: nat
  ce_msecs_to_jiffies :: "nat \<Rightarrow> nat"

datatype 'a outcome = Done 'a chan_dev | Deadlock | Null_deref

definition and_then :: "'a outcome \<Rightarrow> ('a \<Rightarrow> chan_dev \<Rightarrow> 'b outcome) \<Rightarrow> 'b outcome" where
  "and_then m k = (case m of Done r dev \<Rightarrow> k r dev | Deadlock \<Rightarrow> Deadlock | Null_deref \<Rightarrow> Null_deref)"

lemma and_then_simps [simp]:
  "and_then (Done r dev) k = k r dev" "and_then Deadlock k = Deadlock" "and_then Null_deref k = Null_deref"
  by (simp_all add: and_then_def)

text \<open>A section between \<open>mutex_lock(&dev->mutex)\<close> and \<open>mutex_unlock\<close>.\<close>

definition locked :: "(chan_dev \<Rightarrow> 'a outcome) \<Rightarrow> chan_dev \<Rightarrow> 'a outcome" where
  "locked body dev =
     (if cv_mutex dev then Deadlock
      else and_then (body (dev\<lparr>cv_mutex := True\<rparr>)) (\<lambda>r dev. Done r (dev\<lparr>cv_mutex := False\<rparr>)))"

definition cc_log :: "chan_ev \<Rightarrow> chan_dev \<Rightarrow> chan_dev" where
  "cc_log e dev = dev\<lparr>cv_log := cv_log dev @ [e]\<rparr>"

definition upd_radio :: "nat \<Rightarrow> (radio \<Rightarrow> radio) \<Rightarrow> chan_dev \<Rightarrow> chan_dev" where
  "upd_radio p f dev = dev\<lparr>cv_radio := (cv_radio dev)(p := f (cv_radio dev p))\<rparr>"

definition upd_vif :: "nat \<Rightarrow> (vif_data \<Rightarrow> vif_data) \<Rightarrow> chan_dev \<Rightarrow> chan_dev" where
  "upd_vif v f dev = dev\<lparr>cv_vif := (cv_vif dev)(v := f (cv_vif dev v))\<rparr>"

definition upd_link :: "link_id \<Rightarrow> (vif_link \<Rightarrow> vif_link) \<Rightarrow> chan_dev \<Rightarrow> chan_dev" where
  "upd_link m f dev = dev\<lparr>cv_link := (cv_link dev)(m := map_option f (cv_link dev m))\<rparr>"

definition free_link :: "link_id \<Rightarrow> chan_dev \<Rightarrow> chan_dev" where
  "free_link m dev = cc_log (Link_free m) (dev\<lparr>cv_link := (cv_link dev)(m := None)\<rparr>)"

section \<open>Switching the channel\<close>

definition HT20 :: nat where "HT20 = 20"

text \<open>
  \<open>__mt76_set_channel\<close>. The transmit worker is stopped around it and \<open>MT76_RESET\<close> set and cleared
  again, which leaves no trace.
\<close>

definition tune :: "chandef \<Rightarrow> bool \<Rightarrow> radio \<Rightarrow> radio" where
  "tune cd off r =
     (let main = (if off then ra_main r else Some cd)
      in r\<lparr>ra_dfs_unknown := (ra_dfs_unknown r \<or> ra_chandef r \<noteq> cd),
           ra_chandef := cd, ra_offchannel := off, ra_main := main,
           ra_survey := (if map_option cd_chan main \<noteq> Some (cd_chan cd)
                         then (ra_survey r)(cd_chan cd := 0) else ra_survey r)\<rparr>)"

definition set_channel :: "chan_env \<Rightarrow> nat \<Rightarrow> chandef \<Rightarrow> bool \<Rightarrow> chan_dev \<Rightarrow> int \<times> chan_dev" where
  "set_channel env p cd off dev =
     (ce_set_channel env, cc_log (Drv_set_channel p cd off) (upd_radio p (tune cd off) dev))"

definition mt76_set_channel :: "chan_env \<Rightarrow> nat \<Rightarrow> chandef \<Rightarrow> bool \<Rightarrow> chan_dev \<Rightarrow> int outcome" where
  "mt76_set_channel env p cd off dev =
     locked (\<lambda>dev. let (ret, dev) = set_channel env p cd off dev in Done ret dev) dev"

text \<open>Back to \<open>phy->main_chandef\<close>.\<close>

definition set_main_channel :: "chan_env \<Rightarrow> nat \<Rightarrow> chan_dev \<Rightarrow> int outcome" where
  "set_main_channel env p dev =
     (case ra_main (cv_radio dev p) of
        None \<Rightarrow> Null_deref
      | Some cd \<Rightarrow> mt76_set_channel env p cd False dev)"

section \<open>Links\<close>

definition mt76_vif_conf_link :: "chan_dev \<Rightarrow> nat \<Rightarrow> nat option \<Rightarrow> link_id option" where
  "mt76_vif_conf_link dev v link_conf =
     (case link_conf of
        None \<Rightarrow> Some (Deflink v)
      | Some link_id \<Rightarrow> if link_id = 0 then Some (Deflink v) else vd_link (cv_vif dev v) link_id)"

definition mt76_vif_link_phy :: "chan_dev \<Rightarrow> link_id \<Rightarrow> nat option" where
  "mt76_vif_link_phy dev m =
     (case cv_link dev m of
        None \<Rightarrow> None
      | Some l \<Rightarrow> (case vl_ctx l of None \<Rightarrow> None | Some c \<Rightarrow> cv_ctx_phy dev c))"

definition mt76_alloc_mlink :: "chan_env \<Rightarrow> nat \<Rightarrow> chan_dev \<Rightarrow> link_id option \<times> chan_dev" where
  "mt76_alloc_mlink env v dev =
     (if ce_alloc env
      then let m = Mlink (cv_next_link dev)
           in (Some m, dev\<lparr>cv_next_link := cv_next_link dev + 1,
                 cv_link := (cv_link dev)(m \<mapsto> \<lparr>vl_offchannel = False, vl_ctx = None, vl_mvif = v\<rparr>)\<rparr>)
      else (None, dev))"

definition MAX_NUM_LINKS :: nat where "MAX_NUM_LINKS = 15"

definition get_vif_phy_link_loop :: "chan_dev \<Rightarrow> nat \<Rightarrow> nat \<Rightarrow> link_id option" where
  "get_vif_phy_link_loop dev p v =
     (let found = List.map_filter (\<lambda>i. case vd_link (cv_vif dev v) i of
          None \<Rightarrow> None | Some m \<Rightarrow> if mt76_vif_link_phy dev m = Some p then Some m else None) [0..<MAX_NUM_LINKS]
      in case found of [] \<Rightarrow> None | m # _ \<Rightarrow> Some m)"

definition mt76_get_vif_phy_link :: "chan_env \<Rightarrow> nat \<Rightarrow> nat \<Rightarrow> chan_dev \<Rightarrow> (int + link_id) \<times> chan_dev" where
  "mt76_get_vif_phy_link env p v dev =
     (case get_vif_phy_link_loop dev p v of
        Some m \<Rightarrow> (Inr m, dev)
      | None \<Rightarrow>
          if \<not> ce_has_link_add env then (Inl (-22), dev)
          else case mt76_alloc_mlink env v dev of
            (None, dev) \<Rightarrow> (Inl (-12), dev)
          | (Some m, dev) \<Rightarrow>
              let dev = upd_link m (\<lambda>l. l\<lparr>vl_offchannel := True\<rparr>) dev;
                  ret = ce_link_add env 0
              in if ret \<noteq> 0 then (Inl ret, free_link m dev)
                 else (Inr m, upd_vif v (\<lambda>d. d\<lparr>vd_offchannel_link := Some m\<rparr>) (cc_log (Link_add p v m) dev)))"

definition mt76_put_vif_phy_link :: "nat \<Rightarrow> nat \<Rightarrow> link_id option \<Rightarrow> chan_dev \<Rightarrow> chan_dev" where
  "mt76_put_vif_phy_link p v mlink dev =
     (case mlink of
        None \<Rightarrow> dev
      | Some m \<Rightarrow>
          (case cv_link dev m of
             None \<Rightarrow> dev
           | Some l \<Rightarrow>
               if \<not> vl_offchannel l then dev
               else let dev = upd_vif (vl_mvif l) (\<lambda>d. d\<lparr>vd_offchannel_link := None\<rparr>) dev
                    in free_link m (cc_log (Link_remove p v m) dev)))"

section \<open>Scanning\<close>

definition no_scan :: hw_scan_state where
  "no_scan = \<lparr>sc_req = None, sc_chan = None, sc_vif = None, sc_mlink = None, sc_phy = None, sc_chan_idx = 0\<rparr>"

definition scan_finish :: "nat \<Rightarrow> bool \<Rightarrow> chan_dev \<Rightarrow> chan_dev" where
  "scan_finish p aborted dev =
     (let sc = cv_scan dev; dev = mt76_put_vif_phy_link p (the (sc_vif sc)) (sc_mlink sc) dev
      in cc_log (if cv_mcu_reset dev then Scan_dropped else Scan_completed aborted) (dev\<lparr>cv_scan := no_scan\<rparr>))"

definition mt76_scan_complete :: "chan_env \<Rightarrow> bool \<Rightarrow> chan_dev \<Rightarrow> unit outcome" where
  "mt76_scan_complete env aborted dev =
     (case sc_phy (cv_scan dev) of
        None \<Rightarrow> Done () dev
      | Some p \<Rightarrow>
          let dev = upd_radio p (\<lambda>r. r\<lparr>ra_scanning := False\<rparr>) dev in
          and_then (if sc_chan (cv_scan dev) \<noteq> None \<and> ra_main (cv_radio dev p) \<noteq> None \<and> \<not> cv_mcu_reset dev
                    then set_main_channel env p dev else Done 0 dev)
            (\<lambda>_ dev. Done () (scan_finish p aborted dev)))"

definition mt76_abort_scan :: "chan_env \<Rightarrow> chan_dev \<Rightarrow> unit outcome" where
  "mt76_abort_scan env dev = mt76_scan_complete env True (dev\<lparr>cv_scan_work := None\<rparr>)"

text \<open>The transmission of the probe request (\<open>mt76_tx\<close>) is logged with its addresses.\<close>

definition mt76_scan_send_probe :: "chan_env \<Rightarrow> nat \<Rightarrow> chan_dev \<Rightarrow> chan_dev" where
  "mt76_scan_send_probe env i dev =
     (case (sc_req (cv_scan dev), sc_chan (cv_scan dev), sc_phy (cv_scan dev), sc_mlink (cv_scan dev)) of
        (Some req, Some chan, Some p, Some m) \<Rightarrow>
          if \<not> ce_probe_skb env i then dev
          else if \<not> ce_probe_prepared env i then dev
          else cc_log (Probe p m chan i (rq_bssid req) (rq_no_cck req)) dev
      | _ \<Rightarrow> dev)"

definition mt76_scan_work :: "chan_env \<Rightarrow> chan_dev \<Rightarrow> unit outcome" where
  "mt76_scan_work env dev =
     (let dev = dev\<lparr>cv_scan_work := None\<rparr>; sc = cv_scan dev in
      case (sc_req sc, sc_phy sc) of
        (Some req, Some p) \<Rightarrow>
          if length (rq_channels req) \<le> sc_chan_idx sc then mt76_scan_complete env False dev
          else if sc_chan sc \<noteq> None \<and> ra_num_sta (cv_radio dev p) \<noteq> 0
          then and_then (set_main_channel env p (dev\<lparr>cv_scan := sc\<lparr>sc_chan := None\<rparr>\<rparr>))
                 (\<lambda>_ dev. Done () (dev\<lparr>cv_scan_work := Some (ce_hz env div 9)\<rparr>))
          else let chan = rq_channels req ! sc_chan_idx sc;
                   dev = dev\<lparr>cv_scan := sc\<lparr>sc_chan := Some chan, sc_chan_idx := sc_chan_idx sc + 1\<rparr>\<rparr>
               in and_then (mt76_set_channel env p \<lparr>cd_chan = chan, cd_width = HT20\<rparr> True dev)
                    (\<lambda>_ dev.
                       let passive = (rq_n_ssids req = 0 \<or> ce_passive env chan);
                           dev = (if passive then dev else fold (mt76_scan_send_probe env) [0..<rq_n_ssids req] dev);
                           duration = (if passive then ce_hz env div 9 else ce_hz env div 16);
                           duration = max duration
                             (ce_msecs_to_jiffies env (rq_duration req + rq_duration req div 32))
                       in Done () (dev\<lparr>cv_scan_work := Some duration\<rparr>))
      | _ \<Rightarrow> Null_deref)"

definition mt76_hw_scan :: "chan_env \<Rightarrow> nat \<Rightarrow> nat \<Rightarrow> scan_req \<Rightarrow> chan_dev \<Rightarrow> int outcome" where
  "mt76_hw_scan env hw_phy v req dev =
     (case (if 1 < ce_n_radio env then ce_band_phys env (ce_band env (hd (rq_channels req))) else Some hw_phy) of
        None \<Rightarrow> Done (-22) dev
      | Some p \<Rightarrow> locked (\<lambda>dev.
          if sc_req (cv_scan dev) \<noteq> None \<or> ra_roc_vif (cv_radio dev p) \<noteq> None \<or> cv_mcu_reset dev
          then Done (-16) dev
          else case mt76_get_vif_phy_link env p v dev of
            (Inl ret, dev) \<Rightarrow> Done ret dev
          | (Inr m, dev) \<Rightarrow> Done 0 (cc_log Scan_accepted
              (dev\<lparr>cv_scan := no_scan\<lparr>sc_req := Some req, sc_vif := Some v, sc_phy := Some p, sc_mlink := Some m\<rparr>,
                   cv_scan_work := Some 0\<rparr>))) dev)"

definition mt76_cancel_hw_scan :: "chan_env \<Rightarrow> chan_dev \<Rightarrow> unit outcome" where
  "mt76_cancel_hw_scan env dev = mt76_abort_scan env dev"

section \<open>Remaining on a channel\<close>

definition mt76_roc_complete :: "chan_env \<Rightarrow> nat \<Rightarrow> chan_dev \<Rightarrow> unit outcome" where
  "mt76_roc_complete env p dev =
     (let r = cv_radio dev p in
      case ra_roc_vif r of
        None \<Rightarrow> Done () dev
      | Some v \<Rightarrow>
          let dev = (case ra_roc_link r of
                       None \<Rightarrow> dev
                     | Some m \<Rightarrow> (case cv_link dev m of
                         None \<Rightarrow> dev
                       | Some l \<Rightarrow> upd_vif (vl_mvif l) (\<lambda>d. d\<lparr>vd_roc_phy := None\<rparr>) dev))
          in and_then (if ra_main r \<noteq> None \<and> \<not> cv_mcu_reset dev then set_main_channel env p dev else Done 0 dev)
            (\<lambda>_ dev.
               let dev = mt76_put_vif_phy_link p v (ra_roc_link r) dev;
                   dev = upd_radio p (\<lambda>r. r\<lparr>ra_roc_vif := None, ra_roc_link := None\<rparr>) dev
               in Done () (if cv_mcu_reset dev then dev else cc_log (Roc_expired p) dev)))"

definition mt76_roc_complete_work :: "chan_env \<Rightarrow> nat \<Rightarrow> chan_dev \<Rightarrow> unit outcome" where
  "mt76_roc_complete_work env p dev =
     locked (mt76_roc_complete env p) (upd_radio p (\<lambda>r. r\<lparr>ra_roc_work := False\<rparr>) dev)"

definition mt76_abort_roc :: "chan_env \<Rightarrow> nat \<Rightarrow> chan_dev \<Rightarrow> unit outcome" where
  "mt76_abort_roc env p dev =
     locked (mt76_roc_complete env p) (upd_radio p (\<lambda>r. r\<lparr>ra_roc_work := False\<rparr>) dev)"

definition mt76_remain_on_channel :: "chan_env \<Rightarrow> nat \<Rightarrow> nat \<Rightarrow> chan_dev \<Rightarrow> int outcome" where
  "mt76_remain_on_channel env v chan dev =
     (case ce_band_phys env (ce_band env chan) of
        None \<Rightarrow> Done (-22) dev
      | Some p \<Rightarrow> locked (\<lambda>dev.
          if ra_roc_vif (cv_radio dev p) \<noteq> None \<or> sc_phy (cv_scan dev) = Some p \<or> cv_mcu_reset dev
          then Done (-16) dev
          else case mt76_get_vif_phy_link env p v dev of
            (Inl ret, dev) \<Rightarrow> Done ret dev
          | (Inr m, dev) \<Rightarrow>
              let dev = upd_vif v (\<lambda>d. d\<lparr>vd_roc_phy := Some p\<rparr>) dev;
                  dev = upd_radio p (\<lambda>r. r\<lparr>ra_roc_vif := Some v, ra_roc_link := Some m\<rparr>) dev
              in and_then (mt76_set_channel env p \<lparr>cd_chan = chan, cd_width = HT20\<rparr> True dev)
                   (\<lambda>_ dev. Done 0 (upd_radio p (\<lambda>r. r\<lparr>ra_roc_work := True\<rparr>)
                       (cc_log (Ready_on_channel p) dev)))) dev)"

definition mt76_cancel_remain_on_channel :: "chan_env \<Rightarrow> nat \<Rightarrow> chan_dev \<Rightarrow> unit outcome" where
  "mt76_cancel_remain_on_channel env v dev =
     (case vd_roc_phy (cv_vif dev v) of None \<Rightarrow> Done () dev | Some p \<Rightarrow> mt76_abort_roc env p dev)"

definition mt76_vif_cleanup :: "chan_env \<Rightarrow> nat \<Rightarrow> chan_dev \<Rightarrow> unit outcome" where
  "mt76_vif_cleanup env v dev =
     (let dev = upd_vif v (\<lambda>d. d\<lparr>vd_link := (vd_link d)(0 := None)\<rparr>) dev
      in and_then (mt76_abort_scan env dev) (\<lambda>_ dev.
           case vd_roc_phy (cv_vif dev v) of None \<Rightarrow> Done () dev | Some p \<Rightarrow> mt76_abort_roc env p dev))"

section \<open>Channel contexts\<close>

definition mt76_phy_update_channel :: "chan_env \<Rightarrow> nat \<Rightarrow> nat \<Rightarrow> chan_dev \<Rightarrow> int \<times> chan_dev" where
  "mt76_phy_update_channel env p c dev =
     (let conf = cv_conf dev c;
          dev = upd_radio p (\<lambda>r. r\<lparr>ra_radar_enabled := cf_radar conf, ra_main := Some (cf_def conf),
                  ra_chanctx := Some c\<rparr>) dev
      in set_channel env p (cf_def conf) False dev)"

definition abort_scan_on :: "chan_env \<Rightarrow> nat \<Rightarrow> chan_dev \<Rightarrow> unit outcome" where
  "abort_scan_on env p dev =
     (if sc_phy (cv_scan dev) = Some p then mt76_abort_scan env dev else Done () dev)"

definition mt76_add_chanctx :: "chan_env \<Rightarrow> nat \<Rightarrow> chan_dev \<Rightarrow> int outcome" where
  "mt76_add_chanctx env c dev =
     (let phy = ce_band_phys env (ce_band env (cd_chan (cf_def (cv_conf dev c))));
          dev = dev\<lparr>cv_ctx_phy := (cv_ctx_phy dev)(c := phy)\<rparr>
      in case phy of
           None \<Rightarrow> Done (-22) dev
         | Some p \<Rightarrow> and_then (abort_scan_on env p dev) (\<lambda>_. locked (\<lambda>dev.
             if ra_chanctx (cv_radio dev p) = None
             then (let (ret, dev) = mt76_phy_update_channel env p c dev in Done ret dev)
             else Done 0 dev)))"

definition mt76_remove_chanctx :: "chan_env \<Rightarrow> nat \<Rightarrow> chan_dev \<Rightarrow> unit outcome" where
  "mt76_remove_chanctx env c dev =
     (case cv_ctx_phy dev c of
        None \<Rightarrow> Done () dev
      | Some p \<Rightarrow> and_then (abort_scan_on env p dev) (\<lambda>_. locked (\<lambda>dev.
          Done () (if ra_chanctx (cv_radio dev p) = Some c
                   then upd_radio p (\<lambda>r. r\<lparr>ra_chanctx := None\<rparr>) dev else dev))))"

text \<open>\<open>relevant\<close>: the change touches the width or the radar flag.\<close>

definition mt76_change_chanctx :: "chan_env \<Rightarrow> nat \<Rightarrow> bool \<Rightarrow> chan_dev \<Rightarrow> unit outcome" where
  "mt76_change_chanctx env c relevant dev =
     (case cv_ctx_phy dev c of
        None \<Rightarrow> Null_deref
      | Some p \<Rightarrow>
          if \<not> relevant then Done () dev
          else locked (\<lambda>dev. Done () (snd (mt76_phy_update_channel env p c dev))) dev)"

definition abort_scan_of :: "chan_env \<Rightarrow> nat \<Rightarrow> chan_dev \<Rightarrow> unit outcome" where
  "abort_scan_of env v dev =
     (if sc_vif (cv_scan dev) = Some v then mt76_abort_scan env dev else Done () dev)"

text \<open>\<open>link_conf\<close> is \<open>None\<close> for the interface's own \<open>bss_conf\<close>, else the id of the link.\<close>

definition put_slot :: "nat \<Rightarrow> nat \<Rightarrow> link_id option \<Rightarrow> chan_dev \<Rightarrow> chan_dev" where
  "put_slot v i m dev = upd_vif v (\<lambda>d. d\<lparr>vd_link := (vd_link d)(i := m)\<rparr>) dev"

definition assign_link ::
  "chan_env \<Rightarrow> nat \<Rightarrow> nat \<Rightarrow> nat option \<Rightarrow> nat \<Rightarrow> link_id \<Rightarrow> bool \<Rightarrow> chan_dev \<Rightarrow> int outcome" where
  "assign_link env p v link_conf c m mlink_alloc dev =
     (let dev = upd_link m (\<lambda>l. l\<lparr>vl_ctx := Some c\<rparr>) dev;
          ret = ce_link_add env 0
      in if ret \<noteq> 0 then Done ret (if mlink_alloc then free_link m dev else dev)
         else let dev = cc_log (Link_add p v m) dev
           in Done 0 (case link_conf of None \<Rightarrow> dev | Some i \<Rightarrow> put_slot v i (Some m) dev))"

definition mt76_assign_vif_chanctx :: "chan_env \<Rightarrow> nat \<Rightarrow> nat option \<Rightarrow> nat \<Rightarrow> chan_dev \<Rightarrow> int outcome" where
  "mt76_assign_vif_chanctx env v link_conf c dev =
     (case cv_ctx_phy dev c of
        None \<Rightarrow> Null_deref
      | Some p \<Rightarrow> and_then (abort_scan_of env v dev) (\<lambda>_. locked (\<lambda>dev.
          if vd_monitor (cv_vif dev v) then Done 0 dev
          else case mt76_vif_conf_link dev v link_conf of
            Some m \<Rightarrow> assign_link env p v link_conf c m False dev
          | None \<Rightarrow> (case mt76_alloc_mlink env v dev of
                (None, dev) \<Rightarrow> Done (-12) dev
              | (Some m, dev) \<Rightarrow> assign_link env p v link_conf c m True dev))))"

definition mt76_unassign_vif_chanctx :: "chan_env \<Rightarrow> nat \<Rightarrow> nat option \<Rightarrow> nat \<Rightarrow> chan_dev \<Rightarrow> unit outcome" where
  "mt76_unassign_vif_chanctx env v link_conf c dev =
     (case cv_ctx_phy dev c of
        None \<Rightarrow> Null_deref
      | Some p \<Rightarrow> and_then (abort_scan_of env v dev) (\<lambda>_. locked (\<lambda>dev.
          if vd_monitor (cv_vif dev v) then Done () dev
          else case mt76_vif_conf_link dev v link_conf of
            None \<Rightarrow> Done () dev
          | Some m \<Rightarrow>
              let own = (m = Deflink v);
                  dev = (if own then dev
                         else put_slot v (the link_conf) None dev);
                  dev = cc_log (Link_remove p v m) dev;
                  dev = upd_link m (\<lambda>l. l\<lparr>vl_ctx := None\<rparr>) dev
              in Done () (if own then dev else free_link m dev))))"

text \<open>Moving the links of the interfaces from one radio to the other; \<open>i\<close> counts them.\<close>

fun switch_links :: "chan_env \<Rightarrow> nat \<Rightarrow> nat \<Rightarrow> nat \<Rightarrow> (nat \<times> nat option) list \<Rightarrow> chan_dev \<Rightarrow> int \<times> chan_dev" where
  "switch_links env old p i [] dev = (0, dev)"
| "switch_links env old p i ((v, lc) # vs) dev =
     (case mt76_vif_conf_link dev v lc of
        None \<Rightarrow> switch_links env old p (i + 1) vs dev
      | Some m \<Rightarrow>
          let dev = cc_log (Link_remove old v m) dev;
              ret = ce_link_add env i
          in if ret \<noteq> 0 then (ret, dev)
             else switch_links env old p (i + 1) vs (cc_log (Link_add p v m) dev))"

definition switch_ctx :: "nat \<Rightarrow> nat \<times> nat option \<Rightarrow> chan_dev \<Rightarrow> chan_dev" where
  "switch_ctx c vl dev =
     (case mt76_vif_conf_link dev (fst vl) (snd vl) of
        None \<Rightarrow> dev
      | Some m \<Rightarrow> upd_link m (\<lambda>l. l\<lparr>vl_ctx := Some c\<rparr>) dev)"

definition mt76_switch_vif_chanctx ::
  "chan_env \<Rightarrow> (nat \<times> nat option) list \<Rightarrow> nat \<Rightarrow> nat \<Rightarrow> bool \<Rightarrow> chan_dev \<Rightarrow> int outcome" where
  "mt76_switch_vif_chanctx env vifs c_old c_new swap dev =
     (let old_phy = cv_ctx_phy dev c_old;
          dev = (if swap then dev\<lparr>cv_ctx_phy := (cv_ctx_phy dev)(c_new :=
                    ce_band_phys env (ce_band env (cd_chan (cf_def (cv_conf dev c_new)))))\<rparr> else dev)
      in case (cv_ctx_phy dev c_new, old_phy) of
        (None, _) \<Rightarrow> Done (-22) dev
      | (Some p, None) \<Rightarrow> Null_deref
      | (Some p, Some old) \<Rightarrow>
          let update_chan = (ra_chanctx (cv_radio dev p) \<noteq> Some c_new)
          in and_then (if update_chan then abort_scan_on env p dev else Done () dev) (\<lambda>_. locked (\<lambda>dev.
               let dev = (if swap \<and> p \<noteq> old \<and> ra_chanctx (cv_radio dev old) = Some c_old
                          then upd_radio old (\<lambda>r. r\<lparr>ra_chanctx := None\<rparr>) dev else dev);
                   (ret, dev) = (if update_chan then mt76_phy_update_channel env p c_new dev else (0, dev))
               in if ret \<noteq> 0 then Done ret dev
                  else let (ret, dev) = (if old = p then (0, dev) else switch_links env old p 0 vifs dev)
                    in if ret \<noteq> 0 then Done ret dev
                       else Done 0 (fold (switch_ctx c_new) vifs dev))))"

section \<open>Runs\<close>

text \<open>
  The operations that mac80211 and the work queue call, and what happens around them: a context
  gets another definition, stations come and go, the firmware resets. \<open>chan_allowed\<close> is
  the contract of the callers: works run when they are queued, contexts are used once
  they were added, a station is only added on a radio that has a channel.
\<close>

datatype chan_op =
    Hw_scan nat nat scan_req
  | Scan_work
  | Cancel_scan
  | Remain_on_channel nat nat
  | Roc_work nat
  | Cancel_roc nat
  | Vif_cleanup nat
  | Add_ctx nat
  | Remove_ctx nat
  | Change_ctx nat bool
  | Assign_ctx nat "nat option" nat
  | Unassign_ctx nat "nat option" nat
  | Switch_ctx "(nat \<times> nat option) list" nat nat bool
  | Set_conf nat chan_conf
  | Set_num_sta nat nat
  | Set_mcu_reset bool
  | Sw_scan nat bool

definition done_with :: "unit outcome \<Rightarrow> int outcome" where
  "done_with m = and_then m (\<lambda>_ dev. Done 0 dev)"

fun chan_run :: "chan_env \<Rightarrow> chan_op \<Rightarrow> chan_dev \<Rightarrow> int outcome" where
  "chan_run env (Hw_scan p v req) dev = mt76_hw_scan env p v req dev"
| "chan_run env Scan_work dev = done_with (mt76_scan_work env dev)"
| "chan_run env Cancel_scan dev = done_with (mt76_cancel_hw_scan env dev)"
| "chan_run env (Remain_on_channel v chan) dev = mt76_remain_on_channel env v chan dev"
| "chan_run env (Roc_work p) dev = done_with (mt76_roc_complete_work env p dev)"
| "chan_run env (Cancel_roc v) dev = done_with (mt76_cancel_remain_on_channel env v dev)"
| "chan_run env (Vif_cleanup v) dev = done_with (mt76_vif_cleanup env v dev)"
| "chan_run env (Add_ctx c) dev = mt76_add_chanctx env c dev"
| "chan_run env (Remove_ctx c) dev = done_with (mt76_remove_chanctx env c dev)"
| "chan_run env (Change_ctx c rel) dev = done_with (mt76_change_chanctx env c rel dev)"
| "chan_run env (Assign_ctx v lc c) dev = mt76_assign_vif_chanctx env v lc c dev"
| "chan_run env (Unassign_ctx v lc c) dev = done_with (mt76_unassign_vif_chanctx env v lc c dev)"
| "chan_run env (Switch_ctx vifs a b swap) dev = mt76_switch_vif_chanctx env vifs a b swap dev"
| "chan_run env (Set_conf c conf) dev = Done 0 (dev\<lparr>cv_conf := (cv_conf dev)(c := conf)\<rparr>)"
| "chan_run env (Set_num_sta p n) dev = Done 0 (upd_radio p (\<lambda>r. r\<lparr>ra_num_sta := n\<rparr>) dev)"
| "chan_run env (Set_mcu_reset b) dev = Done 0 (dev\<lparr>cv_mcu_reset := b\<rparr>)"
| "chan_run env (Sw_scan p b) dev = Done 0 (upd_radio p (\<lambda>r. r\<lparr>ra_scanning := b\<rparr>) dev)"

fun chan_allowed :: "chan_op \<Rightarrow> chan_dev \<Rightarrow> bool" where
  "chan_allowed Scan_work dev = (cv_scan_work dev \<noteq> None)"
| "chan_allowed (Roc_work p) dev = ra_roc_work (cv_radio dev p)"
| "chan_allowed (Change_ctx c rel) dev = (cv_ctx_phy dev c \<noteq> None)"
| "chan_allowed (Assign_ctx v lc c) dev = (cv_ctx_phy dev c \<noteq> None)"
| "chan_allowed (Unassign_ctx v lc c) dev = (cv_ctx_phy dev c \<noteq> None)"
| "chan_allowed (Switch_ctx vifs a b swap) dev = (cv_ctx_phy dev a \<noteq> None)"
| "chan_allowed (Set_num_sta p n) dev = (n = 0 \<or> ra_main (cv_radio dev p) \<noteq> None)"
| "chan_allowed _ dev = True"

definition chan_step :: "chan_dev \<Rightarrow> chan_dev \<Rightarrow> bool" where
  "chan_step dev dev' \<longleftrightarrow> (\<exists>env op ret. chan_allowed op dev \<and> chan_run env op dev = Done ret dev')"

definition chan_init :: "chan_dev \<Rightarrow> bool" where
  "chan_init dev \<longleftrightarrow> \<not> cv_mutex dev \<and> cv_scan dev = no_scan \<and> cv_scan_work dev = None \<and> cv_log dev = []
     \<and> (\<forall>p. ra_main (cv_radio dev p) = None \<and> \<not> ra_offchannel (cv_radio dev p) \<and> ra_num_sta (cv_radio dev p) = 0
          \<and> ra_roc_vif (cv_radio dev p) = None \<and> ra_roc_link (cv_radio dev p) = None \<and> \<not> ra_roc_work (cv_radio dev p))
     \<and> (\<forall>v. vd_link (cv_vif dev v) = (\<lambda>_. None) \<and> vd_offchannel_link (cv_vif dev v) = None
          \<and> vd_roc_phy (cv_vif dev v) = None)
     \<and> (\<forall>v. cv_link dev (Deflink v) = Some \<lparr>vl_offchannel = False, vl_ctx = None, vl_mvif = v\<rparr>)
     \<and> (\<forall>k. cv_link dev (Mlink k) = None)"

end
