(* ===== verification/ChanInv.thy ===== *)
theory ChanInv
  imports ChanCtx
begin

text \<open>
  The invariant of theory ChanCtx: the bookkeeping of a scan, the links it borrows and the channel a
  radio is left on. Every operation that is allowed returns with the invariant, except a request
  to remain on a channel that is accepted (\<open>chan_run_cases\<close>).
\<close>

section \<open>The invariant\<close>

text \<open>
  Off-channel links belong to the scan; every other link is its interface's own or is in exactly one
  slot of its interface.
\<close>

definition desc :: "chan_dev \<Rightarrow> link_id \<Rightarrow> (bool \<times> nat) option" where
  "desc dev m = map_option (\<lambda>l. (vl_offchannel l, vl_mvif l)) (cv_link dev m)"

abbreviation own_link :: "chan_dev \<Rightarrow> nat \<Rightarrow> link_id \<Rightarrow> bool" where
  "own_link dev v m \<equiv> desc dev m = Some (False, v)"

definition links_ok :: "chan_dev \<Rightarrow> bool" where
  "links_ok dev \<longleftrightarrow>
     (\<forall>k. desc dev (Mlink k) \<noteq> None \<longrightarrow> k < cv_next_link dev)
     \<and> (\<forall>m w. desc dev m = Some (True, w) \<longrightarrow> sc_mlink (cv_scan dev) = Some m)
     \<and> (\<forall>v m. vd_offchannel_link (cv_vif dev v) = Some m \<longrightarrow>
          sc_mlink (cv_scan dev) = Some m \<and> sc_vif (cv_scan dev) = Some v
          \<and> desc dev m = Some (True, v))
     \<and> (\<forall>v. own_link dev v (Deflink v))
     \<and> (\<forall>v i m. vd_link (cv_vif dev v) i = Some m \<longrightarrow> own_link dev v m)
     \<and> (\<forall>v i w. vd_link (cv_vif dev v) i = Some (Deflink w) \<longrightarrow> i = 0)
     \<and> (\<forall>v i k. vd_link (cv_vif dev v) i = Some (Mlink k) \<longrightarrow> i \<noteq> 0)
     \<and> (\<forall>v i j k. vd_link (cv_vif dev v) i = Some (Mlink k) \<longrightarrow> vd_link (cv_vif dev v) j = Some (Mlink k) \<longrightarrow> j = i)"

definition scan_shape :: "chan_dev \<Rightarrow> bool" where
  "scan_shape dev \<longleftrightarrow> cv_scan dev = no_scan \<or>
     (\<exists>req v m p off. sc_req (cv_scan dev) = Some req \<and> sc_vif (cv_scan dev) = Some v
        \<and> sc_mlink (cv_scan dev) = Some m \<and> sc_phy (cv_scan dev) = Some p
        \<and> desc dev m = Some (off, v)
        \<and> (off \<longrightarrow> vd_offchannel_link (cv_vif dev v) = Some m))"

definition radio_ok :: "chan_dev \<Rightarrow> nat \<Rightarrow> bool" where
  "radio_ok dev p \<longleftrightarrow>
     (ra_num_sta (cv_radio dev p) \<noteq> 0 \<longrightarrow> ra_main (cv_radio dev p) \<noteq> None)
     \<and> ra_roc_vif (cv_radio dev p) = None \<and> \<not> ra_roc_work (cv_radio dev p)
     \<and> (ra_offchannel (cv_radio dev p) \<longrightarrow> ra_main (cv_radio dev p) = None \<or> Scan_dropped \<in> set (cv_log dev)
          \<or> sc_phy (cv_scan dev) = Some p \<and> sc_chan (cv_scan dev) \<noteq> None)"

fun scan_end :: "chan_ev \<Rightarrow> bool" where
  "scan_end (Scan_completed _) = True"
| "scan_end Scan_dropped = True"
| "scan_end _ = False"

definition scans :: "(chan_ev \<Rightarrow> bool) \<Rightarrow> chan_dev \<Rightarrow> nat" where
  "scans q dev = length (filter q (cv_log dev))"

definition books_ok :: "chan_dev \<Rightarrow> bool" where
  "books_ok dev \<longleftrightarrow>
     scans (\<lambda>e. e = Scan_accepted) dev = scans scan_end dev + (if cv_scan dev = no_scan then 0 else 1)"

definition chan_core :: "chan_dev \<Rightarrow> bool" where
  "chan_core dev \<longleftrightarrow> links_ok dev \<and> scan_shape dev \<and> (\<forall>p. radio_ok dev p)
     \<and> (\<forall>v. vd_roc_phy (cv_vif dev v) = None) \<and> books_ok dev"

definition chan_inv :: "chan_dev \<Rightarrow> bool" where
  "chan_inv dev \<longleftrightarrow> chan_core dev \<and> \<not> cv_mutex dev \<and> (cv_scan_work dev = None \<longleftrightarrow> cv_scan dev = no_scan)"

lemma chan_init_inv:
  assumes "chan_init dev"
  shows "chan_inv dev"
proof -
  have link: "desc dev m = (case m of Deflink v \<Rightarrow> Some (False, v) | Mlink k \<Rightarrow> None)" for m
    using assms by (cases m) (auto simp: chan_init_def desc_def)
  have "links_ok dev"
    using assms link by (auto simp: chan_init_def links_ok_def split: link_id.splits)
  moreover have "scan_shape dev" "\<forall>p. radio_ok dev p" "books_ok dev" "\<forall>v. vd_roc_phy (cv_vif dev v) = None"
    using assms by (simp_all add: chan_init_def scan_shape_def radio_ok_def books_ok_def scans_def)
  ultimately show ?thesis using assms by (simp add: chan_inv_def chan_core_def chan_init_def)
qed

section \<open>Frames\<close>

text \<open>States that differ in what the invariant does not read.\<close>

lemma core_cong:
  assumes "cv_link a = cv_link b" "cv_vif a = cv_vif b" "cv_next_link a = cv_next_link b" "cv_scan a = cv_scan b"
    "cv_radio a = cv_radio b" "cv_log a = cv_log b"
  shows "chan_core a = chan_core b"
  by (simp only: chan_core_def links_ok_def desc_def scan_shape_def radio_ok_def books_ok_def scans_def assms)

lemma links_cong:
  assumes "cv_link a = cv_link b" "cv_vif a = cv_vif b" "cv_next_link a = cv_next_link b"
    "sc_mlink (cv_scan a) = sc_mlink (cv_scan b)" "sc_vif (cv_scan a) = sc_vif (cv_scan b)"
  shows "links_ok a = links_ok b"
  by (simp only: links_ok_def desc_def assms)

lemma shape_cong:
  assumes "cv_link a = cv_link b" "cv_vif a = cv_vif b" "cv_scan a = cv_scan b"
  shows "scan_shape a = scan_shape b"
  by (simp only: scan_shape_def desc_def assms)

lemma books_cong:
  assumes "cv_log a = cv_log b" "cv_scan a = cv_scan b"
  shows "books_ok a = books_ok b"
  by (simp only: books_ok_def scans_def assms)

lemma core_mutex [simp]: "chan_core (dev\<lparr>cv_mutex := b\<rparr>) = chan_core dev"
  by (rule core_cong) simp_all

lemma core_work [simp]: "chan_core (dev\<lparr>cv_scan_work := w\<rparr>) = chan_core dev"
  by (rule core_cong) simp_all

lemma core_ctx [simp]: "chan_core (dev\<lparr>cv_ctx_phy := w\<rparr>) = chan_core dev"
  by (rule core_cong) simp_all

lemma core_conf [simp]: "chan_core (dev\<lparr>cv_conf := w\<rparr>) = chan_core dev"
  by (rule core_cong) simp_all

lemma core_reset [simp]: "chan_core (dev\<lparr>cv_mcu_reset := w\<rparr>) = chan_core dev"
  by (rule core_cong) simp_all

text \<open>An event that neither starts nor ends a scan.\<close>

lemma core_log [simp]:
  assumes "e \<noteq> Scan_accepted" "\<not> scan_end e"
  shows "chan_core (cc_log e dev) = chan_core dev"
proof -
  have "links_ok (cc_log e dev) = links_ok dev" by (rule links_cong) (simp_all add: cc_log_def)
  moreover have "scan_shape (cc_log e dev) = scan_shape dev" by (rule shape_cong) (simp_all add: cc_log_def)
  moreover have "radio_ok (cc_log e dev) p = radio_ok dev p" for p
    using assms(2) by (cases "e = Scan_dropped") (simp_all add: radio_ok_def cc_log_def)
  moreover have "books_ok (cc_log e dev) = books_ok dev"
    using assms by (simp add: books_ok_def scans_def cc_log_def)
  moreover have "cv_vif (cc_log e dev) = cv_vif dev" by (simp add: cc_log_def)
  ultimately show ?thesis by (simp only: chan_core_def)
qed

lemma core_radio:
  assumes "chan_core dev" "radio_ok (upd_radio p f dev) p"
  shows "chan_core (upd_radio p f dev)"
proof -
  have "radio_ok (upd_radio p f dev) q" for q
    using assms by (cases "q = p") (simp_all add: chan_core_def radio_ok_def upd_radio_def)
  moreover have "links_ok (upd_radio p f dev) = links_ok dev" by (rule links_cong) (simp_all add: upd_radio_def)
  moreover have "scan_shape (upd_radio p f dev) = scan_shape dev" by (rule shape_cong) (simp_all add: upd_radio_def)
  moreover have "books_ok (upd_radio p f dev) = books_ok dev" by (rule books_cong) (simp_all add: upd_radio_def)
  moreover have "cv_vif (upd_radio p f dev) = cv_vif dev" by (simp add: upd_radio_def)
  ultimately show ?thesis using assms(1) by (simp only: chan_core_def simp_thms)
qed

text \<open>Setting a channel keeps everything, as the home channel, or off-channel while the scan is there.\<close>

lemma core_set_channel:
  assumes "chan_core dev" "off \<longrightarrow> sc_phy (cv_scan dev) = Some p \<and> sc_chan (cv_scan dev) \<noteq> None"
    "set_channel env p cd off dev = (ret, dev')"
  shows "chan_core dev'" "cv_scan dev' = cv_scan dev" "cv_scan_work dev' = cv_scan_work dev"
    "cv_mutex dev' = cv_mutex dev" "cv_ctx_phy dev' = cv_ctx_phy dev" "cv_mcu_reset dev' = cv_mcu_reset dev"
    "off \<or> ra_main (cv_radio dev' p) = Some cd \<and> \<not> ra_offchannel (cv_radio dev' p)"
    "cv_vif dev' = cv_vif dev" "cv_link dev' = cv_link dev"
proof -
  have g: "ra_num_sta (tune cd off r) = ra_num_sta r" "ra_roc_vif (tune cd off r) = ra_roc_vif r"
    "ra_roc_work (tune cd off r) = ra_roc_work r" "ra_main (tune cd off r) = (if off then ra_main r else Some cd)"
    "ra_offchannel (tune cd off r) = off" for r
    by (simp_all add: tune_def)
  have dev': "dev' = cc_log (Drv_set_channel p cd off) (upd_radio p (tune cd off) dev)"
    using assms(3) by (simp add: set_channel_def)
  have "radio_ok dev p" using assms(1) by (simp add: chan_core_def)
  then have "radio_ok (upd_radio p (tune cd off) dev) p" using assms(2) by (simp add: radio_ok_def upd_radio_def g)
  then show "chan_core dev'" unfolding dev' using core_radio [OF assms(1)] by simp
  show "off \<or> ra_main (cv_radio dev' p) = Some cd \<and> \<not> ra_offchannel (cv_radio dev' p)"
    by (simp add: dev' cc_log_def upd_radio_def g)
  show "cv_scan dev' = cv_scan dev" "cv_scan_work dev' = cv_scan_work dev"
    "cv_mutex dev' = cv_mutex dev" "cv_ctx_phy dev' = cv_ctx_phy dev" "cv_mcu_reset dev' = cv_mcu_reset dev"
    "cv_vif dev' = cv_vif dev" "cv_link dev' = cv_link dev"
    by (simp_all add: dev' cc_log_def upd_radio_def)
qed

lemma links_okI:
  assumes "\<And>k. desc dev (Mlink k) \<noteq> None \<Longrightarrow> k < cv_next_link dev"
    and "\<And>m w. desc dev m = Some (True, w) \<Longrightarrow> sc_mlink (cv_scan dev) = Some m"
    and "\<And>v m. vd_offchannel_link (cv_vif dev v) = Some m \<Longrightarrow>
          sc_mlink (cv_scan dev) = Some m \<and> sc_vif (cv_scan dev) = Some v
          \<and> desc dev m = Some (True, v)"
    and "\<And>v. own_link dev v (Deflink v)"
    and "\<And>v i m. vd_link (cv_vif dev v) i = Some m \<Longrightarrow> own_link dev v m"
    and "\<And>v i w. vd_link (cv_vif dev v) i = Some (Deflink w) \<Longrightarrow> i = 0"
    and "\<And>v i k. vd_link (cv_vif dev v) i = Some (Mlink k) \<Longrightarrow> i \<noteq> 0"
    and "\<And>v i k j. vd_link (cv_vif dev v) i = Some (Mlink k) \<Longrightarrow> vd_link (cv_vif dev v) j = Some (Mlink k) \<Longrightarrow> j = i"
  shows "links_ok dev"
  unfolding links_ok_def by (intro conjI allI impI) (use assms in \<open>blast+\<close>)

lemma links_okD:
  assumes "links_ok dev"
  shows "\<And>k. desc dev (Mlink k) \<noteq> None \<Longrightarrow> k < cv_next_link dev"
    and "\<And>m w. desc dev m = Some (True, w) \<Longrightarrow> sc_mlink (cv_scan dev) = Some m"
    and "\<And>v m. vd_offchannel_link (cv_vif dev v) = Some m \<Longrightarrow>
          sc_mlink (cv_scan dev) = Some m \<and> sc_vif (cv_scan dev) = Some v
          \<and> desc dev m = Some (True, v)"
    and "\<And>v. own_link dev v (Deflink v)"
    and "\<And>v i m. vd_link (cv_vif dev v) i = Some m \<Longrightarrow> own_link dev v m"
    and "\<And>v i w. vd_link (cv_vif dev v) i = Some (Deflink w) \<Longrightarrow> i = 0"
    and "\<And>v i k. vd_link (cv_vif dev v) i = Some (Mlink k) \<Longrightarrow> i \<noteq> 0"
    and "\<And>v i k j. vd_link (cv_vif dev v) i = Some (Mlink k) \<Longrightarrow> vd_link (cv_vif dev v) j = Some (Mlink k) \<Longrightarrow> j = i"
  using assms unfolding links_ok_def by blast+

section \<open>The end of a scan\<close>

lemma put_link_links:
  assumes "links_ok dev" "scan_shape dev"
  shows "links_ok (mt76_put_vif_phy_link p v (sc_mlink (cv_scan dev)) dev\<lparr>cv_scan := no_scan\<rparr>)"
proof (cases "\<exists>m w. sc_mlink (cv_scan dev) = Some m \<and> desc dev m = Some (True, w)")
  case False
  then have put: "mt76_put_vif_phy_link p v (sc_mlink (cv_scan dev)) dev = dev"
    by (auto simp: mt76_put_vif_phy_link_def desc_def split: option.split)
  note d = links_okD [OF assms(1)]
  let ?d = "dev\<lparr>cv_scan := no_scan\<rparr>"
  have desc: "desc ?d = desc dev" by (rule ext) (simp add: desc_def)
  have no: "desc dev m \<noteq> Some (True, w)" for m w using False d(2) by blast
  have no': "vd_offchannel_link (cv_vif dev w) = None" for w
    using False d(3) by (meson not_None_eq)
  show ?thesis unfolding put
    by (rule links_okI; (unfold desc)?) (use d(1,4-) no no' in auto)
next
  case True
  then obtain m w where m: "sc_mlink (cv_scan dev) = Some m" "desc dev m = Some (True, w)" by blast
  then obtain l where l: "cv_link dev m = Some l" "vl_offchannel l" "vl_mvif l = w" by (auto simp: desc_def)
  define dev' where "dev' = mt76_put_vif_phy_link p v (sc_mlink (cv_scan dev)) dev\<lparr>cv_scan := no_scan\<rparr>"
  have put: "desc dev' = (desc dev)(m := None)" "cv_next_link dev' = cv_next_link dev" "cv_scan dev' = no_scan"
    "\<And>u. vd_link (cv_vif dev' u) = vd_link (cv_vif dev u)"
    "\<And>u. vd_offchannel_link (cv_vif dev' u) = (if u = w then None else vd_offchannel_link (cv_vif dev u))"
    by (auto simp: dev'_def mt76_put_vif_phy_link_def m l free_link_def cc_log_def upd_vif_def desc_def)
  note d = links_okD [OF assms(1)]
  have off: "vd_offchannel_link (cv_vif dev u) = Some n \<Longrightarrow> u = w" for u n
    using d(3) [of u n] m assms(2) by (auto simp: scan_shape_def)
  show ?thesis unfolding dev'_def [symmetric]
  proof (rule links_okI)
    show "k < cv_next_link dev'" if "desc dev' (Mlink k) \<noteq> None" for k
      using that d(1) [of k] by (simp add: put split: if_splits)
    show "sc_mlink (cv_scan dev') = Some n" if "desc dev' n = Some (True, u)" for n u
      using that d(2) [of n u] m(1) by (simp add: put split: if_splits)
    show "sc_mlink (cv_scan dev') = Some n \<and> sc_vif (cv_scan dev') = Some u \<and> desc dev' n = Some (True, u)"
      if "vd_offchannel_link (cv_vif dev' u) = Some n" for u n
      using that off [of u n] by (simp add: put split: if_splits)
    have own: "own_link dev' u n" if "own_link dev u n" for u n using that m(2) by (auto simp: put)
    show "own_link dev' u (Deflink u)" for u using own d(4) .
    show "own_link dev' u n" if "vd_link (cv_vif dev' u) i = Some n" for u i n
      using own d(5) that unfolding put .
    show "i = 0" if "vd_link (cv_vif dev' u) i = Some (Deflink n)" for u i n using d(6) that unfolding put .
    show "i \<noteq> 0" if "vd_link (cv_vif dev' u) i = Some (Mlink n)" for u i n using d(7) that unfolding put .
    show "j = i" if "vd_link (cv_vif dev' u) i = Some (Mlink n)" "vd_link (cv_vif dev' u) j = Some (Mlink n)" for u i n j
      using d(8) that unfolding put .
  qed
qed

lemma coreD:
  assumes "chan_core dev"
  shows "links_ok dev" "scan_shape dev" "radio_ok dev p" "vd_roc_phy (cv_vif dev v) = None" "books_ok dev"
  using assms by (simp_all add: chan_core_def)

lemma scan_shape_cases:
  assumes "scan_shape dev"
  obtains (idle) "cv_scan dev = no_scan"
  | (busy) req v m p where "sc_req (cv_scan dev) = Some req" "sc_vif (cv_scan dev) = Some v"
      "sc_mlink (cv_scan dev) = Some m" "sc_phy (cv_scan dev) = Some p" "cv_scan dev \<noteq> no_scan"
  using assms by (auto simp: scan_shape_def no_scan_def)

lemma no_scan_simps [simp]:
  "sc_req no_scan = None" "sc_chan no_scan = None" "sc_vif no_scan = None" "sc_mlink no_scan = None"
  "sc_phy no_scan = None" "sc_chan_idx no_scan = 0"
  by (simp_all add: no_scan_def)

lemma put_link_same [simp]:
  "cv_radio (mt76_put_vif_phy_link p v m dev) = cv_radio dev"
  "cv_mcu_reset (mt76_put_vif_phy_link p v m dev) = cv_mcu_reset dev"
  "cv_mutex (mt76_put_vif_phy_link p v m dev) = cv_mutex dev"
  "cv_scan_work (mt76_put_vif_phy_link p v m dev) = cv_scan_work dev"
  "cv_ctx_phy (mt76_put_vif_phy_link p v m dev) = cv_ctx_phy dev"
  "vd_roc_phy (cv_vif (mt76_put_vif_phy_link p v m dev) w) = vd_roc_phy (cv_vif dev w)"
  "Scan_dropped \<in> set (cv_log (mt76_put_vif_phy_link p v m dev)) \<longleftrightarrow> Scan_dropped \<in> set (cv_log dev)"
  "scans scan_end (mt76_put_vif_phy_link p v m dev) = scans scan_end dev"
  "scans (\<lambda>e. e = Scan_accepted) (mt76_put_vif_phy_link p v m dev) = scans (\<lambda>e. e = Scan_accepted) dev"
  by (simp_all add: mt76_put_vif_phy_link_def free_link_def cc_log_def upd_vif_def scans_def split: option.split)

lemma core_finish:
  assumes "chan_core dev" "cv_scan dev \<noteq> no_scan" "sc_phy (cv_scan dev) = Some p"
    "ra_offchannel (cv_radio dev p) \<Longrightarrow> sc_chan (cv_scan dev) \<noteq> None \<Longrightarrow> ra_main (cv_radio dev p) \<noteq> None \<Longrightarrow> cv_mcu_reset dev"
  shows "chan_core (scan_finish p a dev)"
proof -
  note D = coreD [OF assms(1)]
  define d where "d = mt76_put_vif_phy_link p (the (sc_vif (cv_scan dev))) (sc_mlink (cv_scan dev)) dev\<lparr>cv_scan := no_scan\<rparr>"
  define f where "f = scan_finish p a dev"
  have f: "cv_radio f = cv_radio dev" "cv_scan f = no_scan" "cv_vif f = cv_vif d" "cv_link f = cv_link d"
    "cv_next_link f = cv_next_link d"
    "cv_log f = cv_log d @ [if cv_mcu_reset dev then Scan_dropped else Scan_completed a]"
    by (simp_all add: f_def scan_finish_def Let_def cc_log_def d_def)
  have "links_ok f = links_ok d" by (rule links_cong) (simp_all add: f d_def)
  then have "links_ok f" using put_link_links [OF D(1,2)] by (simp add: d_def)
  moreover have "scan_shape f" by (simp add: scan_shape_def f)
  moreover have "radio_ok f q" for q
  proof -
    have "\<not> ra_offchannel (cv_radio dev p) \<or> sc_chan (cv_scan dev) = None \<or> ra_main (cv_radio dev p) = None \<or> cv_mcu_reset dev"
      using assms(4) by blast
    then show ?thesis using D(3) [of q] assms(3) by (auto simp: radio_ok_def f d_def)
  qed
  moreover have "books_ok f"
    using D(5) assms(2) by (simp add: books_ok_def f scans_def d_def) (simp add: scans_def [symmetric])
  moreover have "vd_roc_phy (cv_vif f v) = None" for v using D(4) [of v] by (simp add: f d_def)
  ultimately show ?thesis unfolding f_def [symmetric] chan_core_def by blast
qed

text \<open>What an operation that keeps the invariant also leaves alone.\<close>

definition calm :: "chan_dev \<Rightarrow> chan_dev \<Rightarrow> bool" where
  "calm dev dev' \<longleftrightarrow> chan_core dev' \<and> \<not> cv_mutex dev' \<and> cv_ctx_phy dev' = cv_ctx_phy dev
     \<and> cv_mcu_reset dev' = cv_mcu_reset dev"

lemma core_scanning:
  "chan_core dev \<Longrightarrow> chan_core (upd_radio p (\<lambda>r. r\<lparr>ra_scanning := b\<rparr>) dev)"
  using coreD(3) [of dev p] by (intro core_radio) (simp_all add: radio_ok_def upd_radio_def)

lemma main_channel:
  assumes "chan_core dev" "\<not> cv_mutex dev" "ra_main (cv_radio dev p) = Some cd"
  shows "\<exists>dev'. set_main_channel env p dev = Done (ce_set_channel env) dev' \<and> calm dev dev'
    \<and> cv_scan dev' = cv_scan dev \<and> cv_scan_work dev' = cv_scan_work dev
    \<and> ra_main (cv_radio dev' p) = Some cd \<and> \<not> ra_offchannel (cv_radio dev' p)"
proof -
  obtain ret d where d: "set_channel env p cd False (dev\<lparr>cv_mutex := True\<rparr>) = (ret, d)"
    by (cases "set_channel env p cd False (dev\<lparr>cv_mutex := True\<rparr>)")
  then have "ret = ce_set_channel env" by (simp add: set_channel_def)
  then show ?thesis
    using core_set_channel [OF _ _ d] assms d
    by (simp add: set_main_channel_def mt76_set_channel_def locked_def calm_def)
qed

lemma scan_complete_run:
  assumes "chan_core dev" "\<not> cv_mutex dev"
  shows "\<exists>dev'. mt76_scan_complete env a dev = Done () dev' \<and> calm dev dev' \<and> cv_scan dev' = no_scan
    \<and> cv_scan_work dev' = cv_scan_work dev"
proof (cases rule: scan_shape_cases [OF coreD(2) [OF assms(1)]])
  case 1
  then show ?thesis using assms by (simp add: mt76_scan_complete_def calm_def)
next
  case (2 req v m p)
  define d where "d = upd_radio p (\<lambda>r. r\<lparr>ra_scanning := False\<rparr>) dev"
  have d: "chan_core d" "\<not> cv_mutex d" "cv_scan d = cv_scan dev" "cv_scan_work d = cv_scan_work dev"
    "cv_ctx_phy d = cv_ctx_phy dev" "cv_mcu_reset d = cv_mcu_reset dev"
    using core_scanning [OF assms(1)] assms(2) by (simp_all add: d_def upd_radio_def)
  define home where "home = (if sc_chan (cv_scan dev) \<noteq> None \<and> ra_main (cv_radio d p) \<noteq> None \<and> \<not> cv_mcu_reset dev
    then set_main_channel env p d else Done 0 d)"
  have run: "mt76_scan_complete env a dev = and_then home (\<lambda>_ dev. Done () (scan_finish p a dev))"
    by (simp add: mt76_scan_complete_def 2 home_def d_def [symmetric] d Let_def)
  have "\<exists>r e. home = Done r e \<and> calm dev e \<and> cv_scan e = cv_scan dev \<and> cv_scan_work e = cv_scan_work dev
    \<and> (ra_offchannel (cv_radio e p) \<longrightarrow> sc_chan (cv_scan e) \<noteq> None \<longrightarrow> ra_main (cv_radio e p) \<noteq> None \<longrightarrow> cv_mcu_reset e)"
  proof (cases "sc_chan (cv_scan dev) \<noteq> None \<and> ra_main (cv_radio d p) \<noteq> None \<and> \<not> cv_mcu_reset dev")
    case True
    then obtain cd where "ra_main (cv_radio d p) = Some cd" by blast
    then show ?thesis using main_channel [OF d(1,2), of p cd env] True d by (auto simp: home_def calm_def)
  next
    case False
    then show ?thesis using d by (auto simp: home_def calm_def)
  qed
  then obtain r e where e: "home = Done r e" "calm dev e" "cv_scan e = cv_scan dev" "cv_scan_work e = cv_scan_work dev"
    "ra_offchannel (cv_radio e p) \<Longrightarrow> sc_chan (cv_scan e) \<noteq> None \<Longrightarrow> ra_main (cv_radio e p) \<noteq> None \<Longrightarrow> cv_mcu_reset e"
    by blast
  have "chan_core (scan_finish p a e)"
    using core_finish [where a = a and dev = e and p = p] e(2,3,5) 2 by (simp add: calm_def)
  then show ?thesis
    using e(2,4) by (simp add: run e(1) calm_def) (simp add: scan_finish_def Let_def cc_log_def)
qed

lemma scan_abort_run:
  assumes "chan_core dev" "\<not> cv_mutex dev"
  shows "\<exists>dev'. mt76_abort_scan env dev = Done () dev' \<and> calm dev dev' \<and> cv_scan dev' = no_scan \<and> cv_scan_work dev' = None"
  using scan_complete_run [where dev = "dev\<lparr>cv_scan_work := None\<rparr>" and env = env and a = True] assms
  by (simp add: mt76_abort_scan_def calm_def)

section \<open>Links\<close>

text \<open>Changing links or slots, with radios, scan and log (up to link events) left alone.\<close>

definition same_but_links :: "chan_dev \<Rightarrow> chan_dev \<Rightarrow> bool" where
  "same_but_links dev d \<longleftrightarrow> cv_radio d = cv_radio dev \<and> cv_scan d = cv_scan dev \<and> cv_mutex d = cv_mutex dev
     \<and> cv_scan_work d = cv_scan_work dev \<and> cv_ctx_phy d = cv_ctx_phy dev \<and> cv_mcu_reset d = cv_mcu_reset dev
     \<and> (\<forall>v. vd_roc_phy (cv_vif d v) = vd_roc_phy (cv_vif dev v))
     \<and> filter (\<lambda>e. e = Scan_accepted \<or> scan_end e) (cv_log d) = filter (\<lambda>e. e = Scan_accepted \<or> scan_end e) (cv_log dev)"

lemma filter_sub: "filter p xs = filter p ys \<Longrightarrow> (\<And>x. q x \<Longrightarrow> p x) \<Longrightarrow> filter q xs = filter q ys"
proof -
  assume a: "filter p xs = filter p ys" "\<And>x. q x \<Longrightarrow> p x"
  have "filter q zs = filter q (filter p zs)" for zs by (rule sym) (simp add: a(2) conj_absorb cong: conj_cong, metis a(2))
  then show ?thesis using a(1) by metis
qed

lemma core_links:
  assumes "chan_core dev" "same_but_links dev d" "links_ok d" "scan_shape d"
  shows "chan_core d"
proof -
  have log: "filter (\<lambda>e. e = Scan_accepted \<or> scan_end e) (cv_log d) = filter (\<lambda>e. e = Scan_accepted \<or> scan_end e) (cv_log dev)"
    using assms(2) by (simp add: same_but_links_def)
  have "filter (\<lambda>e. e = Scan_accepted) (cv_log d) = filter (\<lambda>e. e = Scan_accepted) (cv_log dev)"
    and "filter scan_end (cv_log d) = filter scan_end (cv_log dev)"
    and drop: "filter (\<lambda>e. e = Scan_dropped) (cv_log d) = filter (\<lambda>e. e = Scan_dropped) (cv_log dev)"
    by (rule filter_sub [OF log], auto)+
  then have scans: "scans scan_end d = scans scan_end dev" "scans (\<lambda>e. e = Scan_accepted) d = scans (\<lambda>e. e = Scan_accepted) dev"
    by (simp_all add: scans_def)
  have mem: "Scan_dropped \<in> set es \<longleftrightarrow> filter (\<lambda>e. e = Scan_dropped) es \<noteq> []" for es
    by (auto simp: filter_empty_conv)
  have "Scan_dropped \<in> set (cv_log d) \<longleftrightarrow> Scan_dropped \<in> set (cv_log dev)"
    unfolding mem drop ..
  then show ?thesis
    using assms scans by (simp add: chan_core_def same_but_links_def radio_ok_def books_ok_def)
qed

lemma links_desc:
  assumes "desc a = desc b" "cv_vif a = cv_vif b" "cv_next_link a = cv_next_link b" "cv_scan a = cv_scan b"
  shows "links_ok a = links_ok b" "scan_shape a = scan_shape b"
  by (simp_all only: links_ok_def scan_shape_def assms)

lemma core_set_ctx:
  assumes "chan_core dev"
  shows "chan_core (upd_link m (\<lambda>l. l\<lparr>vl_ctx := c\<rparr>) dev)"
proof (rule core_links [OF assms])
  let ?d = "upd_link m (\<lambda>l. l\<lparr>vl_ctx := c\<rparr>) dev"
  have desc: "desc ?d = desc dev" by (rule ext) (auto simp: desc_def upd_link_def option.map_comp comp_def)
  show "links_ok ?d" "scan_shape ?d"
    using coreD(1,2) [OF assms] links_desc [OF desc] by (simp_all add: upd_link_def)
qed (simp add: same_but_links_def upd_link_def)

text \<open>More links, none of them off-channel.\<close>

lemma links_extend:
  assumes "links_ok dev" "cv_vif d = cv_vif dev" "cv_scan d = cv_scan dev"
    and "\<And>n. desc dev n \<noteq> None \<Longrightarrow> desc d n = desc dev n"
    and "\<And>k. desc d (Mlink k) \<noteq> None \<Longrightarrow> k < cv_next_link d"
    and "\<And>n w. desc d n = Some (True, w) \<Longrightarrow> desc dev n = Some (True, w)"
  shows "links_ok d"
proof (rule links_okI)
  note l = links_okD [OF assms(1)]
  have keep: "desc d n = Some x" if "desc dev n = Some x" for n x using assms(4) [of n] that by simp
  show "sc_mlink (cv_scan d) = Some n" if "desc d n = Some (True, w)" for n w
    using l(2) assms(6) [OF that] unfolding assms(3) .
  show "sc_mlink (cv_scan d) = Some n \<and> sc_vif (cv_scan d) = Some u \<and> desc d n = Some (True, u)"
    if "vd_offchannel_link (cv_vif d u) = Some n" for u n
    using l(3) [OF that [unfolded assms(2)]] keep unfolding assms(3) by blast
  show "own_link d u (Deflink u)" for u using keep l(4) .
  show "own_link d u n" if "vd_link (cv_vif d u) i = Some n" for u i n
    using keep l(5) [OF that [unfolded assms(2)]] .
  show "i = 0" if "vd_link (cv_vif d u) i = Some (Deflink n)" for u i n using l(6) that unfolding assms(2) .
  show "i \<noteq> 0" if "vd_link (cv_vif d u) i = Some (Mlink n)" for u i n using l(7) that unfolding assms(2) .
  show "j = i" if "vd_link (cv_vif d u) i = Some (Mlink n)" "vd_link (cv_vif d u) j = Some (Mlink n)" for u i n j
    using l(8) that unfolding assms(2) .
qed (rule assms(5))

text \<open>A new link that is in no slot, and its release.\<close>

lemma alloc_link:
  assumes "chan_core dev" "mt76_alloc_mlink env v dev = (Some m, d)"
  shows "chan_core d" "same_but_links dev d" "m = Mlink (cv_next_link dev)" "desc d m = Some (False, v)"
    "cv_vif d = cv_vif dev" "chan_core (free_link m d)" "desc dev m = None"
proof -
  note D = coreD(1,2) [OF assms(1)]
  note l = links_okD [OF D(1)]
  have m: "m = Mlink (cv_next_link dev)" and d: "d = dev\<lparr>cv_next_link := cv_next_link dev + 1,
      cv_link := (cv_link dev)(m \<mapsto> \<lparr>vl_offchannel = False, vl_ctx = None, vl_mvif = v\<rparr>)\<rparr>"
    using assms(2) by (auto simp: mt76_alloc_mlink_def Let_def split: if_splits)
  show "m = Mlink (cv_next_link dev)" by (rule m)
  show none: "desc dev m = None" using l(1) [of "cv_next_link dev"] unfolding m by (cases "desc dev m") (auto simp: m)
  have desc: "desc d = (desc dev)(m \<mapsto> (False, v))" by (rule ext) (simp add: d desc_def)
  show same: "same_but_links dev d" by (simp add: same_but_links_def d)
  show "desc d m = Some (False, v)" by (simp add: desc)
  show "cv_vif d = cv_vif dev" by (simp add: d)
  have old: "desc d n = desc dev n" if "desc dev n \<noteq> None" for n using that none by (auto simp: desc)
  have flds: "cv_next_link d = cv_next_link dev + 1" "cv_vif d = cv_vif dev" "cv_scan d = cv_scan dev" by (simp_all add: d)
  have shape: "scan_shape e" if e: "cv_scan e = cv_scan dev" "cv_vif e = cv_vif dev"
      "\<And>n. desc dev n \<noteq> None \<Longrightarrow> desc e n = desc dev n" for e
    using D(2) unfolding scan_shape_def e(1,2) by (metis e(3) option.distinct(1))
  show "chan_core d"
  proof (rule core_links [OF assms(1) same])
    show "links_ok d"
    proof (rule links_extend [OF D(1) flds(2,3)])
      show "k < cv_next_link d" if "desc d (Mlink k) \<noteq> None" for k
        using that l(1) [of k] m by (auto simp: desc flds split: if_splits)
      show "desc dev n = Some (True, w)" if "desc d n = Some (True, w)" for n w
        using that by (simp add: desc split: if_splits)
    qed (rule old)
    show "scan_shape d" by (rule shape) (simp_all add: flds old)
  qed
  define e where "e = free_link m d"
  have fl: "cv_next_link e = cv_next_link dev + 1" "cv_vif e = cv_vif dev" "cv_scan e = cv_scan dev" "desc e = desc dev"
    using none by (auto simp: e_def free_link_def cc_log_def d desc_def)
  have "chan_core e"
  proof (rule core_links [OF assms(1)])
    show "same_but_links dev e" by (simp add: same_but_links_def e_def free_link_def cc_log_def d)
    show "links_ok e"
    proof (rule links_extend [OF D(1) fl(2,3)])
      show "k < cv_next_link e" if "desc e (Mlink k) \<noteq> None" for k
        using that l(1) [of k] by (simp add: fl)
    qed (simp_all add: fl)
    show "scan_shape e" by (rule shape) (simp_all add: fl)
  qed
  then show "chan_core (free_link m d)" by (simp add: e_def)
qed

text \<open>Slots.\<close>

lemma put_slot_same [simp]:
  "desc (put_slot v i m dev) = desc dev" "same_but_links dev (put_slot v i m dev)"
  "cv_scan (put_slot v i m dev) = cv_scan dev" "cv_next_link (put_slot v i m dev) = cv_next_link dev"
  "vd_offchannel_link (cv_vif (put_slot v i m dev) w) = vd_offchannel_link (cv_vif dev w)"
  "vd_link (cv_vif (put_slot v i m dev) w) j = (if w = v \<and> j = i then m else vd_link (cv_vif dev w) j)"
  by (auto simp: put_slot_def upd_vif_def desc_def same_but_links_def)

lemma put_slot_shape: "scan_shape (put_slot v i m dev) = scan_shape dev"
  by (simp add: scan_shape_def)

lemma put_slot_core:
  assumes "chan_core dev"
    and "\<And>n. m = Some n \<Longrightarrow> own_link dev v n"
    and "\<And>w. m = Some (Deflink w) \<Longrightarrow> i = 0"
    and "\<And>k. m = Some (Mlink k) \<Longrightarrow> i \<noteq> 0 \<and> (\<forall>j. vd_link (cv_vif dev v) j = Some (Mlink k) \<longrightarrow> j = i)"
  shows "chan_core (put_slot v i m dev)"
proof (rule core_links [OF assms(1)])
  note l = links_okD [OF coreD(1) [OF assms(1)]]
  show "links_ok (put_slot v i m dev)"
  proof (rule links_okI; (unfold put_slot_same)?)
    show "own_link dev u n" if "(if u = v \<and> j = i then m else vd_link (cv_vif dev u) j) = Some n" for u j n
      using that assms(2) l(5) by (auto split: if_splits)
    show "j = 0" if "(if u = v \<and> j = i then m else vd_link (cv_vif dev u) j) = Some (Deflink n)" for u j n
      using that assms(3) l(6) by (auto split: if_splits)
    show "j \<noteq> 0" if "(if u = v \<and> j = i then m else vd_link (cv_vif dev u) j) = Some (Mlink n)" for u j n
      using that assms(4) l(7) by (auto split: if_splits)
    show "j' = j" if "(if u = v \<and> j = i then m else vd_link (cv_vif dev u) j) = Some (Mlink n)"
        "(if u = v \<and> j' = i then m else vd_link (cv_vif dev u) j') = Some (Mlink n)" for u j n j'
      using that assms(4) l(8) by (auto split: if_splits)
  qed (rule l; assumption?)+
  show "scan_shape (put_slot v i m dev)" using coreD(2) [OF assms(1)] by (simp only: put_slot_shape)
qed simp

lemma shape_keep:
  assumes "scan_shape dev" "cv_scan d = cv_scan dev" "cv_vif d = cv_vif dev"
    and "\<And>m v off. sc_mlink (cv_scan dev) = Some m \<Longrightarrow> sc_vif (cv_scan dev) = Some v \<Longrightarrow>
      desc dev m = Some (off, v) \<Longrightarrow> desc d m = desc dev m"
  shows "scan_shape d"
proof (cases "cv_scan dev = no_scan")
  case False
  then obtain req v m p off where "sc_req (cv_scan dev) = Some req" "sc_vif (cv_scan dev) = Some v"
    "sc_mlink (cv_scan dev) = Some m" "sc_phy (cv_scan dev) = Some p" "desc dev m = Some (off, v)"
    "off \<longrightarrow> vd_offchannel_link (cv_vif dev v) = Some m"
    using assms(1) unfolding scan_shape_def by blast
  then show ?thesis unfolding scan_shape_def assms(2,3) using assms(4) [of m v off] by simp
qed (simp add: scan_shape_def assms(2))

text \<open>Freeing a link of an interface that is not the one scanning.\<close>

lemma free_link_core:
  assumes "chan_core dev" "own_link dev v (Mlink k)" "\<And>w i. vd_link (cv_vif dev w) i \<noteq> Some (Mlink k)"
    "sc_vif (cv_scan dev) \<noteq> Some v"
  shows "chan_core (free_link (Mlink k) dev)"
proof (rule core_links [OF assms(1)])
  let ?d = "free_link (Mlink k) dev"
  note l = links_okD [OF coreD(1) [OF assms(1)]]
  have f: "desc ?d = (desc dev)(Mlink k := None)" "cv_vif ?d = cv_vif dev" "cv_scan ?d = cv_scan dev"
    "cv_next_link ?d = cv_next_link dev"
    by (auto simp: free_link_def cc_log_def desc_def)
  show "same_but_links dev ?d" by (simp add: same_but_links_def free_link_def cc_log_def)
  show "links_ok ?d"
  proof (rule links_okI, unfold f)
    show "j < cv_next_link dev" if "((desc dev)(Mlink k := None)) (Mlink j) \<noteq> None" for j
      using that l(1) [of j] by (auto split: if_splits)
    show "sc_mlink (cv_scan dev) = Some n" if "((desc dev)(Mlink k := None)) n = Some (True, w)" for n w
      using that l(2) by (auto split: if_splits)
    show "sc_mlink (cv_scan dev) = Some n \<and> sc_vif (cv_scan dev) = Some u \<and> ((desc dev)(Mlink k := None)) n = Some (True, u)"
      if "vd_offchannel_link (cv_vif dev u) = Some n" for u n
      using l(3) [OF that] assms(2) by auto
    show "((desc dev)(Mlink k := None)) (Deflink u) = Some (False, u)" for u using l(4) by simp
    show "((desc dev)(Mlink k := None)) n = Some (False, u)" if "vd_link (cv_vif dev u) i = Some n" for u i n
      using l(5) [OF that] assms(3) [of u i] that by auto
  qed (rule l; assumption)+
  show "scan_shape ?d"
    by (rule shape_keep [OF coreD(2) [OF assms(1)]]) (use assms(2,4) f in auto)
qed

section \<open>Every operation keeps the invariant\<close>

definition pre :: "chan_dev \<Rightarrow> bool" where
  "pre dev \<longleftrightarrow> chan_core dev \<and> (cv_scan_work dev = None \<longleftrightarrow> cv_scan dev = no_scan)"

lemma chan_inv_alt: "chan_inv dev \<longleftrightarrow> pre dev \<and> \<not> cv_mutex dev"
  by (auto simp: chan_inv_def pre_def)

lemma pre_mutex [simp]: "pre (dev\<lparr>cv_mutex := b\<rparr>) = pre dev"
  by (simp add: pre_def)

lemma pre_links: "pre dev \<Longrightarrow> same_but_links dev d \<Longrightarrow> chan_core d \<Longrightarrow> pre d"
  by (simp add: pre_def same_but_links_def)

lemma pre_log [simp]: "e \<noteq> Scan_accepted \<Longrightarrow> \<not> scan_end e \<Longrightarrow> pre (cc_log e dev) = pre dev"
  by (simp add: pre_def) (simp add: cc_log_def)

lemma pre_set_channel: "pre dev \<Longrightarrow> pre (snd (set_channel env p cd False dev))"
  using core_set_channel(1,2,3) [of dev False p env cd "fst (set_channel env p cd False dev)" "snd (set_channel env p cd False dev)"]
  unfolding pre_def by (metis prod.collapse)

definition good :: "'a outcome \<Rightarrow> bool" where
  "good m \<longleftrightarrow> (\<exists>r d. m = Done r d \<and> chan_inv d)"

lemma good_Done [simp]: "good (Done r d) = chan_inv d"
  by (simp add: good_def)

lemma good_done_with [simp]: "good (done_with m) = good m"
  by (cases m) (auto simp: done_with_def good_def)

lemma good_locked:
  assumes "chan_inv dev" "\<And>d. pre d \<Longrightarrow> d = dev\<lparr>cv_mutex := True\<rparr> \<Longrightarrow> \<exists>r e. body d = Done r e \<and> pre e"
  shows "good (locked body dev)"
  using assms(2) [of "dev\<lparr>cv_mutex := True\<rparr>"] assms(1)
  by (auto simp: locked_def good_def chan_inv_alt)

text \<open>Aborting the scan, always or only that of a radio or an interface.\<close>

lemma abort_good:
  assumes "chan_inv dev"
  shows "\<exists>d. mt76_abort_scan env dev = Done () d \<and> chan_inv d \<and> cv_scan d = no_scan
    \<and> cv_ctx_phy d = cv_ctx_phy dev \<and> cv_mcu_reset d = cv_mcu_reset dev"
  using scan_abort_run [of dev env] assms by (auto simp: chan_inv_def calm_def)

lemma abort_on_good:
  assumes "chan_inv dev"
  shows "\<exists>d. abort_scan_on env p dev = Done () d \<and> chan_inv d \<and> sc_phy (cv_scan d) \<noteq> Some p
    \<and> cv_ctx_phy d = cv_ctx_phy dev"
  using abort_good [OF assms, of env] assms by (auto simp: abort_scan_on_def)

lemma abort_of_good:
  assumes "chan_inv dev"
  shows "\<exists>d. abort_scan_of env v dev = Done () d \<and> chan_inv d \<and> sc_vif (cv_scan d) \<noteq> Some v
    \<and> cv_ctx_phy d = cv_ctx_phy dev"
  using abort_good [OF assms, of env] assms by (auto simp: abort_scan_of_def)

lemma abort_run:
  assumes "chan_inv dev" "\<And>d. chan_inv d \<Longrightarrow> cv_ctx_phy d = cv_ctx_phy dev \<Longrightarrow> good (k () d)"
  shows "good (and_then (abort_scan_on env p dev) k)"
  using abort_on_good [OF assms(1), of env p] assms(2) by auto

lemma update_channel_pre:
  assumes "pre dev"
  shows "pre (snd (mt76_phy_update_channel env p c dev))"
proof -
  let ?f = "\<lambda>r. r\<lparr>ra_radar_enabled := cf_radar (cv_conf dev c), ra_main := Some (cf_def (cv_conf dev c)), ra_chanctx := Some c\<rparr>"
  have eq: "upd_radio p (tune cd False) (upd_radio p ?f dev) = upd_radio p (tune cd False \<circ> ?f) dev" for cd
    by (simp add: upd_radio_def)
  have "radio_ok dev p" using assms by (simp add: pre_def chan_core_def)
  then have "radio_ok (upd_radio p (tune cd False \<circ> ?f) dev) p" for cd
    by (simp add: radio_ok_def upd_radio_def tune_def)
  then have "chan_core (upd_radio p (tune cd False \<circ> ?f) dev)" for cd
    using core_radio assms unfolding pre_def by blast
  moreover have "cv_scan_work (upd_radio p g dev) = cv_scan_work dev" "cv_scan (upd_radio p g dev) = cv_scan dev" for g
    by (simp_all add: upd_radio_def)
  ultimately have "pre (upd_radio p (tune cd False \<circ> ?f) dev)" for cd using assms by (simp only: pre_def simp_thms)
  moreover have "snd (mt76_phy_update_channel env p c dev) = cc_log (Drv_set_channel p (cf_def (cv_conf dev c)) False)
      (upd_radio p (tune (cf_def (cv_conf dev c)) False \<circ> ?f) dev)"
    by (simp add: mt76_phy_update_channel_def set_channel_def Let_def eq)
  ultimately show ?thesis by simp
qed

lemma add_ctx_good: "chan_inv dev \<Longrightarrow> good (mt76_add_chanctx env c dev)"
proof -
  assume inv: "chan_inv dev"
  define d where "d = dev\<lparr>cv_ctx_phy := (cv_ctx_phy dev)(c := ce_band_phys env (ce_band env (cd_chan (cf_def (cv_conf dev c)))))\<rparr>"
  have d: "chan_inv d" using inv by (simp add: d_def chan_inv_def)
  show ?thesis
  proof (cases "ce_band_phys env (ce_band env (cd_chan (cf_def (cv_conf dev c))))")
    case None
    then show ?thesis using d by (simp add: mt76_add_chanctx_def d_def)
  next
    case (Some p)
    have "good (and_then (abort_scan_on env p d) (\<lambda>_. locked (\<lambda>dev.
             if ra_chanctx (cv_radio dev p) = None
             then (let (ret, dev) = mt76_phy_update_channel env p c dev in Done ret dev)
             else Done 0 dev)))"
    proof (rule abort_run [OF d], rule good_locked)
      fix e
      assume "pre (e :: chan_dev)"
      then show "\<exists>r e'. (if ra_chanctx (cv_radio e p) = None
          then (let (ret, dev) = mt76_phy_update_channel env p c e in Done ret dev) else Done 0 e) = Done r e' \<and> pre e'"
        using update_channel_pre [of e env p c] by (simp add: case_prod_beta)
    qed
    then show ?thesis by (simp add: mt76_add_chanctx_def Some d_def)
  qed
qed

lemma pre_radio_ctx: "pre dev \<Longrightarrow> pre (upd_radio p (\<lambda>r. r\<lparr>ra_chanctx := c\<rparr>) dev)"
  using core_radio [of dev p "\<lambda>r. r\<lparr>ra_chanctx := c\<rparr>"] coreD(3) [of dev p]
  by (simp add: pre_def radio_ok_def) (simp add: upd_radio_def)

lemma remove_ctx_good: "chan_inv dev \<Longrightarrow> good (mt76_remove_chanctx env c dev)"
  by (auto simp: mt76_remove_chanctx_def split: option.split intro!: abort_run good_locked pre_radio_ctx)

lemma change_ctx_good:
  "chan_inv dev \<Longrightarrow> cv_ctx_phy dev c \<noteq> None \<Longrightarrow> good (mt76_change_chanctx env c rel dev)"
  by (auto simp: mt76_change_chanctx_def intro!: good_locked update_channel_pre)

lemma get_loop_own:
  assumes "chan_core dev" "get_vif_phy_link_loop dev p v = Some m"
  shows "own_link dev v m"
proof -
  have "m \<in> set (List.map_filter (\<lambda>i. case vd_link (cv_vif dev v) i of
          None \<Rightarrow> None | Some m \<Rightarrow> if mt76_vif_link_phy dev m = Some p then Some m else None) [0..<MAX_NUM_LINKS])"
    using assms(2) by (auto simp: get_vif_phy_link_loop_def Let_def split: list.splits)
  then obtain i where "vd_link (cv_vif dev v) i = Some m"
    by (auto simp: List.map_filter_def split: option.splits if_splits)
  then show ?thesis using links_okD(5) [OF coreD(1) [OF assms(1)]] by blast
qed

lemma get_link_cases:
  assumes "chan_core dev"
  obtains (failed) ret d where "mt76_get_vif_phy_link env p v dev = (Inl ret, d)" "chan_core d" "same_but_links dev d"
  | (found) m where "mt76_get_vif_phy_link env p v dev = (Inr m, dev)" "own_link dev v m"
  | (added) m d where "mt76_get_vif_phy_link env p v dev = (Inr m, d)" "same_but_links dev d" "desc dev m = None"
      "desc d = (desc dev)(m \<mapsto> (True, v))" "cv_next_link d = cv_next_link dev + 1" "m = Mlink (cv_next_link dev)"
      "vd_offchannel_link (cv_vif d v) = Some m" "\<And>u. vd_link (cv_vif d u) = vd_link (cv_vif dev u)"
      "\<And>u. u \<noteq> v \<Longrightarrow> vd_offchannel_link (cv_vif d u) = vd_offchannel_link (cv_vif dev u)"
proof (cases "get_vif_phy_link_loop dev p v")
  case (Some m)
  then show ?thesis using found get_loop_own [OF assms Some] by (simp add: mt76_get_vif_phy_link_def)
next
  case none: None
  show ?thesis
  proof (cases "ce_has_link_add env \<and> ce_alloc env")
    case False
    then have "\<exists>ret. mt76_get_vif_phy_link env p v dev = (Inl ret, dev)"
      by (cases "ce_has_link_add env") (simp_all add: mt76_get_vif_phy_link_def mt76_alloc_mlink_def none)
    then show ?thesis using failed [of _ dev] assms by (auto simp: same_but_links_def)
  next
    case True
    then obtain m d where a: "mt76_alloc_mlink env v dev = (Some m, d)" by (simp add: mt76_alloc_mlink_def Let_def)
    note A = alloc_link [OF assms a]
    define d1 where "d1 = upd_link m (\<lambda>l. l\<lparr>vl_offchannel := True\<rparr>) d"
    define d2 where "d2 = upd_vif v (\<lambda>d. d\<lparr>vd_offchannel_link := Some m\<rparr>) (cc_log (Link_add p v m) d1)"
    have get: "mt76_get_vif_phy_link env p v dev =
        (if ce_link_add env 0 \<noteq> 0 then (Inl (ce_link_add env 0), free_link m d1) else (Inr m, d2))"
      using True by (simp add: mt76_get_vif_phy_link_def none a d1_def d2_def Let_def)
    have dd: "cv_link d = (cv_link dev)(m \<mapsto> \<lparr>vl_offchannel = False, vl_ctx = None, vl_mvif = v\<rparr>)"
      "cv_next_link d = cv_next_link dev + 1"
      using a by (auto simp: mt76_alloc_mlink_def Let_def split: if_splits)
    have free: "free_link m d1 = free_link m d"
      by (simp add: free_link_def d1_def upd_link_def cc_log_def)
    show ?thesis
    proof (cases "ce_link_add env 0 = 0")
      case False
      show ?thesis
      proof (rule failed)
        show "mt76_get_vif_phy_link env p v dev = (Inl (ce_link_add env 0), free_link m d)"
          using False by (simp add: get free)
        show "chan_core (free_link m d)" by (rule A(6))
        show "same_but_links dev (free_link m d)"
          using A(2) by (simp add: same_but_links_def free_link_def cc_log_def)
      qed
    next
      case True
      show ?thesis
      proof (rule added)
        show "mt76_get_vif_phy_link env p v dev = (Inr m, d2)" using True by (simp add: get)
        show "same_but_links dev d2"
          using A(2) by (simp add: same_but_links_def d2_def d1_def upd_vif_def upd_link_def cc_log_def)
        show "desc dev m = None" by (rule A(7))
        show "desc d2 = (desc dev)(m \<mapsto> (True, v))"
          by (rule ext) (simp add: desc_def d2_def d1_def upd_vif_def upd_link_def cc_log_def dd)
        show "m = Mlink (cv_next_link dev)" by (rule A(3))
        show "cv_next_link d2 = cv_next_link dev + 1"
          by (simp add: d2_def d1_def upd_vif_def upd_link_def cc_log_def dd)
      qed (simp_all add: d2_def d1_def upd_vif_def upd_link_def cc_log_def A(5))
    qed
  qed
qed

text \<open>Starting a scan on a device that has none.\<close>

lemma start_scan_pre:
  assumes "chan_core dev" "cv_scan dev = no_scan" "mt76_get_vif_phy_link env p v dev = (Inr m, d)"
  shows "pre (cc_log Scan_accepted (d\<lparr>cv_scan := no_scan\<lparr>sc_req := Some req, sc_vif := Some v,
      sc_phy := Some p, sc_mlink := Some m\<rparr>, cv_scan_work := Some 0\<rparr>))" (is "pre ?e")
proof -
  define E where "E = ?e"
  note D = coreD [OF assms(1)]
  note l = links_okD [OF D(1)]
  have scan: "cv_scan E = no_scan\<lparr>sc_req := Some req, sc_vif := Some v, sc_phy := Some p, sc_mlink := Some m\<rparr>"
    by (simp add: E_def cc_log_def)
  have noff: "desc dev n \<noteq> Some (True, w)" for n w using l(2) [of n w] assms(2) by auto
  have nolink: "vd_offchannel_link (cv_vif dev u) = None" for u
    using l(3) [of u] assms(2) by (cases "vd_offchannel_link (cv_vif dev u)") auto
  have "same_but_links dev d \<and> links_ok E \<and> scan_shape E"
  proof (cases rule: get_link_cases [OF assms(1), of env p v])
    case (1 ret e)
    then show ?thesis using assms(3) by simp
  next
    case (2 n)
    then have n: "n = m" "d = dev" using assms(3) by simp_all
    have f: "desc E = desc dev" "cv_vif E = cv_vif dev" "cv_next_link E = cv_next_link dev"
      by (auto simp: E_def n desc_def cc_log_def)
    have "links_ok E"
      by (rule links_okI; (unfold f)?) (use l(1,4-) noff nolink in simp_all)
    moreover have "scan_shape E" unfolding scan_shape_def scan f using 2(2) n by (simp, blast)
    ultimately show ?thesis by (simp add: n same_but_links_def)
  next
    case (3 n e)
    then have n: "n = m" "e = d" using assms(3) by simp_all
    note A = 3(2-) [unfolded n]
    have "desc E = desc d" by (rule ext) (simp add: E_def desc_def cc_log_def)
    then have f: "desc E = (desc dev)(m \<mapsto> (True, v))" "cv_vif E = cv_vif d" "cv_next_link E = cv_next_link dev + 1"
      using A(3,4) by (simp_all add: E_def cc_log_def)
    have old: "own_link E u k" if "own_link dev u k" for u k using that A(2) by (auto simp: f)
    have "links_ok E"
    proof (rule links_okI)
      show "k < cv_next_link E" if "desc E (Mlink k) \<noteq> None" for k
        using that l(1) [of k] A(5) by (auto simp: f split: if_splits)
      show "sc_mlink (cv_scan E) = Some k" if "desc E k = Some (True, w)" for k w
        using that noff by (auto simp: f scan split: if_splits)
      show "sc_mlink (cv_scan E) = Some k \<and> sc_vif (cv_scan E) = Some u \<and> desc E k = Some (True, u)"
        if "vd_offchannel_link (cv_vif E u) = Some k" for u k
        using that A(6) A(8) [of u] nolink [of u] by (cases "u = v") (auto simp: f scan)
      show "own_link E u (Deflink u)" for u using old l(4) .
      show "own_link E u k" if "vd_link (cv_vif E u) i = Some k" for u i k
        using old l(5) that unfolding f A(7) .
      show "i = 0" if "vd_link (cv_vif E u) i = Some (Deflink k)" for u i k
        using l(6) that unfolding f A(7) .
      show "i \<noteq> 0" if "vd_link (cv_vif E u) i = Some (Mlink k)" for u i k
        using l(7) that unfolding f A(7) .
      show "j = i" if "vd_link (cv_vif E u) i = Some (Mlink k)" "vd_link (cv_vif E u) j = Some (Mlink k)" for u i j k
        using l(8) that unfolding f A(7) .
    qed
    moreover have "scan_shape E" unfolding scan_shape_def scan f using A(6) by (simp, blast)
    ultimately show ?thesis using A(1) by simp
  qed
  then have s: "same_but_links dev d" "links_ok E" "scan_shape E" by simp_all
  let ?q = "\<lambda>e. e = Scan_accepted \<or> scan_end e"
  have log: "filter ?q (cv_log d) = filter ?q (cv_log dev)" using s(1) by (simp add: same_but_links_def)
  have acc: "scans (\<lambda>e. e = Scan_accepted) E = Suc (scans (\<lambda>e. e = Scan_accepted) dev)"
    and fin: "scans scan_end E = scans scan_end dev"
    using filter_sub [OF log, of "\<lambda>e. e = Scan_accepted"] filter_sub [OF log, of scan_end]
    by (simp_all add: E_def scans_def cc_log_def)
  have "radio_ok E q" for q
  proof -
    have "\<not> ra_offchannel (cv_radio dev q) \<or> ra_main (cv_radio dev q) = None \<or> Scan_dropped \<in> set (cv_log dev)"
      using D(3) [of q] assms(2) by (auto simp: radio_ok_def)
    moreover have "Scan_dropped \<in> set (cv_log E) \<longleftrightarrow> Scan_dropped \<in> set (cv_log dev)"
    proof -
      have mem: "Scan_dropped \<in> set es \<longleftrightarrow> filter (\<lambda>e. e = Scan_dropped) es \<noteq> []" for es
        by (auto simp: filter_empty_conv)
      show ?thesis using filter_sub [OF log, of "\<lambda>e. e = Scan_dropped"] unfolding mem by (simp add: E_def cc_log_def)
    qed
    ultimately show ?thesis
      using D(3) [of q] s(1) by (auto simp: radio_ok_def same_but_links_def E_def cc_log_def)
  qed
  moreover have "books_ok E" using D(5) acc fin by (simp add: books_ok_def assms(2)) (simp add: E_def cc_log_def no_scan_def)
  moreover have "vd_roc_phy (cv_vif E u) = None" for u
    using D(4) [of u] s(1) by (simp add: same_but_links_def E_def cc_log_def)
  ultimately have "chan_core E" using s unfolding chan_core_def by blast
  moreover have "cv_scan_work E = Some 0" "cv_scan E \<noteq> no_scan" by (simp_all add: E_def cc_log_def no_scan_def)
  ultimately show ?thesis unfolding E_def [symmetric] pre_def by simp
qed

lemma hw_scan_good: "chan_inv dev \<Longrightarrow> good (mt76_hw_scan env hw v req dev)"
proof -
  assume inv: "chan_inv dev"
  show ?thesis
  proof (cases "if 1 < ce_n_radio env then ce_band_phys env (ce_band env (hd (rq_channels req))) else Some hw")
    case None
    then show ?thesis using inv by (simp add: mt76_hw_scan_def)
  next
    case (Some p)
    define body where "body = (\<lambda>dev.
          if sc_req (cv_scan dev) \<noteq> None \<or> ra_roc_vif (cv_radio dev p) \<noteq> None \<or> cv_mcu_reset dev
          then Done (-16) dev
          else case mt76_get_vif_phy_link env p v dev of
            (Inl ret, dev) \<Rightarrow> Done ret dev
          | (Inr m, dev) \<Rightarrow> Done 0 (cc_log Scan_accepted
              (dev\<lparr>cv_scan := no_scan\<lparr>sc_req := Some req, sc_vif := Some v, sc_phy := Some p, sc_mlink := Some m\<rparr>,
                   cv_scan_work := Some (0::nat)\<rparr>)))"
    have "good (locked body dev)"
    proof (rule good_locked [OF inv])
      fix d
      assume d: "pre (d :: chan_dev)"
      have core: "chan_core d" using d by (simp add: pre_def)
      show "\<exists>r e. body d = Done r e \<and> pre e"
      proof (cases "sc_req (cv_scan d) \<noteq> None \<or> ra_roc_vif (cv_radio d p) \<noteq> None \<or> cv_mcu_reset d")
        case True
        then show ?thesis using d by (auto simp: body_def)
      next
        case False
        then have idle: "cv_scan d = no_scan"
          using scan_shape_cases [OF coreD(2) [OF core]] by auto
        obtain r e where r: "mt76_get_vif_phy_link env p v d = (r, e)" by fastforce
        show ?thesis
        proof (cases r)
          case (Inl ret)
          have "pre e"
            by (cases rule: get_link_cases [OF core, of env p v]) (use r Inl pre_links [OF d] in simp_all)
          then show ?thesis using False r Inl by (simp add: body_def)
        next
          case (Inr m)
          then show ?thesis using False start_scan_pre [OF core idle, of env p v m e req] r by (simp add: body_def)
        qed
      qed
    qed
    then show ?thesis using Some by (simp add: mt76_hw_scan_def body_def)
  qed
qed

lemma send_probe_same:
  "chan_core (mt76_scan_send_probe env i dev) = chan_core dev \<and> cv_scan (mt76_scan_send_probe env i dev) = cv_scan dev
    \<and> cv_mutex (mt76_scan_send_probe env i dev) = cv_mutex dev"
  by (simp add: mt76_scan_send_probe_def split: option.split) (simp add: cc_log_def)

lemma send_probes_same:
  "chan_core (fold (mt76_scan_send_probe env) is dev) = chan_core dev
    \<and> cv_scan (fold (mt76_scan_send_probe env) is dev) = cv_scan dev
    \<and> cv_mutex (fold (mt76_scan_send_probe env) is dev) = cv_mutex dev"
  by (induction "is" arbitrary: dev) (simp_all add: send_probe_same)

text \<open>The scan moves on: another index, on the channel or, for associated radios, back home.\<close>

lemma core_scan_step:
  assumes "chan_core dev" "cv_scan dev \<noteq> no_scan" "sc_chan (cv_scan dev) = None \<or> c \<noteq> None
    \<or> (\<forall>p. sc_phy (cv_scan dev) = Some p \<longrightarrow> \<not> ra_offchannel (cv_radio dev p))"
  shows "chan_core (dev\<lparr>cv_scan := (cv_scan dev)\<lparr>sc_chan := c, sc_chan_idx := i\<rparr>\<rparr>)" (is "chan_core ?d")
proof -
  note D = coreD [OF assms(1)]
  have desc: "desc ?d = desc dev" by (rule ext) (simp add: desc_def)
  have "sc_req (cv_scan ?d) \<noteq> None" using D(2) assms(2) by (auto simp: scan_shape_def)
  then have busy: "cv_scan ?d \<noteq> no_scan" by (metis no_scan_simps(1))
  have "links_ok ?d = links_ok dev" by (simp add: links_ok_def desc)
  moreover have "scan_shape ?d" using D(2) assms(2) by (auto simp: scan_shape_def desc)
  moreover have "radio_ok ?d p" for p using D(3) [of p] assms(3) by (auto simp: radio_ok_def)
  moreover have "books_ok ?d" using D(5) assms(2) busy by (simp add: books_ok_def scans_def)
  ultimately show ?thesis using D(1,4) unfolding chan_core_def by auto
qed

lemma set_main_scan:
  "set_main_channel env p (dev\<lparr>cv_scan := x\<rparr>) =
     and_then (set_main_channel env p dev) (\<lambda>r d. Done r (d\<lparr>cv_scan := x\<rparr>))"
  by (simp add: set_main_channel_def mt76_set_channel_def locked_def set_channel_def upd_radio_def cc_log_def
      split: option.split)

lemma scan_away:
  assumes "chan_core dev" "\<not> cv_mutex dev" "sc_phy (cv_scan dev) = Some p" "sc_chan (cv_scan dev) \<noteq> None"
  shows "\<exists>d. mt76_set_channel env p cd True dev = Done (ce_set_channel env) d \<and> chan_core d \<and> \<not> cv_mutex d
    \<and> cv_scan d = cv_scan dev"
proof -
  obtain ret d where d: "set_channel env p cd True (dev\<lparr>cv_mutex := True\<rparr>) = (ret, d)"
    by (cases "set_channel env p cd True (dev\<lparr>cv_mutex := True\<rparr>)")
  then have "ret = ce_set_channel env" by (simp add: set_channel_def)
  then show ?thesis
    using core_set_channel [OF _ _ d] assms d by (simp add: mt76_set_channel_def locked_def)
qed

lemma scan_work_good:
  assumes inv: "chan_inv dev" and queued: "cv_scan_work dev \<noteq> None"
  shows "good (mt76_scan_work env dev)"
proof -
  have core: "chan_core dev" and nm: "\<not> cv_mutex dev" and busy: "cv_scan dev \<noteq> no_scan"
    using inv queued by (auto simp: chan_inv_def)
  obtain req v m p where sc: "sc_req (cv_scan dev) = Some req" "sc_phy (cv_scan dev) = Some p"
    "sc_vif (cv_scan dev) = Some v" "sc_mlink (cv_scan dev) = Some m"
    using scan_shape_cases [OF coreD(2) [OF core]] busy by metis
  define d where "d = dev\<lparr>cv_scan_work := None\<rparr>"
  have d: "chan_core d" "\<not> cv_mutex d" "cv_scan d = cv_scan dev" "cv_radio d = cv_radio dev"
    using core nm by (simp_all add: d_def)
  note unf = mt76_scan_work_def [of env dev, unfolded Let_def, folded d_def, unfolded d(3,4) sc option.case prod.case]
  consider (over) "length (rq_channels req) \<le> sc_chan_idx (cv_scan dev)"
    | (home) "\<not> length (rq_channels req) \<le> sc_chan_idx (cv_scan dev)"
        "sc_chan (cv_scan dev) \<noteq> None" "ra_num_sta (cv_radio dev p) \<noteq> 0"
    | (visit) "\<not> length (rq_channels req) \<le> sc_chan_idx (cv_scan dev)"
        "\<not> (sc_chan (cv_scan dev) \<noteq> None \<and> ra_num_sta (cv_radio dev p) \<noteq> 0)"
    by blast
  then show ?thesis
  proof cases
    case over
    then show ?thesis
      using scan_complete_run [OF d(1,2), of env False]
      by (auto simp: unf good_def chan_inv_def calm_def d_def)
  next
    case home
    then obtain cd where cd: "ra_main (cv_radio d p) = Some cd"
      using coreD(3) [OF core, of p] by (auto simp: radio_ok_def d(4))
    obtain e where e: "set_main_channel env p d = Done (ce_set_channel env) e" "calm d e" "cv_scan e = cv_scan dev"
      "\<not> ra_offchannel (cv_radio e p)"
      using main_channel [OF d(1,2) cd, of env] d(3) by auto
    have "chan_core (e\<lparr>cv_scan := (cv_scan e)\<lparr>sc_chan := None, sc_chan_idx := sc_chan_idx (cv_scan e)\<rparr>\<rparr>)"
      using e busy sc by (intro core_scan_step) (auto simp: calm_def)
    moreover have "(cv_scan dev)\<lparr>sc_chan := None\<rparr> \<noteq> no_scan"
    proof
      assume "(cv_scan dev)\<lparr>sc_chan := None\<rparr> = no_scan"
      then have "sc_req ((cv_scan dev)\<lparr>sc_chan := None\<rparr>) = None" by (simp only: no_scan_simps)
      then show False using sc(1) by simp
    qed
    ultimately show ?thesis
      using home e by (simp add: unf set_main_scan chan_inv_def calm_def)
  next
    case visit
    let ?c = "rq_channels req ! sc_chan_idx (cv_scan dev)"
    define b where "b = d\<lparr>cv_scan := (cv_scan dev)\<lparr>sc_chan := Some ?c, sc_chan_idx := sc_chan_idx (cv_scan dev) + 1\<rparr>\<rparr>"
    have b: "chan_core b" "\<not> cv_mutex b" "sc_phy (cv_scan b) = Some p" "sc_chan (cv_scan b) \<noteq> None"
      "sc_req (cv_scan b) \<noteq> None"
      using core_scan_step [OF d(1), of "Some ?c" "sc_chan_idx (cv_scan dev) + 1"] busy d sc by (simp_all add: b_def)
    have "cv_scan b \<noteq> no_scan" using b(5) by (metis no_scan_simps(1))
    obtain e where e: "mt76_set_channel env p \<lparr>cd_chan = ?c, cd_width = HT20\<rparr> True b = Done (ce_set_channel env) e"
      "chan_core e" "\<not> cv_mutex e" "cv_scan e = cv_scan b"
      using scan_away [OF b(1,2,3,4)] by blast
    define f where "f = (if rq_n_ssids req = 0 \<or> ce_passive env ?c then e else fold (mt76_scan_send_probe env) [0..<rq_n_ssids req] e)"
    have f: "chan_core f" "\<not> cv_mutex f" "cv_scan f = cv_scan b"
      using e(2,3,4) send_probes_same [of env "[0..<rq_n_ssids req]" e] by (simp_all add: f_def)
    have inv': "chan_inv (f\<lparr>cv_scan_work := Some n\<rparr>)" for n
      using f \<open>cv_scan b \<noteq> no_scan\<close> by (simp add: chan_inv_def)
    have "\<exists>n. mt76_scan_work env dev = Done () (f\<lparr>cv_scan_work := Some n\<rparr>)"
      by (simp only: unf visit if_False b_def [symmetric] e(1) and_then_simps f_def [symmetric]) blast
    then show ?thesis using inv' by (auto simp: good_def)
  qed
qed

lemma cancel_scan_good: "chan_inv dev \<Longrightarrow> good (mt76_cancel_hw_scan env dev)"
  using abort_good [of dev env] by (auto simp: mt76_cancel_hw_scan_def)

lemma no_roc: "chan_inv dev \<Longrightarrow> vd_roc_phy (cv_vif dev v) = None \<and> ra_roc_vif (cv_radio dev p) = None
    \<and> \<not> ra_roc_work (cv_radio dev p)"
  by (auto simp: chan_inv_def chan_core_def radio_ok_def)

lemma cancel_roc_good: "chan_inv dev \<Longrightarrow> good (mt76_cancel_remain_on_channel env v dev)"
  using no_roc [of dev v] by (simp add: mt76_cancel_remain_on_channel_def)

lemma put_slot_inv: "chan_inv dev \<Longrightarrow> chan_inv (put_slot v i None dev)"
  using put_slot_core [of dev None v i] by (simp add: chan_inv_def) (simp add: put_slot_def upd_vif_def)

lemma vif_cleanup_good:
  assumes "chan_inv dev"
  shows "good (mt76_vif_cleanup env v dev)"
proof -
  obtain d where "mt76_abort_scan env (put_slot v 0 None dev) = Done () d" "chan_inv d"
    using abort_good [OF put_slot_inv [OF assms]] by blast
  then show ?thesis
    using no_roc [of d v] by (simp add: mt76_vif_cleanup_def put_slot_def [symmetric])
qed

lemma get_link_frame:
  assumes "pre dev" "mt76_get_vif_phy_link env p v dev = (r, d)"
  shows "same_but_links dev d" "r = Inl x \<Longrightarrow> pre d"
proof -
  have core: "chan_core dev" using assms(1) by (simp add: pre_def)
  have "same_but_links dev d \<and> (r = Inl x \<longrightarrow> pre d)"
  proof (cases rule: get_link_cases [OF core, of env p v])
    case (1 ret e)
    then show ?thesis using assms(2) pre_links [OF assms(1) 1(3,2)] by simp
  next
    case (2 m)
    then show ?thesis using assms(2) by (auto simp: same_but_links_def)
  next
    case (3 m e)
    then show ?thesis using assms(2) by simp
  qed
  then show "same_but_links dev d" "r = Inl x \<Longrightarrow> pre d" by blast+
qed

text \<open>
  When a request to remain on a channel is accepted: there is a radio, it is free, and a link was
  found or added.
\<close>

definition roc_starts :: "chan_env \<Rightarrow> nat \<Rightarrow> nat \<Rightarrow> chan_dev \<Rightarrow> bool" where
  "roc_starts env v chan dev \<longleftrightarrow> (case ce_band_phys env (ce_band env chan) of
     None \<Rightarrow> False
   | Some p \<Rightarrow> ra_roc_vif (cv_radio dev p) = None \<and> sc_phy (cv_scan dev) \<noteq> Some p \<and> \<not> cv_mcu_reset dev
       \<and> (\<exists>m d. mt76_get_vif_phy_link env p v (dev\<lparr>cv_mutex := True\<rparr>) = (Inr m, d)))"

lemma remain_cases:
  assumes "chan_inv dev"
  shows "if roc_starts env v chan dev then mt76_remain_on_channel env v chan dev = Deadlock
    else good (mt76_remain_on_channel env v chan dev)"
proof (cases "ce_band_phys env (ce_band env chan)")
  case None
  then show ?thesis using assms by (simp add: mt76_remain_on_channel_def roc_starts_def)
next
  case (Some p)
  define e where "e = dev\<lparr>cv_mutex := True\<rparr>"
  have e: "pre e" "cv_mutex e" "cv_radio e = cv_radio dev" "cv_scan e = cv_scan dev" "cv_mcu_reset e = cv_mcu_reset dev"
    "e\<lparr>cv_mutex := False\<rparr> = dev" "\<not> cv_mutex dev"
    using assms by (simp_all add: e_def chan_inv_alt)
  obtain r d where g: "mt76_get_vif_phy_link env p v e = (r, d)" by fastforce
  show ?thesis
  proof (cases "ra_roc_vif (cv_radio dev p) \<noteq> None \<or> sc_phy (cv_scan dev) = Some p \<or> cv_mcu_reset dev")
    case True
    then show ?thesis
      using Some assms e by (auto simp: mt76_remain_on_channel_def roc_starts_def locked_def e_def [symmetric])
  next
    case free: False
    have pre: "pre d" if "r = Inl x" for x
      using get_link_frame [OF e(1) g] that by simp
    have d: "cv_mutex d" using get_link_frame [OF e(1) g] e(2) by (simp add: same_but_links_def)
    show ?thesis
    proof (cases r)
      case (Inl x)
      then show ?thesis
        using Some free g d pre [OF Inl] e(7)
        by (simp add: mt76_remain_on_channel_def roc_starts_def locked_def e_def [symmetric] e chan_inv_alt)
    next
      case (Inr m)
      then show ?thesis
        using Some free g d e(7)
        by (simp add: mt76_remain_on_channel_def roc_starts_def locked_def e_def [symmetric] e mt76_set_channel_def
            Let_def upd_radio_def upd_vif_def)
    qed
  qed
qed

lemma abort_of_run:
  assumes "chan_inv dev"
    "\<And>d. chan_inv d \<Longrightarrow> sc_vif (cv_scan d) \<noteq> Some v \<Longrightarrow> good (k () d)"
  shows "good (and_then (abort_scan_of env v dev) k)"
  using abort_of_good [OF assms(1), of env v] assms(2) by auto

lemma pre_set_ctx: "pre dev \<Longrightarrow> pre (upd_link m (\<lambda>l. l\<lparr>vl_ctx := c\<rparr>) dev)"
  using core_set_ctx [of dev m c] by (simp add: pre_def) (simp add: upd_link_def)

lemma desc_set_ctx [simp]: "desc (upd_link m (\<lambda>l. l\<lparr>vl_ctx := c\<rparr>) dev) = desc dev"
  by (rule ext) (auto simp: desc_def upd_link_def option.map_comp comp_def)

lemma desc_log [simp]: "desc (cc_log e dev) = desc dev"
  by (rule ext) (simp add: desc_def cc_log_def)

lemma vif_frames [simp]:
  "cv_vif (upd_link m f dev) = cv_vif dev" "cv_vif (cc_log e dev) = cv_vif dev"
  "cv_scan (upd_link m f dev) = cv_scan dev" "cv_scan (cc_log e dev) = cv_scan dev"
  by (simp_all add: upd_link_def cc_log_def)

lemma pre_put_slot:
  assumes "pre dev"
    and "\<And>n. m = Some n \<Longrightarrow> own_link dev v n"
    and "\<And>w. m = Some (Deflink w) \<Longrightarrow> i = 0"
    and "\<And>k. m = Some (Mlink k) \<Longrightarrow> i \<noteq> 0 \<and> (\<forall>j. vd_link (cv_vif dev v) j = Some (Mlink k) \<longrightarrow> j = i)"
  shows "pre (put_slot v i m dev)"
  using put_slot_core [OF _ assms(2-4)] assms(1) by (simp add: pre_def) (simp add: put_slot_def upd_vif_def)

text \<open>The link an interface's configuration names.\<close>

lemma conf_link:
  assumes "chan_core dev" "mt76_vif_conf_link dev v lc = Some m"
  shows "own_link dev v m" "m = Deflink v \<and> (lc = None \<or> lc = Some 0) \<or>
    (\<exists>i k. lc = Some i \<and> i \<noteq> 0 \<and> m = Mlink k \<and> vd_link (cv_vif dev v) i = Some m
       \<and> (\<forall>j. vd_link (cv_vif dev v) j = Some m \<longrightarrow> j = i))"
proof -
  note l = links_okD [OF coreD(1) [OF assms(1)]]
  show "own_link dev v m"
    using assms(2) l(4) [of v] l(5) by (auto simp: mt76_vif_conf_link_def split: option.splits if_splits)
  show "m = Deflink v \<and> (lc = None \<or> lc = Some 0) \<or>
    (\<exists>i k. lc = Some i \<and> i \<noteq> 0 \<and> m = Mlink k \<and> vd_link (cv_vif dev v) i = Some m
       \<and> (\<forall>j. vd_link (cv_vif dev v) j = Some m \<longrightarrow> j = i))"
    using assms(2) l(6,8) by (cases m) (auto simp: mt76_vif_conf_link_def split: option.splits if_splits)
qed

lemma assign_good:
  assumes "chan_inv dev" "cv_ctx_phy dev c \<noteq> None"
  shows "good (mt76_assign_vif_chanctx env v lc c dev)"
proof -
  obtain p where p: "cv_ctx_phy dev c = Some p" using assms(2) by blast
  let ?ctx = "\<lambda>m. upd_link m (\<lambda>l. l\<lparr>vl_ctx := Some c\<rparr>)"
  define tail where "tail = assign_link env p v lc c"
  note run = mt76_assign_vif_chanctx_def [of env v lc c dev, unfolded p option.case, folded tail_def]
  have tail_slot: "\<exists>r e. tail m fresh d = Done r e \<and> pre e"
    if d: "pre d" "own_link d v m" "fresh \<Longrightarrow> pre (free_link m (?ctx m d))"
      "\<And>w i. m = Deflink w \<Longrightarrow> lc = Some i \<Longrightarrow> i = 0"
      "\<And>k i. m = Mlink k \<Longrightarrow> lc = Some i \<Longrightarrow> i \<noteq> 0 \<and> (\<forall>j. vd_link (cv_vif d v) j = Some m \<longrightarrow> j = i)" for d m fresh
  proof -
    define e where "e = cc_log (Link_add p v m) (?ctx m d)"
    have e: "pre e" "desc e = desc d" "cv_vif e = cv_vif d" using d(1) by (simp_all add: e_def pre_set_ctx)
    have slot: "pre (put_slot v i (Some m) e)" if "lc = Some i" for i
    proof (rule pre_put_slot [OF e(1)])
      show "own_link e v n" if "Some m = Some n" for n using d(2) that by (simp add: e(2))
      show "i = 0" if "Some m = Some (Deflink w)" for w using d(4) [of w i] that \<open>lc = Some i\<close> by simp
      show "i \<noteq> 0 \<and> (\<forall>j. vd_link (cv_vif e v) j = Some (Mlink k) \<longrightarrow> j = i)" if "Some m = Some (Mlink k)" for k
        using d(5) [of k i] that \<open>lc = Some i\<close> by (simp add: e(3))
    qed
    show ?thesis
    proof (cases "ce_link_add env 0 = 0")
      case True
      then show ?thesis using e(1) slot by (simp add: tail_def assign_link_def e_def [symmetric] split: option.split)
    next
      case False
      then show ?thesis using d(1,3) by (simp add: tail_def assign_link_def pre_set_ctx Let_def)
    qed
  qed
  show ?thesis unfolding run
  proof (rule abort_of_run [OF assms(1)], rule good_locked)
    fix d e :: chan_dev
    assume e: "pre e"
    have core: "chan_core e" using e by (simp add: pre_def)
    show "\<exists>r e'. (if vd_monitor (cv_vif e v) then Done 0 e
      else case mt76_vif_conf_link e v lc of
        Some m \<Rightarrow> tail m False e
      | None \<Rightarrow> (case mt76_alloc_mlink env v e of (None, dev) \<Rightarrow> Done (-12) dev | (Some m, dev) \<Rightarrow> tail m True dev)) = Done r e' \<and> pre e'"
    proof (cases "vd_monitor (cv_vif e v)")
      case False
      show ?thesis
      proof (cases "mt76_vif_conf_link e v lc")
        case (Some m)
        have "\<exists>r e'. tail m False e = Done r e' \<and> pre e'"
          by (rule tail_slot) (use conf_link [OF core Some] e in auto)
        then show ?thesis using False Some by simp
      next
        case None
        then obtain i where lc: "lc = Some i" "i \<noteq> 0"
          by (auto simp: mt76_vif_conf_link_def split: option.splits if_splits)
        obtain mo f where a: "mt76_alloc_mlink env v e = (mo, f)" by fastforce
        show ?thesis
        proof (cases mo)
          case none: None
          then have "f = e" using a by (simp add: mt76_alloc_mlink_def Let_def split: if_splits)
          then show ?thesis using False None a none e by simp
        next
          case (Some m)
          note A = alloc_link [OF core a [unfolded Some]]
          have f: "pre f" using pre_links [OF e A(2,1)] .
          have fr: "free_link m (?ctx m f) = free_link m f"
            by (simp add: free_link_def upd_link_def cc_log_def)
          have "same_but_links e (free_link m f)" using A(2) by (simp add: same_but_links_def free_link_def cc_log_def)
          then have "pre (free_link m (?ctx m f))" using pre_links [OF e _ A(6)] fr by simp
          moreover have "vd_link (cv_vif f v) j \<noteq> Some m" for j
            using links_okD(5) [OF coreD(1) [OF core], of v j m] A(5,7) by auto
          ultimately have "\<exists>r e'. tail m True f = Done r e' \<and> pre e'"
            by (intro tail_slot) (use f A(3,4) lc in auto)
          then show ?thesis using False None a Some by simp
        qed
      qed
    qed (use e in simp)
  qed
qed

lemma unassign_good:
  assumes "chan_inv dev" "cv_ctx_phy dev c \<noteq> None"
  shows "good (mt76_unassign_vif_chanctx env v lc c dev)"
proof -
  obtain p where p: "cv_ctx_phy dev c = Some p" using assms(2) by blast
  have body: "\<exists>r e'. (if vd_monitor (cv_vif e v) then Done () e
          else case mt76_vif_conf_link e v lc of
            None \<Rightarrow> Done () e
          | Some m \<Rightarrow>
              let own = (m = Deflink v);
                  dev = (if own then e else put_slot v (the lc) None e);
                  dev = cc_log (Link_remove p v m) dev;
                  dev = upd_link m (\<lambda>l. l\<lparr>vl_ctx := None\<rparr>) dev
              in Done () (if own then dev else free_link m dev)) = Done r e' \<and> pre e'"
    if e: "pre e" "sc_vif (cv_scan e) \<noteq> Some v" for e
  proof (cases "vd_monitor (cv_vif e v) \<or> mt76_vif_conf_link e v lc = None")
    case True
    then show ?thesis using e by auto
  next
    case False
    then obtain m where m: "mt76_vif_conf_link e v lc = Some m" by auto
    have core: "chan_core e" using e(1) by (simp add: pre_def)
    note c = conf_link [OF core m]
    show ?thesis
    proof (cases "m = Deflink v")
      case True
      then show ?thesis using False m e(1) by (simp add: pre_set_ctx)
    next
      case noown: False
      then obtain i k where i: "lc = Some i" "m = Mlink k" "vd_link (cv_vif e v) i = Some m"
        "\<forall>j. vd_link (cv_vif e v) j = Some m \<longrightarrow> j = i"
        using c(2) by blast
      define f where "f = upd_link m (\<lambda>l. l\<lparr>vl_ctx := None\<rparr>) (cc_log (Link_remove p v m) (put_slot v i None e))"
      have f: "pre f" "desc f = desc e" "cv_scan f = cv_scan e" "cv_vif f = cv_vif (put_slot v i None e)"
        using pre_put_slot [OF e(1), of None v i] by (simp_all add: f_def pre_set_ctx)
      have fcore: "chan_core f" using f(1) by (simp add: pre_def)
      have "chan_core (free_link (Mlink k) f)"
      proof (rule free_link_core [OF fcore])
        show "own_link f v (Mlink k)" using c(1) i(2) by (simp add: f(2))
        show "vd_link (cv_vif f w) j \<noteq> Some (Mlink k)" for w j
        proof
          assume a: "vd_link (cv_vif f w) j = Some (Mlink k)"
          then have b: "vd_link (cv_vif e w) j = Some m" "\<not> (w = v \<and> j = i)"
            using i(2) by (auto simp: f(4) split: if_splits)
          have "own_link e w m" using links_okD(5) [OF coreD(1) [OF core] b(1)] .
          then have "w = v" using c(1) by simp
          then show False using b i(4) by blast
        qed
        show "sc_vif (cv_scan f) \<noteq> Some v" using e(2) by (simp add: f(3))
      qed
      moreover have "same_but_links f (free_link m f)" by (simp add: same_but_links_def free_link_def cc_log_def)
      ultimately have "pre (free_link m f)" using pre_links [OF f(1)] i(2) by simp
      then show ?thesis using False m noown i(1) by (simp add: Let_def f_def)
    qed
  qed
  show ?thesis
    unfolding mt76_unassign_vif_chanctx_def p option.case
  proof (rule abort_of_run [OF assms(1)], rule good_locked)
    fix d e :: chan_dev
    assume "pre e" "e = d\<lparr>cv_mutex := True\<rparr>" "sc_vif (cv_scan d) \<noteq> Some v"
    then show "\<exists>r e'. (if vd_monitor (cv_vif e v) then Done () e
          else case mt76_vif_conf_link e v lc of
            None \<Rightarrow> Done () e
          | Some m \<Rightarrow>
              let own = (m = Deflink v);
                  dev = (if own then e else put_slot v (the lc) None e);
                  dev = cc_log (Link_remove p v m) dev;
                  dev = upd_link m (\<lambda>l. l\<lparr>vl_ctx := None\<rparr>) dev
              in Done () (if own then dev else free_link m dev)) = Done r e' \<and> pre e'"
      by (intro body) simp_all
  qed
qed

lemma switch_links_pre: "pre dev \<Longrightarrow> pre (snd (switch_links env old p i vs dev))"
  by (induction vs arbitrary: i dev) (auto simp: Let_def split: option.split)

lemma switch_ctx_pre: "pre dev \<Longrightarrow> pre (fold (switch_ctx c) vs dev)"
  by (induction vs arbitrary: dev) (simp_all add: switch_ctx_def pre_set_ctx split: option.split)

lemma inv_ctx_phy: "chan_inv (dev\<lparr>cv_ctx_phy := x\<rparr>) = chan_inv dev"
  by (simp add: chan_inv_def)

lemma switch_good:
  assumes "chan_inv dev" "cv_ctx_phy dev a \<noteq> None"
  shows "good (mt76_switch_vif_chanctx env vs a b swap dev)"
proof -
  obtain old where old: "cv_ctx_phy dev a = Some old" using assms(2) by blast
  define d where "d = (if swap then dev\<lparr>cv_ctx_phy := (cv_ctx_phy dev)(b :=
      ce_band_phys env (ce_band env (cd_chan (cf_def (cv_conf dev b)))))\<rparr> else dev)"
  have d: "chan_inv d" using assms(1) by (simp add: d_def inv_ctx_phy)
  show ?thesis
  proof (cases "cv_ctx_phy d b")
    case None
    then show ?thesis using d by (simp add: mt76_switch_vif_chanctx_def old d_def [symmetric] Let_def)
  next
    case (Some p)
    define upd where "upd = (ra_chanctx (cv_radio d p) \<noteq> Some b)"
    define body where "body = (\<lambda>dev.
      let dev = (if swap \<and> p \<noteq> old \<and> ra_chanctx (cv_radio dev old) = Some a
                 then upd_radio old (\<lambda>r. r\<lparr>ra_chanctx := None\<rparr>) dev else dev);
          (ret, dev) = (if upd then mt76_phy_update_channel env p b dev else (0, dev))
      in if ret \<noteq> 0 then Done ret dev
         else let (ret, dev) = (if old = p then (0, dev) else switch_links env old p 0 vs dev)
           in if ret \<noteq> 0 then Done ret dev else Done 0 (fold (switch_ctx b) vs dev))"
    have body: "\<exists>r e'. body e = Done r e' \<and> pre e'" if e: "pre e" for e
    proof -
      define e1 where "e1 = (if swap \<and> p \<noteq> old \<and> ra_chanctx (cv_radio e old) = Some a
        then upd_radio old (\<lambda>r. r\<lparr>ra_chanctx := None\<rparr>) e else e)"
      have e1: "pre e1" using e by (simp add: e1_def pre_radio_ctx)
      obtain r2 e2 where e2: "(if upd then mt76_phy_update_channel env p b e1 else (0, e1)) = (r2, e2)" by fastforce
      have p2: "pre e2" using e1 update_channel_pre [OF e1, of env p b] e2 by (auto split: if_splits)
      obtain r3 e3 where e3: "(if old = p then (0, e2) else switch_links env old p 0 vs e2) = (r3, e3)" by fastforce
      have p3: "pre e3" using p2 switch_links_pre [OF p2, of env old p 0 vs] e3 by (auto split: if_splits)
      show ?thesis
        unfolding body_def Let_def e1_def [symmetric] e2 prod.case e3
        using p2 p3 switch_ctx_pre [OF p3, of b vs] by auto
    qed
    have "mt76_switch_vif_chanctx env vs a b swap dev =
        and_then (if upd then abort_scan_on env p d else Done () d) (\<lambda>_. locked body)"
      by (simp add: mt76_switch_vif_chanctx_def old d_def [symmetric] Some upd_def body_def Let_def)
    moreover have "good (and_then (abort_scan_on env p d) (\<lambda>_. locked body))"
      by (rule abort_run [OF d], rule good_locked) (use body in auto)
    moreover have "good (locked body d)"
      by (rule good_locked [OF d]) (use body in auto)
    ultimately show ?thesis by simp
  qed
qed

lemma num_sta_inv:
  assumes "chan_inv dev" "n = 0 \<or> ra_main (cv_radio dev p) \<noteq> None"
  shows "chan_inv (upd_radio p (\<lambda>r. r\<lparr>ra_num_sta := n\<rparr>) dev)"
proof -
  have "radio_ok dev p" "chan_core dev" using assms(1) by (simp_all add: chan_inv_def chan_core_def)
  then have "chan_core (upd_radio p (\<lambda>r. r\<lparr>ra_num_sta := n\<rparr>) dev)"
    using assms(2) by (intro core_radio) (auto simp: radio_ok_def upd_radio_def)
  then show ?thesis using assms(1) by (simp add: chan_inv_def) (simp add: upd_radio_def)
qed

lemma sw_scan_inv: "chan_inv dev \<Longrightarrow> chan_inv (upd_radio p (\<lambda>r. r\<lparr>ra_scanning := b\<rparr>) dev)"
  using core_scanning [of dev p b] by (simp add: chan_inv_def) (simp add: upd_radio_def)

text \<open>Progress and preservation: an allowed operation returns with the invariant, or it is a
  request to remain on a channel that is accepted.\<close>

lemma chan_run_cases:
  assumes "chan_inv dev" "chan_allowed op dev"
  shows "if (\<exists>v chan. op = Remain_on_channel v chan \<and> roc_starts env v chan dev)
    then chan_run env op dev = Deadlock else good (chan_run env op dev)"
proof (cases op)
  case (Remain_on_channel v chan)
  then show ?thesis using remain_cases [OF assms(1), of env v chan] by simp
next
  case (Roc_work p)
  then show ?thesis using assms no_roc [OF assms(1), of _ p] by simp
qed (use assms in \<open>auto simp: hw_scan_good scan_work_good cancel_scan_good cancel_roc_good vif_cleanup_good
  add_ctx_good remove_ctx_good change_ctx_good assign_good unassign_good switch_good num_sta_inv sw_scan_inv\<close>,
  simp_all add: chan_inv_def)

end
