(* ===== verification/ChanProps.thy ===== *)
theory ChanProps
  imports ChanInv
begin

text \<open>
  What theory ChanCtx does, from its invariant: a scan ends exactly once, an undisturbed scan visits
  every channel, and remaining on a channel never starts.
\<close>

section \<open>What the invariant gives\<close>

interpretation chan: state_machine chan_init chan_step chan_inv
proof
  show "chan_inv s" if "chan_init s" for s using that by (rule chan_init_inv)
  show "chan_inv t" if inv: "chan_inv s" and step: "chan_step s t" for s t
  proof -
    obtain env op ret where op: "chan_allowed op s" "chan_run env op s = Done ret t"
      using step by (auto simp: chan_step_def)
    then show ?thesis using chan_run_cases [OF inv op(1), of env] by (simp split: if_splits)
  qed
qed

lemma chan_inv_facts:
  assumes "chan_inv dev"
  shows "scans (\<lambda>e. e = Scan_accepted) dev = scans scan_end dev + (if cv_scan dev = no_scan then 0 else 1)"
    "cv_scan_work dev = None \<longleftrightarrow> cv_scan dev = no_scan"
    "cv_link dev m = Some l \<Longrightarrow> vl_offchannel l \<Longrightarrow> sc_mlink (cv_scan dev) = Some m"
    "ra_offchannel (cv_radio dev p) \<Longrightarrow> ra_main (cv_radio dev p) = None \<or> Scan_dropped \<in> set (cv_log dev)
       \<or> sc_phy (cv_scan dev) = Some p \<and> sc_chan (cv_scan dev) \<noteq> None"
proof -
  have core: "chan_core dev" using assms by (simp add: chan_inv_def)
  note D = coreD [OF core]
  show "scans (\<lambda>e. e = Scan_accepted) dev = scans scan_end dev + (if cv_scan dev = no_scan then 0 else 1)"
    using D(5) by (simp only: books_ok_def)
  show "cv_scan_work dev = None \<longleftrightarrow> cv_scan dev = no_scan" using assms by (simp add: chan_inv_def)
  show "sc_mlink (cv_scan dev) = Some m" if "cv_link dev m = Some l" "vl_offchannel l"
    using links_okD(2) [OF D(1), of m "vl_mvif l"] that by (simp add: desc_def)
  show "ra_main (cv_radio dev p) = None \<or> Scan_dropped \<in> set (cv_log dev)
       \<or> sc_phy (cv_scan dev) = Some p \<and> sc_chan (cv_scan dev) \<noteq> None" if "ra_offchannel (cv_radio dev p)"
    using D(3) [of p] that by (simp add: radio_ok_def)
qed

text \<open>
  C18: A scan ends exactly once: in every state that the operations reach in any order, each scan
  that was accepted has ended, by completion, abort or silently in a firmware reset, except for the
  one in progress, whose work is queued. Off-channel links belong to that scan, and a radio
  with a home channel is off it only for that scan, unless a reset dropped one.
\<close>

theorem scan_ends_once:
  assumes "reachable chan_init chan_step dev"
  shows "scans (\<lambda>e. e = Scan_accepted) dev = scans scan_end dev + (if cv_scan dev = no_scan then 0 else 1)
    \<and> (cv_scan_work dev = None \<longleftrightarrow> cv_scan dev = no_scan)
    \<and> (\<forall>m l. cv_link dev m = Some l \<longrightarrow> vl_offchannel l \<longrightarrow> sc_mlink (cv_scan dev) = Some m)
    \<and> (\<forall>p. ra_offchannel (cv_radio dev p) \<longrightarrow> ra_main (cv_radio dev p) = None \<or> Scan_dropped \<in> set (cv_log dev)
         \<or> sc_phy (cv_scan dev) = Some p \<and> sc_chan (cv_scan dev) \<noteq> None)"
  using chan_inv_facts [OF chan.reachable_inv [OF assms]] by blast

definition idle_radio :: radio where
  "idle_radio = \<lparr>ra_chandef = \<lparr>cd_chan = 2412, cd_width = 20\<rparr>, ra_main = None, ra_chanctx = None,
     ra_offchannel = False, ra_radar_enabled = False, ra_dfs_unknown = False, ra_scanning = False, ra_num_sta = 0,
     ra_survey = (\<lambda>_. 0), ra_roc_vif = None, ra_roc_link = None, ra_roc_work = False\<rparr>"

definition idle_chan :: chan_dev where
  "idle_chan = \<lparr>cv_mutex = False, cv_mcu_reset = False, cv_radio = (\<lambda>_. idle_radio),
     cv_vif = (\<lambda>_. \<lparr>vd_monitor = False, vd_link = (\<lambda>_. None), vd_offchannel_link = None, vd_roc_phy = None\<rparr>),
     cv_link = (\<lambda>m. case m of Deflink v \<Rightarrow> Some \<lparr>vl_offchannel = False, vl_ctx = None, vl_mvif = v\<rparr> | Mlink k \<Rightarrow> None),
     cv_next_link = 0, cv_conf = (\<lambda>_. \<lparr>cf_def = \<lparr>cd_chan = 2412, cd_width = 20\<rparr>, cf_radar = False\<rparr>),
     cv_ctx_phy = (\<lambda>_. None), cv_scan = no_scan, cv_scan_work = None, cv_log = []\<rparr>"

definition kind_env :: chan_env where
  "kind_env = \<lparr>ce_alloc = True, ce_link_add = (\<lambda>_. 0), ce_set_channel = 0, ce_probe_skb = (\<lambda>_. True),
     ce_probe_prepared = (\<lambda>_. True), ce_has_link_add = True, ce_n_radio = 1, ce_band = (\<lambda>_. 0),
     ce_band_phys = (\<lambda>_. Some 0), ce_passive = (\<lambda>_. False), ce_hz = 250, ce_msecs_to_jiffies = (\<lambda>n. n div 4)\<rparr>"

definition short_req :: scan_req where
  "short_req = \<lparr>rq_channels = [2412, 2437], rq_n_ssids = 1, rq_bssid = None, rq_no_cck = False, rq_duration = 0\<rparr>"

definition scanning_chan :: chan_dev where
  "scanning_chan = idle_chan\<lparr>cv_next_link := 1,
     cv_link := (cv_link idle_chan)(Mlink 0 \<mapsto> \<lparr>vl_offchannel = True, vl_ctx = None, vl_mvif = 3\<rparr>),
     cv_vif := (cv_vif idle_chan)(3 := \<lparr>vd_monitor = False, vd_link = (\<lambda>_. None), vd_offchannel_link = Some (Mlink 0),
       vd_roc_phy = None\<rparr>),
     cv_scan := no_scan\<lparr>sc_req := Some short_req, sc_vif := Some 3, sc_phy := Some 0, sc_mlink := Some (Mlink 0)\<rparr>,
     cv_scan_work := Some 0, cv_log := [Link_add 0 3 (Mlink 0), Scan_accepted]\<rparr>"

lemma idle_chan_reachable: "reachable chan_init chan_step idle_chan"
  by (rule reach_init) (simp add: chan_init_def idle_chan_def idle_radio_def)

lemma idle_no_link: "get_vif_phy_link_loop (idle_chan\<lparr>cv_mutex := b\<rparr>) p v = None"
  by (simp add: get_vif_phy_link_loop_def idle_chan_def List.map_filter_def)

lemma idle_get_link:
  "mt76_get_vif_phy_link kind_env 0 3 (idle_chan\<lparr>cv_mutex := True\<rparr>) =
    (Inr (Mlink 0), scanning_chan\<lparr>cv_mutex := True, cv_scan := no_scan, cv_scan_work := None, cv_log := [Link_add 0 3 (Mlink 0)]\<rparr>)"
  unfolding mt76_get_vif_phy_link_def idle_no_link
  by (simp add: kind_env_def mt76_alloc_mlink_def Let_def upd_link_def upd_vif_def cc_log_def scanning_chan_def)
    (simp add: idle_chan_def fun_eq_iff)

lemma idle_scan: "mt76_hw_scan kind_env 0 3 short_req idle_chan = Done 0 scanning_chan"
proof -
  have "cv_scan (idle_chan\<lparr>cv_mutex := True\<rparr>) = no_scan" "\<not> cv_mutex idle_chan" "\<not> cv_mcu_reset idle_chan"
    "ra_roc_vif (cv_radio idle_chan 0) = None"
    by (simp_all add: idle_chan_def idle_radio_def)
  moreover have "ce_n_radio kind_env = 1" by (simp add: kind_env_def)
  ultimately show ?thesis
    by (simp add: mt76_hw_scan_def locked_def idle_get_link cc_log_def) (simp add: scanning_chan_def idle_chan_def)
qed

lemma scanning_reachable: "reachable chan_init chan_step scanning_chan"
proof (rule reach_step [OF idle_chan_reachable])
  have "chan_allowed (Hw_scan 0 3 short_req) idle_chan \<and> chan_run kind_env (Hw_scan 0 3 short_req) idle_chan = Done 0 scanning_chan"
    by (simp add: idle_scan)
  then show "chan_step idle_chan scanning_chan" unfolding chan_step_def by blast
qed

theorem scan_ends_once_witness:
  "cv_scan scanning_chan \<noteq> no_scan \<and> cv_scan_work scanning_chan \<noteq> None
    \<and> scans (\<lambda>e. e = Scan_accepted) scanning_chan = scans scan_end scanning_chan + 1"
proof -
  have "cv_scan scanning_chan \<noteq> no_scan" by (simp add: scanning_chan_def no_scan_def)
  then show ?thesis using scan_ends_once [OF scanning_reachable] by simp
qed

text \<open>
  C19: Remaining on a channel never starts: an accepted request waits forever for the mutex it holds
  itself (\<open>mt76_remain_on_channel\<close> calls \<open>mt76_set_channel\<close> under \<open>dev->mutex\<close>). Every other
  operation, in every state the operations reach, returns, and none follows a null pointer.
\<close>

theorem roc_deadlocks:
  assumes "reachable chan_init chan_step dev" "chan_allowed op dev"
  shows "(chan_run env op dev = Deadlock \<longleftrightarrow> (\<exists>v chan. op = Remain_on_channel v chan \<and> roc_starts env v chan dev))
    \<and> chan_run env op dev \<noteq> Null_deref"
  using chan_run_cases [OF chan.reachable_inv [OF assms(1)] assms(2), of env]
  by (auto simp: good_def split: if_splits)

theorem roc_deadlocks_witness:
  "mt76_remain_on_channel kind_env 3 2412 idle_chan = Deadlock"
proof -
  have "roc_starts kind_env 3 2412 idle_chan"
    using idle_get_link by (simp add: roc_starts_def kind_env_def) (simp add: idle_chan_def idle_radio_def)
  then show ?thesis
    using roc_deadlocks [OF idle_chan_reachable, of "Remain_on_channel 3 2412" kind_env] by simp
qed

section \<open>The course of a scan\<close>

definition visits :: "nat \<Rightarrow> chan_dev \<Rightarrow> nat list" where
  "visits p dev = List.map_filter (\<lambda>e. case e of
     Drv_set_channel q cd off \<Rightarrow> if q = p \<and> off then Some (cd_chan cd) else None | _ \<Rightarrow> None) (cv_log dev)"

fun scan_course :: "chan_env \<Rightarrow> nat \<Rightarrow> chan_dev \<Rightarrow> unit outcome" where
  "scan_course env 0 dev = Done () dev"
| "scan_course env (Suc n) dev =
     (if cv_scan_work dev = None then Done () dev else and_then (mt76_scan_work env dev) (\<lambda>_. scan_course env n))"

lemma visits_log: "visits p (cc_log e dev) = visits p dev @ (case e of
    Drv_set_channel q cd off \<Rightarrow> if q = p \<and> off then [cd_chan cd] else [] | _ \<Rightarrow> [])"
  by (cases e) (simp_all add: visits_def cc_log_def List.map_filter_def)

lemma visits_cong: "cv_log a = cv_log b \<Longrightarrow> visits p a = visits p b"
  by (simp add: visits_def)

lemma set_channel_run:
  assumes "\<not> cv_mutex dev"
  shows "mt76_set_channel env p cd off dev =
    Done (ce_set_channel env) (cc_log (Drv_set_channel p cd off) (upd_radio p (tune cd off) dev))"
  using assms by (cases dev) (simp add: mt76_set_channel_def locked_def set_channel_def cc_log_def upd_radio_def)

lemma probes_log:
  "visits p (fold (mt76_scan_send_probe env) is dev) = visits p dev
    \<and> cv_mcu_reset (fold (mt76_scan_send_probe env) is dev) = cv_mcu_reset dev"
proof (induction "is" arbitrary: dev)
  case (Cons i "is")
  have "visits p (mt76_scan_send_probe env i dev) = visits p dev
      \<and> cv_mcu_reset (mt76_scan_send_probe env i dev) = cv_mcu_reset dev"
    by (simp add: mt76_scan_send_probe_def visits_log split: option.split) (simp add: cc_log_def)
  then show ?case using Cons.IH by simp
qed simp

lemma visits_put_link: "visits p (mt76_put_vif_phy_link q v m dev) = visits p dev"
proof -
  have "visits p (upd_vif v f d) = visits p d" "visits p (d\<lparr>cv_link := x\<rparr>) = visits p d" for f v d x
    by (rule visits_cong, simp add: upd_vif_def)+
  then show ?thesis
    by (simp add: mt76_put_vif_phy_link_def free_link_def visits_log Let_def split: option.split)
qed

text \<open>One run of the work: the end, a visit home, or the next channel.\<close>

lemma scan_work_course:
  assumes inv: "chan_inv dev" and work: "cv_scan_work dev \<noteq> None" and alive: "\<not> cv_mcu_reset dev"
    and sc: "sc_req (cv_scan dev) = Some req" "sc_phy (cv_scan dev) = Some p"
  obtains (over) d where "mt76_scan_work env dev = Done () d" "chan_inv d" "length (rq_channels req) \<le> sc_chan_idx (cv_scan dev)"
      "cv_scan d = no_scan" "visits p d = visits p dev" "last (cv_log d) = Scan_completed False"
  | (home) d where "mt76_scan_work env dev = Done () d" "chan_inv d" "sc_chan (cv_scan dev) \<noteq> None" "\<not> cv_mcu_reset d"
      "cv_scan d = (cv_scan dev)\<lparr>sc_chan := None\<rparr>" "visits p d = visits p dev"
      "sc_chan_idx (cv_scan dev) < length (rq_channels req)"
  | (visit) d where "mt76_scan_work env dev = Done () d" "chan_inv d" "\<not> cv_mcu_reset d"
      "sc_chan_idx (cv_scan dev) < length (rq_channels req)"
      "cv_scan d = (cv_scan dev)\<lparr>sc_chan := Some (rq_channels req ! sc_chan_idx (cv_scan dev)),
         sc_chan_idx := sc_chan_idx (cv_scan dev) + 1\<rparr>"
      "visits p d = visits p dev @ [rq_channels req ! sc_chan_idx (cv_scan dev)]"
proof -
  obtain d where d: "mt76_scan_work env dev = Done () d" "chan_inv d"
    using scan_work_good [OF inv work, of env] by (auto simp: good_def)
  have nm: "\<not> cv_mutex dev" using inv by (simp add: chan_inv_def)
  define e where "e = dev\<lparr>cv_scan_work := None\<rparr>"
  have e: "\<not> cv_mutex e" "cv_scan e = cv_scan dev" "cv_radio e = cv_radio dev" "\<not> cv_mcu_reset e" "cv_log e = cv_log dev"
    using nm alive by (simp_all add: e_def)
  note unf = mt76_scan_work_def [of env dev, unfolded Let_def, folded e_def, unfolded e(2,3) sc option.case prod.case]
  consider (o) "length (rq_channels req) \<le> sc_chan_idx (cv_scan dev)"
    | (h) "\<not> length (rq_channels req) \<le> sc_chan_idx (cv_scan dev)"
        "sc_chan (cv_scan dev) \<noteq> None" "ra_num_sta (cv_radio dev p) \<noteq> 0"
    | (v) "\<not> length (rq_channels req) \<le> sc_chan_idx (cv_scan dev)"
        "\<not> (sc_chan (cv_scan dev) \<noteq> None \<and> ra_num_sta (cv_radio dev p) \<noteq> 0)"
    by blast
  then show thesis
  proof cases
    case o
    have "mt76_scan_complete env False e = Done () d" using d(1) o by (simp add: unf)
    then obtain f where f: "d = scan_finish p False f" "visits p f = visits p dev" "\<not> cv_mcu_reset f"
    proof -
      define r where "r = upd_radio p (\<lambda>r. r\<lparr>ra_scanning := False\<rparr>) e"
      have r: "\<not> cv_mutex r" "cv_scan r = cv_scan dev" "\<not> cv_mcu_reset r" "visits p r = visits p dev"
        using e by (simp_all add: r_def upd_radio_def visits_def)
      have run: "mt76_scan_complete env False e =
          and_then (if sc_chan (cv_scan dev) \<noteq> None \<and> ra_main (cv_radio r p) \<noteq> None then set_main_channel env p r else Done 0 r)
            (\<lambda>_ dev. Done () (scan_finish p False dev))"
        by (simp add: mt76_scan_complete_def e(2) sc r_def [symmetric] r Let_def)
      show thesis
      proof (cases "sc_chan (cv_scan dev) \<noteq> None \<and> ra_main (cv_radio r p) \<noteq> None")
        case True
        then obtain cd where cd: "ra_main (cv_radio r p) = Some cd" by blast
        show thesis
        proof (rule that)
          show "d = scan_finish p False (cc_log (Drv_set_channel p cd False) (upd_radio p (tune cd False) r))"
            using \<open>mt76_scan_complete env False e = Done () d\<close> True cd
            by (simp add: run set_main_channel_def set_channel_run [OF r(1)])
        qed (use r in \<open>simp_all add: visits_log\<close>, simp_all add: visits_def upd_radio_def cc_log_def)
      next
        case False
        then show thesis
          using that [of r] r \<open>mt76_scan_complete env False e = Done () d\<close> by (simp add: run del: de_Morgan_conj)
      qed
    qed
    show thesis
    proof (rule over)
      show "cv_scan d = no_scan" by (simp add: f(1) scan_finish_def Let_def)
      show "last (cv_log d) = Scan_completed False"
        using f(3) by (simp add: f(1) scan_finish_def Let_def cc_log_def)
      have "visits p (x\<lparr>cv_scan := y\<rparr>) = visits p x" for x y by (rule visits_cong) simp
      then show "visits p d = visits p dev"
        by (simp add: f(1) scan_finish_def Let_def visits_log visits_put_link f(2))
    qed (use d o in simp_all)
  next
    case h
    obtain cd where cd: "ra_main (cv_radio dev p) = Some cd"
      using h(3) inv coreD(3) [of dev p] by (auto simp: chan_inv_def radio_ok_def)
    have dd: "d = cc_log (Drv_set_channel p cd False) (upd_radio p (tune cd False)
        (e\<lparr>cv_scan := (cv_scan dev)\<lparr>sc_chan := None\<rparr>\<rparr>))\<lparr>cv_scan_work := Some (ce_hz env div 9)\<rparr>"
    proof -
      have m: "\<not> cv_mutex (e\<lparr>cv_scan := x\<rparr>)" "ra_main (cv_radio (e\<lparr>cv_scan := x\<rparr>) p) = Some cd" for x
        using e cd by simp_all
      have "mt76_scan_work env dev = Done () (cc_log (Drv_set_channel p cd False) (upd_radio p (tune cd False)
        (e\<lparr>cv_scan := (cv_scan dev)\<lparr>sc_chan := None\<rparr>\<rparr>))\<lparr>cv_scan_work := Some (ce_hz env div 9)\<rparr>)"
        by (simp only: unf h if_False if_True simp_thms set_main_channel_def m option.case set_channel_run [OF m(1)] and_then_simps)
      then show ?thesis using d(1) by simp
    qed
    show thesis
    proof (rule home)
      show "visits p d = visits p dev"
        by (simp add: dd visits_def cc_log_def List.map_filter_def upd_radio_def e)
      show "\<not> cv_mcu_reset d" "cv_scan d = (cv_scan dev)\<lparr>sc_chan := None\<rparr>"
        using e(4) by (simp_all add: dd cc_log_def upd_radio_def)
    qed (use d h in simp_all)
  next
    case v
    let ?c = "rq_channels req ! sc_chan_idx (cv_scan dev)"
    define b where "b = e\<lparr>cv_scan := (cv_scan dev)\<lparr>sc_chan := Some ?c, sc_chan_idx := sc_chan_idx (cv_scan dev) + 1\<rparr>\<rparr>"
    have b: "\<not> cv_mutex b" "\<not> cv_mcu_reset b" "cv_log b = cv_log dev" using e by (simp_all add: b_def)
    define g where "g = cc_log (Drv_set_channel p \<lparr>cd_chan = ?c, cd_width = HT20\<rparr> True) (upd_radio p (tune \<lparr>cd_chan = ?c, cd_width = HT20\<rparr> True) b)"
    define f where "f = (if rq_n_ssids req = 0 \<or> ce_passive env ?c then g else fold (mt76_scan_send_probe env) [0..<rq_n_ssids req] g)"
    have "\<exists>n. mt76_scan_work env dev = Done () (f\<lparr>cv_scan_work := Some n\<rparr>)"
      by (simp only: unf v if_False b_def [symmetric] set_channel_run [OF b(1)] g_def [symmetric] and_then_simps f_def [symmetric]) blast
    then obtain n where dd: "d = f\<lparr>cv_scan_work := Some n\<rparr>" using d(1) by auto
    have vg: "visits p g = visits p dev @ [?c]"
      using b(3) by (simp add: g_def visits_log) (simp add: visits_def upd_radio_def)
    have g: "\<not> cv_mcu_reset g" "cv_scan g = cv_scan b" using b by (simp_all add: g_def cc_log_def upd_radio_def)
    have f: "visits p f = visits p g" "\<not> cv_mcu_reset f" "cv_scan f = cv_scan b"
      using g probes_log [of p env _ g] send_probes_same [of env _ g] by (simp_all add: f_def)
    show thesis
    proof (rule visit)
      show "visits p d = visits p dev @ [?c]" using f(1) vg by (simp add: dd) (simp add: visits_def)
      show "cv_scan d = (cv_scan dev)\<lparr>sc_chan := Some ?c, sc_chan_idx := sc_chan_idx (cv_scan dev) + 1\<rparr>"
        using f(3) by (simp add: dd b_def)
    qed (use d v f in \<open>simp_all add: dd\<close>)
  qed
qed

lemma scan_course_idle: "cv_scan_work dev = None \<Longrightarrow> scan_course env n dev = Done () dev"
  by (cases n) simp_all

lemma scan_course_ends:
  assumes "chan_inv dev" "\<not> cv_mcu_reset dev" "sc_req (cv_scan dev) = Some req" "sc_phy (cv_scan dev) = Some p"
    and "2 * (length (rq_channels req) - sc_chan_idx (cv_scan dev)) + (if sc_chan (cv_scan dev) = None then 0 else 1) < n"
  shows "\<exists>d. scan_course env n dev = Done () d \<and> chan_inv d \<and> cv_scan d = no_scan
    \<and> visits p d = visits p dev @ drop (sc_chan_idx (cv_scan dev)) (rq_channels req) \<and> last (cv_log d) = Scan_completed False"
  using assms
proof (induction n arbitrary: dev)
  case (Suc n)
  have busy: "cv_scan_work dev \<noteq> None"
    using Suc.prems(1,3) by (auto simp: chan_inv_def)
  note next_run = Suc.IH
  from Suc.prems(1) busy Suc.prems(2-4) show ?case
  proof (cases rule: scan_work_course [of dev req p env])
    case (over d)
    then have "cv_scan_work d = None" by (simp add: chan_inv_def)
    then show ?thesis using over busy by (auto simp: scan_course_idle)
  next
    case (home d)
    have "\<exists>e. scan_course env n d = Done () e \<and> chan_inv e \<and> cv_scan e = no_scan
      \<and> visits p e = visits p d @ drop (sc_chan_idx (cv_scan d)) (rq_channels req) \<and> last (cv_log e) = Scan_completed False"
      by (rule next_run) (use home Suc.prems(3-5) in auto)
    then show ?thesis using home busy by auto
  next
    case (visit d)
    have "\<exists>e. scan_course env n d = Done () e \<and> chan_inv e \<and> cv_scan e = no_scan
      \<and> visits p e = visits p d @ drop (sc_chan_idx (cv_scan d)) (rq_channels req) \<and> last (cv_log e) = Scan_completed False"
      by (rule next_run) (use visit Suc.prems(3-5) in auto)
    moreover have "drop (sc_chan_idx (cv_scan dev)) (rq_channels req) =
        rq_channels req ! sc_chan_idx (cv_scan dev) # drop (sc_chan_idx (cv_scan d)) (rq_channels req)"
      using visit(4,5) by (simp add: Cons_nth_drop_Suc)
    ultimately show ?thesis using visit busy by auto
  qed
qed simp

text \<open>
  C20: An undisturbed scan visits every requested channel once, in the order of the request, with
  visits home between them when stations are associated, and completes; twice the number of channels
  plus two runs of the work are enough. Afterwards the radio is on its home channel if it has one.
\<close>

theorem scan_visits_channels:
  assumes "reachable chan_init chan_step dev" "\<not> cv_mcu_reset dev"
    and "sc_req (cv_scan dev) = Some req" "sc_phy (cv_scan dev) = Some p"
  shows "\<exists>d. scan_course env (2 * length (rq_channels req) + 2) dev = Done () d \<and> cv_scan d = no_scan
    \<and> visits p d = visits p dev @ drop (sc_chan_idx (cv_scan dev)) (rq_channels req)
    \<and> last (cv_log d) = Scan_completed False
    \<and> (Scan_dropped \<notin> set (cv_log d) \<longrightarrow> ra_main (cv_radio d p) \<noteq> None \<longrightarrow> \<not> ra_offchannel (cv_radio d p))"
proof -
  have "2 * (length (rq_channels req) - sc_chan_idx (cv_scan dev)) + (if sc_chan (cv_scan dev) = None then 0 else 1)
      < 2 * length (rq_channels req) + 2"
    by (auto intro: le_less_trans [OF diff_le_self])
  then obtain d where d: "scan_course env (2 * length (rq_channels req) + 2) dev = Done () d" "chan_inv d"
    "cv_scan d = no_scan" "visits p d = visits p dev @ drop (sc_chan_idx (cv_scan dev)) (rq_channels req)"
    "last (cv_log d) = Scan_completed False"
    using scan_course_ends [OF chan.reachable_inv [OF assms(1)] assms(2-4)] by blast
  then show ?thesis using chan_inv_facts(4) [OF d(2), of p] by auto
qed

theorem scan_visits_channels_witness:
  "\<exists>d. scan_course kind_env 6 scanning_chan = Done () d \<and> visits 0 d = [2412, 2437]
    \<and> last (cv_log d) = Scan_completed False"
proof -
  have "sc_req (cv_scan scanning_chan) = Some short_req" "sc_phy (cv_scan scanning_chan) = Some 0"
    "sc_chan_idx (cv_scan scanning_chan) = 0" "\<not> cv_mcu_reset scanning_chan" "visits 0 scanning_chan = []"
    by (simp_all add: scanning_chan_def visits_def List.map_filter_def) (simp add: idle_chan_def)
  moreover have "rq_channels short_req = [2412, 2437]" "2 * length (rq_channels short_req) + 2 = 6"
    by (simp_all add: short_req_def)
  ultimately show ?thesis
    using scan_visits_channels [OF scanning_reachable, of short_req 0 kind_env]
    by (simp del: scan_course.simps) blast
qed

end
