(* ===== verification/RxDesc.thy ===== *)
theory RxDesc
  imports TxsRate
begin

text \<open>
  The receive descriptor of the MT7921: \<open>mt7921_mac_fill_rx\<close> of src/src/mt76/mt7921/mac.c with the
  rate decoder, the HE radiotap headers and the header reconstruction of
  src/src/mt76/mt76_connac_mac.c, the client lookup of src/src/mt76/mt792x_mac.c and
  \<open>mt76_insert_ccmp_hdr\<close> of src/src/mt76/mac80211.c. Everything happens in one buffer: the
  descriptor is read where later headers are written, so a buffer is its memory with the place of
  \<open>skb->data\<close>, and pointers into it are offsets. Words read of the descriptor are recorded by the
  offset of their end. An early return sets \<open>rc_err\<close>, and \<open>rx_then\<close> does nothing after one.
\<close>

section \<open>Words of the descriptor\<close>

definition RXD0_PKT_TYPE :: "u32 \<Rightarrow> u32" where "RXD0_PKT_TYPE = FIELD_GET 31 27"
definition RXD0_PKT_FLAG :: "u32 \<Rightarrow> u32" where "RXD0_PKT_FLAG = FIELD_GET 19 16"
definition RXD1_WLAN_IDX :: "u32 \<Rightarrow> u32" where "RXD1_WLAN_IDX = FIELD_GET 9 0"
definition RXD1_SEC_MODE :: "u32 \<Rightarrow> u32" where "RXD1_SEC_MODE = FIELD_GET 20 16"
definition RXD1_KEY_ID :: "u32 \<Rightarrow> u32" where "RXD1_KEY_ID = FIELD_GET 22 21"
definition RXD2_HDR_OFFSET :: "u32 \<Rightarrow> u32" where "RXD2_HDR_OFFSET = FIELD_GET 15 14"
definition RXD3_CH_FREQ :: "u32 \<Rightarrow> u32" where "RXD3_CH_FREQ = FIELD_GET 15 8"
definition RXD3_ADDR_TYPE :: "u32 \<Rightarrow> u32" where "RXD3_ADDR_TYPE = FIELD_GET 17 16"
definition RXD4_PAYLOAD_FORMAT :: "u32 \<Rightarrow> u32" where "RXD4_PAYLOAD_FORMAT = FIELD_GET 1 0"
definition RXD6_FRAME_CONTROL :: "u32 \<Rightarrow> u32" where "RXD6_FRAME_CONTROL = FIELD_GET 15 0"
definition RXD8_SEQ_CTRL :: "u32 \<Rightarrow> u32" where "RXD8_SEQ_CTRL = FIELD_GET 15 0"
definition RXD8_QOS_CTL :: "u32 \<Rightarrow> u32" where "RXD8_QOS_CTL = FIELD_GET 31 16"

text \<open>The groups of optional words, bits 11 to 15 of the second word.\<close>

definition RXD1_GROUP :: "nat \<Rightarrow> u32 \<Rightarrow> bool" where
  "RXD1_GROUP n w = bit w (10 + n)"

section \<open>802.11 headers\<close>

text \<open>The predicates of \<open>linux/ieee80211.h\<close> on a frame control field.\<close>

definition fc_is_data :: "u16 \<Rightarrow> bool" where "fc_is_data fc \<longleftrightarrow> fc AND 0x000C = 0x0008"
definition fc_is_mgmt :: "u16 \<Rightarrow> bool" where "fc_is_mgmt fc \<longleftrightarrow> fc AND 0x000C = 0"
definition fc_is_ctl :: "u16 \<Rightarrow> bool" where "fc_is_ctl fc \<longleftrightarrow> fc AND 0x000C = 0x0004"
definition fc_is_ext :: "u16 \<Rightarrow> bool" where "fc_is_ext fc \<longleftrightarrow> fc AND 0x000C = 0x000C"
definition fc_is_data_qos :: "u16 \<Rightarrow> bool" where "fc_is_data_qos fc \<longleftrightarrow> fc AND 0x008C = 0x0088"
definition fc_is_qos_nullfunc :: "u16 \<Rightarrow> bool" where "fc_is_qos_nullfunc fc \<longleftrightarrow> fc AND 0x00FC = 0x00C8"
definition fc_is_assoc_resp :: "u16 \<Rightarrow> bool" where "fc_is_assoc_resp fc \<longleftrightarrow> fc AND 0x00FC = 0x0010"
definition fc_is_auth :: "u16 \<Rightarrow> bool" where "fc_is_auth fc \<longleftrightarrow> fc AND 0x00FC = 0x00B0"
definition fc_tods :: "u16 \<Rightarrow> bool" where "fc_tods fc = bit fc 8"
definition fc_fromds :: "u16 \<Rightarrow> bool" where "fc_fromds fc = bit fc 9"
definition fc_a4 :: "u16 \<Rightarrow> bool" where "fc_a4 fc \<longleftrightarrow> fc_tods fc \<and> fc_fromds fc"
definition fc_morefrags :: "u16 \<Rightarrow> bool" where "fc_morefrags fc = bit fc 10"
definition fc_order :: "u16 \<Rightarrow> bool" where "fc_order fc = bit fc 15"

definition ieee80211_hdrlen :: "u16 \<Rightarrow> nat" where
  "ieee80211_hdrlen fc =
     (if fc_is_ext fc then 4
      else if fc_is_data fc
      then (if fc_a4 fc then 30 else 24) + (if fc_is_data_qos fc then 2 + (if fc_order fc then 4 else 0) else 0)
      else if fc_is_mgmt fc then 24 + (if fc_order fc then 4 else 0)
      else if fc AND 0x00E0 = 0x00C0 then 10 else 16)"

section \<open>Socket buffers\<close>

text \<open>
  The memory from \<open>skb->head\<close> on, the offset of \<open>skb->data\<close>, \<open>skb->len\<close>, and whether \<open>skb_push\<close>
  ran out of headroom (a panic). \<open>skb_pull\<close> leaves a frame alone that is too short.
\<close>

record skb =
  sk_mem :: "u8 list"
  sk_data :: nat
  sk_len :: nat
  sk_panic :: bool

definition skb_pull :: "nat \<Rightarrow> skb \<Rightarrow> skb" where
  "skb_pull n s = (if n > sk_len s then s else s\<lparr>sk_data := sk_data s + n, sk_len := sk_len s - n\<rparr>)"

definition skb_push :: "nat \<Rightarrow> skb \<Rightarrow> skb" where
  "skb_push n s = s\<lparr>sk_data := sk_data s - n, sk_len := sk_len s + n,
     sk_panic := (sk_panic s \<or> n > sk_data s)\<rparr>"

definition mem_put :: "nat \<Rightarrow> u8 list \<Rightarrow> skb \<Rightarrow> skb" where
  "mem_put i xs s = s\<lparr>sk_mem := take i (sk_mem s) @ xs @ drop (i + length xs) (sk_mem s)\<rparr>"

definition mem_get :: "nat \<Rightarrow> nat \<Rightarrow> skb \<Rightarrow> u8 list" where
  "mem_get i n s = take n (drop i (sk_mem s))"

text \<open>\<open>memcpy(skb_push(skb, n), xs, n)\<close>\<close>

definition push_bytes :: "u8 list \<Rightarrow> skb \<Rightarrow> skb" where
  "push_bytes xs s = (let s = skb_push (length xs) s in mem_put (sk_data s) xs s)"

definition skb_frame :: "skb \<Rightarrow> u8 list" where
  "skb_frame s = mem_get (sk_data s) (sk_len s) s"

definition rd16 :: "skb \<Rightarrow> nat \<Rightarrow> u16" where "rd16 s i = le16 (sk_mem s) i"
definition rd32 :: "skb \<Rightarrow> nat \<Rightarrow> u32" where "rd32 s i = le32 (sk_mem s) i"

definition ieee80211_get_hdrlen_from_skb :: "skb \<Rightarrow> nat" where
  "ieee80211_get_hdrlen_from_skb s =
     (if sk_len s < 10 then 0
      else let n = ieee80211_hdrlen (rd16 s (sk_data s)) in if n > sk_len s then 0 else n)"

section \<open>Rates\<close>

datatype rx_encoding = ENC_LEGACY | ENC_HT | ENC_VHT | ENC_HE

datatype he_ru = RU_26 | RU_52 | RU_106 | RU_242 | RU_484 | RU_996 | RU_2x996

datatype rx_bw = RX_BW_20 | RX_BW_40 | RX_BW_80 | RX_BW_160 | RX_BW_HE_RU

record rx_rate =
  rr_encoding :: rx_encoding
  rr_enc_flags :: u8
  rr_nss :: u8
  rr_rate_idx :: nat
  rr_bw :: rx_bw
  rr_he_ru :: he_ru
  rr_he_gi :: u32
  rr_he_dcm :: bool

definition rate_none :: rx_rate where
  "rate_none = \<lparr>rr_encoding = ENC_LEGACY, rr_enc_flags = 0, rr_nss = 0, rr_rate_idx = 0, rr_bw = RX_BW_20,
     rr_he_ru = RU_26, rr_he_gi = 0, rr_he_dcm = False\<rparr>"

text \<open>\<open>enum mac80211_rx_encoding_flags\<close> of \<open>net/mac80211.h\<close>.\<close>

definition ENC_SHORT_GI :: u8 where "ENC_SHORT_GI = BIT 2"
definition ENC_STBC_MASK :: u8 where "ENC_STBC_MASK = BIT 4 OR BIT 5"
definition ENC_LDPC :: u8 where "ENC_LDPC = BIT 6"

text \<open>
  The parts of the first words of the receive vector. \<open>mt7915\<close> and \<open>connac2\<close> are the chip; \<open>v2\<close>
  is the third word, which is read on every chip and used on one.
\<close>

definition rxv_stbc :: "bool \<Rightarrow> u32 \<Rightarrow> u32 \<Rightarrow> u32" where
  "rxv_stbc mt7915 v0 v2 = (if mt7915 then FIELD_GET 1 0 v2 else FIELD_GET 23 22 v0)"

definition rxv_gi :: "bool \<Rightarrow> u32 \<Rightarrow> u32 \<Rightarrow> u32" where
  "rxv_gi mt7915 v0 v2 = (if mt7915 then FIELD_GET 14 13 v2 else FIELD_GET 16 15 v0)"

definition rxv_mode :: "bool \<Rightarrow> u32 \<Rightarrow> u32 \<Rightarrow> nat" where
  "rxv_mode mt7915 v0 v2 = unat (if mt7915 then FIELD_GET 7 4 v2 else FIELD_GET 27 24 v0)"

definition rxv_bw :: "bool \<Rightarrow> u32 \<Rightarrow> u32 \<Rightarrow> nat" where
  "rxv_bw mt7915 v0 v2 = unat (if mt7915 then FIELD_GET 10 8 v2 else FIELD_GET 14 12 v0)"

definition rxv_dcm :: "bool \<Rightarrow> bool \<Rightarrow> u32 \<Rightarrow> bool" where
  "rxv_dcm mt7915 connac2 v0 =
     (let idx = FIELD_GET 6 0 v0 in
      if mt7915 then idx AND GENMASK 3 0 AND BIT 4 \<noteq> 0
      else if connac2 then idx AND BIT 4 \<noteq> 0 else bit v0 17)"

definition rate_by_mode :: "sband \<Rightarrow> mt76_phy_type \<Rightarrow> u32 \<Rightarrow> u8 \<Rightarrow> u32 \<Rightarrow> bool \<Rightarrow> rx_rate \<Rightarrow> rx_rate res" where
  "rate_by_mode sband mode i nss gi dcm r =
     (let sgi = (\<lambda>r. if gi \<noteq> 0 then r\<lparr>rr_enc_flags := rr_enc_flags r OR ENC_SHORT_GI\<rparr> else r) in
      case mode of
        PHY_CCK \<Rightarrow> Inr (r\<lparr>rr_rate_idx := mt76_get_rate sband i True\<rparr>)
      | PHY_OFDM \<Rightarrow> Inr (r\<lparr>rr_rate_idx := mt76_get_rate sband i False\<rparr>)
      | PHY_HT_GF \<Rightarrow> if i > 31 then Inl EINVAL else Inr (sgi (r\<lparr>rr_encoding := ENC_HT, rr_rate_idx := unat i\<rparr>))
      | PHY_HT \<Rightarrow> if i > 31 then Inl EINVAL else Inr (sgi (r\<lparr>rr_encoding := ENC_HT, rr_rate_idx := unat i\<rparr>))
      | PHY_VHT \<Rightarrow> if i > 11 then Inl EINVAL
                  else Inr (sgi (r\<lparr>rr_encoding := ENC_VHT, rr_nss := nss, rr_rate_idx := unat i\<rparr>))
      | m \<Rightarrow> if m \<in> {PHY_HE_MU, PHY_HE_SU, PHY_HE_EXT_SU, PHY_HE_TB}
            then Inr (r\<lparr>rr_encoding := ENC_HE, rr_nss := nss, rr_rate_idx := unat (i AND GENMASK 3 0),
                        rr_he_gi := (if gi \<le> 2 then gi else rr_he_gi r), rr_he_dcm := dcm\<rparr>)
            else Inl EINVAL)"

definition rate_by_bw :: "nat \<Rightarrow> nat \<Rightarrow> u32 \<Rightarrow> rx_rate \<Rightarrow> rx_rate res" where
  "rate_by_bw mode bw idx r =
     (if bw = 0 then Inr r
      else if bw = 1 then
        if (of_nat mode :: u32) AND 9 \<noteq> 0 \<and> idx AND BIT 5 \<noteq> 0
        then Inr (r\<lparr>rr_bw := RX_BW_HE_RU, rr_he_ru := RU_106\<rparr>)
        else Inr (r\<lparr>rr_bw := RX_BW_40\<rparr>)
      else if bw = 2 then Inr (r\<lparr>rr_bw := RX_BW_80\<rparr>)
      else if bw = 3 then Inr (r\<lparr>rr_bw := RX_BW_160\<rparr>)
      else Inl EINVAL)"

definition mt76_connac2_mac_fill_rx_rate ::
  "bool \<Rightarrow> bool \<Rightarrow> sband \<Rightarrow> u32 \<Rightarrow> u32 \<Rightarrow> rx_rate \<Rightarrow> rx_rate res" where
  "mt76_connac2_mac_fill_rx_rate mt7915 connac2 sband v0 v2 r =
     (let idx = FIELD_GET 6 0 v0;
          nss = ucast (FIELD_GET 9 7 v0) + 1;
          stbc = rxv_stbc mt7915 v0 v2;
          gi = rxv_gi mt7915 v0 v2;
          mode = rxv_mode mt7915 v0 v2
      in case phy_type_of mode of
           None \<Rightarrow> Inl EINVAL
         | Some m \<Rightarrow>
             (case rate_by_mode sband m idx nss gi (rxv_dcm mt7915 connac2 v0) r of
                Inl e \<Rightarrow> Inl e
              | Inr r \<Rightarrow>
                  (case rate_by_bw mode (rxv_bw mt7915 v0 v2) idx r of
                     Inl e \<Rightarrow> Inl e
                   | Inr r \<Rightarrow>
                       let r = r\<lparr>rr_enc_flags := rr_enc_flags r OR ENC_STBC_MASK * ucast stbc\<rparr>
                       in Inr (if mode < 8 \<and> gi \<noteq> 0
                               then r\<lparr>rr_enc_flags := rr_enc_flags r OR ENC_SHORT_GI\<rparr> else r))))"

text \<open>\<open>to_rssi\<close>: unsigned arithmetic of 32 bits, stored in an \<open>s8\<close>.\<close>

definition to_rssi :: "nat \<Rightarrow> nat \<Rightarrow> u32 \<Rightarrow> int" where
  "to_rssi h l v = sint (ucast ((FIELD_GET h l v - 220) div 2) :: u8)"

section \<open>The state of the handler\<close>

datatype rx_flag = ONLY_MONITOR | FAILED_FCS_CRC | MMIC_ERROR | DECRYPTED | IV_STRIPPED
  | MMIC_STRIPPED | MIC_STRIPPED | MACTIME_START | AMPDU_DETAILS | FLAG_8023 | RADIOTAP_HE
  | RADIOTAP_HE_MU

record rxd_status =
  rs_flag :: "rx_flag set"
  rs_wcid :: "nat option"
  rs_band :: nl80211_band
  rs_freq :: nat
  rs_iv :: "u8 list"
  rs_timestamp :: u32
  rs_ampdu_ref :: u32
  rs_rate :: rx_rate
  rs_chains :: u8
  rs_chain_signal :: "int list"
  rs_signal :: int
  rs_amsdu :: bool
  rs_first_amsdu :: bool
  rs_last_amsdu :: bool
  rs_aggr :: bool
  rs_seqno :: u16
  rs_qos_ctl :: u8

definition status_zero :: rxd_status where
  "status_zero = \<lparr>rs_flag = {}, rs_wcid = None, rs_band = Band_2GHZ, rs_freq = 0,
     rs_iv = [0, 0, 0, 0, 0, 0], rs_timestamp = 0, rs_ampdu_ref = 0, rs_rate = rate_none,
     rs_chains = 0, rs_chain_signal = [0, 0, 0, 0], rs_signal = 0, rs_amsdu = False,
     rs_first_amsdu = False, rs_last_amsdu = False, rs_aggr = False, rs_seqno = 0, rs_qos_ctl = 0\<rparr>"

text \<open>
  Interfaces and clients. \<open>lk_addr\<close> holds the six bytes found as \<open>sta->addr\<close> around the client's
  entry, \<open>lk_vif\<close> the interface it belongs to; \<open>vi_wcid\<close> is the interface's own entry.
\<close>

record rx_vif =
  vi_addr :: "u8 list"
  vi_bssid :: "u8 list"
  vi_wcid :: nat

record rx_link =
  lk_sta :: bool
  lk_addr :: "u8 list"
  lk_vif :: "nat option"

record rx_env =
  re_running :: bool
  re_mmio :: bool
  re_connac2 :: bool
  re_antenna_mask :: u8
  re_sband :: "nl80211_band \<Rightarrow> sband option"
  re_wcid :: "nat \<Rightarrow> rx_link option"
  re_vif :: "nat \<Rightarrow> rx_vif"
  re_active :: "nat list"

text \<open>
  The handler's variables: the buffer, the status block, the place in the descriptor (\<open>rxd\<close>), the
  802.11 fields, \<open>rxv\<close>, \<open>mode\<close>, the timestamp and the last reference of A-MPDUs of the phy, the
  client to poll, the samples for the averages of interfaces, and what is read of the descriptor.
\<close>

record rx_ctx =
  rc_skb :: skb
  rc_st :: rxd_status
  rc_csum_ok :: bool
  rc_pos :: nat
  rc_fc :: u16
  rc_seq :: u16
  rc_qos :: u8
  rc_ccmp :: bool
  rc_rxv :: "nat option"
  rc_mode :: nat
  rc_ampdu_ts :: u32
  rc_ampdu_ref :: u32
  rc_polled :: "nat option"
  rc_rssi :: "(nat \<times> int) list"
  rc_reads :: "nat list"
  rc_err :: "errno option"

definition rx_then :: "rx_ctx \<Rightarrow> (rx_ctx \<Rightarrow> rx_ctx) \<Rightarrow> rx_ctx" where
  "rx_then c f = (if rc_err c = None then f c else c)"

definition rx_fail :: "rx_ctx \<Rightarrow> rx_ctx" where
  "rx_fail c = c\<lparr>rc_err := Some EINVAL\<rparr>"

definition set_flags :: "rx_flag set \<Rightarrow> rx_ctx \<Rightarrow> rx_ctx" where
  "set_flags F c = c\<lparr>rc_st := (rc_st c)\<lparr>rs_flag := rs_flag (rc_st c) \<union> F\<rparr>\<rparr>"

definition reads :: "nat list \<Rightarrow> rx_ctx \<Rightarrow> rx_ctx" where
  "reads ends c = c\<lparr>rc_reads := rc_reads c @ ends\<rparr>"

text \<open>\<open>rxd += n / 4; if ((u8 *)rxd - skb->data >= skb->len) return -EINVAL;\<close>\<close>

definition advance :: "nat \<Rightarrow> rx_ctx \<Rightarrow> rx_ctx" where
  "advance n c =
     (let c = c\<lparr>rc_pos := rc_pos c + n\<rparr> in
      if rc_pos c - sk_data (rc_skb c) \<ge> sk_len (rc_skb c) then rx_fail c else c)"

section \<open>HE radiotap headers\<close>

text \<open>
  Both headers are pushed in front of the frame and filled in place, in the order of the code: the
  receive vector is read from memory that they may already cover.
\<close>

definition put16 :: "nat \<Rightarrow> u16 \<Rightarrow> skb \<Rightarrow> skb" where
  "put16 i w s = mem_put i (put_le16 w) s"

definition or16 :: "nat \<Rightarrow> u16 \<Rightarrow> skb \<Rightarrow> skb" where
  "or16 i w s = put16 i (rd16 s i OR w) s"

text \<open>\<open>HE_PREP\<close>: bits \<open>mh\<close> to \<open>ml\<close> of a word as bits \<open>fh\<close> to \<open>fl\<close> of a half word.\<close>

definition HE_PREP :: "nat \<Rightarrow> nat \<Rightarrow> nat \<Rightarrow> nat \<Rightarrow> u32 \<Rightarrow> u16" where
  "HE_PREP fh fl mh ml w = FIELD_PREP fh fl (ucast (FIELD_GET mh ml w))"

text \<open>The word \<open>rxv[i]\<close>.\<close>

definition rxv_at :: "skb \<Rightarrow> nat \<Rightarrow> nat \<Rightarrow> u32" where
  "rxv_at s rxv i = rd32 s (rxv + 4 * i)"

definition he_known :: "u8 list" where
  "he_known = concat (map put_le16
     [0x0020 OR 0x0040 OR 0x0200 OR 0x0080 OR 0x0100 OR 0x8000 OR 0x0400 OR 0x0004,
      0x0002 OR 0x0010 OR 0x0020 OR 0x0040, 0, 0, 0, 0])"

definition mu_known :: "bool \<Rightarrow> u8 list" where
  "mu_known connac2 = concat (map put_le16
     [0x0010 OR 0x0040 OR 0x0100 OR 0x8000 OR (if connac2 then 0x4000 else 0),
      0x0004 OR (if connac2 then 0x0400 else 0), 0, 0, 0, 0])"

definition he_ru_of :: "nat \<Rightarrow> he_ru \<Rightarrow> he_ru \<times> nat" where
  "he_ru_of ru old =
     (if ru \<le> 36 then (RU_26, ru) else if ru \<le> 52 then (RU_52, ru - 37)
      else if ru \<le> 60 then (RU_106, ru - 53) else if ru \<le> 64 then (RU_242, ru - 61)
      else if ru \<le> 66 then (RU_484, ru - 65) else if ru = 67 then (RU_996, 0)
      else if ru = 68 then (RU_2x996, 0) else (old, 0))"

definition mt76_connac2_mac_decode_he_radiotap_ru :: "nat \<Rightarrow> nat \<Rightarrow> rx_rate \<times> skb \<Rightarrow> rx_rate \<times> skb" where
  "mt76_connac2_mac_decode_he_radiotap_ru he rxv rs =
     (let (r, s) = rs;
          ru_l = FIELD_GET 31 28 (rxv_at s rxv 0);
          ru_h = FIELD_GET 3 0 (rxv_at s rxv 1);
          ru = unat (ucast (ru_l OR push_bit 4 ru_h) :: u8);
          (a, offs) = he_ru_of ru (rr_he_ru r);
          s = or16 he 0x4000 s
      in (r\<lparr>rr_bw := RX_BW_HE_RU, rr_he_ru := a\<rparr>,
          or16 (he + 2) (0x4000 OR FIELD_PREP 13 8 (of_nat offs)) s))"

text \<open>The values of \<open>enum rate_info_bw\<close> of \<open>net/cfg80211.h\<close>.\<close>

fun bw_value :: "rx_bw \<Rightarrow> nat" where
  "bw_value RX_BW_20 = 0"
| "bw_value RX_BW_40 = 3"
| "bw_value RX_BW_80 = 4"
| "bw_value RX_BW_160 = 5"
| "bw_value RX_BW_HE_RU = 6"

definition mt76_connac2_mac_decode_he_mu_radiotap :: "bool \<Rightarrow> nat \<Rightarrow> rx_rate \<times> skb \<Rightarrow> rx_rate \<times> skb" where
  "mt76_connac2_mac_decode_he_mu_radiotap connac2 rxv rs =
     (let (r, s) = rs;
          s = push_bytes (mu_known connac2) s;
          mu = sk_data s;
          s = or16 mu (FIELD_PREP 3 0 (of_nat (rr_rate_idx r))) s;
          s = (if rr_he_dcm r then or16 mu (FIELD_PREP 5 5 1) s else s);
          s = or16 (mu + 2) (FIELD_PREP 1 0 (of_nat (bw_value (rr_bw r))) OR
                HE_PREP 7 4 30 24 (rxv_at s rxv 2)) s;
          s = mem_put (mu + 4) [ucast (FIELD_GET 7 0 (rxv_at s rxv 3))] s;
          s = (if bw_value (rr_bw r) \<ge> bw_value RX_BW_40
               then let s = or16 mu 0x0200 s
                    in mem_put (mu + 8) [ucast (FIELD_GET 15 8 (rxv_at s rxv 3))] s
               else s);
          s = (if bw_value (rr_bw r) \<ge> bw_value RX_BW_80
               then let s = mem_put (mu + 5) [ucast (FIELD_GET 23 16 (rxv_at s rxv 3))] s
                    in mem_put (mu + 9) [ucast (FIELD_GET 31 24 (rxv_at s rxv 3))] s
               else s)
      in (r, s))"

text \<open>The fields common to all formats, then those of the format; \<open>mode\<close> is at least HE_SU.\<close>

definition he_common :: "nat \<Rightarrow> u32 \<Rightarrow> nat \<Rightarrow> skb \<Rightarrow> skb" where
  "he_common he ltf_size rxv s =
     (let s = put16 (he + 4) (HE_PREP 5 0 5 0 (rxv_at s rxv 14) OR HE_PREP 14 14 20 20 (rxv_at s rxv 2)) s;
          s = put16 (he + 6) (HE_PREP 3 0 11 8 (rxv_at s rxv 11)) s;
          s = put16 (he + 8) (HE_PREP 15 15 23 23 (rxv_at s rxv 2) OR FIELD_PREP 7 6 (ucast ltf_size)) s;
          s = (if bit (rxv_at s rxv 0) 10 then or16 (he + 8) 0x4000 s else s)
      in put16 (he + 10) (HE_PREP 14 8 12 6 (rxv_at s rxv 14) OR HE_PREP 4 4 16 16 (rxv_at s rxv 14)) s)"

definition he_su :: "nat \<Rightarrow> nat \<Rightarrow> skb \<Rightarrow> skb" where
  "he_su he rxv s =
     (let s = or16 he (0 OR 0x0010 OR 0x0008 OR 0x4000) s
      in or16 (he + 4) (HE_PREP 6 6 13 13 (rxv_at s rxv 14) OR HE_PREP 7 7 31 31 (rxv_at s rxv 2)) s)"

definition he_ext_su :: "nat \<Rightarrow> nat \<Rightarrow> skb \<Rightarrow> skb" where
  "he_ext_su he rxv s =
     (let s = or16 he (1 OR 0x0010 OR 0x4000) s
      in or16 (he + 4) (HE_PREP 7 7 31 31 (rxv_at s rxv 2)) s)"

definition he_mu :: "bool \<Rightarrow> nat \<Rightarrow> nat \<Rightarrow> rx_rate \<times> skb \<Rightarrow> rx_rate \<times> skb" where
  "he_mu connac2 he rxv rs =
     (let (r, s) = rs;
          s = or16 he (2 OR 0x0010) s;
          s = or16 (he + 4) (HE_PREP 7 7 31 31 (rxv_at s rxv 2)) s;
          s = or16 (he + 6) (HE_PREP 14 4 30 20 (rxv_at s rxv 7)) s
      in mt76_connac2_mac_decode_he_mu_radiotap connac2 rxv
           (mt76_connac2_mac_decode_he_radiotap_ru he rxv (r, s)))"

definition he_tb :: "nat \<Rightarrow> nat \<Rightarrow> rx_rate \<times> skb \<Rightarrow> rx_rate \<times> skb" where
  "he_tb he rxv rs =
     (let (r, s) = rs;
          s = or16 he (3 OR 0x0800 OR 0x1000 OR 0x2000) s;
          s = or16 (he + 6) (HE_PREP 3 0 11 8 (rxv_at s rxv 11) OR HE_PREP 7 4 16 12 (rxv_at s rxv 11) OR
                HE_PREP 11 8 20 17 (rxv_at s rxv 11) OR HE_PREP 15 12 24 21 (rxv_at s rxv 11)) s
      in mt76_connac2_mac_decode_he_radiotap_ru he rxv (r, s))"

definition mt76_connac2_mac_decode_he_radiotap ::
  "bool \<Rightarrow> nat \<Rightarrow> nat \<Rightarrow> rx_rate \<times> skb \<Rightarrow> rx_rate \<times> skb" where
  "mt76_connac2_mac_decode_he_radiotap connac2 rxv mode rs =
     (let (r, s) = rs;
          ltf_size = FIELD_GET 18 17 (rxv_at s rxv 2) + 1;
          s = push_bytes he_known s;
          he = sk_data s;
          s = he_common he ltf_size rxv s
      in case phy_type_of mode of
           Some PHY_HE_SU \<Rightarrow> (r, he_su he rxv s)
         | Some PHY_HE_EXT_SU \<Rightarrow> (r, he_ext_su he rxv s)
         | Some PHY_HE_MU \<Rightarrow> he_mu connac2 he rxv (r, s)
         | Some PHY_HE_TB \<Rightarrow> he_tb he rxv (r, s)
         | _ \<Rightarrow> (r, s))"

section \<open>Decoding the descriptor\<close>

definition mt792x_rx_get_wcid :: "rx_env \<Rightarrow> nat \<Rightarrow> bool \<Rightarrow> nat option" where
  "mt792x_rx_get_wcid env idx unicast =
     (case re_wcid env idx of
        None \<Rightarrow> None
      | Some l \<Rightarrow> if unicast then Some idx
                  else if \<not> lk_sta l then None
                  else (case lk_vif l of None \<Rightarrow> None | Some v \<Rightarrow> Some (vi_wcid (re_vif env v))))"

text \<open>\<open>ieee80211_channel_to_frequency\<close> of the kernel, in MHz.\<close>

definition channel_to_frequency :: "nat \<Rightarrow> nl80211_band \<Rightarrow> nat" where
  "channel_to_frequency c band =
     (if c = 0 then 0
      else case band of
        Band_2GHZ \<Rightarrow> if c = 14 then 2484 else if c < 14 then 2407 + c * 5 else 0
      | Band_5GHZ \<Rightarrow> if 182 \<le> c \<and> c \<le> 196 then 4000 + c * 5 else 5000 + c * 5
      | Band_6GHZ \<Rightarrow> if c = 2 then 5935 else if c \<le> 233 then 5950 + c * 5 else 0
      | Band_other \<Rightarrow> 0)"

definition mt792x_get_status_freq_info :: "u8 \<Rightarrow> rxd_status \<Rightarrow> rxd_status" where
  "mt792x_get_status_freq_info chfreq st =
     (let band = (if chfreq > 180 then Band_6GHZ else if chfreq > 14 then Band_5GHZ else Band_2GHZ);
          c = (if chfreq > 180 then (chfreq - 181) * 4 + 1 else chfreq)
      in st\<lparr>rs_band := band, rs_freq := channel_to_frequency (unat c) band\<rparr>)"

definition desc_word :: "rx_ctx \<Rightarrow> nat \<Rightarrow> u32" where
  "desc_word c i = rd32 (rc_skb c) (sk_data (rc_skb c) + 4 * i)"

text \<open>The checks and flags of the first five words, up to \<open>rxd += 6\<close>.\<close>

definition rx_refused :: "rx_env \<Rightarrow> u32 \<Rightarrow> u32 \<Rightarrow> bool" where
  "rx_refused env rxd1 rxd2 \<longleftrightarrow>
     bit rxd1 28 \<or> \<not> re_running env \<or> bit rxd2 23 \<or> bit rxd2 13 \<and> bit rxd1 23"

definition rx_client_info :: "rx_env \<Rightarrow> u32 \<Rightarrow> u32 \<Rightarrow> rx_ctx \<Rightarrow> rx_ctx" where
  "rx_client_info env rxd1 rxd3 c =
     (let w = mt792x_rx_get_wcid env (unat (RXD1_WLAN_IDX rxd1)) (RXD3_ADDR_TYPE rxd3 = 1)
      in c\<lparr>rc_polled := w,
           rc_st := mt792x_get_status_freq_info (ucast (RXD3_CH_FREQ rxd3)) ((rc_st c)\<lparr>rs_wcid := w\<rparr>)\<rparr>)"

definition rx_decrypted :: "u32 \<Rightarrow> bool" where
  "rx_decrypted rxd1 \<longleftrightarrow> RXD1_SEC_MODE rxd1 \<noteq> 0 \<and> \<not> (bit rxd1 24 \<or> bit rxd1 23)"

definition rx_flags1 :: "u32 \<Rightarrow> rx_flag set" where
  "rx_flags1 rxd1 =
     (if bit rxd1 27 then {FAILED_FCS_CRC} else {}) \<union> (if bit rxd1 26 then {MMIC_ERROR} else {}) \<union>
     (if rx_decrypted rxd1 then {DECRYPTED, IV_STRIPPED, MMIC_STRIPPED, MIC_STRIPPED} else {})"

definition rx_base :: "rx_env \<Rightarrow> u32 \<Rightarrow> rx_ctx \<Rightarrow> rx_ctx" where
  "rx_base env csum_status c =
     (let rxd0 = desc_word c 0; rxd1 = desc_word c 1; rxd2 = desc_word c 2; rxd3 = desc_word c 3;
          d = sk_data (rc_skb c);
          c = reads [d + 4, d + 8, d + 12, d + 16, d + 20] (c\<lparr>rc_st := status_zero\<rparr>)
      in if rx_refused env rxd1 rxd2 then rx_fail c
         else
           let c = rx_client_info env rxd1 rxd3 (set_flags (if bit rxd1 25 then {ONLY_MONITOR} else {}) c)
           in case re_sband env (rs_band (rc_st c)) of
                None \<Rightarrow> rx_fail c
              | Some _ \<Rightarrow>
                  let c = (if re_mmio env \<and> bit rxd0 23 \<and> bit rxd0 24 \<and> csum_status AND (BIT 0 OR BIT 2 OR BIT 3) = 0
                           then c\<lparr>rc_csum_ok := True\<rparr> else c);
                      c = set_flags (rx_flags1 rxd1) c
                  in if bit rxd2 24 then rx_fail c else c\<lparr>rc_pos := d + 24\<rparr>)"

definition rx_group_4 :: "u32 \<Rightarrow> rx_ctx \<Rightarrow> rx_ctx" where
  "rx_group_4 rxd1 c =
     (if RXD1_GROUP 4 rxd1
      then let v0 = rd32 (rc_skb c) (rc_pos c); v2 = rd32 (rc_skb c) (rc_pos c + 8)
           in advance 16 (reads [rc_pos c + 4, rc_pos c + 12] (c\<lparr>
                rc_fc := ucast (RXD6_FRAME_CONTROL v0), rc_seq := ucast (RXD8_SEQ_CTRL v2),
                rc_qos := ucast (RXD8_QOS_CTL v2)\<rparr>))
      else c)"

text \<open>The cipher numbers of \<open>enum mt76_cipher_type\<close> that carry a packet number.\<close>

definition cipher_ccmp :: "u32 \<Rightarrow> bool" where
  "cipher_ccmp m \<longleftrightarrow> m \<in> {4, 9, 10}"

definition cipher_pn :: "u32 \<Rightarrow> bool" where
  "cipher_pn m \<longleftrightarrow> cipher_ccmp m \<or> m \<in> {2, 3, 11, 12}"

definition rx_iv :: "u32 \<Rightarrow> u32 \<Rightarrow> rx_ctx \<Rightarrow> rx_ctx" where
  "rx_iv rxd1 rxd2 c =
     (let m = RXD1_SEC_MODE rxd1; p = rc_pos c; b = sk_mem (rc_skb c) in
      if DECRYPTED \<in> rs_flag (rc_st c) \<and> cipher_pn m
      then reads [p + 6] (c\<lparr>
             rc_ccmp := (if cipher_ccmp m then bit rxd2 27 else rc_ccmp c),
             rc_st := (rc_st c)\<lparr>rs_iv := [b ! (p + 5), b ! (p + 4), b ! (p + 3), b ! (p + 2), b ! (p + 1), b ! p]\<rparr>\<rparr>)
      else c)"

definition rx_group_1 :: "u32 \<Rightarrow> u32 \<Rightarrow> rx_ctx \<Rightarrow> rx_ctx" where
  "rx_group_1 rxd1 rxd2 c = (if RXD1_GROUP 1 rxd1 then advance 16 (rx_iv rxd1 rxd2 c) else c)"

definition next_ampdu_ref :: "u32 \<Rightarrow> u32" where
  "next_ampdu_ref n = (if n + 1 = 0 then n + 1 + 1 else n + 1)"

definition rx_ampdu :: "u32 \<Rightarrow> rx_ctx \<Rightarrow> rx_ctx" where
  "rx_ampdu ts c =
     (let ref = (if rc_ampdu_ts c \<noteq> ts then next_ampdu_ref (rc_ampdu_ref c) else rc_ampdu_ref c) in
      (set_flags {AMPDU_DETAILS} c)\<lparr>rc_ampdu_ref := ref, rc_ampdu_ts := ts,
        rc_st := (rc_st (set_flags {AMPDU_DETAILS} c))\<lparr>rs_ampdu_ref := ref\<rparr>\<rparr>)"

definition rx_group_2 :: "u32 \<Rightarrow> u32 \<Rightarrow> rx_ctx \<Rightarrow> rx_ctx" where
  "rx_group_2 rxd1 rxd2 c =
     (if RXD1_GROUP 2 rxd1
      then let ts = rd32 (rc_skb c) (rc_pos c);
               c = set_flags {MACTIME_START} (c\<lparr>rc_st := (rc_st c)\<lparr>rs_timestamp := ts\<rparr>\<rparr>);
               c = reads [rc_pos c + 4] c
           in advance 8 (if \<not> bit rxd2 30 then rx_ampdu ts c else c)
      else c)"

definition pop_count8 :: "u8 \<Rightarrow> nat" where
  "pop_count8 m = length (filter (bit m) [0..<8])"

definition best_signal :: "u8 \<Rightarrow> int list \<Rightarrow> int" where
  "best_signal am sig =
     foldl (\<lambda>s i. if \<not> bit am i \<or> sig ! i \<ge> 0 then s else max s (sig ! i)) (- 128) [0..<pop_count8 am]"

definition rx_rcpi :: "u8 \<Rightarrow> u32 \<Rightarrow> rx_ctx \<Rightarrow> rx_ctx" where
  "rx_rcpi am v1 c =
     (let sig = [to_rssi 7 0 v1, to_rssi 15 8 v1, to_rssi 23 16 v1, to_rssi 31 24 v1]
      in c\<lparr>rc_st := (rc_st c)\<lparr>rs_chains := am, rs_chain_signal := sig,
             rs_signal := best_signal am sig\<rparr>\<rparr>)"

text \<open>Group 5 moves \<open>rxv\<close> behind its first six words; the signal is then read there.\<close>

definition rx_group_5 :: "u8 \<Rightarrow> u32 \<Rightarrow> u32 \<Rightarrow> rx_ctx \<Rightarrow> rx_ctx" where
  "rx_group_5 am rxd1 v1 c =
     (if RXD1_GROUP 5 rxd1
      then rx_then (advance 24 c) (\<lambda>c.
             let p = rc_pos c
             in rx_then (advance 48 (reads [p + 4] (c\<lparr>rc_rxv := Some p\<rparr>)))
                  (rx_rcpi am (rd32 (rc_skb c) p)))
      else rx_rcpi am v1 c)"

text \<open>\<open>p\<close> is the start of the receive vector, whose third word lies behind the group.\<close>

definition rx_prxv :: "rx_env \<Rightarrow> u32 \<Rightarrow> nat \<Rightarrow> rx_ctx \<Rightarrow> rx_ctx" where
  "rx_prxv env rxd1 p c =
     (let v0 = rd32 (rc_skb c) p; v1 = rd32 (rc_skb c) (p + 4); v2 = rd32 (rc_skb c) (p + 8);
          c = reads [p + 4, p + 8, p + 12] c;
          r = rs_rate (rc_st c);
          r = (if bit v0 11 then r\<lparr>rr_enc_flags := rr_enc_flags r OR ENC_LDPC\<rparr> else r);
          sband = the (re_sband env (rs_band (rc_st c)))
      in case mt76_connac2_mac_fill_rx_rate False (re_connac2 env) sband v0 v2 r of
           Inl e \<Rightarrow> c\<lparr>rc_err := Some e\<rparr>
         | Inr r \<Rightarrow>
             rx_group_5 (re_antenna_mask env) rxd1 v1 (c\<lparr>
               rc_mode := rxv_mode False v0 v2, rc_st := (rc_st c)\<lparr>rs_rate := r\<rparr>\<rparr>))"

definition rx_group_3 :: "rx_env \<Rightarrow> u32 \<Rightarrow> rx_ctx \<Rightarrow> rx_ctx" where
  "rx_group_3 env rxd1 c =
     (if RXD1_GROUP 3 rxd1
      then rx_then (advance 8 (c\<lparr>rc_rxv := Some (rc_pos c)\<rparr>)) (rx_prxv env rxd1 (rc_pos c))
      else c)"

definition rx_amsdu :: "u32 \<Rightarrow> rx_ctx \<Rightarrow> rx_ctx" where
  "rx_amsdu rxd4 c =
     (let a = RXD4_PAYLOAD_FORMAT rxd4 in
      c\<lparr>rc_st := (rc_st c)\<lparr>rs_amsdu := a \<noteq> 0, rs_first_amsdu := a = 3, rs_last_amsdu := a = 1\<rparr>\<rparr>)"

section \<open>The frame\<close>

text \<open>
  \<open>mt76_connac2_reverse_frag0_hdr_trans\<close>: the hardware replaced the 802.11 header by an Ethernet
  header at offset \<open>hdr_offset\<close>; the 802.11 header is rebuilt from the descriptor (words 6, 8 and 9)
  and the Ethernet addresses, in the place of the descriptor.
\<close>

definition frag0_addr3 :: "rx_vif \<Rightarrow> u16 \<Rightarrow> u8 list \<Rightarrow> u8 list \<Rightarrow> u8 list" where
  "frag0_addr3 vif fc h_dest h_source =
     (if fc_tods fc then h_dest else if fc_fromds fc then h_source else vi_bssid vif)"

text \<open>\<open>struct ieee80211_hdr\<close>, without the fourth address unless the frame has one.\<close>

definition frag0_hdr :: "rx_vif \<Rightarrow> u8 list \<Rightarrow> u16 \<Rightarrow> u16 \<Rightarrow> u8 list \<Rightarrow> u8 list \<Rightarrow> u8 list" where
  "frag0_hdr vif sta fc seq_ctrl h_dest h_source =
     put_le16 fc @ [0, 0] @ vi_addr vif @ sta @ frag0_addr3 vif fc h_dest h_source @ put_le16 seq_ctrl @
     (if fc_a4 fc then h_source else [])"

definition be16_of :: "u8 list \<Rightarrow> nat" where
  "be16_of xs = unat (xs ! 0) * 256 + unat (xs ! 1)"

definition bridge_tunnel_header :: "u8 list" where
  "bridge_tunnel_header = [0xAA, 0xAA, 0x03, 0x00, 0x00, 0xF8]"

definition rfc1042_header :: "u8 list" where
  "rfc1042_header = [0xAA, 0xAA, 0x03, 0x00, 0x00, 0x00]"

definition frag0_llc :: "nat \<Rightarrow> skb \<Rightarrow> skb" where
  "frag0_llc h_proto s =
     (if h_proto = 0x80F3 \<or> h_proto = 0x8137 then push_bytes bridge_tunnel_header s
      else if h_proto \<ge> 0x0600 then push_bytes rfc1042_header s
      else skb_pull 2 s)"

definition frag0_push ::
  "nat \<Rightarrow> rx_vif \<Rightarrow> u8 list \<Rightarrow> u16 \<Rightarrow> u16 \<Rightarrow> u8 list \<Rightarrow> u8 list \<Rightarrow> skb \<Rightarrow> skb" where
  "frag0_push rxd vif sta fc seq_ctrl h_dest h_source s =
     (let s = (if fc_order fc then push_bytes (mem_get (rxd + 36) 4 s) s else s);
          s = (if fc_is_data_qos fc then push_bytes (put_le16 (ucast (RXD8_QOS_CTL (rd32 s (rxd + 32))))) s else s)
      in push_bytes (frag0_hdr vif sta fc seq_ctrl h_dest h_source) s)"

definition mt76_connac2_reverse_frag0_hdr_trans :: "rx_vif \<Rightarrow> u8 list \<Rightarrow> nat \<Rightarrow> skb \<Rightarrow> skb res" where
  "mt76_connac2_reverse_frag0_hdr_trans vif sta hdr_offset s =
     (let rxd = sk_data s;
          eth_hdr = rxd + hdr_offset
      in if RXD3_ADDR_TYPE (rd32 s (rxd + 12)) \<noteq> 1 then Inl EINVAL
         else if \<not> RXD1_GROUP 4 (rd32 s (rxd + 4)) then Inl EINVAL
         else
           let fc = ucast (RXD6_FRAME_CONTROL (rd32 s (rxd + 24)));
               seq_ctrl = ucast (RXD8_SEQ_CTRL (rd32 s (rxd + 32)));
               h_dest = mem_get eth_hdr 6 s; h_source = mem_get (eth_hdr + 6) 6 s;
               h_proto = be16_of (mem_get (eth_hdr + 12) 2 s);
               s = frag0_llc h_proto (skb_pull (hdr_offset + 12) s)
           in Inr (frag0_push rxd vif sta fc seq_ctrl h_dest h_source s))"

text \<open>\<open>memmove\<close> within the buffer copies as if through a second one.\<close>

definition memmove :: "nat \<Rightarrow> nat \<Rightarrow> nat \<Rightarrow> skb \<Rightarrow> skb" where
  "memmove dst src n s = mem_put dst (mem_get src n s) s"

definition ccmp_hdr :: "u8 \<Rightarrow> u8 list \<Rightarrow> u8 list" where
  "ccmp_hdr key_id pn =
     [pn ! 5, pn ! 4, 0, 0x20 OR push_bit 6 key_id, pn ! 3, pn ! 2, pn ! 1, pn ! 0]"

definition mt76_insert_ccmp_hdr :: "u8 \<Rightarrow> rx_ctx \<Rightarrow> rx_ctx" where
  "mt76_insert_ccmp_hdr key_id c =
     (let hdr_len = ieee80211_get_hdrlen_from_skb (rc_skb c);
          s = skb_push 8 (rc_skb c);
          s = memmove (sk_data s) (sk_data s + 8) hdr_len s;
          s = mem_put (sk_data s + hdr_len) (ccmp_hdr key_id (rs_iv (rc_st c))) s
      in c\<lparr>rc_skb := s, rc_st := (rc_st c)\<lparr>rs_flag := rs_flag (rc_st c) - {IV_STRIPPED}\<rparr>\<rparr>)"

definition mt76_skb_get_hdr :: "rx_ctx \<Rightarrow> nat" where
  "mt76_skb_get_hdr c =
     sk_data (rc_skb c) + (if RADIOTAP_HE \<in> rs_flag (rc_st c) then 12 else 0)
       + (if RADIOTAP_HE_MU \<in> rs_flag (rc_st c) then 12 else 0)"

text \<open>The sample \<open>mt792x_mac_rssi_iter\<close> adds for an interface, if any.\<close>

definition mt792x_mac_rssi_iter :: "rx_env \<Rightarrow> rx_ctx \<Rightarrow> nat \<Rightarrow> (nat \<times> int) list" where
  "mt792x_mac_rssi_iter env c v =
     (if rs_signal (rc_st c) > 0 then []
      else if vi_addr (re_vif env v) \<noteq> mem_get (mt76_skb_get_hdr c + 4) 6 (rc_skb c) then []
      else [(v, - rs_signal (rc_st c))])"

definition mt792x_mac_assoc_rssi :: "rx_env \<Rightarrow> rx_ctx \<Rightarrow> rx_ctx" where
  "mt792x_mac_assoc_rssi env c =
     (let fc = rd16 (rc_skb c) (mt76_skb_get_hdr c) in
      if \<not> fc_is_assoc_resp fc \<and> \<not> fc_is_auth fc then c
      else c\<lparr>rc_rssi := rc_rssi c @ concat (map (mt792x_mac_rssi_iter env c) (re_active env))\<rparr>)"

definition rx_link_of :: "rx_env \<Rightarrow> rx_ctx \<Rightarrow> (rx_link \<times> rx_vif) option" where
  "rx_link_of env c =
     (case rs_wcid (rc_st c) of
        None \<Rightarrow> None
      | Some w \<Rightarrow>
          (case re_wcid env w of
             None \<Rightarrow> None
           | Some l \<Rightarrow> (case lk_vif l of None \<Rightarrow> None | Some v \<Rightarrow> Some (l, re_vif env v))))"

text \<open>The end of the descriptor and the first part of the frame; the result says \<open>hdr_trans\<close>.\<close>

definition rx_pull :: "nat \<Rightarrow> bool \<Rightarrow> rx_ctx \<Rightarrow> rx_ctx" where
  "rx_pull hdr_gap hdr_trans c =
     (let s = skb_pull hdr_gap (rc_skb c);
          s = (if \<not> hdr_trans \<and> rs_amsdu (rc_st c)
               then skb_pull 2 (memmove (sk_data s + 2) (sk_data s) (ieee80211_get_hdrlen_from_skb s) s)
               else s)
      in c\<lparr>rc_skb := s\<rparr>)"

definition rx_strip :: "rx_env \<Rightarrow> u32 \<Rightarrow> rx_ctx \<Rightarrow> bool \<times> rx_ctx" where
  "rx_strip env rxd2 c =
     (let hdr_trans = bit rxd2 13;
          hdr_gap = rc_pos c - sk_data (rc_skb c) + 2 * unat (RXD2_HDR_OFFSET rxd2)
      in if hdr_trans \<and> fc_morefrags (rc_fc c)
         then (case rx_link_of env c of
                 None \<Rightarrow> (False, rx_fail c)
               | Some (l, vif) \<Rightarrow>
                   (case mt76_connac2_reverse_frag0_hdr_trans vif (lk_addr l) hdr_gap (rc_skb c) of
                      Inl e \<Rightarrow> (False, c\<lparr>rc_err := Some e\<rparr>)
                    | Inr s \<Rightarrow> (False, c\<lparr>rc_skb := s\<rparr>)))
         else (hdr_trans, rx_pull hdr_gap hdr_trans c))"

definition rx_80211 :: "u32 \<Rightarrow> rx_ctx \<Rightarrow> rx_ctx" where
  "rx_80211 rxd1 c =
     (let c = (if rc_ccmp c then mt76_insert_ccmp_hdr (ucast (RXD1_KEY_ID rxd1)) c else c);
          hdr = mt76_skb_get_hdr c;
          fc = rd16 (rc_skb c) hdr;
          c = c\<lparr>rc_fc := fc\<rparr>
      in if fc_is_data_qos fc
         then c\<lparr>rc_seq := rd16 (rc_skb c) (hdr + 22),
                rc_qos := sk_mem (rc_skb c) ! (hdr + (if fc_a4 fc then 30 else 24))\<rparr>
         else c)"

definition rx_radiotap :: "rx_env \<Rightarrow> rx_ctx \<Rightarrow> rx_ctx" where
  "rx_radiotap env c =
     (case rc_rxv c of
        None \<Rightarrow> c
      | Some rxv \<Rightarrow>
          if rc_mode c \<ge> 8 \<and> FLAG_8023 \<notin> rs_flag (rc_st c)
          then let (r, s) = mt76_connac2_mac_decode_he_radiotap (re_connac2 env) rxv (rc_mode c)
                              (rs_rate (rc_st c), rc_skb c);
                   F = insert RADIOTAP_HE (if phy_type_of (rc_mode c) = Some PHY_HE_MU then {RADIOTAP_HE_MU} else {})
               in set_flags F (c\<lparr>rc_skb := s, rc_st := (rc_st c)\<lparr>rs_rate := r\<rparr>\<rparr>)
          else c)"

definition rx_qos_info :: "u32 \<Rightarrow> rx_ctx \<Rightarrow> rx_ctx" where
  "rx_qos_info rxd3 c =
     (if rs_wcid (rc_st c) = None \<or> \<not> fc_is_data_qos (rc_fc c) then c
      else c\<lparr>rc_st := (rc_st c)\<lparr>rs_aggr := RXD3_ADDR_TYPE rxd3 = 1 \<and> \<not> fc_is_qos_nullfunc (rc_fc c),
               rs_seqno := drop_bit 4 (rc_seq c AND 0xFFF0), rs_qos_ctl := rc_qos c\<rparr>\<rparr>)"

definition rx_finish :: "rx_env \<Rightarrow> u32 \<Rightarrow> u32 \<Rightarrow> bool \<Rightarrow> rx_ctx \<Rightarrow> rx_ctx" where
  "rx_finish env rxd1 rxd3 hdr_trans c =
     (let c = (if \<not> hdr_trans then rx_80211 rxd1 c else set_flags {FLAG_8023} c)
      in rx_qos_info rxd3 (rx_radiotap env (mt792x_mac_assoc_rssi env c)))"

text \<open>The handler; the words of the descriptor are read before anything is written.\<close>

definition rx_descriptor :: "rx_env \<Rightarrow> u32 \<Rightarrow> rx_ctx \<Rightarrow> rx_ctx" where
  "rx_descriptor env csum_status c =
     (let rxd1 = desc_word c 1; rxd2 = desc_word c 2;
          c = rx_base env csum_status c;
          c = rx_then c (rx_group_4 rxd1);
          c = rx_then c (rx_group_1 rxd1 rxd2);
          c = rx_then c (rx_group_2 rxd1 rxd2)
      in rx_then c (rx_group_3 env rxd1))"

definition mt7921_mac_fill_rx :: "rx_env \<Rightarrow> u32 \<Rightarrow> rx_ctx \<Rightarrow> rx_ctx" where
  "mt7921_mac_fill_rx env csum_status c =
     (let rxd1 = desc_word c 1; rxd2 = desc_word c 2; rxd3 = desc_word c 3; rxd4 = desc_word c 4
      in rx_then (rx_descriptor env csum_status c) (\<lambda>c.
           let (hdr_trans, c) = rx_strip env rxd2 (rx_amsdu rxd4 c)
           in rx_then c (rx_finish env rxd1 rxd3 hdr_trans)))"

text \<open>The state in which the handler is called, with what the phy remembers of A-MPDUs.\<close>

definition rx_start :: "skb \<Rightarrow> u32 \<Rightarrow> u32 \<Rightarrow> rx_ctx" where
  "rx_start s ts ref = \<lparr>rc_skb = s, rc_st = status_zero, rc_csum_ok = False, rc_pos = 0, rc_fc = 0,
     rc_seq = 0, rc_qos = 0, rc_ccmp = False, rc_rxv = None, rc_mode = 0, rc_ampdu_ts = ts,
     rc_ampdu_ref = ref, rc_polled = None, rc_rssi = [], rc_reads = [], rc_err = None\<rparr>"

end
