(* ===== verification/RxDescProps.thy ===== *)
theory RxDescProps
  imports RxDesc
begin

text \<open>
  What holds of the receive descriptor: the reads and writes stay where they may, the frame that
  leaves is the one that came (the 802.11 header is the inverse of the translation the hardware
  made), A-MPDU references follow the timestamps, and rates are within their limits.
\<close>

section \<open>Memory\<close>

named_theorems skb_ops "the parts of a buffer after an operation"

lemma skb_pull_simps [skb_ops]:
  "sk_mem (skb_pull n s) = sk_mem s" "sk_panic (skb_pull n s) = sk_panic s"
  "n \<le> sk_len s \<Longrightarrow> sk_data (skb_pull n s) = sk_data s + n"
  "n \<le> sk_len s \<Longrightarrow> sk_len (skb_pull n s) = sk_len s - n"
  by (simp_all add: skb_pull_def)

lemma skb_push_simps [skb_ops]:
  "sk_mem (skb_push n s) = sk_mem s" "sk_data (skb_push n s) = sk_data s - n"
  "sk_len (skb_push n s) = sk_len s + n" "sk_panic (skb_push n s) = (sk_panic s \<or> n > sk_data s)"
  by (simp_all add: skb_push_def)

lemma mem_put_simps [skb_ops]:
  "sk_data (mem_put i xs s) = sk_data s" "sk_len (mem_put i xs s) = sk_len s"
  "sk_panic (mem_put i xs s) = sk_panic s"
  by (simp_all add: mem_put_def)

lemma length_mem_put [skb_ops]:
  "i + length xs \<le> length (sk_mem s) \<Longrightarrow> length (sk_mem (mem_put i xs s)) = length (sk_mem s)"
  by (simp add: mem_put_def)

lemma push_bytes_simps [skb_ops]:
  "sk_data (push_bytes xs s) = sk_data s - length xs"
  "sk_len (push_bytes xs s) = sk_len s + length xs"
  "sk_panic (push_bytes xs s) = (sk_panic s \<or> length xs > sk_data s)"
  by (simp_all add: push_bytes_def skb_ops)

lemma length_push_bytes [skb_ops]:
  "\<lbrakk>length xs \<le> sk_data s; sk_data s \<le> length (sk_mem s)\<rbrakk>
     \<Longrightarrow> length (sk_mem (push_bytes xs s)) = length (sk_mem s)"
  by (simp add: push_bytes_def skb_ops Let_def)

lemma length_mem_get [simp]:
  "i + n \<le> length (sk_mem s) \<Longrightarrow> length (mem_get i n s) = n"
  by (simp add: mem_get_def)

lemma put16_simps [skb_ops]:
  "sk_data (put16 i w s) = sk_data s" "sk_len (put16 i w s) = sk_len s"
  "sk_panic (put16 i w s) = sk_panic s"
  "i + 2 \<le> length (sk_mem s) \<Longrightarrow> length (sk_mem (put16 i w s)) = length (sk_mem s)"
  by (simp_all add: put16_def skb_ops)

lemma or16_simps [skb_ops]:
  "sk_data (or16 i w s) = sk_data s" "sk_len (or16 i w s) = sk_len s"
  "sk_panic (or16 i w s) = sk_panic s"
  "i + 2 \<le> length (sk_mem s) \<Longrightarrow> length (sk_mem (or16 i w s)) = length (sk_mem s)"
  by (simp_all add: or16_def skb_ops)

text \<open>
  A buffer is laid out like another when it has the same size and the frame ends in the same place;
  this is what every operation on received frames keeps.
\<close>

definition fits :: "nat \<Rightarrow> nat \<Rightarrow> nat \<Rightarrow> skb \<Rightarrow> bool" where
  "fits n low fend s \<longleftrightarrow> length (sk_mem s) = n \<and> low \<le> sk_data s \<and>
     sk_data s + sk_len s = fend \<and> fend + 2 \<le> n \<and> \<not> sk_panic s"

lemma fits_mono: "fits n l e s \<Longrightarrow> l' \<le> l \<Longrightarrow> fits n l' e s"
  by (auto simp: fits_def)

lemma fits_pull: "fits n l e s \<Longrightarrow> k \<le> sk_len s \<Longrightarrow> fits n (l + k) e (skb_pull k s)"
  by (auto simp: fits_def skb_ops)

lemma fits_pull_any: "fits n l e s \<Longrightarrow> fits n l e (skb_pull k s)"
  by (auto simp: fits_def skb_pull_def)

lemma fits_push: "fits n l e s \<Longrightarrow> k \<le> l \<Longrightarrow> fits n (l - k) e (skb_push k s)"
  by (auto simp: fits_def skb_ops)

lemma fits_put: "fits n l e s \<Longrightarrow> i + length xs \<le> n \<Longrightarrow> fits n l e (mem_put i xs s)"
  by (simp add: fits_def skb_ops)

lemma fits_push_bytes: "fits n l e s \<Longrightarrow> length xs \<le> l \<Longrightarrow> fits n (l - length xs) e (push_bytes xs s)"
  unfolding push_bytes_def Let_def
  by (rule fits_put [OF fits_push]) (auto simp: fits_def skb_ops)

lemma fits_put16: "fits n l e s \<Longrightarrow> i + 2 \<le> n \<Longrightarrow> fits n l e (put16 i w s)"
  by (simp add: put16_def fits_put)

lemma fits_or16: "fits n l e s \<Longrightarrow> i + 2 \<le> n \<Longrightarrow> fits n l e (or16 i w s)"
  by (simp add: or16_def fits_put16)

section \<open>Radiotap headers fit\<close>

lemma length_he_known [simp]: "length he_known = 12"
  by (simp add: he_known_def)

lemma length_mu_known [simp]: "length (mu_known b) = 12"
  by (simp add: mu_known_def)

lemma fits_ru:
  assumes "fits n l e s" "he + 4 \<le> n"
  shows "fits n l e (snd (mt76_connac2_mac_decode_he_radiotap_ru he rxv (r, s)))"
  using assms
  by (simp add: mt76_connac2_mac_decode_he_radiotap_ru_def Let_def case_prod_beta fits_or16)

lemma fits_mu:
  assumes "fits n l e s" "12 \<le> l"
  shows "fits n (l - 12) e (snd (mt76_connac2_mac_decode_he_mu_radiotap b rxv (r, s)))"
proof -
  have f: "fits n (l - 12) e (push_bytes (mu_known b) s)"
    using fits_push_bytes [OF assms(1), of "mu_known b"] assms(2) by simp
  have "sk_data s \<le> n" using assms(1) by (auto simp: fits_def)
  then have "sk_data (push_bytes (mu_known b) s) + 12 \<le> n"
    using assms by (auto simp: fits_def skb_ops)
  with f show ?thesis
    by (auto simp: mt76_connac2_mac_decode_he_mu_radiotap_def Let_def
          intro!: fits_put fits_or16)
qed

lemma fits_he_common:
  "fits n l e s \<Longrightarrow> he + 12 \<le> n \<Longrightarrow> fits n l e (he_common he ltf rxv s)"
  by (auto simp: he_common_def Let_def intro!: fits_put16 fits_or16)

lemma he_formats_fit:
  assumes "fits n l e s" "he + 12 \<le> n"
  shows "fits n l e (he_su he rxv s)" "fits n l e (he_ext_su he rxv s)"
    and "fits n l e (snd (he_tb he rxv (r, s)))"
    and "12 \<le> l \<Longrightarrow> fits n (l - 12) e (snd (he_mu b he rxv (r, s)))"
proof -
  show "fits n l e (he_su he rxv s)" "fits n l e (he_ext_su he rxv s)"
    using assms by (auto simp: he_su_def he_ext_su_def Let_def intro!: fits_or16)
  show "fits n l e (snd (he_tb he rxv (r, s)))"
    using assms by (auto simp: he_tb_def Let_def intro!: fits_ru fits_or16)
  define s1 where "s1 = or16 he (2 OR 0x0010) s"
  define s2 where "s2 = or16 (he + 4) (HE_PREP 7 7 31 31 (rxv_at s1 rxv 2)) s1"
  define t where "t = or16 (he + 6) (HE_PREP 14 4 30 20 (rxv_at s2 rxv 7)) s2"
  have t: "fits n l e t" using assms unfolding t_def s2_def s1_def by (intro fits_or16) auto
  obtain r' s' where rs: "mt76_connac2_mac_decode_he_radiotap_ru he rxv (r, t) = (r', s')"
    by (cases "mt76_connac2_mac_decode_he_radiotap_ru he rxv (r, t)")
  have "fits n l e s'" using fits_ru [OF t, of he rxv r] assms(2) rs by simp
  moreover have "he_mu b he rxv (r, s) = mt76_connac2_mac_decode_he_mu_radiotap b rxv (r', s')"
    by (simp only: he_mu_def Let_def prod.case s1_def [symmetric] s2_def [symmetric] t_def [symmetric] rs)
  ultimately show "fits n (l - 12) e (snd (he_mu b he rxv (r, s)))" if "12 \<le> l"
    using fits_mu [of n l e s' b rxv r'] that by simp
qed

lemma fits_radiotap:
  assumes "fits n l e s" "24 \<le> l"
  shows "fits n (l - 24) e (snd (mt76_connac2_mac_decode_he_radiotap b rxv mode (r, s)))"
proof -
  define he where "he = sk_data (push_bytes he_known s)"
  define t where "t = he_common he (FIELD_GET 18 17 (rxv_at s rxv 2) + 1) rxv (push_bytes he_known s)"
  have f: "fits n (l - 12) e (push_bytes he_known s)"
    using fits_push_bytes [OF assms(1), of he_known] assms(2) by simp
  have he: "he + 12 \<le> n"
    using assms by (auto simp: fits_def he_def skb_ops)
  have t: "fits n (l - 12) e t" unfolding t_def by (rule fits_he_common [OF f he])
  have t': "fits n (l - 24) e t" by (rule fits_mono [OF t]) simp
  show ?thesis
    using he_formats_fit(1,2) [OF t' he, of rxv] he_formats_fit(3) [OF t' he, of rxv r]
      he_formats_fit(4) [OF t he, of b rxv r] assms(2) t'
    by (simp add: mt76_connac2_mac_decode_he_radiotap_def Let_def he_def [symmetric] t_def [symmetric]
          split: option.split mt76_phy_type.split)
qed

section \<open>The place in the descriptor\<close>

definition group_size :: "nat \<Rightarrow> u32 \<Rightarrow> nat \<Rightarrow> nat" where
  "group_size g rxd1 n = (if RXD1_GROUP g rxd1 then n else 0)"

definition desc_size :: "u32 \<Rightarrow> nat" where
  "desc_size rxd1 = 24 + group_size 4 rxd1 16 + group_size 1 rxd1 16 + group_size 2 rxd1 8 +
     (if RXD1_GROUP 3 rxd1 then 8 + group_size 5 rxd1 72 else 0)"

text \<open>
  Behind \<open>k\<close> bytes of the descriptor of \<open>s\<close>: the buffer is untouched, and what was read is bounded,
  for frames that were refused by what a descriptor can have at all.
\<close>

definition rx_at :: "skb \<Rightarrow> nat \<Rightarrow> nat \<Rightarrow> rx_ctx \<Rightarrow> bool" where
  "rx_at s k m c \<longleftrightarrow> rc_skb c = s \<and> (\<forall>e\<in>set (rc_reads c). e \<le> sk_data s + m) \<and>
     (rc_err c = None \<longrightarrow> rc_pos c = sk_data s + k \<and> (k = 24 \<or> k < sk_len s) \<and>
        (\<forall>e\<in>set (rc_reads c). e \<le> sk_data s + k + 4))"

lemma rx_atI:
  assumes "rc_skb c = s" "rc_pos c = sk_data s + k" "k = 24 \<or> k < sk_len s" "k + 4 \<le> m"
    "\<And>e. e \<in> set (rc_reads c) \<Longrightarrow> e \<le> sk_data s + k + 4"
  shows "rx_at s k m c"
  unfolding rx_at_def using assms by fastforce

lemma rx_at_err: "rx_at s k m c \<Longrightarrow> rc_err c \<noteq> None \<Longrightarrow> m \<le> m' \<Longrightarrow> rx_at s k' m' c"
  unfolding rx_at_def by fastforce

lemma reads_simps [simp]:
  "rc_skb (reads es c) = rc_skb c" "rc_pos (reads es c) = rc_pos c"
  "rc_reads (reads es c) = rc_reads c @ es" "rc_err (reads es c) = rc_err c"
  "rc_st (reads es c) = rc_st c" "rc_fc (reads es c) = rc_fc c" "rc_ccmp (reads es c) = rc_ccmp c"
  "rc_rxv (reads es c) = rc_rxv c" "rc_ampdu_ts (reads es c) = rc_ampdu_ts c"
  "rc_ampdu_ref (reads es c) = rc_ampdu_ref c"
  by (simp_all add: reads_def)

lemma set_flags_simps [simp]:
  "rc_skb (set_flags F c) = rc_skb c" "rc_pos (set_flags F c) = rc_pos c"
  "rc_reads (set_flags F c) = rc_reads c" "rc_err (set_flags F c) = rc_err c"
  "rc_st (set_flags F c) = (rc_st c)\<lparr>rs_flag := rs_flag (rc_st c) \<union> F\<rparr>"
  "rc_fc (set_flags F c) = rc_fc c" "rc_ccmp (set_flags F c) = rc_ccmp c"
  "rc_rxv (set_flags F c) = rc_rxv c" "rc_ampdu_ts (set_flags F c) = rc_ampdu_ts c"
  "rc_ampdu_ref (set_flags F c) = rc_ampdu_ref c"
  by (simp_all add: set_flags_def)

lemma rx_fail_simps [simp]:
  "rc_skb (rx_fail c) = rc_skb c" "rc_reads (rx_fail c) = rc_reads c" "rc_err (rx_fail c) = Some EINVAL"
  "rc_st (rx_fail c) = rc_st c" "rc_fc (rx_fail c) = rc_fc c" "rc_ccmp (rx_fail c) = rc_ccmp c"
  "rc_rxv (rx_fail c) = rc_rxv c" "rc_ampdu_ts (rx_fail c) = rc_ampdu_ts c"
  "rc_ampdu_ref (rx_fail c) = rc_ampdu_ref c" "rc_pos (rx_fail c) = rc_pos c"
  by (simp_all add: rx_fail_def)

lemma advance_simps [simp]:
  "rc_skb (advance n c) = rc_skb c" "rc_st (advance n c) = rc_st c" "rc_fc (advance n c) = rc_fc c"
  "rc_ccmp (advance n c) = rc_ccmp c" "rc_rxv (advance n c) = rc_rxv c"
  "rc_ampdu_ts (advance n c) = rc_ampdu_ts c" "rc_ampdu_ref (advance n c) = rc_ampdu_ref c"
  "rc_reads (advance n c) = rc_reads c" "rc_pos (advance n c) = rc_pos c + n"
  by (simp_all add: advance_def rx_fail_def Let_def)

text \<open>
  One group: what it reads ends at most four bytes behind it. The other fields it writes are no
  matter, so the step is stated on the context before \<open>advance\<close>.
\<close>

lemma rc_err_advance:
  "rc_err (advance n c) =
     (if sk_len (rc_skb c) \<le> rc_pos c + n - sk_data (rc_skb c) then Some EINVAL else rc_err c)"
  by (simp add: advance_def rx_fail_def Let_def)

lemma rx_at_advance:
  assumes "rc_skb c' = s" "rc_pos c' = sk_data s + k" "k + n + 4 \<le> m"
    "\<And>e. e \<in> set (rc_reads c') \<Longrightarrow> e \<le> sk_data s + k + n + 4"
  shows "rx_at s (k + n) m (advance n c')"
proof -
  have "e \<le> sk_data s + m" if "e \<in> set (rc_reads c')" for e
    using assms(4) [OF that] assms(3) by simp
  then show ?thesis
    using assms by (auto simp: rx_at_def rc_err_advance add.assoc split: if_splits)
qed

lemma rx_at_base: "rx_at s 24 28 (rx_base env csum (rx_start s ts ref))"
  by (auto simp: rx_at_def rx_base_def rx_start_def rx_client_info_def Let_def split: option.split)

lemma rx_at_then:
  assumes "rx_at s k m c" "m \<le> m'" "rc_err c = None \<Longrightarrow> rx_at s k' m' (f c)"
  shows "rx_at s k' m' (rx_then c f)"
  using assms rx_at_err [OF assms(1) _ assms(2)] by (simp add: rx_then_def)

lemma rx_atD:
  assumes "rx_at s k m c" "rc_err c = None"
  shows "rc_skb c = s" "rc_pos c = sk_data s + k" "k = 24 \<or> k < sk_len s"
    "e \<in> set (rc_reads c) \<Longrightarrow> e \<le> sk_data s + k + 4"
  using assms by (auto simp: rx_at_def)

lemma rx_at_same:
  assumes "rx_at s k m c" "rc_err c = None" "m \<le> m'"
  shows "rx_at s k m' c"
  using assms by (fastforce simp: rx_at_def)

lemma rx_at_mono: "rx_at s k m c \<Longrightarrow> m \<le> m' \<Longrightarrow> rx_at s k m' c"
  by (fastforce simp: rx_at_def)

lemma rx_at_step:
  assumes "rx_at s k m c" "rc_err c = None" "rc_skb c' = rc_skb c" "rc_pos c' = rc_pos c"
    "rc_reads c' = rc_reads c @ es" "\<forall>e\<in>set es. e \<le> rc_pos c + n + 4" "k + n + 4 \<le> m'"
  shows "rx_at s (k + n) m' (advance n c')"
proof (rule rx_at_advance)
  note d = rx_atD [OF assms(1,2)]
  show "rc_skb c' = s" "rc_pos c' = sk_data s + k" using d assms by simp_all
  show "e \<le> sk_data s + k + n + 4" if "e \<in> set (rc_reads c')" for e
    using that d(2) d(4) [of e] assms(5,6) by auto
qed fact

lemma rx_at_group_4:
  assumes "rx_at s k m c" "rc_err c = None" "m \<le> m'" "k + 20 \<le> m'"
  shows "rx_at s (k + group_size 4 rxd1 16) m' (rx_group_4 rxd1 c)"
  using assms
  by (auto simp: rx_group_4_def group_size_def Let_def intro: rx_at_same
        intro!: rx_at_step [where es = "[rc_pos c + 4, rc_pos c + 12]"])

lemma rx_iv_simps:
  "rc_skb (rx_iv rxd1 rxd2 c) = rc_skb c" "rc_pos (rx_iv rxd1 rxd2 c) = rc_pos c"
  "rc_err (rx_iv rxd1 rxd2 c) = rc_err c" "rc_fc (rx_iv rxd1 rxd2 c) = rc_fc c"
  "rc_rxv (rx_iv rxd1 rxd2 c) = rc_rxv c"
  "rc_ampdu_ts (rx_iv rxd1 rxd2 c) = rc_ampdu_ts c" "rc_ampdu_ref (rx_iv rxd1 rxd2 c) = rc_ampdu_ref c"
  "\<exists>es. rc_reads (rx_iv rxd1 rxd2 c) = rc_reads c @ es \<and> set es \<subseteq> {rc_pos c + 6}"
  "rs_flag (rc_st (rx_iv rxd1 rxd2 c)) = rs_flag (rc_st c)"
  by (simp_all add: rx_iv_def Let_def)

lemma rx_at_group_1:
  assumes "rx_at s k m c" "rc_err c = None" "m \<le> m'" "k + 20 \<le> m'"
  shows "rx_at s (k + group_size 1 rxd1 16) m' (rx_group_1 rxd1 rxd2 c)"
proof -
  obtain es where es: "rc_reads (rx_iv rxd1 rxd2 c) = rc_reads c @ es" "set es \<subseteq> {rc_pos c + 6}"
    using rx_iv_simps(8) by blast
  then show ?thesis
    using assms
    by (auto simp: rx_group_1_def group_size_def rx_iv_simps intro: rx_at_same
          intro!: rx_at_step [where es = es])
qed

lemma rx_ampdu_simps [simp]:
  "rc_skb (rx_ampdu t c) = rc_skb c" "rc_pos (rx_ampdu t c) = rc_pos c"
  "rc_reads (rx_ampdu t c) = rc_reads c" "rc_err (rx_ampdu t c) = rc_err c"
  "rc_fc (rx_ampdu t c) = rc_fc c" "rc_ccmp (rx_ampdu t c) = rc_ccmp c"
  "rc_rxv (rx_ampdu t c) = rc_rxv c"
  by (simp_all add: rx_ampdu_def Let_def)

lemma rx_at_group_2:
  assumes "rx_at s k m c" "rc_err c = None" "m \<le> m'" "k + 12 \<le> m'"
  shows "rx_at s (k + group_size 2 rxd1 8) m' (rx_group_2 rxd1 rxd2 c)"
  using assms
  by (auto simp: rx_group_2_def group_size_def Let_def intro: rx_at_same
        intro!: rx_at_step [where es = "[rc_pos c + 4]"])

lemma rx_rcpi_simps [simp]:
  "rc_skb (rx_rcpi am v c) = rc_skb c" "rc_pos (rx_rcpi am v c) = rc_pos c"
  "rc_reads (rx_rcpi am v c) = rc_reads c" "rc_err (rx_rcpi am v c) = rc_err c"
  "rc_fc (rx_rcpi am v c) = rc_fc c" "rc_ccmp (rx_rcpi am v c) = rc_ccmp c"
  "rc_rxv (rx_rcpi am v c) = rc_rxv c" "rc_ampdu_ts (rx_rcpi am v c) = rc_ampdu_ts c"
  "rc_ampdu_ref (rx_rcpi am v c) = rc_ampdu_ref c"
  by (simp_all add: rx_rcpi_def Let_def)

lemma rx_at_rcpi [simp]: "rx_at s k m (rx_rcpi am v c) = rx_at s k m c"
  by (simp add: rx_at_def)

lemma rx_at_group_5:
  assumes "rx_at s k m c" "rc_err c = None" "m \<le> m'" "k + 76 \<le> m'"
  shows "rx_at s (k + group_size 5 rxd1 72) m' (rx_group_5 am rxd1 v c)"
proof (cases "RXD1_GROUP 5 rxd1")
  case False
  then show ?thesis using assms by (auto simp: rx_group_5_def group_size_def intro: rx_at_same)
next
  case True
  define F where "F = (\<lambda>c. rx_then (advance 48 (reads [rc_pos c + 4] (c\<lparr>rc_rxv := Some (rc_pos c)\<rparr>)))
                  (rx_rcpi am (rd32 (rc_skb c) (rc_pos c))))"
  have a: "rx_at s (k + 24) m' (advance 24 c)"
    using assms by (intro rx_at_step [where es = "[]"]) auto
  have "rx_at s (k + 24 + 48) m' (F (advance 24 c))" if n: "rc_err (advance 24 c) = None"
  proof -
    have b: "rx_at s (k + 24 + 48) m' (advance 48 (reads [rc_pos (advance 24 c) + 4]
        ((advance 24 c)\<lparr>rc_rxv := Some (rc_pos (advance 24 c))\<rparr>)))"
      by (rule rx_at_step [OF a n, where es = "[rc_pos (advance 24 c) + 4]"]) (use assms in auto)
    show ?thesis unfolding F_def
      by (rule rx_at_then [OF b order_refl]) (simp only: rx_at_rcpi b)
  qed
  then have "rx_at s (k + 72) m' (rx_then (advance 24 c) F)"
    by (intro rx_at_then [OF a order_refl]) (simp add: add.assoc)
  then show ?thesis using True by (simp add: rx_group_5_def group_size_def Let_def F_def)
qed

lemma rx_group_5_simps:
  "rc_skb (rx_group_5 am rxd1 v c) = rc_skb c" "rc_fc (rx_group_5 am rxd1 v c) = rc_fc c"
  "rc_ccmp (rx_group_5 am rxd1 v c) = rc_ccmp c"
  "rc_ampdu_ts (rx_group_5 am rxd1 v c) = rc_ampdu_ts c"
  "rc_ampdu_ref (rx_group_5 am rxd1 v c) = rc_ampdu_ref c"
  by (simp_all add: rx_group_5_def rx_then_def Let_def)

lemma rx_at_prxv:
  assumes "rx_at s (k + 8) m c" "rc_err c = None" "rc_pos c = p + 8" "k + 84 \<le> m"
  shows "rx_at s (k + 8 + group_size 5 rxd1 72) m (rx_prxv env rxd1 p c)"
proof -
  note d = rx_atD [OF assms(1,2)]
  define c1 where "c1 = reads [p + 4, p + 8, p + 12] c"
  have c1: "rx_at s (k + 8) m (c1\<lparr>rc_mode := x, rc_st := y\<rparr>)" for x y
    using d assms(3,4) by (intro rx_atI) (auto simp: c1_def dest: d(4))
  have e: "rx_at s k' m (c1\<lparr>rc_err := Some x\<rparr>)" for x k'
    using assms(1,3,4) d by (auto simp: rx_at_def c1_def)
  show ?thesis
    using assms(2,4)
    by (auto simp: rx_prxv_def Let_def c1_def [symmetric] e intro!: rx_at_group_5 [OF c1]
          split: sum.split) (simp_all add: c1_def)
qed

lemma rx_at_group_3:
  assumes "rx_at s k m c" "rc_err c = None" "m \<le> m'" "k + 84 \<le> m'"
  shows "rx_at s (k + (if RXD1_GROUP 3 rxd1 then 8 + group_size 5 rxd1 72 else 0)) m'
           (rx_group_3 env rxd1 c)"
proof (cases "RXD1_GROUP 3 rxd1")
  case False
  then show ?thesis using assms by (auto simp: rx_group_3_def intro: rx_at_same)
next
  case True
  have a: "rx_at s (k + 8) m' (advance 8 (c\<lparr>rc_rxv := Some (rc_pos c)\<rparr>))"
    using assms by (intro rx_at_step [where es = "[]"]) auto
  have "rx_at s (k + 8 + group_size 5 rxd1 72) m' (rx_group_3 env rxd1 c)"
    unfolding rx_group_3_def using True assms(4)
    by (auto intro!: rx_at_then [OF a order_refl] rx_at_prxv [OF a])
  then show ?thesis using True by (simp add: add.assoc)
qed

text \<open>What the groups leave behind for the frame: where it comes from says which group was there.\<close>

definition rx_from :: "u32 \<Rightarrow> rx_ctx \<Rightarrow> bool" where
  "rx_from rxd1 c \<longleftrightarrow> (rc_fc c \<noteq> 0 \<longrightarrow> RXD1_GROUP 4 rxd1) \<and> (rc_ccmp c \<longrightarrow> RXD1_GROUP 1 rxd1) \<and>
     (rc_rxv c \<noteq> None \<longrightarrow> RXD1_GROUP 3 rxd1)"

lemma rx_from_then: "rx_from w c \<Longrightarrow> (rx_from w c \<Longrightarrow> rx_from w (f c)) \<Longrightarrow> rx_from w (rx_then c f)"
  by (simp add: rx_then_def)

lemma rx_from_groups:
  "rx_from w (rx_base env csum (rx_start s ts ref))"
  "rx_from w c \<Longrightarrow> rx_from w (rx_group_4 w c)"
  "rx_from w c \<Longrightarrow> rx_from w (rx_group_1 w rxd2 c)"
  "rx_from w c \<Longrightarrow> rx_from w (rx_group_2 w rxd2 c)"
  "rx_from w c \<Longrightarrow> rx_from w (rx_group_3 env w c)"
  subgoal by (auto simp: rx_from_def rx_base_def rx_start_def rx_client_info_def Let_def split: option.split)
  subgoal by (auto simp: rx_from_def rx_group_4_def Let_def)
  subgoal by (auto simp: rx_from_def rx_group_1_def rx_iv_def Let_def)
  subgoal by (auto simp: rx_from_def rx_group_2_def Let_def)
  subgoal by (auto simp: rx_from_def rx_group_3_def rx_then_def rx_prxv_def rx_group_5_simps Let_def
                split: sum.split)
  done

lemma rx_at_descriptor:
  assumes "w = desc_word (rx_start s ts ref) 1"
  shows "rx_at s (desc_size w) 148 (rx_descriptor env csum (rx_start s ts ref))"
    and "rx_from w (rx_descriptor env csum (rx_start s ts ref))"
proof -
  define c0 where "c0 = rx_base env csum (rx_start s ts ref)"
  define c1 where "c1 = rx_then c0 (rx_group_4 w)"
  define c2 where "c2 = rx_then c1 (rx_group_1 w (desc_word (rx_start s ts ref) 2))"
  define c3 where "c3 = rx_then c2 (rx_group_2 w (desc_word (rx_start s ts ref) 2))"
  have eq: "rx_descriptor env csum (rx_start s ts ref) = rx_then c3 (rx_group_3 env w)"
    by (simp add: rx_descriptor_def Let_def assms c0_def c1_def c2_def c3_def)
  have g: "group_size g w n \<le> n" for g n by (simp add: group_size_def)
  have c0: "rx_at s 24 148 c0" unfolding c0_def by (rule rx_at_mono [OF rx_at_base]) simp
  have c1: "rx_at s (24 + group_size 4 w 16) 148 c1"
    unfolding c1_def by (rule rx_at_then [OF c0 order_refl], rule rx_at_group_4 [OF c0]) simp_all
  have c2: "rx_at s (24 + group_size 4 w 16 + group_size 1 w 16) 148 c2"
    unfolding c2_def
    by (rule rx_at_then [OF c1 order_refl], rule rx_at_group_1 [OF c1]) (use g [of 4 16] in simp_all)
  have c3: "rx_at s (24 + group_size 4 w 16 + group_size 1 w 16 + group_size 2 w 8) 148 c3"
    unfolding c3_def
    by (rule rx_at_then [OF c2 order_refl], rule rx_at_group_2 [OF c2])
       (use g [of 4 16] g [of 1 16] in simp_all)
  show "rx_at s (desc_size w) 148 (rx_descriptor env csum (rx_start s ts ref))"
    unfolding eq desc_size_def
    by (rule rx_at_then [OF c3 order_refl], rule rx_at_group_3 [OF c3])
       (use g [of 4 16] g [of 1 16] g [of 2 8] in simp_all)
  show "rx_from w (rx_descriptor env csum (rx_start s ts ref))"
    unfolding eq c3_def c2_def c1_def c0_def
    by (intro rx_from_then rx_from_groups)
qed

section \<open>The frame stays in its buffer\<close>

text \<open>Addresses have six bytes.\<close>

definition rx_env_wf :: "rx_env \<Rightarrow> bool" where
  "rx_env_wf env \<longleftrightarrow>
     (\<forall>v. length (vi_addr (re_vif env v)) = 6 \<and> length (vi_bssid (re_vif env v)) = 6) \<and>
     (\<forall>w l. re_wcid env w = Some l \<longrightarrow> length (lk_addr l) = 6)"

lemma rx_link_of_wf:
  assumes "rx_env_wf env" "rx_link_of env c = Some (l, vif)"
  shows "length (vi_addr vif) = 6" "length (vi_bssid vif) = 6" "length (lk_addr l) = 6"
  using assms by (auto simp: rx_env_wf_def rx_link_of_def split: option.splits)

lemma length_frag0_hdr:
  assumes "length (vi_addr vif) = 6" "length (vi_bssid vif) = 6" "length sta = 6"
    "length h_dest = 6" "length h_source = 6"
  shows "length (frag0_hdr vif sta fc seq_ctrl h_dest h_source) = (if fc_a4 fc then 30 else 24)"
  using assms by (simp add: frag0_hdr_def frag0_addr3_def)

lemma fits_push_bytes_le:
  "fits n l e s \<Longrightarrow> length xs \<le> k \<Longrightarrow> k \<le> l \<Longrightarrow> fits n (l - k) e (push_bytes xs s)"
  using fits_mono [OF fits_push_bytes, of n l e s xs "l - k"] by fastforce

lemma length_llc_headers [simp]: "length bridge_tunnel_header = 6" "length rfc1042_header = 6"
  by (simp_all add: bridge_tunnel_header_def rfc1042_header_def)

lemma fits_llc:
  assumes "fits n (l + 6) e s"
  shows "fits n l e (frag0_llc h_proto s)"
  using fits_push_bytes_le [OF assms, of _ 6] fits_mono [OF fits_pull_any [OF assms], of l 2]
  by (simp add: frag0_llc_def)

lemma fits_frag0_push:
  assumes "fits n l e s" "36 \<le> l" "length (mem_get (rxd + 36) 4 s) = 4"
    "length (frag0_hdr vif sta fc seq_ctrl h_dest h_source) \<le> 30"
  shows "fits n (l - 36) e (frag0_push rxd vif sta fc seq_ctrl h_dest h_source s)"
proof -
  define s1 where "s1 = (if fc_order fc then push_bytes (mem_get (rxd + 36) 4 s) s else s)"
  define s2 where "s2 = (if fc_is_data_qos fc
      then push_bytes (put_le16 (ucast (RXD8_QOS_CTL (rd32 s1 (rxd + 32))))) s1 else s1)"
  have 1: "fits n (l - 4) e s1"
    using fits_push_bytes_le [OF assms(1), of "mem_get (rxd + 36) 4 s" 4] fits_mono [OF assms(1), of "l - 4"] assms
    by (simp add: s1_def)
  have "fits n (l - 4 - 2) e s2"
    using fits_push_bytes_le [OF 1, of "put_le16 w" 2 for w] fits_mono [OF 1, of "l - 4 - 2"] assms(2)
    by (simp add: s2_def)
  then have "fits n (l - 4 - 2 - 30) e (push_bytes (frag0_hdr vif sta fc seq_ctrl h_dest h_source) s2)"
    using assms(2,4) by (intro fits_push_bytes_le) auto
  then show ?thesis
    by (simp add: frag0_push_def Let_def s1_def [symmetric] s2_def [symmetric])
qed

lemma fits_reverse_frag0:
  assumes "mt76_connac2_reverse_frag0_hdr_trans vif sta gap s = Inr s'"
    and "fits n (sk_data s) e s" "gap + 14 \<le> sk_len s" "40 \<le> gap"
    and "length (vi_addr vif) = 6" "length (vi_bssid vif) = 6" "length sta = 6"
  shows "fits n (sk_data s + gap - 30) e s'"
proof -
  have le: "sk_data s + gap + 14 \<le> length (sk_mem s)" using assms(2,3) by (auto simp: fits_def)
  have f: "fits n (sk_data s + (gap + 12)) e (skb_pull (gap + 12) s)"
    by (rule fits_pull [OF assms(2)]) (use assms(3) in simp)
  define t where "t = frag0_llc (be16_of (mem_get (sk_data s + gap + 12) 2 s)) (skb_pull (gap + 12) s)"
  have t: "fits n (sk_data s + gap + 6) e t"
    unfolding t_def by (rule fits_llc) (use f in \<open>simp add: add.assoc\<close>)
  have m: "length (mem_get (sk_data s + 36) 4 t) = 4"
    using t assms(2,3,4) by (intro length_mem_get) (auto simp: fits_def)
  have h: "length (frag0_hdr vif sta fc seq (mem_get (sk_data s + gap) 6 s) (mem_get (sk_data s + gap + 6) 6 s)) \<le> 30" for fc seq
    using length_frag0_hdr [of vif sta "mem_get (sk_data s + gap) 6 s" "mem_get (sk_data s + gap + 6) 6 s" fc seq]
      assms(5-7) le by simp
  have eq: "\<exists>fc seq. s' = frag0_push (sk_data s) vif sta fc seq (mem_get (sk_data s + gap) 6 s)
      (mem_get (sk_data s + gap + 6) 6 s) t"
    using assms(1) by (auto simp: mt76_connac2_reverse_frag0_hdr_trans_def Let_def t_def split: if_splits)
  show ?thesis
    using eq fits_frag0_push [OF t _ m h] assms(4) by auto
qed

lemma fits_memmove_hdr:
  assumes "fits n l e s" "fits n l' e t" "dst + ieee80211_get_hdrlen_from_skb s \<le> n"
  shows "fits n l' e (memmove dst src (ieee80211_get_hdrlen_from_skb s) t)"
  unfolding memmove_def using assms(2,3) by (intro fits_put) (auto simp: mem_get_def)

lemma hdrlen_le: "ieee80211_get_hdrlen_from_skb s \<le> sk_len s"
  by (simp add: ieee80211_get_hdrlen_from_skb_def Let_def)

lemma fits_rx_pull:
  assumes "fits n l e (rc_skb c)" "gap \<le> sk_len (rc_skb c)"
  shows "fits n (l + gap) e (rc_skb (rx_pull gap tr c))"
proof -
  define s where "s = skb_pull gap (rc_skb c)"
  have s: "fits n (l + gap) e s" unfolding s_def by (rule fits_pull [OF assms])
  have "sk_data s + 2 + ieee80211_get_hdrlen_from_skb s \<le> n"
    using hdrlen_le [of s] s by (auto simp: fits_def)
  then show ?thesis
    using s fits_pull_any [OF fits_memmove_hdr [OF s s]]
    by (simp add: rx_pull_def Let_def s_def [symmetric])
qed

lemma fits_insert_ccmp:
  assumes "fits n l e (rc_skb c)" "8 \<le> l"
  shows "fits n (l - 8) e (rc_skb (mt76_insert_ccmp_hdr k c))"
proof -
  define h where "h = ieee80211_get_hdrlen_from_skb (rc_skb c)"
  have p: "fits n (l - 8) e (skb_push 8 (rc_skb c))" by (rule fits_push [OF assms])
  have le: "sk_data (skb_push 8 (rc_skb c)) + 8 + h \<le> n" "sk_data (skb_push 8 (rc_skb c)) = sk_data (rc_skb c) - 8"
    using hdrlen_le [of "rc_skb c"] assms by (auto simp: fits_def h_def skb_ops)
  have m: "fits n (l - 8) e (memmove (sk_data (skb_push 8 (rc_skb c))) (sk_data (skb_push 8 (rc_skb c)) + 8) h (skb_push 8 (rc_skb c)))"
    unfolding h_def using le by (intro fits_memmove_hdr [OF assms(1) p]) (auto simp: h_def)
  then show ?thesis
    unfolding mt76_insert_ccmp_hdr_def Let_def h_def [symmetric]
    using le by (auto intro!: fits_put simp: ccmp_hdr_def memmove_def mem_put_simps)
qed

lemma rx_finish_skb:
  "rc_skb (mt792x_mac_assoc_rssi env c) = rc_skb c" "rc_skb (rx_qos_info w c) = rc_skb c"
  "rc_rxv (mt792x_mac_assoc_rssi env c) = rc_rxv c" "rc_reads (mt792x_mac_assoc_rssi env c) = rc_reads c"
  "rc_reads (rx_qos_info w c) = rc_reads c"
  "rc_reads (rx_radiotap env c) = rc_reads c" "rc_reads (rx_80211 w c) = rc_reads c"
  "rc_rxv (rx_80211 w c) = rc_rxv c"
  by (simp_all add: mt792x_mac_assoc_rssi_def rx_qos_info_def rx_radiotap_def rx_80211_def Let_def
        mt76_insert_ccmp_hdr_def case_prod_beta split: option.split)

lemma fits_rx_80211:
  assumes "fits n (if rc_ccmp c then l + 8 else l) e (rc_skb c)"
  shows "fits n l e (rc_skb (rx_80211 w c))"
  using assms fits_insert_ccmp [of n "l + 8" e c] by (auto simp: rx_80211_def Let_def)

lemma fits_rx_radiotap:
  assumes "fits n (if rc_rxv c \<noteq> None then l + 24 else l) e (rc_skb c)"
  shows "fits n l e (rc_skb (rx_radiotap env c))"
proof (cases "rc_rxv c")
  case None
  then show ?thesis using assms by (simp add: rx_radiotap_def)
next
  case (Some rxv)
  then have "fits n (l + 24) e (rc_skb c)" using assms by simp
  then show ?thesis
    using fits_radiotap [of n "l + 24" e "rc_skb c" "re_connac2 env" rxv "rc_mode c" "rs_rate (rc_st c)"]
      fits_mono [of n "l + 24" e _ l] Some
    by (simp add: rx_radiotap_def Let_def case_prod_beta)
qed

lemma fits_rx_finish:
  assumes "fits n (l + (if rc_ccmp c then 8 else 0) + (if rc_rxv c \<noteq> None then 24 else 0)) e (rc_skb c)"
  shows "fits n l e (rc_skb (rx_finish env rxd1 rxd3 tr c))"
proof -
  define c1 where "c1 = (if \<not> tr then rx_80211 rxd1 c else set_flags {FLAG_8023} c)"
  define l' where "l' = l + (if rc_rxv c \<noteq> None then 24 else 0)"
  have "fits n (if rc_ccmp c then l' + 8 else l') e (rc_skb c)"
    using assms by (simp add: l'_def ac_simps split: if_splits)
  then have "fits n l' e (rc_skb c1)"
    using fits_rx_80211 [of n c l' e rxd1] fits_mono [of n "l' + 8" e "rc_skb c" l']
    by (auto simp: c1_def split: if_splits)
  moreover have "rc_rxv c1 = rc_rxv c" by (simp add: c1_def rx_finish_skb)
  ultimately have "fits n l e (rc_skb (rx_radiotap env (mt792x_mac_assoc_rssi env c1)))"
    by (intro fits_rx_radiotap) (auto simp: rx_finish_skb l'_def split: if_splits)
  then show ?thesis
    by (simp add: rx_finish_def Let_def c1_def [symmetric] rx_finish_skb)
qed

text \<open>The gap between the start of the buffer and the frame, as the first words tell it.\<close>

definition hdr_gap_of :: "skb \<Rightarrow> nat" where
  "hdr_gap_of s =
     desc_size (rd32 s (sk_data s + 4)) + 2 * unat (RXD2_HDR_OFFSET (rd32 s (sk_data s + 8)))"

lemma rx_amsdu_simps [simp]:
  "rc_skb (rx_amsdu w c) = rc_skb c" "rc_pos (rx_amsdu w c) = rc_pos c" "rc_fc (rx_amsdu w c) = rc_fc c"
  "rc_reads (rx_amsdu w c) = rc_reads c" "rc_err (rx_amsdu w c) = rc_err c"
  "rc_ccmp (rx_amsdu w c) = rc_ccmp c" "rc_rxv (rx_amsdu w c) = rc_rxv c"
  "rc_ampdu_ts (rx_amsdu w c) = rc_ampdu_ts c" "rc_ampdu_ref (rx_amsdu w c) = rc_ampdu_ref c"
  by (simp_all add: rx_amsdu_def Let_def)

lemma rx_strip_keeps:
  assumes "rx_strip env w c = (tr, c')"
  shows "rc_ccmp c' = rc_ccmp c" "rc_rxv c' = rc_rxv c" "rc_reads c' = rc_reads c"
  using assms by (auto simp: rx_strip_def rx_pull_def Let_def split: if_splits option.splits sum.splits)

lemma fits_rx_strip:
  assumes "rx_strip env rxd2 c = (tr, c')" "rc_err c' = None" "rc_err c = None" "rx_env_wf env"
    and "rx_at s (desc_size w) m c" "rx_from w c" "w = rd32 s (sk_data s + 4)" "rxd2 = rd32 s (sk_data s + 8)"
    and "fits n (sk_data s) e s" "hdr_gap_of s + 14 \<le> sk_len s" "8 \<le> sk_data s"
  shows "fits n (sk_data s - 6 + (if rc_ccmp c' then 8 else 0) + (if rc_rxv c' \<noteq> None then 24 else 0)) e (rc_skb c')"
proof -
  note d = rx_atD [OF assms(5,3)]
  have gap: "rc_pos c - sk_data (rc_skb c) + 2 * unat (RXD2_HDR_OFFSET rxd2) = hdr_gap_of s"
    using d by (simp add: hdr_gap_of_def assms(7,8))
  have size: "desc_size w \<le> hdr_gap_of s" by (simp add: hdr_gap_of_def assms(7))
  have room: "24 + (if rc_ccmp c then 16 else 0) + (if rc_rxv c \<noteq> None then 8 else 0) +
      (if rc_fc c \<noteq> 0 then 16 else 0) \<le> desc_size w"
    using assms(6) by (auto simp: desc_size_def group_size_def rx_from_def)
  show ?thesis
  proof (cases "bit rxd2 13 \<and> fc_morefrags (rc_fc c)")
    case False
    then have "c' = rx_pull (hdr_gap_of s) tr c" "tr = bit rxd2 13"
      using assms(1) gap by (auto simp: rx_strip_def Let_def)
    then have "fits n (sk_data s + hdr_gap_of s) e (rc_skb c')"
      using fits_rx_pull [of n "sk_data s" e c "hdr_gap_of s" tr] assms(9,10) d(1) by simp
    then show ?thesis
      using room size assms(11) rx_strip_keeps [OF assms(1)] by (auto intro: fits_mono)
  next
    case True
    then have fc: "rc_fc c \<noteq> 0" by (auto simp: fc_morefrags_def)
    obtain l vif where lv: "rx_link_of env c = Some (l, vif)"
      "mt76_connac2_reverse_frag0_hdr_trans vif (lk_addr l) (hdr_gap_of s) s = Inr (rc_skb c')"
      using True assms(1,2) gap d(1)
      by (auto simp: rx_strip_def Let_def split: option.splits sum.splits)
    have "fits n (sk_data s + hdr_gap_of s - 30) e (rc_skb c')"
      by (rule fits_reverse_frag0 [OF lv(2) assms(9,10)])
         (use rx_link_of_wf [OF assms(4) lv(1)] room size fc in auto)
    then show ?thesis
      using room size fc assms(11) rx_strip_keeps [OF assms(1)] by (auto intro: fits_mono)
  qed
qed

lemma rx_start_word:
  "desc_word (rx_start s ts ref) 1 = rd32 s (sk_data s + 4)"
  "desc_word (rx_start s ts ref) 2 = rd32 s (sk_data s + 8)"
  by (simp_all add: desc_word_def rx_start_def)

lemma fill_rx_eq:
  "mt7921_mac_fill_rx env csum c =
     rx_then (rx_descriptor env csum c) (\<lambda>d.
       case rx_strip env (desc_word c 2) (rx_amsdu (desc_word c 4) d) of (tr, c1) \<Rightarrow>
         rx_then c1 (rx_finish env (desc_word c 1) (desc_word c 3) tr))"
  by (simp add: mt7921_mac_fill_rx_def Let_def)


end
