(* ===== verification/RxDescFrame.thy ===== *)
theory RxDescFrame
  imports RxDescProps
begin

text \<open>
  The frame that leaves the receive descriptor of the MT7921: the header rebuilt for the first
  fragment of a translated frame, the CCMP header, the references of A-MPDUs, and the limits of
  rates and signals.
\<close>

section \<open>Frames as lists of bytes\<close>

definition in_mem :: "skb \<Rightarrow> bool" where
  "in_mem s \<longleftrightarrow> sk_data s + sk_len s \<le> length (sk_mem s)"

lemma skb_frame_push:
  assumes "in_mem s" "length xs \<le> sk_data s"
  shows "skb_frame (push_bytes xs s) = xs @ skb_frame s" "in_mem (push_bytes xs s)"
  using assms by (auto simp: skb_frame_def push_bytes_def mem_get_def mem_put_def skb_push_def in_mem_def Let_def)

lemma skb_frame_pull:
  assumes "n \<le> sk_len s"
  shows "skb_frame (skb_pull n s) = drop n (skb_frame s)"
  using assms by (simp add: skb_frame_def skb_pull_def mem_get_def drop_take ac_simps)

lemma in_mem_pull: "in_mem s \<Longrightarrow> in_mem (skb_pull n s)"
  by (auto simp: in_mem_def skb_pull_def)

lemma length_skb_frame: "in_mem s \<Longrightarrow> length (skb_frame s) = sk_len s"
  by (simp add: in_mem_def skb_frame_def mem_get_def)

lemma mem_get_frame:
  "i + n \<le> sk_len s \<Longrightarrow> mem_get (sk_data s + i) n s = take n (drop i (skb_frame s))"
  by (simp add: skb_frame_def mem_get_def drop_take min_def ac_simps)

text \<open>What lies before the place written to stays.\<close>

lemma nth_push_bytes:
  assumes "i < sk_data s - length xs" "sk_data s \<le> length (sk_mem s)"
  shows "sk_mem (push_bytes xs s) ! i = sk_mem s ! i"
  using assms by (auto simp: push_bytes_def mem_put_def skb_push_def nth_append min_def)

lemma rd32_push:
  assumes "i + 4 \<le> sk_data s - length xs" "sk_data s \<le> length (sk_mem s)"
  shows "rd32 (push_bytes xs s) i = rd32 s i"
  using assms by (simp add: rd32_def le32_def nth_push_bytes)

lemma rd32_pull [simp]: "rd32 (skb_pull n s) i = rd32 s i"
  by (simp add: rd32_def skb_pull_def)

lemma mem_get_push:
  assumes "i + n \<le> sk_data s - length xs" "sk_data s \<le> length (sk_mem s)"
  shows "mem_get i n (push_bytes xs s) = mem_get i n s"
proof (rule nth_equalityI)
  have len: "length (sk_mem (push_bytes xs s)) \<ge> i + n" "length (sk_mem s) \<ge> i + n"
    using assms by (simp_all add: push_bytes_def mem_put_def skb_push_def Let_def)
  then show "length (mem_get i n (push_bytes xs s)) = length (mem_get i n s)" by simp
  show "mem_get i n (push_bytes xs s) ! j = mem_get i n s ! j"
    if "j < length (mem_get i n (push_bytes xs s))" for j
  proof -
    have "j < n" using that len by simp
    then show ?thesis using nth_push_bytes [of "i + j" s xs] assms len
      by (simp add: mem_get_def)
  qed
qed

lemma mem_get_pull [simp]: "mem_get i n (skb_pull k s) = mem_get i n s"
  by (simp add: mem_get_def skb_pull_def)

section \<open>The first fragment of a translated frame\<close>

text \<open>
  The reference: what a receiver makes of an 802.11 data frame, an Ethernet frame (IEEE 802.1H, as
  \<open>ieee80211_data_to_8023\<close> of the kernel). Destination and source depend on the two bits of the
  distribution system; an LLC header is removed or the length put in front.
\<close>

definition eth_body :: "u8 list \<Rightarrow> u8 list" where
  "eth_body body =
     (let proto = be16_of (drop 6 body) in
      if take 6 body = rfc1042_header \<and> proto \<noteq> 0x80F3 \<and> proto \<noteq> 0x8137 \<or> take 6 body = bridge_tunnel_header
      then drop 6 body
      else [of_nat (length body div 256), of_nat (length body mod 256)] @ body)"

definition dot11_to_8023 :: "u8 list \<Rightarrow> u8 list" where
  "dot11_to_8023 f =
     (let fc = le16 f 0;
          addr = (\<lambda>i. take 6 (drop i f));
          da = (if fc_tods fc then addr 16 else addr 4);
          sa = (if \<not> fc_fromds fc then addr 10 else if fc_tods fc then addr 24 else addr 16)
      in da @ sa @ eth_body (drop (ieee80211_hdrlen fc) f))"

text \<open>
  An Ethernet frame as the hardware makes it: the two bytes behind the addresses are a protocol, or
  the length of what follows, which then is no LLC header that would have been removed.
\<close>

definition eth_wf :: "u8 list \<Rightarrow> bool" where
  "eth_wf e \<longleftrightarrow> 14 \<le> length e \<and>
     (let proto = be16_of (take 2 (drop 12 e)); body = drop 14 e in
      0x0600 \<le> proto \<or>
      proto = length body \<and> take 6 body \<noteq> rfc1042_header \<and> take 6 body \<noteq> bridge_tunnel_header)"

lemma be16_take [simp]: "be16_of (take 2 xs) = be16_of xs"
  by (simp add: be16_of_def)

lemma unat_u8: "unat (b :: u8) < 256"
proof -
  have "unat b < 2 ^ LENGTH(8)" by (rule unsigned_less)
  then show ?thesis by simp
qed

lemma be16_bytes:
  assumes "2 \<le> length xs"
  shows "[of_nat (be16_of xs div 256), of_nat (be16_of xs mod 256)] = take 2 xs"
proof -
  obtain a b ys where "xs = a # b # ys"
    using assms by (metis Suc_le_length_iff numeral_2_eq_2)
  then show ?thesis
    using unat_u8 [of b] by (simp add: be16_of_def)
qed

lemma headers_differ [simp]: "rfc1042_header \<noteq> bridge_tunnel_header" "bridge_tunnel_header \<noteq> rfc1042_header"
  by (simp_all add: rfc1042_header_def bridge_tunnel_header_def)

lemma frag0_llc_frame:
  assumes "in_mem s" "skb_frame s = p @ body" "length p = 2" "6 \<le> sk_data s"
    and "0x0600 \<le> be16_of p \<or> be16_of p = length body \<and>
       take 6 body \<noteq> rfc1042_header \<and> take 6 body \<noteq> bridge_tunnel_header"
  shows "\<exists>b. skb_frame (frag0_llc (be16_of p) s) = b \<and> eth_body b = p @ body" "in_mem (frag0_llc (be16_of p) s)"
proof -
  have len: "2 \<le> sk_len s" using length_skb_frame [OF assms(1)] assms(2,3) by simp
  have app: "be16_of (p @ body) = be16_of p" using assms(3) by (simp add: be16_of_def nth_append)
  have pull: "skb_frame (skb_pull 2 s) = body"
    using skb_frame_pull [OF len] assms(2,3) by simp
  have len_body: "be16_of p = length body \<Longrightarrow> [of_nat (length body div 256), of_nat (length body mod 256)] = p"
    using be16_bytes [of p] assms(3) by simp
  show "\<exists>b. skb_frame (frag0_llc (be16_of p) s) = b \<and> eth_body b = p @ body"
    using assms(5) skb_frame_push(1) [OF assms(1), of bridge_tunnel_header]
      skb_frame_push(1) [OF assms(1), of rfc1042_header] assms(2,4) pull app len_body
    by (auto simp: frag0_llc_def eth_body_def Let_def)
  show "in_mem (frag0_llc (be16_of p) s)"
    using assms(1,4) by (auto simp: frag0_llc_def skb_frame_push in_mem_pull)
qed

lemma frag0_push_frame:
  assumes "in_mem t" "36 \<le> sk_data t" "rxd + 40 \<le> sk_data t" "length (frag0_hdr vif sta fc seq da sa) \<le> 30"
  shows "skb_frame (frag0_push rxd vif sta fc seq da sa t) =
    frag0_hdr vif sta fc seq da sa @
    (if fc_is_data_qos fc then put_le16 (ucast (RXD8_QOS_CTL (rd32 t (rxd + 32)))) else []) @
    (if fc_order fc then mem_get (rxd + 36) 4 t else []) @ skb_frame t"
proof -
  define x where "x = mem_get (rxd + 36) 4 t"
  have x: "length x = 4" unfolding x_def using assms(1,3) by (intro length_mem_get) (simp add: in_mem_def)
  define s1 where "s1 = (if fc_order fc then push_bytes x t else t)"
  have s1: "in_mem s1" "sk_data t \<le> sk_data s1 + 4"
    "skb_frame s1 = (if fc_order fc then x else []) @ skb_frame t"
    using skb_frame_push [OF assms(1), of x] assms(1,2) x by (auto simp: s1_def skb_ops)
  have r: "rd32 s1 (rxd + 32) = rd32 t (rxd + 32)"
    using rd32_push [of "rxd + 32" t x] x assms(1,3) by (simp add: s1_def in_mem_def)
  define q where "q = put_le16 (ucast (RXD8_QOS_CTL (rd32 s1 (rxd + 32))))"
  define s2 where "s2 = (if fc_is_data_qos fc then push_bytes q s1 else s1)"
  have s2: "in_mem s2" "sk_data s1 \<le> sk_data s2 + 2"
    "skb_frame s2 = (if fc_is_data_qos fc then q else []) @ skb_frame s1"
    using skb_frame_push [OF s1(1), of q] s1(1,2) assms(2) by (auto simp: s2_def q_def skb_ops)
  have "frag0_push rxd vif sta fc seq da sa t = push_bytes (frag0_hdr vif sta fc seq da sa) s2"
    by (simp add: frag0_push_def Let_def x_def s1_def q_def s2_def)
  then have "skb_frame (frag0_push rxd vif sta fc seq da sa t) = frag0_hdr vif sta fc seq da sa @ skb_frame s2"
    using skb_frame_push(1) [OF s2(1)] s1(2) s2(2) assms(2,4) by simp
  then show ?thesis by (simp add: s2(3) s1(3) q_def r x_def)
qed

lemma take_drop_app: "i = length a \<Longrightarrow> n = length b \<Longrightarrow> take n (drop i (a @ b @ c)) = b"
  by simp

lemma dot11_of_frag0:
  assumes "length (vi_addr vif) = 6" "length (vi_bssid vif) = 6" "length sta = 6" "length da = 6" "length sa = 6"
    and "fc_is_data fc" "fc_order fc \<longrightarrow> fc_is_data_qos fc"
    and "length q = (if fc_is_data_qos fc then 2 else 0)" "length x = (if fc_order fc then 4 else 0)"
    and "fc_tods fc \<or> da = vi_addr vif" "fc_fromds fc \<or> sa = sta"
  shows "dot11_to_8023 (frag0_hdr vif sta fc seq da sa @ q @ x @ b) = da @ sa @ eth_body b"
proof -
  define f where "f = frag0_hdr vif sta fc seq da sa @ q @ x @ b"
  define a3 where "a3 = frag0_addr3 vif fc da sa"
  have a3: "length a3 = 6" using assms by (simp add: a3_def frag0_addr3_def)
  have f: "f = put_le16 fc @ [0, 0] @ vi_addr vif @ sta @ a3 @ put_le16 seq @
      (if fc_a4 fc then sa else []) @ q @ x @ b"
    by (simp add: f_def frag0_hdr_def a3_def)
  have ext: "\<not> fc_is_ext fc" using assms(6) by (simp add: fc_is_ext_def fc_is_data_def)
  have fc: "le16 f 0 = fc" by (simp add: f le16_put)
  have parts: "take 6 (drop 4 f) = vi_addr vif" "take 6 (drop 10 f) = sta" "take 6 (drop 16 f) = a3"
    "fc_a4 fc \<Longrightarrow> take 6 (drop 24 f) = sa"
    using assms(1-5) a3 by (simp_all add: f)
  have body: "drop (ieee80211_hdrlen fc) f = b"
    using assms a3 ext by (auto simp: f ieee80211_hdrlen_def)
  show ?thesis
    using assms(10,11) parts fc
    by (auto simp: dot11_to_8023_def Let_def f_def [symmetric] body a3_def frag0_addr3_def fc_a4_def)
qed

text \<open>The Ethernet frame behind the gap, as the memory of the buffer has it.\<close>

lemma ethernet_parts:
  assumes "gap + 14 \<le> sk_len s" "e = drop gap (skb_frame s)"
  shows "mem_get (sk_data s + gap) 6 s = take 6 e" "mem_get (sk_data s + gap + 6) 6 s = take 6 (drop 6 e)"
    and "mem_get (sk_data s + gap + 12) 2 s = take 2 (drop 12 e)"
    and "skb_frame (skb_pull (gap + 12) s) = take 2 (drop 12 e) @ drop 14 e"
    and "14 \<le> length e \<Longrightarrow> e = take 6 e @ take 6 (drop 6 e) @ take 2 (drop 12 e) @ drop 14 e"
proof -
  show "mem_get (sk_data s + gap) 6 s = take 6 e" "mem_get (sk_data s + gap + 6) 6 s = take 6 (drop 6 e)"
    "mem_get (sk_data s + gap + 12) 2 s = take 2 (drop 12 e)"
    using mem_get_frame [of gap 6 s] mem_get_frame [of "gap + 6" 6 s] mem_get_frame [of "gap + 12" 2 s] assms
    by (simp_all add: ac_simps)
  have "skb_frame (skb_pull (gap + 12) s) = drop 12 e"
    using skb_frame_pull [of "gap + 12" s] assms by (simp add: add.commute)
  then show "skb_frame (skb_pull (gap + 12) s) = take 2 (drop 12 e) @ drop 14 e"
    using append_take_drop_id [of 2 "drop 12 e"] by simp
  show "e = take 6 e @ take 6 (drop 6 e) @ take 2 (drop 12 e) @ drop 14 e"
    using take_add [of 12 2 e] take_add [of 6 6 e] append_take_drop_id [of 14 e] by simp
qed

text \<open>The fields of the header that is put before the frame.\<close>

lemma frag0_hdr_fields:
  assumes "length (vi_addr vif) = 6" "length (vi_bssid vif) = 6" "length sta = 6" "length da = 6" "length sa = 6"
  shows "le16 (frag0_hdr vif sta fc seq da sa @ zs) 0 = fc" "le16 (frag0_hdr vif sta fc seq da sa @ zs) 22 = seq"
    and "le16 (frag0_hdr vif sta fc seq da sa @ zs) (if fc_a4 fc then 30 else 24) = le16 zs 0"
    and "length (frag0_hdr vif sta fc seq da sa) \<le> 30"
proof -
  show "le16 (frag0_hdr vif sta fc seq da sa @ zs) 0 = fc" "le16 (frag0_hdr vif sta fc seq da sa @ zs) 22 = seq"
    using assms le16_put [of fc] le16_append [of 22 "put_le16 fc @ [0,0] @ vi_addr vif @ sta @ frag0_addr3 vif fc da sa"]
    by (simp_all add: frag0_hdr_def frag0_addr3_def le16_put)
  show "le16 (frag0_hdr vif sta fc seq da sa @ zs) (if fc_a4 fc then 30 else 24) = le16 zs 0"
    using length_frag0_hdr [of vif sta da sa fc seq] assms by (intro le16_append) simp
  show "length (frag0_hdr vif sta fc seq da sa) \<le> 30"
    using length_frag0_hdr [of vif sta da sa fc seq] assms by simp
qed

text \<open>
  C21: The header of a fragment comes back. For the first fragment of a frame whose header the
  hardware translated (a data frame with the addresses of interface and client where the 802.11
  header has them), \<open>mt76_connac2_reverse_frag0_hdr_trans\<close> succeeds and builds an 802.11 frame that
  a receiver turns into the very Ethernet frame that was in the buffer, and that carries the frame
  control, sequence control and QoS control of the descriptor.
\<close>

theorem frag0_header_restored:
  assumes "in_mem s" "40 \<le> gap" "gap + 14 \<le> sk_len s"
    and "RXD3_ADDR_TYPE (rd32 s (sk_data s + 12)) = 1" "RXD1_GROUP 4 (rd32 s (sk_data s + 4))"
    and "length (vi_addr vif) = 6" "length (vi_bssid vif) = 6" "length sta = 6"
    and "fc = ucast (RXD6_FRAME_CONTROL (rd32 s (sk_data s + 24)))"
    and "fc_is_data fc" "fc_order fc \<longrightarrow> fc_is_data_qos fc"
    and "e = drop gap (skb_frame s)" "eth_wf e"
    and "fc_tods fc \<or> take 6 e = vi_addr vif" "fc_fromds fc \<or> take 6 (drop 6 e) = sta"
  shows "\<exists>s'. mt76_connac2_reverse_frag0_hdr_trans vif sta gap s = Inr s' \<and>
    dot11_to_8023 (skb_frame s') = e \<and> le16 (skb_frame s') 0 = fc \<and>
    le16 (skb_frame s') 22 = ucast (RXD8_SEQ_CTRL (rd32 s (sk_data s + 32))) \<and>
    (fc_is_data_qos fc \<longrightarrow> le16 (skb_frame s') (if fc_a4 fc then 30 else 24) =
       ucast (RXD8_QOS_CTL (rd32 s (sk_data s + 32))))"
proof -
  define d where "d = sk_data s"
  define seq :: u16 where "seq = ucast (RXD8_SEQ_CTRL (rd32 s (d + 32)))"
  define da where "da = take 6 e"
  define sa where "sa = take 6 (drop 6 e)"
  define pr where "pr = take 2 (drop 12 e)"
  define body where "body = drop 14 e"
  define pulled where "pulled = skb_pull (gap + 12) s"
  define t where "t = frag0_llc (be16_of pr) pulled"
  define qc :: u16 where "qc = ucast (RXD8_QOS_CTL (rd32 t (d + 32)))"
  define hdr where "hdr = frag0_hdr vif sta fc seq da sa"
  have e14: "14 \<le> length e" using assms(13) by (simp add: eth_wf_def)
  have lens: "length da = 6" "length sa = 6" "length pr = 2"
    using e14 by (simp_all add: da_def sa_def pr_def)
  note parts = ethernet_parts [OF assms(3,12), folded d_def da_def sa_def pr_def body_def]
  note mem = parts(1-3) and e = parts(5) [OF e14] and pb = parts(4) [folded pulled_def]
  have p: "in_mem pulled" "sk_data pulled = d + (gap + 12)"
    using assms(1,3) by (simp_all add: pulled_def in_mem_pull skb_ops d_def)
  have wf: "0x0600 \<le> be16_of pr \<or> be16_of pr = length body \<and>
       take 6 body \<noteq> rfc1042_header \<and> take 6 body \<noteq> bridge_tunnel_header"
    using assms(13) by (simp add: eth_wf_def Let_def pr_def body_def)
  obtain b where b: "skb_frame t = b" "eth_body b = pr @ body" "in_mem t"
    using frag0_llc_frame [OF p(1) pb lens(3) _ wf] p(2) by (auto simp: t_def)
  have dt: "d + gap + 6 \<le> sk_data t"
    using p(2) by (auto simp: t_def frag0_llc_def skb_ops skb_pull_def)
  note flds = frag0_hdr_fields [OF assms(6-8) lens(1,2), of fc seq, folded hdr_def]
  have res: "mt76_connac2_reverse_frag0_hdr_trans vif sta gap s = Inr (frag0_push d vif sta fc seq da sa t)"
    using assms(4,5) mem
    by (simp add: mt76_connac2_reverse_frag0_hdr_trans_def Let_def d_def [symmetric] seq_def [symmetric]
          assms(9) [symmetric, folded d_def] t_def pulled_def)
  define x where "x = (if fc_order fc then mem_get (d + 36) 4 t else [])"
  define q where "q = (if fc_is_data_qos fc then put_le16 qc else [])"
  have fr: "skb_frame (frag0_push d vif sta fc seq da sa t) = hdr @ q @ x @ b"
    using frag0_push_frame [OF b(3) _ _ flds(4) [unfolded hdr_def], of d] dt assms(2)
    by (simp add: q_def x_def qc_def b(1) hdr_def)
  have x: "length x = (if fc_order fc then 4 else 0)"
    using b(3) dt assms(2) by (auto simp: x_def in_mem_def intro!: length_mem_get)
  have rt: "dot11_to_8023 (hdr @ q @ x @ b) = e"
    unfolding hdr_def
    by (subst dot11_of_frag0)
       (use assms(6-8,10,11,14,15) lens x b(2) in \<open>auto simp: q_def da_def [symmetric] sa_def [symmetric] e\<close>)
  have hq: "fc_is_data_qos fc \<Longrightarrow> le16 (hdr @ q @ zs) (if fc_a4 fc then 30 else 24) = qc" for zs
    using flds(3) by (simp add: q_def le16_put)
  have "qc = ucast (RXD8_QOS_CTL (rd32 s (d + 32)))"
  proof -
    have "rd32 t (d + 32) = rd32 pulled (d + 32)"
      using p assms(2) rd32_push [of "d + 32" pulled] by (auto simp: t_def frag0_llc_def in_mem_def)
    then show ?thesis by (simp add: qc_def pulled_def)
  qed
  with res fr rt flds(1,2) hq show ?thesis
    by (auto simp: d_def seq_def)
qed

section \<open>References of A-MPDUs\<close>

text \<open>What the phy remembers, and what a context says of its A-MPDU.\<close>

definition ampdu_view :: "rx_ctx \<Rightarrow> bool \<times> u32 \<times> u32 \<times> u32 \<times> u32" where
  "ampdu_view c = (AMPDU_DETAILS \<in> rs_flag (rc_st c), rs_timestamp (rc_st c), rs_ampdu_ref (rc_st c),
     rc_ampdu_ts c, rc_ampdu_ref c)"

lemma ampdu_view_then: "(ampdu_view (f c) = ampdu_view c) \<Longrightarrow> ampdu_view (rx_then c f) = ampdu_view c"
  by (simp add: rx_then_def)

lemma rate_info_view [simp]:
  "ampdu_view (c\<lparr>rc_err := e\<rparr>) = ampdu_view c" "ampdu_view (reads es c) = ampdu_view c"
  "ampdu_view (advance n c) = ampdu_view c" "ampdu_view (rx_fail c) = ampdu_view c"
  "ampdu_view (c\<lparr>rc_rxv := v\<rparr>) = ampdu_view c" "ampdu_view (c\<lparr>rc_skb := s\<rparr>) = ampdu_view c"
  "ampdu_view (rx_rcpi am w c) = ampdu_view c" "ampdu_view (rx_amsdu w c) = ampdu_view c"
  "ampdu_view (c\<lparr>rc_rssi := x\<rparr>) = ampdu_view c"
  "AMPDU_DETAILS \<notin> F \<Longrightarrow> ampdu_view (set_flags F c) = ampdu_view c"
  by (simp_all add: ampdu_view_def rx_rcpi_def rx_amsdu_def Let_def)

lemma ampdu_view_base:
  "ampdu_view (rx_base env csum (rx_start s ts ref)) = (False, 0, 0, ts, ref)"
proof -
  have start: "ampdu_view ((rx_start s ts ref)\<lparr>rc_st := status_zero\<rparr>) = (False, 0, 0, ts, ref)"
    by (simp add: ampdu_view_def rx_start_def status_zero_def)
  have info: "ampdu_view (rx_client_info env w w3 c) = ampdu_view c" for w w3 c
    by (simp add: rx_client_info_def ampdu_view_def Let_def mt792x_get_status_freq_info_def)
  have flags: "AMPDU_DETAILS \<notin> rx_flags1 w" for w by (simp add: rx_flags1_def)
  have upd: "ampdu_view (c\<lparr>rc_csum_ok := b\<rparr>) = ampdu_view c" "ampdu_view (c\<lparr>rc_pos := n\<rparr>) = ampdu_view c" for c b n
    by (simp_all add: ampdu_view_def)
  have "ampdu_view (rx_base env csum c) = ampdu_view (c\<lparr>rc_st := status_zero\<rparr>)" for c
    by (simp add: rx_base_def Let_def info flags upd del: set_flags_simps reads_simps split: option.split)
  then show ?thesis by (simp only: start)
qed

lemma ampdu_view_groups:
  "ampdu_view (rx_group_4 w c) = ampdu_view c" "ampdu_view (rx_group_1 w w2 c) = ampdu_view c"
  "ampdu_view (rx_group_3 env w c) = ampdu_view c"
proof -
  show "ampdu_view (rx_group_4 w c) = ampdu_view c"
    by (simp add: rx_group_4_def Let_def) (simp add: ampdu_view_def)
  show "ampdu_view (rx_group_1 w w2 c) = ampdu_view c"
    by (simp add: rx_group_1_def rx_iv_def Let_def) (simp add: ampdu_view_def)
  have g5: "ampdu_view (rx_group_5 am w v c) = ampdu_view c" for am v c
    by (simp add: rx_group_5_def Let_def rx_then_def)
  have "ampdu_view (rx_prxv env w p c) = ampdu_view c" for p c
    by (simp add: rx_prxv_def Let_def g5 split: sum.split) (simp add: ampdu_view_def)
  then show "ampdu_view (rx_group_3 env w c) = ampdu_view c"
    by (simp add: rx_group_3_def rx_then_def)
qed

lemma ampdu_view_frame:
  "rx_strip env w c = (tr, c') \<Longrightarrow> ampdu_view c' = ampdu_view c"
  "ampdu_view (rx_finish env w w3 tr c) = ampdu_view c"
proof -
  show "rx_strip env w c = (tr, c') \<Longrightarrow> ampdu_view c' = ampdu_view c"
    by (auto simp: rx_strip_def rx_pull_def Let_def split: if_splits option.splits sum.splits)
  have 1: "ampdu_view (rx_80211 w c) = ampdu_view c"
    by (simp add: rx_80211_def Let_def mt76_insert_ccmp_hdr_def) (simp add: ampdu_view_def)
  have 2: "ampdu_view (mt792x_mac_assoc_rssi env c) = ampdu_view c" for c
    by (simp add: mt792x_mac_assoc_rssi_def Let_def)
  have 3: "ampdu_view (rx_radiotap env c) = ampdu_view c" for c
    by (simp add: rx_radiotap_def Let_def case_prod_beta split: option.split) (simp add: ampdu_view_def)
  have 4: "ampdu_view (rx_qos_info w3 c) = ampdu_view c" for c
    by (simp add: rx_qos_info_def) (simp add: ampdu_view_def)
  show "ampdu_view (rx_finish env w w3 tr c) = ampdu_view c"
    by (simp add: rx_finish_def Let_def 1 2 3 4)
qed

text \<open>
  The step: without details nothing changes for the phy; with details the context reports what the
  phy remembers, a new reference exactly when the timestamp is new, and zero only if that was so.
\<close>

definition ampdu_step :: "u32 \<Rightarrow> u32 \<Rightarrow> bool \<times> u32 \<times> u32 \<times> u32 \<times> u32 \<Rightarrow> bool" where
  "ampdu_step ts ref v = (case v of (details, t, r, ts', ref') \<Rightarrow>
     if details then t = ts' \<and> r = ref' \<and> (ts' = ts \<longleftrightarrow> ref' = ref) \<and> (ref' = 0 \<longrightarrow> ref = 0)
     else ts' = ts \<and> ref' = ref)"

lemma next_ampdu_ref: "next_ampdu_ref n \<noteq> n" "next_ampdu_ref n \<noteq> 0"
proof -
  show "next_ampdu_ref n \<noteq> n"
  proof (cases "n + 1 = 0")
    case True
    then have "n = - 1" by (simp add: eq_neg_iff_add_eq_0)
    then show ?thesis by (simp add: next_ampdu_ref_def)
  qed (simp add: next_ampdu_ref_def)
  show "next_ampdu_ref n \<noteq> 0" by (simp add: next_ampdu_ref_def)
qed

lemma ampdu_step_group_2:
  assumes "ampdu_view c = (False, t, r, ts, ref)"
  shows "ampdu_step ts ref (ampdu_view (rx_group_2 w w2 c))"
  using assms next_ampdu_ref [of ref]
  by (auto simp: rx_group_2_def Let_def)
     (auto simp: ampdu_step_def rx_ampdu_def ampdu_view_def Let_def)

lemma ampdu_step_fill_rx:
  "ampdu_step ts ref (ampdu_view (mt7921_mac_fill_rx env csum (rx_start s ts ref)))"
proof -
  define c where "c = rx_start s ts ref"
  define c2 where "c2 = rx_then (rx_then (rx_base env csum c) (rx_group_4 (desc_word c 1)))
      (rx_group_1 (desc_word c 1) (desc_word c 2))"
  have "ampdu_view c2 = (False, 0, 0, ts, ref)"
    unfolding c2_def by (simp add: ampdu_view_then ampdu_view_groups ampdu_view_base c_def)
  then have 3: "ampdu_step ts ref (ampdu_view (rx_then c2 (rx_group_2 (desc_word c 1) (desc_word c 2))))"
    by (auto simp: rx_then_def ampdu_step_group_2) (simp add: ampdu_step_def)
  have "ampdu_view (rx_descriptor env csum c) =
      ampdu_view (rx_then c2 (rx_group_2 (desc_word c 1) (desc_word c 2)))"
    unfolding rx_descriptor_def Let_def c2_def [symmetric] by (simp add: ampdu_view_then ampdu_view_groups)
  moreover have "ampdu_view (mt7921_mac_fill_rx env csum c) = ampdu_view (rx_descriptor env csum c)"
    unfolding fill_rx_eq
    by (rule ampdu_view_then)
       (auto simp: rx_then_def ampdu_view_frame(2) dest: ampdu_view_frame(1) split: prod.split)
  ultimately show ?thesis using 3 by (simp add: c_def)
qed

text \<open>A sequence of received buffers; the phy keeps timestamp and reference between them.\<close>

fun rx_run :: "rx_env \<Rightarrow> u32 \<Rightarrow> u32 \<Rightarrow> u32 \<Rightarrow> skb list \<Rightarrow> rx_ctx list" where
  "rx_run env csum ts ref [] = []"
| "rx_run env csum ts ref (s # ss) =
     (let c = mt7921_mac_fill_rx env csum (rx_start s ts ref)
      in c # rx_run env csum (rc_ampdu_ts c) (rc_ampdu_ref c) ss)"

definition ampdu_reports :: "rx_ctx list \<Rightarrow> (u32 \<times> u32) list" where
  "ampdu_reports cs = map (\<lambda>c. (rs_timestamp (rc_st c), rs_ampdu_ref (rc_st c)))
     (filter (\<lambda>c. AMPDU_DETAILS \<in> rs_flag (rc_st c)) cs)"

text \<open>
  Frames belong to the same A-MPDU exactly when their timestamps say so. In any sequence of
  received buffers, refused ones included, two successive frames with A-MPDU details have the same
  reference if and only if they have the same timestamp, also across the wrap-around of the
  reference, and also against what the phy remembered at the start; and a reference is zero only
  when the phy started with zero.
\<close>

theorem ampdu_refs_follow_timestamps:
  "successively (\<lambda>a b. (snd a = snd b) = (fst a = fst b))
     ((ts, ref) # ampdu_reports (rx_run env csum ts ref bufs)) \<and>
   (0 \<in> snd ` set (ampdu_reports (rx_run env csum ts ref bufs)) \<longrightarrow> ref = 0)"
proof (induction bufs arbitrary: ts ref)
  case Nil
  then show ?case by (simp add: ampdu_reports_def)
next
  case (Cons s ss)
  define c where "c = mt7921_mac_fill_rx env csum (rx_start s ts ref)"
  have "ampdu_step ts ref (ampdu_view c)" unfolding c_def by (rule ampdu_step_fill_rx)
  with Cons.IH [of "rc_ampdu_ts c" "rc_ampdu_ref c"] show ?case
    by (auto simp: ampdu_reports_def ampdu_step_def ampdu_view_def c_def [symmetric] Let_def
          successively_Cons split: if_splits)
qed

section \<open>Rates and signals\<close>

definition rx_rate_ok :: "sband \<Rightarrow> rx_rate \<Rightarrow> bool" where
  "rx_rate_ok sband r \<longleftrightarrow>
     (case rr_encoding r of
        ENC_LEGACY \<Rightarrow> rr_rate_idx r = 0 \<or> rr_rate_idx r < length (sb_bitrates sband)
      | ENC_HT \<Rightarrow> rr_rate_idx r < 32
      | ENC_VHT \<Rightarrow> rr_rate_idx r < 12 \<and> 1 \<le> unat (rr_nss r) \<and> unat (rr_nss r) \<le> 8
      | ENC_HE \<Rightarrow> rr_rate_idx r < 16 \<and> 1 \<le> unat (rr_nss r) \<and> unat (rr_nss r) \<le> 8) \<and>
     rr_he_gi r \<le> 2 \<and> (rr_bw r = RX_BW_HE_RU \<longrightarrow> rr_he_ru r = RU_106)"

lemma get_rate_loop_bound: "get_rate_loop bs idx i = 0 \<or> get_rate_loop bs idx i < i + length bs"
  by (induction bs idx i rule: get_rate_loop.induct) auto

lemma mt76_get_rate_bound:
  "mt76_get_rate sband idx cck = 0 \<or> mt76_get_rate sband idx cck < length (sb_bitrates sband)"
  using get_rate_loop_bound [of "sb_bitrates sband" "idx AND NOT (BIT 2)" 0]
    get_rate_loop_bound [of "drop 4 (sb_bitrates sband)" idx 4]
    get_rate_loop_bound [of "sb_bitrates sband" idx 0]
  by (cases "4 < length (sb_bitrates sband)") (auto simp: mt76_get_rate_def Let_def)

lemma rx_nss_bounds:
  "1 \<le> unat (ucast (FIELD_GET 9 7 (v :: u32)) + 1 :: u8)" "unat (ucast (FIELD_GET 9 7 (v :: u32)) + 1 :: u8) \<le> 8"
proof -
  have f: "unat (FIELD_GET 9 7 v) < 8" using FIELD_GET_bound [of 9 7 v] by simp
  have "unat (ucast (FIELD_GET 9 7 v) + 1 :: u8) = unat (FIELD_GET 9 7 v) + 1"
    using f by (simp add: unat_word_ariths unsigned_ucast_eq take_bit_eq_mod)
  with f show "1 \<le> unat (ucast (FIELD_GET 9 7 v) + 1 :: u8)" "unat (ucast (FIELD_GET 9 7 v) + 1 :: u8) \<le> 8"
    by simp_all
qed

lemma rate_by_mode_ok:
  assumes "rate_by_mode sband m i nss gi dcm r = Inr r'" "rr_encoding r = ENC_LEGACY"
    "rr_he_gi r \<le> 2" "rr_bw r = RX_BW_20" "1 \<le> unat nss" "unat nss \<le> 8"
  shows "rx_rate_ok sband r'" "rr_bw r' = RX_BW_20"
proof -
  have hi: "unat (i AND GENMASK 3 0) < 16"
    using FIELD_GET_bound [of 3 0 i] by (simp add: FIELD_GET_def)
  have "rx_rate_ok sband r' \<and> rr_bw r' = RX_BW_20"
    using assms hi mt76_get_rate_bound [of sband i]
    by (cases m) (auto simp: rate_by_mode_def rx_rate_ok_def Let_def word_le_nat_alt word_less_nat_alt split: if_splits)
  then show "rx_rate_ok sband r'" "rr_bw r' = RX_BW_20" by simp_all
qed



text \<open>
  The number of space-time streams is not what is reported: the field of two bits is multiplied
  with its mask instead of shifted, so that two streams mark a frame as coded with LDPC.
\<close>

lemma stbc_marks_ldpc:
  assumes "mt76_connac2_mac_fill_rx_rate False connac2 sband v0 v2 r = Inr r'" "FIELD_GET 23 22 v0 = 2"
  shows "rr_enc_flags r' AND ENC_LDPC = ENC_LDPC"
proof -
  have "ENC_STBC_MASK * 2 AND ENC_LDPC = (ENC_LDPC :: u8)"
    by (simp add: ENC_STBC_MASK_def ENC_LDPC_def BIT_def)
  moreover have "\<exists>a. rr_enc_flags r' = (a OR ENC_STBC_MASK * 2) \<or> rr_enc_flags r' = ((a OR ENC_STBC_MASK * 2) OR ENC_SHORT_GI)"
    using assms
    by (auto simp: mt76_connac2_mac_fill_rx_rate_def rxv_stbc_def Let_def split: option.splits sum.splits if_splits)
  ultimately show ?thesis
    by (auto simp: bit_eq_iff bit_and_iff bit_or_iff)
qed

text \<open>
  Signal strengths: the unsigned division of a wrapped difference is the floor of half of it,
  between -110 and 17.
\<close>

lemma to_rssi_floor:
  assumes "h < l + 8" "h < 32"
  shows "to_rssi h l v = (int (unat (FIELD_GET h l v)) - 220) div 2"
proof -
  define n where "n = uint (FIELD_GET h l v)"
  have "2 ^ (h + 1 - l) \<le> (2 :: nat) ^ 8" using assms by (intro power_increasing) auto
  then have "unat (FIELD_GET h l v) < 256" using FIELD_GET_bound [of h l v] by simp
  then have "int (unat (FIELD_GET h l v)) < 256" by linarith
  then have n: "0 \<le> n" "n < 256" by (simp_all add: n_def)
  have "uint (FIELD_GET h l v - 220) = (n - 220) mod 2 ^ 32"
    by (simp add: n_def uint_word_ariths)
  then have "uint ((FIELD_GET h l v - 220) div 2) = ((n - 220) mod 2 ^ 32) div 2"
    by (simp add: uint_div)
  then have u: "uint (ucast ((FIELD_GET h l v - 220) div 2) :: u8) = (((n - 220) mod 2 ^ 32) div 2) mod 2 ^ 8"
    by (simp add: unsigned_ucast_eq take_bit_eq_mod)
  have "sint (w :: u8) = take_bit 8 (uint w + 2 ^ 7) - 2 ^ 7" for w
    using signed_take_bit_eq_take_bit_shift [of 7 "uint w"] by (simp add: sint_uint)
  then have sint: "sint (w :: u8) = (uint w + 128) mod 256 - 128" for w
    by (simp only: take_bit_eq_mod) simp
  have "to_rssi h l v = ((((n - 220) mod 2 ^ 32) div 2) mod 2 ^ 8 + 128) mod 256 - 128"
    by (simp only: to_rssi_def sint u)
  also have "\<dots> = (n - 220) div 2"
  proof (cases "220 \<le> n")
    case True
    then show ?thesis using n by simp
  next
    case False
    then have "(n - 220) mod 2 ^ 32 = n - 220 + 2 ^ 32"
      using n mod_add_self2 [of "n - 220" "2 ^ 32"] mod_pos_pos_trivial [of "n - 220 + 2 ^ 32" "2 ^ 32"] by simp
    moreover have "(n - 220 + 2 ^ 32) div 2 = (n - 220) div 2 + 2 ^ 31" by simp
    ultimately have eq: "((n - 220) mod 2 ^ 32) div 2 = (n - 220) div 2 + 2147483648" by simp
    define k where "k = (n - 220) div 2"
    have k: "- 110 \<le> k" "k < 0" using n False by (simp_all add: k_def)
    have "(k + 2147483648) mod 256 = k + 256"
      using k mod_mult_self2 [of k 256 8388608] mod_pos_pos_trivial [of "k + 256" 256] by simp
    moreover have "(k + 256 + 128) mod 256 = k + 128"
      using k mod_add_self2 [of "k + 128" 256] by (simp add: mod_pos_pos_trivial ac_simps)
    ultimately show ?thesis unfolding eq k_def [symmetric] by simp
  qed
  finally show ?thesis by (simp add: n_def)
qed

section \<open>The bandwidth of HE MU frames\<close>

lemma nth_mem_put:
  "i + length xs \<le> length (sk_mem s) \<Longrightarrow> j < length (sk_mem s) \<Longrightarrow>
     sk_mem (mem_put i xs s) ! j = (if i \<le> j \<and> j < i + length xs then xs ! (j - i) else sk_mem s ! j)"
  by (auto simp: mem_put_def nth_append min_def)

lemma rd16_mem_put_other:
  "i + length xs \<le> length (sk_mem s) \<Longrightarrow> j + 2 \<le> length (sk_mem s) \<Longrightarrow>
     j + 2 \<le> i \<or> i + length xs \<le> j \<Longrightarrow> rd16 (mem_put i xs s) j = rd16 s j"
  by (auto simp: rd16_def le16_def nth_mem_put)

lemma rd16_put16:
  assumes "i + 2 \<le> length (sk_mem s)"
  shows "rd16 (put16 i w s) i = w"
proof -
  have "rd16 (put16 i w s) i = le16 (put_le16 w @ []) 0"
    using assms by (simp add: rd16_def le16_def put16_def nth_mem_put)
  then show ?thesis by (simp only: le16_put)
qed

lemma rd16_or16:
  "i + 2 \<le> length (sk_mem s) \<Longrightarrow> rd16 (or16 i w s) i = rd16 s i OR w"
  "i + 2 \<le> length (sk_mem s) \<Longrightarrow> j + 2 \<le> length (sk_mem s) \<Longrightarrow> j + 2 \<le> i \<or> i + 2 \<le> j \<Longrightarrow>
     rd16 (or16 i w s) j = rd16 s j"
  unfolding or16_def by (rule rd16_put16, assumption) (simp add: put16_def rd16_mem_put_other)

text \<open>
  The bandwidth field of the HE MU header (bits 0 and 1 of the second half word) holds the low bits
  of a \<open>rate_info_bw\<close> that has become \<open>RATE_INFO_BW_HE_RU\<close> just before: it is 2 (80 MHz) for every
  frame, whatever its bandwidth was.
\<close>

lemma he_mu_bandwidth_lost:
  assumes "rr_bw r = RX_BW_HE_RU" "12 \<le> sk_data s" "sk_data s \<le> length (sk_mem s)"
    and "mt76_connac2_mac_decode_he_mu_radiotap b rxv (r, s) = (r', s')"
  shows "sk_data s' = sk_data s - 12 \<and> FIELD_GET 1 0 (rd16 s' (sk_data s' + 2)) = 2"
proof -
  define mu where "mu = sk_data s - 12"
  define s0 where "s0 = push_bytes (mu_known b) s"
  have s0: "sk_data s0 = mu" "mu + 12 \<le> length (sk_mem s0)"
    using assms(2,3) by (simp_all add: s0_def skb_ops mu_def)
  have "rd16 s0 (mu + 2) = le16 (mu_known b) 2"
    using assms(2,3) by (simp add: s0_def push_bytes_def Let_def rd16_def le16_def nth_mem_put skb_push_def mu_def)
  then have k: "FIELD_GET 1 0 (rd16 s0 (mu + 2)) = 0"
    by (cases b) (simp_all add: mu_known_def put_le16_def le16_def FIELD_GET_def GENMASK_def mask_eq_exp_minus_1)
  define s1 where "s1 = or16 mu (FIELD_PREP 3 0 (of_nat (rr_rate_idx r))) s0"
  define s2 where "s2 = (if rr_he_dcm r then or16 mu (FIELD_PREP 5 5 1) s1 else s1)"
  define n where "n = HE_PREP 7 4 30 24 (rxv_at s2 rxv 2)"
  define s3 where "s3 = or16 (mu + 2) (FIELD_PREP 1 0 6 OR n) s2"
  have l: "length (sk_mem s1) = length (sk_mem s0)" "length (sk_mem s2) = length (sk_mem s0)"
    "length (sk_mem s3) = length (sk_mem s0)" "sk_data s3 = mu"
    using s0 by (simp_all add: s1_def s2_def s3_def skb_ops)
  have 2: "rd16 s2 (mu + 2) = rd16 s0 (mu + 2)"
    using s0 l by (simp add: s2_def s1_def rd16_or16 skb_ops)
  have "FIELD_GET 1 0 n = 0"
    by (simp add: n_def HE_PREP_def FIELD_GET_PREP_disjoint)
  moreover have "FIELD_GET 1 0 (FIELD_PREP 1 0 6 :: u16) = 2"
    by (simp add: FIELD_GET_def FIELD_PREP_def GENMASK_def mask_eq_exp_minus_1)
  ultimately have 3: "FIELD_GET 1 0 (rd16 s3 (mu + 2)) = 2"
  proof -
    have "rd16 s3 (mu + 2) = rd16 s0 (mu + 2) OR (FIELD_PREP 1 0 6 OR n)"
      using s0(2) l(2) unfolding s3_def 2 [symmetric] by (intro rd16_or16) simp
    moreover assume "FIELD_GET 1 0 n = 0" "FIELD_GET 1 0 (FIELD_PREP 1 0 6 :: u16) = 2"
    ultimately show ?thesis by (simp only: FIELD_GET_OR k) simp
  qed
  have "sk_data s' = mu \<and> rd16 s' (mu + 2) = rd16 s3 (mu + 2)"
    using assms(4) s0 l
    unfolding mt76_connac2_mac_decode_he_mu_radiotap_def Let_def prod.case assms(1) bw_value.simps
      s0_def [symmetric] s0(1) s1_def [symmetric] s2_def [symmetric] of_nat_numeral n_def [symmetric] s3_def [symmetric]
    by (auto simp: rd16_mem_put_other rd16_or16 skb_ops)
  then show ?thesis using 3 by (simp add: mu_def)
qed

section \<open>Examples\<close>

text \<open>
  A buffer of 8 bytes of headroom, a descriptor of 40 bytes with group 4 (translated, unicast, a QoS
  frame to the distribution system, with more fragments or not) and an Ethernet frame of two bytes.
\<close>

definition demo_desc :: "bool \<Rightarrow> u8 list" where
  "demo_desc frag = [0, 0, 0, 0, 0, 0x40, 0, 0, 0, 0x20, 0, 0, 0, 1, 1, 0, 0, 0, 0, 0, 0, 0, 0, 0,
     0x88, if frag then 5 else 1, 0, 0, 0, 0, 0, 0, 0x10, 0, 5, 0, 0, 0, 0, 0]"

definition demo_eth :: "u8 list" where
  "demo_eth = [9, 9, 9, 9, 9, 9, 2, 2, 2, 2, 2, 2, 8, 0, 0xAB, 0xCD]"

definition demo_skb :: "bool \<Rightarrow> skb" where
  "demo_skb frag = \<lparr>sk_mem = replicate 8 0 @ demo_desc frag @ demo_eth @ [0, 0], sk_data = 8,
     sk_len = 56, sk_panic = False\<rparr>"

definition demo_vif :: rx_vif where
  "demo_vif = \<lparr>vi_addr = replicate 6 1, vi_bssid = replicate 6 1, vi_wcid = 1\<rparr>"

definition demo_env :: rx_env where
  "demo_env = \<lparr>re_running = True, re_mmio = True, re_connac2 = True, re_antenna_mask = 3,
     re_sband = (\<lambda>b. Some \<lparr>sb_band = b, sb_bitrates = mt76_rates\<rparr>),
     re_wcid = (\<lambda>n. if n = 0 then Some \<lparr>lk_sta = True, lk_addr = replicate 6 2, lk_vif = Some 0\<rparr> else None),
     re_vif = (\<lambda>n. demo_vif), re_active = [0]\<rparr>"

lemma demo_env_wf: "rx_env_wf demo_env"
  by (auto simp: rx_env_wf_def demo_env_def demo_vif_def split: if_splits)

theorem frag0_header_restored_witness:
  "\<exists>s'. mt76_connac2_reverse_frag0_hdr_trans demo_vif (replicate 6 2) 40 (demo_skb True) = Inr s' \<and>
     dot11_to_8023 (skb_frame s') = demo_eth"
proof -
  have "in_mem (demo_skb True)" "40 + 14 \<le> sk_len (demo_skb True)"
    "RXD3_ADDR_TYPE (rd32 (demo_skb True) (sk_data (demo_skb True) + 12)) = 1"
    "RXD1_GROUP 4 (rd32 (demo_skb True) (sk_data (demo_skb True) + 4))"
    "length (vi_addr demo_vif) = 6" "length (vi_bssid demo_vif) = 6" "length (replicate 6 (2 :: u8)) = 6"
    "0x0588 = (ucast (RXD6_FRAME_CONTROL (rd32 (demo_skb True) (sk_data (demo_skb True) + 24))) :: u16)"
    "fc_is_data 0x0588" "fc_order 0x0588 \<longrightarrow> fc_is_data_qos 0x0588"
    "demo_eth = drop 40 (skb_frame (demo_skb True))" "eth_wf demo_eth"
    "fc_tods 0x0588 \<or> take 6 demo_eth = vi_addr demo_vif"
    "fc_fromds 0x0588 \<or> take 6 (drop 6 demo_eth) = replicate 6 2"
    by code_simp+
  from frag0_header_restored [OF this(1) _ this(2-)] show ?thesis by blast
qed

text \<open>A translated frame with group 4 alone is accepted when the first words do not refuse it.\<close>

lemma rc_err_finish: "rc_err (rx_finish env w w3 tr c) = rc_err c"
proof -
  have 1: "rc_err (rx_80211 w c) = rc_err c"
    by (simp add: rx_80211_def Let_def mt76_insert_ccmp_hdr_def)
  have 2: "rc_err (mt792x_mac_assoc_rssi env c) = rc_err c" for c
    by (simp add: mt792x_mac_assoc_rssi_def Let_def)
  have 3: "rc_err (rx_radiotap env c) = rc_err c" for c
    by (simp add: rx_radiotap_def Let_def case_prod_beta split: option.split)
  have 4: "rc_err (rx_qos_info w3 c) = rc_err c" for c
    by (simp add: rx_qos_info_def)
  show ?thesis by (simp add: rx_finish_def Let_def 1 2 3 4)
qed

lemma translated_frame_accepted:
  assumes "w1 = rd32 s (sk_data s + 4)" "w2 = rd32 s (sk_data s + 8)" "\<not> rx_refused env w1 w2" "\<not> bit w2 24"
    "\<And>b. re_sband env b \<noteq> None" "bit w2 13" "RXD1_GROUP 4 w1" "\<forall>g\<in>{1, 2, 3}. \<not> RXD1_GROUP g w1"
    "40 < sk_len s" "\<not> fc_morefrags (ucast (RXD6_FRAME_CONTROL (rd32 s (sk_data s + 24))))"
  shows "rc_err (mt7921_mac_fill_rx env csum (rx_start s ts ref)) = None"
proof -
  define c where "c = rx_base env csum (rx_start s ts ref)"
  have info: "rc_err (rx_client_info env w w3 x) = rc_err x" for w w3 x
    by (simp add: rx_client_info_def Let_def)
  have "\<forall>b. \<exists>y. re_sband env b = Some y" using assms(5) by auto
  then obtain f where sb: "\<And>b. re_sband env b = Some (f b)" by metis
  have start: "rc_err (rx_start s ts ref) = None" by (simp add: rx_start_def)
  have "rc_err c = None"
    unfolding c_def rx_base_def Let_def rx_start_word assms(1,2) [symmetric] sb
    using assms(3,4) by (simp add: info start)
  note d = rx_atD [OF rx_at_base [of s env csum ts ref, folded c_def] this] this
  have 4: "rc_err (rx_group_4 w1 c) = None" "rc_fc (rx_group_4 w1 c) = ucast (RXD6_FRAME_CONTROL (rd32 s (sk_data s + 24)))"
    using assms(7,9) d by (simp_all add: rx_group_4_def Let_def rc_err_advance)
  have "rx_descriptor env csum (rx_start s ts ref) = rx_group_4 w1 c"
    using d(5) 4 assms(8)
    by (simp add: rx_descriptor_def Let_def rx_start_word [unfolded One_nat_def] rx_start_word assms(1) [symmetric] c_def [symmetric]
          rx_then_def rx_group_1_def rx_group_2_def rx_group_3_def)
  then show ?thesis
    using 4 assms(6,10)
    by (simp add: fill_rx_eq rx_then_def rx_start_word assms(2) [symmetric] rx_strip_def Let_def rx_pull_def
          rc_err_finish)
qed


theorem ampdu_refs_follow_timestamps_witness:
  "0 \<notin> snd ` set (ampdu_reports (rx_run demo_env 0 5 7 [demo_skb False, demo_skb True]))"
  using ampdu_refs_follow_timestamps [where ts = 5 and ref = 7 and env = demo_env and csum = 0
      and bufs = "[demo_skb False, demo_skb True]"] by (auto simp del: rx_run.simps)

end
