(* ===== verification/FwLoad.thy ===== *)
theory FwLoad
  imports McuMsg
begin

text \<open>
  Downloading the firmware: \<open>mt76_connac2_load_patch\<close> and \<open>mt76_connac2_load_ram\<close> of
  src/src/mt76/mt76_connac_mcu.c, \<open>mt7921_load_clc\<close> of src/src/mt76/mt7921/mcu.c and
  \<open>mt792x_load_firmware\<close> of src/src/mt76/mt792x_core.c, on top of the scatter loop of McuMsg. An
  image is the list of its bytes. Reading outside of it is the outcome \<open>Oob\<close>, a loop that does not
  end the outcome \<open>Hang\<close>. The state is the sequence of commands and of image requests and releases;
  what the firmware answers to the \<open>n\<close>-th of them is the parameter \<open>ans\<close>.
\<close>

section \<open>Commands and outcomes\<close>

datatype fw_event =
    Patch_sem bool
  | Init_download bool u32 u32 u32
  | Fw_scatter "u8 list"
  | Patch_finish
  | Fw_start u32 u32
  | Fw_request string
  | Fw_release
  | Fw_restart
  | Fw_poll u32
  | Fw_pmctrl
  | Drv_pmctrl

datatype 'a fw_out = Ret 'a | Oob | Hang

type_synonym fw_st = "fw_event list"
type_synonym fw_answers = "nat \<Rightarrow> fw_event \<Rightarrow> int"

fun fw_then :: "'a fw_out \<times> fw_st \<Rightarrow> ('a \<Rightarrow> fw_st \<Rightarrow> 'b fw_out \<times> fw_st) \<Rightarrow> 'b fw_out \<times> fw_st" where
  "fw_then (Ret x, st) f = f x st"
| "fw_then (Oob, st) f = (Oob, st)"
| "fw_then (Hang, st) f = (Hang, st)"

definition fw_send :: "fw_answers \<Rightarrow> fw_event \<Rightarrow> fw_st \<Rightarrow> int fw_out \<times> fw_st" where
  "fw_send ans c st = (Ret (ans (length st) c), st @ [c])"

record fw_dev =
  fd_sdio :: bool
  fd_usb :: bool
  fd_mmio :: bool
  fd_connac_v1 :: bool
  fd_connac2 :: bool
  fd_mt7925 :: bool
  fd_mt799x :: bool

definition fw_max_len :: "fw_dev \<Rightarrow> nat" where
  "fw_max_len d = (if fd_sdio d then 2048 else 4096)"

definition EAGAIN_code :: int where "EAGAIN_code = - 11"
definition EINVAL_code :: int where "EINVAL_code = - 22"
definition EIO_code :: int where "EIO_code = - 5"
definition ENOMEM_code :: int where "ENOMEM_code = - 12"

section \<open>Single commands\<close>

definition mt76_connac_mcu_patch_sem_ctrl :: "fw_answers \<Rightarrow> bool \<Rightarrow> fw_st \<Rightarrow> int fw_out \<times> fw_st" where
  "mt76_connac_mcu_patch_sem_ctrl ans get = fw_send ans (Patch_sem get)"

definition mt76_connac_mcu_start_patch :: "fw_answers \<Rightarrow> fw_st \<Rightarrow> int fw_out \<times> fw_st" where
  "mt76_connac_mcu_start_patch ans = fw_send ans Patch_finish"

definition mt76_connac_mcu_start_firmware :: "fw_answers \<Rightarrow> u32 \<Rightarrow> u32 \<Rightarrow> fw_st \<Rightarrow> int fw_out \<times> fw_st" where
  "mt76_connac_mcu_start_firmware ans addr option = fw_send ans (Fw_start option addr)"

text \<open>Whether \<open>PATCH_START_REQ\<close> or \<open>TARGET_ADDRESS_LEN_REQ\<close> announces the download.\<close>

definition is_patch_address :: "fw_dev \<Rightarrow> u32 \<Rightarrow> bool" where
  "is_patch_address d addr \<longleftrightarrow>
     \<not> fd_connac_v1 d \<and> addr = 0x200000 \<or> fd_connac2 d \<and> addr = 0x900000 \<or>
     fd_mt7925 d \<and> (addr = 0x900000 \<or> addr = 0xe0002800) \<or> fd_mt799x d \<and> addr = 0x900000"

definition mt76_connac_mcu_init_download ::
  "fw_answers \<Rightarrow> fw_dev \<Rightarrow> u32 \<Rightarrow> u32 \<Rightarrow> u32 \<Rightarrow> fw_st \<Rightarrow> int fw_out \<times> fw_st" where
  "mt76_connac_mcu_init_download ans d addr len mode =
     fw_send ans (Init_download (is_patch_address d addr) addr len mode)"

text \<open>
  \<open>__mt76_mcu_send_firmware\<close> on \<open>len\<close> bytes at \<open>off\<close> of an image; the length is an \<open>int\<close>. When the
  bytes are not all in the image, the chunks that are go out before one is read that is not.
\<close>

definition send_firmware_at ::
  "fw_answers \<Rightarrow> fw_dev \<Rightarrow> u8 list \<Rightarrow> int \<Rightarrow> u32 \<Rightarrow> fw_st \<Rightarrow> int fw_out \<times> fw_st" where
  "send_firmware_at ans d img off len st =
     (let n = nat (sint len); avail = (if 0 \<le> off then drop (nat off) img else []); max_len = fw_max_len d;
          data = take (if n \<le> length avail then n else length avail div max_len * max_len) avail
      in case mt76_mcu_send_firmware (\<lambda>i c. ans (length st + i) (Fw_scatter c)) max_len data of
           None \<Rightarrow> (Hang, st)
         | Some (err, cs) \<Rightarrow>
             (if err = 0 \<and> length avail < n then Oob else Ret err, st @ map Fw_scatter cs))"

section \<open>RAM code\<close>

definition mt76_connac_mcu_gen_dl_mode :: "fw_dev \<Rightarrow> u8 \<Rightarrow> bool \<Rightarrow> u32" where
  "mt76_connac_mcu_gen_dl_mode d feature_set is_wa =
     (if bit feature_set 0 then BIT 0 OR BIT 3 else 0) OR
     (if (fd_connac2 d \<or> fd_mt7925 d) \<and> bit feature_set 4 then BIT 6 else 0) OR
     FIELD_PREP 2 1 (ucast (FIELD_GET 2 1 feature_set)) OR BIT 31 OR (if is_wa then BIT 4 else 0)"

text \<open>
  The loop over the regions: \<open>k\<close> of them are left, whose headers of 40 bytes end at the trailer of
  36 bytes at the end of the image. Of a header, bytes 16 to 24 are read.
\<close>

fun ram_loop ::
  "fw_answers \<Rightarrow> fw_dev \<Rightarrow> bool \<Rightarrow> u8 list \<Rightarrow> nat \<Rightarrow> u32 \<Rightarrow> u32 \<Rightarrow> fw_st \<Rightarrow> (int + u32) fw_out \<times> fw_st" where
  "ram_loop ans d is_wa img 0 offset override st = (Ret (Inr override), st)"
| "ram_loop ans d is_wa img (Suc k) offset override st =
     (case img_get img (int (length img) - 36 - int (Suc k) * 40 + 16) 9 of
        None \<Rightarrow> (Oob, st)
      | Some region \<Rightarrow>
          let addr = le32 region 0; len = le32 region 4; feature_set = region ! 8;
              mode = mt76_connac_mcu_gen_dl_mode d feature_set is_wa
          in if bit feature_set 6 then ram_loop ans d is_wa img k (offset + len) override st
             else
               let override = (if bit feature_set 5 then addr else override) in
               fw_then (mt76_connac_mcu_init_download ans d addr len mode st) (\<lambda>err st.
                 if err \<noteq> 0 then (Ret (Inl err), st)
                 else fw_then (send_firmware_at ans d img (sint offset) len st) (\<lambda>err st.
                   if err \<noteq> 0 then (Ret (Inl err), st)
                   else ram_loop ans d is_wa img k (offset + len) override st)))"

definition mt76_connac_mcu_send_ram_firmware ::
  "fw_answers \<Rightarrow> fw_dev \<Rightarrow> u8 list \<Rightarrow> bool \<Rightarrow> fw_st \<Rightarrow> int fw_out \<times> fw_st" where
  "mt76_connac_mcu_send_ram_firmware ans d img is_wa st =
     (let n_region = unat (img ! (length img - 36 + 2)) in
      fw_then (ram_loop ans d is_wa img n_region 0 0 st) (\<lambda>r st.
        case r of
          Inl err \<Rightarrow> (Ret err, st)
        | Inr override \<Rightarrow>
            mt76_connac_mcu_start_firmware ans override
              ((if override \<noteq> 0 then BIT 0 else 0) OR (if is_wa then BIT 2 else 0)) st))"

text \<open>What \<open>request_firmware\<close> finds: an error or an image.\<close>

type_synonym fw_files = "string \<Rightarrow> int + u8 list"

definition load_ram_image ::
  "fw_answers \<Rightarrow> fw_files \<Rightarrow> fw_dev \<Rightarrow> string \<Rightarrow> bool \<Rightarrow> fw_st \<Rightarrow> int fw_out \<times> fw_st" where
  "load_ram_image ans files d name is_wa st =
     (case files name of
        Inl err \<Rightarrow> (Ret err, st)
      | Inr img \<Rightarrow>
          let st = st @ [Fw_request name] in
          if length img < 36 then (Ret EINVAL_code, st @ [Fw_release])
          else fw_then (mt76_connac_mcu_send_ram_firmware ans d img is_wa st)
                 (\<lambda>ret st. (Ret ret, st @ [Fw_release])))"

definition mt76_connac2_load_ram ::
  "fw_answers \<Rightarrow> fw_files \<Rightarrow> fw_dev \<Rightarrow> string \<Rightarrow> string option \<Rightarrow> fw_st \<Rightarrow> int fw_out \<times> fw_st" where
  "mt76_connac2_load_ram ans files d fw_wm fw_wa st =
     fw_then (load_ram_image ans files d fw_wm False st) (\<lambda>ret st.
       if ret \<noteq> 0 then (Ret ret, st)
       else case fw_wa of
              None \<Rightarrow> (Ret 0, st)
            | Some name \<Rightarrow> load_ram_image ans files d name True st)"

section \<open>ROM patch\<close>

definition mt76_connac2_get_data_mode :: "fw_dev \<Rightarrow> u32 \<Rightarrow> u32" where
  "mt76_connac2_get_data_mode d info =
     (if \<not> fd_connac2 d \<and> \<not> fd_mt7925 d \<or> info = GENMASK 31 0 then BIT 31
      else if FIELD_GET 31 24 info = 0x01
      then BIT 31 OR BIT 0 OR (FIELD_PREP 2 1 (info AND GENMASK 7 0) AND GENMASK 2 1) OR BIT 3
      else if FIELD_GET 31 24 info = 0x02 then BIT 31 OR BIT 0 OR BIT 6 OR BIT 3
      else BIT 31)"

text \<open>
  The loop over the sections, \<open>k\<close> of which are left after \<open>i\<close>. A header has 64 bytes; its type is
  read first, then what follows up to the key.
\<close>

fun patch_loop ::
  "fw_answers \<Rightarrow> fw_dev \<Rightarrow> u8 list \<Rightarrow> nat \<Rightarrow> nat \<Rightarrow> fw_st \<Rightarrow> int fw_out \<times> fw_st" where
  "patch_loop ans d img i 0 st = (Ret 0, st)"
| "patch_loop ans d img i (Suc k) st =
     (case img_get img (96 + int i * 64) 4 of
        None \<Rightarrow> (Oob, st)
      | Some type \<Rightarrow>
          if be32 type 0 AND GENMASK 15 0 \<noteq> 2 then (Ret EINVAL_code, st)
          else
            (case img_get img (96 + int i * 64 + 4) 20 of
               None \<Rightarrow> (Oob, st)
             | Some sec \<Rightarrow>
                 let offs = be32 sec 0; addr = be32 sec 8; len = be32 sec 12;
                     mode = mt76_connac2_get_data_mode d (be32 sec 16)
                 in fw_then (mt76_connac_mcu_init_download ans d addr len mode st) (\<lambda>err st.
                      if err \<noteq> 0 then (Ret err, st)
                      else fw_then (send_firmware_at ans d img (uint offs) len st) (\<lambda>err st.
                        if err \<noteq> 0 then (Ret err, st)
                        else patch_loop ans d img (i + 1) k st))))"

definition load_patch_image :: "fw_answers \<Rightarrow> fw_dev \<Rightarrow> u8 list \<Rightarrow> fw_st \<Rightarrow> int fw_out \<times> fw_st" where
  "load_patch_image ans d img st =
     (if length img < 96 then (Ret EINVAL_code, st)
      else fw_then (patch_loop ans d img 0 (unat (be32 img 44)) st) (\<lambda>ret st.
             if ret \<noteq> 0 then (Ret ret, st) else mt76_connac_mcu_start_patch ans st))"

definition mt76_connac2_load_patch ::
  "fw_answers \<Rightarrow> fw_files \<Rightarrow> fw_dev \<Rightarrow> string \<Rightarrow> fw_st \<Rightarrow> int fw_out \<times> fw_st" where
  "mt76_connac2_load_patch ans files d name st =
     fw_then (mt76_connac_mcu_patch_sem_ctrl ans True st) (\<lambda>sem st.
       if sem = 1 then (Ret 0, st)
       else if sem \<noteq> 2 then (Ret EAGAIN_code, st)
       else
         fw_then (case files name of
                    Inl err \<Rightarrow> (Ret (err, False), st)
                  | Inr img \<Rightarrow> fw_then (load_patch_image ans d img (st @ [Fw_request name]))
                                 (\<lambda>ret st. (Ret (ret, True), st))) (\<lambda>(ret, held) st.
           fw_then (mt76_connac_mcu_patch_sem_ctrl ans False st) (\<lambda>sem st.
             (Ret (if sem = 3 then ret else EAGAIN_code), if held then st @ [Fw_release] else st))))"

section \<open>The whole download\<close>

text \<open>
  \<open>mt792x_load_firmware\<close>; \<open>patch\<close> and \<open>ram\<close> are the names of the images. Polls of the state register
  are events (the answer tells whether the value was seen), and so is the power cycle of SDIO
  devices, whose result the code overwrites.
\<close>

definition MT_TOP_MISC2_FW_PWR_ON :: u32 where "MT_TOP_MISC2_FW_PWR_ON = BIT 0"
definition MT_TOP_MISC2_FW_N9_RDY :: u32 where "MT_TOP_MISC2_FW_N9_RDY = GENMASK 1 0"

definition fw_power_cycle :: "fw_answers \<Rightarrow> fw_dev \<Rightarrow> fw_st \<Rightarrow> int fw_out \<times> fw_st" where
  "fw_power_cycle ans d st =
     (if fd_sdio d
      then fw_then (fw_send ans Fw_pmctrl st) (\<lambda>ret st.
             if ret = 0 then fw_send ans Drv_pmctrl st else (Ret ret, st))
      else (Ret 0, st))"

definition mt792x_load_firmware ::
  "fw_answers \<Rightarrow> fw_files \<Rightarrow> fw_dev \<Rightarrow> string \<Rightarrow> string \<Rightarrow> fw_st \<Rightarrow> int fw_out \<times> fw_st" where
  "mt792x_load_firmware ans files d patch ram st =
     fw_then (fw_send ans Fw_restart st) (\<lambda>_ st.
     fw_then (fw_send ans (Fw_poll MT_TOP_MISC2_FW_PWR_ON) st) (\<lambda>_ st.
     fw_then (mt76_connac2_load_patch ans files d patch st) (\<lambda>ret st.
       if ret \<noteq> 0 then (Ret ret, st)
       else
         fw_then (fw_power_cycle ans d st) (\<lambda>_ st.
         fw_then (mt76_connac2_load_ram ans files d ram None st) (\<lambda>ret st.
           if ret \<noteq> 0 then (Ret ret, st)
           else
             fw_then (fw_send ans (Fw_poll MT_TOP_MISC2_FW_N9_RDY) st) (\<lambda>seen st.
               (Ret (if seen = 0 then EIO_code else 0), st)))))))"

end
