(* ===== verification/FwLoadProps.thy ===== *)
theory FwLoadProps
  imports FwLoad
begin

text \<open>
  What holds of the firmware download: for an image whose headers and data lie within it the
  download ends whatever the firmware answers, the patch semaphore and the images are given back on
  every path, and an image that was put together from sections is taken apart into exactly these.
\<close>

section \<open>Scattering\<close>

function chunks :: "nat \<Rightarrow> u8 list \<Rightarrow> u8 list list" where
  "chunks m xs = (if m = 0 \<or> xs = [] then [] else take m xs # chunks m (drop m xs))"
  by auto
termination by (relation "measure (\<lambda>(m, xs). length xs)") auto

declare chunks.simps [simp del]

lemma concat_chunks: "0 < m \<Longrightarrow> concat (chunks m xs) = xs"
proof (induction m xs rule: chunks.induct)
  case (1 m xs)
  then show ?case by (subst chunks.simps) auto
qed

lemma send_firmware_loop_chunks:
  assumes "0 < m" "\<forall>i c. send i c = 0"
  shows "send_firmware_loop send m data out = Some (0, out @ chunks m data)"
proof -
  have send: "send = (\<lambda>i c. 0)" using assms(2) by auto
  show ?thesis unfolding send using assms(1)
  proof (induction m data arbitrary: out rule: chunks.induct)
    case (1 m data)
    then show ?case
      by (subst send_firmware_loop.simps, subst chunks.simps) (auto simp: Let_def)
  qed
qed

lemma send_firmware_loop_total:
  assumes "0 < m"
  shows "\<exists>err cs. send_firmware_loop send m data out = Some (err, cs)"
  using assms
proof (induction m data arbitrary: out rule: chunks.induct)
  case (1 m data)
  then show ?case by (subst send_firmware_loop.simps) (auto simp: Let_def)
qed

lemma fw_max_len_pos [simp]: "0 < fw_max_len d"
  by (simp add: fw_max_len_def)

text \<open>Data that is in the image and has a length that an \<open>int\<close> can hold.\<close>

definition in_image :: "u8 list \<Rightarrow> int \<Rightarrow> u32 \<Rightarrow> bool" where
  "in_image img off len \<longleftrightarrow> 0 \<le> off \<and> off + uint len \<le> int (length img) \<and> unat len < 2 ^ 31"

lemma send_firmware_at_in:
  assumes "in_image img off len"
  shows "\<exists>err cs. send_firmware_at ans d img off len st = (Ret err, st @ map Fw_scatter cs)"
    and "(\<forall>i c. ans i (Fw_scatter c) = 0) \<Longrightarrow> send_firmware_at ans d img off len st =
      (Ret 0, st @ map Fw_scatter (chunks (fw_max_len d) (take (unat len) (drop (nat off) img))))"
proof -
  have n: "nat (sint len) = unat len" using assms by (simp add: in_image_def sint_small)
  have "int (nat off) + int (unat len) \<le> int (length img)" using assms by (simp add: in_image_def)
  then have le: "nat off + unat len \<le> length img" by linarith
  have eq: "send_firmware_at ans d img off len st =
      (case send_firmware_loop (\<lambda>i c. ans (length st + i) (Fw_scatter c)) (fw_max_len d)
         (take (unat len) (drop (nat off) img)) [] of
         None \<Rightarrow> (Hang, st) | Some (err, cs) \<Rightarrow> (Ret err, st @ map Fw_scatter cs))"
    using le assms by (auto simp: send_firmware_at_def n Let_def mt76_mcu_send_firmware_def in_image_def split: option.split)
  obtain err cs where "send_firmware_loop (\<lambda>i c. ans (length st + i) (Fw_scatter c)) (fw_max_len d)
         (take (unat len) (drop (nat off) img)) [] = Some (err, cs)"
    using send_firmware_loop_total [OF fw_max_len_pos] by blast
  then show "\<exists>err cs. send_firmware_at ans d img off len st = (Ret err, st @ map Fw_scatter cs)"
    by (intro exI [of _ err] exI [of _ cs]) (simp add: eq)
  show "(\<forall>i c. ans i (Fw_scatter c) = 0) \<Longrightarrow> send_firmware_at ans d img off len st =
      (Ret 0, st @ map Fw_scatter (chunks (fw_max_len d) (take (unat len) (drop (nat off) img))))"
    unfolding eq by (subst send_firmware_loop_chunks) auto
qed

section \<open>The patch download ends and gives everything back\<close>

text \<open>The header of section \<open>i\<close> lies in the image; if its type is right, so do its data.\<close>

definition patch_sec_ok :: "u8 list \<Rightarrow> nat \<Rightarrow> bool" where
  "patch_sec_ok img i \<longleftrightarrow> 96 + i * 64 + 24 \<le> length img \<and>
     in_image img (uint (be32 img (96 + i * 64 + 4))) (be32 img (96 + i * 64 + 16))"

definition patch_image_ok :: "u8 list \<Rightarrow> bool" where
  "patch_image_ok img \<longleftrightarrow> (\<forall>i < unat (be32 img 44). patch_sec_ok img i)"

lemma be32_sub: "j + 4 \<le> n \<Longrightarrow> i + n \<le> length img \<Longrightarrow> be32 (take n (drop i img)) j = be32 img (i + j)"
  by (simp add: be32_def add.assoc)

text \<open>Events of a download proper.\<close>

fun is_download :: "fw_event \<Rightarrow> bool" where
  "is_download (Init_download p a l m) = True"
| "is_download (Fw_scatter c) = True"
| "is_download _ = False"

lemma patch_loop_Suc:
  assumes "p = 96 + i * 64" "p + 24 \<le> length img"
  shows "patch_loop ans d img i (Suc k) st =
    (if be32 img p AND GENMASK 15 0 \<noteq> 2 then (Ret EINVAL_code, st)
     else fw_then (fw_send ans (Init_download (is_patch_address d (be32 img (p + 12))) (be32 img (p + 12))
                     (be32 img (p + 16)) (mt76_connac2_get_data_mode d (be32 img (p + 20)))) st) (\<lambda>err st.
            if err \<noteq> 0 then (Ret err, st)
            else fw_then (send_firmware_at ans d img (uint (be32 img (p + 4))) (be32 img (p + 16)) st) (\<lambda>err st.
              if err \<noteq> 0 then (Ret err, st) else patch_loop ans d img (i + 1) k st)))"
proof -
  have p: "96 + int i * 64 = int p" using assms(1) by simp
  have p4: "int p + 4 = int (p + 4)" by simp
  have g: "img_get img (int p) 4 = Some (take 4 (drop p img))"
    "img_get img (int p + 4) 20 = Some (take 20 (drop (p + 4) img))"
    unfolding p4 using assms(2) by (simp_all add: img_get_def del: of_nat_add)
  have b: "be32 (take 4 (drop p img)) 0 = be32 img p"
    "be32 (take 20 (drop (p + 4) img)) j = be32 img (p + 4 + j)" if "j + 4 \<le> 20" for j
    using assms(2) that by (simp_all add: be32_sub)
  have idx: "p + 4 + 0 = p + 4" "p + 4 + 8 = p + 12" "p + 4 + 12 = p + 16" "p + 4 + 16 = p + 20" by simp_all
  have bs: "be32 (take 20 (drop (p + 4) img)) 0 = be32 img (p + 4)"
    "be32 (take 20 (drop (p + 4) img)) 8 = be32 img (p + 12)"
    "be32 (take 20 (drop (p + 4) img)) 12 = be32 img (p + 16)"
    "be32 (take 20 (drop (p + 4) img)) 16 = be32 img (p + 20)"
    by (simp_all only: b idx)
  show ?thesis
    by (simp only: patch_loop.simps p g option.case Let_def b(1) [of 0, simplified] bs
          mt76_connac_mcu_init_download_def)
qed

lemma patch_loop_ends:
  assumes "\<forall>j. i \<le> j \<and> j < i + k \<longrightarrow> patch_sec_ok img j"
  shows "\<exists>r es. patch_loop ans d img i k st = (Ret r, st @ es) \<and> list_all is_download es"
  using assms
proof (induction k arbitrary: i st)
  case 0
  then show ?case by simp
next
  case (Suc k)
  define p where "p = 96 + i * 64"
  have ok: "patch_sec_ok img i" using Suc.prems by simp
  then have len: "p + 24 \<le> length img" and in_img: "in_image img (uint (be32 img (p + 4))) (be32 img (p + 16))"
    by (simp_all add: patch_sec_ok_def p_def)
  define c where "c = Init_download (is_patch_address d (be32 img (p + 12))) (be32 img (p + 12))
                     (be32 img (p + 16)) (mt76_connac2_get_data_mode d (be32 img (p + 20)))"
  obtain err cs where s: "send_firmware_at ans d img (uint (be32 img (p + 4))) (be32 img (p + 16)) (st @ [c])
      = (Ret err, (st @ [c]) @ map Fw_scatter cs)"
    using send_firmware_at_in(1) [OF in_img] by blast
  obtain r es where IH: "patch_loop ans d img (i + 1) k ((st @ [c]) @ map Fw_scatter cs) =
      (Ret r, ((st @ [c]) @ map Fw_scatter cs) @ es)" "list_all is_download es"
    using Suc.IH [of "i + 1" "(st @ [c]) @ map Fw_scatter cs"] Suc.prems by auto
  have dl: "is_download c" "list_all is_download (map Fw_scatter cs)"
    by (simp_all add: c_def list_all_iff)
  show ?case
    unfolding patch_loop_Suc [OF p_def len] c_def [symmetric] fw_send_def fw_then.simps s
    using IH dl by auto
qed

lemma count_download: "list_all is_download es \<Longrightarrow> \<not> is_download e \<Longrightarrow> count_list es e = 0"
  by (auto simp: list_all_iff)

lemma load_patch_image_ends:
  assumes "patch_image_ok img"
  shows "\<exists>r es fin. load_patch_image ans d img st = (Ret r, st @ es @ fin) \<and> list_all is_download es \<and>
    (fin = [] \<and> r \<noteq> 0 \<or> fin = [Patch_finish])"
proof (cases "length img < 96")
  case True
  then show ?thesis by (auto simp: load_patch_image_def EINVAL_code_def)
next
  case False
  obtain r es where p: "patch_loop ans d img 0 (unat (be32 img 44)) st = (Ret r, st @ es)" "list_all is_download es"
    using patch_loop_ends [of 0 "unat (be32 img 44)" img ans d st] assms unfolding patch_image_ok_def by auto
  show ?thesis
  proof (cases "r = 0")
    case True
    with p False show ?thesis
      by (intro exI [of _ "ans (length st + length es) Patch_finish"] exI [of _ es] exI [of _ "[Patch_finish]"])
         (simp add: load_patch_image_def mt76_connac_mcu_start_patch_def fw_send_def)
  next
    case r: False
    with p False show ?thesis
      by (intro exI [of _ r] exI [of _ es] exI [of _ "[]"]) (simp add: load_patch_image_def)
  qed
qed

text \<open>
  C24: The patch download gives everything back. When the section headers and the data of the image
  lie within it, \<open>mt76_connac2_load_patch\<close> ends whatever the firmware answers, without reading
  outside of the image; it releases the patch semaphore once if it got it and never otherwise, and
  the image as often as it was handed out; and it reports success only if the patch is loaded
  already or the patch was finished.
\<close>

theorem patch_download_gives_back:
  assumes "\<forall>img. files name = Inr img \<longrightarrow> patch_image_ok img" "\<forall>err. files name = Inl err \<longrightarrow> err \<noteq> 0"
    and "sem = ans (length st) (Patch_sem True)"
  shows "\<exists>r es. mt76_connac2_load_patch ans files d name st = (Ret r, st @ es) \<and>
    count_list es (Patch_sem True) = 1 \<and> count_list es (Patch_sem False) = (if sem = 2 then 1 else 0) \<and>
    count_list es Fw_release = count_list es (Fw_request name) \<and>
    (r = 0 \<longrightarrow> sem = 1 \<or> sem = 2 \<and> Patch_finish \<in> set es)"
proof (cases "sem = 2")
  case False
  then show ?thesis
    using assms(3)
    by (cases "sem = 1") (auto simp: mt76_connac2_load_patch_def mt76_connac_mcu_patch_sem_ctrl_def fw_send_def EAGAIN_code_def)
next
  case True
  show ?thesis
  proof (cases "files name")
    case (Inl err)
    then show ?thesis
      using True assms(2,3)
      by (auto simp: mt76_connac2_load_patch_def mt76_connac_mcu_patch_sem_ctrl_def fw_send_def EAGAIN_code_def)
  next
    case (Inr img)
    define st1 where "st1 = (st @ [Patch_sem True]) @ [Fw_request name]"
    obtain r es fin where l: "load_patch_image ans d img st1 = (Ret r, st1 @ es @ fin)" "list_all is_download es"
      "fin = [] \<and> r \<noteq> 0 \<or> fin = [Patch_finish]"
      using load_patch_image_ends [of img] assms(1) Inr by blast
    define rel where "rel = ans (length (st1 @ es @ fin)) (Patch_sem False)"
    have "mt76_connac2_load_patch ans files d name st =
      (Ret (if rel = 3 then r else EAGAIN_code), (st1 @ es @ fin) @ [Patch_sem False] @ [Fw_release])"
      using True assms(3)
      by (simp add: mt76_connac2_load_patch_def mt76_connac_mcu_patch_sem_ctrl_def fw_send_def Inr
            st1_def [symmetric, simplified] l(1) rel_def)
    then show ?thesis
      using l(2,3) True count_download [OF l(2)]
      by (intro exI [of _ "if rel = 3 then r else EAGAIN_code"]
            exI [of _ "[Patch_sem True, Fw_request name] @ es @ fin @ [Patch_sem False, Fw_release]"])
         (auto simp: st1_def EAGAIN_code_def count_list_append)
  qed
qed

section \<open>Images put together\<close>

text \<open>Answers of a firmware that accepts everything.\<close>

fun fw_accepts :: "nat \<Rightarrow> fw_event \<Rightarrow> int" where
  "fw_accepts n (Patch_sem get) = (if get then 2 else 3)"
| "fw_accepts n (Fw_poll v) = 1"
| "fw_accepts n _ = 0"

text \<open>
  The reference for the format of a patch: 44 bytes, the number of sections, 48 bytes, the headers
  of the sections, their data one after the other.
\<close>

record patch_part =
  pp_addr :: u32
  pp_key :: u32
  pp_data :: "u8 list"

definition patch_header :: "nat \<Rightarrow> patch_part \<Rightarrow> u8 list" where
  "patch_header offs s = put_be32 2 @ put_be32 (of_nat offs) @ put_be32 (of_nat (length (pp_data s))) @
     put_be32 (pp_addr s) @ put_be32 (of_nat (length (pp_data s))) @ put_be32 (pp_key s) @ replicate 40 0"

fun patch_headers :: "nat \<Rightarrow> patch_part list \<Rightarrow> u8 list" where
  "patch_headers offs [] = []"
| "patch_headers offs (s # ss) = patch_header offs s @ patch_headers (offs + length (pp_data s)) ss"

definition mk_patch :: "u8 list \<Rightarrow> u8 list \<Rightarrow> patch_part list \<Rightarrow> u8 list" where
  "mk_patch h1 h2 ss = h1 @ put_be32 (of_nat (length ss)) @ h2 @
     patch_headers (96 + 64 * length ss) ss @ concat (map pp_data ss)"

definition part_events :: "fw_dev \<Rightarrow> patch_part \<Rightarrow> fw_event list" where
  "part_events d s =
     Init_download (is_patch_address d (pp_addr s)) (pp_addr s) (of_nat (length (pp_data s)))
       (mt76_connac2_get_data_mode d (pp_key s)) #
     map Fw_scatter (chunks (fw_max_len d) (pp_data s))"

lemma length_patch_header [simp]: "length (patch_header offs s) = 64"
  by (simp add: patch_header_def)

lemma length_patch_headers [simp]: "length (patch_headers offs ss) = 64 * length ss"
  by (induction ss arbitrary: offs) simp_all

lemma be32_drop: "p + j + 4 \<le> length img \<Longrightarrow> be32 img (p + j) = be32 (drop p img) j"
  by (simp add: be32_def add.assoc)

lemma be32_at: "i = length a \<Longrightarrow> be32 (a @ put_be32 w @ b) i = w"
  by (simp add: word32_append be32_put)

lemma be32_in_header:
  "be32 (patch_header offs s @ xs) 0 = 2"
  "be32 (patch_header offs s @ xs) 4 = of_nat offs"
  "be32 (patch_header offs s @ xs) 12 = pp_addr s"
  "be32 (patch_header offs s @ xs) 16 = of_nat (length (pp_data s))"
  "be32 (patch_header offs s @ xs) 20 = pp_key s"
  using be32_at [of 4 "put_be32 2"] be32_at [of 12 "put_be32 2 @ put_be32 a @ put_be32 b" for a b]
    be32_at [of 16 "put_be32 2 @ put_be32 a @ put_be32 b @ put_be32 c" for a b c]
    be32_at [of 20 "put_be32 2 @ put_be32 a @ put_be32 b @ put_be32 c @ put_be32 d" for a b c d]
  by (simp_all add: patch_header_def be32_put)

lemma patch_loop_parts:
  assumes "drop (96 + i * 64) img = patch_headers offs ss @ rest"
    and "drop offs img = concat (map pp_data ss) @ rest'"
    and "96 + i * 64 + 64 * length ss \<le> length img" "offs + length (concat (map pp_data ss)) \<le> length img"
    and "length img < 2 ^ 31"
  shows "patch_loop fw_accepts d img i (length ss) st = (Ret 0, st @ concat (map (part_events d) ss))"
  using assms
proof (induction ss arbitrary: i offs st)
  case Nil
  then show ?case by simp
next
  case (Cons s ss)
  define p where "p = 96 + i * 64"
  have len: "p + 64 \<le> length img" "p + 24 \<le> length img" using Cons.prems(3) by (simp_all add: p_def)
  have pd: "drop p img = patch_header offs s @ patch_headers (offs + length (pp_data s)) ss @ rest"
    using Cons.prems(1) by (simp add: p_def)
  have w: "be32 img (p + j) = be32 (patch_header offs s @ patch_headers (offs + length (pp_data s)) ss @ rest) j"
    if "j \<le> 20" for j
    using be32_drop [of p j img] len that pd by simp
  have small: "offs < 2 ^ 31" "length (pp_data s) < 2 ^ 31" using Cons.prems(4,5) by simp_all
  have u: "uint (of_nat offs :: u32) = int offs" "unat (of_nat (length (pp_data s)) :: u32) = length (pp_data s)"
    "uint (of_nat (length (pp_data s)) :: u32) = int (length (pp_data s))"
    using small by (simp_all add: unsigned_of_nat take_bit_eq_mod)
  have b: "be32 img p = 2" "be32 img (p + 4) = of_nat offs" "be32 img (p + 12) = pp_addr s"
    "be32 img (p + 16) = of_nat (length (pp_data s))" "be32 img (p + 20) = pp_key s"
    using w [of 0] w [of 4] w [of 12] w [of 16] w [of 20] by (simp_all add: be32_in_header)
  have two: "(2 :: u32) AND GENMASK 15 0 = 2" by (simp add: GENMASK_def mask_eq_exp_minus_1)
  define c where "c = Init_download (is_patch_address d (pp_addr s)) (pp_addr s) (of_nat (length (pp_data s)))
       (mt76_connac2_get_data_mode d (pp_key s))"
  have in_img: "in_image img (int offs) (of_nat (length (pp_data s)))"
    using Cons.prems(4) small by (simp add: in_image_def u)
  have "take (length (pp_data s)) (drop offs img) = pp_data s" using Cons.prems(2) by simp
  then have send: "send_firmware_at fw_accepts d img (int offs) (of_nat (length (pp_data s))) (st @ [c]) =
      (Ret 0, (st @ [c]) @ map Fw_scatter (chunks (fw_max_len d) (pp_data s)))"
    using send_firmware_at_in(2) [OF in_img, of fw_accepts d "st @ [c]"] by (simp add: u)
  have d2: "drop (96 + (i + 1) * 64) img = patch_headers (offs + length (pp_data s)) ss @ rest"
  proof -
    have "drop (96 + (i + 1) * 64) img = drop 64 (drop p img)" by (simp add: p_def ac_simps)
    then show ?thesis by (simp add: pd)
  qed
  have d3: "drop (offs + length (pp_data s)) img = concat (map pp_data ss) @ rest'"
  proof -
    have "drop (offs + length (pp_data s)) img = drop (length (pp_data s)) (drop offs img)" by (simp add: ac_simps)
    then show ?thesis using Cons.prems(2) by simp
  qed
  have IH: "patch_loop fw_accepts d img (i + 1) (length ss) st' = (Ret 0, st' @ concat (map (part_events d) ss))" for st'
    by (rule Cons.IH [OF d2 d3]) (use Cons.prems(3-5) in simp_all)
  have acc: "fw_accepts (length st) c = 0" by (simp add: c_def)
  show ?case
    unfolding length_Cons patch_loop_Suc [OF p_def len(2)] b u two c_def [symmetric] fw_send_def fw_then.simps acc
    using IH [of "st @ c # map Fw_scatter (chunks (fw_max_len d) (pp_data s))"]
    by (simp add: send [simplified]) (simp add: part_events_def c_def)
qed

text \<open>
  C25: A patch is taken apart as it was put together. From an image that was built from a list of
  sections, \<open>mt76_connac2_load_patch\<close> gets the semaphore, announces each section with its address,
  length and mode and sends its bytes in order in commands of at most 4096 (2048) bytes, finishes
  the patch, and releases semaphore and image; it returns 0.
\<close>

theorem patch_image_roundtrip:
  assumes "length h1 = 44" "length h2 = 48" "files name = Inr (mk_patch h1 h2 ss)"
    and "length (mk_patch h1 h2 ss) < 2 ^ 31"
  shows "mt76_connac2_load_patch fw_accepts files d name [] =
     (Ret 0, [Patch_sem True, Fw_request name] @ concat (map (part_events d) ss) @
             [Patch_finish, Patch_sem False, Fw_release])"
proof -
  define img where "img = mk_patch h1 h2 ss"
  have len: "length img = 96 + 64 * length ss + length (concat (map pp_data ss))"
    by (simp add: img_def mk_patch_def assms(1,2))
  have n: "be32 img 44 = of_nat (length ss)"
    using be32_at [of 44 h1 "of_nat (length ss)"] assms(1) by (simp add: img_def mk_patch_def)
  have u: "unat (of_nat (length ss) :: u32) = length ss"
    using assms(4) len by (simp add: unsigned_of_nat take_bit_eq_mod img_def [symmetric])
  have h: "drop 96 img = patch_headers (96 + 64 * length ss) ss @ concat (map pp_data ss)"
    by (simp add: img_def mk_patch_def assms(1,2))
  have dt: "drop (96 + 64 * length ss) img = concat (map pp_data ss) @ []"
  proof -
    have "drop (96 + 64 * length ss) img = drop (64 * length ss) (drop 96 img)" by (simp add: ac_simps)
    then show ?thesis by (simp add: h)
  qed
  have loop: "patch_loop fw_accepts d img 0 (length ss) st = (Ret 0, st @ concat (map (part_events d) ss))" for st
    by (rule patch_loop_parts [where rest = "concat (map pp_data ss)", OF _ dt])
       (use h len assms(4) in \<open>simp_all add: img_def [symmetric]\<close>)
  have "length img \<ge> 96" by (simp add: len)
  then show ?thesis
    by (simp add: mt76_connac2_load_patch_def mt76_connac_mcu_patch_sem_ctrl_def fw_send_def assms(3) img_def [symmetric]
          load_patch_image_def n u loop mt76_connac_mcu_start_patch_def)
qed

text \<open>
  The reference for the format of RAM code: the data of the regions, their headers, and a trailer of
  36 bytes that holds their number. A region with bit 6 of its features set is not downloaded.
\<close>

record ram_region =
  rg_addr :: u32
  rg_features :: u8
  rg_type :: u8
  rg_data :: "u8 list"

definition region_header :: "ram_region \<Rightarrow> u8 list" where
  "region_header r = replicate 16 0 @ put_le32 (rg_addr r) @ put_le32 (of_nat (length (rg_data r))) @
     [rg_features r, rg_type r] @ replicate 14 0"

definition mk_ram :: "u8 list \<Rightarrow> u8 list \<Rightarrow> ram_region list \<Rightarrow> u8 list" where
  "mk_ram t1 t2 rs = concat (map rg_data rs) @ concat (map region_header rs) @
     t1 @ [of_nat (length rs)] @ t2"

definition region_events :: "fw_dev \<Rightarrow> bool \<Rightarrow> ram_region \<Rightarrow> fw_event list" where
  "region_events d is_wa r =
     (if bit (rg_features r) 6 then []
      else Init_download (is_patch_address d (rg_addr r)) (rg_addr r) (of_nat (length (rg_data r)))
             (mt76_connac_mcu_gen_dl_mode d (rg_features r) is_wa) #
           map Fw_scatter (chunks (fw_max_len d) (rg_data r)))"

text \<open>The start address: the last one that a downloaded region with bit 5 set gives.\<close>

definition override_of :: "u32 \<Rightarrow> ram_region list \<Rightarrow> u32" where
  "override_of = foldl (\<lambda>a r. if \<not> bit (rg_features r) 6 \<and> bit (rg_features r) 5 then rg_addr r else a)"

lemma length_region_header [simp]: "length (region_header r) = 40"
  by (simp add: region_header_def)

lemma length_region_headers [simp]: "length (concat (map region_header rs)) = 40 * length rs"
  by (induction rs) simp_all

lemma le32_at: "i = length a \<Longrightarrow> le32 (a @ put_le32 w @ b) i = w"
  by (simp add: word32_append le32_put)

lemma region_header_fields:
  "le32 (take 9 (drop 16 (region_header r @ xs))) 0 = rg_addr r"
  "le32 (take 9 (drop 16 (region_header r @ xs))) 4 = of_nat (length (rg_data r))"
  "take 9 (drop 16 (region_header r @ xs)) ! 8 = rg_features r"
proof -
  have eq: "take 9 (drop 16 (region_header r @ xs)) =
      put_le32 (rg_addr r) @ put_le32 (of_nat (length (rg_data r))) @ [rg_features r]"
    by (simp add: region_header_def)
  show "le32 (take 9 (drop 16 (region_header r @ xs))) 0 = rg_addr r"
    unfolding eq by (rule le32_put)
  show "le32 (take 9 (drop 16 (region_header r @ xs))) 4 = of_nat (length (rg_data r))"
    unfolding eq by (rule le32_at) simp
  show "take 9 (drop 16 (region_header r @ xs)) ! 8 = rg_features r"
    unfolding eq by (simp add: nth_append)
qed

lemma ram_loop_regions:
  assumes "drop (length img - 36 - 40 * length rs) img = concat (map region_header rs) @ tr"
    and "drop offs img = concat (map rg_data rs) @ rest'"
    and "36 + 40 * length rs \<le> length img" "offs + length (concat (map rg_data rs)) \<le> length img"
    and "length img < 2 ^ 31"
  shows "ram_loop fw_accepts d wa img (length rs) (of_nat offs) ov st =
    (Ret (Inr (override_of ov rs)), st @ concat (map (region_events d wa) rs))"
  using assms
proof (induction rs arbitrary: offs ov st)
  case Nil
  then show ?case by (simp add: override_of_def)
next
  case (Cons r rs)
  define n where "n = length (rg_data r)"
  define p where "p = length img - 36 - 40 * Suc (length rs)"
  have len: "p + 40 \<le> length img" and pi: "int (length img) - 36 - int (Suc (length rs)) * 40 + 16 = int (p + 16)"
    using Cons.prems(3) by (simp_all add: p_def)
  have pd: "drop p img = region_header r @ concat (map region_header rs) @ tr"
    using Cons.prems(1) by (simp add: p_def)
  have get: "img_get img (int (length img) - 36 - int (Suc (length rs)) * 40 + 16) 9 =
      Some (take 9 (drop 16 (region_header r @ concat (map region_header rs) @ tr)))"
    unfolding pi using len by (simp add: img_get_def pd [symmetric] ac_simps del: of_nat_add)
  have small: "offs < 2 ^ 31" "n < 2 ^ 31" using Cons.prems(4,5) by (simp_all add: n_def)
  have u: "unat (of_nat n :: u32) = n" "uint (of_nat n :: u32) = int n" "unat (of_nat offs :: u32) = offs"
    "uint (of_nat offs :: u32) = int offs"
    using small by (simp_all add: unsigned_of_nat take_bit_eq_mod)
  have so: "sint (of_nat offs :: u32) = int offs"
    using sint_small [of "of_nat offs"] u small by simp
  have next_off: "of_nat offs + of_nat n = (of_nat (offs + n) :: u32)" by simp
  have d2: "drop (length img - 36 - 40 * length rs) img = concat (map region_header rs) @ tr"
  proof -
    have "length img - 36 - 40 * length rs = 40 + p" using Cons.prems(3) by (simp add: p_def)
    then have "drop (length img - 36 - 40 * length rs) img = drop 40 (drop p img)" by (simp only: drop_drop)
    then show ?thesis by (simp add: pd)
  qed
  have d3: "drop (offs + n) img = concat (map rg_data rs) @ rest'"
  proof -
    have "drop (offs + n) img = drop n (drop offs img)" by (simp add: ac_simps)
    then show ?thesis using Cons.prems(2) by (simp add: n_def)
  qed
  have IH: "ram_loop fw_accepts d wa img (length rs) (of_nat (offs + n)) ov' st' =
      (Ret (Inr (override_of ov' rs)), st' @ concat (map (region_events d wa) rs))" for ov' st'
    by (rule Cons.IH [OF d2 d3]) (use Cons.prems(3-5) in \<open>simp_all add: n_def\<close>)
  define c where "c = Init_download (is_patch_address d (rg_addr r)) (rg_addr r) (of_nat n)
       (mt76_connac_mcu_gen_dl_mode d (rg_features r) wa)"
  have acc: "fw_accepts (length st) c = 0" by (simp add: c_def)
  have in_img: "in_image img (int offs) (of_nat n)"
    using Cons.prems(4) small by (simp add: in_image_def u) (simp add: n_def)
  have "take n (drop offs img) = rg_data r" using Cons.prems(2) by (simp add: n_def)
  then have send: "send_firmware_at fw_accepts d img (int offs) (of_nat n) (st @ [c]) =
      (Ret 0, (st @ [c]) @ map Fw_scatter (chunks (fw_max_len d) (rg_data r)))"
    using send_firmware_at_in(2) [OF in_img, of fw_accepts d "st @ [c]"] by (simp add: u)
  define ov2 where "ov2 = (if bit (rg_features r) 5 then rg_addr r else ov)"
  have step: "ram_loop fw_accepts d wa img (Suc (length rs)) (of_nat offs) ov st =
     (if bit (rg_features r) 6 then ram_loop fw_accepts d wa img (length rs) (of_nat (offs + n)) ov st
      else ram_loop fw_accepts d wa img (length rs) (of_nat (offs + n)) ov2
             ((st @ [c]) @ map Fw_scatter (chunks (fw_max_len d) (rg_data r))))"
    unfolding ram_loop.simps get option.case Let_def region_header_fields n_def [symmetric] next_off so
      mt76_connac_mcu_init_download_def c_def [symmetric] fw_send_def fw_then.simps acc send ov2_def [symmetric]
    by simp
  have "region_events d wa r = (if bit (rg_features r) 6 then []
      else c # map Fw_scatter (chunks (fw_max_len d) (rg_data r)))"
    by (simp add: region_events_def c_def n_def)
  then show ?case
    unfolding length_Cons step IH by (simp add: override_of_def ov2_def)
qed

text \<open>
  RAM code is taken apart as it was put together. From an image that was built from at most 255
  regions, \<open>mt76_connac2_load_ram\<close> announces each region that is to be downloaded and sends its
  bytes in order, skips the others, starts the firmware at the last override address, and releases
  the image; it returns 0.
\<close>

theorem ram_image_roundtrip:
  assumes "length t1 = 2" "length t2 = 33" "length rs < 256" "files name = Inr (mk_ram t1 t2 rs)"
    and "length (mk_ram t1 t2 rs) < 2 ^ 31" "ov = override_of 0 rs"
  shows "mt76_connac2_load_ram fw_accepts files d name None [] =
     (Ret 0, [Fw_request name] @ concat (map (region_events d False) rs) @
             [Fw_start (if ov \<noteq> 0 then 1 else 0) ov, Fw_release])"
proof -
  define img where "img = mk_ram t1 t2 rs"
  define data where "data = concat (map rg_data rs)"
  have len: "length img = length data + 40 * length rs + 36"
    by (simp add: img_def mk_ram_def assms(1,2) data_def)
  have img: "img = (data @ concat (map region_header rs) @ t1) @ of_nat (length rs) # t2"
    by (simp add: img_def mk_ram_def data_def)
  have "length (data @ concat (map region_header rs) @ t1) = length img - 36 + 2"
    by (simp add: len assms(1))
  then have "img ! (length img - 36 + 2) = of_nat (length rs)"
    by (metis img nth_append_length)
  then have n: "unat (img ! (length img - 36 + 2)) = length rs"
    using assms(3) by (simp add: unsigned_of_nat take_bit_eq_mod)
  have h: "drop (length img - 36 - 40 * length rs) img = concat (map region_header rs) @ (t1 @ of_nat (length rs) # t2)"
    by (simp add: len) (simp add: img)
  have dt: "drop 0 img = concat (map rg_data rs) @ (concat (map region_header rs) @ t1 @ of_nat (length rs) # t2)"
    by (simp add: img data_def)
  have loop: "ram_loop fw_accepts d False img (length rs) 0 0 st =
      (Ret (Inr (override_of 0 rs)), st @ concat (map (region_events d False) rs))" for st
    using ram_loop_regions [OF h dt, of d False 0 st] len assms(5) by (simp add: img_def [symmetric] data_def)
  have "\<not> length img < 36" by (simp add: len)
  then show ?thesis
    unfolding mt76_connac2_load_ram_def load_ram_image_def assms(4) img_def [symmetric] sum.case Let_def
      mt76_connac_mcu_send_ram_firmware_def n
    by (simp add: loop mt76_connac_mcu_start_firmware_def fw_send_def assms(6) [symmetric] BIT_def)
qed

section \<open>What is not checked\<close>

text \<open>
  Neither loader compares offsets and lengths with the size of the image. A patch of 96 bytes that
  promises one section, and RAM code of 36 bytes that promises one region, are read out of bounds.
\<close>

lemma unchecked_patch:
  "fst (mt76_connac2_load_patch fw_accepts
     (\<lambda>_. Inr (replicate 44 0 @ put_be32 1 @ replicate 48 0)) d name []) = Oob"
proof -
  define img where "img = replicate 44 0 @ put_be32 1 @ replicate 48 0"
  have "be32 img 44 = 1" unfolding img_def by (rule be32_at) simp
  moreover have len: "length img = 96" by (simp add: img_def)
  moreover have "patch_loop ans d img 0 1 st = (Oob, st)" for ans st
    using len by (simp add: img_get_def)
  ultimately show ?thesis
    by (simp add: mt76_connac2_load_patch_def mt76_connac_mcu_patch_sem_ctrl_def fw_send_def img_def [symmetric]
          load_patch_image_def)
qed

lemma unchecked_ram:
  "fst (mt76_connac2_load_ram fw_accepts (\<lambda>_. Inr ([0, 0, 1] @ replicate 33 0)) d name None []) = Oob"
  by (simp add: mt76_connac2_load_ram_def load_ram_image_def mt76_connac_mcu_send_ram_firmware_def img_get_def)

section \<open>Instances\<close>

definition demo_part :: patch_part where
  "demo_part = \<lparr>pp_addr = 0x900000, pp_key = 0, pp_data = [1, 2, 3]\<rparr>"

definition demo_region :: ram_region where
  "demo_region = \<lparr>rg_addr = 0x2000, rg_features = 0x20, rg_type = 0, rg_data = [7, 8]\<rparr>"

definition demo_fw_dev :: fw_dev where
  "demo_fw_dev = \<lparr>fd_sdio = False, fd_usb = False, fd_mmio = True, fd_connac_v1 = False, fd_connac2 = True,
     fd_mt7925 = False, fd_mt799x = False\<rparr>"

theorem patch_image_roundtrip_witness:
  "fst (mt76_connac2_load_patch fw_accepts (\<lambda>_. Inr (mk_patch (replicate 44 0) (replicate 48 0) [demo_part]))
     demo_fw_dev ''patch'' []) = Ret 0"
  using patch_image_roundtrip [of "replicate 44 0" "replicate 48 0" "\<lambda>_. Inr (mk_patch (replicate 44 0) (replicate 48 0) [demo_part])"
      "''patch''" "[demo_part]" demo_fw_dev]
  by (simp add: mk_patch_def demo_part_def)

theorem ram_image_roundtrip_witness:
  "fst (mt76_connac2_load_ram fw_accepts (\<lambda>_. Inr (mk_ram [0, 0] (replicate 33 0) [demo_region]))
     demo_fw_dev ''ram'' None []) = Ret 0"
  using ram_image_roundtrip [of "[0, 0]" "replicate 33 0" "[demo_region]"
      "\<lambda>_. Inr (mk_ram [0, 0] (replicate 33 0) [demo_region])" "''ram''" "override_of 0 [demo_region]" demo_fw_dev]
  by (simp add: mk_ram_def demo_region_def)

theorem patch_download_gives_back_witness:
  "\<exists>r es. mt76_connac2_load_patch (\<lambda>n e. if e = Patch_sem True then 2 else - 5) (\<lambda>_. Inr (replicate 96 0))
     demo_fw_dev ''patch'' [] = (Ret r, es) \<and> count_list es (Patch_sem False) = 1 \<and>
     count_list es Fw_release = count_list es (Fw_request ''patch'')"
proof -
  have "unat (be32 (replicate 96 0) 44) = 0" by (simp add: be32_def)
  then have ok: "patch_image_ok (replicate 96 0)" by (simp add: patch_image_ok_def)
  then show ?thesis
    using patch_download_gives_back [of "\<lambda>_. Inr (replicate 96 0)" "''patch''" 2
        "\<lambda>n e. if e = Patch_sem True then 2 else - 5" "[]" demo_fw_dev]
    by auto
qed

end
