(* ===== verification/Clc.thy ===== *)
theory Clc
  imports FwLoadProps
begin

text \<open>
  Country power tables: \<open>mt7921_load_clc\<close>, \<open>mt7921_mcu_set_clc\<close> and \<open>__mt7921_mcu_set_clc\<close> of
  src/src/mt76/mt7921/mcu.c. One region of the RAM image holds records, one per slot of
  \<open>phy->clc\<close>; a record holds rules, one or more per country. Both lists are walked by lengths that
  are read from the image. As in FwLoad, reading or writing out of bounds is the outcome \<open>Oob\<close> and a
  walk that does not advance the outcome \<open>Hang\<close>.
\<close>

section \<open>State\<close>

record clc_cmd =
  cc_idx :: nat
  cc_env :: u8
  cc_len :: u16
  cc_alpha2 :: "u8 list"
  cc_type :: "u8 list"
  cc_data :: "u8 list"

record clc_st =
  cs_slots :: "u8 list option list"
  cs_cmds :: "clc_cmd list"
  cs_chan_conf :: u8
  cs_held :: nat

text \<open>
  What the environment does: the allocation of the message and of the copy of a record, the answer to
  a command with the channel configuration a response carries, and what the EEPROM says.
\<close>

record clc_env =
  ce_msg_alloc :: "nat \<Rightarrow> bool"
  ce_dup :: "nat \<Rightarrow> bool"
  ce_answer :: "nat \<Rightarrow> clc_cmd \<Rightarrow> int \<times> u8 option"
  ce_eeprom :: "int + u8"
  ce_disabled :: bool

definition ENOENT_code :: int where "ENOENT_code = - 2"

text \<open>\<open>enum environment_cap\<close> of \<open>net/cfg80211.h\<close>.\<close>

definition ENVIRON_INDOOR :: u8 where "ENVIRON_INDOOR = 1"

definition alpha2_00 :: "u8 list" where "alpha2_00 = [0x30, 0x30]"

section \<open>Sending the rules of a country\<close>

text \<open>
  The walk over the rules of a record: \<open>pos\<close> is the rule, \<open>buf_len\<close> what is thought to be left,
  \<open>cnt\<close> the rules sent. The message has a head of 76 bytes and its length is of 16 bits; when that
  wraps around, the data is put behind the end of the message. The fields of the message that do not
  depend on the rule (ACPI flags, capabilities, the 6 GHz power type) are left out.
\<close>

partial_function (option) clc_rule_loop ::
  "clc_env \<Rightarrow> nat \<Rightarrow> u8 \<Rightarrow> u8 list \<Rightarrow> u8 list \<Rightarrow> nat \<Rightarrow> u32 \<Rightarrow> nat \<Rightarrow> clc_st \<Rightarrow> (int fw_out \<times> clc_st) option" where
  "clc_rule_loop env idx env_cap alpha2 clc pos buf_len cnt st =
     (if \<not> buf_len > 16 then Some (Ret (if cnt = 0 then ENOENT_code else 0), st)
      else
        (case img_get clc (int pos) 6 of
           None \<Rightarrow> Some (Oob, st)
         | Some rule \<Rightarrow>
             let len = le16 rule 4; offset = len + 6;
                 pos' = pos + unat offset; buf_len' = buf_len - ucast offset
             in if take 2 rule \<noteq> alpha2
                then clc_rule_loop env idx env_cap alpha2 clc pos' buf_len' cnt st
                else if \<not> ce_msg_alloc env (length (cs_cmds st)) then Some (Ret ENOMEM_code, st)
                else if 76 + unat len \<ge> 65536 then Some (Oob, st)
                else
                  (case img_get clc (int pos + 6) (unat len) of
                     None \<Rightarrow> Some (Oob, st)
                   | Some data \<Rightarrow>
                       let cmd = \<lparr>cc_idx = idx, cc_env = env_cap, cc_len = 76 + len, cc_alpha2 = take 2 rule,
                                  cc_type = take 2 (drop 2 rule), cc_data = data\<rparr>;
                           (ret, conf) = ce_answer env (length (cs_cmds st)) cmd;
                           st = st\<lparr>cs_cmds := cs_cmds st @ [cmd]\<rparr>
                       in if ret < 0 then Some (Ret ret, st)
                          else
                            clc_rule_loop env idx env_cap alpha2 clc pos' buf_len' (cnt + 1)
                              (st\<lparr>cs_chan_conf := (case conf of None \<Rightarrow> cs_chan_conf st | Some c \<Rightarrow> c)\<rparr>))))"

definition mt7921_mcu_set_clc_slot ::
  "clc_env \<Rightarrow> u8 list \<Rightarrow> u8 \<Rightarrow> u8 list option \<Rightarrow> nat \<Rightarrow> clc_st \<Rightarrow> int fw_out \<times> clc_st" where
  "mt7921_mcu_set_clc_slot env alpha2 env_cap clc idx st =
     (case clc of
        None \<Rightarrow> (Ret 0, st)
      | Some blob \<Rightarrow>
          (case img_get blob 0 4 of
             None \<Rightarrow> (Oob, st)
           | Some len \<Rightarrow>
               (case clc_rule_loop env idx env_cap alpha2 blob 16 (le32 len 0 - 16) 0 st of
                  None \<Rightarrow> (Hang, st)
                | Some r \<Rightarrow> r)))"

text \<open>The slots from \<open>i\<close> on, \<open>k\<close> of them.\<close>

fun set_clc_slots :: "clc_env \<Rightarrow> u8 list \<Rightarrow> u8 \<Rightarrow> nat \<Rightarrow> nat \<Rightarrow> clc_st \<Rightarrow> int fw_out \<times> clc_st" where
  "set_clc_slots env alpha2 env_cap i 0 st = (Ret 0, st)"
| "set_clc_slots env alpha2 env_cap i (Suc k) st =
     (case mt7921_mcu_set_clc_slot env alpha2 env_cap (cs_slots st ! i) i st of
        (Ret ret, st) \<Rightarrow>
          (case (if ret = ENOENT_code
                 then mt7921_mcu_set_clc_slot env alpha2_00 ENVIRON_INDOOR (cs_slots st ! i) i st
                 else (Ret ret, st)) of
             (Ret ret, st) \<Rightarrow> if ret < 0 then (Ret ret, st) else set_clc_slots env alpha2 env_cap (i + 1) k st
           | r \<Rightarrow> r)
      | r \<Rightarrow> r)"

definition CLC_SLOTS :: nat where "CLC_SLOTS = 3"

definition mt7921_mcu_set_clc :: "clc_env \<Rightarrow> u8 list \<Rightarrow> u8 \<Rightarrow> clc_st \<Rightarrow> int fw_out \<times> clc_st" where
  "mt7921_mcu_set_clc env alpha2 env_cap st = set_clc_slots env alpha2 env_cap 0 CLC_SLOTS st"

section \<open>Loading the records\<close>

text \<open>
  The search for the region with the records; the offset and the length are \<open>int\<close>s, the sum is
  compared as an unsigned number. The result is an error, or the offset and length that were found.
\<close>

fun clc_region_loop :: "u8 list \<Rightarrow> nat \<Rightarrow> u32 \<Rightarrow> (int + (u32 \<times> u32) option) fw_out" where
  "clc_region_loop img 0 offset = Ret (Inr None)"
| "clc_region_loop img (Suc k) offset =
     (case img_get img (int (length img) - 36 - int (Suc k) * 40 + 20) 6 of
        None \<Rightarrow> Oob
      | Some region \<Rightarrow>
          let len = le32 region 0; end_off = offset + len in
          if sint end_off < 0 \<or> sint end_off > int (length img) then Ret (Inl EINVAL_code)
          else if bit (region ! 4) 6 \<and> region ! 5 = 2 then Ret (Inr (Some (offset, len)))
          else clc_region_loop img k end_off)"

text \<open>The walk over the records of the region, which starts at \<open>base\<close>.\<close>

partial_function (option) clc_record_loop ::
  "clc_env \<Rightarrow> u8 \<Rightarrow> u8 list \<Rightarrow> int \<Rightarrow> int \<Rightarrow> u32 \<Rightarrow> clc_st \<Rightarrow> (int fw_out \<times> clc_st) option" where
  "clc_record_loop env hw_encap img base len offset st =
     (if \<not> sint offset < len then Some (Ret 0, st)
      else
        let p = base + sint offset in
        (case img_get img p 5 of
           None \<Rightarrow> Some (Oob, st)
         | Some hdr \<Rightarrow>
             let idx = unat (hdr ! 4); clc_len = le32 hdr 0; next_off = offset + clc_len in
             if length (cs_slots st) \<le> idx then Some (Oob, st)
             else if cs_slots st ! idx \<noteq> None then clc_record_loop env hw_encap img base len next_off st
             else
               (case (if idx = 0 then img_get img (p + 7) 1 else Some [hw_encap]) of
                  None \<Rightarrow> Some (Oob, st)
                | Some type \<Rightarrow>
                    if idx = 0 \<and> type ! 0 AND 1 \<noteq> hw_encap
                    then clc_record_loop env hw_encap img base len next_off st
                    else if \<not> ce_dup env idx then Some (Ret ENOMEM_code, st)
                    else
                      (case img_get img p (unat clc_len) of
                         None \<Rightarrow> Some (Oob, st)
                       | Some blob \<Rightarrow>
                           clc_record_loop env hw_encap img base len next_off
                             (st\<lparr>cs_slots := (cs_slots st)[idx := Some blob]\<rparr>)))))"

definition load_clc_image :: "clc_env \<Rightarrow> u8 \<Rightarrow> u8 list \<Rightarrow> clc_st \<Rightarrow> int fw_out \<times> clc_st" where
  "load_clc_image env hw_encap img st =
     (if length img < 36 then (Ret EINVAL_code, st)
      else
        (case clc_region_loop img (unat (img ! (length img - 36 + 2))) 0 of
           Ret (Inl err) \<Rightarrow> (Ret err, st)
         | Ret (Inr None) \<Rightarrow> (Ret 0, st)
         | Ret (Inr (Some (offset, len))) \<Rightarrow>
             (case clc_record_loop env hw_encap img (sint offset) (sint len) 0 st of
                None \<Rightarrow> (Hang, st)
              | Some (Ret ret, st) \<Rightarrow>
                  if ret \<noteq> 0 then (Ret ret, st) else mt7921_mcu_set_clc env alpha2_00 ENVIRON_INDOOR st
              | Some r \<Rightarrow> r)
         | Oob \<Rightarrow> (Oob, st)
         | Hang \<Rightarrow> (Hang, st)))"

definition mt7921_load_clc ::
  "clc_env \<Rightarrow> fw_files \<Rightarrow> fw_dev \<Rightarrow> string \<Rightarrow> clc_st \<Rightarrow> int fw_out \<times> clc_st" where
  "mt7921_load_clc env files d name st =
     (let st = st\<lparr>cs_chan_conf := 0xff\<rparr> in
      if ce_disabled env \<or> fd_usb d then (Ret 0, st)
      else case (if fd_mmio d then ce_eeprom env else Inr 0) of
             Inl err \<Rightarrow> (Ret err, st)
           | Inr hw_type \<Rightarrow>
               (case files name of
                  Inl err \<Rightarrow> (Ret err, st)
                | Inr img \<Rightarrow>
                    let (out, st) = load_clc_image env (hw_type AND 1) img (st\<lparr>cs_held := cs_held st + 1\<rparr>)
                    in (case out of
                          Ret ret \<Rightarrow> (Ret ret, st\<lparr>cs_held := cs_held st - 1\<rparr>)
                        | _ \<Rightarrow> (out, st))))"

end
