(* ===== verification/ClcProps.thy ===== *)
theory ClcProps
  imports Clc
begin

text \<open>
  What holds of the country tables: from well-formed records exactly the rules of the country are
  sent, or those of the default; records and rules whose length does not advance the walk make it
  go on for ever.
\<close>

section \<open>The format\<close>

record clc_rule =
  cr_alpha2 :: "u8 list"
  cr_type :: "u8 list"
  cr_data :: "u8 list"

definition put_rule :: "clc_rule \<Rightarrow> u8 list" where
  "put_rule r = cr_alpha2 r @ cr_type r @ put_le16 (of_nat (length (cr_data r))) @ cr_data r"

text \<open>A rule of at most sixteen bytes at the end of a record would not be seen.\<close>

definition rule_ok :: "clc_rule \<Rightarrow> bool" where
  "rule_ok r \<longleftrightarrow> length (cr_alpha2 r) = 2 \<and> length (cr_type r) = 2 \<and> 10 < length (cr_data r) \<and>
     length (cr_data r) < 65460"

definition rules_bytes :: "clc_rule list \<Rightarrow> u8 list" where
  "rules_bytes rs = concat (map put_rule rs)"

definition mk_clc :: "u8 list \<Rightarrow> clc_rule list \<Rightarrow> u8 list" where
  "mk_clc hdr rs = put_le32 (of_nat (16 + length (rules_bytes rs))) @ hdr @ rules_bytes rs"

definition rule_cmd :: "nat \<Rightarrow> u8 \<Rightarrow> clc_rule \<Rightarrow> clc_cmd" where
  "rule_cmd idx env_cap r = \<lparr>cc_idx = idx, cc_env = env_cap, cc_len = of_nat (76 + length (cr_data r)),
     cc_alpha2 = cr_alpha2 r, cc_type = cr_type r, cc_data = cr_data r\<rparr>"

definition rules_for :: "u8 list \<Rightarrow> clc_rule list \<Rightarrow> clc_rule list" where
  "rules_for alpha2 = filter (\<lambda>r. cr_alpha2 r = alpha2)"

text \<open>Allocations succeed and the firmware accepts every command.\<close>

definition clc_accepting :: "clc_env \<Rightarrow> bool" where
  "clc_accepting env \<longleftrightarrow> (\<forall>n. ce_msg_alloc env n) \<and> (\<forall>n c. 0 \<le> fst (ce_answer env n c))"

section \<open>Walking the rules\<close>

lemma img_get_drop:
  assumes "drop p img = xs @ ys" "p \<le> length img"
  shows "img_get img (int p) (length xs) = Some xs"
proof -
  have "length xs + length ys = length img - p" using arg_cong [OF assms(1), of length] by simp
  then show ?thesis using assms by (simp add: img_get_def)
qed

lemma put_rule_parts:
  assumes "rule_ok r"
  shows "length (put_rule r) = length (cr_data r) + 6"
    and "take 6 (put_rule r) = cr_alpha2 r @ cr_type r @ put_le16 (of_nat (length (cr_data r)))"
    and "drop 6 (put_rule r) = cr_data r"
  using assms by (simp_all add: put_rule_def rule_ok_def)

lemma le16_at: "i = length a \<Longrightarrow> le16 (a @ put_le16 w @ b) i = w"
proof -
  have "le16 (put_le16 w @ b) 0 = w"
  proof (rule bit_word_eqI)
    fix n :: nat assume n: "n < LENGTH(16)"
    have "n \<ge> 8 \<Longrightarrow> n - 8 < 8" using n by simp
    with n show "bit (le16 (put_le16 w @ b) 0) n = bit w n"
      by (auto simp: le16_def put_le16_def bit_or_iff bit_push_bit_iff bit_ucast_iff bit_drop_bit_eq)
  qed
  then show "i = length a \<Longrightarrow> le16 (a @ put_le16 w @ b) i = w"
    by (simp add: le16_def nth_append)
qed

lemma clc_rule_loop_rules:
  assumes "clc_accepting env" "list_all rule_ok rs"
    and "drop pos clc = rules_bytes rs" "pos \<le> length clc" "length clc < 2 ^ 31"
  shows "\<exists>st'. clc_rule_loop env idx env_cap alpha2 clc pos (of_nat (length (rules_bytes rs))) cnt st =
      Some (Ret (if cnt + length (rules_for alpha2 rs) = 0 then ENOENT_code else 0), st') \<and>
    cs_cmds st' = cs_cmds st @ map (rule_cmd idx env_cap) (rules_for alpha2 rs) \<and> cs_slots st' = cs_slots st"
  using assms(2-4)
proof (induction rs arbitrary: pos cnt st)
  case Nil
  then show ?case by (subst clc_rule_loop.simps) (simp add: rules_bytes_def rules_for_def)
next
  case (Cons r rs)
  define n where "n = length (cr_data r)"
  define rest where "rest = rules_bytes rs"
  have ok: "rule_ok r" and n: "10 < n" "n < 65460" using Cons.prems(1) by (simp_all add: rule_ok_def n_def)
  have total: "length (rules_bytes (r # rs)) = n + 6 + length rest"
    using put_rule_parts(1) [OF ok] by (simp add: rules_bytes_def rest_def n_def)
  have room: "pos + (n + 6 + length rest) = length clc"
    using arg_cong [OF Cons.prems(2), of length] Cons.prems(3) total by simp
  have small: "n + 6 + length rest < 2 ^ 31" using room assms(5) by simp
  have dr: "drop pos clc = (cr_alpha2 r @ cr_type r @ put_le16 (of_nat n)) @ (cr_data r @ rest)"
    using Cons.prems(2) by (simp add: rules_bytes_def put_rule_def n_def rest_def)
  define hdr where "hdr = cr_alpha2 r @ cr_type r @ put_le16 (of_nat n)"
  have hl: "length hdr = 6" using ok by (simp add: hdr_def rule_ok_def)
  have get: "img_get clc (int pos) 6 = Some hdr"
    using img_get_drop [OF dr [folded hdr_def] Cons.prems(3)] hl by simp
  have "drop (pos + 6) clc = drop 6 (drop pos clc)" by (simp add: ac_simps)
  then have dr6: "drop (pos + 6) clc = cr_data r @ rest" using dr hl by (simp add: hdr_def [symmetric])
  have get2: "img_get clc (int pos + 6) n = Some (cr_data r)"
    using img_get_drop [OF dr6] room by (simp add: n_def add.commute)
  have len: "le16 hdr 4 = of_nat n"
    using le16_at [of 4 "cr_alpha2 r @ cr_type r" "of_nat n" "[]"] ok by (simp add: hdr_def rule_ok_def)
  have u: "unat (of_nat n :: u16) = n" "unat (of_nat n + 6 :: u16) = n + 6"
    using n by (simp_all add: unsigned_of_nat unat_word_ariths take_bit_eq_mod)
  have uc: "ucast (of_nat n + 6 :: u16) = (of_nat (n + 6) :: u32)"
  proof -
    have "(ucast (of_nat n + 6 :: u16) :: u32) = of_nat (unat (of_nat n + 6 :: u16))" by simp
    then show ?thesis by (simp only: u)
  qed
  have big: "(of_nat (length (rules_bytes (r # rs))) :: u32) > 16"
  proof -
    have "unat (of_nat (n + 6 + length rest) :: u32) = n + 6 + length rest"
      using small by (simp add: unsigned_of_nat take_bit_eq_mod del: of_nat_add)
    then show ?thesis using n unfolding total word_less_nat_alt by simp
  qed
  have sub: "of_nat (length (rules_bytes (r # rs))) - ucast (of_nat n + 6 :: u16) = (of_nat (length rest) :: u32)"
    by (simp only: uc total of_nat_add) simp
  have parts: "take 2 hdr = cr_alpha2 r" "take 2 (drop 2 hdr) = cr_type r"
    using ok by (simp_all add: hdr_def rule_ok_def)
  have wrap: "\<not> 76 + unat (of_nat n :: u16) \<ge> 65536" using n by (simp add: u)
  have IH: "\<exists>st'. clc_rule_loop env idx env_cap alpha2 clc (pos + (n + 6)) (of_nat (length rest)) cnt' st0 =
      Some (Ret (if cnt' + length (rules_for alpha2 rs) = 0 then ENOENT_code else 0), st') \<and>
    cs_cmds st' = cs_cmds st0 @ map (rule_cmd idx env_cap) (rules_for alpha2 rs) \<and> cs_slots st' = cs_slots st0"
    for cnt' st0
    unfolding rest_def
  proof (rule Cons.IH)
    have "drop (pos + (n + 6)) clc = drop n (drop (pos + 6) clc)" by (simp add: ac_simps)
    then show "drop (pos + (n + 6)) clc = rules_bytes rs" using dr6 by (simp add: n_def rest_def)
  qed (use Cons.prems room in simp_all)
  define cmd where "cmd = \<lparr>cc_idx = idx, cc_env = env_cap, cc_len = 76 + of_nat n, cc_alpha2 = cr_alpha2 r,
      cc_type = cr_type r, cc_data = cr_data r\<rparr>"
  have cmd: "cmd = rule_cmd idx env_cap r" by (simp add: cmd_def rule_cmd_def n_def)
  obtain ret conf where ans: "ce_answer env (length (cs_cmds st)) cmd = (ret, conf)" "0 \<le> ret"
    using assms(1) by (metis clc_accepting_def prod.collapse)
  define st2 where "st2 = (st\<lparr>cs_cmds := cs_cmds st @ [cmd]\<rparr>)\<lparr>cs_chan_conf :=
      (case conf of None \<Rightarrow> cs_chan_conf (st\<lparr>cs_cmds := cs_cmds st @ [cmd]\<rparr>) | Some c \<Rightarrow> c)\<rparr>"
  have step: "clc_rule_loop env idx env_cap alpha2 clc pos (of_nat (length (rules_bytes (r # rs)))) cnt st =
     (if cr_alpha2 r \<noteq> alpha2
      then clc_rule_loop env idx env_cap alpha2 clc (pos + (n + 6)) (of_nat (length rest)) cnt st
      else clc_rule_loop env idx env_cap alpha2 clc (pos + (n + 6)) (of_nat (length rest)) (cnt + 1) st2)"
  proof -
    have f: "(16 < (of_nat (length (rules_bytes (r # rs))) :: u32)) = True" "(76 + n \<ge> 65536) = False"
      "(ret < 0) = False" "ce_msg_alloc env k = True" for k
      using big n ans(2) assms(1) by (simp_all add: clc_accepting_def)
    show ?thesis
      by (subst clc_rule_loop.simps)
         (simp only: f get option.case Let_def len parts u sub get2 cmd_def [symmetric] ans(1) prod.case
            not_True_eq_False if_False st2_def)
  qed
  show ?case
  proof (cases "cr_alpha2 r = alpha2")
    case False
    then show ?thesis using IH [of cnt st] by (simp add: step rules_for_def)
  next
    case True
    have "cs_cmds st2 = cs_cmds st @ [rule_cmd idx env_cap r]" "cs_slots st2 = cs_slots st"
      by (simp_all add: st2_def cmd)
    then show ?thesis using True IH [of "cnt + 1" st2] by (auto simp: step rules_for_def)
  qed
qed

section \<open>The rules of a country\<close>

type_synonym clc_record = "u8 list \<times> clc_rule list"

definition record_ok :: "clc_record \<Rightarrow> bool" where
  "record_ok x \<longleftrightarrow> length (fst x) = 12 \<and> list_all rule_ok (snd x) \<and> length (mk_clc (fst x) (snd x)) < 2 ^ 31"

definition record_bytes :: "clc_record \<Rightarrow> u8 list" where
  "record_bytes x = mk_clc (fst x) (snd x)"

lemma record_bytes_parts:
  assumes "record_ok x"
  shows "length (record_bytes x) = 16 + length (rules_bytes (snd x))"
    and "drop 16 (record_bytes x) = rules_bytes (snd x)"
    and "take 4 (record_bytes x) = put_le32 (of_nat (16 + length (rules_bytes (snd x))))"
  using assms by (simp_all add: record_ok_def record_bytes_def mk_clc_def)

lemma set_clc_slot_record:
  assumes "clc_accepting env" "record_ok x"
  shows "\<exists>st'. mt7921_mcu_set_clc_slot env alpha2 env_cap (Some (record_bytes x)) idx st =
      (Ret (if rules_for alpha2 (snd x) = [] then ENOENT_code else 0), st') \<and>
    cs_cmds st' = cs_cmds st @ map (rule_cmd idx env_cap) (rules_for alpha2 (snd x)) \<and>
    cs_slots st' = cs_slots st"
proof -
  note p = record_bytes_parts [OF assms(2)]
  have get: "img_get (record_bytes x) 0 4 = Some (put_le32 (of_nat (16 + length (rules_bytes (snd x)))))"
    using p by (simp add: img_get_def)
  have sub: "le32 (put_le32 (of_nat (16 + length (rules_bytes (snd x))))) 0 - 16 =
      (of_nat (length (rules_bytes (snd x))) :: u32)"
    using le32_put [of _ "[]"] by simp
  have "\<exists>st'. clc_rule_loop env idx env_cap alpha2 (record_bytes x) 16 (of_nat (length (rules_bytes (snd x)))) 0 st =
      Some (Ret (if 0 + length (rules_for alpha2 (snd x)) = 0 then ENOENT_code else 0), st') \<and>
    cs_cmds st' = cs_cmds st @ map (rule_cmd idx env_cap) (rules_for alpha2 (snd x)) \<and> cs_slots st' = cs_slots st"
    by (rule clc_rule_loop_rules [OF assms(1) _ p(2)])
       (use assms(2) p(1) in \<open>simp_all add: record_ok_def record_bytes_def\<close>)
  then show ?thesis
    by (auto simp: mt7921_mcu_set_clc_slot_def get sub simp del: of_nat_add)
qed

text \<open>What a slot should cause: the rules of the country, or else those of the default.\<close>

fun slot_cmds :: "u8 list \<Rightarrow> u8 \<Rightarrow> nat \<times> clc_record option \<Rightarrow> clc_cmd list" where
  "slot_cmds alpha2 env_cap (i, None) = []"
| "slot_cmds alpha2 env_cap (i, Some x) =
     (if rules_for alpha2 (snd x) \<noteq> [] then map (rule_cmd i env_cap) (rules_for alpha2 (snd x))
      else map (rule_cmd i ENVIRON_INDOOR) (rules_for alpha2_00 (snd x)))"

definition slot_ok :: "u8 list \<Rightarrow> clc_record option \<Rightarrow> bool" where
  "slot_ok alpha2 s \<longleftrightarrow> (case s of None \<Rightarrow> True
     | Some x \<Rightarrow> record_ok x \<and> (rules_for alpha2 (snd x) \<noteq> [] \<or> rules_for alpha2_00 (snd x) \<noteq> []))"

lemma set_clc_slots_records:
  assumes "clc_accepting env" "list_all (slot_ok alpha2) xs" "i + length xs = length (cs_slots st)"
    and "drop i (cs_slots st) = map (map_option record_bytes) xs"
  shows "\<exists>st'. set_clc_slots env alpha2 env_cap i (length xs) st = (Ret 0, st') \<and>
    cs_cmds st' = cs_cmds st @ concat (map (slot_cmds alpha2 env_cap) (enumerate i xs))"
  using assms(2-4)
proof (induction xs arbitrary: i st)
  case Nil
  then show ?case by simp
next
  case (Cons s xs)
  have i: "i < length (cs_slots st)" using Cons.prems(2) by simp
  have nth: "cs_slots st ! i = map_option record_bytes s" "drop (i + 1) (cs_slots st) = map (map_option record_bytes) xs"
    using Cons.prems(3) Cons_nth_drop_Suc [OF i] by simp_all
  have IH: "\<exists>st''. set_clc_slots env alpha2 env_cap (i + 1) (length xs) st' = (Ret 0, st'') \<and>
      cs_cmds st'' = cs_cmds st' @ concat (map (slot_cmds alpha2 env_cap) (enumerate (i + 1) xs))"
    if "cs_slots st' = cs_slots st" for st'
    by (rule Cons.IH) (use Cons.prems that nth(2) in simp_all)
  show ?case
  proof (cases s)
    case None
    then show ?thesis
      using IH [of st] nth(1) by (auto simp: mt7921_mcu_set_clc_slot_def ENOENT_code_def)
  next
    case (Some x)
    then have x: "record_ok x" "rules_for alpha2 (snd x) \<noteq> [] \<or> rules_for alpha2_00 (snd x) \<noteq> []"
      using Cons.prems(1) by (simp_all add: slot_ok_def)
    obtain st1 where 1: "mt7921_mcu_set_clc_slot env alpha2 env_cap (Some (record_bytes x)) i st =
        (Ret (if rules_for alpha2 (snd x) = [] then ENOENT_code else 0), st1)"
      "cs_cmds st1 = cs_cmds st @ map (rule_cmd i env_cap) (rules_for alpha2 (snd x))" "cs_slots st1 = cs_slots st"
      using set_clc_slot_record [OF assms(1) x(1)] by blast
    obtain st2 where 2: "mt7921_mcu_set_clc_slot env alpha2_00 ENVIRON_INDOOR (Some (record_bytes x)) i st1 =
        (Ret (if rules_for alpha2_00 (snd x) = [] then ENOENT_code else 0), st2)"
      "cs_cmds st2 = cs_cmds st1 @ map (rule_cmd i ENVIRON_INDOOR) (rules_for alpha2_00 (snd x))" "cs_slots st2 = cs_slots st1"
      using set_clc_slot_record [OF assms(1) x(1)] by blast
    show ?thesis
      using IH [of st1] IH [of st2] 1 2 x(2) nth(1) Some by (auto simp: ENOENT_code_def)
  qed
qed

text \<open>
  C26: Exactly the power rules of the country are sent. When the slots hold well-formed records, each
  with rules for the country or for the default ("00"), and the firmware accepts every command,
  \<open>mt7921_mcu_set_clc\<close> returns 0 and sends, slot by slot, the rules of the country in their order
  with the environment asked for, or where there are none the rules of "00" with the indoor
  environment.
\<close>

theorem country_rules_sent:
  assumes "clc_accepting env" "length xs = CLC_SLOTS" "list_all (slot_ok alpha2) xs"
    and "cs_slots st = map (map_option record_bytes) xs"
  shows "\<exists>st'. mt7921_mcu_set_clc env alpha2 env_cap st = (Ret 0, st') \<and>
    cs_cmds st' = cs_cmds st @ concat (map (slot_cmds alpha2 env_cap) (enumerate 0 xs))"
  using set_clc_slots_records [OF assms(1,3), of 0 st env_cap] assms(2,4)
  by (simp add: mt7921_mcu_set_clc_def)

section \<open>Walks that do not advance\<close>

definition record_stuck :: "u8 list \<Rightarrow> int \<Rightarrow> int \<Rightarrow> u32 \<Rightarrow> clc_st \<Rightarrow> bool" where
  "record_stuck img base len offset st \<longleftrightarrow> sint offset < len \<and>
     (\<exists>hdr. img_get img (base + sint offset) 5 = Some hdr \<and> le32 hdr 0 = 0 \<and>
        unat (hdr ! 4) < length (cs_slots st) \<and> cs_slots st ! unat (hdr ! 4) \<noteq> None)"

lemma clc_record_loop_stuck:
  assumes "record_stuck img base len offset st"
  shows "clc_record_loop env hw img base len offset st = None"
proof (rule ccontr)
  assume "clc_record_loop env hw img base len offset st \<noteq> None"
  then obtain y where "clc_record_loop env hw img base len offset st = Some y" by auto
  then have "\<not> record_stuck img base len offset st"
  proof (rule clc_record_loop.raw_induct [where P = "\<lambda>env hw img base len offset st y. \<not> record_stuck img base len offset st", rotated])
    fix loop :: "clc_env \<Rightarrow> u8 \<Rightarrow> u8 list \<Rightarrow> int \<Rightarrow> int \<Rightarrow> u32 \<Rightarrow> clc_st \<Rightarrow> (int fw_out \<times> clc_st) option"
    fix env hw img base len offset st y
    assume ih: "\<And>env hw img base len offset st y. loop env hw img base len offset st = Some y \<Longrightarrow>
        \<not> record_stuck img base len offset st"
    assume body: "(if \<not> sint offset < len then Some (Ret 0, st)
      else
        let p = base + sint offset in
        (case img_get img p 5 of
           None \<Rightarrow> Some (Oob, st)
         | Some hdr \<Rightarrow>
             let idx = unat (hdr ! 4); clc_len = le32 hdr 0; next_off = offset + clc_len in
             if length (cs_slots st) \<le> idx then Some (Oob, st)
             else if cs_slots st ! idx \<noteq> None then loop env hw img base len next_off st
             else
               (case (if idx = 0 then img_get img (p + 7) 1 else Some [hw]) of
                  None \<Rightarrow> Some (Oob, st)
                | Some type \<Rightarrow>
                    if idx = 0 \<and> type ! 0 AND 1 \<noteq> hw
                    then loop env hw img base len next_off st
                    else if \<not> ce_dup env idx then Some (Ret ENOMEM_code, st)
                    else
                      (case img_get img p (unat clc_len) of
                         None \<Rightarrow> Some (Oob, st)
                       | Some blob \<Rightarrow>
                           loop env hw img base len next_off
                             (st\<lparr>cs_slots := (cs_slots st)[idx := Some blob]\<rparr>))))) = Some y"
    show "\<not> record_stuck img base len offset st"
    proof
      assume stuck: "record_stuck img base len offset st"
      then have "loop env hw img base len offset st = Some y"
        using body by (auto simp: record_stuck_def Let_def)
      with ih stuck show False by blast
    qed
  qed
  with assms show False by simp
qed

text \<open>
  C27: A record of length 0 hangs the load. The length of a record is not checked: when the walk over
  the records stands at one that says 0, with its slot in range and what the copy needs at hand, it
  never ends.
\<close>

theorem clc_zero_length_hangs:
  assumes "sint offset < len" "img_get img (base + sint offset) 5 = Some hdr" "le32 hdr 0 = 0"
    and "0 < unat (hdr ! 4)" "unat (hdr ! 4) < length (cs_slots st)" "ce_dup env (unat (hdr ! 4))"
  shows "clc_record_loop env hw img base len offset st = None"
proof (cases "cs_slots st ! unat (hdr ! 4)")
  case (Some x)
  then show ?thesis using assms by (intro clc_record_loop_stuck) (auto simp: record_stuck_def)
next
  case None
  have get: "img_get img (base + sint offset) 0 = Some []"
    using assms(2) by (auto simp: img_get_def split: if_splits)
  have "clc_record_loop env hw img base len offset st =
      clc_record_loop env hw img base len offset (st\<lparr>cs_slots := (cs_slots st)[unat (hdr ! 4) := Some []]\<rparr>)"
    using assms None by (subst clc_record_loop.simps) (simp add: get Let_def)
  then show ?thesis using assms by (simp add: clc_record_loop_stuck record_stuck_def)
qed

section \<open>Instances\<close>

definition demo_clc_env :: clc_env where
  "demo_clc_env = \<lparr>ce_msg_alloc = (\<lambda>n. True), ce_dup = (\<lambda>n. True), ce_answer = (\<lambda>n c. (0, None)),
     ce_eeprom = Inr 0, ce_disabled = False\<rparr>"

definition demo_clc_st :: "u8 list option list \<Rightarrow> clc_st" where
  "demo_clc_st xs = \<lparr>cs_slots = xs, cs_cmds = [], cs_chan_conf = 0, cs_held = 0\<rparr>"

definition demo_rule :: "u8 list \<Rightarrow> clc_rule" where
  "demo_rule a = \<lparr>cr_alpha2 = a, cr_type = [1, 2], cr_data = replicate 12 7\<rparr>"

definition demo_record :: clc_record where
  "demo_record = (replicate 12 0, [demo_rule [0x44, 0x45], demo_rule alpha2_00])"

theorem country_rules_sent_witness:
  "\<exists>st'. mt7921_mcu_set_clc demo_clc_env [0x44, 0x45] 2 (demo_clc_st [None, Some (record_bytes demo_record), None]) =
     (Ret 0, st') \<and> cs_cmds st' = [rule_cmd 1 2 (demo_rule [0x44, 0x45])]"
proof -
  have ok: "rule_ok (demo_rule [a, b])" for a b by (simp add: rule_ok_def demo_rule_def)
  have rules: "rules_for [0x44, 0x45] (snd demo_record) = [demo_rule [0x44, 0x45]]"
    by (simp add: demo_record_def rules_for_def demo_rule_def alpha2_00_def)
  have "slot_ok [0x44, 0x45] (Some demo_record)"
    using ok rules
    by (simp add: slot_ok_def record_ok_def demo_record_def mk_clc_def rules_bytes_def put_rule_def demo_rule_def alpha2_00_def)
  then show ?thesis
    using country_rules_sent [of demo_clc_env "[None, Some demo_record, None]" "[0x44, 0x45]"
        "demo_clc_st [None, Some (record_bytes demo_record), None]" 2] rules
    by (simp add: clc_accepting_def demo_clc_env_def CLC_SLOTS_def demo_clc_st_def slot_ok_def)
qed

definition zero_record_image :: "u8 list" where
  "zero_record_image = mk_ram [0, 0] (replicate 33 0)
     [\<lparr>rg_addr = 0, rg_features = 0x40, rg_type = 2, rg_data = [0, 0, 0, 0, 1, 0, 0, 0]\<rparr>]"

theorem clc_zero_length_hangs_witness:
  "fst (mt7921_load_clc demo_clc_env (\<lambda>_. Inr zero_record_image) demo_fw_dev ''ram'' (demo_clc_st [None, None, None])) = Hang"
proof -
  define st where "st = (demo_clc_st [None, None, None])\<lparr>cs_chan_conf := 0xff, cs_held := 1\<rparr>"
  have st: "((demo_clc_st [None, None, None])\<lparr>cs_chan_conf := 0xff\<rparr>)\<lparr>cs_held :=
      cs_held ((demo_clc_st [None, None, None])\<lparr>cs_chan_conf := 0xff\<rparr>) + 1\<rparr> = st"
    by (simp add: st_def demo_clc_st_def)
  have img: "\<not> length zero_record_image < 36" "unat (zero_record_image ! (length zero_record_image - 36 + 2)) = 1"
    "clc_region_loop zero_record_image 1 0 = Ret (Inr (Some (0, 8)))"
    "img_get zero_record_image 0 5 = Some [0, 0, 0, 0, 1]" "le32 [0, 0, 0, 0, 1] 0 = 0"
    by code_simp+
  have "clc_record_loop demo_clc_env 0 zero_record_image 0 8 0 st = None"
    by (rule clc_zero_length_hangs [where hdr = "[0, 0, 0, 0, 1]"])
       (use img in \<open>simp_all add: st_def demo_clc_st_def demo_clc_env_def\<close>)
  moreover have "ce_disabled demo_clc_env = False" "fd_usb demo_fw_dev = False" "fd_mmio demo_fw_dev = True"
    "ce_eeprom demo_clc_env = Inr 0" by (simp_all add: demo_clc_env_def demo_fw_dev_def)
  ultimately show ?thesis
    unfolding mt7921_load_clc_def Let_def by (simp add: st [simplified] load_clc_image_def img [simplified])
qed

end
