(* ===== verification/McuCodec.thy ===== *)
theory McuCodec
  imports McuMsg
begin

text \<open>
  The format of firmware messages: \<open>mt76_connac2_mcu_fill_message\<close> of
  src/src/mt76/mt76_connac_mcu.c, and of src/src/mt76/mt7921/mcu.c \<open>mt7921_mcu_parse_response\<close>, the
  dispatch of \<open>mt7921_mcu_rx_event\<close> and the capabilities read by
  \<open>mt7921_mcu_get_nic_capability\<close>. A message is the list of its bytes. The exchange of McuMsg is
  used with this parser, so that its theorems speak of real responses.
\<close>

section \<open>Commands\<close>

text \<open>The bits of a command word: number, extended number, and flags.\<close>

definition CMD_ID :: "u32 \<Rightarrow> u8" where "CMD_ID cmd = ucast (FIELD_GET 7 0 cmd)"
definition CMD_EXT_ID :: "u32 \<Rightarrow> u8" where "CMD_EXT_ID cmd = ucast (FIELD_GET 15 8 cmd)"
definition CMD_QUERY :: "u32 \<Rightarrow> bool" where "CMD_QUERY cmd = bit cmd 16"
definition CMD_UNI :: "u32 \<Rightarrow> bool" where "CMD_UNI cmd = bit cmd 17"
definition CMD_CE :: "u32 \<Rightarrow> bool" where "CMD_CE cmd = bit cmd 18"
definition CMD_WA :: "u32 \<Rightarrow> bool" where "CMD_WA cmd = bit cmd 19"

definition MCU_CMD :: "u32 \<Rightarrow> u32" where "MCU_CMD t = FIELD_PREP 7 0 t"
definition MCU_EXT_CMD :: "u32 \<Rightarrow> u32" where "MCU_EXT_CMD t = MCU_CMD 0xed OR FIELD_PREP 15 8 t"
definition MCU_UNI_CMD :: "u32 \<Rightarrow> u32" where "MCU_UNI_CMD t = BIT 17 OR FIELD_PREP 7 0 t"
definition MCU_CE_CMD :: "u32 \<Rightarrow> u32" where "MCU_CE_CMD t = BIT 18 OR FIELD_PREP 7 0 t"
definition MCU_CE_QUERY :: "u32 \<Rightarrow> u32" where "MCU_CE_QUERY t = MCU_CE_CMD t OR BIT 16"

definition FW_SCATTER :: u32 where "FW_SCATTER = MCU_CMD 0xee"

section \<open>Building a message\<close>

text \<open>The sequence number: the low four bits of the counter, which skips zero.\<close>

definition next_seq :: "u32 \<Rightarrow> u8 \<times> u32" where
  "next_seq msg_seq =
     (let m = msg_seq + 1; seq = ucast (m AND 0xf) in
      if seq = 0 then let m = m + 1 in (ucast (m AND 0xf), m) else (seq, m))"

definition mcu_txd0 :: "nat \<Rightarrow> u32" where
  "mcu_txd0 len = FIELD_PREP 15 0 (of_nat len) OR FIELD_PREP 24 23 2 OR FIELD_PREP 31 25 0x20"

definition mcu_txd1 :: u32 where
  "mcu_txd1 = BIT 31 OR FIELD_PREP 17 16 1"

definition mcu_uni_header :: "u32 \<Rightarrow> u8 \<Rightarrow> nat \<Rightarrow> u8 list" where
  "mcu_uni_header cmd seq len =
     put_le32 (mcu_txd0 len) @ put_le32 mcu_txd1 @ replicate 24 0 @
     put_le16 (of_nat (len - 32)) @ put_le16 (ucast (CMD_ID cmd)) @ [0, 0xa0, 0, seq] @
     [0, 0, 0, 0x07] @ replicate 4 0"

definition mcu_set_query :: "u32 \<Rightarrow> u8" where
  "mcu_set_query cmd = (if CMD_EXT_ID cmd \<noteq> 0 \<or> CMD_CE cmd then (if CMD_QUERY cmd then 0 else 1) else 3)"

definition mcu_header :: "u32 \<Rightarrow> u8 \<Rightarrow> nat \<Rightarrow> u8 list" where
  "mcu_header cmd seq len =
     put_le32 (mcu_txd0 len) @ put_le32 mcu_txd1 @ replicate 24 0 @
     put_le16 (of_nat (len - 32)) @ put_le16 0x8000 @ [CMD_ID cmd, 0xa0, mcu_set_query cmd, seq] @
     [0, CMD_EXT_ID cmd, if CMD_WA cmd then 2 else 0, if CMD_EXT_ID cmd \<noteq> 0 then 1 else 0] @ replicate 20 0"

text \<open>
  The message with its header, in front of the payload, and the counter after it. The headroom is
  cleared by the allocation, so fields that are not set are 0.
\<close>

definition mt76_connac2_mcu_fill_message :: "u32 \<Rightarrow> u8 list \<Rightarrow> u32 \<Rightarrow> u8 list \<times> u8 \<times> u32" where
  "mt76_connac2_mcu_fill_message cmd payload msg_seq =
     (let (seq, msg_seq) = next_seq msg_seq in
      if cmd = FW_SCATTER then (payload, seq, msg_seq)
      else if CMD_UNI cmd
      then (mcu_uni_header cmd seq (48 + length payload) @ payload, seq, msg_seq)
      else (mcu_header cmd seq (64 + length payload) @ payload, seq, msg_seq))"

section \<open>Responses\<close>

text \<open>A response has a header of 36 bytes, the event and the sequence number at 28 and 29.\<close>

definition rxd_eid :: "u8 list \<Rightarrow> u8" where "rxd_eid r = r ! 28"
definition rxd_seq :: "u8 list \<Rightarrow> u8" where "rxd_seq r = r ! 29"
definition rxd_option :: "u8 list \<Rightarrow> u8" where "rxd_option r = r ! 30"
definition rxd_ext_eid :: "u8 list \<Rightarrow> u8" where "rxd_ext_eid r = r ! 32"

definition uni_event_cmds :: "u32 list" where
  "uni_event_cmds = map MCU_UNI_CMD [0x01, 0x02, 0x03, 0x07, 0x06, 0x05]"

text \<open>
  The return value, and how far the response is pulled. \<open>None\<close> is a time-out, after which the
  device is reset.
\<close>

definition mt7921_mcu_parse_response :: "u32 \<Rightarrow> u8 list option \<Rightarrow> nat \<Rightarrow> int \<times> nat" where
  "mt7921_mcu_parse_response cmd skb seq =
     (case skb of
        None \<Rightarrow> (- 110, 0)
      | Some r \<Rightarrow>
          if seq \<noteq> unat (rxd_seq r) then (- E_AGAIN, 0)
          else if cmd = MCU_CMD 0x10 \<or> cmd = MCU_CMD 0x07 then (uint (r ! 32), 32)
          else if cmd = MCU_EXT_CMD 0x2c then (sint (le32 r 40), 40)
          else if cmd \<in> set uni_event_cmds
          then (if CMD_ID cmd \<noteq> r ! 36 then - E_AGAIN else sint (le32 r 40), 36)
          else if cmd = MCU_CE_QUERY 0xc0 then (sint (le32 r 40), 36)
          else if cmd = MCU_EXT_CMD 0xbd then (uint (r ! 36), 36)
          else (0, 36))"

datatype mcu_dispatch = Ev_uni_roc | Ev_uni_other | Ev_response | Ev_beacon_loss | Ev_scan_done
  | Ev_debug | Ev_coredump | Ev_low_power | Ev_tx_done | Ev_rssi | Ev_other

definition mt7921_mcu_rx_unsolicited_event :: "u8 list \<Rightarrow> mcu_dispatch" where
  "mt7921_mcu_rx_unsolicited_event r =
     (let e = rxd_eid r in
      if e = 0x13 then Ev_beacon_loss else if e = 0x23 \<or> e = 0x0d then Ev_scan_done
      else if e = 0x27 then Ev_debug else if e = 0xf0 then Ev_coredump else if e = 0x07 then Ev_low_power
      else if e = 0x0f then Ev_tx_done else if e = 0x96 then Ev_rssi else Ev_other)"

definition mt7921_mcu_uni_rx_unsolicited_event :: "u8 list \<Rightarrow> mcu_dispatch" where
  "mt7921_mcu_uni_rx_unsolicited_event r = (if rxd_eid r = 0x27 then Ev_uni_roc else Ev_uni_other)"

definition mt7921_mcu_rx_event :: "u8 list \<Rightarrow> mcu_dispatch" where
  "mt7921_mcu_rx_event r =
     (if bit (rxd_option r) 2 then mt7921_mcu_uni_rx_unsolicited_event r
      else if rxd_eid r = 0x6 then Ev_response
      else if rxd_ext_eid r = 0x87 \<or> rxd_eid r \<in> {0x13, 0x23, 0x96, 0x0d, 0x0f, 0x27, 0xf0, 0x07} \<or>
        rxd_seq r = 0
      then mt7921_mcu_rx_unsolicited_event r
      else Ev_response)"

section \<open>Capabilities\<close>

record nic_caps =
  nc_6ghz :: bool
  nc_2ghz :: bool
  nc_5ghz :: bool
  nc_macaddr :: "u8 list"
  nc_antenna_mask :: u8
  nc_chip_cap :: "u8 list"

definition mt7921_mcu_parse_phy_cap :: "u8 list \<Rightarrow> nat \<Rightarrow> nic_caps \<Rightarrow> nic_caps" where
  "mt7921_mcu_parse_phy_cap buf p c =
     c\<lparr>nc_antenna_mask := push_bit (unat (buf ! (p + 4))) 1 - 1, nc_2ghz := bit (buf ! (p + 10)) 0,
       nc_5ghz := bit (buf ! (p + 10)) 1\<rparr>"

definition nic_cap_apply :: "u32 \<Rightarrow> u8 list \<Rightarrow> nat \<Rightarrow> nic_caps \<Rightarrow> nic_caps" where
  "nic_cap_apply type buf p c =
     (if type = 0x18 then c\<lparr>nc_6ghz := buf ! p \<noteq> 0\<rparr>
      else if type = 7 then c\<lparr>nc_macaddr := take 6 (drop p buf)\<rparr>
      else if type = 8 then mt7921_mcu_parse_phy_cap buf p c
      else if type = 0x20 then c\<lparr>nc_chip_cap := take 8 (drop p buf)\<rparr>
      else c)"

text \<open>
  The elements: \<open>p\<close> is the place in the buffer, \<open>len\<close> what is left of the response; behind the
  response the buffer goes on. SDIO devices also read their transmit quota (not modelled).
\<close>

fun nic_cap_loop :: "nat \<Rightarrow> u8 list \<Rightarrow> nat \<Rightarrow> nat \<Rightarrow> nic_caps \<Rightarrow> nic_caps" where
  "nic_cap_loop 0 buf p len c = c"
| "nic_cap_loop (Suc n) buf p len c =
     (if len < 8 then c
      else let tlv_len = unat (le32 buf (p + 4)) in
           if len - 8 < tlv_len then c
           else nic_cap_loop n buf (p + 8 + tlv_len) (len - 8 - tlv_len)
                  (nic_cap_apply (le32 buf p) buf (p + 8) c))"

definition mt7921_mcu_get_nic_capability :: "u8 list \<Rightarrow> nat \<Rightarrow> nic_caps \<Rightarrow> nic_caps res" where
  "mt7921_mcu_get_nic_capability buf len c =
     (if len < 4 then Inl EINVAL
      else Inr (nic_cap_loop (unat (le16 buf 0)) buf 4 (len - 4) c))"

section \<open>Sequence numbers\<close>

text \<open>The numbers of the next messages.\<close>

fun seqs :: "nat \<Rightarrow> u32 \<Rightarrow> u8 list" where
  "seqs 0 m = []"
| "seqs (Suc n) m = fst (next_seq m) # seqs n (snd (next_seq m))"

lemma fill_message_seq:
  "fst (snd (mt76_connac2_mcu_fill_message cmd payload m)) = fst (next_seq m)"
  "snd (snd (mt76_connac2_mcu_fill_message cmd payload m)) = snd (next_seq m)"
  by (simp_all add: mt76_connac2_mcu_fill_message_def Let_def case_prod_beta)

end
