(* ===== verification/McuCodecProps.thy ===== *)
theory McuCodecProps
  imports McuCodec
begin

text \<open>
  Properties of the message format: the numbers of successive messages, what the header says of the
  message, and that a command of McuMsg only accepts a response with the number of one of its sends
  when \<open>mt7921_mcu_parse_response\<close> is the parser.
\<close>

section \<open>Sequence numbers\<close>

text \<open>The number after \<open>k\<close>, in natural numbers.\<close>

definition seq_after :: "nat \<Rightarrow> nat" where
  "seq_after k = (let j = (k + 1) mod 16 in if j = 0 then 1 else j)"

fun seqs_after :: "nat \<Rightarrow> nat \<Rightarrow> nat list" where
  "seqs_after 0 k = []"
| "seqs_after (Suc n) k = seq_after k # seqs_after n (seq_after k)"

lemma unat_low_nibble: "unat ((m::u32) AND 0xf) = unat m mod 16"
proof -
  have "m AND 0xf = take_bit 4 m" by (simp add: take_bit_eq_mask mask_eq_exp_minus_1)
  then show ?thesis by (simp only: unsigned_take_bit_eq) (simp add: take_bit_eq_mod)
qed

lemma unat_inc_low: "unat ((m::u32) + 1) mod 16 = (unat m mod 16 + 1) mod 16"
  by (simp add: unat_word_ariths mod_mod_cancel mod_Suc_eq)

lemma unat_low_byte: "unat (ucast ((m::u32) AND 0xf) :: u8) = unat m mod 16"
  by (simp add: unat_low_nibble unsigned_ucast_eq take_bit_eq_mod)

lemma low_byte_0: "(ucast ((m::u32) AND 0xf) :: u8) = 0 \<longleftrightarrow> unat m mod 16 = 0"
  by (metis unat_low_byte unsigned_eq_0_iff)

lemma next_seq_steps:
  "next_seq m = (if unat (m + 1) mod 16 = 0 then (ucast ((m + 1 + 1) AND 0xf), m + 1 + 1)
     else (ucast ((m + 1) AND 0xf), m + 1))"
  by (simp only: next_seq_def Let_def low_byte_0 if_distrib [of fst])

lemma next_seq_nat:
  "unat (fst (next_seq m)) = seq_after (unat m mod 16)"
  "unat (snd (next_seq m)) mod 16 = seq_after (unat m mod 16)"
proof -
  obtain n where n: "n = m + 1" by blast
  have inc: "unat n mod 16 = (unat m mod 16 + 1) mod 16" unfolding n by (rule unat_inc_low)
  have steps: "next_seq m = (if unat n mod 16 = 0 then (ucast ((n + 1) AND 0xf), n + 1) else (ucast (n AND 0xf), n))"
    unfolding n by (rule next_seq_steps)
  have two: "unat (n + 1) mod 16 = 1" if "unat n mod 16 = 0"
    using that unat_inc_low [of n] by simp
  have after: "seq_after (unat m mod 16) = (if unat n mod 16 = 0 then 1 else unat n mod 16)"
    by (simp only: seq_after_def Let_def inc)
  show "unat (fst (next_seq m)) = seq_after (unat m mod 16)"
    by (cases "unat n mod 16 = 0") (simp_all only: steps after two unat_low_byte fst_conv if_True if_False simp_thms)
  show "unat (snd (next_seq m)) mod 16 = seq_after (unat m mod 16)"
    by (cases "unat n mod 16 = 0") (simp_all only: steps after two snd_conv if_True if_False simp_thms)
qed

lemma seqs_nat: "map unat (seqs n m) = seqs_after n (unat m mod 16)"
  by (induction n arbitrary: m) (simp_all add: next_seq_nat)

lemma seq_after_mod: "k < 16 \<Longrightarrow> seq_after k = k mod 15 + 1"
  unfolding seq_after_def Let_def by (cases "k = 15") simp_all

lemma seq_after_bounds: "0 < seq_after k" "seq_after k < 16"
  by (simp_all add: seq_after_def Let_def)

lemma seqs_after_map:
  "k < 16 \<Longrightarrow> seqs_after n k = map (\<lambda>i. (k + i) mod 15 + 1) [0..<n]"
proof (induction n arbitrary: k)
  case 0
  then show ?case by simp
next
  case (Suc n)
  have "map (\<lambda>i. (seq_after k + i) mod 15 + 1) [0..<n] = map (\<lambda>i. (k + Suc i) mod 15 + 1) [0..<n]"
    by (rule map_cong [OF refl])
      (simp only: seq_after_mod [OF Suc.prems] mod_add_left_eq add.assoc flip: Suc_eq_plus1_left)
  moreover have "seqs_after n (seq_after k) = map (\<lambda>i. (seq_after k + i) mod 15 + 1) [0..<n]"
    by (rule Suc.IH [OF seq_after_bounds(2)])
  moreover have "map f [0..<Suc n] = f 0 # map (\<lambda>i. f (Suc i)) [0..<n]" for f :: "nat \<Rightarrow> nat"
    by (simp only: map_upt_Suc)
  ultimately show ?case by (simp only: seqs_after.simps seq_after_mod [OF Suc.prems] add_0_right)
qed

lemma seqs_after_distinct:
  assumes "k < 16" shows "distinct (seqs_after 15 k)"
proof -
  have "inj_on (\<lambda>i. (k + i) mod 15 + 1) {0..<15}"
  proof (rule inj_onI)
    fix i j
    assume *: "i \<in> {0..<15}" "j \<in> {0..<15}" "(k + i) mod 15 + 1 = (k + j) mod 15 + 1"
    then obtain p q where "k + i + 15 * p = k + j + 15 * q"
      unfolding add_right_cancel nat_mod_eq_iff by blast
    then have "(i + 15 * p) mod 15 = (j + 15 * q) mod 15" by (simp only: add.assoc add_left_cancel)
    with *(1,2) show "i = j" by simp
  qed
  then show ?thesis by (simp only: seqs_after_map [OF assms] distinct_map distinct_upt set_upt simp_thms)
qed

lemma seqs_after_range: "q \<in> set (seqs_after n k) \<Longrightarrow> 0 < q \<and> q < 16"
  by (induction n arbitrary: k) (auto simp: seq_after_bounds)

text \<open>
  The sequence numbers of any fifteen successive commands are different from each other and
  none is zero, the number of an unsolicited event, whatever the value of the counter, also when it
  wraps: a late response to one of the last fourteen commands is never taken for the answer of the
  current one.
\<close>

theorem command_numbers_distinct:
  "distinct (seqs 15 m) \<and> 0 \<notin> set (seqs 15 m) \<and> list_all (\<lambda>q. q < 16) (seqs 15 m)"
proof -
  have "distinct (map unat (seqs 15 m))"
    unfolding seqs_nat by (rule seqs_after_distinct) simp
  moreover have "0 < unat q \<and> unat q < 16" if "q \<in> set (seqs 15 m)" for q
    using that by (intro seqs_after_range [of _ 15 "unat m mod 16"]) (simp flip: seqs_nat)
  ultimately show ?thesis
    by (simp add: list_all_iff distinct_map word_less_nat_alt) force
qed

section \<open>What a header says\<close>

lemma length_mcu_header [simp]: "length (mcu_header cmd seq len) = 64"
  by (simp add: mcu_header_def length_put)

lemma length_mcu_uni_header [simp]: "length (mcu_uni_header cmd seq len) = 48"
  by (simp add: mcu_uni_header_def length_put)

lemma mcu_txd0_len: "len < 65536 \<Longrightarrow> FIELD_GET 15 0 (mcu_txd0 len) = of_nat len"
  by (simp add: mcu_txd0_def FIELD_GET_PREP bitfield take_bit_of_nat take_bit_nat_eq_self)

lemma mcu_header_fields:
  fixes cmd :: u32 and seq :: u8 and payload :: "u8 list"
  assumes "len < 65536" "64 \<le> len"
  defines "msg \<equiv> mcu_header cmd seq len @ payload"
  shows "FIELD_GET 15 0 (le32 msg 0) = of_nat len" "unat (le16 msg 32) = len - 32" "msg ! 36 = CMD_ID cmd"
    "msg ! 38 = mcu_set_query cmd" "msg ! 39 = seq" "msg ! 41 = CMD_EXT_ID cmd" "drop 64 msg = payload"
proof -
  show "FIELD_GET 15 0 (le32 msg 0) = of_nat len"
    by (simp only: msg_def mcu_header_def append.assoc le32_put mcu_txd0_len [OF assms(1)])
  have "le16 msg 32 = of_nat (len - 32)"
    unfolding msg_def mcu_header_def append.assoc
    by (subst append.assoc [symmetric], subst append.assoc [symmetric], subst le16_append [of 32])
      (simp_all add: le16_put)
  then show "unat (le16 msg 32) = len - 32"
    using assms(1) by (simp add: unsigned_of_nat take_bit_nat_eq_self del: of_nat_diff)
  show "msg ! 36 = CMD_ID cmd" "msg ! 38 = mcu_set_query cmd" "msg ! 39 = seq" "msg ! 41 = CMD_EXT_ID cmd"
    by (simp_all add: msg_def mcu_header_def nth_append nth_Cons')
  show "drop 64 msg = payload" by (simp add: msg_def)
qed

lemma mcu_uni_header_fields:
  fixes cmd :: u32 and seq :: u8 and payload :: "u8 list"
  assumes "len < 65536" "48 \<le> len"
  defines "msg \<equiv> mcu_uni_header cmd seq len @ payload"
  shows "FIELD_GET 15 0 (le32 msg 0) = of_nat len" "unat (le16 msg 32) = len - 32"
    "le16 msg 34 = ucast (CMD_ID cmd)" "msg ! 39 = seq" "drop 48 msg = payload"
proof -
  show "FIELD_GET 15 0 (le32 msg 0) = of_nat len"
    by (simp only: msg_def mcu_uni_header_def append.assoc le32_put mcu_txd0_len [OF assms(1)])
  have "le16 msg 32 = of_nat (len - 32)"
    unfolding msg_def mcu_uni_header_def append.assoc
    by (subst append.assoc [symmetric], subst append.assoc [symmetric], subst le16_append [of 32])
      (simp_all add: le16_put)
  then show "unat (le16 msg 32) = len - 32"
    using assms(1) by (simp add: unsigned_of_nat take_bit_nat_eq_self del: of_nat_diff)
  show "le16 msg 34 = ucast (CMD_ID cmd)"
    unfolding msg_def mcu_uni_header_def append.assoc
    by (subst append.assoc [symmetric], subst append.assoc [symmetric], subst append.assoc [symmetric],
        subst le16_append [of 34]) (simp_all add: le16_put)
  show "msg ! 39 = seq"
    by (simp_all add: msg_def mcu_uni_header_def nth_append nth_Cons')
  show "drop 48 msg = payload" by (simp add: msg_def)
qed

text \<open>
  The firmware reads from the header of a command message what was sent: the length field of the
  descriptor is the length of the whole message, the length field of the header is that of
  everything behind the 32-byte descriptor, the command number, whether it asks or sets, the
  extended number and the sequence number are those of the command, and the payload follows
  unchanged. This holds for both header formats while the message is shorter than 64 KiB.
\<close>

theorem message_header_roundtrip:
  assumes "mt76_connac2_mcu_fill_message cmd payload m = (msg, seq, m')" "cmd \<noteq> FW_SCATTER"
    and "length payload < 65536 - 64"
  shows "FIELD_GET 15 0 (le32 msg 0) = of_nat (length msg) \<and> unat (le16 msg 32) = length msg - 32
    \<and> msg ! 39 = fst (next_seq m) \<and> seq = fst (next_seq m)
    \<and> (if CMD_UNI cmd then le16 msg 34 = ucast (CMD_ID cmd) \<and> drop 48 msg = payload
       else msg ! 36 = CMD_ID cmd \<and> msg ! 38 = mcu_set_query cmd \<and> msg ! 41 = CMD_EXT_ID cmd
         \<and> drop 64 msg = payload)"
proof -
  have seq: "seq = fst (next_seq m)"
    using fill_message_seq(1) [of cmd payload m] assms(1) by simp
  show ?thesis
  proof (cases "CMD_UNI cmd")
    case True
    then have "msg = mcu_uni_header cmd seq (48 + length payload) @ payload"
      using assms(1,2) seq by (simp add: mt76_connac2_mcu_fill_message_def case_prod_beta)
    with True seq show ?thesis
      using mcu_uni_header_fields [of "48 + length payload" cmd seq payload] assms(3) by simp
  next
    case False
    then have "msg = mcu_header cmd seq (64 + length payload) @ payload"
      using assms(1,2) seq by (simp add: mt76_connac2_mcu_fill_message_def case_prod_beta)
    with False seq show ?thesis
      using mcu_header_fields [of "64 + length payload" cmd seq payload] assms(3) by simp
  qed
qed

lemma message_header_roundtrip_witness:
  "\<exists>msg. mt76_connac2_mcu_fill_message (MCU_EXT_CMD 0x2c) [1, 2] 7 = (msg, 8, 8)
     \<and> unat (le16 msg 32) = 34 \<and> msg ! 39 = 8 \<and> drop 64 msg = [1, 2]"
proof -
  define r where "r = mt76_connac2_mcu_fill_message (MCU_EXT_CMD 0x2c) [1, 2] 7"
  have cmd: "MCU_EXT_CMD 0x2c \<noteq> FW_SCATTER" "\<not> CMD_UNI (MCU_EXT_CMD 0x2c)" by code_simp+
  have seq: "next_seq 7 = (8, 8)" by code_simp
  have len: "length (fst r) = 66"
    using cmd by (simp add: r_def mt76_connac2_mcu_fill_message_def seq)
  have r: "r = (fst r, 8, 8)"
    using fill_message_seq [of "MCU_EXT_CMD 0x2c" "[1, 2]" 7] by (simp add: r_def seq prod_eq_iff)
  show ?thesis
    using message_header_roundtrip [OF r [unfolded r_def] cmd(1)] cmd(2) len r
    by (intro exI [of _ "fst r"]) (simp add: r_def seq)
qed

section \<open>Responses and commands\<close>

text \<open>The exchange of McuMsg with the parser of this device.\<close>

definition mt7921_mcu_env :: "u32 \<Rightarrow> u8 list mcu_env \<Rightarrow> u8 list mcu_env" where
  "mt7921_mcu_env cmd env = env\<lparr>me_parse := \<lambda>r seq. fst (mt7921_mcu_parse_response cmd r seq)\<rparr>"

lemma parse_response_seq:
  "fst (mt7921_mcu_parse_response cmd (Some r) seq) = 0 \<Longrightarrow> seq = unat (rxd_seq r)"
  "fst (mt7921_mcu_parse_response cmd None seq) = - 110"
  by (auto simp: mt7921_mcu_parse_response_def E_AGAIN_def split: if_splits)

text \<open>A response that is handed over has passed the parser with the number of the last send.\<close>

lemma mcu_loop_accepts:
  "mcu_attempt n env wr want orig retry s = Some (ret, Some r, s') \<Longrightarrow>
    ret = 0 \<and> me_parse env (Some r) (snd (me_send env (mc_sends s' - 1))) = 0 \<and> mc_sends s < mc_sends s'"
  "mcu_wait n env want orig retry seq s = Some (ret, Some r, s') \<Longrightarrow>
    0 < mc_sends s \<Longrightarrow> seq = snd (me_send env (mc_sends s - 1)) \<Longrightarrow>
    ret = 0 \<and> me_parse env (Some r) (snd (me_send env (mc_sends s' - 1))) = 0 \<and> mc_sends s \<le> mc_sends s'"
proof (induction n env wr want orig retry s and n env want orig retry seq s
    arbitrary: ret r s' and ret r s' rule: mcu_attempt_mcu_wait.induct)
  case (1 env wr want orig retry s)
  then show ?case by simp
next
  case (2 n env wr want orig retry s)
  define s1 where "s1 = (if orig then s\<lparr>mc_refs := mc_refs s + 1\<rparr> else s)"
  define s2 where "s2 = s1\<lparr>mc_sends := mc_sends s1 + 1, mc_refs := mc_refs s1 - 1\<rparr>"
  obtain e seq where e: "me_send env (mc_sends s1) = (e, seq)" by (cases "me_send env (mc_sends s1)")
  have run: "(if e < 0 then Some (e, None, s2) else if \<not> wr then Some (0, None, s2)
      else mcu_wait n env want orig retry seq s2) = Some (ret, Some r, s')"
    using "2.prems" mcu_attempt_Suc [OF s1_def e [symmetric] s2_def] by simp
  have sends: "mc_sends s2 = mc_sends s + 1" "seq = snd (me_send env (mc_sends s2 - 1))"
    using e by (simp_all add: s2_def s1_def split: if_splits)
  have go: "\<not> e < 0" "\<not> \<not> wr" and w: "mcu_wait n env want orig retry seq s2 = Some (ret, Some r, s')"
    using run by (auto split: if_splits)
  have "0 < mc_sends s2" using sends(1) by simp
  from "2.IH" [OF s1_def refl e [symmetric] s2_def go w this sends(2)] sends(1)
  show ?case by simp
next
  case (3 env want orig retry seq s)
  then show ?case by simp
next
  case (4 n env want orig retry seq s)
  obtain k s1 where g: "mt76_mcu_get_response env s = (k, s1)" by (cases "mt76_mcu_get_response env s")
  have same: "mc_sends s1 = mc_sends s"
    using g by (auto simp: mt76_mcu_get_response_def Let_def fold_rx_event split: mcu_waited.splits list.splits)
  let ?again = "k = None \<and> \<not> me_reset env (mc_waits s) \<and> orig \<and> retry < me_max_retry env"
  show ?case
  proof (cases ?again)
    case True
    then have "mcu_attempt n env True want orig (retry + 1) s1 = Some (ret, Some r, s')"
      using "4.prems"(1) g by (simp add: Let_def)
    from "4.IH"(1) [OF refl g [symmetric] refl True this] same show ?thesis by simp
  next
    case False
    define p where "p = me_parse env k seq"
    have run: "(if p = 0 \<and> want then Some (p, k, s1)
        else if p = - E_AGAIN then mcu_wait n env want orig retry seq (kfree_response k s1)
        else Some (p, None, kfree_response k s1)) = Some (ret, Some r, s')"
      using "4.prems"(1) False g by (auto simp: Let_def p_def split: if_splits)
    show ?thesis
    proof (cases "p = 0 \<and> want")
      case True
      then show ?thesis using run "4.prems"(3) same by (auto simp: p_def)
    next
      case no: False
      then have again: "p = - E_AGAIN" and w: "mcu_wait n env want orig retry seq (kfree_response k s1) = Some (ret, Some r, s')"
        using run by (auto split: if_splits)
      from "4.IH"(2) [OF refl g [symmetric] refl False p_def no refl again w] "4.prems"(2,3) same
      show ?thesis by simp
    qed
  qed
qed

text \<open>
  C28: The response a command hands to its caller answers the last message the command sent: it
  carries that message's sequence number. Responses that were left in the queue by commands that
  had given up, or arrive late, are skipped. The return value is then 0.
\<close>

theorem response_answers_last_send:
  assumes "mt76_mcu_send_and_get_msg alloc fuel (mt7921_mcu_env cmd env) wait_resp want s
      = Some (ret, Some r, s')"
  shows "ret = 0 \<and> mc_sends s < mc_sends s'
    \<and> unat (rxd_seq r) = snd (me_send env (mc_sends s' - 1))"
proof -
  let ?env = "mt7921_mcu_env cmd env"
  obtain s1 where run: "mcu_attempt fuel ?env wait_resp want (me_prepare ?env \<noteq> None) 0 (s\<lparr>mc_refs := 1\<rparr>)
      = Some (ret, Some r, s1)" and sends: "mc_sends s' = mc_sends s1"
  proof (cases "me_prepare ?env")
    case None
    then show ?thesis using assms that
      by (auto simp: mt76_mcu_send_and_get_msg_def mt76_mcu_skb_send_and_get_msg_def Let_def split: if_splits)
  next
    case (Some p)
    then show ?thesis using assms that
      by (cases p) (auto simp: mt76_mcu_send_and_get_msg_def mt76_mcu_skb_send_and_get_msg_def Let_def
          split: if_splits)
  qed
  from mcu_loop_accepts(1) [OF run] show ?thesis
    using parse_response_seq(1) [of cmd r "snd (me_send env (mc_sends s1 - 1))"]
    by (simp add: sends mt7921_mcu_env_def)
qed

definition demo_response :: "u8 \<Rightarrow> u8 list" where
  "demo_response q = replicate 29 0 @ [q] @ replicate 14 0"

definition demo_late :: "u8 list mcu_env" where
  "demo_late = \<lparr>me_hung = False, me_prepare = None, me_send = (\<lambda>i. (0, 5)),
     me_wait = (\<lambda>i. if i = 0 then Arrived [demo_response 3, demo_response 5] else Arrived []),
     me_reset = (\<lambda>i. False), me_parse = (\<lambda>r q. 0), me_max_retry = 1\<rparr>"

definition demo_late_state :: "u8 list mcu_state" where
  "demo_late_state = \<lparr>mc_res_q = [], mc_refs = 0, mc_taken = [], mc_freed = [], mc_sends = 0, mc_waits = 0\<rparr>"

lemma numeral_5_eq_5: "Suc (Suc (Suc (Suc (Suc 0)))) = 5"
  by simp

lemma response_answers_last_send_witness:
  "\<exists>s'. mt76_mcu_send_and_get_msg True 5 (mt7921_mcu_env (MCU_CE_CMD 0x3d) demo_late) True True demo_late_state
     = Some (0, Some (demo_response 5), s') \<and> rxd_seq (demo_response 5) = 5 \<and> mc_sends s' = 1"
proof -
  have seq: "rxd_seq (demo_response 3) = 3" "rxd_seq (demo_response 5) = 5"
    by (simp_all add: rxd_seq_def demo_response_def nth_append)
  have cmd: "MCU_CE_CMD 0x3d \<notin> {MCU_CMD 0x10, MCU_CMD 0x07, MCU_EXT_CMD 0x2c, MCU_CE_QUERY 0xc0, MCU_EXT_CMD 0xbd}"
    "MCU_CE_CMD 0x3d \<notin> set uni_event_cmds" by code_simp+
  have parse: "fst (mt7921_mcu_parse_response (MCU_CE_CMD 0x3d) (Some (demo_response 3)) 5) = - 11"
    "fst (mt7921_mcu_parse_response (MCU_CE_CMD 0x3d) (Some (demo_response 5)) 5) = 0"
    using cmd by (simp_all add: mt7921_mcu_parse_response_def seq E_AGAIN_def)
  have "\<exists>s'. mt76_mcu_send_and_get_msg True (Suc (Suc (Suc (Suc (Suc 0))))) (mt7921_mcu_env (MCU_CE_CMD 0x3d) demo_late) True True demo_late_state
     = Some (0, Some (demo_response 5), s') \<and> mc_sends s' = 1"
    by (simp add: mt76_mcu_send_and_get_msg_def mt76_mcu_skb_send_and_get_msg_def demo_late_def demo_late_state_def
        mt7921_mcu_env_def Let_def mt76_mcu_get_response_def mt76_mcu_rx_event_def parse E_AGAIN_def
        kfree_response_def)
  then obtain s' where run: "mt76_mcu_send_and_get_msg True (Suc (Suc (Suc (Suc (Suc 0))))) (mt7921_mcu_env (MCU_CE_CMD 0x3d) demo_late) True True
      demo_late_state = Some (0, Some (demo_response 5), s')" "mc_sends s' = 1" by blast
  show ?thesis
    using response_answers_last_send [OF run(1)] run seq by (metis numeral_5_eq_5)
qed

end
