(* ===== verification/AcpiSar.thy ===== *)
theory AcpiSar
  imports Mt76Prelude
begin

text \<open>
  Transmit power limits from ACPI, src/src/mt76/mt792x_acpi_sar.c. The tables are lists of bytes as the
  ACPI methods return them; the structures of mt792x_acpi_sar.h are offsets into them. A read outside
  of a table is \<open>None\<close>. ACPI and the allocator are the parameter \<open>acpi_env\<close>.
\<close>

section \<open>Reading tables\<close>

datatype acpi_obj = Acpi_integer u64 | Acpi_other
datatype acpi_result = Acpi_package "acpi_obj list" | Acpi_no_package

record acpi_env =
  ae_root :: bool
  ae_method :: "string \<Rightarrow> acpi_result option"
  ae_alloc :: "string \<Rightarrow> bool"

definition EOPNOTSUPP_code :: int where "EOPNOTSUPP_code = - 95"
definition ACPI_EINVAL :: int where "ACPI_EINVAL = - 22"
definition ACPI_EIO :: int where "ACPI_EIO = - 5"
definition ACPI_ENOMEM :: int where "ACPI_ENOMEM = - 12"

definition is_acpi_integer :: "acpi_obj \<Rightarrow> bool" where
  "is_acpi_integer ob = (case ob of Acpi_integer _ \<Rightarrow> True | Acpi_other \<Rightarrow> False)"

definition acpi_byte :: "acpi_obj \<Rightarrow> u8" where
  "acpi_byte ob = (case ob of Acpi_integer v \<Rightarrow> ucast v | Acpi_other \<Rightarrow> 0)"

definition mt792x_acpi_read :: "acpi_env \<Rightarrow> string \<Rightarrow> int + u8 list" where
  "mt792x_acpi_read env meth =
     (if \<not> ae_root env then Inl EOPNOTSUPP_code
      else case ae_method env meth of
             None \<Rightarrow> Inl ACPI_EIO
           | Some Acpi_no_package \<Rightarrow> Inl ACPI_EINVAL
           | Some (Acpi_package els) \<Rightarrow>
               if length els < 4 \<or> \<not> is_acpi_integer (els ! 0) then Inl ACPI_EINVAL
               else if \<not> ae_alloc env meth then Inl ACPI_ENOMEM
               else if list_all is_acpi_integer els then Inr (map acpi_byte els)
               else Inl ACPI_EINVAL)"

definition tbl_at :: "u8 list \<Rightarrow> nat \<Rightarrow> u8 option" where
  "tbl_at t i = (if i < length t then Some (t ! i) else None)"

text \<open>The country list with its version; the sizes are those of the two structures.\<close>

definition mt792x_asar_acpi_read_mtcl :: "acpi_env \<Rightarrow> int + (u8 list \<times> u8)" where
  "mt792x_asar_acpi_read_mtcl env =
     (case mt792x_acpi_read env ''MTCL'' of
        Inl e \<Rightarrow> Inl e
      | Inr t \<Rightarrow> if length t = 19 \<or> length t = 26 then Inr (t, t ! 4) else Inl ACPI_EINVAL)"

text \<open>
  The count of tables: the lengths are \<open>int\<close>s, and C divides towards zero, so that a table shorter
  than its head gives 0.
\<close>

definition asar_tblcnt :: "nat \<Rightarrow> nat \<Rightarrow> nat \<Rightarrow> nat" where
  "asar_tblcnt len prelen sarlen = (len - prelen) div sarlen"

definition mt792x_asar_acpi_read_mtds :: "acpi_env \<Rightarrow> u8 \<Rightarrow> (int + u8 list) option" where
  "mt792x_asar_acpi_read_mtds env version =
     (case mt792x_acpi_read env ''MTDS'' of
        Inl e \<Rightarrow> Some (Inl e)
      | Inr t \<Rightarrow>
          if version \<noteq> 1 \<and> version \<noteq> 2 then Some (Inl ACPI_EINVAL)
          else case tbl_at t 4 of
                 None \<Rightarrow> None
               | Some enable \<Rightarrow>
                   let n = (if version = 1 then asar_tblcnt (length t) 6 6 else asar_tblcnt (length t) 7 12)
                   in Some (if enable = 0 \<or> n > 8 \<or> n < 1 then Inl ACPI_EINVAL else Inr t))"

definition mt792x_asar_acpi_read_mtgs :: "acpi_env \<Rightarrow> u8 \<Rightarrow> int + u8 list" where
  "mt792x_asar_acpi_read_mtgs env version =
     (case mt792x_acpi_read env ''MTGS'' of
        Inl e \<Rightarrow> Inl e
      | Inr t \<Rightarrow>
          if version \<noteq> 1 \<and> version \<noteq> 2 then Inl ACPI_EINVAL
          else let n = (if version = 1 then asar_tblcnt (length t) 6 5 else asar_tblcnt (length t) 7 7)
               in if n > 8 \<or> n < 3 then Inl ACPI_EINVAL else Inr t)"

definition mt792x_asar_acpi_read_mtfg :: "acpi_env \<Rightarrow> int + u8 list" where
  "mt792x_asar_acpi_read_mtfg env =
     (case mt792x_acpi_read env ''MTFG'' of
        Inl e \<Rightarrow> Inl e
      | Inr t \<Rightarrow> if length t < 8 then Inl ACPI_EINVAL else Inr t)"

record mt792x_acpi_sar =
  as_ver :: u8
  as_dyn :: "u8 list option"
  as_geo :: "u8 list option"
  as_countrylist :: "u8 list option"
  as_fg :: "u8 list option"

definition table_of :: "int + u8 list \<Rightarrow> u8 list option" where
  "table_of r = (case r of Inl _ \<Rightarrow> None | Inr t \<Rightarrow> Some t)"

text \<open>The version is that of the country list, 0 when there is none.\<close>

definition mt792x_init_acpi_sar :: "acpi_env \<Rightarrow> mt792x_acpi_sar option" where
  "mt792x_init_acpi_sar env =
     (let cl = mt792x_asar_acpi_read_mtcl env;
          ver = (case cl of Inl _ \<Rightarrow> 0 | Inr (_, v) \<Rightarrow> v)
      in case mt792x_asar_acpi_read_mtds env ver of
           None \<Rightarrow> None
         | Some dyn \<Rightarrow>
             Some \<lparr>as_ver = ver, as_dyn = table_of dyn,
                   as_geo = table_of (mt792x_asar_acpi_read_mtgs env ver),
                   as_countrylist = (case cl of Inl _ \<Rightarrow> None | Inr (t, _) \<Rightarrow> Some t),
                   as_fg = table_of (mt792x_asar_acpi_read_mtfg env)\<rparr>)"

section \<open>Power\<close>

datatype dfs_region = Dfs_fcc | Dfs_etsi | Dfs_other
datatype sar_band = Band_2ghz | Band_5ghz | Band_6ghz | Band_none

text \<open>\<open>min\<close> of two \<open>s8\<close> values.\<close>

definition s8_min :: "u8 \<Rightarrow> u8 \<Rightarrow> u8" where
  "s8_min a b = (if sint a \<le> sint b then a else b)"

definition geo_region_idx :: "dfs_region \<Rightarrow> nat" where
  "geo_region_idx r = (case r of Dfs_fcc \<Rightarrow> 0 | Dfs_etsi \<Rightarrow> 1 | Dfs_other \<Rightarrow> 2)"

definition geo_band_idx :: "sar_band \<Rightarrow> nat option" where
  "geo_band_idx b = (case b of Band_2ghz \<Rightarrow> Some 0 | Band_5ghz \<Rightarrow> Some 1 | Band_6ghz \<Rightarrow> Some 2 | Band_none \<Rightarrow> None)"

text \<open>Where the power of the first band of a region is, and the number of bands.\<close>

definition geo_base :: "u8 \<Rightarrow> nat \<Rightarrow> nat \<times> nat" where
  "geo_base ver region = (if ver = 1 then (6 + region * 5 + 1, 2) else (7 + region * 7 + 1, 3))"

definition mt792x_asar_get_geo_pwr :: "mt792x_acpi_sar \<Rightarrow> dfs_region \<Rightarrow> sar_band \<Rightarrow> u8 \<Rightarrow> u8 option" where
  "mt792x_asar_get_geo_pwr sar region band dyn_power =
     (case as_geo sar of
        None \<Rightarrow> Some dyn_power
      | Some geo \<Rightarrow>
          let (base, n) = geo_base (as_ver sar) (geo_region_idx region) in
          case geo_band_idx band of
            None \<Rightarrow> Some dyn_power
          | Some idx \<Rightarrow>
              if idx \<ge> n then Some dyn_power
              else case (tbl_at geo (base + 2 * idx), tbl_at geo (base + 2 * idx + 1)) of
                     (Some geo_power, Some offset) \<Rightarrow> Some (s8_min geo_power (dyn_power + offset))
                   | _ \<Rightarrow> None)"

definition range_band :: "u32 \<Rightarrow> sar_band" where
  "range_band start_freq =
     (if start_freq \<ge> 5945 then Band_6ghz else if start_freq \<ge> 5150 then Band_5ghz else Band_2ghz)"

text \<open>Called only when there is a dynamic table and the capabilities are set.\<close>

definition mt792x_asar_range_pwr :: "mt792x_acpi_sar \<Rightarrow> dfs_region \<Rightarrow> u32 \<Rightarrow> nat \<Rightarrow> u8 option" where
  "mt792x_asar_range_pwr sar region start_freq idx =
     (case as_dyn sar of
        None \<Rightarrow> None
      | Some dyn \<Rightarrow>
          let (limit, n) = (if as_ver sar = 1 then (7, 5) else (8, 11)) in
          if idx \<ge> n then Some 127
          else case tbl_at dyn (limit + idx) of
                 None \<Rightarrow> None
               | Some p \<Rightarrow> mt792x_asar_get_geo_pwr sar region (range_band start_freq) p)"

text \<open>A frequency range, from its start to below its end, with its power.\<close>

record freq_range_power =
  frp_range :: "(u32 \<times> u32) option"
  frp_power :: u8

definition sar_power_step ::
  "mt792x_acpi_sar \<Rightarrow> dfs_region \<Rightarrow> bool \<Rightarrow> nat \<Rightarrow> u32 \<times> u32 \<Rightarrow> freq_range_power \<Rightarrow> freq_range_power option" where
  "sar_power_step sar region set_default i capa_range frp =
     (let frp = frp\<lparr>frp_range := (if set_default then Some capa_range else frp_range frp)\<rparr> in
      case frp_range frp of
        None \<Rightarrow> Some frp
      | Some rg \<Rightarrow>
          (case mt792x_asar_range_pwr sar region (fst rg) (i mod 256) of
             None \<Rightarrow> None
           | Some p \<Rightarrow> Some (frp\<lparr>frp_power := s8_min (if set_default then 127 else frp_power frp) p\<rparr>)))"

fun sar_power_loop ::
  "mt792x_acpi_sar \<Rightarrow> dfs_region \<Rightarrow> bool \<Rightarrow> nat \<Rightarrow> (u32 \<times> u32) list \<Rightarrow> freq_range_power list
     \<Rightarrow> freq_range_power list option" where
  "sar_power_loop sar region set_default i [] frps = Some frps"
| "sar_power_loop sar region set_default i (c # cs) [] = None"
| "sar_power_loop sar region set_default i (c # cs) (f # fs) =
     (case sar_power_step sar region set_default i c f of
        None \<Rightarrow> None
      | Some f' \<Rightarrow> map_option ((#) f') (sar_power_loop sar region set_default (i + 1) cs fs))"

text \<open>\<open>capa\<close>: the ranges of \<open>sar_capa\<close>; the result is the new array. Its return value is always 0.\<close>

definition mt792x_init_acpi_sar_power ::
  "mt792x_acpi_sar option \<Rightarrow> dfs_region \<Rightarrow> bool \<Rightarrow> (u32 \<times> u32) list option \<Rightarrow> freq_range_power list
     \<Rightarrow> freq_range_power list option" where
  "mt792x_init_acpi_sar_power sar region set_default capa frps =
     (case sar of
        None \<Rightarrow> Some frps
      | Some sar \<Rightarrow>
          if as_dyn sar = None then Some frps
          else case capa of
                 None \<Rightarrow> None
               | Some ranges \<Rightarrow> sar_power_loop sar region set_default 0 ranges frps)"

section \<open>Limits set by the user\<close>

text \<open>Of src/src/mt76/mac80211.c, and \<open>mt7921_set_tx_sar_pwr\<close> of src/src/mt76/mt7921/main.c.\<close>

definition mt76_sar_freq_ranges :: "(u32 \<times> u32) list" where
  "mt76_sar_freq_ranges =
     [(2402, 2494), (5150, 5350), (5350, 5470), (5470, 5725), (5725, 5950), (5945, 6165),
      (6165, 6405), (6405, 6525), (6525, 6705), (6705, 6865), (6865, 7125)]"

text \<open>A specification: whether its type is power, and the index and power (in 0.25 dBm) of each range.\<close>

record sar_specs =
  ss_power_type :: bool
  ss_sub_specs :: "(u32 \<times> int) list"

definition sar_spec_power :: "int \<Rightarrow> u8" where
  "sar_spec_power pw = (let p = pw div 2 in of_int (if p > 127 \<or> p < - 127 then 127 else p))"

fun sar_spec_loop :: "(u32 \<times> u32) list \<Rightarrow> (u32 \<times> int) list \<Rightarrow> freq_range_power list \<Rightarrow> freq_range_power list option" where
  "sar_spec_loop ranges [] frps = Some frps"
| "sar_spec_loop ranges ((index, pw) # ss) frps =
     (let i = unat index in
      if i \<ge> length frps \<or> i \<ge> length ranges then None
      else sar_spec_loop ranges ss (frps[i := \<lparr>frp_range = Some (ranges ! i), frp_power = sar_spec_power pw\<rparr>]))"

definition mt76_init_sar_power ::
  "(u32 \<times> u32) list \<Rightarrow> sar_specs \<Rightarrow> freq_range_power list \<Rightarrow> (int + freq_range_power list) option" where
  "mt76_init_sar_power ranges sar frps =
     (if \<not> ss_power_type sar \<or> ss_sub_specs sar = [] then Some (Inl ACPI_EINVAL)
      else map_option Inr (sar_spec_loop ranges (ss_sub_specs sar) frps))"

text \<open>The new limits of \<open>mt7921_set_tx_sar_pwr\<close>, which then sends them to the firmware.\<close>

definition mt7921_set_tx_sar_pwr ::
  "mt792x_acpi_sar option \<Rightarrow> dfs_region \<Rightarrow> sar_specs option \<Rightarrow> freq_range_power list
     \<Rightarrow> (int + freq_range_power list) option" where
  "mt7921_set_tx_sar_pwr acpi region sar frps =
     (case sar of
        None \<Rightarrow> map_option Inr (mt792x_init_acpi_sar_power acpi region True (Some mt76_sar_freq_ranges) frps)
      | Some specs \<Rightarrow>
          (case mt76_init_sar_power mt76_sar_freq_ranges specs frps of
             None \<Rightarrow> None
           | Some (Inl e) \<Rightarrow> Some (Inl e)
           | Some (Inr frps) \<Rightarrow>
               map_option Inr (mt792x_init_acpi_sar_power acpi region False (Some mt76_sar_freq_ranges) frps)))"

text \<open>
  The limit of a frequency in half dBm: the first range that contains it. \<open>frps\<close> is \<open>None\<close> when there are
  no capabilities or no array.
\<close>

fun sar_range_loop :: "int \<Rightarrow> freq_range_power list \<Rightarrow> int \<Rightarrow> int" where
  "sar_range_loop freq [] pw = pw"
| "sar_range_loop freq (f # fs) pw =
     (case frp_range f of
        Some (lo, hi) \<Rightarrow>
          if uint lo \<le> freq \<and> freq < uint hi then min (sint (frp_power f)) pw
          else sar_range_loop freq fs pw
      | None \<Rightarrow> sar_range_loop freq fs pw)"

definition mt76_get_sar_power :: "freq_range_power list option \<Rightarrow> int \<Rightarrow> int \<Rightarrow> int" where
  "mt76_get_sar_power frps freq pw =
     (case frps of
        None \<Rightarrow> pw
      | Some frps \<Rightarrow> sar_range_loop freq frps (if pw > 127 \<or> pw < - 127 then 127 else pw))"

section \<open>Flags\<close>

definition acpi_flag_bit :: "u8 \<Rightarrow> u8" where
  "acpi_flag_bit fl = (if fl = 1 then BIT 1 else if fl = 4 then BIT 2 else 0)"

fun acpi_flag_loop :: "u8 list \<Rightarrow> nat \<Rightarrow> nat \<Rightarrow> u8 \<Rightarrow> u8 option" where
  "acpi_flag_loop fg i 0 flags = Some flags"
| "acpi_flag_loop fg i (Suc k) flags =
     (case tbl_at fg (8 + i) of
        None \<Rightarrow> None
      | Some fl \<Rightarrow> acpi_flag_loop fg (i + 1) k (flags OR acpi_flag_bit fl))"

definition mt792x_acpi_get_flags :: "mt792x_acpi_sar option \<Rightarrow> u8 option" where
  "mt792x_acpi_get_flags sar =
     (case sar of
        None \<Rightarrow> Some 0
      | Some sar \<Rightarrow>
          (case as_fg sar of
             None \<Rightarrow> Some (BIT 0)
           | Some fg \<Rightarrow> acpi_flag_loop fg 0 (unat (fg ! 6)) (BIT 0)))"

section \<open>Country lists\<close>

definition cc_list_all :: "string list" where
  "cc_list_all =
     [''00'', ''EU'', ''AR'', ''AU'', ''AZ'', ''BY'', ''BO'', ''BR'',
      ''CA'', ''CL'', ''CN'', ''ID'', ''JP'', ''MY'', ''MX'', ''ME'',
      ''MA'', ''NZ'', ''NG'', ''PH'', ''RU'', ''RS'', ''SG'', ''KR'',
      ''TW'', ''TH'', ''UA'', ''GB'', ''US'', ''VN'', ''KH'', ''PY'']"

definition cc_list_eu :: "string list" where
  "cc_list_eu =
     [''AD'', ''AT'', ''BE'', ''BG'', ''CY'', ''CZ'', ''HR'', ''DK'',
      ''EE'', ''FI'', ''FR'', ''DE'', ''GR'', ''HU'', ''IS'', ''IE'',
      ''IT'', ''LV'', ''LI'', ''LT'', ''LU'', ''MC'', ''MT'', ''NL'',
      ''NO'', ''PL'', ''PT'', ''RO'', ''SK'', ''SI'', ''ES'', ''SE'',
      ''CH'']"

definition cc_list_be :: "string list" where
  "cc_list_be =
     [''AR'', ''BR'', ''BY'', ''CL'', ''IQ'', ''MX'', ''OM'', ''RU'',
      ''RW'', ''VN'', ''KR'', ''UA'', [], [], [], [],
      ''EU'', ''AT'', ''CN'', ''CA'', ''TW'', ''NZ'', ''PH'', ''UK'',
      ''US'']"

definition MTCL_INVALID :: u32 where "MTCL_INVALID = 0xffffffff"

text \<open>
  The lookup \<open>for (i = 0; ...) if (!memcmp(list[i], alpha2, 2))\<close>: the index of the first match.
  Country codes are two characters other than NUL, so the empty entries never match.
\<close>

fun cc_find :: "string list \<Rightarrow> string \<Rightarrow> nat option" where
  "cc_find [] alpha2 = None"
| "cc_find (c # cs) alpha2 = (if c = alpha2 then Some 0 else map_option Suc (cc_find cs alpha2))"

text \<open>Offsets: \<open>mode_6g\<close> 5, \<open>cl6g\<close> 6, \<open>mode_5g9\<close> 12, \<open>cl5g9\<close> 13, \<open>mode_be\<close> 19, \<open>clbe\<close> 20.\<close>

definition mt792x_acpi_get_mtcl_map_v3 :: "nat \<Rightarrow> nat \<Rightarrow> u8 list \<Rightarrow> u32 option" where
  "mt792x_acpi_get_mtcl_map_v3 row column cl =
     (case (tbl_at cl 19, tbl_at cl (20 + row)) of
        (Some m, Some bits) \<Rightarrow>
          let mode_be = (if m > 2 then 0 else m) in
          Some (if cl ! 4 > 2 \<and> bit bits column then push_bit 4 (ucast (mode_be AND 3)) else 0)
      | _ \<Rightarrow> None)"

definition mt792x_acpi_get_mtcl_map :: "nat \<Rightarrow> nat \<Rightarrow> u8 list \<Rightarrow> u32" where
  "mt792x_acpi_get_mtcl_map row column cl =
     (let mode_6g = (if cl ! 5 > 2 then 0 else cl ! 5); mode_5g9 = (if cl ! 12 > 1 then 0 else cl ! 12) in
      (if bit (cl ! (6 + row)) column \<or> cl ! 5 = 2 then push_bit 2 (ucast (mode_6g AND 3)) else 0) OR
      (if cl ! 4 > 1 \<and> bit (cl ! (13 + row)) column then ucast (mode_5g9 AND 3) else 0))"

definition mt792x_acpi_parse_mtcl_tbl_v3 :: "mt792x_acpi_sar \<Rightarrow> string \<Rightarrow> u32 option" where
  "mt792x_acpi_parse_mtcl_tbl_v3 sar alpha2 =
     (if as_ver sar \<noteq> 3 then Some 0x20
      else case as_countrylist sar of
             None \<Rightarrow> Some MTCL_INVALID
           | Some cl \<Rightarrow>
               (case cc_find cc_list_be alpha2 of
                  Some i \<Rightarrow> mt792x_acpi_get_mtcl_map_v3 (i div 8) (7 - i mod 8) cl
                | None \<Rightarrow>
                    if cc_find cc_list_eu alpha2 \<noteq> None then mt792x_acpi_get_mtcl_map_v3 3 7 cl
                    else Some 0x20))"

definition mt792x_acpi_parse_mtcl_tbl :: "mt792x_acpi_sar \<Rightarrow> string \<Rightarrow> u32" where
  "mt792x_acpi_parse_mtcl_tbl sar alpha2 =
     (case as_countrylist sar of
        None \<Rightarrow> MTCL_INVALID
      | Some cl \<Rightarrow>
          (case cc_find cc_list_all alpha2 of
             Some i \<Rightarrow> mt792x_acpi_get_mtcl_map (i div 8) (7 - i mod 8) cl
           | None \<Rightarrow>
               if cc_find cc_list_eu alpha2 \<noteq> None then mt792x_acpi_get_mtcl_map 0 6 cl
               else mt792x_acpi_get_mtcl_map 0 7 cl))"

definition mt792x_acpi_get_mtcl_conf :: "mt792x_acpi_sar option \<Rightarrow> string \<Rightarrow> u32 option" where
  "mt792x_acpi_get_mtcl_conf sar alpha2 =
     (case sar of
        None \<Rightarrow> Some MTCL_INVALID
      | Some sar \<Rightarrow>
          (case mt792x_acpi_parse_mtcl_tbl_v3 sar alpha2 of
             None \<Rightarrow> None
           | Some config \<Rightarrow>
               Some (if config = MTCL_INVALID then MTCL_INVALID
                     else config OR mt792x_acpi_parse_mtcl_tbl sar alpha2)))"

end
