(* ===== verification/TxPower.thy ===== *)
theory TxPower
  imports AcpiSar "HOL-Library.Monad_Syntax"
begin

text \<open>
  Transmit power: the limits of the device tree in src/src/mt76/eeprom.c, the power of a channel and the
  table of limits that \<open>mt76_connac_mcu_set_rate_txpower\<close> of src/src/mt76/mt76_connac_mcu.c sends to the
  firmware. Powers are \<open>s8\<close> values, kept as bytes. A device tree node has properties and children; a
  read outside of a property or of an array is \<open>None\<close>.
\<close>

section \<open>Device tree\<close>

text \<open>The value of a property, as bytes and as the strings that \<open>of_prop_next_string\<close> finds in it.\<close>

record of_prop =
  op_name :: string
  op_bytes :: "u8 list"
  op_strings :: "string list"

datatype of_node = Of_node (on_name: string) (on_props: "of_prop list") (on_children: "of_node list")

definition of_find_property :: "of_node \<Rightarrow> string \<Rightarrow> of_prop option" where
  "of_find_property np name = find (\<lambda>p. op_name p = name) (on_props np)"

definition of_get_child_by_name :: "of_node \<Rightarrow> string \<Rightarrow> of_node option" where
  "of_get_child_by_name np name = find (\<lambda>c. on_name c = name) (on_children np)"

definition to_lower :: "char \<Rightarrow> nat" where
  "to_lower c = (let n = of_char c in if 65 \<le> n \<and> n \<le> (90::nat) then n + 32 else n)"

definition strcaseeq :: "string \<Rightarrow> string \<Rightarrow> bool" where
  "strcaseeq s t \<longleftrightarrow> map to_lower s = map to_lower t"

definition mt76_string_prop_find :: "of_prop option \<Rightarrow> string option \<Rightarrow> bool" where
  "mt76_string_prop_find prop str =
     (case (prop, str) of
        (Some p, Some s) \<Rightarrow> s \<noteq> [] \<and> list_ex (\<lambda>c. strcaseeq c s) (op_strings p)
      | _ \<Rightarrow> False)"

datatype dt_region = Dt_unset | Dt_etsi | Dt_fcc | Dt_jp | Dt_unknown

definition region_name :: "dt_region \<Rightarrow> string option" where
  "region_name r =
     (case r of Dt_unset \<Rightarrow> Some ''ww'' | Dt_etsi \<Rightarrow> Some ''etsi'' | Dt_fcc \<Rightarrow> Some ''fcc''
      | Dt_jp \<Rightarrow> Some ''jp'' | Dt_unknown \<Rightarrow> None)"

fun power_limits_loop :: "string \<Rightarrow> string option \<Rightarrow> of_node list \<Rightarrow> of_node option \<Rightarrow> of_node option" where
  "power_limits_loop alpha2 rname [] fallback = fallback"
| "power_limits_loop alpha2 rname (cur # cs) fallback =
     (let country = of_find_property cur ''country''; regd = of_find_property cur ''regdomain'' in
      if country = None \<and> regd = None then power_limits_loop alpha2 rname cs (Some cur)
      else if mt76_string_prop_find country (Some alpha2) \<or> mt76_string_prop_find regd rname then Some cur
      else power_limits_loop alpha2 rname cs fallback)"

text \<open>\<open>np\<close> is the node of the device, if it has one.\<close>

definition mt76_find_power_limits_node :: "of_node option \<Rightarrow> string \<Rightarrow> dt_region \<Rightarrow> of_node option" where
  "mt76_find_power_limits_node np alpha2 region =
     do { np \<leftarrow> np; limits \<leftarrow> of_get_child_by_name np ''power-limits'';
          power_limits_loop alpha2 (region_name region) (on_children limits) None }"

definition mt76_get_of_array :: "of_node \<Rightarrow> string \<Rightarrow> nat \<Rightarrow> u8 list option" where
  "mt76_get_of_array np name mn =
     (case of_find_property np name of
        None \<Rightarrow> None
      | Some p \<Rightarrow> if length (op_bytes p) < mn * 4 then None else Some (op_bytes p))"

definition mt76_get_of_array_s8 :: "of_node \<Rightarrow> string \<Rightarrow> nat \<Rightarrow> u8 list option" where
  "mt76_get_of_array_s8 np name mn =
     (case of_find_property np name of
        None \<Rightarrow> None
      | Some p \<Rightarrow> if length (op_bytes p) < mn then None else Some (op_bytes p))"

fun channel_ranges :: "u16 \<Rightarrow> u8 list \<Rightarrow> bool" where
  "channel_ranges hw val =
     (if length val < 8 then False
      else if be32 val 0 \<le> ucast hw \<and> ucast hw \<le> be32 val 4 then True
      else channel_ranges hw (drop 8 val))"

fun mt76_find_channel_node :: "of_node list \<Rightarrow> u16 \<Rightarrow> of_node option" where
  "mt76_find_channel_node [] hw = None"
| "mt76_find_channel_node (cur # cs) hw =
     (case mt76_get_of_array cur ''channels'' 2 of
        None \<Rightarrow> mt76_find_channel_node cs hw
      | Some val \<Rightarrow> if channel_ranges hw val then Some cur else mt76_find_channel_node cs hw)"

definition mt76_get_txs_delta :: "of_node \<Rightarrow> nat \<Rightarrow> u8 option" where
  "mt76_get_txs_delta np nss =
     (case mt76_get_of_array np ''txs-delta'' nss of
        None \<Rightarrow> Some 0
      | Some val \<Rightarrow> if nss = 0 then None else Some (ucast (be32 val (4 * (nss - 1)))))"

section \<open>Limits per rate\<close>

definition s8_max :: "u8 \<Rightarrow> u8 \<Rightarrow> u8" where
  "s8_max a b = (if sint a \<le> sint b then b else a)"

text \<open>
  \<open>pwr\<close> is a whole array and \<open>base\<close> where the part begins. The sum is an \<open>int\<close> that \<open>min_t\<close> casts to
  \<open>s8\<close>. \<open>data\<close> is what is left of the property.
\<close>

fun array_limit_loop ::
  "u8 list \<Rightarrow> nat \<Rightarrow> nat \<Rightarrow> u8 list \<Rightarrow> nat \<Rightarrow> u8 \<Rightarrow> u8 \<Rightarrow> u8 \<Rightarrow> (u8 list \<times> u8) option" where
  "array_limit_loop pwr base 0 data i target nss_delta max_power = Some (pwr, max_power)"
| "array_limit_loop pwr base (Suc k) data i target nss_delta max_power =
     (if i \<ge> length data \<or> base + i \<ge> length pwr then None
      else let p = s8_min target (data ! i + nss_delta) in
           array_limit_loop (pwr[base + i := p]) base k data (i + 1) target nss_delta (s8_max max_power p))"

definition mt76_apply_array_limit ::
  "u8 list \<Rightarrow> nat \<Rightarrow> nat \<Rightarrow> u8 list option \<Rightarrow> u8 \<Rightarrow> u8 \<Rightarrow> u8 \<Rightarrow> (u8 list \<times> u8) option" where
  "mt76_apply_array_limit pwr base pwr_len data target nss_delta max_power =
     (case data of
        None \<Rightarrow> Some (pwr, max_power)
      | Some d \<Rightarrow> array_limit_loop pwr base pwr_len d 0 target nss_delta max_power)"

text \<open>
  Sections of \<open>pwr_len + 1\<close> bytes, the first of which says how many of the \<open>k\<close> parts left, from the
  \<open>i\<close>-th on, it is for. \<open>cur\<close> is what is left of that number.
\<close>

fun multi_limit_loop ::
  "u8 list \<Rightarrow> nat \<Rightarrow> nat \<Rightarrow> nat \<Rightarrow> u8 list \<Rightarrow> int \<Rightarrow> u8 \<Rightarrow> u8 \<Rightarrow> u8 \<Rightarrow> u8 list option" where
  "multi_limit_loop pwr pwr_len 0 i data cur target nss_delta max_power = Some pwr"
| "multi_limit_loop pwr pwr_len (Suc k) i data cur target nss_delta max_power =
     (if length data < pwr_len + 1 then Some pwr
      else do {
        (pwr, max_power) \<leftarrow>
          mt76_apply_array_limit pwr (pwr_len * i) pwr_len (Some (drop 1 data)) target nss_delta max_power;
        let cur = cur - 1;
        if cur > 0 then multi_limit_loop pwr pwr_len k (i + 1) data cur target nss_delta max_power
        else let data = drop (pwr_len + 1) data in
             if data = [] then Some pwr
             else multi_limit_loop pwr pwr_len k (i + 1) data (sint (data ! 0)) target nss_delta max_power })"

definition mt76_apply_multi_array_limit ::
  "u8 list \<Rightarrow> nat \<Rightarrow> nat \<Rightarrow> u8 list option \<Rightarrow> u8 \<Rightarrow> u8 \<Rightarrow> u8 list option" where
  "mt76_apply_multi_array_limit pwr pwr_len pwr_num data target nss_delta =
     (case data of
        None \<Rightarrow> Some pwr
      | Some d \<Rightarrow>
          if d = [] then None
          else multi_limit_loop pwr pwr_len pwr_num 0 d (sint (d ! 0)) target nss_delta 128)"

text \<open>The arrays of \<open>struct mt76_power_limits\<close>, those of two dimensions row by row.\<close>

record power_limits =
  pl_cck :: "u8 list"
  pl_ofdm :: "u8 list"
  pl_mcs :: "u8 list"
  pl_ru :: "u8 list"
  pl_eht :: "u8 list"
  pl_path_cck :: "u8 list"
  pl_path_ofdm :: "u8 list"
  pl_path_ofdm_bf :: "u8 list"
  pl_path_ru :: "u8 list"
  pl_path_ru_bf :: "u8 list"

definition uniform_limits :: "u8 \<Rightarrow> power_limits" where
  "uniform_limits t =
     \<lparr>pl_cck = replicate 4 t, pl_ofdm = replicate 8 t, pl_mcs = replicate 40 t, pl_ru = replicate 84 t,
      pl_eht = replicate 256 t, pl_path_cck = replicate 4 0, pl_path_ofdm = replicate 4 0,
      pl_path_ofdm_bf = replicate 4 0, pl_path_ru = replicate 70 0, pl_path_ru_bf = replicate 70 0\<rparr>"

definition mt76_tx_power_path_delta :: "u8 \<Rightarrow> u8" where
  "mt76_tx_power_path_delta path =
     (let idx = path - 1; path_delta = [0, 6, 9, 12, 14] in
      if unat idx < length path_delta then path_delta ! unat idx else 0)"

definition dt_rate_limits :: "of_node \<Rightarrow> nat \<Rightarrow> nat \<Rightarrow> u8 \<Rightarrow> power_limits \<Rightarrow> (u8 \<times> power_limits) option" where
  "dt_rate_limits np n_chains mcs_rates target d =
     do {
       delta \<leftarrow> mt76_get_txs_delta np n_chains;
       (cck, mx) \<leftarrow> mt76_apply_array_limit (pl_cck d) 0 4 (mt76_get_of_array_s8 np ''rates-cck'' 4) target delta 0;
       (ofdm, mx) \<leftarrow>
         mt76_apply_array_limit (pl_ofdm d) 0 8 (mt76_get_of_array_s8 np ''rates-ofdm'' 8) target delta mx;
       mcs \<leftarrow> mt76_apply_multi_array_limit (pl_mcs d) 10 4
                (mt76_get_of_array_s8 np ''rates-mcs'' (mcs_rates + 1)) target delta;
       ru \<leftarrow> mt76_apply_multi_array_limit (pl_ru d) 12 7 (mt76_get_of_array_s8 np ''rates-ru'' 13) target delta;
       Some (mx, d\<lparr>pl_cck := cck, pl_ofdm := ofdm, pl_mcs := mcs, pl_ru := ru\<rparr>) }"

definition path_limits :: "of_node \<Rightarrow> nat \<Rightarrow> u8 \<Rightarrow> u8 \<Rightarrow> power_limits \<Rightarrow> power_limits option" where
  "path_limits np n_chains combine mx d =
     do {
       delta \<leftarrow> mt76_get_txs_delta np n_chains;
       (cck, mx) \<leftarrow> mt76_apply_array_limit (pl_path_cck d) 0 4 (mt76_get_of_array_s8 np ''paths-cck'' 4)
                       combine delta mx;
       (ofdm, mx) \<leftarrow> mt76_apply_array_limit (pl_path_ofdm d) 0 4 (mt76_get_of_array_s8 np ''paths-ofdm'' 4)
                        combine delta mx;
       (bf, mx) \<leftarrow> mt76_apply_array_limit (pl_path_ofdm_bf d) 0 4 (mt76_get_of_array_s8 np ''paths-ofdm-bf'' 4)
                      combine delta mx;
       ru \<leftarrow> mt76_apply_multi_array_limit (pl_path_ru d) 10 7 (mt76_get_of_array_s8 np ''paths-ru'' 11)
                combine delta;
       rubf \<leftarrow> mt76_apply_multi_array_limit (pl_path_ru_bf d) 10 7 (mt76_get_of_array_s8 np ''paths-ru-bf'' 11)
                  combine delta;
       Some (d\<lparr>pl_path_cck := cck, pl_path_ofdm := ofdm, pl_path_ofdm_bf := bf, pl_path_ru := ru,
               pl_path_ru_bf := rubf\<rparr>) }"

definition txpower_node_name :: "sar_band \<Rightarrow> string option" where
  "txpower_node_name b =
     (case b of Band_2ghz \<Rightarrow> Some ''txpower-2g'' | Band_5ghz \<Rightarrow> Some ''txpower-5g''
      | Band_6ghz \<Rightarrow> Some ''txpower-6g'' | Band_none \<Rightarrow> None)"

record power_cfg =
  pw_of_enabled :: bool
  pw_of_node :: "of_node option"
  pw_alpha2 :: string
  pw_region :: dt_region
  pw_mcs_rates :: nat
  pw_chainmask :: u16

definition hweight16 :: "u16 \<Rightarrow> nat" where
  "hweight16 m = length (filter (bit m) [0..<16])"

definition channel_limits_node :: "power_cfg \<Rightarrow> sar_band \<Rightarrow> u16 \<Rightarrow> of_node option" where
  "channel_limits_node cfg band hw =
     do { np \<leftarrow> mt76_find_power_limits_node (pw_of_node cfg) (pw_alpha2 cfg) (pw_region cfg);
          name \<leftarrow> txpower_node_name band;
          np \<leftarrow> of_get_child_by_name np name;
          mt76_find_channel_node (on_children np) hw }"

text \<open>
  The result is the highest limit and the structure; \<open>None\<close> is a read or write out of bounds. The
  delta is read once by the code, here in both halves.
\<close>

definition mt76_get_rate_power_limits ::
  "power_cfg \<Rightarrow> sar_band \<Rightarrow> u16 \<Rightarrow> u8 \<Rightarrow> (u8 \<times> power_limits) option" where
  "mt76_get_rate_power_limits cfg band hw target =
     (let n_chains = hweight16 (pw_chainmask cfg); dest = uniform_limits target;
          combine = target + mt76_tx_power_path_delta (of_nat n_chains);
          mcs_rates = (if pw_mcs_rates cfg = 0 then 10 else pw_mcs_rates cfg)
      in if \<not> pw_of_enabled cfg then Some (target, dest)
         else case channel_limits_node cfg band hw of
                None \<Rightarrow> Some (target, dest)
              | Some np \<Rightarrow>
                  do { (mx, dest) \<leftarrow> dt_rate_limits np n_chains mcs_rates target dest;
                       dest \<leftarrow> path_limits np n_chains combine mx dest;
                       Some (mx, dest) })"

section \<open>The table for the firmware\<close>

record reg_channel =
  rch_hw :: u16
  rch_disabled :: bool
  rch_max_reg_power :: int

text \<open>
  The radio: \<open>tp_freq\<close> is \<open>ieee80211_channel_to_frequency\<close>, \<open>tp_frps\<close> the limits of AcpiSar.
\<close>

record power_phy =
  tp_connac2 :: bool
  tp_mt7663 :: bool
  tp_sband :: "sar_band \<Rightarrow> reg_channel list"
  tp_power_level :: int
  tp_has_2ghz :: bool
  tp_has_5ghz :: bool
  tp_has_6ghz :: bool
  tp_frps :: "freq_range_power list option"
  tp_freq :: "sar_band \<Rightarrow> u16 \<Rightarrow> int"
  tp_cfg :: power_cfg

definition mt76_connac_get_ch_power :: "power_phy \<Rightarrow> sar_band \<Rightarrow> u16 \<Rightarrow> u8 \<Rightarrow> u8" where
  "mt76_connac_get_ch_power phy band hw target =
     (if band = Band_none then target
      else case find (\<lambda>c. rch_hw c = hw) (tp_sband phy band) of
             None \<Rightarrow> target
           | Some ch \<Rightarrow>
               if rch_disabled ch then target
               else let pw = 2 * rch_max_reg_power ch;
                        pw = (if tp_mt7663 phy \<and> (pw > 63 \<or> pw < - 64) then 63 else pw)
                    in s8_min (of_int pw) target)"

definition copy_at :: "nat \<Rightarrow> u8 list \<Rightarrow> u8 list \<Rightarrow> u8 list" where
  "copy_at off xs buf = take off buf @ xs @ drop (off + length xs) buf"

definition row :: "nat \<Rightarrow> nat \<Rightarrow> u8 list \<Rightarrow> u8 list" where
  "row w i xs = take w (drop (w * i) xs)"

fun sku_rows :: "nat \<Rightarrow> nat \<Rightarrow> nat \<Rightarrow> nat \<Rightarrow> nat \<Rightarrow> nat \<Rightarrow> u8 list \<Rightarrow> u8 list \<Rightarrow> u8 list" where
  "sku_rows w n step off i 0 src sku = sku"
| "sku_rows w n step off i (Suc k) src sku =
     sku_rows w n step (off + step) (i + 1) k src (copy_at off (take n (row w i src)) sku)"

text \<open>The offsets of the code: CCK at 0, OFDM at 4, HT at 12 and 28, VHT at 29, HE at 77.\<close>

definition mt76_connac_mcu_build_sku :: "bool \<Rightarrow> power_limits \<Rightarrow> sar_band \<Rightarrow> u8 list" where
  "mt76_connac_mcu_build_sku connac2 l band =
     (let sku = replicate 161 (if connac2 then 127 else 63);
          sku = (if band = Band_2ghz then copy_at 0 (pl_cck l) sku else sku);
          sku = copy_at 4 (pl_ofdm l) sku;
          sku = sku_rows 10 8 8 12 0 2 (pl_mcs l) sku;
          sku = copy_at 28 [pl_mcs l ! 0] sku;
          sku = sku_rows 10 10 12 29 0 4 (pl_mcs l) sku
      in if \<not> connac2 then sku else sku_rows 12 12 12 77 0 7 (pl_ru l) sku)"

definition chan_list_2ghz :: "u8 list" where
  "chan_list_2ghz = [1, 2, 3, 4, 5, 6, 7, 8, 9, 10, 11, 12, 13, 14]"

definition chan_list_5ghz :: "u8 list" where
  "chan_list_5ghz =
     [36, 38, 40, 42, 44, 46, 48, 50, 52, 54, 56, 58, 60, 62, 64, 100, 102, 104, 106, 108, 110,
      112, 114, 116, 118, 120, 122, 124, 126, 128, 132, 134, 136, 138, 140, 142, 144, 149, 151, 153,
      155, 157, 159, 161, 165, 169, 173, 177]"

definition chan_list_6ghz :: "u8 list" where
  "chan_list_6ghz =
     [1, 3, 5, 7, 9, 11, 13, 15, 17, 19, 21, 23, 25, 27, 29, 33, 35, 37, 39, 41, 43, 45, 47, 49, 51,
      53, 55, 57, 59, 61, 65, 67, 69, 71, 73, 75, 77, 79, 81, 83, 85, 87, 89, 91, 93, 97, 99, 101,
      103, 105, 107, 109, 111, 113, 115, 117, 119, 121, 123, 125, 129, 131, 133, 135, 137, 139, 141,
      143, 145, 147, 149, 151, 153, 155, 157, 161, 163, 165, 167, 169, 171, 173, 175, 177, 179, 181,
      183, 185, 187, 189, 193, 195, 197, 199, 201, 203, 205, 207, 209, 211, 213, 215, 217, 219, 221,
      225, 227, 229, 233]"

definition ch_list :: "sar_band \<Rightarrow> u8 list" where
  "ch_list band = (if band = Band_2ghz then chan_list_2ghz else if band = Band_6ghz then chan_list_6ghz else chan_list_5ghz)"

definition band_number :: "sar_band \<Rightarrow> u8" where
  "band_number band = (if band = Band_2ghz then 1 else if band = Band_6ghz then 3 else 2)"

definition last_channel :: "power_phy \<Rightarrow> u8" where
  "last_channel phy =
     (if tp_has_6ghz phy then last chan_list_6ghz else if tp_has_5ghz phy then last chan_list_5ghz
      else last chan_list_2ghz)"

definition sku_len :: "power_phy \<Rightarrow> nat" where
  "sku_len phy = (if tp_connac2 phy then 161 else 161 - 92)"

definition chan_target :: "power_phy \<Rightarrow> sar_band \<Rightarrow> u8 \<Rightarrow> u8" where
  "chan_target phy band ch =
     (let tx_power = 2 * tp_power_level phy; tx_power = (if tx_power = 0 then 127 else tx_power);
          reg_power = mt76_connac_get_ch_power phy band (ucast ch) (of_int tx_power)
      in of_int (mt76_get_sar_power (tp_frps phy) (tp_freq phy band (ucast ch)) (sint reg_power)))"

definition sku_entry :: "power_phy \<Rightarrow> sar_band \<Rightarrow> u8 \<Rightarrow> (u8 \<times> u8 list) option" where
  "sku_entry phy band ch =
     do { (mx, limits) \<leftarrow> mt76_get_rate_power_limits (tp_cfg phy) band (ucast ch) (chan_target phy band ch);
          Some (ch, take (sku_len phy) (mt76_connac_mcu_build_sku (tp_connac2 phy) limits band)) }"

record sku_msg =
  sm_n_chan :: nat
  sm_band :: u8
  sm_last :: bool
  sm_entries :: "(u8 \<times> u8 list) list"

fun sku_loop ::
  "power_phy \<Rightarrow> sar_band \<Rightarrow> u8 list \<Rightarrow> bool \<Rightarrow> (u8 \<times> u8 list) list \<Rightarrow> (bool \<times> (u8 \<times> u8 list) list) option" where
  "sku_loop phy band [] lst es = Some (lst, es)"
| "sku_loop phy band (ch # chs) lst es =
     do { e \<leftarrow> sku_entry phy band ch; sku_loop phy band chs (ch = last_channel phy) (es @ [e]) }"

text \<open>
  What the bus does: whether memory can be had for the limits and for the \<open>n\<close>-th message, and the
  answer to the \<open>n\<close>-th message.
\<close>

record power_env =
  pe_limits :: bool
  pe_alloc :: "nat \<Rightarrow> bool"
  pe_answer :: "nat \<Rightarrow> int"

text \<open>The batches from the \<open>i\<close>-th on, \<open>k\<close> of them; \<open>n\<close> is the number of batches.\<close>

fun band_loop ::
  "power_env \<Rightarrow> power_phy \<Rightarrow> sar_band \<Rightarrow> nat \<Rightarrow> nat \<Rightarrow> nat \<Rightarrow> nat \<Rightarrow> int \<Rightarrow> sku_msg list \<Rightarrow> (int \<times> sku_msg list) option" where
  "band_loop env phy band batch_len n i 0 err msgs = Some (err, msgs)"
| "band_loop env phy band batch_len n i (Suc k) err msgs =
     (let n_chan = length (ch_list band);
          num_ch = (if i = n - 1 then n_chan - i * batch_len else batch_len)
      in if \<not> pe_alloc env (length msgs) then Some (ACPI_ENOMEM, msgs)
         else do {
           (lst, es) \<leftarrow> sku_loop phy band (take num_ch (drop (i * batch_len) (ch_list band))) False [];
           let err = pe_answer env (length msgs);
           let msgs = msgs @ [\<lparr>sm_n_chan = num_ch, sm_band = band_number band, sm_last = lst, sm_entries = es\<rparr>];
           if err < 0 then Some (err, msgs)
           else band_loop env phy band batch_len n (i + 1) k err msgs })"

definition mt76_connac_mcu_rate_txpower_band ::
  "power_env \<Rightarrow> power_phy \<Rightarrow> sar_band \<Rightarrow> sku_msg list \<Rightarrow> (int \<times> sku_msg list) option" where
  "mt76_connac_mcu_rate_txpower_band env phy band msgs =
     (let batch_len = (if tp_connac2 phy then 8 else 16);
          batch_size = (length (ch_list band) + batch_len - 1) div batch_len
      in if \<not> pe_limits env then Some (ACPI_ENOMEM, msgs)
         else band_loop env phy band batch_len batch_size 0 batch_size 0 msgs)"

fun txpower_bands :: "power_env \<Rightarrow> power_phy \<Rightarrow> (bool \<times> sar_band) list \<Rightarrow> sku_msg list \<Rightarrow> (int \<times> sku_msg list) option" where
  "txpower_bands env phy [] msgs = Some (0, msgs)"
| "txpower_bands env phy ((has, band) # bs) msgs =
     (if has
      then do { (err, msgs) \<leftarrow> mt76_connac_mcu_rate_txpower_band env phy band msgs;
                if err < 0 then Some (err, msgs) else txpower_bands env phy bs msgs }
      else txpower_bands env phy bs msgs)"

definition mt76_connac_mcu_set_rate_txpower :: "power_env \<Rightarrow> power_phy \<Rightarrow> (int \<times> sku_msg list) option" where
  "mt76_connac_mcu_set_rate_txpower env phy =
     txpower_bands env phy
       [(tp_has_2ghz phy, Band_2ghz), (tp_has_5ghz phy, Band_5ghz), (tp_has_6ghz phy, Band_6ghz)] []"

end
