(* ===== verification/AcpiSarProps.thy ===== *)
theory AcpiSarProps
  imports AcpiSar
begin

text \<open>
  Properties of the ACPI limits: tables that pass the checks are large enough for every lookup of a
  power; the limit of a frequency is never above what the user and ACPI ask for; the flag table and the
  country list for 802.11be are shown not to be checked, or looked up, as they should be.
\<close>

section \<open>Accepted tables are large enough\<close>

definition sar_tables_ok :: "mt792x_acpi_sar \<Rightarrow> bool" where
  "sar_tables_ok sar \<longleftrightarrow>
     (\<forall>t. as_dyn sar = Some t \<longrightarrow> as_ver sar = 1 \<and> 12 \<le> length t \<or> as_ver sar = 2 \<and> 19 \<le> length t) \<and>
     (\<forall>t. as_geo sar = Some t \<longrightarrow> as_ver sar = 1 \<and> 21 \<le> length t \<or> as_ver sar = 2 \<and> 28 \<le> length t)"

lemma tblcnt_size: "m \<le> asar_tblcnt len prelen sarlen \<Longrightarrow> 0 < m \<Longrightarrow> 0 < sarlen \<Longrightarrow> prelen + m * sarlen \<le> len"
proof -
  assume a: "m \<le> asar_tblcnt len prelen sarlen" "0 < m" "0 < sarlen"
  then have "m * sarlen \<le> (len - prelen) div sarlen * sarlen" by (simp add: asar_tblcnt_def)
  also have "\<dots> \<le> len - prelen" by simp
  finally have "m * sarlen \<le> len - prelen" .
  moreover have "0 < m * sarlen" using a by simp
  ultimately show ?thesis by linarith
qed

lemma read_mtds_size:
  assumes "mt792x_asar_acpi_read_mtds env ver = Some (Inr t)"
  shows "ver = 1 \<and> 12 \<le> length t \<or> ver = 2 \<and> 19 \<le> length t"
  using assms tblcnt_size [of 1 "length t" 6 6] tblcnt_size [of 1 "length t" 7 12]
  by (auto simp: mt792x_asar_acpi_read_mtds_def Let_def split: sum.splits option.splits if_splits)

lemma read_mtgs_size:
  assumes "mt792x_asar_acpi_read_mtgs env ver = Inr t"
  shows "ver = 1 \<and> 21 \<le> length t \<or> ver = 2 \<and> 28 \<le> length t"
  using assms tblcnt_size [of 3 "length t" 6 5] tblcnt_size [of 3 "length t" 7 7]
  by (auto simp: mt792x_asar_acpi_read_mtgs_def Let_def split: sum.splits option.splits if_splits)

lemma init_tables_ok: "mt792x_init_acpi_sar env = Some sar \<Longrightarrow> sar_tables_ok sar"
  using read_mtds_size read_mtgs_size
  by (fastforce simp: mt792x_init_acpi_sar_def sar_tables_ok_def table_of_def Let_def split: option.splits sum.splits)

lemma geo_pwr_ok:
  assumes "sar_tables_ok sar"
  shows "\<exists>p. mt792x_asar_get_geo_pwr sar region band d = Some p"
proof (cases "as_geo sar")
  case None
  then show ?thesis by (simp add: mt792x_asar_get_geo_pwr_def)
next
  case (Some geo)
  then have "as_ver sar = 1 \<and> 21 \<le> length geo \<or> as_ver sar = 2 \<and> 28 \<le> length geo"
    using assms by (simp add: sar_tables_ok_def)
  then show ?thesis
    by (auto simp: mt792x_asar_get_geo_pwr_def Some geo_base_def geo_region_idx_def geo_band_idx_def tbl_at_def Let_def
        split: dfs_region.split sar_band.split)
qed

lemma range_pwr_ok:
  assumes "sar_tables_ok sar" "as_dyn sar \<noteq> None"
  shows "\<exists>p. mt792x_asar_range_pwr sar region freq i = Some p"
proof -
  obtain dyn where dyn: "as_dyn sar = Some dyn" using assms(2) by blast
  then have "as_ver sar = 1 \<and> 12 \<le> length dyn \<or> as_ver sar = 2 \<and> 19 \<le> length dyn"
    using assms(1) by (simp add: sar_tables_ok_def)
  then show ?thesis
    using geo_pwr_ok [OF assms(1)] by (auto simp: mt792x_asar_range_pwr_def dyn tbl_at_def Let_def)
qed

text \<open>What one step does to an entry: the range is kept or set, the power is lowered to the table's.\<close>

definition acpi_limited ::
  "mt792x_acpi_sar \<Rightarrow> dfs_region \<Rightarrow> bool \<Rightarrow> nat \<Rightarrow> u32 \<times> u32 \<Rightarrow> freq_range_power \<Rightarrow> freq_range_power \<Rightarrow> bool" where
  "acpi_limited sar region sd i c f f' \<longleftrightarrow>
     frp_range f' = (if sd then Some c else frp_range f) \<and>
     (case frp_range f' of
        None \<Rightarrow> frp_power f' = frp_power f
      | Some rg \<Rightarrow> \<exists>p. mt792x_asar_range_pwr sar region (fst rg) (i mod 256) = Some p \<and>
          sint (frp_power f') = min (sint (if sd then 127 else frp_power f)) (sint p))"

lemma sint_s8_min: "sint (s8_min a b) = min (sint a) (sint b)"
  by (simp add: s8_min_def min_def)

lemma sar_power_step_ok:
  assumes "sar_tables_ok sar" "as_dyn sar \<noteq> None"
  shows "\<exists>f'. sar_power_step sar region sd i c f = Some f' \<and> acpi_limited sar region sd i c f f'"
proof (cases "if sd then Some c else frp_range f")
  case None
  then show ?thesis by (auto simp: sar_power_step_def acpi_limited_def Let_def)
next
  case (Some rg)
  obtain p where "mt792x_asar_range_pwr sar region (fst rg) (i mod 256) = Some p"
    using range_pwr_ok [OF assms] by blast
  with Some show ?thesis by (auto simp: sar_power_step_def acpi_limited_def Let_def sint_s8_min)
qed

lemma sar_power_loop_ok:
  assumes "sar_tables_ok sar" "as_dyn sar \<noteq> None"
  shows "length cs \<le> length fs \<Longrightarrow> \<exists>fs'. sar_power_loop sar region sd i cs fs = Some fs' \<and> length fs' = length fs \<and>
    (\<forall>j < length cs. acpi_limited sar region sd (i + j) (cs ! j) (fs ! j) (fs' ! j)) \<and>
    (\<forall>j. length cs \<le> j \<longrightarrow> fs' ! j = fs ! j)"
proof (induction cs arbitrary: i fs)
  case Nil
  then show ?case by simp
next
  case (Cons c cs)
  then obtain f fs1 where fs: "fs = f # fs1" by (cases fs) auto
  obtain f' where f': "sar_power_step sar region sd i c f = Some f'" "acpi_limited sar region sd i c f f'"
    using sar_power_step_ok [OF assms] by blast
  obtain fs2 where fs2: "sar_power_loop sar region sd (i + 1) cs fs1 = Some fs2" "length fs2 = length fs1"
    "\<forall>j < length cs. acpi_limited sar region sd (i + 1 + j) (cs ! j) (fs1 ! j) (fs2 ! j)"
    "\<forall>j. length cs \<le> j \<longrightarrow> fs2 ! j = fs1 ! j"
    using Cons.IH [of fs1 "i + 1"] Cons.prems fs by auto
  have "acpi_limited sar region sd (i + j) ((c # cs) ! j) (fs ! j) ((f' # fs2) ! j)" if "j < length (c # cs)" for j
    using that f'(2) fs2(3) fs by (cases j) auto
  moreover have "(f' # fs2) ! j = fs ! j" if "length (c # cs) \<le> j" for j
    using that fs2(4) fs by (cases j) auto
  ultimately show ?case
    using f'(1) fs2(1,2) fs by (intro exI [of _ "f' # fs2"]) simp
qed

text \<open>
  C29: When the ACPI tables have passed the checks of the set-up, every later lookup of a power stays
  within them: setting the limits succeeds for every region, range and number of ranges, in both
  versions of the tables, and keeps the number of entries.
\<close>

theorem acpi_power_in_tables:
  assumes "mt792x_init_acpi_sar env = Some sar" "length ranges \<le> length frps"
  shows "\<exists>frps'. mt792x_init_acpi_sar_power (Some sar) region sd (Some ranges) frps = Some frps' \<and>
    length frps' = length frps"
proof (cases "as_dyn sar = None")
  case True
  then show ?thesis by (simp add: mt792x_init_acpi_sar_power_def)
next
  case False
  from sar_power_loop_ok [OF init_tables_ok [OF assms(1)] this assms(2), of region sd 0] False
  show ?thesis by (auto simp: mt792x_init_acpi_sar_power_def)
qed

definition demo_sar_env :: acpi_env where
  "demo_sar_env =
     \<lparr>ae_root = True,
      ae_method = (\<lambda>m. if m = ''MTCL'' then Some (Acpi_package (map Acpi_integer ([0, 0, 0, 0, 1] @ replicate 14 0)))
                       else if m = ''MTDS'' then Some (Acpi_package (map Acpi_integer [0, 0, 0, 0, 1, 1, 0, 30, 31, 32, 33, 34]))
                       else None),
      ae_alloc = (\<lambda>_. True)\<rparr>"

definition demo_sar :: mt792x_acpi_sar where
  "demo_sar = \<lparr>as_ver = 1, as_dyn = Some [0, 0, 0, 0, 1, 1, 0, 30, 31, 32, 33, 34], as_geo = None,
     as_countrylist = Some ([0, 0, 0, 0, 1] @ replicate 14 0), as_fg = None\<rparr>"

lemma demo_sar_init: "mt792x_init_acpi_sar demo_sar_env = Some demo_sar"
  by (simp add: mt792x_init_acpi_sar_def demo_sar_env_def demo_sar_def mt792x_asar_acpi_read_mtcl_def mt792x_acpi_read_def
      is_acpi_integer_def acpi_byte_def mt792x_asar_acpi_read_mtds_def mt792x_asar_acpi_read_mtgs_def
      mt792x_asar_acpi_read_mtfg_def tbl_at_def table_of_def asar_tblcnt_def Let_def list_all_iff)

theorem acpi_power_in_tables_witness:
  "\<exists>frps'. mt792x_init_acpi_sar_power (Some demo_sar) Dfs_fcc True (Some [(2402, 2494)])
     [\<lparr>frp_range = None, frp_power = 0\<rparr>] = Some frps' \<and> length frps' = 1"
  using acpi_power_in_tables [OF demo_sar_init, of "[(2402, 2494)]" "[\<lparr>frp_range = None, frp_power = 0\<rparr>]" Dfs_fcc True]
  by simp

section \<open>The limit of a frequency\<close>

text \<open>The array belongs to the ranges of the capabilities.\<close>

definition frps_wf :: "freq_range_power list \<Rightarrow> bool" where
  "frps_wf frps \<longleftrightarrow> length frps = length mt76_sar_freq_ranges \<and>
     (\<forall>j < length frps. frp_range (frps ! j) = None \<or> frp_range (frps ! j) = Some (mt76_sar_freq_ranges ! j))"

definition in_range :: "int \<Rightarrow> u32 \<times> u32 \<Rightarrow> bool" where
  "in_range freq rg \<longleftrightarrow> uint (fst rg) \<le> freq \<and> freq < uint (snd rg)"

lemma sar_spec_loop_ok:
  assumes "sar_spec_loop mt76_sar_freq_ranges ss frps = Some frps'" "frps_wf frps" "distinct (map fst ss)"
  shows "frps_wf frps' \<and> (\<forall>(index, pw) \<in> set ss. frps' ! unat index =
      \<lparr>frp_range = Some (mt76_sar_freq_ranges ! unat index), frp_power = sar_spec_power pw\<rparr> \<and> unat index < length frps') \<and>
    (\<forall>j. j \<notin> unat ` set (map fst ss) \<longrightarrow> frps' ! j = frps ! j)"
  using assms
proof (induction ss arbitrary: frps)
  case Nil
  then show ?case by simp
next
  case (Cons sp ss)
  obtain index pw where sp: "sp = (index, pw)" by (cases sp)
  let ?i = "unat index"
  let ?new = "frps[?i := \<lparr>frp_range = Some (mt76_sar_freq_ranges ! ?i), frp_power = sar_spec_power pw\<rparr>]"
  have i: "?i < length frps" "?i < length mt76_sar_freq_ranges" and
    run: "sar_spec_loop mt76_sar_freq_ranges ss ?new = Some frps'"
    using Cons.prems(1) by (auto simp: sp Let_def split: if_splits)
  have wf: "frps_wf ?new" using Cons.prems(2) i by (auto simp: frps_wf_def nth_list_update)
  note IH = Cons.IH [OF run wf]
  have "?i \<notin> unat ` set (map fst ss)"
    using Cons.prems(3) by (force simp: sp word_unat_eq_iff)
  then have "frps' ! ?i = ?new ! ?i" using IH Cons.prems(3) by simp
  then show ?case
    using IH Cons.prems(3) i by (auto simp: sp frps_wf_def nth_list_update)
qed

lemma sar_range_loop_first:
  "i < length fs \<Longrightarrow> frp_range (fs ! i) = Some rg \<Longrightarrow> in_range freq rg \<Longrightarrow>
    (\<And>j rg'. j < i \<Longrightarrow> frp_range (fs ! j) = Some rg' \<Longrightarrow> \<not> in_range freq rg') \<Longrightarrow>
    sar_range_loop freq fs pw = min (sint (frp_power (fs ! i))) pw"
proof (induction fs arbitrary: i)
  case Nil
  then show ?case by simp
next
  case (Cons f fs)
  show ?case
  proof (cases i)
    case 0
    then show ?thesis using Cons.prems by (cases rg) (simp add: in_range_def)
  next
    case (Suc k)
    have "sar_range_loop freq fs pw = min (sint (frp_power (fs ! k))) pw"
      using Cons.IH [of k] Cons.prems Suc by fastforce
    moreover have "\<not> in_range freq rg'" if "frp_range f = Some rg'" for rg'
      using Cons.prems(4) [of 0 rg'] that Suc by simp
    ultimately show ?thesis using Suc by (auto simp: in_range_def split: option.split)
  qed
qed

lemma sar_spec_power_le: "- 254 \<le> pw \<Longrightarrow> sint (sar_spec_power pw) \<le> pw div 2"
proof -
  assume "- 254 \<le> pw"
  then have lo: "- 127 \<le> pw div 2" by simp
  define p where "p = (if pw div 2 > 127 \<or> pw div 2 < - 127 then 127 else pw div 2)"
  have "- 127 \<le> p" "p \<le> 127" "p \<le> pw div 2" using lo by (auto simp: p_def)
  then have "sint (of_int p :: u8) = p" by (simp add: sint_sbintrunc' signed_take_bit_int_eq_self)
  then show ?thesis using \<open>p \<le> pw div 2\<close> by (simp add: sar_spec_power_def Let_def flip: p_def)
qed

text \<open>The entries after the ACPI tables were applied: not above what they were, the ranges kept.\<close>

lemma acpi_power_lowers:
  assumes "mt792x_init_acpi_sar_power acpi region False (Some mt76_sar_freq_ranges) frps = Some frps'"
    and "\<forall>sar. acpi = Some sar \<longrightarrow> sar_tables_ok sar" "length frps = length mt76_sar_freq_ranges" "j < length frps"
  shows "frp_range (frps' ! j) = frp_range (frps ! j) \<and> sint (frp_power (frps' ! j)) \<le> sint (frp_power (frps ! j)) \<and>
    (\<forall>sar rg. acpi = Some sar \<longrightarrow> as_dyn sar \<noteq> None \<longrightarrow> frp_range (frps ! j) = Some rg \<longrightarrow>
      (\<exists>p. mt792x_asar_range_pwr sar region (fst rg) j = Some p \<and> sint (frp_power (frps' ! j)) \<le> sint p))"
proof (cases "acpi = None \<or> (\<exists>sar. acpi = Some sar \<and> as_dyn sar = None)")
  case True
  then show ?thesis using assms(1) by (auto simp: mt792x_init_acpi_sar_power_def)
next
  case False
  then obtain sar where sar: "acpi = Some sar" "as_dyn sar \<noteq> None" by (cases acpi) auto
  have j: "j < length mt76_sar_freq_ranges" "j < 256" using assms(3,4) by (simp_all add: mt76_sar_freq_ranges_def)
  have "acpi_limited sar region False j (mt76_sar_freq_ranges ! j) (frps ! j) (frps' ! j)"
    using sar_power_loop_ok [OF assms(2) [rule_format, OF sar(1)] sar(2), of mt76_sar_freq_ranges frps region False 0] assms(1,3) sar j
    by (auto simp: mt792x_init_acpi_sar_power_def)
  then show ?thesis using sar j(2) by (auto simp: acpi_limited_def split: option.splits)
qed

lemma sar_power_loop_length:
  "sar_power_loop sar region sd i cs fs = Some fs' \<Longrightarrow> length fs' = length fs"
  by (induction sar region sd i cs fs arbitrary: fs' rule: sar_power_loop.induct) (auto split: option.splits)

lemma acpi_power_length:
  "mt792x_init_acpi_sar_power acpi region sd capa fs = Some fs' \<Longrightarrow> length fs' = length fs"
  by (auto simp: mt792x_init_acpi_sar_power_def sar_power_loop_length split: option.splits if_splits)


definition demo_frps :: "freq_range_power list" where
  "demo_frps = replicate 11 \<lparr>frp_range = None, frp_power = 0\<rparr>"

definition demo_specs :: sar_specs where
  "demo_specs = \<lparr>ss_power_type = True, ss_sub_specs = [(0, 50)]\<rparr>"


section \<open>What is not as it should be\<close>

text \<open>A limit below -63.5 dBm becomes the highest one.\<close>

lemma very_low_limit_lost: "sar_spec_power (- 256) = 127"
  by (simp add: sar_spec_power_def)

text \<open>The number of flags is read from the table and not compared with its length.\<close>

lemma flags_read_past_end:
  "mt792x_acpi_get_flags (Some (demo_sar\<lparr>as_fg := Some [0, 0, 0, 0, 0, 0, 1, 0]\<rparr>)) = None"
  by (simp add: mt792x_acpi_get_flags_def tbl_at_def)

text \<open>A dynamic table of four bytes passes \<open>mt792x_acpi_read\<close>, and its fifth byte is read.\<close>

lemma short_table_overread:
  assumes "mt792x_acpi_read env ''MTDS'' = Inr t" "length t = 4" "version = 1 \<or> version = 2"
  shows "mt792x_asar_acpi_read_mtds env version = None"
  using assms by (auto simp: mt792x_asar_acpi_read_mtds_def tbl_at_def)

text \<open>
  The countries of the EU without an entry of their own take the bit of the United States (row 3,
  column 7) for 802.11be, not the one of the entry "EU" (row 2, column 7).
\<close>

lemma eu_entry_place: "cc_find cc_list_be ''EU'' = Some 16" "cc_find cc_list_be ''US'' = Some 24"
  by (simp_all add: cc_list_be_def)

lemma eu_countries_use_us_bit:
  assumes "as_ver sar = 3" "cc_find cc_list_be c = None" "cc_find cc_list_eu c \<noteq> None"
  shows "mt792x_acpi_parse_mtcl_tbl_v3 sar c = mt792x_acpi_parse_mtcl_tbl_v3 sar ''US''"
  using assms by (simp add: mt792x_acpi_parse_mtcl_tbl_v3_def eu_entry_place split: option.split)

end
