(* ===== verification/TxPowerProps.thy ===== *)
theory TxPowerProps
  imports TxPower AcpiSarProps
begin

text \<open>
  Properties of the power limits: the limits of the device tree never exceed the power they are
  computed for and are read and written within their arrays; limits set by the user and by ACPI are
  respected; the table sent to the firmware has every channel once and a mark on the last message.
\<close>

section \<open>Limits per rate\<close>

lemma s8_min_le: "sint (s8_min a b) \<le> sint a" "sint (s8_min a b) \<le> sint b"
  by (simp_all add: s8_min_def)

lemma list_all_update: "list_all P xs \<Longrightarrow> P x \<Longrightarrow> list_all P (xs[i := x])"
  unfolding list_all_iff using set_update_subset_insert by fastforce

text \<open>
  Both loops keep a property of the entries that every minimum with the target has, and the length.
\<close>

lemma array_limit_loop_ok:
  assumes "\<And>v. P (s8_min t v)"
  shows "i + k \<le> length data \<Longrightarrow> base + i + k \<le> length pwr \<Longrightarrow> list_all P pwr \<Longrightarrow>
    \<exists>pwr' mx'. array_limit_loop pwr base k data i t delta mx = Some (pwr', mx') \<and>
      length pwr' = length pwr \<and> list_all P pwr'"
proof (induction k arbitrary: i pwr mx)
  case 0
  then show ?case by simp
next
  case (Suc k)
  let ?p = "s8_min t (data ! i + delta)"
  from Suc.IH [of "i + 1" "pwr[base + i := ?p]" "s8_max mx ?p"] Suc.prems
  show ?case by (auto simp: Let_def list_all_update assms)
qed

lemma multi_limit_loop_ok:
  assumes P: "\<And>v. P (s8_min t v)"
  shows "pwr_len * (i + k) \<le> length pwr \<Longrightarrow> list_all P pwr \<Longrightarrow>
    \<exists>pwr'. multi_limit_loop pwr pwr_len k i data cur t delta mx = Some pwr' \<and>
      length pwr' = length pwr \<and> list_all P pwr'"
proof (induction k arbitrary: i pwr data cur mx)
  case 0
  then show ?case by simp
next
  case (Suc k)
  show ?case
  proof (cases "length data < pwr_len + 1")
    case True
    then show ?thesis using Suc.prems by simp
  next
    case False
    then have "0 + pwr_len \<le> length (drop 1 data)" by simp
    moreover have "pwr_len * i + 0 + pwr_len \<le> length pwr"
      using Suc.prems(1) by (simp add: algebra_simps)
    ultimately obtain pwr' mx' where one: "array_limit_loop pwr (pwr_len * i) pwr_len (drop 1 data) 0 t delta mx
        = Some (pwr', mx')" "length pwr' = length pwr" "list_all P pwr'"
      using array_limit_loop_ok [where P = P and t = t and i = 0 and k = pwr_len and data = "drop 1 data"
        and base = "pwr_len * i" and pwr = pwr, OF P] Suc.prems(2) by blast
    have "pwr_len * (i + 1 + k) \<le> length pwr'" using Suc.prems(1) one(2) by simp
    note rest = Suc.IH [OF this one(3), where mx = mx']
    show ?thesis
      using False one rest by (auto simp: mt76_apply_array_limit_def Let_def)
  qed
qed

lemma apply_array_ok:
  assumes "\<And>v. P (s8_min t v)" "\<And>d. data = Some d \<Longrightarrow> n \<le> length d" "n \<le> length pwr" "list_all P pwr"
  shows "\<exists>pwr' mx'. mt76_apply_array_limit pwr 0 n data t delta mx = Some (pwr', mx') \<and>
    length pwr' = length pwr \<and> list_all P pwr'"
  using assms(2-4) array_limit_loop_ok [where P = P and t = t and i = 0 and k = n and base = 0 and pwr = pwr, OF assms(1)]
  by (cases data) (auto simp: mt76_apply_array_limit_def)

lemma apply_multi_ok:
  assumes "\<And>v. P (s8_min t v)" "\<And>d. data = Some d \<Longrightarrow> d \<noteq> []" "n * k \<le> length pwr" "list_all P pwr"
  shows "\<exists>pwr'. mt76_apply_multi_array_limit pwr n k data t delta = Some pwr' \<and>
    length pwr' = length pwr \<and> list_all P pwr'"
  using assms(2-4) multi_limit_loop_ok [where P = P and t = t and i = 0 and k = k and pwr = pwr, OF assms(1)]
  by (cases data) (auto simp: mt76_apply_multi_array_limit_def)

lemma of_array_s8_length: "mt76_get_of_array_s8 np name mn = Some d \<Longrightarrow> mn \<le> length d"
  by (auto simp: mt76_get_of_array_s8_def split: option.splits if_splits)

lemma of_array_s8_Cons: "mt76_get_of_array_s8 np name (Suc mn) = Some d \<Longrightarrow> d \<noteq> []"
  using of_array_s8_length by fastforce

lemma txs_delta_ok: "0 < nss \<Longrightarrow> \<exists>d. mt76_get_txs_delta np nss = Some d"
  by (auto simp: mt76_get_txs_delta_def split: option.split)

definition below :: "u8 \<Rightarrow> u8 \<Rightarrow> bool" where
  "below t x \<longleftrightarrow> sint x \<le> sint t"

lemma below_min: "below t (s8_min t v)"
  by (simp add: below_def s8_min_le)

text \<open>The shape of the arrays, and limits that are not above the power \<open>t\<close>.\<close>

definition limits_ok :: "u8 \<Rightarrow> power_limits \<Rightarrow> bool" where
  "limits_ok t d \<longleftrightarrow>
     length (pl_cck d) = 4 \<and> list_all (below t) (pl_cck d) \<and>
     length (pl_ofdm d) = 8 \<and> list_all (below t) (pl_ofdm d) \<and>
     length (pl_mcs d) = 40 \<and> list_all (below t) (pl_mcs d) \<and>
     length (pl_ru d) = 84 \<and> list_all (below t) (pl_ru d)"

text \<open>The path limits start at 0; where they are set they are not above \<open>c\<close>.\<close>

definition path_ok :: "u8 \<Rightarrow> power_limits \<Rightarrow> bool" where
  "path_ok c d \<longleftrightarrow>
     (let P = (\<lambda>x. x = 0 \<or> below c x) in
      length (pl_path_cck d) = 4 \<and> list_all P (pl_path_cck d) \<and>
      length (pl_path_ofdm d) = 4 \<and> list_all P (pl_path_ofdm d) \<and>
      length (pl_path_ofdm_bf d) = 4 \<and> list_all P (pl_path_ofdm_bf d) \<and>
      length (pl_path_ru d) = 70 \<and> list_all P (pl_path_ru d) \<and>
      length (pl_path_ru_bf d) = 70 \<and> list_all P (pl_path_ru_bf d))"

lemma list_all_replicate: "P x \<Longrightarrow> list_all P (replicate n x)"
  by (simp add: list_all_iff)

lemma uniform_ok: "limits_ok t (uniform_limits t)" "path_ok c (uniform_limits t)"
  by (simp_all add: limits_ok_def path_ok_def uniform_limits_def below_def list_all_replicate Let_def)

lemma dt_rate_limits_ok:
  assumes "0 < n" "limits_ok t d" "path_ok c d"
  shows "\<exists>mx d'. dt_rate_limits np n mcs t d = Some (mx, d') \<and> limits_ok t d' \<and> path_ok c d'"
proof -
  obtain delta where delta: "mt76_get_txs_delta np n = Some delta" using txs_delta_ok [OF assms(1)] by blast
  note ok = assms(2) [unfolded limits_ok_def]
  obtain cck m1 where cck: "mt76_apply_array_limit (pl_cck d) 0 4 (mt76_get_of_array_s8 np ''rates-cck'' 4) t delta 0
      = Some (cck, m1)" "length cck = 4" "list_all (below t) cck"
    using apply_array_ok [of "below t" t "mt76_get_of_array_s8 np ''rates-cck'' 4" 4 "pl_cck d" delta 0]
      ok of_array_s8_length below_min by auto
  obtain ofdm m2 where ofdm: "mt76_apply_array_limit (pl_ofdm d) 0 8 (mt76_get_of_array_s8 np ''rates-ofdm'' 8) t delta m1
      = Some (ofdm, m2)" "length ofdm = 8" "list_all (below t) ofdm"
    using apply_array_ok [of "below t" t "mt76_get_of_array_s8 np ''rates-ofdm'' 8" 8 "pl_ofdm d" delta m1]
      ok of_array_s8_length below_min by auto
  obtain mcs' where mcs: "mt76_apply_multi_array_limit (pl_mcs d) 10 4
      (mt76_get_of_array_s8 np ''rates-mcs'' (mcs + 1)) t delta = Some mcs'" "length mcs' = 40" "list_all (below t) mcs'"
    using apply_multi_ok [of "below t" t "mt76_get_of_array_s8 np ''rates-mcs'' (mcs + 1)" 10 4 "pl_mcs d" delta]
      ok of_array_s8_Cons below_min by auto
  obtain ru where ru: "mt76_apply_multi_array_limit (pl_ru d) 12 7
      (mt76_get_of_array_s8 np ''rates-ru'' 13) t delta = Some ru" "length ru = 84" "list_all (below t) ru"
    using apply_multi_ok [of "below t" t "mt76_get_of_array_s8 np ''rates-ru'' 13" 12 7 "pl_ru d" delta]
      ok of_array_s8_length below_min by fastforce
  show ?thesis
    using delta cck ofdm mcs ru assms(3)
    by (simp add: dt_rate_limits_def limits_ok_def path_ok_def Let_def)
qed

lemma path_limits_ok:
  assumes "0 < n" "limits_ok t d" "path_ok c d"
  shows "\<exists>d'. path_limits np n c mx d = Some d' \<and> limits_ok t d' \<and> path_ok c d'"
proof -
  let ?P = "\<lambda>x. x = 0 \<or> below c x"
  have P: "?P (s8_min c v)" for v using below_min by simp
  obtain delta where delta: "mt76_get_txs_delta np n = Some delta" using txs_delta_ok [OF assms(1)] by blast
  note ok = assms(3) [unfolded path_ok_def Let_def]
  obtain cck m1 where cck: "mt76_apply_array_limit (pl_path_cck d) 0 4 (mt76_get_of_array_s8 np ''paths-cck'' 4) c delta mx
      = Some (cck, m1)" "length cck = 4" "list_all ?P cck"
    using apply_array_ok [of ?P c "mt76_get_of_array_s8 np ''paths-cck'' 4" 4 "pl_path_cck d" delta mx]
      ok of_array_s8_length P by auto
  obtain ofdm m2 where ofdm: "mt76_apply_array_limit (pl_path_ofdm d) 0 4 (mt76_get_of_array_s8 np ''paths-ofdm'' 4) c delta m1
      = Some (ofdm, m2)" "length ofdm = 4" "list_all ?P ofdm"
    using apply_array_ok [of ?P c "mt76_get_of_array_s8 np ''paths-ofdm'' 4" 4 "pl_path_ofdm d" delta m1]
      ok of_array_s8_length P by auto
  obtain bf m3 where bf: "mt76_apply_array_limit (pl_path_ofdm_bf d) 0 4 (mt76_get_of_array_s8 np ''paths-ofdm-bf'' 4) c delta m2
      = Some (bf, m3)" "length bf = 4" "list_all ?P bf"
    using apply_array_ok [of ?P c "mt76_get_of_array_s8 np ''paths-ofdm-bf'' 4" 4 "pl_path_ofdm_bf d" delta m2]
      ok of_array_s8_length P by auto
  have ne: "mt76_get_of_array_s8 np name 11 = Some v \<Longrightarrow> v \<noteq> []" for name v
    using of_array_s8_length by fastforce
  obtain ru where ru: "mt76_apply_multi_array_limit (pl_path_ru d) 10 7
      (mt76_get_of_array_s8 np ''paths-ru'' 11) c delta = Some ru" "length ru = 70" "list_all ?P ru"
    using apply_multi_ok [of ?P c "mt76_get_of_array_s8 np ''paths-ru'' 11" 10 7 "pl_path_ru d" delta] ok ne P by auto
  obtain rubf where rubf: "mt76_apply_multi_array_limit (pl_path_ru_bf d) 10 7
      (mt76_get_of_array_s8 np ''paths-ru-bf'' 11) c delta = Some rubf" "length rubf = 70" "list_all ?P rubf"
    using apply_multi_ok [of ?P c "mt76_get_of_array_s8 np ''paths-ru-bf'' 11" 10 7 "pl_path_ru_bf d" delta] ok ne P by auto
  show ?thesis
    using delta cck ofdm bf ru rubf assms(2)
    by (simp add: path_limits_def limits_ok_def path_ok_def Let_def)
qed

lemma hweight16_pos: "m \<noteq> 0 \<Longrightarrow> 0 < hweight16 m"
proof -
  assume "m \<noteq> 0"
  then obtain n where n: "bit m n" by (metis bit_0_eq bit_eq_iff bot_apply bot_bool_def)
  then have "n < 16" using bit_imp_le_length by fastforce
  with n have "n \<in> set (filter (bit m) [0..<16])" by simp
  then show ?thesis unfolding hweight16_def by (metis length_pos_if_in_set)
qed

lemma rate_power_limits_ok:
  assumes "pw_chainmask cfg \<noteq> 0"
  shows "\<exists>mx d. mt76_get_rate_power_limits cfg band hw t = Some (mx, d) \<and> limits_ok t d \<and>
    path_ok (t + mt76_tx_power_path_delta (of_nat (hweight16 (pw_chainmask cfg)))) d"
proof -
  note n = hweight16_pos [OF assms]
  let ?c = "t + mt76_tx_power_path_delta (of_nat (hweight16 (pw_chainmask cfg)))"
  show ?thesis
  proof (cases "\<not> pw_of_enabled cfg \<or> channel_limits_node cfg band hw = None")
    case True
    then show ?thesis using uniform_ok by (auto simp: mt76_get_rate_power_limits_def Let_def)
  next
    case False
    then obtain np where np: "pw_of_enabled cfg" "channel_limits_node cfg band hw = Some np" by auto
    define mcs where "mcs = (if pw_mcs_rates cfg = 0 then 10 else pw_mcs_rates cfg)"
    obtain mx d where d: "dt_rate_limits np (hweight16 (pw_chainmask cfg)) mcs t (uniform_limits t) = Some (mx, d)"
      "limits_ok t d" "path_ok ?c d"
      using dt_rate_limits_ok [OF n uniform_ok, of np mcs t ?c] by blast
    obtain d' where "path_limits np (hweight16 (pw_chainmask cfg)) ?c mx d = Some d'" "limits_ok t d'" "path_ok ?c d'"
      using path_limits_ok [OF n d(2,3), of np mx] by blast
    then show ?thesis
      using np d(1) by (simp add: mt76_get_rate_power_limits_def Let_def flip: mcs_def)
  qed
qed

text \<open>
  Whatever the device tree holds, the limits computed for a channel are not above the power they
  are computed for, those of the paths not above that power plus the gain of the chains (0 where
  nothing is set), and neither a property nor an array is read or written out of its bounds. Only
  a radio without chains is excluded.
\<close>

theorem rate_power_limits_bounded:
  assumes "pw_chainmask cfg \<noteq> 0"
  shows "\<exists>mx d. mt76_get_rate_power_limits cfg band hw t = Some (mx, d) \<and> limits_ok t d \<and>
    path_ok (t + mt76_tx_power_path_delta (of_nat (hweight16 (pw_chainmask cfg)))) d"
  using assms by (rule rate_power_limits_ok)

text \<open>A node for the channels 1 to 13 with a limit of 5 for each CCK rate.\<close>

definition demo_limits_tree :: of_node where
  "demo_limits_tree =
     Of_node ''wifi'' [] [Of_node ''power-limits'' [] [Of_node ''r0'' [] [Of_node ''txpower-2g'' []
       [Of_node ''r1'' [\<lparr>op_name = ''channels'', op_bytes = [0, 0, 0, 1, 0, 0, 0, 13], op_strings = []\<rparr>,
                        \<lparr>op_name = ''rates-cck'', op_bytes = [5, 5, 5, 5], op_strings = []\<rparr>] []]]]]"

definition demo_power_cfg :: power_cfg where
  "demo_power_cfg = \<lparr>pw_of_enabled = True, pw_of_node = Some demo_limits_tree, pw_alpha2 = ''DE'', pw_region = Dt_etsi,
     pw_mcs_rates = 0, pw_chainmask = 3\<rparr>"

theorem rate_power_limits_bounded_witness:
  "\<exists>mx d. mt76_get_rate_power_limits demo_power_cfg Band_2ghz 6 40 = Some (mx, d) \<and> limits_ok 40 d \<and>
    channel_limits_node demo_power_cfg Band_2ghz 6 \<noteq> None"
proof -
  have "channel_limits_node demo_power_cfg Band_2ghz 6 \<noteq> None" by code_simp
  moreover have "pw_chainmask demo_power_cfg \<noteq> 0" by (simp add: demo_power_cfg_def)
  ultimately show ?thesis using rate_power_limits_bounded [of demo_power_cfg Band_2ghz 6 40] by blast
qed

section \<open>The table for the firmware\<close>

text \<open>The positions \<open>S\<close> of a table hold limits that are not above \<open>t\<close>.\<close>

definition filled :: "u8 \<Rightarrow> nat set \<Rightarrow> u8 list \<Rightarrow> bool" where
  "filled t S sku \<longleftrightarrow> length sku = 161 \<and> (\<forall>p \<in> S. p < 161 \<and> below t (sku ! p))"

lemma filled_copy:
  assumes "filled t S sku" "off + length xs \<le> 161" "list_all (below t) xs"
  shows "filled t (S \<union> {off..<off + length xs}) (copy_at off xs sku)"
  using assms by (auto simp: filled_def copy_at_def nth_append list_all_length not_less)

lemma filled_rows:
  "filled t S sku \<Longrightarrow> n \<le> w \<Longrightarrow> n \<le> step \<Longrightarrow> off + k * step \<le> 161 + (step - n) \<Longrightarrow> w * (i + k) \<le> length src \<Longrightarrow>
    list_all (below t) src \<Longrightarrow>
    filled t (S \<union> (\<Union>j < k. {off + j * step..<off + j * step + n})) (sku_rows w n step off i k src sku)"
proof (induction k arbitrary: off i S sku)
  case 0
  then show ?case by simp
next
  case (Suc k)
  have len: "length (take n (row w i src)) = n"
    using Suc.prems(2,5) by (simp add: row_def algebra_simps)
  have small: "list_all (below t) (take n (row w i src))"
    using Suc.prems(6) by (auto simp: row_def list_all_iff dest!: in_set_takeD in_set_dropD)
  have fit: "off + n \<le> 161" using Suc.prems(3,4) by simp
  have one: "filled t (S \<union> {off..<off + n}) (copy_at off (take n (row w i src)) sku)"
    using filled_copy [OF Suc.prems(1) _ small] fit len by simp
  have rest: "w * (i + 1 + k) \<le> length src" "off + step + k * step \<le> 161 + (step - n)"
    using Suc.prems(4,5) by simp_all
  have eq: "S \<union> {off..<off + n} \<union> (\<Union>j < k. {off + step + j * step..<off + step + j * step + n}) =
      S \<union> (\<Union>j < Suc k. {off + j * step..<off + j * step + n})"
    by (simp only: lessThan_Suc_eq_insert_0 UN_insert image_image UN_extend_simps) (auto simp: ac_simps)
  from Suc.IH [OF one Suc.prems(2,3) rest(2,1) Suc.prems(6)] show ?case by (simp only: sku_rows.simps eq)
qed

text \<open>The places of the limits; the CCK rates have theirs on 2.4 GHz only, VHT MCS 10 and 11 have none.\<close>

definition sku_positions :: "bool \<Rightarrow> sar_band \<Rightarrow> nat set" where
  "sku_positions connac2 band =
     (if band = Band_2ghz then {0..<4} else {}) \<union> {4..<29} \<union> (\<Union>j < 4. {29 + j * 12..<29 + j * 12 + 10}) \<union>
     (if connac2 then {77..<161} else {})"

lemma build_sku_filled:
  assumes "limits_ok t d"
  shows "filled t (sku_positions connac2 band) (mt76_connac_mcu_build_sku connac2 d band)"
proof -
  note ok = assms [unfolded limits_ok_def]
  let ?s0 = "replicate 161 (if connac2 then 127 else 63) :: u8 list"
  define s1 where "s1 = (if band = Band_2ghz then copy_at 0 (pl_cck d) ?s0 else ?s0)"
  define s2 where "s2 = copy_at 4 (pl_ofdm d) s1"
  define s3 where "s3 = sku_rows 10 8 8 12 0 2 (pl_mcs d) s2"
  define s4 where "s4 = copy_at 28 [pl_mcs d ! 0] s3"
  define s5 where "s5 = sku_rows 10 10 12 29 0 4 (pl_mcs d) s4"
  let ?B = "if band = Band_2ghz then {0..<4} else {} :: nat set"
  have 1: "filled t ?B s1"
    using filled_copy [of t "{}" ?s0 0 "pl_cck d"] ok by (auto simp: s1_def filled_def)
  have 2: "filled t (?B \<union> {4..<12}) s2"
    using filled_copy [OF 1, of 4 "pl_ofdm d"] ok by (simp add: s2_def)
  have 3: "filled t (?B \<union> {4..<12} \<union> (\<Union>j < 2. {12 + j * 8..<12 + j * 8 + 8})) s3"
    using filled_rows [OF 2, of 8 10 8 12 2 0 "pl_mcs d"] ok by (simp add: s3_def)
  have "below t (pl_mcs d ! 0)" using ok by (simp add: list_all_length)
  then have 4: "filled t (?B \<union> {4..<12} \<union> (\<Union>j < 2. {12 + j * 8..<12 + j * 8 + 8}) \<union> {28..<29}) s4"
    using filled_copy [OF 3, of 28 "[pl_mcs d ! 0]"] by (simp add: s4_def)
  have 5: "filled t (?B \<union> {4..<12} \<union> (\<Union>j < 2. {12 + j * 8..<12 + j * 8 + 8}) \<union> {28..<29} \<union>
      (\<Union>j < 4. {29 + j * 12..<29 + j * 12 + 10})) s5"
    using filled_rows [OF 4, of 10 10 12 29 4 0 "pl_mcs d"] ok by (simp add: s5_def)
  have ht: "{4..<12} \<union> ((\<Union>j < 2. {12 + j * 8..<12 + j * 8 + 8}) \<union> {28..<29}) = {4..<29 :: nat}"
    by (simp add: lessThan_nat_numeral lessThan_Suc) auto
  have 6: "filled t (?B \<union> {4..<29} \<union> (\<Union>j < 4. {29 + j * 12..<29 + j * 12 + 10})) s5"
    using 5 by (simp only: Un_assoc flip: ht)
  show ?thesis
  proof (cases connac2)
    case False
    then have "mt76_connac_mcu_build_sku connac2 d band = s5"
      by (simp add: mt76_connac_mcu_build_sku_def Let_def s1_def s2_def s3_def s4_def s5_def)
    then show ?thesis using 6 False by (simp only: sku_positions_def if_False Un_empty_right)
  next
    case True
    then have "mt76_connac_mcu_build_sku connac2 d band = sku_rows 12 12 12 77 0 7 (pl_ru d) s5"
      by (simp add: mt76_connac_mcu_build_sku_def Let_def s1_def s2_def s3_def s4_def s5_def)
    moreover have "(\<Union>j < 7. {77 + j * 12..<77 + j * 12 + 12}) = {77..<161 :: nat}"
      by (simp add: lessThan_nat_numeral lessThan_Suc) auto
    moreover have "filled t (?B \<union> {4..<29} \<union> (\<Union>j < 4. {29 + j * 12..<29 + j * 12 + 10}) \<union>
        (\<Union>j < 7. {77 + j * 12..<77 + j * 12 + 12})) (sku_rows 12 12 12 77 0 7 (pl_ru d) s5)"
      using filled_rows [OF 6, of 12 12 12 77 7 0 "pl_ru d"] ok by simp
    ultimately show ?thesis using True by (simp only: sku_positions_def if_True)
  qed
qed

lemma sint_of_int_s8: "- 128 \<le> x \<Longrightarrow> x \<le> 127 \<Longrightarrow> sint (of_int x :: u8) = x"
  by (simp add: sint_sbintrunc' signed_take_bit_int_eq_self)

lemma sint_s8_bounds: "- 128 \<le> sint (x :: u8)" "sint (x :: u8) \<le> 127"
  using sint_ge [of x] sint_lt [of x] by simp_all

lemma sar_range_loop_bounds:
  "- 128 \<le> pw \<Longrightarrow> pw \<le> 127 \<Longrightarrow> - 128 \<le> sar_range_loop freq fs pw \<and> sar_range_loop freq fs pw \<le> 127"
  using sint_s8_bounds by (induction fs) (auto split: option.split)

text \<open>The power a channel is limited to, as a number.\<close>

definition chan_limit :: "power_phy \<Rightarrow> sar_band \<Rightarrow> u8 \<Rightarrow> int" where
  "chan_limit phy band ch =
     (let tx_power = 2 * tp_power_level phy; tx_power = (if tx_power = 0 then 127 else tx_power)
      in mt76_get_sar_power (tp_frps phy) (tp_freq phy band (ucast ch))
           (sint (mt76_connac_get_ch_power phy band (ucast ch) (of_int tx_power))))"

lemma chan_target_limit: "sint (chan_target phy band ch) = chan_limit phy band ch"
proof -
  have "- 128 \<le> chan_limit phy band ch \<and> chan_limit phy band ch \<le> 127"
    using sar_range_loop_bounds sint_s8_bounds
    by (auto simp: chan_limit_def mt76_get_sar_power_def Let_def split: option.split)
  moreover have "chan_target phy band ch = of_int (chan_limit phy band ch)"
    by (simp only: chan_target_def chan_limit_def Let_def)
  ultimately show ?thesis using sint_of_int_s8 by simp
qed

text \<open>An entry of a message: a channel of the band with limits that are not above its power.\<close>

definition entry_ok :: "power_phy \<Rightarrow> sar_band \<Rightarrow> u8 \<times> u8 list \<Rightarrow> bool" where
  "entry_ok phy band e \<longleftrightarrow>
     length (snd e) = sku_len phy \<and>
     (\<forall>p \<in> sku_positions (tp_connac2 phy) band. p < sku_len phy \<longrightarrow> sint (snd e ! p) \<le> chan_limit phy band (fst e))"

lemma sku_entry_ok:
  assumes "pw_chainmask (tp_cfg phy) \<noteq> 0"
  shows "\<exists>sku. sku_entry phy band ch = Some (ch, sku) \<and> entry_ok phy band (ch, sku)"
proof -
  obtain mx d where d: "mt76_get_rate_power_limits (tp_cfg phy) band (ucast ch) (chan_target phy band ch) = Some (mx, d)"
    "limits_ok (chan_target phy band ch) d"
    using rate_power_limits_ok [OF assms] by blast
  from build_sku_filled [OF d(2), of "tp_connac2 phy" band] d(1) show ?thesis
    by (auto simp: sku_entry_def entry_ok_def filled_def below_def chan_target_limit sku_len_def)
qed

definition msg_channels :: "sku_msg \<Rightarrow> u8 list" where
  "msg_channels m = map fst (sm_entries m)"

lemma sku_loop_ok:
  assumes "pw_chainmask (tp_cfg phy) \<noteq> 0"
  shows "list_all (entry_ok phy band) es \<Longrightarrow> \<exists>es'. sku_loop phy band chs lst es =
      Some (if chs = [] then lst else last chs = last_channel phy, es') \<and>
    map fst es' = map fst es @ chs \<and> list_all (entry_ok phy band) es'"
proof (induction chs arbitrary: lst es)
  case Nil
  then show ?case by simp
next
  case (Cons ch chs)
  obtain sku where sku: "sku_entry phy band ch = Some (ch, sku)" "entry_ok phy band (ch, sku)"
    using sku_entry_ok [OF assms] by blast
  from Cons.IH [of "es @ [(ch, sku)]" "ch = last_channel phy"] Cons.prems sku show ?case by auto
qed

text \<open>What a message of a band is like.\<close>

definition msg_ok :: "power_phy \<Rightarrow> sar_band \<Rightarrow> nat \<Rightarrow> sku_msg \<Rightarrow> bool" where
  "msg_ok phy band batch_len m \<longleftrightarrow>
     sm_band m = band_number band \<and> sm_n_chan m = length (msg_channels m) \<and> msg_channels m \<noteq> [] \<and>
     length (msg_channels m) \<le> batch_len \<and> (sm_last m \<longleftrightarrow> last (msg_channels m) = last_channel phy) \<and>
     list_all (entry_ok phy band) (sm_entries m)"

text \<open>No allocation fails and no message is refused.\<close>

definition power_env_ok :: "power_env \<Rightarrow> bool" where
  "power_env_ok env \<longleftrightarrow> pe_limits env \<and> (\<forall>n. pe_alloc env n) \<and> (\<forall>n. 0 \<le> pe_answer env n)"

lemma band_loop_ok:
  assumes "pw_chainmask (tp_cfg phy) \<noteq> 0" "power_env_ok env" "0 < bl"
  shows "i + k = n \<Longrightarrow> (0 < k \<longrightarrow> (n - 1) * bl < length (ch_list band) \<and> length (ch_list band) \<le> n * bl) \<Longrightarrow> 0 \<le> err \<Longrightarrow>
    \<exists>err' ms. band_loop env phy band bl n i k err msgs = Some (err', msgs @ ms) \<and> 0 \<le> err' \<and>
      concat (map msg_channels ms) = (if k = 0 then [] else drop (i * bl) (ch_list band)) \<and>
      list_all (msg_ok phy band bl) ms"
proof (induction k arbitrary: i msgs err)
  case 0
  then show ?case by simp
next
  case (Suc k)
  let ?L = "ch_list band"
  define num where "num = (if i = n - 1 then length ?L - i * bl else bl)"
  have n: "(n - 1) * bl < length ?L" "length ?L \<le> n * bl" "i \<le> n - 1" "0 < n" using Suc.prems(1,2) by auto
  have ibl: "i * bl \<le> (n - 1) * bl" using n(3) by simp
  define chs where "chs = take num (drop (i * bl) ?L)"
  have "i * bl + bl \<le> (n - 1) * bl" if "i \<noteq> n - 1"
  proof -
    have "(i + 1) * bl \<le> (n - 1) * bl" using that n(3) by (intro mult_le_mono1) simp
    then show ?thesis by simp
  qed
  then have fit: "i * bl + num \<le> length ?L" using n ibl by (auto simp: num_def)
  have "length ?L - i * bl \<le> bl" if "i = n - 1"
  proof -
    have "n * bl = i * bl + bl" using that n(4) by (cases n) simp_all
    then show ?thesis using n(2) by linarith
  qed
  then have num: "0 < num" "num \<le> bl" using n ibl assms(3) by (auto simp: num_def)
  have lens: "length chs = num" using fit by (simp add: chs_def)
  then have ne: "chs \<noteq> []" using num(1) by auto
  obtain es where es: "sku_loop phy band chs False [] = Some (last chs = last_channel phy, es)" "map fst es = chs"
    "list_all (entry_ok phy band) es"
    using sku_loop_ok [OF assms(1), of band "[]" chs False] 
    by (simp only: ne if_False list.pred_inject(1) simp_thms list.map append.simps) blast
  define m where "m = \<lparr>sm_n_chan = num, sm_band = band_number band, sm_last = (last chs = last_channel phy), sm_entries = es\<rparr>"
  define err1 where "err1 = pe_answer env (length msgs)"
  have err1: "0 \<le> err1" using assms(2) by (simp add: err1_def power_env_ok_def)
  have run: "band_loop env phy band bl n i (Suc k) err msgs = band_loop env phy band bl n (i + 1) k err1 (msgs @ [m])"
    using assms(2) err1
    by (simp only: band_loop.simps Let_def power_env_ok_def flip: num_def chs_def err1_def)
      (simp add: es(1) m_def)
  have m: "msg_ok phy band bl m" "msg_channels m = chs"
    using es lens num by (auto simp: msg_ok_def m_def msg_channels_def)
  obtain err' ms where ms: "band_loop env phy band bl n (i + 1) k err1 (msgs @ [m]) = Some (err', (msgs @ [m]) @ ms)" "0 \<le> err'"
    "concat (map msg_channels ms) = (if k = 0 then [] else drop ((i + 1) * bl) ?L)" "list_all (msg_ok phy band bl) ms"
    using Suc.IH [of "i + 1" err1 "msgs @ [m]"] Suc.prems err1 n by auto
  have "chs @ (if k = 0 then [] else drop ((i + 1) * bl) ?L) = drop (i * bl) ?L"
  proof (cases "k = 0")
    case True
    then have "i = n - 1" using Suc.prems(1) by simp
    then show ?thesis using True by (simp add: chs_def num_def)
  next
    case False
    then have "i \<noteq> n - 1" using Suc.prems(1) by simp
    then show ?thesis using False
      by (simp add: chs_def num_def) (metis add.commute append_take_drop_id drop_drop)
  qed
  then show ?case
    using run ms m by (intro exI [of _ err'] exI [of _ "m # ms"]) simp
qed

lemma batches_fit:
  assumes "0 < L" "0 < (bl :: nat)" "n = (L + bl - 1) div bl"
  shows "(n - 1) * bl < L" "L \<le> n * bl" "0 < n"
proof -
  have "bl * n + (L + bl - 1) mod bl = L + bl - 1" using assms(3) by simp
  moreover have "(L + bl - 1) mod bl < bl" using assms(2) by simp
  ultimately have b: "bl * n \<le> L + bl - 1" "L \<le> bl * n" by linarith+
  then show "L \<le> n * bl" by (simp add: mult.commute)
  show "0 < n" using b(2) assms(1) by (cases n) simp_all
  then obtain k where k: "n = Suc k" by (cases n) auto
  with b(1) assms(1,2) show "(n - 1) * bl < L" by (simp add: algebra_simps)
qed

definition batch_len_of :: "power_phy \<Rightarrow> nat" where
  "batch_len_of phy = (if tp_connac2 phy then 8 else 16)"

lemma rate_txpower_band_ok:
  assumes "pw_chainmask (tp_cfg phy) \<noteq> 0" "power_env_ok env"
  shows "\<exists>err ms. mt76_connac_mcu_rate_txpower_band env phy band msgs = Some (err, msgs @ ms) \<and> 0 \<le> err \<and>
    concat (map msg_channels ms) = ch_list band \<and> list_all (msg_ok phy band (batch_len_of phy)) ms"
proof -
  let ?bl = "batch_len_of phy" and ?L = "length (ch_list band)"
  define n where "n = (?L + ?bl - 1) div ?bl"
  have pos: "0 < ?bl" "0 < ?L"
    by (simp_all add: batch_len_of_def ch_list_def chan_list_2ghz_def chan_list_5ghz_def chan_list_6ghz_def)
  note fit = batches_fit [OF pos(2,1) n_def]
  obtain err ms where "band_loop env phy band ?bl n 0 n 0 msgs = Some (err, msgs @ ms)" "0 \<le> err"
    "concat (map msg_channels ms) = drop (0 * ?bl) (ch_list band)" "list_all (msg_ok phy band ?bl) ms"
    using band_loop_ok [OF assms pos(1), of 0 n n band 0 msgs] fit by auto
  then show ?thesis
    using assms(2) by (simp add: mt76_connac_mcu_rate_txpower_band_def Let_def power_env_ok_def n_def batch_len_of_def)
qed

lemma flags_absent:
  "[] \<notin> set css \<Longrightarrow> x \<notin> set (concat css) \<Longrightarrow> map (\<lambda>c. last c = x) css = replicate (length css) False"
  by (induction css) auto

lemma flags_last:
  "distinct (concat css) \<Longrightarrow> [] \<notin> set css \<Longrightarrow> css \<noteq> [] \<Longrightarrow>
    map (\<lambda>c. last c = last (concat css)) css = replicate (length css - 1) False @ [True]"
proof (induction css rule: rev_induct)
  case Nil
  then show ?case by simp
next
  case (snoc c css)
  have "last (concat (css @ [c])) = last c" using snoc.prems(2) by (simp add: last_append eq_commute)
  moreover have "last c \<notin> set (concat css)" using snoc.prems(1,2) by (metis concat_append concat.simps
      append_Nil2 disjoint_iff distinct_append in_set_conv_decomp last_in_set)
  then have "map (\<lambda>d. last d = last c) css = replicate (length css) False"
    using snoc.prems(2) by (intro flags_absent) auto
  ultimately show ?case by simp
qed

lemma channel_lists:
  "distinct chan_list_2ghz" "distinct chan_list_5ghz" "distinct chan_list_6ghz"
  "last chan_list_5ghz = 177" "last chan_list_6ghz = 233" "last chan_list_2ghz = 14"
  "177 \<notin> set chan_list_2ghz" "233 \<notin> set chan_list_2ghz" "233 \<notin> set chan_list_5ghz"
  "chan_list_2ghz \<noteq> []" "chan_list_5ghz \<noteq> []" "chan_list_6ghz \<noteq> []"
  by (simp_all add: chan_list_2ghz_def chan_list_5ghz_def chan_list_6ghz_def)

text \<open>The flags of the messages of a band.\<close>

lemma band_flags:
  assumes "list_all (msg_ok phy band bl) ms" "concat (map msg_channels ms) = L"
  shows "last_channel phy \<notin> set L \<Longrightarrow> map sm_last ms = replicate (length ms) False"
    and "distinct L \<Longrightarrow> L \<noteq> [] \<Longrightarrow> last_channel phy = last L \<Longrightarrow> map sm_last ms = replicate (length ms - 1) False @ [True]"
proof -
  have flags: "map sm_last ms = map (\<lambda>c. last c = last_channel phy) (map msg_channels ms)"
    and ne: "[] \<notin> set (map msg_channels ms)"
    using assms(1) by (auto simp: list_all_iff msg_ok_def)
  show "map sm_last ms = replicate (length ms) False" if "last_channel phy \<notin> set L"
    unfolding flags using flags_absent [OF ne, of "last_channel phy"] that assms(2) by simp
  show "map sm_last ms = replicate (length ms - 1) False @ [True]"
    if "distinct L" "L \<noteq> []" "last_channel phy = last L"
  proof -
    have "ms \<noteq> []" using that(2) assms(2) by auto
    then show ?thesis unfolding flags using flags_last [of "map msg_channels ms"] ne that assms(2) by simp
  qed
qed

text \<open>The messages of a list of bands, with the lists of the bands that the radio has.\<close>

lemma txpower_bands_ok:
  assumes "pw_chainmask (tp_cfg phy) \<noteq> 0" "power_env_ok env"
  shows "\<exists>mss. txpower_bands env phy bs msgs = Some (0, msgs @ concat mss) \<and>
    list_all2 (\<lambda>(has, band) ms. concat (map msg_channels ms) = (if has then ch_list band else []) \<and>
      list_all (msg_ok phy band (batch_len_of phy)) ms) bs mss"
proof (induction bs arbitrary: msgs)
  case Nil
  then show ?case by (intro exI [of _ "[]"]) simp
next
  case (Cons b bs)
  obtain has band where b: "b = (has, band)" by (cases b)
  show ?case
  proof (cases has)
    case False
    obtain mss where "txpower_bands env phy bs msgs = Some (0, msgs @ concat mss)"
      "list_all2 (\<lambda>(has, band) ms. concat (map msg_channels ms) = (if has then ch_list band else []) \<and>
        list_all (msg_ok phy band (batch_len_of phy)) ms) bs mss"
      using Cons.IH by blast
    with b False show ?thesis by (intro exI [of _ "[] # mss"]) simp
  next
    case True
    obtain err ms where ms: "mt76_connac_mcu_rate_txpower_band env phy band msgs = Some (err, msgs @ ms)" "0 \<le> err"
      "concat (map msg_channels ms) = ch_list band" "list_all (msg_ok phy band (batch_len_of phy)) ms"
      using rate_txpower_band_ok [OF assms] by blast
    obtain mss where "txpower_bands env phy bs (msgs @ ms) = Some (0, (msgs @ ms) @ concat mss)"
      "list_all2 (\<lambda>(has, band) ms. concat (map msg_channels ms) = (if has then ch_list band else []) \<and>
        list_all (msg_ok phy band (batch_len_of phy)) ms) bs mss"
      using Cons.IH by blast
    with b True ms show ?thesis by (intro exI [of _ "ms # mss"]) simp
  qed
qed

lemma set_rate_txpower_ok:
  assumes "pw_chainmask (tp_cfg phy) \<noteq> 0" "power_env_ok env"
  shows "\<exists>m2 m5 m6. mt76_connac_mcu_set_rate_txpower env phy = Some (0, m2 @ m5 @ m6) \<and>
    concat (map msg_channels m2) = (if tp_has_2ghz phy then chan_list_2ghz else []) \<and>
    concat (map msg_channels m5) = (if tp_has_5ghz phy then chan_list_5ghz else []) \<and>
    concat (map msg_channels m6) = (if tp_has_6ghz phy then chan_list_6ghz else []) \<and>
    list_all (msg_ok phy Band_2ghz (batch_len_of phy)) m2 \<and> list_all (msg_ok phy Band_5ghz (batch_len_of phy)) m5 \<and>
    list_all (msg_ok phy Band_6ghz (batch_len_of phy)) m6"
  using txpower_bands_ok [OF assms, of "[(tp_has_2ghz phy, Band_2ghz), (tp_has_5ghz phy, Band_5ghz), (tp_has_6ghz phy, Band_6ghz)]" "[]"]
  by (fastforce simp: mt76_connac_mcu_set_rate_txpower_def list_all2_Cons1 ch_list_def)

text \<open>The flags of the messages of the three bands together.\<close>

lemma last_flags:
  assumes "tp_has_2ghz phy \<or> tp_has_5ghz phy \<or> tp_has_6ghz phy"
    and "concat (map msg_channels m2) = (if tp_has_2ghz phy then chan_list_2ghz else [])"
      "concat (map msg_channels m5) = (if tp_has_5ghz phy then chan_list_5ghz else [])"
      "concat (map msg_channels m6) = (if tp_has_6ghz phy then chan_list_6ghz else [])"
    and "list_all (msg_ok phy Band_2ghz (batch_len_of phy)) m2" "list_all (msg_ok phy Band_5ghz (batch_len_of phy)) m5"
      "list_all (msg_ok phy Band_6ghz (batch_len_of phy)) m6"
  shows "map sm_last (m2 @ m5 @ m6) = replicate (length (m2 @ m5 @ m6) - 1) False @ [True]"
proof -
  note fl2 = band_flags [OF assms(5) assms(2)] and fl5 = band_flags [OF assms(6) assms(3)] and fl6 = band_flags [OF assms(7) assms(4)]
  have none: "ms = []" if "concat (map msg_channels ms) = []" "list_all (msg_ok phy b n) ms" for ms b n
    using that by (cases ms) (auto simp: msg_ok_def)
  show ?thesis
  proof (cases "tp_has_6ghz phy")
    case True
    then have "m6 \<noteq> []" "map sm_last m6 = replicate (length m6 - 1) False @ [True]"
      using assms(4) fl6(2) channel_lists by (auto simp: last_channel_def)
    moreover have "map sm_last m2 = replicate (length m2) False" "map sm_last m5 = replicate (length m5) False"
      using True fl2(1) fl5(1) channel_lists by (auto simp: last_channel_def split: if_splits)
    ultimately show ?thesis by (cases "length m6") (simp_all add: replicate_add [symmetric] flip: append_assoc)
  next
    case no6: False
    then have m6: "m6 = []" using none [of m6] assms(4) assms(7) by simp
    show ?thesis
    proof (cases "tp_has_5ghz phy")
      case True
      then have "m5 \<noteq> []" "map sm_last m5 = replicate (length m5 - 1) False @ [True]"
        using assms(3) fl5(2) no6 channel_lists by (auto simp: last_channel_def)
      moreover have "map sm_last m2 = replicate (length m2) False"
        using True no6 fl2(1) channel_lists by (auto simp: last_channel_def split: if_splits)
      ultimately show ?thesis by (cases "length m5") (simp_all add: m6 replicate_add [symmetric] flip: append_assoc)
    next
      case False
      then have "m5 = []" using none [of m5] assms(3) assms(6) by simp
      moreover have "map sm_last m2 = replicate (length m2 - 1) False @ [True]"
        using False no6 assms(1) assms(2) fl2(2) channel_lists by (auto simp: last_channel_def)
      ultimately show ?thesis by (simp add: m6)
    qed
  qed
qed

text \<open>
  C31: The table of limits reaches the firmware whole and in order: with memory for every message and
  no message refused, the channels of the messages are those of the lists of the radio's bands, each
  once and in their order, every message carries one entry per channel it announces and at most 8
  (16 on older chips), and exactly the last message is marked as the last.
\<close>

theorem power_table_whole:
  assumes "pw_chainmask (tp_cfg phy) \<noteq> 0" "power_env_ok env"
    and "tp_has_2ghz phy \<or> tp_has_5ghz phy \<or> tp_has_6ghz phy"
  shows "\<exists>msgs. mt76_connac_mcu_set_rate_txpower env phy = Some (0, msgs) \<and>
    concat (map msg_channels msgs) = (if tp_has_2ghz phy then chan_list_2ghz else []) @
      (if tp_has_5ghz phy then chan_list_5ghz else []) @ (if tp_has_6ghz phy then chan_list_6ghz else []) \<and>
    list_all (\<lambda>m. sm_n_chan m = length (sm_entries m) \<and> sm_n_chan m \<le> batch_len_of phy) msgs \<and>
    map sm_last msgs = replicate (length msgs - 1) False @ [True]"
proof -
  obtain m2 m5 m6 where run: "mt76_connac_mcu_set_rate_txpower env phy = Some (0, m2 @ m5 @ m6)"
    and chans: "concat (map msg_channels m2) = (if tp_has_2ghz phy then chan_list_2ghz else [])"
      "concat (map msg_channels m5) = (if tp_has_5ghz phy then chan_list_5ghz else [])"
      "concat (map msg_channels m6) = (if tp_has_6ghz phy then chan_list_6ghz else [])"
    and ok: "list_all (msg_ok phy Band_2ghz (batch_len_of phy)) m2" "list_all (msg_ok phy Band_5ghz (batch_len_of phy)) m5"
      "list_all (msg_ok phy Band_6ghz (batch_len_of phy)) m6"
    using set_rate_txpower_ok [OF assms(1,2)] by blast
  have sizes: "list_all (\<lambda>m. sm_n_chan m = length (sm_entries m) \<and> sm_n_chan m \<le> batch_len_of phy) (m2 @ m5 @ m6)"
    using ok by (auto simp: list_all_iff msg_ok_def msg_channels_def)
  have "map sm_last (m2 @ m5 @ m6) = replicate (length (m2 @ m5 @ m6) - 1) False @ [True]"
    using last_flags [OF assms(3) chans ok] .
  with run sizes chans show ?thesis by (intro exI [of _ "m2 @ m5 @ m6"]) simp
qed

text \<open>
  C32: No limit in the table is above the power of its channel, which takes the regulatory limit, the
  limits of the user and of ACPI, and the configured level together: at every place of a rate the entry
  of a channel holds at most \<open>chan_limit\<close>, whatever the device tree adds.
\<close>

theorem power_table_limits:
  assumes "pw_chainmask (tp_cfg phy) \<noteq> 0" "power_env_ok env"
    and "mt76_connac_mcu_set_rate_txpower env phy = Some (err, msgs)" "m \<in> set msgs" "(ch, sku) \<in> set (sm_entries m)"
  shows "\<exists>band. sm_band m = band_number band \<and> ch \<in> set (ch_list band) \<and> length sku = sku_len phy \<and>
    (\<forall>p \<in> sku_positions (tp_connac2 phy) band. p < sku_len phy \<longrightarrow> sint (sku ! p) \<le> chan_limit phy band ch)"
proof -
  obtain m2 m5 m6 where msgs: "msgs = m2 @ m5 @ m6"
    and chans: "concat (map msg_channels m2) = (if tp_has_2ghz phy then ch_list Band_2ghz else [])"
      "concat (map msg_channels m5) = (if tp_has_5ghz phy then ch_list Band_5ghz else [])"
      "concat (map msg_channels m6) = (if tp_has_6ghz phy then ch_list Band_6ghz else [])"
    and ok: "list_all (msg_ok phy Band_2ghz (batch_len_of phy)) m2" "list_all (msg_ok phy Band_5ghz (batch_len_of phy)) m5"
      "list_all (msg_ok phy Band_6ghz (batch_len_of phy)) m6"
    using set_rate_txpower_ok [OF assms(1,2)] assms(3) by (auto simp: ch_list_def)
  have entry: ?thesis if "m \<in> set ms" "list_all (msg_ok phy b (batch_len_of phy)) ms"
    "concat (map msg_channels ms) = (if has then ch_list b else [])" for ms b has
  proof -
    have "ch \<in> set (msg_channels m)" using assms(5) by (force simp: msg_channels_def)
    then have "ch \<in> set (concat (map msg_channels ms))" using that(1) by auto
    then have "ch \<in> set (ch_list b)" using that(3) by (simp split: if_splits)
    moreover have "sm_band m = band_number b" "entry_ok phy b (ch, sku)"
      using that(1,2) assms(5) by (auto simp: list_all_iff msg_ok_def)
    ultimately show ?thesis by (auto simp: entry_ok_def)
  qed
  show ?thesis
    using assms(4) msgs entry [OF _ ok(1) chans(1)] entry [OF _ ok(2) chans(2)] entry [OF _ ok(3) chans(3)] by auto
qed

definition demo_power_env :: power_env where
  "demo_power_env = \<lparr>pe_limits = True, pe_alloc = (\<lambda>_. True), pe_answer = (\<lambda>_. 0)\<rparr>"

definition demo_power_phy :: power_phy where
  "demo_power_phy = \<lparr>tp_connac2 = True, tp_mt7663 = False, tp_sband = (\<lambda>_. []), tp_power_level = 20, tp_has_2ghz = True,
     tp_has_5ghz = False, tp_has_6ghz = False, tp_frps = None, tp_freq = (\<lambda>_ c. 2407 + 5 * uint c), tp_cfg = demo_power_cfg\<rparr>"

lemma demo_power_phy_ok: "pw_chainmask (tp_cfg demo_power_phy) \<noteq> 0" "power_env_ok demo_power_env" "tp_has_2ghz demo_power_phy"
  by (simp_all add: demo_power_phy_def demo_power_cfg_def demo_power_env_def power_env_ok_def)

theorem power_table_whole_witness:
  "\<exists>msgs. mt76_connac_mcu_set_rate_txpower demo_power_env demo_power_phy = Some (0, msgs) \<and>
     concat (map msg_channels msgs) = chan_list_2ghz"
  using power_table_whole [OF demo_power_phy_ok(1,2)] demo_power_phy_ok(3) by (auto simp: demo_power_phy_def)

theorem power_table_limits_witness:
  "\<exists>msgs m sku. mt76_connac_mcu_set_rate_txpower demo_power_env demo_power_phy = Some (0, msgs) \<and> m \<in> set msgs \<and>
     (1, sku) \<in> set (sm_entries m) \<and> (\<exists>band. sm_band m = band_number band \<and>
       (\<forall>p \<in> sku_positions True band. p < 161 \<longrightarrow> sint (sku ! p) \<le> chan_limit demo_power_phy band 1))"
proof -
  obtain msgs where msgs: "mt76_connac_mcu_set_rate_txpower demo_power_env demo_power_phy = Some (0, msgs)"
    "concat (map msg_channels msgs) = chan_list_2ghz"
    using set_rate_txpower_ok [OF demo_power_phy_ok(1,2)] by (fastforce simp: demo_power_phy_def)
  have "1 \<in> set (concat (map msg_channels msgs))" by (simp add: msgs(2) chan_list_2ghz_def)
  then obtain m sku where "m \<in> set msgs" "(1, sku) \<in> set (sm_entries m)" by (auto simp: msg_channels_def)
  with power_table_limits [OF demo_power_phy_ok(1,2) msgs(1) this] msgs(1) show ?thesis
    by (auto simp: demo_power_phy_def sku_len_def)
qed

end
