(* ===== verification/PmState.thy ===== *)
theory PmState
  imports Mt76Prelude "HOL-Library.Multiset"
begin

text \<open>
  Runtime power management: who may put the device to sleep and who keeps it awake. The code is in
  src/src/mt76/mt76_connac.h, mt76_connac_mac.c, mt792x_mac.c and mt792x_core.c. The wake work and the
  power-save work run on one ordered work queue, so at most one of them runs; each of them, a thread
  that takes \<open>dev->mutex\<close>, and the users that take a reference are program counters whose steps are
  interleaved. A step is what the code does between two points where another one can run.
\<close>

section \<open>State\<close>

text \<open>\<open>mt792x_pm_power_save_work\<close> with \<open>mt792x_mcu_fw_pmctrl\<close>; \<open>Ps_lock\<close> is the section under \<open>wake.lock\<close>.\<close>

datatype ps_pc = Ps_idle | Ps_state | Ps_mutex | Ps_time | Ps_token | Ps_lock | Ps_own | Ps_requeue

text \<open>\<open>mt792x_pm_wake_work\<close> with \<open>mt792x_mcu_drv_pmctrl\<close>.\<close>

datatype wk_pc = Wk_idle | Wk_drv | Wk_clear | Wk_dequeue | Wk_queues

text \<open>
  A thread that takes the mutex: waiting for the power-save work to be cancelled, testing the state,
  waiting for the wake-up, holding the mutex (with the device known to be awake or not), releasing it.
\<close>

datatype acq_pc = A_none | A_cancelling | A_testing | A_waiting | A_holds bool | A_releasing

record pm_state =
  pm_bit :: bool
  pm_fw_own :: bool
  pm_failed :: bool
  pm_suspended :: bool
  pm_enable :: bool
  pm_wake_count :: nat
  pm_tokens :: nat
  pm_acq :: acq_pc
  pm_ps_queued :: bool
  pm_wk_queued :: bool
  pm_ps :: ps_pc
  pm_wk :: wk_pc
  pm_tx_q :: "nat option list"
  pm_stopped :: bool
  pm_queued :: "nat list"
  pm_sent :: "nat list"
  pm_dropped :: "nat list"

definition pm_init :: "pm_state \<Rightarrow> bool" where
  "pm_init s \<longleftrightarrow> \<not> pm_bit s \<and> \<not> pm_fw_own s \<and> \<not> pm_failed s \<and> pm_wake_count s = 0 \<and> pm_tokens s = 0 \<and>
     pm_acq s = A_none \<and> \<not> pm_ps_queued s \<and> \<not> pm_wk_queued s \<and> pm_ps s = Ps_idle \<and> pm_wk s = Wk_idle \<and>
     pm_tx_q s = replicate 4 None \<and> \<not> pm_stopped s \<and> pm_queued s = [] \<and> pm_sent s = [] \<and> pm_dropped s = []"

section \<open>Operations\<close>

definition mt76_connac_power_save_sched :: "pm_state \<Rightarrow> pm_state" where
  "mt76_connac_power_save_sched s =
     (if \<not> pm_enable s \<or> pm_suspended s \<or> pm_bit s then s else s\<lparr>pm_ps_queued := True\<rparr>)"

definition mt76_connac_pm_ref :: "pm_state \<Rightarrow> bool \<times> pm_state" where
  "mt76_connac_pm_ref s =
     (if pm_bit s then (False, s) else (True, s\<lparr>pm_wake_count := pm_wake_count s + 1\<rparr>))"

text \<open>\<open>running\<close>: \<open>MT76_STATE_MCU_RUNNING\<close>.\<close>

definition mt76_connac_pm_unref :: "bool \<Rightarrow> pm_state \<Rightarrow> pm_state" where
  "mt76_connac_pm_unref running s =
     (let s = s\<lparr>pm_wake_count := pm_wake_count s - 1\<rparr> in
      if pm_wake_count s = 0 \<and> running then mt76_connac_power_save_sched s else s)"

definition mt76_connac_pm_queue_skb :: "nat \<Rightarrow> nat \<Rightarrow> pm_state \<Rightarrow> pm_state" where
  "mt76_connac_pm_queue_skb qid skb s =
     (let s = s\<lparr>pm_queued := pm_queued s @ [skb]\<rparr> in
      if pm_tx_q s ! qid = None
      then s\<lparr>pm_stopped := True, pm_tx_q := (pm_tx_q s)[qid := Some skb], pm_wk_queued := True\<rparr>
      else s\<lparr>pm_dropped := pm_dropped s @ [skb]\<rparr>)"

definition waiting_skbs :: "pm_state \<Rightarrow> nat list" where
  "waiting_skbs s = map the (filter (\<lambda>x. x \<noteq> None) (pm_tx_q s))"

definition mt76_connac_pm_dequeue_skbs :: "pm_state \<Rightarrow> pm_state" where
  "mt76_connac_pm_dequeue_skbs s =
     s\<lparr>pm_sent := pm_sent s @ waiting_skbs s, pm_tx_q := map (\<lambda>_. None) (pm_tx_q s)\<rparr>"

text \<open>
  \<open>mt76_connac_skip_fw_pmctrl\<close> behind the test of the tokens; it returns whether sleeping is skipped.
\<close>

definition mt76_connac_skip_fw_pmctrl :: "pm_state \<Rightarrow> bool \<times> pm_state" where
  "mt76_connac_skip_fw_pmctrl s = (pm_wake_count s > 0 \<or> pm_bit s, if pm_wake_count s > 0 then s else s\<lparr>pm_bit := True\<rparr>)"

section \<open>Steps\<close>

inductive pwr_save_step :: "pm_state \<Rightarrow> pm_state \<Rightarrow> bool" where
  ps_start: "\<lbrakk>pm_ps_queued s; pm_ps s = Ps_idle; pm_wk s = Wk_idle\<rbrakk>
    \<Longrightarrow> pwr_save_step s (s\<lparr>pm_ps_queued := False, pm_ps := Ps_state\<rparr>)"
| ps_scanning: "pm_ps s = Ps_state \<Longrightarrow> pwr_save_step s (s\<lparr>pm_ps := Ps_requeue\<rparr>)"
| ps_not_scanning: "pm_ps s = Ps_state \<Longrightarrow> pwr_save_step s (s\<lparr>pm_ps := Ps_mutex\<rparr>)"
| ps_mutex_locked: "\<lbrakk>pm_ps s = Ps_mutex; pm_acq s \<noteq> A_none\<rbrakk> \<Longrightarrow> pwr_save_step s (s\<lparr>pm_ps := Ps_requeue\<rparr>)"
| ps_mutex_free: "\<lbrakk>pm_ps s = Ps_mutex; pm_acq s = A_none\<rbrakk> \<Longrightarrow> pwr_save_step s (s\<lparr>pm_ps := Ps_time\<rparr>)"
| ps_active: "pm_ps s = Ps_time \<Longrightarrow> pwr_save_step s (s\<lparr>pm_ps := Ps_requeue\<rparr>)"
| ps_expired: "pm_ps s = Ps_time \<Longrightarrow> pwr_save_step s (s\<lparr>pm_ps := Ps_token\<rparr>)"
| ps_tokens: "\<lbrakk>pm_ps s = Ps_token; pm_tokens s > 0\<rbrakk> \<Longrightarrow> pwr_save_step s (s\<lparr>pm_ps := Ps_idle\<rparr>)"
| ps_no_tokens: "\<lbrakk>pm_ps s = Ps_token; pm_tokens s = 0\<rbrakk> \<Longrightarrow> pwr_save_step s (s\<lparr>pm_ps := Ps_lock\<rparr>)"
| ps_skip: "\<lbrakk>pm_ps s = Ps_lock; mt76_connac_skip_fw_pmctrl s = (True, t)\<rbrakk> \<Longrightarrow> pwr_save_step s (t\<lparr>pm_ps := Ps_idle\<rparr>)"
| ps_sleep: "\<lbrakk>pm_ps s = Ps_lock; mt76_connac_skip_fw_pmctrl s = (False, t)\<rbrakk> \<Longrightarrow> pwr_save_step s (t\<lparr>pm_ps := Ps_own\<rparr>)"
| ps_own: "pm_ps s = Ps_own \<Longrightarrow> pwr_save_step s (s\<lparr>pm_fw_own := True, pm_ps := Ps_idle\<rparr>)"
| ps_own_fails: "pm_ps s = Ps_own
    \<Longrightarrow> pwr_save_step s (s\<lparr>pm_fw_own := owned, pm_bit := False, pm_failed := True, pm_ps := Ps_requeue\<rparr>)"
| ps_requeue: "pm_ps s = Ps_requeue \<Longrightarrow> pwr_save_step s (s\<lparr>pm_ps_queued := True, pm_ps := Ps_idle\<rparr>)"

inductive wake_work_step :: "pm_state \<Rightarrow> pm_state \<Rightarrow> bool" where
  wk_start: "\<lbrakk>pm_wk_queued s; pm_ps s = Ps_idle; pm_wk s = Wk_idle\<rbrakk>
    \<Longrightarrow> wake_work_step s (s\<lparr>pm_wk_queued := False, pm_wk := Wk_drv\<rparr>)"
| wk_awake: "\<lbrakk>pm_wk s = Wk_drv; \<not> pm_bit s\<rbrakk> \<Longrightarrow> wake_work_step s (s\<lparr>pm_wk := Wk_dequeue\<rparr>)"
| wk_own: "\<lbrakk>pm_wk s = Wk_drv; pm_bit s\<rbrakk> \<Longrightarrow> wake_work_step s (s\<lparr>pm_fw_own := False, pm_wk := Wk_clear\<rparr>)"
| wk_own_fails: "\<lbrakk>pm_wk s = Wk_drv; pm_bit s\<rbrakk> \<Longrightarrow> wake_work_step s (s\<lparr>pm_failed := True, pm_wk := Wk_queues\<rparr>)"
| wk_clear: "pm_wk s = Wk_clear \<Longrightarrow> wake_work_step s (s\<lparr>pm_bit := False, pm_wk := Wk_dequeue\<rparr>)"
| wk_dequeue: "pm_wk s = Wk_dequeue \<Longrightarrow> wake_work_step s ((mt76_connac_pm_dequeue_skbs s)\<lparr>pm_wk := Wk_queues\<rparr>)"
| wk_queues: "pm_wk s = Wk_queues \<Longrightarrow> wake_work_step s (s\<lparr>pm_stopped := False, pm_wk := Wk_idle\<rparr>)"

text \<open>\<open>mt76_connac_mutex_acquire\<close> with \<open>mt76_connac_pm_wake\<close>, and \<open>mt76_connac_mutex_release\<close>.\<close>

inductive acq_step :: "pm_state \<Rightarrow> pm_state \<Rightarrow> bool" where
  acq_lock: "pm_acq s = A_none \<Longrightarrow> acq_step s (s\<lparr>pm_acq := A_cancelling\<rparr>)"
| acq_cancelled: "\<lbrakk>pm_acq s = A_cancelling; pm_ps s = Ps_idle\<rbrakk>
    \<Longrightarrow> acq_step s (s\<lparr>pm_ps_queued := False, pm_acq := A_testing\<rparr>)"
| acq_awake: "\<lbrakk>pm_acq s = A_testing; \<not> pm_bit s\<rbrakk> \<Longrightarrow> acq_step s (s\<lparr>pm_acq := A_holds True\<rparr>)"
| acq_suspended: "\<lbrakk>pm_acq s = A_testing; pm_bit s; pm_suspended s\<rbrakk> \<Longrightarrow> acq_step s (s\<lparr>pm_acq := A_holds False\<rparr>)"
| acq_wake: "\<lbrakk>pm_acq s = A_testing; pm_bit s; \<not> pm_suspended s\<rbrakk>
    \<Longrightarrow> acq_step s (s\<lparr>pm_wk_queued := True, pm_acq := A_waiting\<rparr>)"
| acq_woken: "\<lbrakk>pm_acq s = A_waiting; \<not> pm_bit s\<rbrakk> \<Longrightarrow> acq_step s (s\<lparr>pm_acq := A_holds True\<rparr>)"
| acq_timeout: "\<lbrakk>pm_acq s = A_waiting; pm_bit s\<rbrakk> \<Longrightarrow> acq_step s (s\<lparr>pm_stopped := False, pm_acq := A_holds False\<rparr>)"
| acq_release: "pm_acq s = A_holds b \<Longrightarrow> acq_step s ((mt76_connac_power_save_sched s)\<lparr>pm_acq := A_releasing\<rparr>)"
| acq_unlock: "pm_acq s = A_releasing \<Longrightarrow> acq_step s (s\<lparr>pm_acq := A_none\<rparr>)"

text \<open>
  Users: references (transmission, polling), tokens of frames, which are taken and given back under a
  reference, frames that find the device asleep, and interrupts that do.
\<close>

inductive user_step :: "pm_state \<Rightarrow> pm_state \<Rightarrow> bool" where
  user_ref: "mt76_connac_pm_ref s = (True, t) \<Longrightarrow> user_step s t"
| user_unref: "pm_wake_count s > 0 \<Longrightarrow> user_step s (mt76_connac_pm_unref running s)"
| user_token: "pm_wake_count s > 0 \<Longrightarrow> user_step s (s\<lparr>pm_tokens := pm_tokens s + 1\<rparr>)"
| user_token_back: "\<lbrakk>pm_wake_count s > 0; pm_tokens s > 0\<rbrakk> \<Longrightarrow> user_step s (s\<lparr>pm_tokens := pm_tokens s - 1\<rparr>)"
| user_queue: "qid < 4 \<Longrightarrow> user_step s (mt76_connac_pm_queue_skb qid skb s)"
| user_poll: "user_step s (s\<lparr>pm_wk_queued := True\<rparr>)"

inductive pm_step :: "pm_state \<Rightarrow> pm_state \<Rightarrow> bool" where
  power_save: "pwr_save_step s t \<Longrightarrow> pm_step s t"
| wake: "wake_work_step s t \<Longrightarrow> pm_step s t"
| acquire: "acq_step s t \<Longrightarrow> pm_step s t"
| user: "user_step s t \<Longrightarrow> pm_step s t"

inductive_cases pwr_save_stepE: "pwr_save_step s t"
inductive_cases wk_stepE: "wake_work_step s t"
inductive_cases acq_stepE: "acq_step s t"
inductive_cases user_stepE: "user_step s t"
inductive_cases pm_stepE: "pm_step s t"

section \<open>Invariant\<close>

definition pm_inv :: "pm_state \<Rightarrow> bool" where
  "pm_inv s \<longleftrightarrow>
     (pm_wake_count s > 0 \<longrightarrow> \<not> pm_bit s) \<and>
     (pm_fw_own s \<longrightarrow> pm_bit s \<or> pm_failed s) \<and>
     (pm_wk s = Wk_clear \<longrightarrow> \<not> pm_fw_own s) \<and>
     (pm_ps s = Ps_idle \<or> pm_wk s = Wk_idle) \<and>
     (pm_ps s = Ps_own \<longrightarrow> pm_bit s) \<and>
     (pm_acq s = A_testing \<or> pm_acq s = A_waiting \<or> (\<exists>b. pm_acq s = A_holds b) \<longrightarrow>
       pm_ps s \<in> {Ps_idle, Ps_state, Ps_mutex, Ps_requeue}) \<and>
     (pm_acq s = A_holds True \<longrightarrow> \<not> pm_bit s)"

definition pm_queue_inv :: "pm_state \<Rightarrow> bool" where
  "pm_queue_inv s \<longleftrightarrow>
     length (pm_tx_q s) = 4 \<and>
     mset (pm_queued s) = mset (pm_sent s) + mset (pm_dropped s) + mset (waiting_skbs s) \<and>
     (waiting_skbs s \<noteq> [] \<longrightarrow> pm_wk_queued s \<or> pm_wk s \<in> {Wk_drv, Wk_clear, Wk_dequeue} \<or> pm_failed s) \<and>
     (pm_stopped s \<longrightarrow> pm_wk_queued s \<or> pm_wk s \<noteq> Wk_idle)"

lemmas pm_ops = mt76_connac_power_save_sched_def mt76_connac_pm_ref_def mt76_connac_pm_unref_def
  mt76_connac_pm_queue_skb_def mt76_connac_pm_dequeue_skbs_def mt76_connac_skip_fw_pmctrl_def Let_def

lemma skip_cases:
  "mt76_connac_skip_fw_pmctrl s = (True, t) \<Longrightarrow> t = s \<or> t = s\<lparr>pm_bit := True\<rparr> \<and> pm_bit s \<and> pm_wake_count s = 0"
  "mt76_connac_skip_fw_pmctrl s = (False, t) \<Longrightarrow> t = s\<lparr>pm_bit := True\<rparr> \<and> pm_wake_count s = 0 \<and> \<not> pm_bit s"
  by (auto simp: mt76_connac_skip_fw_pmctrl_def)

lemma pm_inv_ps: "pwr_save_step s t \<Longrightarrow> pm_inv s \<Longrightarrow> pm_inv t"
proof (induction rule: pwr_save_step.induct)
  case (ps_skip s t)
  from skip_cases(1) [OF ps_skip(2)] ps_skip(1,3) show ?case by (elim disjE conjE) (auto simp: pm_inv_def)
next
  case (ps_sleep s t)
  from skip_cases(2) [OF ps_sleep(2)] ps_sleep(1,3) show ?case by (auto simp: pm_inv_def)
qed (auto simp: pm_inv_def)

lemma pm_inv_wk: "wake_work_step s t \<Longrightarrow> pm_inv s \<Longrightarrow> pm_inv t"
  by (induction rule: wake_work_step.induct) (auto simp: pm_inv_def mt76_connac_pm_dequeue_skbs_def)

lemma sched_simps [simp]:
  "pm_bit (mt76_connac_power_save_sched s) = pm_bit s"
  "pm_fw_own (mt76_connac_power_save_sched s) = pm_fw_own s"
  "pm_failed (mt76_connac_power_save_sched s) = pm_failed s"
  "pm_suspended (mt76_connac_power_save_sched s) = pm_suspended s"
  "pm_wake_count (mt76_connac_power_save_sched s) = pm_wake_count s"
  "pm_tokens (mt76_connac_power_save_sched s) = pm_tokens s"
  "pm_acq (mt76_connac_power_save_sched s) = pm_acq s"
  "pm_wk_queued (mt76_connac_power_save_sched s) = pm_wk_queued s"
  "pm_ps (mt76_connac_power_save_sched s) = pm_ps s" "pm_wk (mt76_connac_power_save_sched s) = pm_wk s"
  "pm_tx_q (mt76_connac_power_save_sched s) = pm_tx_q s"
  "pm_stopped (mt76_connac_power_save_sched s) = pm_stopped s"
  "pm_queued (mt76_connac_power_save_sched s) = pm_queued s"
  "pm_sent (mt76_connac_power_save_sched s) = pm_sent s"
  "pm_dropped (mt76_connac_power_save_sched s) = pm_dropped s"
  by (simp_all add: mt76_connac_power_save_sched_def)

lemma unref_simps [simp]:
  "pm_bit (mt76_connac_pm_unref r s) = pm_bit s" "pm_fw_own (mt76_connac_pm_unref r s) = pm_fw_own s"
  "pm_failed (mt76_connac_pm_unref r s) = pm_failed s"
  "pm_suspended (mt76_connac_pm_unref r s) = pm_suspended s"
  "pm_tokens (mt76_connac_pm_unref r s) = pm_tokens s" "pm_acq (mt76_connac_pm_unref r s) = pm_acq s"
  "pm_wk_queued (mt76_connac_pm_unref r s) = pm_wk_queued s" "pm_ps (mt76_connac_pm_unref r s) = pm_ps s"
  "pm_wk (mt76_connac_pm_unref r s) = pm_wk s" "pm_tx_q (mt76_connac_pm_unref r s) = pm_tx_q s"
  "pm_stopped (mt76_connac_pm_unref r s) = pm_stopped s"
  "pm_queued (mt76_connac_pm_unref r s) = pm_queued s" "pm_sent (mt76_connac_pm_unref r s) = pm_sent s"
  "pm_dropped (mt76_connac_pm_unref r s) = pm_dropped s"
  "pm_wake_count (mt76_connac_pm_unref r s) = pm_wake_count s - 1"
  by (simp_all add: mt76_connac_pm_unref_def Let_def)

lemma pm_inv_acq: "acq_step s t \<Longrightarrow> pm_inv s \<Longrightarrow> pm_inv t"
  by (induction rule: acq_step.induct) (simp_all add: pm_inv_def)

lemma pm_inv_user: "user_step s t \<Longrightarrow> pm_inv s \<Longrightarrow> pm_inv t"
proof (induction rule: user_step.induct)
  case (user_ref s t)
  then have "\<not> pm_bit s" "t = s\<lparr>pm_wake_count := pm_wake_count s + 1\<rparr>"
    by (simp_all add: mt76_connac_pm_ref_def split: if_splits)
  then show ?case using user_ref(2) by (simp add: pm_inv_def)
qed (auto simp: pm_inv_def mt76_connac_pm_queue_skb_def Let_def)

definition slot_skbs :: "nat option list \<Rightarrow> nat list" where
  "slot_skbs q = map the (filter (\<lambda>x. x \<noteq> None) q)"

lemma slot_skbs_set:
  "q ! i = None \<Longrightarrow> i < length q \<Longrightarrow> mset (slot_skbs (q[i := Some x])) = add_mset x (mset (slot_skbs q))"
proof (induction q arbitrary: i)
  case Nil
  then show ?case by simp
next
  case (Cons y q)
  then show ?case by (cases i) (auto simp: slot_skbs_def)
qed

lemma slot_skbs_clear: "slot_skbs (map (\<lambda>_. None) q) = []"
  by (induction q) (simp_all add: slot_skbs_def)

lemma waiting_slots: "waiting_skbs s = slot_skbs (pm_tx_q s)"
  by (simp add: waiting_skbs_def slot_skbs_def)

text \<open>The queue invariant depends on these parts only.\<close>

lemma pm_queue_inv_cong:
  assumes "pm_queue_inv s" "pm_tx_q t = pm_tx_q s" "pm_queued t = pm_queued s" "pm_sent t = pm_sent s"
    and "pm_dropped t = pm_dropped s" "pm_wk_queued s \<Longrightarrow> pm_wk_queued t" "pm_wk t = pm_wk s"
    and "pm_failed s \<Longrightarrow> pm_failed t" "pm_stopped t \<Longrightarrow> pm_stopped s"
  shows "pm_queue_inv t"
  using assms by (auto simp: pm_queue_inv_def waiting_slots)

lemma pm_queue_ps: "pwr_save_step s t \<Longrightarrow> pm_queue_inv s \<Longrightarrow> pm_queue_inv t"
proof (induction rule: pwr_save_step.induct)
  case (ps_skip s t)
  from skip_cases(1) [OF ps_skip(2)] ps_skip(3) show ?case
    by (elim disjE conjE) (auto intro: pm_queue_inv_cong)
next
  case (ps_sleep s t)
  from skip_cases(2) [OF ps_sleep(2)] ps_sleep(3) show ?case by (auto intro: pm_queue_inv_cong)
qed (auto intro: pm_queue_inv_cong)

lemma pm_queue_wk: "wake_work_step s t \<Longrightarrow> pm_inv s \<Longrightarrow> pm_queue_inv s \<Longrightarrow> pm_queue_inv t"
  by (induction rule: wake_work_step.induct)
    (auto simp: pm_queue_inv_def waiting_slots slot_skbs_clear mt76_connac_pm_dequeue_skbs_def)

lemma pm_queue_acq: "acq_step s t \<Longrightarrow> pm_queue_inv s \<Longrightarrow> pm_queue_inv t"
  by (induction rule: acq_step.induct) (auto intro: pm_queue_inv_cong)

lemma pm_queue_user: "user_step s t \<Longrightarrow> pm_queue_inv s \<Longrightarrow> pm_queue_inv t"
proof (induction rule: user_step.induct)
  case (user_ref s t)
  then have "t = s\<lparr>pm_wake_count := pm_wake_count s + 1\<rparr>"
    by (simp add: mt76_connac_pm_ref_def split: if_splits)
  then show ?case using user_ref(2) by (auto intro: pm_queue_inv_cong)
next
  case (user_queue qid s skb)
  show ?case
  proof (cases "pm_tx_q s ! qid = None")
    case True
    then have "mset (slot_skbs ((pm_tx_q s)[qid := Some skb])) = add_mset skb (mset (slot_skbs (pm_tx_q s)))"
      using user_queue by (intro slot_skbs_set) (simp_all add: pm_queue_inv_def)
    then show ?thesis
      using True user_queue(2) by (simp add: pm_queue_inv_def waiting_slots mt76_connac_pm_queue_skb_def Let_def)
  next
    case False
    then show ?thesis
      using user_queue(2) by (auto simp: pm_queue_inv_def waiting_slots mt76_connac_pm_queue_skb_def Let_def)
  qed
qed (auto intro: pm_queue_inv_cong)

interpretation pm: state_machine pm_init pm_step "\<lambda>s. pm_inv s \<and> pm_queue_inv s"
proof unfold_locales
  show "pm_inv s \<and> pm_queue_inv s" if "pm_init s" for s
    using that by (simp add: pm_init_def pm_inv_def pm_queue_inv_def waiting_slots slot_skbs_def)
  show "pm_inv t \<and> pm_queue_inv t" if "pm_inv s \<and> pm_queue_inv s" "pm_step s t" for s t
    using that(2,1)
    by (elim pm_stepE) (blast intro: pm_inv_ps pm_inv_wk pm_inv_acq pm_inv_user pm_queue_ps pm_queue_wk pm_queue_acq
        pm_queue_user)+
qed

section \<open>Properties\<close>

text \<open>
  C33: Nobody who keeps the device awake finds it asleep. In every reachable state in which no hand-over
  to or from the firmware has failed, a user that holds a reference, or a thread that took the mutex
  and was told that the device is awake, has the device owned by the driver and not marked as
  sleeping, however the wake work, the power-save work, the lock and the users are interleaved.
\<close>

theorem awake_while_held:
  assumes "reachable pm_init pm_step s" "\<not> pm_failed s" "pm_wake_count s > 0 \<or> pm_acq s = A_holds True"
  shows "\<not> pm_bit s \<and> \<not> pm_fw_own s"
  using pm.reachable_inv [OF assms(1)] assms(2,3) by (auto simp: pm_inv_def)


definition pm_awake :: pm_state where
  "pm_awake = \<lparr>pm_bit = False, pm_fw_own = False, pm_failed = False, pm_suspended = False, pm_enable = True,
     pm_wake_count = 0, pm_tokens = 0, pm_acq = A_none, pm_ps_queued = False, pm_wk_queued = False, pm_ps = Ps_idle,
     pm_wk = Wk_idle, pm_tx_q = replicate 4 None, pm_stopped = False, pm_queued = [], pm_sent = [], pm_dropped = []\<rparr>"

abbreviation pm_reachable :: "pm_state \<Rightarrow> bool" where
  "pm_reachable \<equiv> reachable pm_init pm_step"

lemmas pm_go = reach_step [where init = pm_init and step = pm_step]

lemma awake_reachable: "pm_reachable pm_awake"
  by (rule reach_init) (simp add: pm_init_def pm_awake_def)

lemma held_reachable: "pm_reachable (pm_awake\<lparr>pm_wake_count := 1\<rparr>)"
  by (rule pm_go [OF awake_reachable pm_step.user [OF user_step.user_ref]])
    (simp add: mt76_connac_pm_ref_def pm_awake_def)

theorem awake_while_held_witness:
  "\<not> pm_bit (pm_awake\<lparr>pm_wake_count := 1\<rparr>) \<and> \<not> pm_fw_own (pm_awake\<lparr>pm_wake_count := 1\<rparr>)"
  using awake_while_held [OF held_reachable] by (simp add: pm_awake_def)

lemma waiting_reachable: "pm_reachable (mt76_connac_pm_queue_skb 0 7 pm_awake)"
  by (rule pm_go [OF awake_reachable pm_step.user [OF user_step.user_queue]]) simp


section \<open>What is not guaranteed\<close>

text \<open>The device falls asleep: a reference is given back, and the power-save work runs to its end.\<close>

lemma asleep_reachable: "pm_reachable (pm_awake\<lparr>pm_bit := True, pm_fw_own := True\<rparr>)"
proof -
  let ?st = "\<lambda>q ps. pm_awake\<lparr>pm_ps_queued := q, pm_ps := ps\<rparr>"
  have q: "mt76_connac_pm_unref True (pm_awake\<lparr>pm_wake_count := 1\<rparr>) = ?st True Ps_idle"
    by (simp add: mt76_connac_pm_unref_def mt76_connac_power_save_sched_def pm_awake_def)
  have "pm_reachable (?st True Ps_idle)"
    by (rule pm_go [OF held_reachable pm_step.user], subst q [symmetric], rule user_step.user_unref) simp
  from pm_go [OF this pm_step.power_save [OF pwr_save_step.ps_start]] have "pm_reachable (?st False Ps_state)"
    by (simp add: pm_awake_def)
  from pm_go [OF this pm_step.power_save [OF pwr_save_step.ps_not_scanning]] have "pm_reachable (?st False Ps_mutex)"
    by (simp add: pm_awake_def)
  from pm_go [OF this pm_step.power_save [OF pwr_save_step.ps_mutex_free]] have "pm_reachable (?st False Ps_time)"
    by (simp add: pm_awake_def)
  from pm_go [OF this pm_step.power_save [OF pwr_save_step.ps_expired]] have "pm_reachable (?st False Ps_token)"
    by (simp add: pm_awake_def)
  from pm_go [OF this pm_step.power_save [OF pwr_save_step.ps_no_tokens]] have "pm_reachable (?st False Ps_lock)"
    by (simp add: pm_awake_def)
  from pm_go [OF this pm_step.power_save [OF pwr_save_step.ps_sleep]]
  have "pm_reachable ((?st False Ps_own)\<lparr>pm_bit := True\<rparr>)"
    by (simp add: pm_awake_def mt76_connac_skip_fw_pmctrl_def)
  from pm_go [OF this pm_step.power_save [OF pwr_save_step.ps_own]] show ?thesis by (simp add: pm_awake_def)
qed

text \<open>
  \<open>mt76_connac_mutex_acquire\<close> ignores the result of \<open>mt76_connac_pm_wake\<close>: when the wake-up takes longer
  than three seconds, the thread goes on with the device owned by the firmware.
\<close>

lemma wake_timeout_ignored: "\<exists>s. pm_reachable s \<and> \<not> pm_failed s \<and> pm_acq s = A_holds False \<and> pm_fw_own s"
proof -
  let ?st = "\<lambda>w a. pm_awake\<lparr>pm_bit := True, pm_fw_own := True, pm_wk_queued := w, pm_acq := a\<rparr>"
  from pm_go [OF asleep_reachable pm_step.acquire [OF acq_step.acq_lock]] have "pm_reachable (?st False A_cancelling)"
    by (simp add: pm_awake_def)
  from pm_go [OF this pm_step.acquire [OF acq_step.acq_cancelled]] have "pm_reachable (?st False A_testing)"
    by (simp add: pm_awake_def)
  from pm_go [OF this pm_step.acquire [OF acq_step.acq_wake]] have "pm_reachable (?st True A_waiting)"
    by (simp add: pm_awake_def)
  from pm_go [OF this pm_step.acquire [OF acq_step.acq_timeout]] have "pm_reachable (?st True (A_holds False))"
    by (simp add: pm_awake_def)
  then show ?thesis by (rule exI [where x = "?st True (A_holds False)", OF conjI]) (simp add: pm_awake_def)
qed

text \<open>
  After a failed wake-up the queues are started again, but a frame that waits stays in its slot with no
  work queued for it; later frames of its queue are dropped until another one wakes the device.
\<close>

lemma failed_wake_strands_frame:
  "\<exists>s. pm_reachable s \<and> waiting_skbs s = [7] \<and> \<not> pm_wk_queued s \<and> pm_wk s = Wk_idle \<and> \<not> pm_stopped s"
proof -
  let ?st = "\<lambda>f w pc q. pm_awake\<lparr>pm_bit := True, pm_fw_own := True, pm_failed := f, pm_wk_queued := w, pm_wk := pc,
     pm_stopped := q, pm_tx_q := [Some 7, None, None, None], pm_queued := [7]\<rparr>"
  from pm_go [OF asleep_reachable pm_step.user [OF user_step.user_queue], of 0 7]
  have "pm_reachable (?st False True Wk_idle True)"
    by (simp add: mt76_connac_pm_queue_skb_def pm_awake_def numeral_eq_Suc)
  from pm_go [OF this pm_step.wake [OF wake_work_step.wk_start]] have "pm_reachable (?st False False Wk_drv True)"
    by (simp add: pm_awake_def)
  from pm_go [OF this pm_step.wake [OF wake_work_step.wk_own_fails]] have "pm_reachable (?st True False Wk_queues True)"
    by (simp add: pm_awake_def)
  from pm_go [OF this pm_step.wake [OF wake_work_step.wk_queues]] have "pm_reachable (?st True False Wk_idle False)"
    by (simp add: pm_awake_def)
  then show ?thesis
    by (rule exI [where x = "?st True False Wk_idle False", OF conjI]) (simp add: pm_awake_def waiting_skbs_def)
qed

end
