(* ===== verification/TxDesc.thy ===== *)
theory TxDesc
  imports RxDesc TxsRate
begin

text \<open>
  The transmit descriptor of the connac2 chips, of src/src/mt76/mt76_connac_mac.c:
  \<open>mt76_connac2_mac_write_txwi\<close> with its parts for 802.3 and 802.11 frames, the fixed rate of
  \<open>mt76_connac2_mac_tx_rate_val\<close>, and the list of buffers behind the descriptor, written by
  \<open>mt76_connac_write_hw_txp\<close> and read again by \<open>mt76_connac_txp_skb_unmap_hw\<close>. The frame is a socket
  buffer of RxDesc, with the memory behind the frame, since the code reads whole header structures.
\<close>

section \<open>Inputs\<close>

text \<open>The frame control and sequence control predicates of \<open>linux/ieee80211.h\<close>.\<close>

definition fc_is_action :: "u16 \<Rightarrow> bool" where "fc_is_action fc \<longleftrightarrow> fc AND 0x00FC = 0x00D0"
definition fc_is_back_req :: "u16 \<Rightarrow> bool" where "fc_is_back_req fc \<longleftrightarrow> fc AND 0x00FC = 0x0084"
definition fc_is_beacon :: "u16 \<Rightarrow> bool" where "fc_is_beacon fc \<longleftrightarrow> fc AND 0x00FC = 0x0080"
definition first_frag :: "u16 \<Rightarrow> bool" where "first_frag sc \<longleftrightarrow> sc AND 0x000F = 0"

definition ffs :: "u32 \<Rightarrow> int" where
  "ffs w = (case List.find (bit w) [0..<32] of None \<Rightarrow> 0 | Some n \<Rightarrow> int n + 1)"

definition hweight :: "u32 \<Rightarrow> nat" where
  "hweight w = length (filter (bit w) [0..<32])"

text \<open>\<open>struct cfg80211_bitrate_mask\<close> of one band, and what is read of \<open>struct ieee80211_bss_conf\<close>.\<close>

record rate_mask =
  rm_legacy :: u32
  rm_ht_mcs :: "u8 list"
  rm_vht_mcs :: "u16 list"
  rm_he_mcs :: "u16 list"

record bss_conf =
  bc_ctx_band :: "nl80211_band option"
  bc_basic_rates :: u32
  bc_mcast_rate :: "nl80211_band \<Rightarrow> int"
  bc_beacon_tx_rate :: "nl80211_band \<Rightarrow> rate_mask"

record txw_phy =
  twp_band :: nl80211_band
  twp_antenna_mask :: u8

record txw_dev =
  twd_mmio :: bool
  twd_chip :: nat
  twd_phy :: txw_phy
  twd_band1 :: "txw_phy option"

record txw_vif =
  twv_omac_idx :: u8
  twv_wmm_idx :: u8
  twv_band_idx :: u8
  twv_bss_conf :: bss_conf

text \<open>The client: its index, whether frames may be aggregated, and \<open>sta->wme\<close> when it has a station.\<close>

record txw_wcid =
  tww_idx :: u16
  tww_amsdu :: bool
  tww_wme :: "bool option"

record txw_info =
  twi_hw_queue :: u8
  twi_hw_encap :: bool
  twi_use_minrate :: bool
  twi_injected :: bool
  twi_no_ack :: bool
  twi_queue_mapping :: u8
  twi_priority :: u32

text \<open>\<open>enum mt76_txq_id\<close>, of which the order matters, and the bits of \<open>changed\<close> that are read.\<close>

definition TXQ_PSD :: nat where "TXQ_PSD = 4"

record bss_changed =
  ch_beacon :: bool
  ch_inband_disc :: bool

text \<open>
  Helpers of mac80211 that are not in the repository: whether a frame is a robust management frame.
\<close>

type_synonym robust_test = "u8 list \<Rightarrow> bool"

definition is_connac2 :: "txw_dev \<Rightarrow> bool" where
  "is_connac2 dev \<longleftrightarrow> twd_chip dev \<in> {0x7961, 0x7922, 0x7920, 0x7902}"

section \<open>The fixed rate\<close>

definition tx_rate_word :: "u8 \<Rightarrow> u8 \<Rightarrow> int \<Rightarrow> u16" where
  "tx_rate_word nss mode rateidx =
     FIELD_PREP 12 10 (ucast nss) OR FIELD_PREP 5 0 (word_of_int rateidx) OR FIELD_PREP 9 6 (ucast mode)"

definition tx_rate_legacy :: "nl80211_band \<Rightarrow> int \<Rightarrow> u16" where
  "tx_rate_legacy band rateidx =
     (let offset = (if band \<noteq> Band_2GHZ then 4 else 0);
          rateidx = (if rateidx < 0 then 0 else rateidx) + offset;
          rateidx = (if rateidx \<ge> int (length mt76_rates) then offset else rateidx);
          hw = br_hw_value (mt76_rates ! nat rateidx)
      in tx_rate_word 0 (ucast (drop_bit 8 hw)) (uint (hw AND GENMASK 7 0)))"

text \<open>
  \<open>__bitrate_mask_check\<close>: the first entry of the list with exactly one rate, as its index in the list
  and the rate.
\<close>

fun bitrate_mask_check :: "u16 list \<Rightarrow> nat \<Rightarrow> (nat \<times> int) option" where
  "bitrate_mask_check [] i = None"
| "bitrate_mask_check (m # ms) i =
     (if m \<noteq> 0 \<and> hweight (ucast m) = 1 then Some (i, ffs (ucast m) - 1) else bitrate_mask_check ms (i + 1))"

text \<open>The rate of a beacon, when the user has fixed one.\<close>

definition beacon_rate :: "nl80211_band \<Rightarrow> rate_mask \<Rightarrow> u16 option" where
  "beacon_rate band m =
     (case bitrate_mask_check (rm_he_mcs m) 0 of
        Some (i, r) \<Rightarrow> Some (tx_rate_word (of_nat (i + 1)) 8 r)
      | None \<Rightarrow> (case bitrate_mask_check (rm_vht_mcs m) 0 of
            Some (i, r) \<Rightarrow> Some (tx_rate_word (of_nat (i + 1)) 4 r)
          | None \<Rightarrow> (case bitrate_mask_check (map ucast (rm_ht_mcs m)) 0 of
                Some (i, r) \<Rightarrow> Some (tx_rate_word 0 2 (r + 8 * int i))
              | None \<Rightarrow> if hweight (rm_legacy m) = 1 then Some (tx_rate_legacy band (ffs (rm_legacy m) - 1))
                  else None)))"

definition mt76_connac2_mac_tx_rate_val :: "txw_dev \<Rightarrow> txw_phy \<Rightarrow> bss_conf option \<Rightarrow> bool \<Rightarrow> bool \<Rightarrow> u16" where
  "mt76_connac2_mac_tx_rate_val dev phy conf beacon mcast =
     (case conf of
        None \<Rightarrow> tx_rate_legacy Band_2GHZ 0
      | Some c \<Rightarrow>
          let band = (case bc_ctx_band c of Some b \<Rightarrow> b | None \<Rightarrow> twp_band phy) in
          if is_connac2 dev then tx_rate_legacy band (ffs (bc_basic_rates c) - 1)
          else case (if beacon then beacon_rate band (bc_beacon_tx_rate c band) else None) of
              Some r \<Rightarrow> r
            | None \<Rightarrow> tx_rate_legacy band
                (if mcast \<and> bc_mcast_rate c band > 0 then bc_mcast_rate c band - 1
                 else ffs (bc_basic_rates c) - 1))"

section \<open>The descriptor\<close>

definition txwi_or :: "nat \<Rightarrow> u32 \<Rightarrow> u32 list \<Rightarrow> u32 list" where
  "txwi_or i v t = t[i := t ! i OR v]"

definition txwi_clear :: "nat \<Rightarrow> u32 \<Rightarrow> u32 list \<Rightarrow> u32 list" where
  "txwi_clear i v t = t[i := t ! i AND NOT v]"

definition mt76_connac2_mac_write_txwi_8023 :: "u32 list \<Rightarrow> skb \<Rightarrow> txw_info \<Rightarrow> txw_wcid \<Rightarrow> u32 list" where
  "mt76_connac2_mac_write_txwi_8023 t s info w =
     (let tid = twi_priority info AND 0xf;
          wmm = (case tww_wme w of Some b \<Rightarrow> b | None \<Rightarrow> False);
          ethertype = 256 * unat (sk_mem s ! (sk_data s + 12)) + unat (sk_mem s ! (sk_data s + 13));
          t = txwi_or 1 (FIELD_PREP 17 16 0 OR FIELD_PREP 22 20 tid OR (if ethertype \<ge> 0x600 then BIT 15 else 0)) t;
          fc_type = 2;
          fc_stype = (if wmm then 8 else 0);
          t = txwi_or 2 (FIELD_PREP 5 4 fc_type OR FIELD_PREP 3 0 fc_stype) t
      in txwi_or 7 (FIELD_PREP 21 20 fc_type OR FIELD_PREP 19 16 fc_stype) t)"

text \<open>The traffic id: of the session for a block-ack request or the action frame that opens one.\<close>

definition txwi_is_addba :: "skb \<Rightarrow> bool" where
  "txwi_is_addba s \<longleftrightarrow> fc_is_action (rd16 s (sk_data s)) \<and> sk_len s \<ge> 29 \<and>
     sk_mem s ! (sk_data s + 24) = 3 \<and> sk_mem s ! (sk_data s + 25) = 0"

definition txwi_tid :: "skb \<Rightarrow> txw_info \<Rightarrow> u32" where
  "txwi_tid s info =
     (if txwi_is_addba s then drop_bit 2 (ucast (rd16 s (sk_data s + 27))) AND 0xf
      else if fc_is_back_req (rd16 s (sk_data s)) then FIELD_GET 15 12 (ucast (rd16 s (sk_data s + 16)))
      else twi_priority info AND 0xf)"

definition txwi_frag :: "u16 \<Rightarrow> u16 \<Rightarrow> u32" where
  "txwi_frag fc sc =
     (if fc_morefrags fc \<and> first_frag sc then FIELD_PREP 15 14 1
      else if fc_morefrags fc \<and> \<not> first_frag sc then FIELD_PREP 15 14 2
      else if \<not> fc_morefrags fc \<and> \<not> first_frag sc then FIELD_PREP 15 14 3
      else 0)"

text \<open>A frame that its sender has numbered.\<close>

definition txwi_injected :: "skb \<Rightarrow> txw_info \<Rightarrow> u32 list \<Rightarrow> u32 list" where
  "txwi_injected s info t =
     (if twi_injected info
      then let seqno = (if fc_is_back_req (rd16 s (sk_data s)) then rd16 s (sk_data s + 18)
             else rd16 s (sk_data s + 22))
           in txwi_clear 7 (BIT 10) (txwi_or 3 (BIT 31 OR FIELD_PREP 27 16 (drop_bit 4 (ucast seqno))) t)
      else t)"

definition mt76_connac2_mac_write_txwi_80211 ::
  "robust_test \<Rightarrow> txw_dev \<Rightarrow> u32 list \<Rightarrow> skb \<Rightarrow> txw_info \<Rightarrow> bool option \<Rightarrow> u32 list" where
  "mt76_connac2_mac_write_txwi_80211 robust dev t s info key =
     (let fc = rd16 s (sk_data s);
          sc = rd16 s (sk_data s + 22);
          multicast = bit (sk_mem s ! (sk_data s + 4)) 0;
          t = (if txwi_is_addba s then txwi_or 5 (BIT 14) t else t);
          t = txwi_or 1 (FIELD_PREP 17 16 2 OR FIELD_PREP 15 11 (of_nat (ieee80211_get_hdrlen_from_skb s div 2)) OR
                FIELD_PREP 22 20 (txwi_tid s info)) t;
          fc_type = drop_bit 2 (ucast fc AND 0x000C);
          fc_stype = drop_bit 4 (ucast fc AND 0x00F0);
          bip = (key = Some True \<and> multicast \<and> robust (skb_frame s));
          t = (if bip then txwi_clear 3 (BIT 1) t else t);
          t = txwi_or 2 (FIELD_PREP 5 4 fc_type OR FIELD_PREP 3 0 fc_stype OR (if multicast then BIT 10 else 0) OR
                (if bip then BIT 11 else 0) OR
                (if \<not> fc_is_data fc \<or> multicast \<or> twi_use_minrate info then BIT 31 else 0) OR
                txwi_frag fc sc) t;
          t = (if fc_is_beacon fc then txwi_or 3 (GENMASK 15 11) (txwi_clear 3 (BIT 29) t) else t);
          t = txwi_injected s info t
      in if twd_mmio dev then txwi_or 7 (FIELD_PREP 21 20 fc_type OR FIELD_PREP 19 16 fc_stype) t
         else txwi_or 8 (FIELD_PREP 5 4 fc_type OR FIELD_PREP 3 0 fc_stype) t)"

definition mt76_connac_lmac_mapping :: "u8 \<Rightarrow> u8" where
  "mt76_connac_lmac_mapping ac = 3 - ac"

definition mt76_connac_spe_idx :: "u8 \<Rightarrow> u8" where
  "mt76_connac_spe_idx antenna_mask =
     (if antenna_mask \<ge> 16 then 0
      else [0, 0, 1, 0, 3, 2, 4, 0, 9, 8, 6, 10, 16, 12, 18, 0] ! unat antenna_mask)"

text \<open>Packet format and hardware queue.\<close>

definition txwi_queue :: "txw_dev \<Rightarrow> bss_changed \<Rightarrow> nat \<Rightarrow> u8 \<Rightarrow> u8 \<Rightarrow> u32 \<times> u8" where
  "txwi_queue dev changed qid wmm_idx queue_mapping =
     (if ch_inband_disc changed then (3, 0x10)
      else if ch_beacon changed then (3, 0x12)
      else if qid \<ge> TXQ_PSD then (if twd_mmio dev then 0 else 1, 0x10)
      else (if twd_mmio dev then 0 else 1, wmm_idx * 4 + mt76_connac_lmac_mapping queue_mapping))"

text \<open>The words 0 to 7 as they are before the part for the kind of frame.\<close>

definition txwi_base :: "txw_dev \<Rightarrow> nat \<Rightarrow> txw_wcid \<Rightarrow> txw_vif option \<Rightarrow> txw_info \<Rightarrow> bool \<Rightarrow> nat \<Rightarrow> nat \<Rightarrow>
    bss_changed \<Rightarrow> u32 list" where
  "txwi_base dev len w vif info keyed pid qid changed =
     (let phy_idx = drop_bit 2 (twi_hw_queue info AND GENMASK 3 2);
          (omac_idx, wmm_idx, band_idx) =
            (case vif of Some v \<Rightarrow> (twv_omac_idx v, twv_wmm_idx v, twv_band_idx v) | None \<Rightarrow> (0, 0, 0));
          sz_txd = (if twd_mmio dev then 32 else 64);
          (p_fmt, q_idx) = txwi_queue dev changed qid wmm_idx (twi_queue_mapping info);
          amsdu_en = (tww_amsdu w \<and> pid < 3)
      in [FIELD_PREP 15 0 (of_nat (len + sz_txd)) OR FIELD_PREP 24 23 p_fmt OR FIELD_PREP 31 25 (ucast q_idx),
          BIT 31 OR FIELD_PREP 9 0 (ucast (tww_idx w)) OR FIELD_PREP 29 24 (ucast omac_idx) OR
            (if is_connac2 dev then 0 else BIT 10) OR (if phy_idx \<noteq> 0 \<or> band_idx \<noteq> 0 then BIT 30 else 0),
          0,
          FIELD_PREP 15 11 15 OR (if is_connac2 dev then 0 else BIT 29) OR (if keyed then BIT 1 else 0) OR
            (if twi_no_ack info then BIT 0 else 0),
          0,
          FIELD_PREP 7 0 (of_nat pid) OR (if pid \<ge> 3 then BIT 10 else 0),
          0,
          if amsdu_en then BIT 10 else 0])"

text \<open>The part for frames with a fixed rate; the frame is taken for an 802.11 frame.\<close>

definition txwi_fix_rate :: "txw_dev \<Rightarrow> u32 list \<Rightarrow> skb \<Rightarrow> txw_vif option \<Rightarrow> txw_info \<Rightarrow> bss_changed \<Rightarrow> u32 list" where
  "txwi_fix_rate dev t s vif info changed =
     (let phy_idx = drop_bit 2 (twi_hw_queue info AND GENMASK 3 2);
          mphy = (if phy_idx \<noteq> 0 then case twd_band1 dev of Some p \<Rightarrow> p | None \<Rightarrow> twd_phy dev else twd_phy dev);
          multicast = (fc_is_data (rd16 s (sk_data s)) \<and> bit (sk_mem s ! (sk_data s + 4)) 0);
          rate = mt76_connac2_mac_tx_rate_val dev mphy (map_option twv_bss_conf vif) (ch_beacon changed) multicast;
          t = txwi_or 2 (BIT 13) t;
          t = txwi_or 6 (BIT 2 OR FIELD_PREP 29 16 (ucast rate)) t;
          t = txwi_or 3 (BIT 28) t;
          t = (if is_connac2 dev then t
               else let spe_idx = mt76_connac_spe_idx (twp_antenna_mask mphy);
                        spe_idx = (if spe_idx = 0 then 24 + phy_idx else spe_idx)
                    in txwi_or 7 (FIELD_PREP 15 11 (ucast spe_idx)) t)
      in txwi_clear 7 (BIT 10) t)"

text \<open>
  \<open>tail\<close> holds the words from 8 on, which only devices on other buses have. \<open>key\<close> is whether the key
  is one of AES-CMAC, when there is one. The counter of WED of the MT7915 is left out.
\<close>

definition mt76_connac2_mac_write_txwi ::
  "robust_test \<Rightarrow> txw_dev \<Rightarrow> u32 list \<Rightarrow> skb \<Rightarrow> txw_info \<Rightarrow> txw_wcid \<Rightarrow> txw_vif option \<Rightarrow> bool option \<Rightarrow>
     nat \<Rightarrow> nat \<Rightarrow> bss_changed \<Rightarrow> u32 list" where
  "mt76_connac2_mac_write_txwi robust dev tl_words s info w vif key pid qid changed =
     (let t = txwi_base dev (sk_len s) w vif info (key \<noteq> None) pid qid changed @ tl_words;
          t = (if twi_hw_encap info then mt76_connac2_mac_write_txwi_8023 t s info w
               else mt76_connac2_mac_write_txwi_80211 robust dev t s info key)
      in if bit (t ! 2) 31 then txwi_fix_rate dev t s vif info changed else t)"

section \<open>The list of buffers\<close>

text \<open>\<open>struct mt76_connac_txp_ptr\<close> and \<open>struct mt76_connac_hw_txp\<close>; unlike in C the list of pairs can grow.\<close>

record txp_ptr =
  tp_buf0 :: u32
  tp_len0 :: u16
  tp_len1 :: u16
  tp_buf1 :: u32

record hw_txp =
  ht_msdu_id :: "u16 list"
  ht_ptr :: "txp_ptr list"

definition hw_txp_zero :: hw_txp where
  "hw_txp_zero = \<lparr>ht_msdu_id = replicate 4 0, ht_ptr = replicate 2 \<lparr>tp_buf0 = 0, tp_len0 = 0, tp_len1 = 0, tp_buf1 = 0\<rparr>\<rparr>"

text \<open>\<open>MT_TXD_LEN_LAST\<close>, or both of \<open>MT_TXD_LEN_AMSDU_LAST\<close> and \<open>MT_TXD_LEN_MSDU_LAST\<close>.\<close>

definition one_last_bit :: "nat \<Rightarrow> bool" where
  "one_last_bit chip \<longleftrightarrow> chip = 0x7663 \<or> chip \<in> {0x7961, 0x7922, 0x7920, 0x7902} \<or> chip = 0x7925"

definition txp_write_mask :: "nat \<Rightarrow> u16" where
  "txp_write_mask chip = (if one_last_bit chip then BIT 15 else BIT 15 OR BIT 14)"

definition txp_read_mask :: "nat \<Rightarrow> u16" where
  "txp_read_mask chip = (if one_last_bit chip then BIT 15 else BIT 14)"

text \<open>
  The buffers (address and length) from number \<open>i\<close> on; \<open>None\<close> when the list of pairs is overrun.
\<close>

fun txp_write_loop :: "nat \<Rightarrow> (u32 \<times> u32) list \<Rightarrow> nat \<Rightarrow> txp_ptr list \<Rightarrow> txp_ptr list option" where
  "txp_write_loop chip [] i ptrs = Some ptrs"
| "txp_write_loop chip ((addr, n) # bufs) i ptrs =
     (if i div 2 \<ge> length ptrs then None
      else let len = ucast n AND GENMASK 11 0;
               len = (if bufs = [] then len OR txp_write_mask chip else len);
               p = ptrs ! (i div 2);
               p = (if odd i then p\<lparr>tp_buf1 := addr, tp_len1 := len\<rparr> else p\<lparr>tp_buf0 := addr, tp_len0 := len\<rparr>)
           in txp_write_loop chip bufs (i + 1) (ptrs[i div 2 := p]))"

text \<open>
  \<open>bufs\<close> are the buffers of \<open>tx_info\<close>. The result has the list and the buffers of \<open>tx_info\<close>
  afterwards: the first one, with its new length.
\<close>

definition mt76_connac_write_hw_txp ::
  "nat \<Rightarrow> (u32 \<times> u32) list \<Rightarrow> hw_txp \<Rightarrow> u32 \<Rightarrow> (hw_txp \<times> (u32 \<times> u32) list) option" where
  "mt76_connac_write_hw_txp chip bufs txp token =
     (case txp_write_loop chip (tl bufs) 0 (ht_ptr txp) of
        None \<Rightarrow> None
      | Some ptrs \<Rightarrow> Some (txp\<lparr>ht_msdu_id := (ht_msdu_id txp)[0 := ucast (token OR BIT 15)], ht_ptr := ptrs\<rparr>,
          [(fst (bufs ! 0), 32 + 32)]))"

text \<open>The mappings that are released, in order.\<close>

fun mt76_connac_txp_skb_unmap_hw :: "nat \<Rightarrow> txp_ptr list \<Rightarrow> (u32 \<times> u16) list" where
  "mt76_connac_txp_skb_unmap_hw chip [] = []"
| "mt76_connac_txp_skb_unmap_hw chip (p # ps) =
     (tp_buf0 p, tp_len0 p AND GENMASK 11 0) #
     (if tp_len0 p AND txp_read_mask chip \<noteq> 0 then []
      else (tp_buf1 p, tp_len1 p AND GENMASK 11 0) #
        (if tp_len1 p AND txp_read_mask chip \<noteq> 0 then [] else mt76_connac_txp_skb_unmap_hw chip ps))"

end
