(* ===== verification/TxDescProps.thy ===== *)
theory TxDescProps
  imports TxDesc
begin

text \<open>
  Properties of the transmit descriptor: its fields say what the code was given, the fixed rate is read
  back as the rate it was made from, the list of buffers gives back the buffers, and what of the frame
  the descriptor depends on.
\<close>

section \<open>The words of a descriptor\<close>

lemma length_txwi [simp]: "length (txwi_or i v t) = length t" "length (txwi_clear i v t) = length t"
  by (simp_all add: txwi_or_def txwi_clear_def)

lemma nth_or: "txwi_or i v t ! j = (if i = j \<and> j < length t then t ! j OR v else t ! j)"
  by (cases "i < length t") (auto simp: txwi_or_def nth_list_update list_update_beyond)

lemma nth_clear: "txwi_clear i v t ! j = (if i = j \<and> j < length t then t ! j AND NOT v else t ! j)"
  by (cases "i < length t") (auto simp: txwi_clear_def nth_list_update list_update_beyond)

lemmas nth_txwi = nth_or nth_clear

lemma nth_if: "(if b then t else u) ! j = (if b then t ! j else u ! j)"
  by simp

lemma length_base [simp]: "length (txwi_base dev len w vif info keyed pid qid changed) = 8"
  by (simp add: txwi_base_def Let_def split: prod.split option.split)

lemma length_8023 [simp]: "length (mt76_connac2_mac_write_txwi_8023 t s info w) = length t"
  by (simp add: mt76_connac2_mac_write_txwi_8023_def Let_def)

lemma length_80211 [simp]: "length (mt76_connac2_mac_write_txwi_80211 robust dev t s info key) = length t"
  by (simp add: mt76_connac2_mac_write_txwi_80211_def Let_def txwi_injected_def)

lemma length_fix_rate [simp]: "length (txwi_fix_rate dev t s vif info changed) = length t"
  by (simp add: txwi_fix_rate_def Let_def)

lemma FIELD_GET_if [bitfield]: "FIELD_GET h l (if b then x else y) = (if b then FIELD_GET h l x else FIELD_GET h l y)"
  by simp

lemma FIELD_GET_NOT_BIT [bitfield]:
  "n < l \<or> h < n \<Longrightarrow> FIELD_GET h l (x AND NOT (BIT n)) = FIELD_GET h l x"
  by (auto intro!: bit_eqI simp: bit_FIELD_GET bit_and_iff bit_not_iff bit_BIT)

text \<open>The parts for the two kinds of frame and for fixed rates leave the fields below alone.\<close>

lemma fields_8023:
  defines "r t s info w \<equiv> mt76_connac2_mac_write_txwi_8023 t s info w"
  shows "r t s info w ! 0 = t ! 0" "FIELD_GET 9 0 (r t s info w ! 1) = FIELD_GET 9 0 (t ! 1)"
    "FIELD_GET 29 24 (r t s info w ! 1) = FIELD_GET 29 24 (t ! 1)" "r t s info w ! 5 = t ! 5"
    "bit (r t s info w ! 7) 10 = bit (t ! 7) 10"
  unfolding r_def mt76_connac2_mac_write_txwi_8023_def Let_def
  by (simp_all add: nth_txwi bitfield bit_or_iff bit_FIELD_PREP)

lemma fields_80211:
  defines "r robust dev t s info key \<equiv> mt76_connac2_mac_write_txwi_80211 robust dev t s info key"
  shows "r robust dev t s info key ! 0 = t ! 0"
    "FIELD_GET 9 0 (r robust dev t s info key ! 1) = FIELD_GET 9 0 (t ! 1)"
    "FIELD_GET 29 24 (r robust dev t s info key ! 1) = FIELD_GET 29 24 (t ! 1)"
    "FIELD_GET 7 0 (r robust dev t s info key ! 5) = FIELD_GET 7 0 (t ! 5)"
    "bit (r robust dev t s info key ! 5) 10 = bit (t ! 5) 10"
    "bit (r robust dev t s info key ! 7) 10 \<Longrightarrow> bit (t ! 7) 10"
  unfolding r_def mt76_connac2_mac_write_txwi_80211_def txwi_injected_def Let_def
  by (simp_all add: nth_txwi nth_if bitfield bit_or_iff bit_FIELD_PREP bit_BIT bit_and_iff split: if_splits
      cong del: if_weak_cong)

lemma fields_fix_rate:
  defines "r dev t s vif info changed \<equiv> txwi_fix_rate dev t s vif info changed"
  shows "r dev t s vif info changed ! 0 = t ! 0" "r dev t s vif info changed ! 1 = t ! 1"
    "r dev t s vif info changed ! 5 = t ! 5" "7 < length t \<Longrightarrow> \<not> bit (r dev t s vif info changed ! 7) 10"
  unfolding r_def txwi_fix_rate_def Let_def
  by (simp_all add: nth_txwi nth_if bit_and_iff bit_not_iff bit_BIT)

lemma take_small: "unat w < 2 ^ n \<Longrightarrow> take_bit n w = w" for w :: "'a::len word"
  by (simp add: word_unat_eq_iff unsigned_take_bit_eq take_bit_nat_eq_self)

lemma take_u8: "unat (x :: u8) < 2 ^ n \<Longrightarrow> take_bit n (ucast x :: u32) = ucast x"
  by (rule take_small) (simp add: unsigned_ucast_eq le_less_trans [OF take_bit_nat_less_eq_self])

lemma take_u16: "unat (x :: u16) < 2 ^ n \<Longrightarrow> take_bit n (ucast x :: u32) = ucast x"
  by (rule take_small) (simp add: unsigned_ucast_eq le_less_trans [OF take_bit_nat_less_eq_self])

lemma take_nat: "m < 2 ^ n \<Longrightarrow> take_bit n (of_nat m :: u32) = of_nat m"
  by (simp add: take_bit_of_nat take_bit_nat_eq_self)

lemma base_words:
  assumes "txwi_queue dev changed qid (twv_wmm_idx v) (twi_queue_mapping info) = (p_fmt, q_idx)"
  shows "txwi_base dev len w (Some v) info keyed pid qid changed ! 0 =
      FIELD_PREP 15 0 (of_nat (len + (if twd_mmio dev then 32 else 64))) OR FIELD_PREP 24 23 p_fmt OR
      FIELD_PREP 31 25 (ucast q_idx)"
    "\<exists>b c. txwi_base dev len w (Some v) info keyed pid qid changed ! 1 = BIT 31 OR
      FIELD_PREP 9 0 (ucast (tww_idx w)) OR FIELD_PREP 29 24 (ucast (twv_omac_idx v)) OR
      (if b then 0 else BIT 10) OR (if c then BIT 30 else 0)"
    "txwi_base dev len w (Some v) info keyed pid qid changed ! 5 =
      FIELD_PREP 7 0 (of_nat pid) OR (if pid \<ge> 3 then BIT 10 else 0)"
    "bit (txwi_base dev len w (Some v) info keyed pid qid changed ! 7) 10 \<longleftrightarrow> tww_amsdu w \<and> pid < 3"
  using assms by (auto simp: txwi_base_def Let_def bit_BIT)

text \<open>The words of the descriptor before and after the part for fixed rates.\<close>

definition txwi_kind :: "robust_test \<Rightarrow> txw_dev \<Rightarrow> u32 list \<Rightarrow> skb \<Rightarrow> txw_info \<Rightarrow> txw_wcid \<Rightarrow> bool option \<Rightarrow> u32 list" where
  "txwi_kind robust dev t s info w key =
     (if twi_hw_encap info then mt76_connac2_mac_write_txwi_8023 t s info w
      else mt76_connac2_mac_write_txwi_80211 robust dev t s info key)"

lemma fields_kind:
  "txwi_kind robust dev t s info w key ! 0 = t ! 0"
  "FIELD_GET 9 0 (txwi_kind robust dev t s info w key ! 1) = FIELD_GET 9 0 (t ! 1)"
  "FIELD_GET 29 24 (txwi_kind robust dev t s info w key ! 1) = FIELD_GET 29 24 (t ! 1)"
  "FIELD_GET 7 0 (txwi_kind robust dev t s info w key ! 5) = FIELD_GET 7 0 (t ! 5)"
  "bit (txwi_kind robust dev t s info w key ! 5) 10 = bit (t ! 5) 10"
  "bit (txwi_kind robust dev t s info w key ! 7) 10 \<Longrightarrow> bit (t ! 7) 10"
  "length (txwi_kind robust dev t s info w key) = length t"
proof -
  consider (eth) "txwi_kind robust dev t s info w key = mt76_connac2_mac_write_txwi_8023 t s info w"
    | (wifi) "txwi_kind robust dev t s info w key = mt76_connac2_mac_write_txwi_80211 robust dev t s info key"
    by (metis txwi_kind_def)
  note kinds = this
  show "txwi_kind robust dev t s info w key ! 0 = t ! 0"
    by (cases rule: kinds) (simp_all only: fields_8023 fields_80211)
  show "FIELD_GET 9 0 (txwi_kind robust dev t s info w key ! 1) = FIELD_GET 9 0 (t ! 1)"
    by (cases rule: kinds) (simp_all only: fields_8023 fields_80211)
  show "FIELD_GET 29 24 (txwi_kind robust dev t s info w key ! 1) = FIELD_GET 29 24 (t ! 1)"
    by (cases rule: kinds) (simp_all only: fields_8023 fields_80211)
  show "FIELD_GET 7 0 (txwi_kind robust dev t s info w key ! 5) = FIELD_GET 7 0 (t ! 5)"
    by (cases rule: kinds) (simp_all only: fields_8023 fields_80211)
  show "bit (txwi_kind robust dev t s info w key ! 5) 10 = bit (t ! 5) 10"
    by (cases rule: kinds) (simp_all only: fields_8023 fields_80211)
  show "bit (txwi_kind robust dev t s info w key ! 7) 10 \<Longrightarrow> bit (t ! 7) 10"
    by (cases rule: kinds) (simp_all only: fields_8023 fields_80211(6))
  show "length (txwi_kind robust dev t s info w key) = length t"
    by (cases rule: kinds) simp_all
qed

lemma write_txwi_cases:
  "mt76_connac2_mac_write_txwi robust dev tl_words s info w vif key pid qid changed =
     (let t = txwi_kind robust dev (txwi_base dev (sk_len s) w vif info (key \<noteq> None) pid qid changed @ tl_words) s info w key
      in if bit (t ! 2) 31 then txwi_fix_rate dev t s vif info changed else t)"
  by (simp add: mt76_connac2_mac_write_txwi_def txwi_kind_def Let_def)

lemma txwi_words:
  fixes robust dev tl_words s info w vif key pid qid changed
  defines "t \<equiv> mt76_connac2_mac_write_txwi robust dev tl_words s info w vif key pid qid changed"
    and "b \<equiv> txwi_base dev (sk_len s) w vif info (key \<noteq> None) pid qid changed"
  shows "t ! 0 = b ! 0" "FIELD_GET 9 0 (t ! 1) = FIELD_GET 9 0 (b ! 1)"
    "FIELD_GET 29 24 (t ! 1) = FIELD_GET 29 24 (b ! 1)" "FIELD_GET 7 0 (t ! 5) = FIELD_GET 7 0 (b ! 5)"
    "bit (t ! 5) 10 = bit (b ! 5) 10" "bit (t ! 7) 10 \<Longrightarrow> bit (b ! 7) 10 \<and> \<not> bit (t ! 2) 31"
proof -
  let ?k = "txwi_kind robust dev (b @ tl_words) s info w key"
  have t: "t = (if bit (?k ! 2) 31 then txwi_fix_rate dev ?k s vif info changed else ?k)"
    unfolding t_def b_def write_txwi_cases Let_def ..
  have len: "length b = 8" unfolding b_def by simp
  have k: "?k ! 0 = b ! 0" "FIELD_GET 9 0 (?k ! 1) = FIELD_GET 9 0 (b ! 1)"
    "FIELD_GET 29 24 (?k ! 1) = FIELD_GET 29 24 (b ! 1)" "FIELD_GET 7 0 (?k ! 5) = FIELD_GET 7 0 (b ! 5)"
    "bit (?k ! 5) 10 = bit (b ! 5) 10" "bit (?k ! 7) 10 \<Longrightarrow> bit (b ! 7) 10" "7 < length ?k"
    using fields_kind(1-5) [of robust dev "b @ tl_words" s info w key] fields_kind(6,7) [of robust dev "b @ tl_words" s info w key]
      len by (simp_all add: nth_append)
  show "t ! 0 = b ! 0" "FIELD_GET 9 0 (t ! 1) = FIELD_GET 9 0 (b ! 1)"
    "FIELD_GET 29 24 (t ! 1) = FIELD_GET 29 24 (b ! 1)" "FIELD_GET 7 0 (t ! 5) = FIELD_GET 7 0 (b ! 5)"
    "bit (t ! 5) 10 = bit (b ! 5) 10"
    unfolding t using k(1-5) by (simp_all only: fields_fix_rate(1-3) if_cancel nth_if)
  show "bit (t ! 7) 10 \<Longrightarrow> bit (b ! 7) 10 \<and> \<not> bit (t ! 2) 31"
    using k(6,7) fields_fix_rate(4) [of ?k dev s vif info changed] unfolding t
    by (cases "bit (?k ! 2) 31") simp_all
qed

text \<open>
  C36: The descriptor names its frame. Whatever kind of frame it is and whatever its rate, the
  descriptor holds the number of bytes of descriptor and frame, the packet format and hardware
  queue chosen for it, the index of its client, the address it is sent from and its packet id;
  a status report is asked for exactly when the packet id is one that is tracked; and the hardware may
  aggregate the frame only if its client allows it, no status was asked for and its rate is not fixed.
\<close>

theorem descriptor_names_frame:
  assumes "sk_len s + 64 < 65536" "unat (tww_idx w) < 1024" "unat (twv_omac_idx v) < 64" "pid < 256"
    and "txwi_queue dev changed qid (twv_wmm_idx v) (twi_queue_mapping info) = (p_fmt, q_idx)" "unat q_idx < 128"
    and "t = mt76_connac2_mac_write_txwi robust dev tl_words s info w (Some v) key pid qid changed"
  shows "FIELD_GET 15 0 (t ! 0) = of_nat (sk_len s + (if twd_mmio dev then 32 else 64))
    \<and> FIELD_GET 24 23 (t ! 0) = p_fmt \<and> FIELD_GET 31 25 (t ! 0) = ucast q_idx
    \<and> FIELD_GET 9 0 (t ! 1) = ucast (tww_idx w) \<and> FIELD_GET 29 24 (t ! 1) = ucast (twv_omac_idx v)
    \<and> FIELD_GET 7 0 (t ! 5) = of_nat pid \<and> (bit (t ! 5) 10 \<longleftrightarrow> 3 \<le> pid)
    \<and> (bit (t ! 7) 10 \<longrightarrow> tww_amsdu w \<and> pid < 3 \<and> \<not> bit (t ! 2) 31)"
proof -
  let ?b = "txwi_base dev (sk_len s) w (Some v) info (key \<noteq> None) pid qid changed"
  note b = base_words [OF assms(5), of "sk_len s" w "key \<noteq> None" pid]
  note t = txwi_words [of robust dev tl_words s info w "Some v" key pid qid changed, folded assms(7)]
  obtain x y where w1: "?b ! 1 = BIT 31 OR FIELD_PREP 9 0 (ucast (tww_idx w)) OR
      FIELD_PREP 29 24 (ucast (twv_omac_idx v)) OR (if x then 0 else BIT 10) OR (if y then BIT 30 else 0)"
    using b(2) by blast
  have fmt: "take_bit 2 p_fmt = p_fmt"
    using assms(5) by (auto simp: txwi_queue_def split: if_splits)
  have len: "take_bit 16 (of_nat (sk_len s + n) :: u32) = of_nat (sk_len s + n)" if "n \<le> 64" for n
    using assms(1) that by (intro take_nat) simp
  have "FIELD_GET 15 0 (?b ! 0) = of_nat (sk_len s + (if twd_mmio dev then 32 else 64))"
    unfolding b(1) using len [of 32] len [of 64] by (simp add: bitfield FIELD_GET_PREP)
  moreover have "FIELD_GET 24 23 (?b ! 0) = p_fmt" "FIELD_GET 31 25 (?b ! 0) = ucast q_idx"
    unfolding b(1) using assms(6) fmt by (simp_all add: bitfield FIELD_GET_PREP take_u8)
  moreover have "FIELD_GET 9 0 (?b ! 1) = ucast (tww_idx w)" "FIELD_GET 29 24 (?b ! 1) = ucast (twv_omac_idx v)"
    unfolding w1 using assms(2,3) by (simp_all add: bitfield FIELD_GET_PREP take_u8 take_u16)
  moreover have "FIELD_GET 7 0 (?b ! 5) = of_nat pid" "bit (?b ! 5) 10 \<longleftrightarrow> 3 \<le> pid"
    unfolding b(3) using assms(4) by (simp_all add: bitfield FIELD_GET_PREP take_nat bit_or_iff bit_FIELD_PREP bit_BIT)
  ultimately show ?thesis
    using t b(4) by (auto simp only: simp_thms)
qed

definition demo_bss :: bss_conf where
  "demo_bss = \<lparr>bc_ctx_band = None, bc_basic_rates = 0x15, bc_mcast_rate = (\<lambda>_. 0),
     bc_beacon_tx_rate = (\<lambda>_. \<lparr>rm_legacy = 0, rm_ht_mcs = [], rm_vht_mcs = [], rm_he_mcs = []\<rparr>)\<rparr>"

definition demo_txw :: txw_dev where
  "demo_txw = \<lparr>twd_mmio = True, twd_chip = 0x7902, twd_phy = \<lparr>twp_band = Band_5GHZ, twp_antenna_mask = 3\<rparr>,
     twd_band1 = None\<rparr>"

definition demo_vif :: txw_vif where
  "demo_vif = \<lparr>twv_omac_idx = 1, twv_wmm_idx = 1, twv_band_idx = 0, twv_bss_conf = demo_bss\<rparr>"

definition demo_wcid :: txw_wcid where
  "demo_wcid = \<lparr>tww_idx = 19, tww_amsdu = True, tww_wme = Some True\<rparr>"

definition demo_info :: txw_info where
  "demo_info = \<lparr>twi_hw_queue = 0, twi_hw_encap = False, twi_use_minrate = False, twi_injected = False,
     twi_no_ack = False, twi_queue_mapping = 2, twi_priority = 0\<rparr>"

text \<open>A QoS data frame of 40 bytes with some memory behind it.\<close>

definition demo_frame :: skb where
  "demo_frame = \<lparr>sk_mem = [0x88, 1, 0, 0] @ replicate 100 0, sk_data = 0, sk_len = 40, sk_panic = False\<rparr>"

definition demo_txwi :: "nat \<Rightarrow> u32 list" where
  "demo_txwi pid = mt76_connac2_mac_write_txwi (\<lambda>_. False) demo_txw [] demo_frame demo_info demo_wcid (Some demo_vif) None
     pid 2 \<lparr>ch_beacon = False, ch_inband_disc = False\<rparr>"

theorem descriptor_names_frame_witness:
  "FIELD_GET 9 0 (demo_txwi 5 ! 1) = 19 \<and> FIELD_GET 7 0 (demo_txwi 5 ! 5) = 5 \<and> bit (demo_txwi 5 ! 5) 10 \<and>
    \<not> bit (demo_txwi 5 ! 7) 10"
proof -
  have q: "txwi_queue demo_txw \<lparr>ch_beacon = False, ch_inband_disc = False\<rparr> 2 (twv_wmm_idx demo_vif)
      (twi_queue_mapping demo_info) = (0, 5)"
    by (simp add: txwi_queue_def demo_txw_def demo_vif_def demo_info_def TXQ_PSD_def mt76_connac_lmac_mapping_def)
  have "sk_len demo_frame + 64 < 65536" "unat (tww_idx demo_wcid) < 1024" "unat (twv_omac_idx demo_vif) < 64"
    "(5::nat) < 256" "unat (5::u8) < 128"
    by (simp_all add: demo_frame_def demo_wcid_def demo_vif_def)
  from descriptor_names_frame [OF this(1-4) q this(5) refl, of "\<lambda>_. False" "[]" None, folded demo_txwi_def]
  show ?thesis by (auto simp: demo_wcid_def)
qed

section \<open>The fixed rate\<close>

text \<open>The legacy rates of a band, as \<open>mt76_register_phy\<close> hands them to mac80211.\<close>

definition band_rates :: "nl80211_band \<Rightarrow> bitrate list" where
  "band_rates band = (if band = Band_2GHZ then mt76_rates else drop 4 mt76_rates)"

lemma tx_rate_legacy_high:
  "band \<noteq> Band_2GHZ \<Longrightarrow> tx_rate_legacy band i = tx_rate_legacy Band_5GHZ i"
  by (simp add: tx_rate_legacy_def)

text \<open>Each rate of the table is read back by the decoder of the status report.\<close>

lemma legacy_roundtrip_2g:
  "\<forall>i \<in> set [0..<12]. let r = ucast (tx_rate_legacy Band_2GHZ (int i)) :: u32 in
     mt76_get_rate \<lparr>sb_band = Band_2GHZ, sb_bitrates = mt76_rates\<rparr> (FIELD_GET 5 0 r) (FIELD_GET 9 6 r = 0) = i"
  by code_simp

lemma legacy_roundtrip_5g:
  "\<forall>i \<in> set [0..<8]. let r = ucast (tx_rate_legacy Band_5GHZ (int i)) :: u32 in
     mt76_get_rate \<lparr>sb_band = Band_5GHZ, sb_bitrates = drop 4 mt76_rates\<rparr> (FIELD_GET 5 0 r) (FIELD_GET 9 6 r = 0) = i"
  by code_simp

lemma band_rates_length: "length (band_rates band) = (if band = Band_2GHZ then 12 else 8)"
  by (simp add: band_rates_def mt76_rates_def)

lemma legacy_roundtrip:
  assumes "i < length (band_rates band)"
  shows "mt76_get_rate \<lparr>sb_band = band, sb_bitrates = band_rates band\<rparr>
      (FIELD_GET 5 0 (ucast (tx_rate_legacy band (int i)))) (FIELD_GET 9 6 (ucast (tx_rate_legacy band (int i)) :: u32) = 0) = i"
proof (cases "band = Band_2GHZ")
  case True
  then show ?thesis using legacy_roundtrip_2g assms unfolding band_rates_length
    by (simp add: Let_def band_rates_def)
next
  case False
  have "mt76_get_rate \<lparr>sb_band = band, sb_bitrates = rs\<rparr> x c = mt76_get_rate \<lparr>sb_band = Band_5GHZ, sb_bitrates = rs\<rparr> x c"
    for rs x c using False by (simp add: mt76_get_rate_def)
  then show ?thesis
    using legacy_roundtrip_5g assms False unfolding band_rates_length
    by (simp add: Let_def band_rates_def tx_rate_legacy_high [OF False])
qed

lemma legacy_out_of_band:
  "i < 0 \<or> int (length (band_rates band)) \<le> i \<Longrightarrow> tx_rate_legacy band i = tx_rate_legacy band 0"
  by (auto simp: tx_rate_legacy_def band_rates_def mt76_rates_def)

lemma find_shorter:
  assumes "n \<le> m"
  shows "List.find P [0..<n] = (case List.find P [0..<m] of Some i \<Rightarrow> if i < n then Some i else None | None \<Rightarrow> None)"
proof -
  have "[0..<m] = [0..<n] @ [n..<m]" using assms upt_add_eq_append [of 0 n "m - n"] by simp
  moreover have "List.find P (xs @ ys) = (case List.find P xs of Some i \<Rightarrow> Some i | None \<Rightarrow> List.find P ys)" for xs ys
    by (induction xs) simp_all
  moreover have "i < n" if "List.find P [0..<n] = Some i" for i
    using that by (auto simp: find_Some_iff)
  moreover have "n \<le> i" if "List.find P [n..<m] = Some i" for i
    using that by (auto simp: find_Some_iff)
  ultimately show ?thesis by (auto split: option.split)
qed

text \<open>
  A fixed rate is read back as what it was. On the connac2 chips the rate written into the
  descriptor of a frame with a fixed rate is the lowest basic rate of its network, or the lowest rate of
  the band when there is none among the band's rates, and the decoder of the status report finds the
  same entry in the rate table of the band.
\<close>

theorem fixed_rate_roundtrip:
  assumes "is_connac2 dev"
    and "band = (case bc_ctx_band c of Some b \<Rightarrow> b | None \<Rightarrow> twp_band phy)"
    and "r = (ucast (mt76_connac2_mac_tx_rate_val dev phy (Some c) beacon mcast) :: u32)"
  shows "mt76_get_rate \<lparr>sb_band = band, sb_bitrates = band_rates band\<rparr> (FIELD_GET 5 0 r) (FIELD_GET 9 6 r = 0) =
    (case List.find (bit (bc_basic_rates c)) [0..<length (band_rates band)] of None \<Rightarrow> 0 | Some i \<Rightarrow> i)"
proof -
  let ?n = "length (band_rates band)" and ?b = "bit (bc_basic_rates c)"
  have r: "r = ucast (tx_rate_legacy band (ffs (bc_basic_rates c) - 1))"
    using assms by (simp add: mt76_connac2_mac_tx_rate_val_def Let_def)
  have low: "0 < ?n" "?n \<le> 32" by (simp_all add: band_rates_length)
  have "\<exists>i < ?n. tx_rate_legacy band (ffs (bc_basic_rates c) - 1) = tx_rate_legacy band (int i) \<and>
      i = (case List.find ?b [0..<?n] of None \<Rightarrow> 0 | Some i \<Rightarrow> i)"
  proof (cases "List.find ?b [0..<32]")
    case None
    then show ?thesis using low legacy_out_of_band [of "- 1" band] by (simp add: find_shorter [OF low(2)] ffs_def)
  next
    case (Some m)
    then show ?thesis
      using low legacy_out_of_band [of "int m" band]
      by (cases "m < ?n") (simp_all add: find_shorter [OF low(2)] ffs_def)
  qed
  then show ?thesis using legacy_roundtrip [of _ band] unfolding r by fastforce
qed

theorem fixed_rate_roundtrip_witness:
  "mt76_get_rate \<lparr>sb_band = Band_5GHZ, sb_bitrates = band_rates Band_5GHZ\<rparr>
     (FIELD_GET 5 0 (ucast (mt76_connac2_mac_tx_rate_val demo_txw (twd_phy demo_txw) (Some (demo_bss\<lparr>bc_basic_rates := 4\<rparr>)) False True)))
     (FIELD_GET 9 6 (ucast (mt76_connac2_mac_tx_rate_val demo_txw (twd_phy demo_txw) (Some (demo_bss\<lparr>bc_basic_rates := 4\<rparr>))
        False True) :: u32) = 0) = 2"
proof -
  have f: "List.find (bit (4::u32)) [0..<length (band_rates Band_5GHZ)] = Some 2" by code_simp
  have "is_connac2 demo_txw" by (simp add: is_connac2_def demo_txw_def)
  from fixed_rate_roundtrip [where c = "demo_bss\<lparr>bc_basic_rates := 4\<rparr>" and phy = "twd_phy demo_txw",
      OF this refl refl, of False True] f
  show ?thesis by (simp add: demo_bss_def demo_txw_def)
qed

section \<open>The list of buffers\<close>

lemma list4_cases:
  obtains "xs = []" | x where "xs = [x]" | x y where "xs = [x, y]" | x y z where "xs = [x, y, z]"
    | x y z u ys where "xs = x # y # z # u # ys"
  by (metis list.exhaust)

lemma len_masks:
  fixes x :: u16
  shows "(x AND GENMASK 11 0) AND txp_read_mask chip = 0" "((x AND GENMASK 11 0) OR txp_write_mask chip) AND txp_read_mask chip \<noteq> 0"
    "((x AND GENMASK 11 0) OR txp_write_mask chip) AND GENMASK 11 0 = x AND GENMASK 11 0"
    "(x AND GENMASK 11 0) AND GENMASK 11 0 = x AND GENMASK 11 0"
proof -
  show "(x AND GENMASK 11 0) AND txp_read_mask chip = 0"
    by (rule bit_word_eqI) (auto simp: bit_and_iff bit_GENMASK txp_read_mask_def bit_BIT)
  have "bit (((x AND GENMASK 11 0) OR txp_write_mask chip) AND txp_read_mask chip) (if one_last_bit chip then 15 else 14)"
    by (simp add: bit_and_iff bit_or_iff txp_read_mask_def txp_write_mask_def bit_BIT)
  then show "((x AND GENMASK 11 0) OR txp_write_mask chip) AND txp_read_mask chip \<noteq> 0" by fastforce
  show "((x AND GENMASK 11 0) OR txp_write_mask chip) AND GENMASK 11 0 = x AND GENMASK 11 0"
    by (rule bit_word_eqI) (auto simp: bit_and_iff bit_or_iff bit_GENMASK txp_write_mask_def bit_BIT)
  show "(x AND GENMASK 11 0) AND GENMASK 11 0 = x AND GENMASK 11 0" by (simp add: and.assoc)
qed

lemma len_kept: "unat (n :: u32) < 4096 \<Longrightarrow> (ucast n :: u16) AND GENMASK 11 0 = ucast n"
proof -
  assume n: "unat n < 4096"
  have "(ucast n :: u16) AND GENMASK 11 0 = take_bit 12 (ucast n)"
    by (rule bit_word_eqI) (auto simp: bit_and_iff bit_GENMASK bit_take_bit_iff)
  also have "\<dots> = ucast n"
    using n by (intro take_small) (simp add: unsigned_ucast_eq le_less_trans [OF take_bit_nat_less_eq_self])
  finally show ?thesis .
qed

lemma short_len:
  assumes "unat (n :: u32) < 4096"
  shows "(ucast n :: u16) AND GENMASK 11 0 = ucast n" "(ucast n :: u16) AND txp_read_mask chip = 0"
    "((ucast n :: u16) OR txp_write_mask chip) AND txp_read_mask chip \<noteq> 0"
    "((ucast n :: u16) OR txp_write_mask chip) AND GENMASK 11 0 = ucast n"
  using len_masks(1-3) [where x = "ucast n" and chip = chip] unfolding len_kept [OF assms] by (simp_all add: len_kept [OF assms])

text \<open>
  What is mapped is unmapped. For a frame of one to four buffers, each shorter than 4096 bytes,
  the list behind the descriptor is filled without leaving it, holds the token of the frame, and
  releasing the mappings found in it releases exactly the buffers of the frame with their addresses and
  lengths, in order; the descriptor is left as the only buffer for the ring.
\<close>

lemma txp_roundtrip:
  assumes "bufs = (base, n0) # frame" "1 \<le> length frame" "length frame \<le> 4" "\<forall>(a, n) \<in> set frame. unat n < 4096"
  shows "\<exists>txp. mt76_connac_write_hw_txp chip bufs hw_txp_zero token = Some (txp, [(base, 64)])
    \<and> ht_msdu_id txp ! 0 = ucast (token OR BIT 15)
    \<and> mt76_connac_txp_skb_unmap_hw chip (ht_ptr txp) = map (\<lambda>(a, n). (a, ucast n)) frame"
proof -
  consider x where "frame = [x]" | x y where "frame = [x, y]" | x y z where "frame = [x, y, z]"
    | x y z u where "frame = [x, y, z, u]"
    using assms(2,3) by (cases frame rule: list4_cases) auto
  moreover have "replicate 2 x = [x, x]" for x :: txp_ptr by (simp add: numeral_2_eq_2)
  ultimately show ?thesis
    using assms(1,4)
    by cases (auto simp: mt76_connac_write_hw_txp_def hw_txp_zero_def Let_def short_len nth_list_update)
qed

text \<open>The list has room for four buffers; a fifth is written behind it.\<close>

lemma fifth_buffer_overruns:
  "length frame = 5 \<Longrightarrow> mt76_connac_write_hw_txp chip (b # frame) hw_txp_zero token = None"
proof -
  assume "length frame = 5"
  then obtain x y z u v where "frame = [x, y, z, u, v]" by (auto simp: length_Suc_conv numeral_eq_Suc)
  moreover have "replicate 2 x = [x, x]" for x :: txp_ptr by (simp add: numeral_2_eq_2)
  ultimately show ?thesis
    by (cases x; cases y; cases z; cases u; cases v)
      (simp add: mt76_connac_write_hw_txp_def hw_txp_zero_def Let_def)
qed

section \<open>What the descriptor depends on\<close>

text \<open>The parts of the frame that are read.\<close>

lemma frame_bytes:
  assumes "sk_data s + sk_len s \<le> length (sk_mem s)" "i < sk_len s"
  shows "sk_mem s ! (sk_data s + i) = skb_frame s ! i"
  using assms by (simp add: skb_frame_def mem_get_def)

lemma frame_words:
  assumes "sk_data s + sk_len s \<le> length (sk_mem s)" "i + 1 < sk_len s"
  shows "rd16 s (sk_data s + i) = le16 (skb_frame s) i"
  using frame_bytes [OF assms(1), of i] frame_bytes [OF assms(1), of "i + 1"] assms(2)
  by (simp add: rd16_def le16_def add.assoc)

definition skb_whole :: "skb \<Rightarrow> bool" where
  "skb_whole s \<longleftrightarrow> sk_data s + sk_len s \<le> length (sk_mem s)"

lemma same_frame_reads:
  assumes "skb_whole s" "skb_whole s'" "sk_len s' = sk_len s" "skb_frame s' = skb_frame s"
  shows "i < sk_len s \<Longrightarrow> sk_mem s' ! (sk_data s' + i) = sk_mem s ! (sk_data s + i)"
    "i + 1 < sk_len s \<Longrightarrow> rd16 s' (sk_data s' + i) = rd16 s (sk_data s + i)"
    "1 < sk_len s \<Longrightarrow> rd16 s' (sk_data s') = rd16 s (sk_data s)"
  using assms frame_bytes [of s i] frame_bytes [of s' i] frame_words [of s i] frame_words [of s' i]
    frame_words [of s 0] frame_words [of s' 0]
  by (simp_all add: skb_whole_def)

lemma same_frame_8023:
  assumes "skb_whole s" "skb_whole s'" "sk_len s' = sk_len s" "skb_frame s' = skb_frame s" "14 \<le> sk_len s"
  shows "mt76_connac2_mac_write_txwi_8023 t s' info w = mt76_connac2_mac_write_txwi_8023 t s info w"
  using assms(5) by (simp add: mt76_connac2_mac_write_txwi_8023_def same_frame_reads [OF assms(1-4)])

lemma same_frame_80211:
  assumes "skb_whole s" "skb_whole s'" "sk_len s' = sk_len s" "skb_frame s' = skb_frame s" "24 \<le> sk_len s"
  shows "mt76_connac2_mac_write_txwi_80211 robust dev t s' info key = mt76_connac2_mac_write_txwi_80211 robust dev t s info key"
proof -
  note reads = same_frame_reads [OF assms(1-4)]
  have "txwi_is_addba s' = txwi_is_addba s"
    using assms(3,5) reads(1) [of 24] reads(1) [of 25] reads(3) by (auto simp: txwi_is_addba_def)
  moreover have "txwi_tid s' info = txwi_tid s info" if "txwi_is_addba s' = txwi_is_addba s"
    using that assms(3,5) reads(2) [of 27] reads(2) [of 16] reads(3) by (auto simp: txwi_tid_def txwi_is_addba_def)
  moreover have "ieee80211_get_hdrlen_from_skb s' = ieee80211_get_hdrlen_from_skb s"
    using assms(3,5) reads(3) by (simp add: ieee80211_get_hdrlen_from_skb_def)
  moreover have "txwi_injected s' info u = txwi_injected s info u" for u
    using assms(5) reads(2) [of 18] reads(2) [of 22] reads(3) by (simp add: txwi_injected_def)
  ultimately show ?thesis
    using assms(4,5) reads(1) [of 4] reads(2) [of 22] reads(3)
    by (simp add: mt76_connac2_mac_write_txwi_80211_def Let_def)
qed



text \<open>
  A block-ack request has 20 bytes, but its sequence control is read at offset 22, in the memory
  behind it: whether the descriptor marks it as the last fragment of a frame is left to chance.
\<close>

definition demo_bar :: "u8 \<Rightarrow> skb" where
  "demo_bar x = \<lparr>sk_mem = [0x84] @ replicate 21 0 @ [x] @ replicate 9 0, sk_data = 0, sk_len = 20, sk_panic = False\<rparr>"

lemma fragment_field:
  "2 < length t \<Longrightarrow> FIELD_GET 15 14 (mt76_connac2_mac_write_txwi_80211 robust dev t s info key ! 2) =
     FIELD_GET 15 14 (t ! 2) OR FIELD_GET 15 14 (txwi_frag (rd16 s (sk_data s)) (rd16 s (sk_data s + 22)))"
  unfolding mt76_connac2_mac_write_txwi_80211_def txwi_injected_def Let_def
  by (simp add: nth_txwi nth_if bitfield)

lemma bar_fragment_from_outside:
  "skb_frame (demo_bar 1) = skb_frame (demo_bar 0) \<and>
   FIELD_GET 15 14 (mt76_connac2_mac_write_txwi_80211 robust dev (replicate 8 0) (demo_bar 0) info key ! 2) = 0 \<and>
   FIELD_GET 15 14 (mt76_connac2_mac_write_txwi_80211 robust dev (replicate 8 0) (demo_bar 1) info key ! 2) = 3"
proof -
  have "FIELD_GET 15 14 (txwi_frag (rd16 (demo_bar 0) 0) (rd16 (demo_bar 0) 22)) = 0"
    "FIELD_GET 15 14 (txwi_frag (rd16 (demo_bar 1) 0) (rd16 (demo_bar 1) 22)) = 3"
    by code_simp+
  moreover have "sk_data (demo_bar x) = 0" for x by (simp add: demo_bar_def)
  moreover have "skb_frame (demo_bar 1) = skb_frame (demo_bar 0)"
    by (simp add: skb_frame_def mem_get_def demo_bar_def)
  ultimately show ?thesis by (simp add: fragment_field)
qed

end
