(* ===== verification/TxPrep.thy ===== *)
theory TxPrep
  imports TxDescProps TxStatus
begin

text \<open>
  Preparing a frame for the ring on the PCIe chips, \<open>mt7921e_tx_prepare_skb\<close> of
  src/src/mt76/mt7921/pci_mac.c: it takes a token for the frame (Tokens), asks for its status when one is
  due (TxStatus), and writes the descriptor and the list of buffers (TxDesc). The property composes the
  three components.
\<close>

section \<open>State\<close>

text \<open>
  \<open>pp_txwi_skb\<close> is the frame of each descriptor cache (\<open>t->skb\<close>), \<open>pp_last_txs\<close> the time of the last
  status that was asked for, by station, \<open>pp_amsdu\<close> and \<open>pp_wme\<close> the parts of a client that the
  descriptor needs.
\<close>

record prep_state =
  pp_tok :: "nat token_dev"
  pp_dev :: tx_dev
  pp_txwi_skb :: "nat \<Rightarrow> nat option"
  pp_last_txs :: "nat \<Rightarrow> u64"
  pp_global_wcid :: nat
  pp_amsdu :: "nat \<Rightarrow> bool"
  pp_wme :: "nat \<Rightarrow> bool option"
  pp_txw :: txw_dev

text \<open>The arguments, with the parts of \<open>struct mt76_tx_info\<close> and of the control block of the frame.\<close>

record prep_req =
  pr_txwi :: nat
  pr_skb :: nat
  pr_frame :: skb
  pr_bufs :: "(u32 \<times> u32) list"
  pr_wcid :: "nat option"
  pr_sta :: "nat option"
  pr_vif :: "txw_vif option"
  pr_info :: txw_info
  pr_key :: "bool option"
  pr_qid :: nat

datatype prep_result =
    Prep_error errno
  | Prep_overrun
  | Prep_ok "u32 list" hw_txp "(u32 \<times> u32) list"

section \<open>The operation\<close>

text \<open>A status report is wanted four times a second for each station.\<close>

definition status_due :: "nat option \<Rightarrow> prep_state \<Rightarrow> bool" where
  "status_due sta st = (case sta of
     None \<Rightarrow> False
   | Some a \<Rightarrow> sint (pp_last_txs st a + dv_hz (pp_dev st) div 4 - dv_jiffies (pp_dev st)) < 0)"

definition request_status :: "nat option \<Rightarrow> nat \<Rightarrow> prep_state \<Rightarrow> prep_state" where
  "request_status sta s st =
     (if status_due sta st
      then st\<lparr>pp_dev := upd_skb s (\<lambda>k. k\<lparr>sk_req_tx_status := True\<rparr>) (pp_dev st),
              pp_last_txs := (pp_last_txs st)(the sta := dv_jiffies (pp_dev st))\<rparr>
      else st)"

definition txw_view :: "prep_state \<Rightarrow> nat \<Rightarrow> txw_wcid" where
  "txw_view st w = \<lparr>tww_idx = wc_idx (dv_wcid (pp_dev st) w), tww_amsdu = pp_amsdu st w, tww_wme = pp_wme st w\<rparr>"

definition no_change :: bss_changed where
  "no_change = \<lparr>ch_beacon = False, ch_inband_disc = False\<rparr>"

definition mt7921e_tx_prepare_skb ::
  "nat idr_alloc \<Rightarrow> nat idr_alloc \<Rightarrow> robust_test \<Rightarrow> prep_req \<Rightarrow> prep_state \<Rightarrow> prep_result \<times> prep_state" where
  "mt7921e_tx_prepare_skb talloc palloc robust rq st =
     (if sk_len (pr_frame rq) \<le> 14 then (Prep_error EINVAL, st)
      else
        let w = (case pr_wcid rq of None \<Rightarrow> pp_global_wcid st | Some w \<Rightarrow> w);
            st = st\<lparr>pp_txwi_skb := (pp_txwi_skb st)(pr_txwi rq := Some (pr_skb rq))\<rparr>;
            (token, tok) = mt76_token_consume talloc (pp_tok st) (pr_txwi rq);
            st = st\<lparr>pp_tok := tok\<rparr>
        in case token of
             None \<Rightarrow> (Prep_error ENOSPC, st)
           | Some n \<Rightarrow>
               let st = request_status (pr_sta rq) (pr_skb rq) st;
                   (pid, dev) = mt76_tx_status_skb_add palloc (pp_dev st) (Some w) (pr_skb rq);
                   st = st\<lparr>pp_dev := dev\<rparr>;
                   txwi = mt76_connac2_mac_write_txwi robust (pp_txw st) [] (pr_frame rq) (pr_info rq) (txw_view st w)
                            (pr_vif rq) (pr_key rq) pid (pr_qid rq) no_change
               in (case mt76_connac_write_hw_txp (twd_chip (pp_txw st)) (pr_bufs rq) hw_txp_zero (of_nat n) of
                     None \<Rightarrow> (Prep_overrun, st)
                   | Some (txp, bufs) \<Rightarrow> (Prep_ok txwi txp bufs, st)))"

section \<open>Property\<close>

lemma status_add_result:
  assumes "idr_ok alloc" "mt76_tx_status_skb_add alloc dev (Some w) s = (pid, dev')"
  shows "pid < 127" "3 \<le> pid \<Longrightarrow> wc_pktid (dv_wcid dev' w) pid = Some s"
    "pid < 3 \<Longrightarrow> dv_wcid dev' = dv_wcid dev" "wc_idx (dv_wcid dev' w) = wc_idx (dv_wcid dev w)"
proof -
  have r: "3 \<le> n \<and> n < 127" if "alloc m 3 127 = Some n" for m n
    using assms(1) that unfolding idr_ok_def by blast
  show "pid < 127" "3 \<le> pid \<Longrightarrow> wc_pktid (dv_wcid dev' w) pid = Some s"
    "pid < 3 \<Longrightarrow> dv_wcid dev' = dv_wcid dev" "wc_idx (dv_wcid dev' w) = wc_idx (dv_wcid dev w)"
    using assms(2) r
    by (auto simp: mt76_tx_status_skb_add_def Let_def pktid_defs upd_cb_def wed_only_def split: option.splits if_splits
        dest!: r)
qed

lemma request_status_sel [simp]:
  "pp_tok (request_status sta s st) = pp_tok st" "pp_txwi_skb (request_status sta s st) = pp_txwi_skb st"
  "pp_txw (request_status sta s st) = pp_txw st" "dv_wcid (pp_dev (request_status sta s st)) = dv_wcid (pp_dev st)"
  by (simp_all add: request_status_def)

lemma msdu_id_field:
  assumes "n < 0x8000"
  shows "unat (FIELD_GET 14 0 (ucast (of_nat n OR BIT 15 :: u32) :: u16)) = n"
proof -
  have "FIELD_GET 14 0 (ucast (of_nat n OR BIT 15 :: u32) :: u16) = take_bit 15 (of_nat n)"
    by (rule bit_word_eqI)
      (auto simp: bit_FIELD_GET bit_ucast_iff bit_or_iff bit_BIT bit_take_bit_iff bit_of_nat_iff)
  then show ?thesis using assms by (simp add: take_bit_of_nat unat_of_nat take_bit_nat_eq_self)
qed

lemma txwi_common:
  assumes "unat (tww_idx w) < 1024" "pid < 256"
    and "t = mt76_connac2_mac_write_txwi robust dev tl_words s info w vif key pid qid changed"
  shows "FIELD_GET 9 0 (t ! 1) = ucast (tww_idx w)" "FIELD_GET 7 0 (t ! 5) = of_nat pid" "bit (t ! 5) 10 \<longleftrightarrow> 3 \<le> pid"
proof -
  let ?b = "txwi_base dev (sk_len s) w vif info (key \<noteq> None) pid qid changed"
  have "FIELD_GET 9 0 (?b ! 1) = ucast (tww_idx w)"
    using assms(1) by (auto simp: txwi_base_def Let_def bitfield FIELD_GET_PREP take_u16 split: prod.split option.split)
  moreover have "?b ! 5 = FIELD_PREP 7 0 (of_nat pid) OR (if pid \<ge> 3 then BIT 10 else 0)"
    by (simp add: txwi_base_def Let_def split: prod.split option.split)
  then have "FIELD_GET 7 0 (?b ! 5) = of_nat pid" "bit (?b ! 5) 10 \<longleftrightarrow> 3 \<le> pid"
    using assms(2) by (simp_all add: bitfield FIELD_GET_PREP take_nat bit_or_iff bit_FIELD_PREP bit_BIT)
  moreover note txwi_words [of robust dev tl_words s info w vif key pid qid changed, folded assms(3)]
  ultimately show "FIELD_GET 9 0 (t ! 1) = ucast (tww_idx w)" "FIELD_GET 7 0 (t ! 5) = of_nat pid" "bit (t ! 5) 10 \<longleftrightarrow> 3 \<le> pid"
    by simp_all
qed

lemma token_number:
  assumes "idr_ok talloc" "mt76_token_consume talloc dev txwi = (Some n, tok)"
    and "unat (td_start dev) + unat (td_size dev) \<le> 0x8000"
  shows "n < 0x8000"
proof -
  have "fst (mt76_token_consume talloc dev txwi) = talloc (td_token dev)
      (unat (td_start dev)) (unat (td_start dev) + unat (td_size dev))"
    by (simp add: mt76_token_consume_def Let_def)
  then have "n < unat (td_start dev) + unat (td_size dev)"
    using assms(1,2) unfolding idr_ok_def by (metis fst_conv)
  then show ?thesis using assms(3) by linarith
qed

text \<open>What a prepared frame looks like to the hardware and to the bookkeeping of the driver.\<close>

definition prepared_ok :: "prep_req \<Rightarrow> nat \<Rightarrow> prep_state \<Rightarrow> prep_state \<Rightarrow> u32 list \<Rightarrow> hw_txp \<Rightarrow> bool" where
  "prepared_ok rq w st st' txwi txp \<longleftrightarrow>
     (let n = unat (FIELD_GET 14 0 (ht_msdu_id txp ! 0)); pid = unat (FIELD_GET 7 0 (txwi ! 5)) in
      td_token (pp_tok st) n = None \<and> td_token (pp_tok st') n = Some (pr_txwi rq) \<and>
      pp_txwi_skb st' (pr_txwi rq) = Some (pr_skb rq) \<and>
      FIELD_GET 9 0 (txwi ! 1) = ucast (wc_idx (dv_wcid (pp_dev st') w)) \<and>
      (if bit (txwi ! 5) 10 then wc_pktid (dv_wcid (pp_dev st') w) pid = Some (pr_skb rq)
       else dv_wcid (pp_dev st') = dv_wcid (pp_dev st)))"

text \<open>
  C35: A prepared frame can be found again. For a frame of one to four short buffers, preparing it
  succeeds, unless no token is left, and then nothing is tracked and no token is taken. When it
  succeeds, the number in the list of buffers is a token that was free and now leads to the
  frame; releasing the mappings found in the list releases the buffers of the frame; and the descriptor
  asks for a status report exactly when the frame is registered with the client it names under the packet
  id it carries.
\<close>

theorem prepared_frame_tracked:
  assumes "idr_ok talloc" "idr_ok palloc" "tok_count_ok (pp_tok st)"
    and "unat (td_start (pp_tok st)) + unat (td_size (pp_tok st)) \<le> 0x8000"
    and "pr_bufs rq = (base, n0) # frame" "1 \<le> length frame" "length frame \<le> 4" "\<forall>(a, n) \<in> set frame. unat n < 4096"
    and "14 < sk_len (pr_frame rq)" "w = (case pr_wcid rq of None \<Rightarrow> pp_global_wcid st | Some w \<Rightarrow> w)"
    and "unat (wc_idx (dv_wcid (pp_dev st) w)) < 1024"
    and "mt7921e_tx_prepare_skb talloc palloc robust rq st = (r, st')"
  shows "case r of
      Prep_error e \<Rightarrow> e = ENOSPC \<and> td_token (pp_tok st') = td_token (pp_tok st) \<and> pp_dev st' = pp_dev st
    | Prep_overrun \<Rightarrow> False
    | Prep_ok txwi txp bufs \<Rightarrow> bufs = [(base, 64)] \<and> prepared_ok rq w st st' txwi txp \<and>
        mt76_connac_txp_skb_unmap_hw (twd_chip (pp_txw st)) (ht_ptr txp) = map (\<lambda>(a, n). (a, ucast n)) frame"
proof -
  obtain token tok where tk: "mt76_token_consume talloc (pp_tok st) (pr_txwi rq) = (token, tok)" by fastforce
  note spec = token_consume_spec [OF assms(1,3), of "pr_txwi rq", unfolded tk fst_conv snd_conv]
  show ?thesis
  proof (cases token)
    case None
    then show ?thesis
      using assms(9,10,12) tk spec(4) by (auto simp: mt7921e_tx_prepare_skb_def Let_def)
  next
    case (Some n)
    define st2 where "st2 = request_status (pr_sta rq) (pr_skb rq)
      (st\<lparr>pp_txwi_skb := (pp_txwi_skb st)(pr_txwi rq := Some (pr_skb rq)), pp_tok := tok\<rparr>)"
    obtain pid dev where sa: "mt76_tx_status_skb_add palloc (pp_dev st2) (Some w) (pr_skb rq) = (pid, dev)" by fastforce
    obtain txp where txp: "mt76_connac_write_hw_txp (twd_chip (pp_txw st)) (pr_bufs rq) hw_txp_zero (of_nat n) = Some (txp, [(base, 64)])"
      "ht_msdu_id txp ! 0 = ucast (of_nat n OR BIT 15 :: u32)"
      "mt76_connac_txp_skb_unmap_hw (twd_chip (pp_txw st)) (ht_ptr txp) = map (\<lambda>(a, n). (a, ucast n)) frame"
      using txp_roundtrip [OF assms(5-8)] by blast
    obtain txwi where txwi: "txwi = mt76_connac2_mac_write_txwi robust (pp_txw st) [] (pr_frame rq) (pr_info rq)
        (txw_view (st2\<lparr>pp_dev := dev\<rparr>) w) (pr_vif rq) (pr_key rq) pid (pr_qid rq) no_change" by blast
    have res: "r = Prep_ok txwi txp [(base, 64)]" "st' = st2\<lparr>pp_dev := dev\<rparr>"
      using assms(12) assms(9) tk Some sa txp(1)
      by (auto simp: mt7921e_tx_prepare_skb_def Let_def txwi st2_def assms(10))
    note add = status_add_result [OF assms(2) sa]
    have w2: "dv_wcid (pp_dev st2) = dv_wcid (pp_dev st)" by (simp add: st2_def)
    have idx: "unat (tww_idx (txw_view (st2\<lparr>pp_dev := dev\<rparr>) w)) < 1024"
      using assms(11) add(4) w2 by (simp add: txw_view_def)
    have pid: "pid < 256" using add(1) by simp
    note t = txwi_common [OF idx pid txwi]
    have n12: "td_token (pp_tok st) n = None" "td_token tok = (td_token (pp_tok st))(n \<mapsto> pr_txwi rq)"
      using spec(4) Some by simp_all
    note n = n12 token_number [OF assms(1) tk [unfolded Some] assms(4)]
    have "unat (FIELD_GET 7 0 (txwi ! 5)) = pid" using t(2) pid by (simp add: unat_of_nat)
    then have "prepared_ok rq w st st' txwi txp"
      using t add w2 n msdu_id_field [OF n(3)]
      by (auto simp: prepared_ok_def res(2) txp(2) st2_def txw_view_def not_le)
    then show ?thesis by (simp add: res(1) txp(3))
  qed
qed

definition demo_prep :: prep_state where
  "demo_prep = \<lparr>pp_tok = demo_tokens, pp_dev = demo_tx_dev, pp_txwi_skb = (\<lambda>_. None), pp_last_txs = (\<lambda>_. 0),
     pp_global_wcid = 0, pp_amsdu = (\<lambda>_. True), pp_wme = (\<lambda>_. None), pp_txw = demo_txw\<rparr>"

definition demo_rq :: prep_req where
  "demo_rq = \<lparr>pr_txwi = 7, pr_skb = 8, pr_frame = demo_frame, pr_bufs = [(16, 32), (0x1000, 60), (0x2000, 1400)],
     pr_wcid = Some 5, pr_sta = None, pr_vif = Some demo_vif, pr_info = demo_info, pr_key = None, pr_qid = 2\<rparr>"

definition demo_prepared :: "prep_result \<times> prep_state" where
  "demo_prepared = mt7921e_tx_prepare_skb idr_first idr_first (\<lambda>_. False) demo_rq demo_prep"

lemma demo_prepared_ok: "\<exists>txwi txp bufs. fst demo_prepared = Prep_ok txwi txp bufs"
proof -
  have "fst (mt76_token_consume idr_first demo_tokens 7) = Some 0" by code_simp
  moreover have "mt76_connac_write_hw_txp 0x7902 (pr_bufs demo_rq) hw_txp_zero 0 \<noteq> None" by code_simp
  ultimately show ?thesis
    by (auto simp: demo_prepared_def mt7921e_tx_prepare_skb_def Let_def demo_prep_def demo_rq_def demo_frame_def demo_txw_def
        split: prod.split option.split)
qed

theorem prepared_frame_tracked_witness:
  "case fst demo_prepared of Prep_ok txwi txp bufs \<Rightarrow> bufs = [(16, 64)] \<and>
      prepared_ok demo_rq 5 demo_prep (snd demo_prepared) txwi txp \<and>
      mt76_connac_txp_skb_unmap_hw 0x7902 (ht_ptr txp) = [(0x1000, 60), (0x2000, 1400)] | _ \<Rightarrow> False"
proof -
  have ok: "tok_count_ok (pp_tok demo_prep)"
    "unat (td_start (pp_tok demo_prep)) + unat (td_size (pp_tok demo_prep)) \<le> 0x8000"
    "pr_bufs demo_rq = (16, 32) # [(0x1000, 60), (0x2000, 1400)]" "14 < sk_len (pr_frame demo_rq)"
    "5 = (case pr_wcid demo_rq of None \<Rightarrow> pp_global_wcid demo_prep | Some w \<Rightarrow> w)"
    "unat (wc_idx (dv_wcid (pp_dev demo_prep) 5)) < 1024"
    by (simp_all add: demo_prep_def demo_rq_def demo_tokens_def tok_count_ok_def demo_frame_def demo_tx_dev_def demo_tx_wcid_def)
  have "mt7921e_tx_prepare_skb idr_first idr_first (\<lambda>_. False) demo_rq demo_prep = (fst demo_prepared, snd demo_prepared)"
    by (simp add: demo_prepared_def)
  from prepared_frame_tracked [OF idr_first_ok idr_first_ok ok(1,2,3) _ _ _ ok(4,5,6) this]
  show ?thesis using demo_prepared_ok by (auto simp: demo_prep_def demo_txw_def)
qed

end
