(* ===== verification/BtMtk.thy ===== *)
theory BtMtk
  imports BtUsbRx
begin

text \<open>
  The MediaTek part of the Bluetooth driver, src/src/bluetooth/btmtk.c with its callers in btusb.c: the
  exchange of a WMT command and its event over the control pipe, the download of the firmware with
  these commands, the reset of the subsystem, the ISO interface, core dumps, set-up and shut-down.
  What the USB core, the Bluetooth core and the device answer is a parameter of each operation.
\<close>

section \<open>WMT commands\<close>

text \<open>\<open>struct btmtk_hci_wmt_params\<close>; the caller's pointer to a status is the second result.\<close>

record wmt_params =
  wp_op :: u8
  wp_flag :: u8
  wp_data :: "u8 list"

definition WMT_PATCH_DWNLD :: u8 where "WMT_PATCH_DWNLD = 1"
definition WMT_FUNC_CTRL :: u8 where "WMT_FUNC_CTRL = 6"
definition WMT_RST :: u8 where "WMT_RST = 7"
definition WMT_SEMAPHORE :: u8 where "WMT_SEMAPHORE = 0x17"

datatype wmt_status = Wmt_invalid | Patch_undone | Patch_progress | Patch_done | On_undone | On_done | On_progress

definition wmt_bytes :: "wmt_params \<Rightarrow> u8 list" where
  "wmt_bytes p = [1, wp_op p] @ put_le16 (of_nat (length (wp_data p) + 1)) @ [wp_flag p] @ wp_data p"

text \<open>
  The state of an exchange: \<open>BTMTK_TX_WAIT_VND_EVT\<close>, the event kept for the sender, the references that
  keep the interface awake, live command buffers and set-up packets, the commands sent and the frames
  given to the Bluetooth core.
\<close>

record bt_wmt =
  bw_wait :: bool
  bw_evt :: "u8 list option"
  bw_pm :: int
  bw_cmds :: int
  bw_setups :: int
  bw_sent :: "u8 list list"
  bw_core :: "u8 list list"

text \<open>
  How the control request ends: data, with the outcome of the three calls made with it; no data yet,
  with the result of the new submission; or the request was killed.
\<close>

datatype urb_event = Urb_data "u8 list" bool bool bool | Urb_empty int | Urb_killed

definition free_setup :: "bt_wmt \<Rightarrow> bt_wmt" where
  "free_setup st = st\<lparr>bw_setups := bw_setups st - 1\<rparr>"

definition wmt_recv_data :: "u8 list \<Rightarrow> bool \<Rightarrow> bool \<Rightarrow> bool \<Rightarrow> bt_wmt \<Rightarrow> bt_wmt" where
  "wmt_recv_data d alloc clone recv st =
     (if \<not> alloc then free_setup st
      else if bw_wait st \<and> \<not> clone then free_setup (st\<lparr>bw_evt := None\<rparr>)
      else let st = (if bw_wait st then st\<lparr>bw_evt := Some d\<rparr> else st) in
           if \<not> recv then free_setup (st\<lparr>bw_evt := None\<rparr>)
           else free_setup (st\<lparr>bw_core := bw_core st @ [d], bw_wait := False\<rparr>))"

text \<open>\<open>btmtk_usb_wmt_recv\<close>, until the request is not submitted again.\<close>

fun btmtk_usb_wmt_recv :: "urb_event list \<Rightarrow> bt_wmt \<Rightarrow> bt_wmt" where
  "btmtk_usb_wmt_recv [] st = st"
| "btmtk_usb_wmt_recv (Urb_data d alloc clone recv # es) st = wmt_recv_data d alloc clone recv st"
| "btmtk_usb_wmt_recv (Urb_killed # es) st = st"
| "btmtk_usb_wmt_recv (Urb_empty err # es) st =
     (if err < 0 then free_setup st else btmtk_usb_wmt_recv es st)"

text \<open>What an exchange meets: allocations, the results of the calls it makes, and the control request.\<close>

record wmt_env =
  we_cmd_alloc :: bool
  we_autopm :: int
  we_send :: int
  we_urb_alloc :: bool
  we_setup_alloc :: bool
  we_buf_alloc :: bool
  we_submit :: int
  we_urb :: "urb_event list"

definition btmtk_usb_submit_wmt_recv_urb :: "wmt_env \<Rightarrow> bt_wmt \<Rightarrow> int \<times> bt_wmt" where
  "btmtk_usb_submit_wmt_recv_urb env st =
     (if \<not> we_urb_alloc env then (-12, st)
      else if \<not> we_setup_alloc env then (-12, st)
      else if \<not> we_buf_alloc env then (-12, st)
      else (we_submit env, st\<lparr>bw_setups := bw_setups st + 1\<rparr>))"

text \<open>The event: its header is at offset 2, the status of a function control at offset 7.\<close>

definition wmt_event_status :: "u8 list \<Rightarrow> wmt_status" where
  "wmt_event_status ev =
     (let op = ev ! 3; flag = ev ! 6; st = 256 * unat (ev ! 7) + unat (ev ! 8) in
      if op = WMT_SEMAPHORE then (if flag = 2 then Patch_undone else Patch_done)
      else if op = WMT_FUNC_CTRL then
        (if st = 0x404 then On_done else if st = 0x420 then On_progress else On_undone)
      else if op = WMT_PATCH_DWNLD then
        (if flag = 2 then Patch_done else if flag = 1 then Patch_progress else Patch_undone)
      else Wmt_invalid)"

definition free_cmd :: "bt_wmt \<Rightarrow> bt_wmt" where
  "free_cmd st = st\<lparr>bw_cmds := bw_cmds st - 1\<rparr>"

definition wmt_parse :: "wmt_params \<Rightarrow> bt_wmt \<Rightarrow> int \<times> wmt_status option \<times> bt_wmt" where
  "wmt_parse p st = (case bw_evt st of
     None \<Rightarrow> (0, None, free_cmd st)
   | Some ev \<Rightarrow>
       let st = free_cmd (st\<lparr>bw_evt := None\<rparr>) in
       if ev ! 3 \<noteq> wp_op p then (-5, None, st) else (0, Some (wmt_event_status ev), st))"

definition btmtk_usb_hci_wmt_sync :: "wmt_env \<Rightarrow> wmt_params \<Rightarrow> bt_wmt \<Rightarrow> int \<times> wmt_status option \<times> bt_wmt" where
  "btmtk_usb_hci_wmt_sync env p st =
     (if 5 + length (wp_data p) > 255 then (-22, None, st)
      else if \<not> we_cmd_alloc env then (-12, None, st)
      else let st = st\<lparr>bw_cmds := bw_cmds st + 1, bw_wait := True\<rparr> in
        if we_autopm env < 0 then (we_autopm env, None, free_cmd st)
        else let st = st\<lparr>bw_pm := bw_pm st + 1\<rparr> in
          if we_send env < 0 then (we_send env, None, free_cmd (st\<lparr>bw_wait := False, bw_pm := bw_pm st - 1\<rparr>))
          else let st = st\<lparr>bw_sent := bw_sent st @ [wmt_bytes p]\<rparr>;
                   (err, st) = btmtk_usb_submit_wmt_recv_urb env st;
                   st = st\<lparr>bw_pm := bw_pm st - 1\<rparr>
            in if err < 0 then (err, None, free_cmd st)
               else let st = btmtk_usb_wmt_recv (we_urb env) st in
                 if bw_wait st then (-110, None, free_cmd (st\<lparr>bw_wait := False\<rparr>))
                 else wmt_parse p st)"

section \<open>Firmware of the 79xx chips\<close>

text \<open>
  What can come of a download: a return value, reading outside of the image, or using a status that no
  command has written.
\<close>

datatype dl_out = Dl_ret int | Dl_oob | Dl_unset

text \<open>The function that sends a command is a parameter; the \<open>n\<close>-th call is answered by \<open>ans n\<close>.\<close>

type_synonym wmt_answers = "nat \<Rightarrow> wmt_params \<Rightarrow> int \<times> wmt_status option"

datatype patch_query = Q_download | Q_next int | Q_stop dl_out

definition last_status :: "wmt_status option \<Rightarrow> wmt_status option \<Rightarrow> wmt_status option" where
  "last_status old new = (case new of Some x \<Rightarrow> Some x | None \<Rightarrow> old)"

text \<open>The description of a section is sent until the device does not report progress, at most \<open>retry\<close> times.\<close>

fun query_section :: "wmt_answers \<Rightarrow> wmt_params \<Rightarrow> nat \<Rightarrow> wmt_status option \<Rightarrow> wmt_params list
    \<Rightarrow> patch_query \<times> wmt_status option \<times> wmt_params list" where
  "query_section ans p 0 status cs = (Q_download, status, cs)"
| "query_section ans p (Suc retry) status cs =
     (let (err, new) = ans (length cs) p; status = last_status status new; cs = cs @ [p] in
      if err < 0 then (Q_stop (Dl_ret err), status, cs)
      else case status of
          None \<Rightarrow> (Q_stop Dl_unset, status, cs)
        | Some Patch_undone \<Rightarrow> (Q_download, status, cs)
        | Some Patch_progress \<Rightarrow> query_section ans p retry status cs
        | Some Patch_done \<Rightarrow> (Q_next err, status, cs)
        | Some _ \<Rightarrow> (Q_stop (Dl_ret (-5)), status, cs))"

definition chunk_len :: "u32 \<Rightarrow> int" where
  "chunk_len dl_size = min 250 (sint dl_size)"

lemma chunk_len_shrinks: "dl_size \<noteq> 0 \<Longrightarrow> unat (dl_size - word_of_int (chunk_len dl_size)) < unat dl_size"
proof (cases "250 \<le> sint dl_size")
  case True
  then have "0 \<le> sint dl_size" by simp
  then have "uint dl_size = sint dl_size"
    using sint_lt [of dl_size] by (simp add: uint_sint take_bit_eq_mod)
  moreover assume "dl_size \<noteq> 0"
  ultimately have "(250::u32) \<le> dl_size" using True by (simp add: word_le_def)
  then have "unat (dl_size - 250) = unat dl_size - 250" by (simp add: unat_sub)
  moreover have "250 \<le> unat dl_size" using \<open>(250::u32) \<le> dl_size\<close> by (simp add: word_le_nat_alt)
  ultimately show ?thesis using True by (simp add: chunk_len_def)
next
  case False
  then show "dl_size \<noteq> 0 \<Longrightarrow> ?thesis" by (simp add: chunk_len_def min_def unat_gt_0)
qed

text \<open>
  One section: blocks of at most 250 bytes, of which the first has flag 1 and the last one flag 3. The
  length is an \<open>int\<close>, so a size above 2 GB gives one block with a negative length, passed on as a
  \<open>u16\<close>. \<open>None\<close> is a section that was sent.
\<close>

function chunk_loop :: "wmt_answers \<Rightarrow> u8 list \<Rightarrow> int \<Rightarrow> u32 \<Rightarrow> bool \<Rightarrow> int \<Rightarrow> wmt_params list
    \<Rightarrow> dl_out option \<times> int \<times> wmt_params list" where
  "chunk_loop ans img ptr dl_size first err cs =
     (if dl_size = 0 then (None, err, cs)
      else let dlen = chunk_len dl_size;
               flag = (if first then 1 else if dl_size - word_of_int dlen = 0 then 3 else 2)
           in case img_get img ptr (unat (word_of_int dlen :: u16)) of
                None \<Rightarrow> (Some Dl_oob, err, cs)
              | Some bytes \<Rightarrow>
                  let p = \<lparr>wp_op = WMT_PATCH_DWNLD, wp_flag = flag, wp_data = bytes\<rparr>;
                      (err, new) = ans (length cs) p;
                      cs = cs @ [p]
                  in if err < 0 then (Some (Dl_ret err), err, cs)
                     else chunk_loop ans img (ptr + dlen) (dl_size - word_of_int dlen) False err cs)"
  by pat_completeness auto
termination
  by (relation "measure (\<lambda>(ans, img, ptr, dl_size, first, err, cs). unat dl_size)") (simp_all add: chunk_len_shrinks)

declare chunk_loop.simps [simp del]

text \<open>
  The sections from number \<open>i\<close> on. The map of a section is 64 bytes; 52 of them are sent, but 53 are
  copied.
\<close>

fun section_loop :: "wmt_answers \<Rightarrow> u8 list \<Rightarrow> nat \<Rightarrow> nat \<Rightarrow> wmt_status option \<Rightarrow> int \<Rightarrow> wmt_params list
    \<Rightarrow> dl_out \<times> wmt_params list" where
  "section_loop ans img 0 i status err cs = (Dl_ret err, cs)"
| "section_loop ans img (Suc n) i status err cs =
     (case img_get img (int (96 + 64 * i)) 20 of
        None \<Rightarrow> (Dl_oob, cs)
      | Some m \<Rightarrow>
          let section_offset = le32 m 4; dl_size = le32 m 16 in
          if dl_size = 0 then section_loop ans img n (i + 1) status err cs
          else case img_get img (int (96 + 64 * i + 12)) 53 of
              None \<Rightarrow> (Dl_oob, cs)
            | Some spec \<Rightarrow>
                (case query_section ans \<lparr>wp_op = WMT_PATCH_DWNLD, wp_flag = 0, wp_data = 0 # take 52 spec\<rparr>
                    20 status cs of
                   (Q_stop out, status, cs) \<Rightarrow> (out, cs)
                 | (Q_next err, status, cs) \<Rightarrow> section_loop ans img n (i + 1) status err cs
                 | (Q_download, status, cs) \<Rightarrow>
                     (case chunk_loop ans img (uint section_offset) dl_size True 0 cs of
                        (Some out, err, cs) \<Rightarrow> (out, cs)
                      | (None, err, cs) \<Rightarrow> section_loop ans img n (i + 1) status err cs)))"

definition btmtk_setup_firmware_79xx :: "wmt_answers \<Rightarrow> int + u8 list \<Rightarrow> dl_out \<times> wmt_params list" where
  "btmtk_setup_firmware_79xx ans fw = (case fw of
     Inl err \<Rightarrow> (Dl_ret err, [])
   | Inr img \<Rightarrow>
       (case img_get img 44 4 of
          None \<Rightarrow> (Dl_oob, [])
        | Some n \<Rightarrow> section_loop ans img (unat (le32 n 0)) 0 None 0 []))"

section \<open>Firmware of the older chips\<close>

text \<open>\<open>all_len\<close> is the size of the image without its header of 30 bytes, \<open>img\<close> what is left of it.\<close>

function bt_patch_loop :: "wmt_answers \<Rightarrow> nat \<Rightarrow> u8 list \<Rightarrow> u8 \<Rightarrow> int \<Rightarrow> wmt_params list \<Rightarrow> int \<times> wmt_params list" where
  "bt_patch_loop ans all_len img flag err cs =
     (if img = [] then (err, cs)
      else let dlen = min 250 (length img);
               flag = (if length img - dlen = 0 then 3 else if length img < all_len then 2 else flag);
               p = \<lparr>wp_op = WMT_PATCH_DWNLD, wp_flag = flag, wp_data = take dlen img\<rparr>;
               (err, new) = ans (length cs) p;
               cs = cs @ [p]
           in if err < 0 then (err, cs) else bt_patch_loop ans all_len (drop dlen img) flag err cs)"
  by pat_completeness auto
termination by (relation "measure (\<lambda>(ans, all_len, img, flag, err, cs). length img)") (auto simp: min_def)

declare bt_patch_loop.simps [simp del]

definition btmtk_setup_firmware :: "wmt_answers \<Rightarrow> int + u8 list \<Rightarrow> int \<times> wmt_params list" where
  "btmtk_setup_firmware ans fw = (case fw of
     Inl err \<Rightarrow> (err, [])
   | Inr img \<Rightarrow>
       let p = \<lparr>wp_op = WMT_FUNC_CTRL, wp_flag = 3, wp_data = [1]\<rparr>; (err, new) = ans 0 p; cs = [p] in
       if err < 0 then (err, cs)
       else if length img < 30 then (-22, cs)
       else let (err, cs) = bt_patch_loop ans (length img - 30) (drop 30 img) 1 err cs in
         if err < 0 then (err, cs)
         else let p = \<lparr>wp_op = WMT_RST, wp_flag = 4, wp_data = []\<rparr>; (err, new) = ans (length cs) p
              in (err, cs @ [p]))"

section \<open>Resetting the subsystem\<close>

text \<open>
  Accesses to the device's registers: a read, whose value replaces the current one, and a write of a
  function of the current value. \<open>acc n\<close> is the result of the \<open>n\<close>-th access and the value read.
\<close>

datatype reg_op = Rd u32 | Wr u32 "u32 \<Rightarrow> u32"

type_synonym reg_answers = "nat \<Rightarrow> int \<times> u32"

fun run_regs :: "reg_answers \<Rightarrow> reg_op list \<Rightarrow> nat \<Rightarrow> u32 \<Rightarrow> (u32 \<times> u32) list \<Rightarrow> int \<times> nat \<times> (u32 \<times> u32) list" where
  "run_regs acc [] n val ws = (0, n, ws)"
| "run_regs acc (Rd r # ops) n val ws =
     (let (err, v) = acc n in if err < 0 then (err, n + 1, ws) else run_regs acc ops (n + 1) v ws)"
| "run_regs acc (Wr r f # ops) n val ws =
     (let (err, v) = acc n; ws = ws @ [(r, f val)] in
      if err < 0 then (err, n + 1, ws) else run_regs acc ops (n + 1) val ws)"

definition reset_ops :: "u32 \<Rightarrow> reg_op list" where
  "reset_ops dev_id =
     (if dev_id = 0x7922 then
        [Rd 0x70002610, Wr 0x70002610 (\<lambda>v. v OR 0x2020), Wr 0x74011890 (\<lambda>_. 0x00010001), Rd 0x70002610,
         Wr 0x70002610 (\<lambda>v. v OR BIT 0)]
      else if dev_id = 0x7925 then
        [Rd 0x70028610, Wr 0x70028610 (\<lambda>v. v OR BIT 5), Rd 0x70028610,
         Wr 0x70028610 (\<lambda>v. v AND 0xFFFF00FF OR BIT 13), Wr 0x74011890 (\<lambda>_. 0x00010001), Rd 0x70028610,
         Wr 0x70028610 (\<lambda>v. v OR BIT 0), Wr 0x74000024 (\<lambda>_. 0xFF), Rd 0x74000024, Wr 0x74000308 (\<lambda>_. 0xFF), Rd 0x74000308]
      else
        [Wr 0x74011890 (\<lambda>_. 0x00010001), Rd 0x740003A0, Wr 0x70002610 (\<lambda>_. 1), Wr 0x74000024 (\<lambda>_. 0xFF),
         Rd 0x74000024, Wr 0x74000308 (\<lambda>_. 0xFF), Rd 0x74000308, Wr 0x70002610 (\<lambda>_. 0), Rd 0x70002610])"

text \<open>
  \<open>reset_done\<close>: whether polling saw the reset completed in time; \<open>id_err\<close> and \<open>ident\<close> the result of reading
  the device's identity. The result also says which messages were printed.
\<close>

definition btmtk_usb_subsys_reset :: "reg_answers \<Rightarrow> bool \<Rightarrow> int \<Rightarrow> u32 \<Rightarrow> u32 \<Rightarrow> int \<times> (u32 \<times> u32) list \<times> bool" where
  "btmtk_usb_subsys_reset acc reset_done id_err ident dev_id =
     (let (err, n, ws) = run_regs acc (reset_ops dev_id) 0 0 [] in
      if err < 0 then (err, ws, False)
      else let (err, n, ws) = (if dev_id = 0x7922 then run_regs acc [Wr 0x74000024 (\<lambda>_. 0xFF)] n 0 ws else (0, n, ws)) in
        if err < 0 then (err, ws, \<not> reset_done)
        else (id_err, ws, \<not> reset_done \<or> id_err < 0 \<or> ident = 0))"

section \<open>The ISO interface\<close>

text \<open>
  The flags \<open>BTMTK_ISOPKT_OVER_INTR\<close>, \<open>BTMTK_ISOPKT_RUNNING\<close> and \<open>BTMTK_HW_RESET_ACTIVE\<close>, the claimed
  interface, the partly received packet, the requests on the anchor, and the packets delivered.
\<close>

record bt_iso =
  bi_over_intr :: bool
  bi_running :: bool
  bi_reset_active :: bool
  bi_intf :: bool
  bi_skb :: "bt_skb option"
  bi_anchored :: nat
  bi_delivered :: "u8 list list"

definition btmtk_recv_isopkt :: "rx_env \<Rightarrow> bt_iso \<Rightarrow> u8 list \<Rightarrow> unit res \<times> bt_iso" where
  "btmtk_recv_isopkt env st buf =
     (let (r, skb, ds) = rx_loop env Iso 0 (bi_skb st) buf
      in (r, st\<lparr>bi_skb := skb, bi_delivered := bi_delivered st @ ds\<rparr>))"

text \<open>
  A completed interrupt request: whether the device runs, is suspended, how the request ended (\<open>Some\<close>
  data, or \<open>None\<close> with an error), whether it was killed, and the result of submitting it again.
\<close>

definition btmtk_intr_complete :: "rx_env \<Rightarrow> bool \<Rightarrow> bool \<Rightarrow> u8 list option \<Rightarrow> bool \<Rightarrow> int \<Rightarrow> bt_iso \<Rightarrow> bt_iso" where
  "btmtk_intr_complete env running suspended data killed resubmit st =
     (let st = st\<lparr>bi_anchored := bi_anchored st - 1\<rparr> in
      if \<not> running \<or> suspended then st
      else case data of
          Some buf \<Rightarrow>
            let st = snd (btmtk_recv_isopkt env st buf)
            in if resubmit < 0 then st else st\<lparr>bi_anchored := bi_anchored st + 1\<rparr>
        | None \<Rightarrow> if killed \<or> resubmit < 0 then st else st\<lparr>bi_anchored := bi_anchored st + 1\<rparr>)"

text \<open>\<open>rx_ep\<close>: the interface has the endpoint; \<open>err\<close>: allocation or submission failed.\<close>

definition btmtk_submit_intr_urb :: "bool \<Rightarrow> int \<Rightarrow> bt_iso \<Rightarrow> int \<times> bt_iso" where
  "btmtk_submit_intr_urb rx_ep err st =
     (if \<not> rx_ep then (-19, st) else if err < 0 then (err, st)
      else (0, st\<lparr>bi_anchored := bi_anchored st + 1\<rparr>))"

definition btmtk_usb_isointf_init :: "bool \<Rightarrow> int \<Rightarrow> int \<Rightarrow> bt_iso \<Rightarrow> int \<times> bt_iso" where
  "btmtk_usb_isointf_init rx_ep submit cmd st =
     (let (err, st) = btmtk_submit_intr_urb rx_ep submit st in
      if err < 0 then (err, st\<lparr>bi_anchored := 0\<rparr>)
      else if cmd < 0 then (cmd, st) else (0, st))"

definition btmtk_usb_resume :: "bool \<Rightarrow> int \<Rightarrow> bt_iso \<Rightarrow> bt_iso" where
  "btmtk_usb_resume rx_ep submit st =
     (if bi_running st
      then let (err, st) = btmtk_submit_intr_urb rx_ep submit st in if err < 0 then st\<lparr>bi_running := False\<rparr> else st
      else st)"

definition btmtk_usb_suspend :: "bt_iso \<Rightarrow> bt_iso" where
  "btmtk_usb_suspend st = (if bi_running st then st\<lparr>bi_anchored := 0\<rparr> else st)"

text \<open>In btusb.c: claiming and releasing the interface, and the reset.\<close>

definition btusb_mtk_claim_iso_intf :: "bool \<Rightarrow> bt_iso \<Rightarrow> bt_iso" where
  "btusb_mtk_claim_iso_intf claimed st =
     (if \<not> bi_intf st then st
      else if \<not> claimed then st\<lparr>bi_intf := False\<rparr>
      else st\<lparr>bi_over_intr := True, bi_anchored := 0\<rparr>)"

definition btusb_mtk_release_iso_intf :: "bt_iso \<Rightarrow> bt_iso" where
  "btusb_mtk_release_iso_intf st =
     (let st = (if bi_over_intr st then st\<lparr>bi_anchored := 0, bi_running := False, bi_skb := None, bi_intf := False\<rparr> else st)
      in st\<lparr>bi_over_intr := False\<rparr>)"

definition btusb_mtk_setup :: "bool \<Rightarrow> bool \<Rightarrow> bt_iso \<Rightarrow> bt_iso" where
  "btusb_mtk_setup has_intf claimed st =
     (if bi_over_intr st then st else btusb_mtk_claim_iso_intf claimed (st\<lparr>bi_intf := has_intf\<rparr>))"

text \<open>\<open>gpio\<close>: the reset line is wired; \<open>reset_err\<close>: what \<open>btmtk_usb_subsys_reset\<close> returns.\<close>

definition btusb_mtk_reset :: "int \<Rightarrow> bool \<Rightarrow> int \<Rightarrow> bt_iso \<Rightarrow> int \<times> bt_iso" where
  "btusb_mtk_reset autopm gpio reset_err st =
     (if bi_reset_active st then (-16, st)
      else let st = st\<lparr>bi_reset_active := True\<rparr> in
        if autopm < 0 then (autopm, st)
        else let st = btusb_mtk_release_iso_intf st in
          if gpio then (0, st) else (reset_err, st\<lparr>bi_reset_active := False\<rparr>))"

text \<open>
  Sending an ISO packet: it is padded to 264 bytes. The result has the error or the padded packet, the
  live requests, and whether the packet was freed on the way.
\<close>

definition btmtk_isopkt_pad :: "bool \<Rightarrow> u8 list \<Rightarrow> int \<times> u8 list \<times> bool" where
  "btmtk_isopkt_pad pad_ok d =
     (if length d > 264 then (-22, d, False)
      else if \<not> pad_ok then (-12, d, True)
      else (0, d @ replicate (264 - length d) 0, False))"

definition alloc_mtk_intr_urb :: "bool \<Rightarrow> bool \<Rightarrow> bool \<Rightarrow> u8 list \<Rightarrow> (int + u8 list) \<times> nat \<times> bool" where
  "alloc_mtk_intr_urb tx_ep urb_ok pad_ok d =
     (if \<not> tx_ep then (Inl (-19), 0, False)
      else if \<not> urb_ok then (Inl (-12), 0, False)
      else let (err, d, freed) = btmtk_isopkt_pad pad_ok d in
        if err \<noteq> 0 then (Inl (-22), 1, freed) else (Inr d, 1, False))"

section \<open>Core dumps\<close>

text \<open>The routing of ACL packets by handle, and the dump that is collected from some of them.\<close>

datatype acl_route = Acl_diag | Acl_frame

datatype dump_state = Dump_idle | Dump_active

record bt_dump =
  bd_state :: dump_state
  bd_cnt :: u16
  bd_data :: "u8 list list"
  bd_complete :: bool

definition coredump_end :: "u8 list" where
  "coredump_end = map of_char ''coredump end''"

text \<open>\<open>init_ok\<close> and \<open>append_err\<close>: the results of the dump facility of the Bluetooth core.\<close>

definition btmtk_process_coredump :: "int \<Rightarrow> int \<Rightarrow> u8 list \<Rightarrow> bt_dump \<Rightarrow> int \<times> bt_dump" where
  "btmtk_process_coredump init_err append_err d st =
     (if bd_state st = Dump_idle \<and> init_err < 0 then (init_err, st)
      else let st = (if bd_state st = Dump_idle then st\<lparr>bd_cnt := 0\<rparr> else st);
               complete = (bd_cnt st \<ge> 255 \<and> length d > 13 \<and> take 12 (drop (length d - 13) d) = coredump_end)
           in if append_err < 0 then (append_err, st)
              else (append_err, st\<lparr>bd_data := bd_data st @ [d], bd_cnt := bd_cnt st + 1,
                 bd_complete := (bd_complete st \<or> complete)\<rparr>))"

definition btmtk_usb_recv_acl :: "int \<Rightarrow> int \<Rightarrow> bool \<Rightarrow> u8 list \<Rightarrow> bt_dump \<Rightarrow> acl_route \<times> bt_dump" where
  "btmtk_usb_recv_acl init_err append_err clone d st =
     (let handle = le16 d 0 in
      if handle = 0xfc6f
      then (Acl_diag, if clone then snd (btmtk_process_coredump init_err append_err d st) else st)
      else if handle = 0x05ff \<or> handle = 0x05fe then (Acl_diag, st)
      else (Acl_frame, st))"

section \<open>Set-up and shut-down\<close>

text \<open>The name of the firmware file, as \<open>snprintf\<close> writes it into a buffer.\<close>

definition hex_digit :: "nat \<Rightarrow> char" where
  "hex_digit n = ''0123456789abcdef'' ! n"

fun hex_str :: "nat \<Rightarrow> string" where
  "hex_str n = (if n < 16 then [hex_digit n] else hex_str (n div 16) @ [hex_digit (n mod 16)])"

declare hex_str.simps [simp del]

definition hex4 :: "nat \<Rightarrow> string" where
  "hex4 n = replicate (4 - length (hex_str n)) (CHR ''0'') @ hex_str n"

definition fw_name :: "u32 \<Rightarrow> u32 \<Rightarrow> u32 \<Rightarrow> string" where
  "fw_name dev_id fw_ver fw_flavor =
     (let mt = hex4 (unat (dev_id AND 0xffff)); ver = hex_str (unat ((fw_ver AND 0xff) + 1)) in
      if dev_id = 0x7925 then ''mediatek/mt'' @ mt @ ''/BT_RAM_CODE_MT'' @ mt @ ''_1_'' @ ver @ ''_hdr.bin''
      else if dev_id = 0x7961 \<and> fw_flavor \<noteq> 0 then ''mediatek/BT_RAM_CODE_MT'' @ mt @ ''_1a_'' @ ver @ ''_hdr.bin''
      else ''mediatek/BT_RAM_CODE_MT'' @ mt @ ''_1_'' @ ver @ ''_hdr.bin'')"

definition btmtk_fw_get_filename :: "nat \<Rightarrow> u32 \<Rightarrow> u32 \<Rightarrow> u32 \<Rightarrow> string" where
  "btmtk_fw_get_filename sz dev_id fw_ver fw_flavor = take (sz - 1) (fw_name dev_id fw_ver fw_flavor)"

text \<open>
  What set-up meets: the identity registers, the firmware files, the answers to the WMT commands, the
  write of the endpoint register, how often the state of the function can be polled in five seconds,
  the command for low power, and the ISO interface.
\<close>

record setup_env =
  se_id :: "u32 \<Rightarrow> int \<times> u32"
  se_fw :: "string \<Rightarrow> int + u8 list"
  se_ans :: wmt_answers
  se_ep_opt :: int
  se_polls :: nat
  se_low_power :: int
  se_rx_ep :: bool
  se_iso_submit :: int
  se_iso_cmd :: int

definition func_ctrl :: "u8 \<Rightarrow> u8 \<Rightarrow> wmt_params" where
  "func_ctrl flag param = \<lparr>wp_op = WMT_FUNC_CTRL, wp_flag = flag, wp_data = [param]\<rparr>"

text \<open>Set-up ends with a value, the commands sent, and the state of the ISO interface.\<close>

type_synonym setup_result = "dl_out \<times> wmt_params list \<times> bt_iso"

definition setup_79xx :: "setup_env \<Rightarrow> u32 \<Rightarrow> u32 \<Rightarrow> u32 \<Rightarrow> bt_iso \<Rightarrow> setup_result" where
  "setup_79xx env dev_id fw_version fw_flavor st =
     (let (out, cs) = btmtk_setup_firmware_79xx (se_ans env) (se_fw env (btmtk_fw_get_filename 64 dev_id fw_version fw_flavor))
      in case out of
          Dl_ret err \<Rightarrow>
            if err < 0 then (Dl_ret err, cs, st)
            else if se_ep_opt env < 0 then (Dl_ret (se_ep_opt env), cs, st)
            else let p = func_ctrl 0 1; (err, new) = se_ans env (length cs) p; cs = cs @ [p] in
              if err < 0 then (Dl_ret err, cs, st)
              else if bi_over_intr st
              then let (err, st) = btmtk_usb_isointf_init (se_rx_ep env) (se_iso_submit env) (se_iso_cmd env) st
                   in (Dl_ret 0, cs, if err = 0 then st\<lparr>bi_running := True\<rparr> else st)
              else (Dl_ret 0, cs, st)
        | _ \<Rightarrow> (out, cs, st))"

text \<open>\<open>btmtk_usb_func_query\<close> until the function is not in progress.\<close>

datatype func_poll = Func_status wmt_status | Func_stop dl_out

fun poll_func :: "wmt_answers \<Rightarrow> nat \<Rightarrow> wmt_params list \<Rightarrow> func_poll \<times> wmt_params list" where
  "poll_func ans 0 cs = (Func_stop (Dl_ret (-110)), cs)"
| "poll_func ans (Suc n) cs =
     (let p = func_ctrl 4 0; (err, status) = ans (length cs) p; cs = cs @ [p] in
      if err < 0 then (Func_stop (Dl_ret err), cs)
      else case status of
          None \<Rightarrow> (Func_stop Dl_unset, cs)
        | Some On_progress \<Rightarrow> poll_func ans n cs
        | Some x \<Rightarrow> (Func_status x, cs))"

definition setup_enable :: "setup_env \<Rightarrow> bt_iso \<Rightarrow> wmt_params list \<Rightarrow> setup_result" where
  "setup_enable env st cs =
     (case poll_func (se_ans env) (se_polls env) cs of
        (Func_stop out, cs) \<Rightarrow> (out, cs, st)
      | (Func_status On_done, cs) \<Rightarrow> (Dl_ret (min 0 (se_low_power env)), cs, st)
      | (Func_status _, cs) \<Rightarrow>
          let p = func_ctrl 0 1; (err, new) = se_ans env (length cs) p; cs = cs @ [p] in
          if err < 0 then (Dl_ret err, cs, st) else (Dl_ret (min 0 (se_low_power env)), cs, st))"

definition setup_older :: "setup_env \<Rightarrow> string \<Rightarrow> bt_iso \<Rightarrow> setup_result" where
  "setup_older env fwname st =
     (let p = \<lparr>wp_op = WMT_SEMAPHORE, wp_flag = 1, wp_data = []\<rparr>; (err, status) = se_ans env 0 p; cs = [p] in
      if err < 0 then (Dl_ret err, cs, st)
      else case status of
          None \<Rightarrow> (Dl_unset, cs, st)
        | Some Patch_done \<Rightarrow> setup_enable env st cs
        | Some _ \<Rightarrow>
            let (err, cs') = btmtk_setup_firmware (\<lambda>n. se_ans env (n + 1)) (se_fw env fwname) in
            if err < 0 then (Dl_ret err, cs @ cs', st) else setup_enable env st (cs @ cs'))"

definition btmtk_usb_setup :: "setup_env \<Rightarrow> bt_iso \<Rightarrow> setup_result" where
  "btmtk_usb_setup env st =
     (let (err, dev_id) = se_id env 0x80000008 in
      if err < 0 then (Dl_ret err, [], st)
      else let (err, dev_id, fw_version, fw_flavor) =
          (if dev_id \<noteq> 0x7663
           then let (err, dev_id) = se_id env 0x70010200; (err2, fw_version) = se_id env 0x80021004;
                    (err3, fw_flavor) = se_id env 0x70010020
                in (if err < 0 then err else if err2 < 0 then err2 else if err3 < 0 then err3 else 0,
                    dev_id, fw_version, drop_bit 7 (fw_flavor AND 0x80))
           else (0, dev_id, 0, 0))
      in if err < 0 then (Dl_ret err, [], st)
         else if dev_id = 0x7663 then setup_older env ''mediatek/mt7663pr2h.bin'' st
         else if dev_id = 0x7668 then setup_older env ''mediatek/mt7668pr2h.bin'' st
         else if dev_id \<in> {0x7922, 0x7925, 0x7961, 0x7902} then setup_79xx env dev_id fw_version fw_flavor st
         else (Dl_ret (-19), [], st))"

definition btmtk_usb_shutdown :: "int \<Rightarrow> wmt_env \<Rightarrow> bt_wmt \<Rightarrow> int \<times> bt_wmt" where
  "btmtk_usb_shutdown autopm env st =
     (if autopm < 0 then (autopm, st)
      else let (err, status, st) = btmtk_usb_hci_wmt_sync env (func_ctrl 0 0) (st\<lparr>bw_pm := bw_pm st + 1\<rparr>);
               st = st\<lparr>bw_pm := bw_pm st - 1\<rparr>
           in (if err < 0 then err else 0, st))"

end
