(* ===== verification/BtMtkProps.thy ===== *)
theory BtMtkProps
  imports BtMtk
begin

text \<open>
  Properties of the MediaTek part of the Bluetooth driver: an exchange leaves nothing behind and only
  reports an event for its own command, the sections of a firmware image are sent whole and in order, an
  error ends the download, ISO packets do not depend on transfer boundaries; and what is not guaranteed.
\<close>

section \<open>The exchange of a command\<close>

lemma wmt_recv_data_keeps:
  "bw_cmds (wmt_recv_data d a c r st) = bw_cmds st" "bw_pm (wmt_recv_data d a c r st) = bw_pm st"
  "bw_sent (wmt_recv_data d a c r st) = bw_sent st"
  by (simp_all add: wmt_recv_data_def free_setup_def Let_def)

lemma wmt_recv_keeps:
  "bw_cmds (btmtk_usb_wmt_recv es st) = bw_cmds st" "bw_pm (btmtk_usb_wmt_recv es st) = bw_pm st"
  "bw_sent (btmtk_usb_wmt_recv es st) = bw_sent st"
  by (induction es st rule: btmtk_usb_wmt_recv.induct) (simp_all add: wmt_recv_data_keeps free_setup_def)

lemma wmt_recv_event:
  assumes "bw_wait st" "bw_evt st = None"
  shows "if bw_wait (btmtk_usb_wmt_recv es st) then bw_evt (btmtk_usb_wmt_recv es st) = None
    else \<exists>d. bw_evt (btmtk_usb_wmt_recv es st) = Some d \<and> bw_core (btmtk_usb_wmt_recv es st) = bw_core st @ [d]"
  using assms
  by (induction es st rule: btmtk_usb_wmt_recv.induct) (auto simp: wmt_recv_data_def free_setup_def Let_def)

lemma submit_keeps:
  "btmtk_usb_submit_wmt_recv_urb env st = (err, t) \<Longrightarrow> bw_wait t = bw_wait st \<and> bw_evt t = bw_evt st \<and>
    bw_pm t = bw_pm st \<and> bw_cmds t = bw_cmds st \<and> bw_sent t = bw_sent st \<and> bw_core t = bw_core st"
  by (auto simp: btmtk_usb_submit_wmt_recv_urb_def split: if_splits)


definition demo_wmt :: bt_wmt where
  "demo_wmt = \<lparr>bw_wait = False, bw_evt = None, bw_pm = 0, bw_cmds = 0, bw_setups = 0, bw_sent = [], bw_core = []\<rparr>"

text \<open>An answer to a function control that says the function is on, after one empty completion.\<close>

definition demo_env :: wmt_env where
  "demo_env = \<lparr>we_cmd_alloc = True, we_autopm = 0, we_send = 0, we_urb_alloc = True, we_setup_alloc = True,
     we_buf_alloc = True, we_submit = 0,
     we_urb = [Urb_empty 0, Urb_data [0xe4, 7, 2, 6, 3, 0, 0, 4, 4] True True True]\<rparr>"


section \<open>The sections of an image\<close>

text \<open>What an image says of its sections.\<close>

definition sec_count :: "u8 list \<Rightarrow> nat" where "sec_count img = unat (le32 img 44)"
definition sec_offset :: "u8 list \<Rightarrow> nat \<Rightarrow> nat" where "sec_offset img i = unat (le32 img (96 + 64 * i + 4))"
definition sec_size :: "u8 list \<Rightarrow> nat \<Rightarrow> nat" where "sec_size img i = unat (le32 img (96 + 64 * i + 16))"
definition sec_spec :: "u8 list \<Rightarrow> nat \<Rightarrow> u8 list" where "sec_spec img i = take 52 (drop (96 + 64 * i + 12) img)"
definition sec_data :: "u8 list \<Rightarrow> nat \<Rightarrow> u8 list" where
  "sec_data img i = take (sec_size img i) (drop (sec_offset img i) img)"

definition bt_image_ok :: "u8 list \<Rightarrow> bool" where
  "bt_image_ok img \<longleftrightarrow> 97 + 64 * sec_count img \<le> length img \<and>
     list_all (\<lambda>i. sec_offset img i + sec_size img i \<le> length img \<and> sec_size img i < 2 ^ 31) [0..<sec_count img]"

text \<open>The commands a section should take: blocks of 250 bytes, marked by their place.\<close>

function block_cmds :: "bool \<Rightarrow> u8 list \<Rightarrow> wmt_params list" where
  "block_cmds first d =
     (if d = [] then []
      else \<lparr>wp_op = WMT_PATCH_DWNLD, wp_flag = (if first then 1 else if length d \<le> 250 then 3 else 2),
             wp_data = take 250 d\<rparr> # block_cmds False (drop 250 d))"
  by pat_completeness auto
termination by (relation "measure (\<lambda>(first, d). length d)") auto

declare block_cmds.simps [simp del]

definition section_cmds :: "u8 list \<Rightarrow> nat \<Rightarrow> wmt_params list" where
  "section_cmds img i =
     (if sec_size img i = 0 then []
      else \<lparr>wp_op = WMT_PATCH_DWNLD, wp_flag = 0, wp_data = 0 # sec_spec img i\<rparr> # block_cmds True (sec_data img i))"

lemma block_cmds_data: "concat (map wp_data (block_cmds first d)) = d"
  by (induction first d rule: block_cmds.induct) (subst block_cmds.simps, simp)

lemma block_cmds_fit: "list_all (\<lambda>p. length (wp_data p) \<le> 250) (block_cmds first d)"
  by (induction first d rule: block_cmds.induct) (subst block_cmds.simps, simp)

text \<open>A device that takes every command and has none of the sections yet.\<close>

definition accepting :: "wmt_answers \<Rightarrow> bool" where
  "accepting ans \<longleftrightarrow> (\<forall>n p. ans n p = (0, Some Patch_undone))"

text \<open>One block of a section below 2 GB.\<close>

lemma chunk_arith:
  assumes "unat (dl_size :: u32) < 2 ^ 31"
  shows "chunk_len dl_size = int (min 250 (unat dl_size))"
    "unat (word_of_int (chunk_len dl_size) :: u16) = min 250 (unat dl_size)"
    "unat (dl_size - word_of_int (chunk_len dl_size)) = unat dl_size - min 250 (unat dl_size)"
proof -
  show len: "chunk_len dl_size = int (min 250 (unat dl_size))"
    by (simp add: chunk_len_def sint_small [OF assms] of_nat_min flip: uint_nat)
  show "unat (word_of_int (chunk_len dl_size) :: u16) = min 250 (unat dl_size)"
    by (simp add: len unat_of_nat flip: of_nat_min)
  have "unat (of_nat (min 250 (unat dl_size)) :: u32) = min 250 (unat dl_size)"
    by (simp add: unat_of_nat min_def)
  then show "unat (dl_size - word_of_int (chunk_len dl_size)) = unat dl_size - min 250 (unat dl_size)"
    by (simp add: len unat_sub word_le_nat_alt)
qed

lemma chunk_loop_step:
  assumes "accepting ans" "0 \<le> ptr" "nat ptr + unat dl_size \<le> length img" "unat dl_size < 2 ^ 31" "dl_size \<noteq> 0"
  shows "chunk_loop ans img ptr dl_size first err cs =
    chunk_loop ans img (ptr + chunk_len dl_size) (dl_size - word_of_int (chunk_len dl_size)) False 0
      (cs @ [\<lparr>wp_op = WMT_PATCH_DWNLD, wp_flag = (if first then 1 else if unat dl_size \<le> 250 then 3 else 2),
              wp_data = take (min 250 (unat dl_size)) (drop (nat ptr) img)\<rparr>])"
proof -
  note ar = chunk_arith [OF assms(4)]
  have "img_get img ptr (unat (word_of_int (chunk_len dl_size) :: u16)) =
      Some (take (min 250 (unat dl_size)) (drop (nat ptr) img))"
    unfolding ar(2) using assms(2,3) by (simp add: img_get_def)
  moreover have "dl_size - word_of_int (chunk_len dl_size) = 0 \<longleftrightarrow> unat dl_size \<le> 250"
    using ar(3) unat_eq_0 [of "dl_size - word_of_int (chunk_len dl_size)"] by linarith
  ultimately show ?thesis
    using assms(1,5) by (subst chunk_loop.simps) (simp add: Let_def accepting_def)
qed

lemma chunk_loop_blocks:
  assumes "accepting ans" "0 \<le> ptr" "nat ptr + unat dl_size \<le> length img" "unat dl_size < 2 ^ 31"
  shows "chunk_loop ans img ptr dl_size first err cs =
    (None, if dl_size = 0 then err else 0, cs @ block_cmds first (take (unat dl_size) (drop (nat ptr) img)))"
  using assms(2-4)
proof (induction "unat dl_size" arbitrary: ptr dl_size first err cs rule: less_induct)
  case less
  show ?case
  proof (cases "dl_size = 0")
    case True
    then show ?thesis by (subst chunk_loop.simps) (simp add: block_cmds.simps)
  next
    case False
    let ?n = "unat dl_size" and ?d = "drop (nat ptr) img" and ?l = "dl_size - word_of_int (chunk_len dl_size)"
    note ar = chunk_arith [OF less.prems(3)]
    have n: "0 < ?n" using False by (simp add: unat_gt_0)
    have nxt: "nat (ptr + chunk_len dl_size) = nat ptr + min 250 ?n"
      using less.prems(1) by (simp add: ar(1) nat_add_distrib)
    have "chunk_loop ans img (ptr + chunk_len dl_size) ?l False 0 cs' =
        (None, 0, cs' @ block_cmds False (take (?n - min 250 ?n) (drop (min 250 ?n) ?d)))" for cs'
      using less.hyps [of ?l "ptr + chunk_len dl_size" False 0 cs'] less.prems n
      by (simp add: ar(3) nxt drop_drop add.commute) (simp add: ar(1))
    moreover have "block_cmds first (take ?n ?d) =
        \<lparr>wp_op = WMT_PATCH_DWNLD, wp_flag = (if first then 1 else if ?n \<le> 250 then 3 else 2),
           wp_data = take (min 250 ?n) ?d\<rparr> # block_cmds False (take (?n - min 250 ?n) (drop (min 250 ?n) ?d))"
      using n less.prems(2) by (subst block_cmds.simps) (auto simp: drop_take min_def)
    ultimately show ?thesis
      using False chunk_loop_step [OF assms(1) less.prems False, of first err cs] by simp
  qed
qed

text \<open>One section of a good image, and all of them.\<close>

lemma query_accepted:
  "accepting ans \<Longrightarrow> query_section ans p 20 status cs = (Q_download, Some Patch_undone, cs @ [p])"
  by (simp add: numeral_eq_Suc accepting_def last_status_def)

lemma section_loop_step:
  assumes "accepting ans" "97 + 64 * (i + 1) \<le> length img + 32" "96 + 64 * i + 65 \<le> length img"
    and "sec_offset img i + sec_size img i \<le> length img" "sec_size img i < 2 ^ 31"
  shows "\<exists>status'. section_loop ans img (Suc n) i status 0 cs =
    section_loop ans img n (i + 1) status' 0 (cs @ section_cmds img i)"
proof -
  let ?m = "take 20 (drop (96 + 64 * i) img)" and ?p = "\<lparr>wp_op = WMT_PATCH_DWNLD, wp_flag = 0, wp_data = 0 # sec_spec img i\<rparr>"
  have m: "img_get img (int (96 + 64 * i)) 20 = Some ?m" using assms(3) unfolding img_get_def nat_int by simp
  have f: "unat (le32 ?m 4) = sec_offset img i" "unat (le32 ?m 16) = sec_size img i"
    using assms(3) by (simp_all add: le32_sub sec_offset_def sec_size_def)
  have spec: "img_get img (int (96 + 64 * i + 12)) 53 = Some (take 53 (drop (96 + 64 * i + 12) img))"
    using assms(3) unfolding img_get_def nat_int by simp
  have p: "0 # take 52 (take 53 (drop (96 + 64 * i + 12) img)) = 0 # sec_spec img i"
    by (simp add: sec_spec_def)
  show ?thesis
  proof (cases "sec_size img i = 0")
    case True
    then have "le32 ?m 16 = 0" using f(2) by (simp add: unat_eq_0)
    then show ?thesis
      using True by (intro exI [of _ status]) (simp only: section_loop.simps m option.case Let_def section_cmds_def simp_thms if_True append_Nil2)
  next
    case False
    then have z: "le32 ?m 16 \<noteq> 0" using f(2) by (auto simp: unat_eq_0)
    have "chunk_loop ans img (uint (le32 ?m 4)) (le32 ?m 16) True 0 (cs @ [?p]) =
        (None, 0, (cs @ [?p]) @ block_cmds True (sec_data img i))"
      using chunk_loop_blocks [OF assms(1), of "uint (le32 ?m 4)" "le32 ?m 16" img True 0 "cs @ [?p]"] assms(4,5) f z
      by (simp add: sec_data_def flip: unat_eq_nat_uint)
    then show ?thesis
      using False z query_accepted [OF assms(1), of ?p status cs]
      by (intro exI [of _ "Some Patch_undone"])
        (simp only: section_loop.simps m spec p option.case Let_def section_cmds_def if_False prod.case patch_query.case
          append_assoc append_Cons append_Nil)
  qed
qed

lemma section_loop_all:
  assumes "accepting ans" "97 + 64 * (i + n) \<le> length img"
    and "\<forall>j < i + n. sec_offset img j + sec_size img j \<le> length img \<and> sec_size img j < 2 ^ 31"
  shows "section_loop ans img n i status 0 cs = (Dl_ret 0, cs @ concat (map (section_cmds img) [i..<i + n]))"
  using assms(2,3)
proof (induction n arbitrary: i status cs)
  case 0
  then show ?case by simp
next
  case (Suc n)
  obtain status' where "section_loop ans img (Suc n) i status 0 cs =
      section_loop ans img n (i + 1) status' 0 (cs @ section_cmds img i)"
    using section_loop_step [OF assms(1), of i img n status cs] Suc.prems by auto
  moreover have "[i..<i + Suc n] = i # [i + 1..<i + 1 + n]" by (simp add: upt_conv_Cons)
  ultimately show ?case using Suc.IH [of "i + 1" status' "cs @ section_cmds img i"] Suc.prems by simp
qed

text \<open>
  C39: The firmware is sent whole. For an image whose sections lie inside it, and a device that takes
  every command and has none of the sections yet, the download succeeds and sends, section by section in
  the order of the image, the description of the section and then its bytes, each exactly once, in blocks
  marked by their place; every command fits into an exchange.
\<close>

theorem bt_sections_sent:
  assumes "accepting ans" "bt_image_ok img" "49 \<le> length img"
  shows "btmtk_setup_firmware_79xx ans (Inr img) = (Dl_ret 0, concat (map (section_cmds img) [0..<sec_count img]))
    \<and> list_all (\<lambda>i. 0 < sec_size img i \<longrightarrow> concat (map wp_data (tl (section_cmds img i))) = sec_data img i) [0..<sec_count img]
    \<and> list_all (\<lambda>p. 5 + length (wp_data p) \<le> 255) (concat (map (section_cmds img) [0..<sec_count img]))"
proof -
  have n: "img_get img 44 4 = Some (take 4 (drop 44 img))" "unat (le32 (take 4 (drop 44 img)) 0) = sec_count img"
    using assms(3) by (simp_all add: img_get_def sec_count_def le32_sub)
  have ok: "97 + 64 * sec_count img \<le> length img"
    "\<forall>j < sec_count img. sec_offset img j + sec_size img j \<le> length img \<and> sec_size img j < 2 ^ 31"
    using assms(2) by (auto simp: bt_image_ok_def list_all_iff)
  have "section_loop ans img (sec_count img) 0 None 0 [] = (Dl_ret 0, concat (map (section_cmds img) [0..<sec_count img]))"
    using section_loop_all [OF assms(1), of 0 "sec_count img" img None "[]"] ok by simp
  moreover have "list_all (\<lambda>p. 5 + length (wp_data p) \<le> 255) (section_cmds img i)" for i
    using block_cmds_fit [of True "sec_data img i"]
    by (auto simp: section_cmds_def sec_spec_def list_all_iff)
  then have "list_all (\<lambda>p. 5 + length (wp_data p) \<le> 255) (concat (map (section_cmds img) [0..<sec_count img]))"
    by (simp add: list_all_iff)
  moreover have "concat (map wp_data (tl (section_cmds img i))) = sec_data img i" if "0 < sec_size img i" for i
    using that by (simp add: section_cmds_def block_cmds_data)
  then have "list_all (\<lambda>i. 0 < sec_size img i \<longrightarrow> concat (map wp_data (tl (section_cmds img i))) = sec_data img i)
      [0..<sec_count img]"
    by (simp add: list_all_iff)
  ultimately show ?thesis
    by (simp add: btmtk_setup_firmware_79xx_def n)
qed

text \<open>An image with one section of three bytes.\<close>

definition demo_image :: "u8 list" where
  "demo_image = replicate 44 0 @ put_le32 1 @ replicate 48 0 @
     (put_le32 0 @ put_le32 161 @ put_le32 0 @ put_le32 0x900000 @ put_le32 3 @ replicate 44 0) @ [0, 7, 8, 9]"

lemma demo_image_fields:
  "length demo_image = 164" "sec_count demo_image = 1" "sec_offset demo_image 0 = 161" "sec_size demo_image 0 = 3"
  by code_simp+

theorem bt_sections_sent_witness:
  "fst (btmtk_setup_firmware_79xx (\<lambda>_ _. (0, Some Patch_undone)) (Inr demo_image)) = Dl_ret 0 \<and>
   concat (map wp_data (tl (section_cmds demo_image 0))) = [7, 8, 9]"
proof -
  have "bt_image_ok demo_image" by (simp add: bt_image_ok_def demo_image_fields)
  moreover have "sec_data demo_image 0 = [7, 8, 9]" by code_simp
  ultimately show ?thesis
    using bt_sections_sent [of "\<lambda>_ _. (0, Some Patch_undone)" demo_image]
    by (simp add: accepting_def demo_image_fields)
qed

section \<open>Errors\<close>

text \<open>
  Commands up to an error: all succeeded, or all but the last, whose error is the result. A result that
  is not an error of a command is no error or that of an unexpected status.
\<close>

definition all_taken :: "wmt_answers \<Rightarrow> wmt_params list \<Rightarrow> bool" where
  "all_taken ans cs \<longleftrightarrow> (\<forall>k < length cs. 0 \<le> fst (ans k (cs ! k)))"

definition dl_ended :: "wmt_answers \<Rightarrow> dl_out \<Rightarrow> wmt_params list \<Rightarrow> bool" where
  "dl_ended ans out cs \<longleftrightarrow>
     (all_taken ans cs \<and> (\<forall>e. out = Dl_ret e \<longrightarrow> 0 \<le> e \<or> e = -5)) \<or>
     (\<exists>ds p. cs = ds @ [p] \<and> all_taken ans ds \<and> fst (ans (length ds) p) < 0 \<and>
        out = Dl_ret (fst (ans (length ds) p)))"

lemma all_taken_Nil [simp]: "all_taken ans []"
  by (simp add: all_taken_def)

lemma all_taken_snoc: "all_taken ans (cs @ [p]) \<longleftrightarrow> all_taken ans cs \<and> 0 \<le> fst (ans (length cs) p)"
  by (auto simp: all_taken_def nth_append less_Suc_eq)

lemma query_ended:
  assumes "all_taken ans cs" "query_section ans p n status cs = (q, status', cs')"
  shows "case q of Q_download \<Rightarrow> all_taken ans cs' | Q_next err \<Rightarrow> all_taken ans cs' \<and> 0 \<le> err | Q_stop out \<Rightarrow> dl_ended ans out cs'"
  using assms
proof (induction n arbitrary: status cs)
  case 0
  then show ?case by auto
next
  case (Suc n)
  obtain err new where a: "ans (length cs) p = (err, new)" by fastforce
  show ?case
  proof (cases "err < 0")
    case True
    then have "dl_ended ans (Dl_ret err) (cs @ [p])"
      using Suc.prems(1) a unfolding dl_ended_def by (metis fst_conv)
    then show ?thesis using Suc.prems(2) a True by auto
  next
    case False
    then have ok: "all_taken ans (cs @ [p])" using Suc.prems(1) a by (simp add: all_taken_snoc)
    then have bad: "dl_ended ans (Dl_ret (-5)) (cs @ [p])" "dl_ended ans Dl_unset (cs @ [p])"
      by (simp_all add: dl_ended_def)
    show ?thesis
      using Suc.prems(2) Suc.IH [OF ok, of "last_status status new"] a False ok bad
      by (auto simp: Let_def split: option.splits wmt_status.splits)
  qed
qed

lemma chunk_ended:
  assumes "all_taken ans cs" "0 \<le> err" "chunk_loop ans img ptr dl_size first err cs = (out, err', cs')"
  shows "case out of None \<Rightarrow> all_taken ans cs' \<and> 0 \<le> err' | Some out \<Rightarrow> dl_ended ans out cs'"
  using assms
proof (induction "unat dl_size" arbitrary: ptr dl_size first err cs rule: less_induct)
  case less
  show ?case
  proof (cases "dl_size = 0")
    case True
    then show ?thesis using less.prems by (subst (asm) chunk_loop.simps) auto
  next
    case False
    let ?c = "chunk_len dl_size"
    show ?thesis
    proof (cases "img_get img ptr (unat (word_of_int ?c :: u16))")
      case None
      then show ?thesis using less.prems False by (subst (asm) chunk_loop.simps) (auto simp: Let_def dl_ended_def)
    next
      case (Some bytes)
      define p where "p = \<lparr>wp_op = WMT_PATCH_DWNLD,
        wp_flag = (if first then 1 else if dl_size - word_of_int ?c = 0 then 3 else 2), wp_data = bytes\<rparr>"
      obtain e new where a: "ans (length cs) p = (e, new)" by fastforce
      have run: "chunk_loop ans img ptr dl_size first err cs = (if e < 0 then (Some (Dl_ret e), e, cs @ [p])
          else chunk_loop ans img (ptr + ?c) (dl_size - word_of_int ?c) False e (cs @ [p]))"
        using False Some a by (subst chunk_loop.simps) (simp add: Let_def p_def)
      show ?thesis
      proof (cases "e < 0")
        case True
        then have "dl_ended ans (Dl_ret e) (cs @ [p])"
          using less.prems(1) a unfolding dl_ended_def by (metis fst_conv)
        then show ?thesis using less.prems(3) run True by auto
      next
        case False
        then have "all_taken ans (cs @ [p])" using less.prems(1) a by (simp add: all_taken_snoc)
        then show ?thesis
          using less.hyps [OF chunk_len_shrinks [OF \<open>dl_size \<noteq> 0\<close>], of "cs @ [p]" e "ptr + ?c" False] less.prems(3) run False
          by simp
      qed
    qed
  qed
qed

lemma section_loop_ended:
  assumes "all_taken ans cs" "0 \<le> err" "section_loop ans img n i status err cs = (out, cs')"
  shows "dl_ended ans out cs'"
  using assms
proof (induction n arbitrary: i status err cs)
  case 0
  then show ?case by (auto simp: dl_ended_def)
next
  case (Suc n)
  let ?i = "96 + 64 * i"
  have oob: "dl_ended ans Dl_oob cs" using Suc.prems(1) by (simp add: dl_ended_def)
  show ?case
  proof (cases "img_get img (int ?i) 20")
    case None
    then show ?thesis using Suc.prems(3) oob by simp
  next
    case (Some m)
    note m = this
    show ?thesis
    proof (cases "le32 m 16 = 0")
      case True
      then show ?thesis using Suc.prems Suc.IH m by (simp add: Let_def)
    next
      case False
      show ?thesis
      proof (cases "img_get img (int (?i + 12)) 53")
        case None
        then show ?thesis using Suc.prems(3) oob m False by (simp add: Let_def)
      next
        case (Some spec)
        let ?p = "\<lparr>wp_op = WMT_PATCH_DWNLD, wp_flag = 0, wp_data = 0 # take 52 spec\<rparr>"
        obtain q status2 cs2 where q: "query_section ans ?p 20 status cs = (q, status2, cs2)" by (metis prod_cases3)
        obtain c err3 cs3 where c: "chunk_loop ans img (uint (le32 m 4)) (le32 m 16) True 0 cs2 = (c, err3, cs3)"
          by (metis prod_cases3)
        note qe = query_ended [OF Suc.prems(1) q]
        have run: "section_loop ans img (Suc n) i status err cs = (case q of
            Q_stop out \<Rightarrow> (out, cs2) | Q_next err \<Rightarrow> section_loop ans img n (i + 1) status2 err cs2
          | Q_download \<Rightarrow> (case c of Some out \<Rightarrow> (out, cs3) | None \<Rightarrow> section_loop ans img n (i + 1) status2 err3 cs3))"
          using m False Some q c by (simp add: Let_def split: patch_query.split option.split)
        show ?thesis
        proof (cases q)
          case Q_download
          then have "case c of None \<Rightarrow> all_taken ans cs3 \<and> 0 \<le> err3 | Some out \<Rightarrow> dl_ended ans out cs3"
            using qe chunk_ended [OF _ order_refl c] by simp
          then show ?thesis using Suc.prems(3) Suc.IH run Q_download
            by (cases c) (auto simp del: section_loop.simps)
        next
          case (Q_next e)
          then have "section_loop ans img n (i + 1) status2 e cs2 = (out, cs')"
            using Suc.prems(3) run by (simp del: section_loop.simps)
          then show ?thesis using Suc.IH [of cs2 e] qe Q_next by (simp del: section_loop.simps)
        next
          case (Q_stop x)
          then show ?thesis using Suc.prems(3) run qe by (simp del: section_loop.simps)
        qed
      qed
    qed
  qed
qed

text \<open>
  C40: The first error ends the download. Whatever the image and whatever the device answers, the download
  sends no command after one that failed and returns its error; when every command was taken, it returns
  an error only for a status that makes no sense, or reads outside of the image.
\<close>

theorem bt_download_stops_at_error:
  "dl_ended ans (fst (btmtk_setup_firmware_79xx ans (Inr img))) (snd (btmtk_setup_firmware_79xx ans (Inr img)))"
  using section_loop_ended [of ans "[]" 0 img _ 0 None]
  by (auto simp: btmtk_setup_firmware_79xx_def dl_ended_def split: option.split)

section \<open>ISO packets\<close>

fun isopkt_chunks :: "rx_env \<Rightarrow> bt_iso \<Rightarrow> u8 list list \<Rightarrow> unit res \<times> bt_iso" where
  "isopkt_chunks env st [] = (Inr (), st)"
| "isopkt_chunks env st (c # cs) =
     (case btmtk_recv_isopkt env st c of
        (Inl err, st) \<Rightarrow> (Inl err, st) | (Inr u, st) \<Rightarrow> isopkt_chunks env st cs)"

lemma isopkt_chunks_feed:
  assumes "feed (rx_recv env Iso) (bi_skb st) cs = Some (skb, ds)"
  shows "isopkt_chunks env st cs = (Inr (), st\<lparr>bi_delivered := bi_delivered st @ ds, bi_skb := skb\<rparr>)"
  using assms
proof (induction cs arbitrary: st ds)
  case Nil
  then show ?case by simp
next
  case (Cons c cs)
  then obtain s1 d1 d2 where c: "rx_recv env Iso (bi_skb st) c = Some (s1, d1)"
    and cs: "feed (rx_recv env Iso) s1 cs = Some (skb, d2)" and ds: "ds = d1 @ d2"
    by (auto split: option.splits)
  then have "btmtk_recv_isopkt env st c = (Inr (), st\<lparr>bi_delivered := bi_delivered st @ d1, bi_skb := s1\<rparr>)"
    by (auto simp: btmtk_recv_isopkt_def rx_recv_def split: prod.splits sum.splits)
  then show ?case using Cons.IH [of _ d2] cs ds by simp
qed

text \<open>However the bytes of well-formed ISO packets are cut into transfers, these packets are delivered.\<close>

lemma iso_any_chunking:
  assumes "bi_skb st = None" "list_all (frame_wf (rx_always core room) Iso) ps" "concat chunks = concat ps"
  shows "isopkt_chunks (rx_always core room) st chunks = (Inr (), st\<lparr>bi_delivered := bi_delivered st @ ps\<rparr>)"
proof -
  have "feed (rx_recv (rx_always core room) Iso) None chunks = Some (None, ps)"
    using h4.any_chunking [of core room Iso ps chunks] assms(2,3) by (simp add: stream_kind_def)
  then show ?thesis using isopkt_chunks_feed [of "rx_always core room" st chunks None ps] assms(1) by simp
qed

text \<open>The ISO endpoint runs only while its interface is claimed.\<close>

definition iso_ok :: "bt_iso \<Rightarrow> bool" where
  "iso_ok st \<longleftrightarrow> (bi_running st \<longrightarrow> bi_over_intr st)"

lemma iso_ok_keeps:
  assumes "iso_ok st"
  shows "iso_ok (btusb_mtk_release_iso_intf st)" "\<not> bi_running (btusb_mtk_release_iso_intf st)"
    "iso_ok (btmtk_usb_resume ep submit st)" "iso_ok (btmtk_usb_suspend st)"
    "iso_ok (btusb_mtk_setup has claimed st)" "iso_ok (snd (btusb_mtk_reset autopm gpio err st))"
    "iso_ok (snd (snd (setup_79xx env dev_id ver flavor st)))"
  using assms
  by (auto simp: iso_ok_def btusb_mtk_release_iso_intf_def btmtk_usb_resume_def btmtk_usb_suspend_def btusb_mtk_setup_def
      btusb_mtk_claim_iso_intf_def btusb_mtk_reset_def setup_79xx_def btmtk_submit_intr_urb_def btmtk_usb_isointf_init_def
      Let_def split: prod.splits dl_out.splits if_splits)

section \<open>File names\<close>

lemma hex_str_length: "n < 16 ^ k \<Longrightarrow> 0 < k \<Longrightarrow> length (hex_str n) \<le> k"
proof (induction k arbitrary: n)
  case 0
  then show ?case by simp
next
  case (Suc k)
  show ?case
  proof (cases "n < 16")
    case True
    then show ?thesis by (subst hex_str.simps) simp
  next
    case False
    then have k: "0 < k" using Suc.prems(1) by (cases k) auto
    have "n div 16 < 16 ^ k" using Suc.prems(1) by (simp add: less_mult_imp_div_less mult.commute)
    then show ?thesis using Suc.IH [of "n div 16"] k False by (subst hex_str.simps) simp
  qed
qed

text \<open>No name is cut off by the buffer of 64 bytes, and the first version of the MT7902 has the listed name.\<close>

lemma firmware_name_fits: "btmtk_fw_get_filename 64 dev_id fw_ver fw_flavor = fw_name dev_id fw_ver fw_flavor"
proof -
  have ver: "length (hex_str (unat ((fw_ver AND 0xff) + 1))) \<le> 3"
  proof (rule hex_str_length)
    have "fw_ver AND 0xff = take_bit 8 fw_ver" by (simp add: take_bit_eq_mask mask_eq_exp_minus_1)
    then have "unat (fw_ver AND 0xff) < 256" by (simp add: unsigned_take_bit_eq take_bit_nat_less_exp [of 8, simplified])
    then show "unat ((fw_ver AND 0xff) + 1) < 16 ^ 3" by (simp add: unat_word_ariths)
  qed simp
  define mt where "mt = hex4 (unat (dev_id AND 0xffff))"
  have mt: "length mt = 4"
  proof -
    have "dev_id AND 0xffff = take_bit 16 dev_id" by (simp add: take_bit_eq_mask mask_eq_exp_minus_1)
    then have "unat (dev_id AND 0xffff) < 65536" by (simp add: unsigned_take_bit_eq take_bit_nat_less_exp [of 16, simplified])
    then have "length (hex_str (unat (dev_id AND 0xffff))) \<le> 4" by (intro hex_str_length) simp_all
    then show ?thesis by (simp add: hex4_def mt_def)
  qed
  have "length (fw_name dev_id fw_ver fw_flavor) \<le> 63"
    unfolding fw_name_def mt_def [symmetric] Let_def using ver mt by (simp split: if_split)
  then show ?thesis by (simp add: btmtk_fw_get_filename_def)
qed

lemma firmware_name_mt7902: "fw_name 0x7902 0 flavor = ''mediatek/BT_RAM_CODE_MT7902_1_1_hdr.bin''"
proof -
  have "hex4 (unat ((0x7902 :: u32) AND 0xffff)) = ''7902''" "hex_str (unat (((0::u32) AND 0xff) + 1)) = ''1''" by code_simp+
  then show ?thesis by (simp add: fw_name_def)
qed

section \<open>What is not guaranteed\<close>

text \<open>A device that reports progress twenty times is taken for one that is ready.\<close>

lemma progress_taken_for_ready:
  assumes "\<forall>n q. ans n q = (0, Some Patch_progress)"
  shows "query_section ans p n status cs = (Q_download, if n = 0 then status else Some Patch_progress, cs @ replicate n p)"
  using assms
proof (induction n arbitrary: status cs)
  case 0
  then show ?case by simp
next
  case (Suc n)
  then show ?case by (simp add: last_status_def replicate_append_same)
qed

text \<open>A section of one block is never marked as ended, while the older routine marks such an image.\<close>

lemma single_block_not_ended:
  assumes "d \<noteq> []" "length d \<le> 250"
  shows "map wp_flag (block_cmds True d) = [1]"
    and "map wp_flag (snd (bt_patch_loop (\<lambda>_ _. (0, None)) (length d) d 1 0 [])) = [3]"
proof -
  show "map wp_flag (block_cmds True d) = [1]"
    using assms by (subst block_cmds.simps) (simp add: block_cmds.simps)
  show "map wp_flag (snd (bt_patch_loop (\<lambda>_ _. (0, None)) (length d) d 1 0 [])) = [3]"
    using assms by (subst bt_patch_loop.simps) (simp add: Let_def min_def bt_patch_loop.simps [of _ _ "[]"])
qed

text \<open>The copy of a section's description takes a byte more than it needs: here from behind the image.\<close>

lemma description_overread:
  "fst (btmtk_setup_firmware_79xx ans (Inr (replicate 44 0 @ put_le32 1 @ replicate 64 0 @ put_le32 1 @ replicate 44 0))) = Dl_oob"
proof -
  define img where "img = replicate 44 (0 :: u8) @ put_le32 1 @ replicate 64 0 @ put_le32 1 @ replicate 44 0"
  have n: "img_get img 44 4 = Some (put_le32 1)" unfolding img_def by code_simp
  have m: "img_get img 96 20 = Some (replicate 16 0 @ put_le32 1)" unfolding img_def by code_simp
  have s: "img_get img 108 53 = None" unfolding img_def by code_simp
  have le: "unat (le32 (put_le32 1) 0) = Suc 0" "le32 (replicate 16 0 @ put_le32 1) 16 \<noteq> 0" by code_simp+
  show ?thesis
    unfolding img_def [symmetric] btmtk_setup_firmware_79xx_def using n m s le by (simp add: Let_def)
qed

text \<open>A killed control request, or one that cannot be submitted, leaves its set-up packet allocated.\<close>

lemma setup_packet_leaks:
  "bw_setups (snd (snd (btmtk_usb_hci_wmt_sync (demo_env\<lparr>we_urb := [Urb_killed]\<rparr>) p demo_wmt))) = 1 \<or> 250 < length (wp_data p)"
  "bw_setups (snd (snd (btmtk_usb_hci_wmt_sync (demo_env\<lparr>we_submit := -19\<rparr>) p demo_wmt))) = 1 \<or> 250 < length (wp_data p)"
  by (auto simp: btmtk_usb_hci_wmt_sync_def demo_env_def demo_wmt_def btmtk_usb_submit_wmt_recv_urb_def Let_def free_cmd_def)

text \<open>
  When the interface cannot be woken for a reset, the flag of a running reset stays set: every later
  reset is refused.
\<close>

lemma reset_refused_for_ever:
  assumes "\<not> bi_reset_active st" "autopm < 0"
  shows "fst (btusb_mtk_reset autopm2 gpio err (snd (btusb_mtk_reset autopm gpio err st))) = -16"
  using assms by (simp add: btusb_mtk_reset_def)

text \<open>When the command for the ISO interface fails, its request stays on the anchor over a suspend.\<close>

lemma iso_request_survives_suspend:
  assumes "submit \<ge> 0" "cmd < 0" "\<not> bi_running st"
  shows "bi_anchored (btmtk_usb_suspend (snd (btmtk_usb_isointf_init True submit cmd st))) = bi_anchored st + 1"
  using assms by (simp add: btmtk_usb_isointf_init_def btmtk_submit_intr_urb_def btmtk_usb_suspend_def)

text \<open>An ISO packet that is too long leaks its request; one that cannot be padded is freed and reported too.\<close>

lemma iso_send_leaks:
  "264 < length d \<Longrightarrow> alloc_mtk_intr_urb True True pad_ok d = (Inl (-22), 1, False)"
  "length d \<le> 264 \<Longrightarrow> alloc_mtk_intr_urb True True False d = (Inl (-22), 1, True)"
  by (simp_all add: alloc_mtk_intr_urb_def btmtk_isopkt_pad_def)

text \<open>A reset that is not seen to complete, or after which the device has no identity, is a success.\<close>

lemma reset_failure_not_reported:
  "fst (btmtk_usb_subsys_reset (\<lambda>_. (4, 0)) False 4 0 0x7902) = 4"
  "snd (snd (btmtk_usb_subsys_reset (\<lambda>_. (4, 0)) False 4 0 0x7902))"
  by (simp_all add: btmtk_usb_subsys_reset_def reset_ops_def)

end
