(* ===== verification/Spec2Isabelle.thy ===== *)
theory Spec2Isabelle
  imports AggRxProps WcidUtil Worker DmaTx DmaRxProps TxSched BtUsbRx BtUsbTx McuMsg RxPath
    ChanProps RxDescFrame ClcProps McuCodecProps TxPowerProps PmState TxPrep BtMtkProps
begin

text \<open>
  Verification of the MT7902 driver: the mt76 wireless driver (src/src/mt76) with its MT7921
  family part (src/src/mt76/mt7921, mt792x_*.c), and the Bluetooth USB driver (src/src/bluetooth).
  This root theory only gathers the library; each theory below holds one component, its state,
  its operations and what was proved of them.

  How the program works. mac80211 hands frames to \<open>mt76_tx\<close> (tx.c), which keeps them in lists per
  client; a worker thread (util.c) moves them, and the frames of mac80211's own queues, to the
  hardware queues. The DMA layer (dma.c) writes a descriptor per two buffers into a ring and takes
  the entries back when the hardware is done. Frames of a device with transmit descriptors hold a
  token, which a TX-free event gives back (tx.c, mt7921/mac.c). Frames whose status was asked for
  have a packet id until the status report arrives or time is up (tx.c, mt76_connac_mac.c). In
  the other direction the DMA layer fills a ring with buffers, reassembles frames and hands them to
  the bus driver; per-client checks (mac80211.c) and the reorder buffer of a block-ack session
  (agg-rx.c) follow before mac80211 gets them. Commands to the firmware go through mcu.c. The
  Bluetooth driver cuts USB transfers into HCI packets and sends HCI packets as USB requests,
  deferring them while the device sleeps.

  Theories and code.

    \<^item> Mt76Prelude: machine words, the kernel's bit-field macros, 32-bit time, bitmaps as
      integers, and the locale \<open>state_machine\<close> (initial states, a step function, an invariant
      that every step keeps; then every run keeps it), which most components interpret.
    \<^item> AggRx, AggRxProps (agg-rx.c): a \<open>rx_tid\<close> is \<open>struct mt76_rx_tid\<close>. The frame handler refines
      insertion into a finite map from sequence numbers to frames followed by release of the
      contiguous run at the head; frames leave in order and once; the time-out releases what waited
      too long; stopping a session frees every buffered frame once. All functions of the file.
    \<^item> WcidUtil (util.c, util.h): polling, the bitmap of client indices as a pool of numbers
      (locale \<open>id_pool\<close>), the smallest average signal.
    \<^item> Worker (util.c, util.h): the worker thread as a program counter, with the operations of the
      other threads interleaved: no wake-up is lost.
    \<^item> Tokens (tx.c, mt7921/mac.c): token numbers, the blocking of the queues when they get scarce,
      the TX-free event.
    \<^item> DmaRing, DmaTx (dma.c, dma.h, mt76.h): \<open>dma_queue\<close> is \<open>struct mt76_queue\<close> with its ring
      registers; the ring refines a bounded queue (locale \<open>bounded_fifo\<close>). Descriptors decode to the
      buffers they were made from; cleaning up completes entries in order and once; the error exits
      of a submission leave nothing mapped.
    \<^item> DmaRx, DmaRxProps (dma.c): filling, reassembly, the NAPI poll. Each buffer taken off the ring
      is handed over, kept or recycled, exactly once; the budget bounds the poll.
    \<^item> TxsRate (mt76_connac_mac.c, mac80211.c): decoding of a status report into rate and counters;
      the legacy rate table.
    \<^item> TxState, TxStatus (tx.c, mt76_connac_mac.c, mac80211.c): packet ids and status reports. A
      frame is reported at most once whatever the order of its completion, its report, time-outs and
      the removal of its client, and a flush leaves nothing behind.
    \<^item> TxSched (tx.c): the lists per client, bursts from mac80211's queues, release in power save.
    \<^item> McuMsg (mcu.c): a command with its response, time-outs and retries; no buffer leaks.
    \<^item> McuCodec, McuCodecProps (mt76_connac_mcu.c, mt7921/mcu.c): the headers of commands, the parser of
      responses. Sequence numbers do not repeat within fifteen commands; a header says what was sent;
      with this parser a command of McuMsg accepts only the answer to its last send.
    \<^item> FwLoad, FwLoadProps (mt76_connac_mcu.c, mt792x_core.c): the ROM patch and the RAM code are sent
      with the addresses, bytes and order of the image; the semaphore is given back on every path.
      Images that lie about their lengths are read out of bounds.
    \<^item> Clc, ClcProps (mt7921/mcu.c): the country power tables in the RAM image; the rules of a country
      are sent, or the world rules; a record of length 0 hangs the driver.
    \<^item> RxPath (mac80211.c): replay detection, signal, airtime of aggregates, power-save tracking,
      delivery.
    \<^item> ChanCtx, ChanInv, ChanProps (channel.c, scan.c, mac80211.c): radios, interfaces, links and
      channel contexts with \<open>dev->mutex\<close> in the state. A scan ends once and visits every channel;
      remaining on a channel deadlocks.
    \<^item> BtUsbRx (bluetooth/btusb.c): HCI packets are delivered exactly however the byte stream is cut
      into transfers (locale \<open>stream_framing\<close>); event transfers resynchronise.
    \<^item> BtUsbTx (bluetooth/btusb.c): submission, deferral, suspend and resume; no request is lost or
      sent twice.
    \<^item> RxDesc, RxDescProps, RxDescFrame (mt7921/mac.c, mt76_connac_mac.c, mt792x_mac.c): the receive
      descriptor. The handler works on the memory of the buffer, where headers are pushed over the
      descriptor. An accepted frame stays in its buffer; the 802.11 header rebuilt for a fragment
      inverts the translation the hardware made; A-MPDU references follow the timestamps; rates are
      within their limits. Two lemmas show what is misreported: space-time streams and the
      bandwidth of HE MU frames.
    \<^item> AcpiSar, AcpiSarProps (mt792x_acpi_sar.c, mac80211.c, mt7921/main.c): power limits from ACPI
      and from the user. Tables that pass the checks of the set-up are large enough for every lookup; the
      limit of a frequency range is never above what either asks for.
    \<^item> TxPower, TxPowerProps (eeprom.c, mt76_connac_mcu.c): limits per rate from the device tree, and the
      table of limits sent to the firmware. It has every channel once, in bounded messages of which
      exactly the last one is marked, and no limit above the power of its channel.
    \<^item> PmState (mt76_connac.h, mt76_connac_mac.c, mt792x_mac.c, mt792x_core.c): sleeping and waking with
      the wake work, the power-save work, the users and the senders of frames interleaved. A user that
      was told that the device is awake finds it awake; a frame that finds it asleep is not stranded.
    \<^item> TxDesc, TxDescProps, TxPrep (mt76_connac_mac.c, mt7921/pci_mac.c): the transmit descriptor and the
      list of buffers behind it. Its fields decode to what the code was given; preparing a frame puts
      Tokens, TxStatus and TxDesc together.
    \<^item> BtMtk, BtMtkProps (bluetooth/btmtk.c, btusb.c): the exchange of a command with the Bluetooth
      firmware, the download in sections, reset, ISO packets (which use the framing of BtUsbRx), set-up and
      shut-down. An exchange leaves nothing behind; sections are sent whole; the first error ends a
      download.

  Conventions. A C structure is a record with the fields its component uses; pointers that can be
  NULL are options, objects reached through several pointers are numbered and live in a map of
  the state. Integers keep their width (\<open>u8\<close>, \<open>u16\<close>, \<open>u32\<close>, \<open>u64\<close>) where the code's
  result can depend on it. Code that a handler runs under a lock is one step; where the code takes
  no lock (the worker thread) the steps are interleaved. What is not in this repository is a
  parameter: the kernel's allocators and idr, the DMA mapping, mac80211, the Bluetooth core, the
  bus drivers' operations, the firmware. Hypotheses on such parameters say what their documentation
  promises, and each theorem with a hypothesis is followed by an instance where it holds. Calls out
  of the driver and frees are recorded in logs of the state, so that theorems can count them.

  Bounds and fuel. Loops of the code are functions with a termination proof, with these exceptions:
  the NAPI poll carries \<open>budget + 1\<close> rounds, which suffice since every round but the last makes
  progress (\<open>rx_poll_ends_in_budget\<close>); a burst carries more rounds than mac80211 has frames
  left (\<open>send_burst_bounded\<close>); the wait for a response carries the waits and twice the retries
  plus two (\<open>mcu_message_accounting\<close>); the scatter loop of a firmware image is a partial function,
  which is defined when the maximal length is positive (\<open>firmware_scattered_whole\<close>). The walks over
  country records and rules are partial functions too, since they need not end: that they do on
  well-formed records is part of \<open>country_rules_sent\<close>, and \<open>clc_zero_length_hangs\<close> is a case where
  they do not.

  Not modelled: device I/O (probing, register access, interrupts, the polling of statistics); the
  builders of the structures of single firmware commands, which are sequences of assignments to
  fields; capability tables handed to cfg80211; debugfs and tracing; the radiotap headers of later
  chips (mt76_connac3_mac.c); the Bluetooth set-up of other vendors' chips. The component list of the
  manifest names the files. The configuration is CONFIG_MT76_NPU and CONFIG_NL80211_TESTMODE off; WED
  offload appears in the DMA and token components as flags of the queue and counters of the device.
\<close>

end
